(* ===== verification/Prelude.thy ===== *)
theory Prelude
  imports Complex_Main "HOL-Library.AList" "HOL-Library.Char_ord" "HOL-Library.List_Lexorder"
    "HOL-Library.Multiset"
begin

text \<open>
  What the components share: the JavaScript values and library calls the source uses,
  the loops that stop at the first failure, and the proof automation.

  \<^item> Strings are lists of code units below 256 (\<open>string\<close>); the character classes
    \<open>\d\<close>, \<open>[0-9a-f]\<close> and \<open>\s\<close>, \<open>trim\<close> and \<open>toLowerCase\<close> are those of
    ECMAScript restricted to these code units.
  \<^item> BigInt is \<open>int\<close>, its division truncates towards zero; a JavaScript number that the
    source tests with \<open>Number.isInteger\<close> is a \<open>js_number\<close>.
  \<^item> A \<open>Map\<close> is an association list in insertion order (\<open>AList.update\<close> overwrites in
    place or appends, as \<open>Map.set\<close> does).
  \<^item> A call that may throw returns \<open>'e + 'a\<close>, \<open>Inl\<close> being the thrown error.
\<close>

named_theorems code_defs \<open>definitions that evaluate on concrete input\<close>
named_theorems inv_intros \<open>introduction rules of the invariants\<close>

type_synonym js_string = string
type_synonym ('k, 'v) js_map = "('k \<times> 'v) list"

section \<open>Character classes and string operations\<close>

definition code_unit :: "char \<Rightarrow> nat" where
  "code_unit c = of_char c"

definition is_digit :: "char \<Rightarrow> bool" where
  "is_digit c \<longleftrightarrow> 48 \<le> code_unit c \<and> code_unit c \<le> 57"

definition is_hex_lower :: "char \<Rightarrow> bool" where
  "is_hex_lower c \<longleftrightarrow> is_digit c \<or> 97 \<le> code_unit c \<and> code_unit c \<le> 102"

definition is_space :: "char \<Rightarrow> bool" where
  "is_space c \<longleftrightarrow> 9 \<le> code_unit c \<and> code_unit c \<le> 13 \<or> code_unit c = 32 \<or> code_unit c = 160"

definition digit_val :: "char \<Rightarrow> nat" where
  "digit_val c = code_unit c - 48"

definition js_trim :: "js_string \<Rightarrow> js_string" where
  "js_trim s = rev (dropWhile is_space (rev (dropWhile is_space s)))"

definition lower_char :: "char \<Rightarrow> char" where
  "lower_char c =
     (let n = code_unit c
      in if 65 \<le> n \<and> n \<le> 90 \<or> 192 \<le> n \<and> n \<le> 222 \<and> n \<noteq> 215 then char_of (n + 32) else c)"

definition to_lower :: "js_string \<Rightarrow> js_string" where
  "to_lower s = map lower_char s"

text \<open>The patterns \<open>/^\d{n}$/\<close> and \<open>/^[0-9a-f]{64}$/\<close> (no flag \<open>m\<close>: \<open>$\<close> is the end).\<close>

definition digits_exactly :: "nat \<Rightarrow> js_string \<Rightarrow> bool" where
  "digits_exactly n s \<longleftrightarrow> length s = n \<and> list_all is_digit s"

definition hex64 :: "js_string \<Rightarrow> bool" where
  "hex64 s \<longleftrightarrow> length s = 64 \<and> list_all is_hex_lower s"

text \<open>\<open>/^\d{4}-\d{2}-\d{2}$/\<close>\<close>

definition ISO_DATE_PATTERN :: "js_string \<Rightarrow> bool" where
  "ISO_DATE_PATTERN s \<longleftrightarrow>
     length s = 10 \<and> list_all is_digit (take 4 s) \<and> s ! 4 = CHR ''-'' \<and>
     list_all is_digit (take 2 (drop 5 s)) \<and> s ! 7 = CHR ''-'' \<and> list_all is_digit (drop 8 s)"

lemmas char_defs = code_unit_def is_digit_def is_hex_lower_def is_space_def digit_val_def
  lower_char_def digits_exactly_def hex64_def

declare char_defs [code_defs] js_trim_def [code_defs] to_lower_def [code_defs]

lemma digits_exactly_length: "digits_exactly n s \<Longrightarrow> length s = n"
  by (simp add: digits_exactly_def)

lemma digits_exactly_nth: "digits_exactly n s \<Longrightarrow> i < n \<Longrightarrow> is_digit (s ! i)"
  by (simp add: digits_exactly_def list_all_length)

lemma digit_val_le: "is_digit c \<Longrightarrow> digit_val c \<le> 9"
  unfolding is_digit_def digit_val_def by linarith

lemma code_unit_inject [simp]: "code_unit c = code_unit d \<longleftrightarrow> c = d"
  by (auto simp: code_unit_def)

lemma digit_val_inj: "is_digit c \<Longrightarrow> is_digit d \<Longrightarrow> digit_val c = digit_val d \<longleftrightarrow> c = d"
proof -
  assume "is_digit c" and "is_digit d"
  then have "digit_val c = digit_val d \<longleftrightarrow> code_unit c = code_unit d"
    unfolding is_digit_def digit_val_def by linarith
  then show ?thesis by simp
qed

lemma dropWhile_rev_dropWhile:
  assumes "xs = [] \<or> \<not> P (hd xs)"
  shows "dropWhile P (rev (dropWhile P (rev xs))) = rev (dropWhile P (rev xs))"
proof (cases "rev (dropWhile P (rev xs))")
  case Nil
  then show ?thesis by (simp only: dropWhile.simps)
next
  case (Cons y ys)
  have "xs = rev (dropWhile P (rev xs)) @ rev (takeWhile P (rev xs))"
    by (metis rev_append rev_rev_ident takeWhile_dropWhile_id)
  with Cons have "hd xs = y" and "xs \<noteq> []"
    by (metis append_Cons list.sel(1), force)
  with assms Cons show ?thesis by simp
qed

lemma js_trim_idem [simp]: "js_trim (js_trim s) = js_trim s"
proof -
  let ?d = "dropWhile is_space s"
  have "?d = [] \<or> \<not> is_space (hd ?d)"
    using hd_dropWhile by blast
  then show ?thesis by (simp add: js_trim_def dropWhile_rev_dropWhile)
qed

section \<open>Decimal numerals\<close>

fun dec_nat :: "nat \<Rightarrow> js_string" where
  "dec_nat n =
     (if n < 10 then [char_of (48 + n)] else dec_nat (n div 10) @ [char_of (48 + n mod 10)])"

declare dec_nat.simps [simp del]

definition dec_int :: "int \<Rightarrow> js_string" where
  "dec_int i = (if i < 0 then CHR ''-'' # dec_nat (nat (- i)) else dec_nat (nat i))"

fun undec :: "js_string \<Rightarrow> nat" where
  "undec s = foldl (\<lambda>a c. 10 * a + digit_val c) 0 s"

declare undec.simps [simp del]

lemma undec_snoc: "undec (s @ [c]) = 10 * undec s + digit_val c"
  by (simp add: undec.simps)

lemma code_unit_char_of [simp]: "n < 256 \<Longrightarrow> code_unit (char_of n) = n"
  for n :: nat
  by (simp add: code_unit_def)

lemma digit_val_char_of [simp]: "d < 10 \<Longrightarrow> digit_val (char_of (48 + d)) = d"
  for d :: nat
  by (simp add: digit_val_def)

lemma is_digit_char_of [simp]: "d < 10 \<Longrightarrow> is_digit (char_of (48 + d))"
  for d :: nat
  by (simp add: is_digit_def)

lemma dec_nat_digits: "list_all is_digit (dec_nat n)"
proof (induction n rule: dec_nat.induct)
  case (1 n)
  then show ?case by (subst dec_nat.simps) auto
qed

lemma dec_nat_nonempty: "dec_nat n \<noteq> []"
  by (subst dec_nat.simps) simp

lemma undec_dec_nat [simp]: "undec (dec_nat n) = n"
proof (induction n rule: dec_nat.induct)
  case (1 n)
  show ?case
  proof (cases "n < 10")
    case True
    then show ?thesis by (simp add: dec_nat.simps [of n] undec.simps)
  next
    case False
    with 1 show ?thesis by (simp add: dec_nat.simps [of n] undec_snoc)
  qed
qed

lemma dec_nat_inject [simp]: "dec_nat m = dec_nat n \<longleftrightarrow> m = n"
  by (metis undec_dec_nat)

lemma split_at_non_digit:
  assumes "list_all is_digit a" and "list_all is_digit b"
    and "\<not> is_digit c" and "a @ c # s = b @ c # t"
  shows "a = b \<and> s = t"
  using assms
proof (induction a arbitrary: b)
  case Nil
  then show ?case by (cases b) auto
next
  case (Cons x a)
  then show ?case by (cases b) auto
qed

text \<open>Length-delimited components can be read back in one way only.\<close>

lemma length_prefixed_inject:
  assumes "dec_nat (length a) @ CHR '':'' # a @ s = dec_nat (length b) @ CHR '':'' # b @ t"
  shows "a = b \<and> s = t"
proof -
  have "\<not> is_digit CHR '':''" by (simp add: is_digit_def code_unit_def)
  from split_at_non_digit [OF dec_nat_digits dec_nat_digits this assms]
  have "length a = length b" and "a @ s = b @ t" by simp_all
  then show ?thesis by simp
qed

section \<open>Numbers\<close>

datatype js_number = Fin rat | NaN | Infinite bool

fun is_integer :: "js_number \<Rightarrow> bool" where
  "is_integer (Fin r) = (r = of_int \<lfloor>r\<rfloor>)"
| "is_integer _ = False"

fun to_bigint :: "js_number \<Rightarrow> int" where
  "to_bigint (Fin r) = \<lfloor>r\<rfloor>"
| "to_bigint _ = 0"

text \<open>\<open>BigInt(x)\<close> is only applied after \<open>Number.isInteger(x)\<close>, where \<open>to_bigint\<close> is exact.\<close>

definition bigint_div :: "int \<Rightarrow> int \<Rightarrow> int" where
  "bigint_div a b = sgn a * sgn b * (\<bar>a\<bar> div \<bar>b\<bar>)"

lemma bigint_div_nonneg: "0 \<le> a \<Longrightarrow> 0 < b \<Longrightarrow> bigint_div a b = a div b"
  by (cases "a = 0") (auto simp: bigint_div_def)

lemma to_bigint_of_int [simp]: "to_bigint (Fin (of_int i)) = i"
  by simp

lemma is_integer_of_int [simp]: "is_integer (Fin (of_int i))"
  by simp

section \<open>Loops that stop at the first failure\<close>

text \<open>\<open>xs.map(f)\<close> where \<open>f\<close> may throw, and a \<open>for\<close> loop whose body only checks.\<close>

fun traverse :: "('a \<Rightarrow> 'e + 'b) \<Rightarrow> 'a list \<Rightarrow> 'e + 'b list" where
  "traverse f [] = Inr []"
| "traverse f (x # xs) =
     (case f x of
        Inl e \<Rightarrow> Inl e
      | Inr y \<Rightarrow> (case traverse f xs of Inl e \<Rightarrow> Inl e | Inr ys \<Rightarrow> Inr (y # ys)))"

fun first_error :: "('a \<Rightarrow> 'e option) \<Rightarrow> 'a list \<Rightarrow> 'e option" where
  "first_error f [] = None"
| "first_error f (x # xs) = (case f x of Some e \<Rightarrow> Some e | None \<Rightarrow> first_error f xs)"

lemma traverse_Inr_iff: "traverse f xs = Inr ys \<longleftrightarrow> list_all2 (\<lambda>x y. f x = Inr y) xs ys"
proof (induction xs arbitrary: ys)
  case Nil
  then show ?case by auto
next
  case (Cons x xs)
  have "traverse f (x # xs) = Inr ys \<longleftrightarrow>
      (\<exists>z zs. ys = z # zs \<and> f x = Inr z \<and> traverse f xs = Inr zs)"
    by (auto split: sum.splits)
  then show ?case by (auto simp: Cons.IH list_all2_Cons1)
qed

lemma traverse_length: "traverse f xs = Inr ys \<Longrightarrow> length ys = length xs"
  by (simp add: traverse_Inr_iff list_all2_lengthD)

lemma traverse_mem:
  "traverse f xs = Inr ys \<Longrightarrow> y \<in> set ys \<Longrightarrow> \<exists>x \<in> set xs. f x = Inr y"
  by (induction xs arbitrary: ys) (auto split: sum.splits)

lemma traverse_Inl: "traverse f xs = Inl e \<Longrightarrow> \<exists>x \<in> set xs. f x = Inl e"
  by (induction xs) (auto split: sum.splits)

lemma traverse_map_iff:
  assumes "\<And>x y. f x = Inr y \<longleftrightarrow> P x \<and> y = g x"
  shows "traverse f xs = Inr ys \<longleftrightarrow> list_all P xs \<and> ys = map g xs"
proof (induction xs arbitrary: ys)
  case (Cons x xs)
  have "traverse f (x # xs) = Inr ys \<longleftrightarrow>
      (\<exists>z zs. ys = z # zs \<and> f x = Inr z \<and> traverse f xs = Inr zs)"
    by (auto split: sum.splits)
  then show ?case unfolding Cons.IH assms by auto
qed auto

lemma traverse_Inl_iff: "traverse f xs = Inl e \<longleftrightarrow>
    (\<exists>x. find (\<lambda>x. isl (f x)) xs = Some x \<and> f x = Inl e)"
proof (induction xs)
  case (Cons x xs)
  then show ?case by (cases "f x") (auto split: sum.splits)
qed simp

lemma first_error_None_iff: "first_error f xs = None \<longleftrightarrow> (\<forall>x \<in> set xs. f x = None)"
  by (induction xs) (auto split: option.splits)

lemma first_error_Some: "first_error f xs = Some e \<Longrightarrow> \<exists>x \<in> set xs. f x = Some e"
  by (induction xs) (auto split: option.splits)

text \<open>\<open>for (const x of xs) if (!seen.has(k(x))) ...\<close>: distinct keys of a list.\<close>

lemma list_all2_map_fst: "list_all2 (\<lambda>x y. f x = g y) xs ys \<Longrightarrow> map f xs = map g ys"
  by (induction xs ys rule: list_all2_induct) auto

text \<open>\<open>findIndex\<close>: the first position that satisfies the test.\<close>

fun find_index :: "('a \<Rightarrow> bool) \<Rightarrow> 'a list \<Rightarrow> nat option" where
  "find_index P [] = None"
| "find_index P (x # xs) = (if P x then Some 0 else map_option Suc (find_index P xs))"

lemma find_index_None_iff: "find_index P xs = None \<longleftrightarrow> (\<forall>x \<in> set xs. \<not> P x)"
  by (induction xs) auto

lemma find_index_Some:
  "find_index P xs = Some i \<Longrightarrow> i < length xs \<and> P (xs ! i) \<and> (\<forall>j < i. \<not> P (xs ! j))"
  by (induction xs arbitrary: i) (auto simp: less_Suc_eq_0_disj split: if_splits)

section \<open>Array.prototype.sort\<close>

text \<open>
  The sort of the language is stable; for a comparator that is a total preorder its result is
  determined, and it is the one of stable insertion. \<open>findIndex\<close>/\<open>splice\<close> take the first hit.
\<close>

fun sort_insert :: "('a \<Rightarrow> 'a \<Rightarrow> int) \<Rightarrow> 'a \<Rightarrow> 'a list \<Rightarrow> 'a list" where
  "sort_insert cmp x [] = [x]"
| "sort_insert cmp x (y # ys) =
     (if cmp x y \<le> 0 then x # y # ys else y # sort_insert cmp x ys)"

definition js_sort :: "('a \<Rightarrow> 'a \<Rightarrow> int) \<Rightarrow> 'a list \<Rightarrow> 'a list" where
  "js_sort cmp xs = foldr (sort_insert cmp) xs []"

lemma mset_sort_insert [simp]: "mset (sort_insert cmp x ys) = add_mset x (mset ys)"
  by (induction ys) auto

lemma mset_js_sort [simp]: "mset (js_sort cmp xs) = mset xs"
  by (induction xs) (auto simp: js_sort_def)

lemma set_js_sort [simp]: "set (js_sort cmp xs) = set xs"
  by (metis mset_js_sort set_mset_mset)

lemma length_js_sort [simp]: "length (js_sort cmp xs) = length xs"
  by (metis mset_js_sort size_mset)

lemma js_sort_Nil [simp]: "js_sort cmp [] = []"
  by (simp add: js_sort_def)

definition total_preorder :: "('a \<Rightarrow> 'a \<Rightarrow> int) \<Rightarrow> bool" where
  "total_preorder cmp \<longleftrightarrow>
     (\<forall>x y. cmp x y \<le> 0 \<or> cmp y x \<le> 0) \<and>
     (\<forall>x y z. cmp x y \<le> 0 \<longrightarrow> cmp y z \<le> 0 \<longrightarrow> cmp x z \<le> 0)"

lemma sorted_sort_insert:
  assumes "total_preorder cmp" and "sorted_wrt (\<lambda>x y. cmp x y \<le> 0) ys"
  shows "sorted_wrt (\<lambda>x y. cmp x y \<le> 0) (sort_insert cmp x ys)"
  using assms(2)
proof (induction ys)
  case Nil
  then show ?case by simp
next
  case (Cons y ys)
  have set: "set (sort_insert cmp x ys) = insert x (set ys)"
    by (metis mset_sort_insert set_mset_add_mset_insert set_mset_mset)
  show ?case
  proof (cases "cmp x y \<le> 0")
    case True
    with Cons.prems assms(1) show ?thesis
      by (auto simp: total_preorder_def)
  next
    case False
    with assms(1) have "cmp y x \<le> 0" by (auto simp: total_preorder_def)
    with False Cons set show ?thesis by auto
  qed
qed

lemma sorted_js_sort:
  "total_preorder cmp \<Longrightarrow> sorted_wrt (\<lambda>x y. cmp x y \<le> 0) (js_sort cmp xs)"
  by (induction xs) (auto simp: js_sort_def intro: sorted_sort_insert)

lemma sort_insert_least: "\<forall>y \<in> set ys. cmp x y \<le> 0 \<Longrightarrow> sort_insert cmp x ys = x # ys"
  by (cases ys) auto

lemma js_sort_sorted: "sorted_wrt (\<lambda>x y. cmp x y \<le> 0) xs \<Longrightarrow> js_sort cmp xs = xs"
proof (induction xs)
  case Nil
  then show ?case by simp
next
  case (Cons x xs)
  then have "js_sort cmp xs = xs" and "\<forall>y \<in> set xs. cmp x y \<le> 0" by simp_all
  then show ?case by (simp add: js_sort_def sort_insert_least)
qed

text \<open>For an antisymmetric order the sorted list is determined by its multiset.\<close>

lemma sorted_wrt_unique:
  assumes "sorted_wrt P xs" and "sorted_wrt P ys" and "mset xs = mset ys"
    and "\<And>x y. x \<in> set xs \<Longrightarrow> y \<in> set xs \<Longrightarrow> P x y \<Longrightarrow> P y x \<Longrightarrow> x = y"
  shows "xs = ys"
  using assms
proof (induction xs arbitrary: ys)
  case Nil
  then show ?case by simp
next
  case (Cons x xs)
  then obtain y ys' where ys: "ys = y # ys'" by (cases ys) auto
  have s: "set ys = insert x (set xs)" using Cons.prems(3) by (metis list.simps(15) set_mset_mset)
  have "x = y"
  proof (rule ccontr)
    assume "x \<noteq> y"
    then have "x \<in> set ys'" and "y \<in> set xs" using s ys by auto
    with Cons.prems(1,2) ys have "P x y" and "P y x" by auto
    with Cons.prems(4) \<open>y \<in> set xs\<close> have "x = y" by simp
    with \<open>x \<noteq> y\<close> show False by simp
  qed
  moreover have "xs = ys'"
    using Cons.prems ys \<open>x = y\<close> by (intro Cons.IH) auto
  ultimately show ?case using ys by simp
qed

lemma js_sort_unique:
  assumes "total_preorder cmp" and "mset xs = mset ys"
    and "\<And>x y. x \<in> set xs \<Longrightarrow> y \<in> set xs \<Longrightarrow> cmp x y \<le> 0 \<Longrightarrow> cmp y x \<le> 0 \<Longrightarrow> x = y"
  shows "js_sort cmp xs = js_sort cmp ys"
  by (rule sorted_wrt_unique [of "\<lambda>x y. cmp x y \<le> 0"])
    (use assms sorted_js_sort in auto)

lemma sort_insert_snoc:
  "cmp x e \<le> 0 \<Longrightarrow> sort_insert cmp x (ys @ [e]) = sort_insert cmp x ys @ [e]"
  by (induction ys) auto

lemma js_sort_snoc: "\<forall>x \<in> set xs. cmp x e \<le> 0 \<Longrightarrow> js_sort cmp (xs @ [e]) = js_sort cmp xs @ [e]"
  by (induction xs) (auto simp: js_sort_def sort_insert_snoc)

lemma hd_sort_insert: "ys \<noteq> [] \<Longrightarrow> hd (sort_insert cmp x ys) = (if cmp x (hd ys) \<le> 0 then x else hd ys)"
  by (cases ys) auto

lemma js_sort_eq_Nil [simp]: "js_sort cmp xs = [] \<longleftrightarrow> xs = []"
  by (metis length_0_conv length_js_sort)

text \<open>Sorting is stable: the first element is the earliest of the least ones.\<close>

lemma hd_js_sort_split:
  assumes "total_preorder cmp"
  shows "xs \<noteq> [] \<Longrightarrow> \<exists>pre post. xs = pre @ hd (js_sort cmp xs) # post \<and>
     list_all (\<lambda>t. \<not> cmp t (hd (js_sort cmp xs)) \<le> 0) pre \<and> list_all (\<lambda>t. cmp (hd (js_sort cmp xs)) t \<le> 0) post"
proof (induction xs)
  case (Cons x xs)
  have r: "cmp a a \<le> 0" for a using assms by (auto simp: total_preorder_def)
  show ?case
  proof (cases "xs = []")
    case True
    then show ?thesis by (auto simp: js_sort_def intro: exI [of _ "[]"])
  next
    case False
    with Cons.IH obtain pre post where s: "xs = pre @ hd (js_sort cmp xs) # post"
      "list_all (\<lambda>t. \<not> cmp t (hd (js_sort cmp xs)) \<le> 0) pre" "list_all (\<lambda>t. cmp (hd (js_sort cmp xs)) t \<le> 0) post"
      by blast
    have h: "hd (js_sort cmp (x # xs)) = (if cmp x (hd (js_sort cmp xs)) \<le> 0 then x else hd (js_sort cmp xs))"
      using False hd_sort_insert [of "js_sort cmp xs" cmp x] by (simp add: js_sort_def [of cmp "x # xs"] js_sort_def [symmetric])
    show ?thesis
    proof (cases "cmp x (hd (js_sort cmp xs)) \<le> 0")
      case True
      have "cmp x t \<le> 0" if "t \<in> set xs" for t
      proof -
        have "cmp (hd (js_sort cmp xs)) t \<le> 0"
          using sorted_js_sort [OF assms, of xs] that False r
          by (cases "js_sort cmp xs") (auto simp flip: set_js_sort [of cmp xs])
        with True assms show ?thesis unfolding total_preorder_def by blast
      qed
      with h True show ?thesis by (intro exI [of _ "[]"] exI [of _ xs]) (simp add: list_all_iff)
    next
      case False
      with h s show ?thesis by (intro exI [of _ "x # pre"] exI [of _ post]) simp
    qed
  qed
qed simp

lemma hd_js_sort_snoc:
  assumes "total_preorder cmp"
  shows "xs \<noteq> [] \<Longrightarrow> hd (js_sort cmp (xs @ [e])) =
     (if cmp (hd (js_sort cmp xs)) e \<le> 0 then hd (js_sort cmp xs) else e)"
proof (induction xs)
  case (Cons x xs)
  have step: "hd (js_sort cmp (a # ys)) = (if ys = [] \<or> cmp a (hd (js_sort cmp ys)) \<le> 0 then a else hd (js_sort cmp ys))"
    for a ys
    using hd_sort_insert [of "js_sort cmp ys" cmp a]
    by (cases "ys = []") (simp add: js_sort_def, simp add: js_sort_def [of cmp "a # ys"] js_sort_def [symmetric])
  have tr: "cmp a b \<le> 0 \<Longrightarrow> cmp b c \<le> 0 \<Longrightarrow> cmp a c \<le> 0" and tot: "cmp a b \<le> 0 \<or> cmp b a \<le> 0" for a b c
    using assms unfolding total_preorder_def by blast+
  show ?case
  proof (cases "xs = []")
    case True
    then show ?thesis by (simp add: js_sort_def)
  next
    case False
    with Cons.IH step [of x xs] step [of x "xs @ [e]"] tr tot show ?thesis
      by (smt (verit) append_Cons append_is_Nil_conv list.discI)
  qed
qed simp

lemma js_sort_cong:
  assumes "\<And>x y. x \<in> set xs \<Longrightarrow> y \<in> set xs \<Longrightarrow> f x y = g x y"
  shows "js_sort f xs = js_sort g xs"
proof -
  have ins: "sort_insert f x ys = sort_insert g x ys" if "\<forall>y \<in> set ys. f x y = g x y" for x ys
    using that by (induction ys) auto
  have "set zs \<subseteq> set xs \<Longrightarrow> js_sort f zs = js_sort g zs" for zs
  proof (induction zs)
    case (Cons z zs)
    then have "sort_insert f z (js_sort g zs) = sort_insert g z (js_sort g zs)"
      using assms by (intro ins) auto
    with Cons show ?case by (simp add: js_sort_def)
  qed simp
  then show ?thesis by simp
qed

section \<open>Insertion-ordered maps\<close>

lemma update_same_keys: "k \<in> fst ` set m \<Longrightarrow> map fst (AList.update k v m) = map fst m"
  by (induction m) auto

lemma update_new_key: "k \<notin> fst ` set m \<Longrightarrow> AList.update k v m = m @ [(k, v)]"
  by (induction m) auto

lemma update_map_preserved:
  assumes "map_of m k = Some x" and "f y = f x"
  shows "map (f \<circ> snd) (AList.update k y m) = map (f \<circ> snd) m"
  using assms by (induction m) (auto split: if_splits)

lemma set_update_distinct:
  "distinct (map fst m) \<Longrightarrow>
     set (AList.update k y m) = insert (k, y) {p \<in> set m. fst p \<noteq> k}"
  by (induction m) (auto simp: rev_image_eqI)

lemma in_set_update: "(i, x) \<in> set (AList.update k v m) \<Longrightarrow> (i, x) = (k, v) \<or> (i, x) \<in> set m"
  by (induction m) (auto split: if_splits)

lemma map_of_update [simp]: "map_of (AList.update k v m) = (map_of m)(k \<mapsto> v)"
  by (simp add: update_conv')

lemma map_of_delete [simp]: "map_of (AList.delete k m) = (map_of m)(k := None)"
  by (simp add: delete_conv')

end
