(* ===== verification/Mission_Status.thy ===== *)
theory Mission_Status
  imports Prelude
begin

text \<open>
  \<^verbatim>\<open>missions/status.ts\<close>, \<^verbatim>\<open>missions/transitions.ts\<close> and
  \<^verbatim>\<open>missions/errors.ts\<close>: the 15 mission states, their transition matrix and
  classifications, the guards that throw on an illegal move, and the error taxonomy.
  A thrown \<open>MissionError\<close> is a \<open>mission_error\<close>; its human-readable message is not
  modelled.
\<close>

section \<open>Status\<close>

datatype mission_status =
    DRAFT | QUEUED | RUNNING | BLOCKED | AWAITING_APPROVAL | APPROVED | REJECTED
  | REVISION_REQUESTED | COMPLETED | FAILED | UNKNOWN
  | RECOVERING | WAITING_FOR_EVIDENCE | BLOCKED_BY_GATE | RETRYING

datatype wait_reason = EVIDENCE | APPROVAL | POLICY_GATE | EXTERNAL_SYSTEM | MANUAL_INTERVENTION

definition all_statuses :: "mission_status list" where
  "all_statuses =
     [DRAFT, QUEUED, RUNNING, BLOCKED, AWAITING_APPROVAL, APPROVED, REJECTED,
      REVISION_REQUESTED, COMPLETED, FAILED, UNKNOWN,
      RECOVERING, WAITING_FOR_EVIDENCE, BLOCKED_BY_GATE, RETRYING]"

text \<open>The matrix as the source builds it: a \<open>Map\<close> from a state to a \<open>Set\<close>, both in order.\<close>

definition VALID_TRANSITIONS :: "(mission_status, mission_status list) js_map" where
  "VALID_TRANSITIONS =
     [(DRAFT, [QUEUED]),
      (QUEUED, [RUNNING, FAILED]),
      (RUNNING,
        [BLOCKED, AWAITING_APPROVAL, COMPLETED, FAILED, UNKNOWN,
         WAITING_FOR_EVIDENCE, BLOCKED_BY_GATE, RETRYING]),
      (BLOCKED, [RUNNING, FAILED]),
      (WAITING_FOR_EVIDENCE, [RUNNING, FAILED]),
      (BLOCKED_BY_GATE, [RUNNING, AWAITING_APPROVAL, FAILED]),
      (RECOVERING, [RUNNING, FAILED]),
      (RETRYING, [RUNNING, FAILED]),
      (AWAITING_APPROVAL, [APPROVED, REJECTED, RUNNING]),
      (APPROVED, [COMPLETED, FAILED]),
      (REJECTED, [REVISION_REQUESTED]),
      (REVISION_REQUESTED, [QUEUED]),
      (COMPLETED, []),
      (FAILED, []),
      (UNKNOWN, [RUNNING, FAILED, COMPLETED])]"

definition TERMINAL_STATES :: "mission_status list" where
  "TERMINAL_STATES = [COMPLETED, FAILED]"

definition EXECUTION_STATES :: "mission_status list" where
  "EXECUTION_STATES =
     [DRAFT, QUEUED, RUNNING, RECOVERING, APPROVED, REJECTED, REVISION_REQUESTED]"

definition WAIT_STATES :: "mission_status list" where
  "WAIT_STATES =
     [WAITING_FOR_EVIDENCE, AWAITING_APPROVAL, BLOCKED_BY_GATE, BLOCKED, RETRYING, UNKNOWN]"

definition isExecutionState :: "mission_status \<Rightarrow> bool" where
  "isExecutionState s \<longleftrightarrow> s \<in> set EXECUTION_STATES"

definition isWaitState :: "mission_status \<Rightarrow> bool" where
  "isWaitState s \<longleftrightarrow> s \<in> set WAIT_STATES"

fun waitReasonFor :: "mission_status \<Rightarrow> wait_reason option" where
  "waitReasonFor WAITING_FOR_EVIDENCE = Some EVIDENCE"
| "waitReasonFor AWAITING_APPROVAL = Some APPROVAL"
| "waitReasonFor BLOCKED_BY_GATE = Some POLICY_GATE"
| "waitReasonFor BLOCKED = Some MANUAL_INTERVENTION"
| "waitReasonFor RETRYING = Some EXTERNAL_SYSTEM"
| "waitReasonFor UNKNOWN = Some EXTERNAL_SYSTEM"
| "waitReasonFor _ = None"

definition EXTENDED_STATES :: "mission_status list" where
  "EXTENDED_STATES = [WAITING_FOR_EVIDENCE, BLOCKED_BY_GATE, BLOCKED]"

definition isTerminal :: "mission_status \<Rightarrow> bool" where
  "isTerminal s \<longleftrightarrow> s \<in> set TERMINAL_STATES"

definition isAwaitingApproval :: "mission_status \<Rightarrow> bool" where
  "isAwaitingApproval s \<longleftrightarrow> s = AWAITING_APPROVAL"

definition isWaitingForHuman :: "mission_status \<Rightarrow> bool" where
  "isWaitingForHuman s \<longleftrightarrow> s \<in> set EXTENDED_STATES \<or> isAwaitingApproval s"

fun isRecoverable :: "mission_status \<Rightarrow> bool" where
  "isRecoverable WAITING_FOR_EVIDENCE = True"
| "isRecoverable BLOCKED_BY_GATE = True"
| "isRecoverable BLOCKED = True"
| "isRecoverable RETRYING = True"
| "isRecoverable UNKNOWN = True"
| "isRecoverable REVISION_REQUESTED = True"
| "isRecoverable _ = False"

definition RUNNABLE_STATES :: "mission_status list" where
  "RUNNABLE_STATES = [DRAFT, QUEUED, REVISION_REQUESTED]"

definition isRunnable :: "mission_status \<Rightarrow> bool" where
  "isRunnable s \<longleftrightarrow> s \<in> set RUNNABLE_STATES"

definition RESUMABLE_STATES :: "mission_status list" where
  "RESUMABLE_STATES = [WAITING_FOR_EVIDENCE, BLOCKED_BY_GATE, RETRYING, UNKNOWN]"

definition isResumable :: "mission_status \<Rightarrow> bool" where
  "isResumable s \<longleftrightarrow> s \<in> set RESUMABLE_STATES \<or> isRunnable s"

lemmas status_defs = VALID_TRANSITIONS_def TERMINAL_STATES_def EXECUTION_STATES_def
  WAIT_STATES_def isExecutionState_def isWaitState_def EXTENDED_STATES_def isTerminal_def
  isAwaitingApproval_def isWaitingForHuman_def RUNNABLE_STATES_def isRunnable_def
  RESUMABLE_STATES_def isResumable_def all_statuses_def

declare status_defs [code_defs]

section \<open>Errors\<close>

datatype mission_error_code =
    E_UNAUTHORIZED | E_TOKEN_EXPIRED | E_TOKEN_REVOKED | E_INSUFFICIENT_SCOPE
  | E_TENANT_MISMATCH | E_ORGANIZATION_NOT_FOUND | E_COMPANY_NOT_FOUND
  | E_INVALID_INPUT | E_MISSION_NOT_FOUND | E_INVALID_PERIOD | E_INVALID_INTENT
  | E_VERSION_CONFLICT | E_ALREADY_EXECUTING | E_TERMINAL_STATE_GUARD
  | E_IDEMPOTENCY_CONFLICT
  | E_INVALID_TRANSITION | E_MISSION_STATE_CONFLICT | E_UNKNOWN_STATE | E_RECONCILIATION_FAILED
  | E_EVIDENCE_MISMATCH | E_EVIDENCE_NOT_FOUND | E_EVIDENCE_EXPIRED
  | E_APPROVAL_ALREADY_DECIDED | E_APPROVAL_INVALID_SIGNER | E_PROPOSAL_VERSION_CONFLICT
  | E_PROPOSAL_EXPIRED
  | E_HARNESS_TIMEOUT | E_EXTERNAL_SERVICE_UNAVAILABLE | E_SSE_CONNECTION_LOST
  | E_RECEIPT_VERIFICATION
  | E_OTHER js_string \<comment> \<open>a string outside the enumeration, cast to the type\<close>

datatype error_family =
    Fam_AUTH | Fam_TENANT | Fam_VALIDATION | Fam_CONCURRENCY | Fam_IDEMPOTENCY
  | Fam_MISSION_STATE | Fam_EVIDENCE | Fam_APPROVAL | Fam_EXTERNAL_SYSTEM | Fam_UNKNOWN

fun family_map :: "mission_error_code \<Rightarrow> error_family option" where
  "family_map E_UNAUTHORIZED = Some Fam_AUTH"
| "family_map E_TOKEN_EXPIRED = Some Fam_AUTH"
| "family_map E_TOKEN_REVOKED = Some Fam_AUTH"
| "family_map E_INSUFFICIENT_SCOPE = Some Fam_AUTH"
| "family_map E_TENANT_MISMATCH = Some Fam_TENANT"
| "family_map E_ORGANIZATION_NOT_FOUND = Some Fam_TENANT"
| "family_map E_COMPANY_NOT_FOUND = Some Fam_TENANT"
| "family_map E_INVALID_INPUT = Some Fam_VALIDATION"
| "family_map E_MISSION_NOT_FOUND = Some Fam_VALIDATION"
| "family_map E_INVALID_PERIOD = Some Fam_VALIDATION"
| "family_map E_INVALID_INTENT = Some Fam_VALIDATION"
| "family_map E_VERSION_CONFLICT = Some Fam_CONCURRENCY"
| "family_map E_ALREADY_EXECUTING = Some Fam_CONCURRENCY"
| "family_map E_TERMINAL_STATE_GUARD = Some Fam_CONCURRENCY"
| "family_map E_IDEMPOTENCY_CONFLICT = Some Fam_IDEMPOTENCY"
| "family_map E_INVALID_TRANSITION = Some Fam_MISSION_STATE"
| "family_map E_MISSION_STATE_CONFLICT = Some Fam_MISSION_STATE"
| "family_map E_UNKNOWN_STATE = Some Fam_MISSION_STATE"
| "family_map E_RECONCILIATION_FAILED = Some Fam_MISSION_STATE"
| "family_map E_EVIDENCE_MISMATCH = Some Fam_EVIDENCE"
| "family_map E_EVIDENCE_NOT_FOUND = Some Fam_EVIDENCE"
| "family_map E_EVIDENCE_EXPIRED = Some Fam_EVIDENCE"
| "family_map E_APPROVAL_ALREADY_DECIDED = Some Fam_APPROVAL"
| "family_map E_APPROVAL_INVALID_SIGNER = Some Fam_APPROVAL"
| "family_map E_PROPOSAL_VERSION_CONFLICT = Some Fam_APPROVAL"
| "family_map E_PROPOSAL_EXPIRED = Some Fam_APPROVAL"
| "family_map E_HARNESS_TIMEOUT = Some Fam_EXTERNAL_SYSTEM"
| "family_map E_EXTERNAL_SERVICE_UNAVAILABLE = Some Fam_EXTERNAL_SYSTEM"
| "family_map E_SSE_CONNECTION_LOST = Some Fam_EXTERNAL_SYSTEM"
| "family_map E_RECEIPT_VERIFICATION = Some Fam_EXTERNAL_SYSTEM"
| "family_map (E_OTHER _) = None"

fun status_code_map :: "mission_error_code \<Rightarrow> int option" where
  "status_code_map E_UNAUTHORIZED = Some 401"
| "status_code_map E_TOKEN_EXPIRED = Some 401"
| "status_code_map E_TOKEN_REVOKED = Some 401"
| "status_code_map E_INSUFFICIENT_SCOPE = Some 403"
| "status_code_map E_TENANT_MISMATCH = Some 403"
| "status_code_map E_ORGANIZATION_NOT_FOUND = Some 404"
| "status_code_map E_COMPANY_NOT_FOUND = Some 404"
| "status_code_map E_INVALID_INPUT = Some 400"
| "status_code_map E_MISSION_NOT_FOUND = Some 404"
| "status_code_map E_INVALID_PERIOD = Some 400"
| "status_code_map E_INVALID_INTENT = Some 400"
| "status_code_map E_VERSION_CONFLICT = Some 409"
| "status_code_map E_ALREADY_EXECUTING = Some 409"
| "status_code_map E_TERMINAL_STATE_GUARD = Some 409"
| "status_code_map E_IDEMPOTENCY_CONFLICT = Some 409"
| "status_code_map E_INVALID_TRANSITION = Some 409"
| "status_code_map E_MISSION_STATE_CONFLICT = Some 409"
| "status_code_map E_UNKNOWN_STATE = Some 500"
| "status_code_map E_RECONCILIATION_FAILED = Some 500"
| "status_code_map E_EVIDENCE_MISMATCH = Some 409"
| "status_code_map E_EVIDENCE_NOT_FOUND = Some 404"
| "status_code_map E_EVIDENCE_EXPIRED = Some 410"
| "status_code_map E_APPROVAL_ALREADY_DECIDED = Some 409"
| "status_code_map E_APPROVAL_INVALID_SIGNER = Some 403"
| "status_code_map E_PROPOSAL_VERSION_CONFLICT = Some 409"
| "status_code_map E_PROPOSAL_EXPIRED = Some 410"
| "status_code_map E_HARNESS_TIMEOUT = Some 504"
| "status_code_map E_EXTERNAL_SERVICE_UNAVAILABLE = Some 503"
| "status_code_map E_SSE_CONNECTION_LOST = Some 500"
| "status_code_map E_RECEIPT_VERIFICATION = Some 500"
| "status_code_map (E_OTHER _) = None"

text \<open>The \<open>details\<close> objects the modelled code attaches.\<close>

datatype error_details =
    D_none
  | D_move mission_status mission_status
  | D_status mission_status
  | D_mission js_string
  | D_mission_status js_string mission_status
  | D_versions int int
  | D_key js_string

record mission_error =
  err_code :: mission_error_code
  err_status :: int
  err_details :: error_details

text \<open>The constructor: \<open>statusCode ?? STATUS_CODE_MAP[code] ?? 400\<close>.\<close>

definition MissionError :: "mission_error_code \<Rightarrow> int option \<Rightarrow> error_details \<Rightarrow> mission_error" where
  "MissionError c sc d =
     \<lparr>err_code = c,
      err_status =
        (case sc of Some n \<Rightarrow> n
         | None \<Rightarrow> (case status_code_map c of Some n \<Rightarrow> n | None \<Rightarrow> 400)),
      err_details = d\<rparr>"

definition err_family :: "mission_error \<Rightarrow> error_family" where
  "err_family e = (case family_map (err_code e) of Some f \<Rightarrow> f | None \<Rightarrow> Fam_UNKNOWN)"

fun isRetryable_code :: "mission_error_code \<Rightarrow> bool" where
  "isRetryable_code E_HARNESS_TIMEOUT = True"
| "isRetryable_code E_EXTERNAL_SERVICE_UNAVAILABLE = True"
| "isRetryable_code E_SSE_CONNECTION_LOST = True"
| "isRetryable_code E_VERSION_CONFLICT = True"
| "isRetryable_code _ = False"

definition isRetryable :: "mission_error \<Rightarrow> bool" where
  "isRetryable e = isRetryable_code (err_code e)"

section \<open>Transitions\<close>

definition transition ::
  "mission_status \<Rightarrow> mission_status \<Rightarrow> mission_error + mission_status" where
  "transition from_s to_s =
     (case map_of VALID_TRANSITIONS from_s of
        None \<Rightarrow> Inl (MissionError E_INVALID_TRANSITION None (D_move from_s to_s))
      | Some targets \<Rightarrow>
          if to_s \<notin> set targets
          then Inl (MissionError E_INVALID_TRANSITION None (D_move from_s to_s))
          else Inr to_s)"

definition validateTransition :: "mission_status \<Rightarrow> mission_status \<Rightarrow> mission_error + unit" where
  "validateTransition from_s to_s =
     (case transition from_s to_s of Inl e \<Rightarrow> Inl e | Inr _ \<Rightarrow> Inr ())"

definition guardTerminal :: "mission_status \<Rightarrow> mission_error + unit" where
  "guardTerminal s =
     (if s \<in> set TERMINAL_STATES
      then Inl (MissionError E_TERMINAL_STATE_GUARD (Some 409) (D_status s))
      else Inr ())"

definition RECOVERY_TARGETS :: "mission_status list" where
  "RECOVERY_TARGETS = [RUNNING, FAILED, COMPLETED]"

definition UNKNOWN_RECOVERY_TRANSITIONS :: "(mission_status, mission_status list) js_map" where
  "UNKNOWN_RECOVERY_TRANSITIONS = [(UNKNOWN, RECOVERY_TARGETS)]"

definition reconcileTransition ::
  "mission_status \<Rightarrow> mission_status \<Rightarrow> mission_error + mission_status" where
  "reconcileTransition from_s resolution =
     (if from_s \<noteq> UNKNOWN
      then Inl (MissionError E_INVALID_TRANSITION None (D_move from_s resolution))
      else (case map_of UNKNOWN_RECOVERY_TRANSITIONS from_s of
              None \<Rightarrow> Inl (MissionError E_INVALID_TRANSITION None (D_move from_s resolution))
            | Some targets \<Rightarrow>
                if resolution \<notin> set targets
                then Inl (MissionError E_INVALID_TRANSITION None (D_move from_s resolution))
                else Inr resolution))"

definition isValidRecoveryPath :: "mission_status \<Rightarrow> mission_status \<Rightarrow> bool" where
  "isValidRecoveryPath from_s to_s \<longleftrightarrow> from_s = UNKNOWN \<and> to_s \<in> set RECOVERY_TARGETS"

lemmas transition_defs = transition_def validateTransition_def guardTerminal_def
  RECOVERY_TARGETS_def UNKNOWN_RECOVERY_TRANSITIONS_def reconcileTransition_def
  isValidRecoveryPath_def MissionError_def

declare transition_defs [code_defs]

section \<open>The matrix as a step relation\<close>

text \<open>
  The specification the guards are measured against: one rule per entry of the matrix.
\<close>

inductive mission_step :: "mission_status \<Rightarrow> mission_status \<Rightarrow> bool" where
  step: "map_of VALID_TRANSITIONS s = Some ts \<Longrightarrow> t \<in> set ts \<Longrightarrow> mission_step s t"

inductive_simps mission_step_iff: "mission_step s t"
inductive_cases mission_stepE: "mission_step s t"

abbreviation mission_path :: "mission_status \<Rightarrow> mission_status \<Rightarrow> bool" where
  "mission_path \<equiv> mission_step\<^sup>*\<^sup>*"

lemma mission_step_code [code_defs]:
  "mission_step s t \<longleftrightarrow>
     (case map_of VALID_TRANSITIONS s of None \<Rightarrow> False | Some ts \<Rightarrow> t \<in> set ts)"
  by (auto simp: mission_step_iff split: option.splits)

lemma matrix_total: "\<exists>ts. map_of VALID_TRANSITIONS s = Some ts"
  by (cases s) (simp_all add: VALID_TRANSITIONS_def)

lemma transition_Inr_iff: "transition s t = Inr u \<longleftrightarrow> mission_step s t \<and> u = t"
  using matrix_total [of s] by (auto simp: transition_def mission_step_code split: if_splits)

lemma transition_Inl:
  "\<not> mission_step s t \<Longrightarrow>
     transition s t = Inl (MissionError E_INVALID_TRANSITION None (D_move s t))"
  using matrix_total [of s] by (auto simp: transition_def mission_step_code)

lemma validateTransition_Inr_iff: "validateTransition s t = Inr () \<longleftrightarrow> mission_step s t"
proof (cases "mission_step s t")
  case True
  then have "transition s t = Inr t" by (simp add: transition_Inr_iff)
  with True show ?thesis by (simp add: validateTransition_def)
next
  case False
  then show ?thesis by (simp add: validateTransition_def transition_Inl)
qed

lemma guardTerminal_Inr_iff: "guardTerminal s = Inr () \<longleftrightarrow> \<not> isTerminal s"
  by (simp add: guardTerminal_def isTerminal_def)

lemma terminal_no_step: "isTerminal s \<Longrightarrow> \<not> mission_step s t"
  by (cases s) (simp_all add: mission_step_code status_defs)

lemma terminal_iff_no_step: "isTerminal s \<longleftrightarrow> (\<forall>t. \<not> mission_step s t)"
proof (cases "isTerminal s")
  case True
  then show ?thesis by (simp add: terminal_no_step)
next
  case False
  then have "\<exists>t. mission_step s t"
    by (cases s) (auto simp: mission_step_code status_defs)
  with False show ?thesis by blast
qed

lemma reconcileTransition_Inr_iff:
  "reconcileTransition s t = Inr u \<longleftrightarrow> s = UNKNOWN \<and> t \<in> {RUNNING, FAILED, COMPLETED} \<and> u = t"
  by (auto simp: transition_defs)

lemma reconcile_is_step: "reconcileTransition s t = Inr u \<Longrightarrow> mission_step s u"
  by (auto simp: reconcileTransition_Inr_iff mission_step_code status_defs)

lemma terminal_path: "mission_path s t \<Longrightarrow> isTerminal s \<Longrightarrow> t = s"
  by (induction rule: converse_rtranclp_induct) (auto dest: terminal_no_step)

section \<open>Properties of the matrix\<close>

text \<open>Reaching a terminal state, by the shortest route the matrix offers.\<close>

lemma step_to:
  "mission_step DRAFT QUEUED" "mission_step QUEUED FAILED" "mission_step RUNNING FAILED"
  "mission_step BLOCKED FAILED" "mission_step WAITING_FOR_EVIDENCE FAILED"
  "mission_step BLOCKED_BY_GATE FAILED" "mission_step RECOVERING FAILED"
  "mission_step RETRYING FAILED" "mission_step AWAITING_APPROVAL APPROVED"
  "mission_step APPROVED FAILED" "mission_step APPROVED COMPLETED"
  "mission_step REJECTED REVISION_REQUESTED" "mission_step REVISION_REQUESTED QUEUED"
  "mission_step UNKNOWN FAILED" "mission_step QUEUED RUNNING"
  "mission_step RUNNING AWAITING_APPROVAL" "mission_step RUNNING UNKNOWN"
  by (simp_all add: mission_step_code VALID_TRANSITIONS_def)

lemma path_to_failed: "s \<noteq> COMPLETED \<Longrightarrow> mission_path s FAILED"
proof -
  have q: "mission_path QUEUED FAILED" and a: "mission_path APPROVED FAILED"
    using step_to by (blast intro: r_into_rtranclp)+
  have "mission_path DRAFT FAILED" "mission_path REVISION_REQUESTED FAILED"
    "mission_path AWAITING_APPROVAL FAILED"
    using step_to q a by (blast intro: converse_rtranclp_into_rtranclp)+
  moreover from this have "mission_path REJECTED FAILED"
    using step_to by (blast intro: converse_rtranclp_into_rtranclp)
  moreover assume "s \<noteq> COMPLETED"
  ultimately show ?thesis
    using q a step_to by (cases s) (blast intro: r_into_rtranclp)+
qed

text \<open>
  What a run can reach from the initial state: every state but \<open>RECOVERING\<close>, which no
  entry of the matrix targets.
\<close>

lemma step_not_recovering: "mission_step s t \<Longrightarrow> t \<noteq> RECOVERING"
  by (cases s) (auto simp: mission_step_code VALID_TRANSITIONS_def)

lemma path_not_recovering: "mission_path DRAFT t \<Longrightarrow> t \<noteq> RECOVERING"
  by (induction rule: rtranclp_induct) (auto dest: step_not_recovering)

text \<open>Every way to \<open>COMPLETED\<close> starts with a decision or a running mission.\<close>

lemma step_to_completed: "mission_step s COMPLETED \<longleftrightarrow> s \<in> {RUNNING, APPROVED, UNKNOWN}"
  by (cases s) (auto simp: mission_step_code VALID_TRANSITIONS_def)

lemma step_to_approved: "mission_step s APPROVED \<longleftrightarrow> s = AWAITING_APPROVAL"
  by (cases s) (auto simp: mission_step_code VALID_TRANSITIONS_def)

lemma step_to_unknown: "mission_step s UNKNOWN \<longleftrightarrow> s = RUNNING"
  by (cases s) (auto simp: mission_step_code VALID_TRANSITIONS_def)

text \<open>
  a mission at any state but the two terminal ones can still be brought to a terminal
  state along the matrix, the terminal states are exactly the ones with no way out, and
  nothing but themselves is reachable from them.
\<close>

theorem lifecycle_terminates_only_in_terminal_states:
  "(isTerminal s \<longleftrightarrow> (\<forall>t. transition s t \<noteq> Inr t)) \<and>
   (\<exists>t. isTerminal t \<and> mission_path s t) \<and>
   {t. mission_path COMPLETED t} = {COMPLETED} \<and> {t. mission_path FAILED t} = {FAILED}"
proof -
  have "\<exists>t. isTerminal t \<and> mission_path s t"
  proof (cases "s = COMPLETED")
    case True
    then show ?thesis by (auto simp: status_defs)
  next
    case False
    then show ?thesis using path_to_failed by (auto simp: status_defs)
  qed
  moreover have stay: "{t. mission_path u t} = {u}" if "isTerminal u" for u
    using terminal_path [OF _ that] by auto
  moreover have "isTerminal COMPLETED" and "isTerminal FAILED"
    by (simp_all add: status_defs)
  moreover have "isTerminal s \<longleftrightarrow> (\<forall>t. transition s t \<noteq> Inr t)"
    using terminal_iff_no_step [of s] by (simp add: transition_Inr_iff)
  ultimately show ?thesis by blast
qed

text \<open>
  the execution, wait and terminal classifications partition the fifteen states, a state
  waits exactly when it has a wait reason, and \<open>RECOVERING\<close> is the one state that no
  mission started in \<open>DRAFT\<close> can be moved to.
\<close>

theorem status_classification_partition:
  "(isExecutionState s \<or> isWaitState s \<or> isTerminal s) \<and>
   \<not> (isExecutionState s \<and> isWaitState s) \<and> \<not> (isExecutionState s \<and> isTerminal s) \<and>
   \<not> (isWaitState s \<and> isTerminal s) \<and>
   (isWaitState s \<longleftrightarrow> waitReasonFor s \<noteq> None) \<and>
   (mission_path DRAFT s \<longleftrightarrow> s \<noteq> RECOVERING)"
proof -
  have run: "mission_path DRAFT RUNNING"
    using step_to by (meson r_into_rtranclp rtranclp.rtrancl_into_rtrancl)
  have via: "mission_step RUNNING t \<Longrightarrow> mission_path DRAFT t" for t
    using run by (rule rtranclp.rtrancl_into_rtrancl)
  have await: "mission_path DRAFT AWAITING_APPROVAL"
    using via step_to by blast
  have rej: "mission_path DRAFT REJECTED" "mission_path DRAFT APPROVED"
    by (rule rtranclp.rtrancl_into_rtrancl [OF await];
        simp add: mission_step_code VALID_TRANSITIONS_def)+
  have rev: "mission_path DRAFT REVISION_REQUESTED"
    using rej(1) step_to by (blast intro: rtranclp.rtrancl_into_rtrancl)
  have q: "mission_path DRAFT QUEUED"
    using step_to by (blast intro: r_into_rtranclp)
  have "s \<noteq> RECOVERING \<Longrightarrow> mission_path DRAFT s"
    using run rej rev q
    by (cases s) (auto intro!: via simp: mission_step_code VALID_TRANSITIONS_def)
  then have "mission_path DRAFT s \<longleftrightarrow> s \<noteq> RECOVERING"
    using path_not_recovering by blast
  then show ?thesis
    by (cases s) (simp_all add: status_defs)
qed

end
