(* ===== verification/Mission_Store.thy ===== *)
theory Mission_Store
  imports Mission_Status
begin

text \<open>
  \<^verbatim>\<open>missions/types.ts\<close>, \<^verbatim>\<open>missions/commands.ts\<close>,
  \<^verbatim>\<open>missions/events.ts\<close> and \<^verbatim>\<open>missions/store.ts\<close>: the mission snapshot and
  the event that carries it, the commands, and the three in-memory stores behind the runtime's
  ports. The ports are the locales \<open>mission_store\<close>, \<open>mission_event_store\<close> and
  \<open>idempotency_store\<close>; the in-memory classes interpret them. Versions, sequences and progress
  are the integers the protocol documents; times are milliseconds, ISO strings are opaque.
\<close>

section \<open>Data\<close>

datatype mission_intent =
    Monthly_Close | Correction | Bank_Reconciliation_Intent | Invoice_Review | Compliance_Check

datatype step_status = S_PENDING | S_IN_PROGRESS | S_COMPLETED | S_FAILED | S_SKIPPED

record MissionStep =
  st_id :: js_string
  st_name :: js_string
  st_description :: "js_string option"
  st_status :: step_status
  st_startedAt :: "js_string option"
  st_completedAt :: "js_string option"
  st_error :: "js_string option"
  st_evidenceIds :: "js_string list option"

record EvidenceItem =
  ei_id :: js_string
  ei_label :: js_string
  ei_type :: js_string

datatype risk_level = Risk_LOW | Risk_MEDIUM | Risk_HIGH

record MissionProposal =
  pr_id :: js_string
  pr_missionId :: js_string
  pr_version :: int
  pr_evidence :: "EvidenceItem list"
  pr_evidenceHash :: js_string
  pr_summary :: js_string
  pr_riskLevel :: risk_level
  pr_generatedAt :: js_string
  pr_expiresAt :: "js_string option"

record MissionRejection =
  rj_reason :: js_string
  rj_rejectedBy :: js_string
  rj_rejectedAt :: js_string
  rj_proposalVersion :: int

datatype blocker_severity = Sev_WARNING | Sev_ERROR | Sev_CRITICAL

record MissionBlocker =
  bl_id :: js_string
  bl_reason :: js_string
  bl_severity :: blocker_severity
  bl_occurredAt :: js_string
  bl_resolvedAt :: "js_string option"

record MissionSnapshot =
  sn_id :: js_string
  sn_companyId :: js_string
  sn_fiscalPeriod :: js_string
  sn_intent :: mission_intent
  sn_status :: mission_status
  sn_version :: int
  sn_progress :: int
  sn_steps :: "MissionStep list"
  sn_currentStep :: js_string
  sn_blockers :: "MissionBlocker list"
  sn_proposal :: "MissionProposal option"
  sn_rejection :: "MissionRejection option"
  sn_receiptId :: "js_string option"
  sn_receiptHash :: "js_string option"
  sn_lastEventSequence :: int
  sn_createdAt :: js_string
  sn_updatedAt :: js_string

datatype mission_event_type =
    Ev_STATE_TRANSITION | Ev_PROGRESS_UPDATE | Ev_BLOCKER_ADDED | Ev_BLOCKER_RESOLVED
  | Ev_PROPOSAL_CREATED | Ev_APPROVAL_DECIDED | Ev_COMPLETED | Ev_FAILED | Ev_TIMEOUT
  | Ev_UNKNOWN | Ev_RECONCILED | Ev_KEEPALIVE

record MissionEvent =
  ev_id :: js_string
  ev_missionId :: js_string
  ev_sequence :: int
  ev_eventType :: mission_event_type
  ev_snapshot :: MissionSnapshot
  ev_createdAt :: js_string

section \<open>Commands\<close>

record CreateMissionCommand =
  cr_companyId :: js_string
  cr_fiscalPeriod :: js_string
  cr_intent :: mission_intent
  cr_instruction :: js_string

record ExecuteMissionCommand =
  ex_expectedMissionVersion :: int

record ApproveMissionCommand =
  ap_proposalId :: js_string
  ap_proposalVersion :: int
  ap_evidenceHash :: js_string
  ap_expectedMissionVersion :: int

record RejectMissionCommand =
  re_proposalId :: js_string
  re_proposalVersion :: int
  re_reason :: js_string
  re_expectedMissionVersion :: int

record ReconcileMissionCommand =
  rc_resolution :: mission_status
  rc_reason :: js_string
  rc_expectedMissionVersion :: int

datatype MissionCommand =
    Create CreateMissionCommand
  | Execute ExecuteMissionCommand
  | Approve ApproveMissionCommand
  | Reject RejectMissionCommand
  | Reconcile ReconcileMissionCommand

section \<open>Mission store\<close>

type_synonym snapshots = "(js_string, MissionSnapshot) js_map"

definition save :: "MissionSnapshot \<Rightarrow> snapshots \<Rightarrow> snapshots" where
  "save snapshot m = AList.update (sn_id snapshot) snapshot m"

definition findById :: "js_string \<Rightarrow> snapshots \<Rightarrow> MissionSnapshot option" where
  "findById i m = map_of m i"

definition findByStatus :: "mission_status list \<Rightarrow> snapshots \<Rightarrow> MissionSnapshot list" where
  "findByStatus statuses m = filter (\<lambda>s. sn_status s \<in> set statuses) (map snd m)"

definition list_missions :: "snapshots \<Rightarrow> MissionSnapshot list" where
  "list_missions m = map snd m"

definition snapshots_ok :: "snapshots \<Rightarrow> bool" where
  "snapshots_ok m \<longleftrightarrow> distinct (map fst m) \<and> list_all (\<lambda>(i, s). sn_id s = i) m"

locale mission_store =
  fixes put :: "MissionSnapshot \<Rightarrow> 's \<Rightarrow> 's"
    and get :: "js_string \<Rightarrow> 's \<Rightarrow> MissionSnapshot option"
    and listing :: "'s \<Rightarrow> MissionSnapshot list"
    and by_status :: "mission_status list \<Rightarrow> 's \<Rightarrow> MissionSnapshot list"
    and ok :: "'s \<Rightarrow> bool"
  assumes get_put: "get i (put x s) = (if i = sn_id x then Some x else get i s)"
    and ok_put: "ok s \<Longrightarrow> ok (put x s)"
    and get_id: "ok s \<Longrightarrow> get i s = Some x \<Longrightarrow> sn_id x = i"
    and listing_iff: "ok s \<Longrightarrow> x \<in> set (listing s) \<longleftrightarrow> get (sn_id x) s = Some x"
    and listing_distinct: "ok s \<Longrightarrow> distinct (map sn_id (listing s))"
    and by_status_listing: "mset (by_status ts s) = mset (filter (\<lambda>x. sn_status x \<in> set ts) (listing s))"
begin

lemma get_put_same [simp]: "get (sn_id x) (put x s) = Some x"
  by (simp add: get_put)

lemma get_put_other [simp]: "i \<noteq> sn_id x \<Longrightarrow> get i (put x s) = get i s"
  by (simp add: get_put)

lemma by_status_iff:
  "ok s \<Longrightarrow> x \<in> set (by_status ts s) \<longleftrightarrow> get (sn_id x) s = Some x \<and> sn_status x \<in> set ts"
  using by_status_listing [of ts s, THEN mset_eq_setD] by (auto simp: listing_iff)

lemma by_status_distinct: "ok s \<Longrightarrow> distinct (map sn_id (by_status ts s))"
  using by_status_listing [of ts s, THEN arg_cong, of "image_mset sn_id"] listing_distinct [of s]
  by (metis distinct_map_filter mset_eq_imp_distinct_iff mset_map)

end

interpretation ms: mission_store save findById list_missions findByStatus snapshots_ok
proof (unfold_locales, goal_cases)
  case (1 i x s)
  then show ?case by (simp add: findById_def save_def)
next
  case (2 s x)
  then show ?case
    by (auto simp: snapshots_ok_def save_def list_all_iff distinct_update dest!: in_set_update)
next
  case (3 s i x)
  then show ?case
    by (auto simp: snapshots_ok_def findById_def list_all_iff dest!: map_of_SomeD)
next
  case (4 s x)
  then have d: "distinct (map fst s)" and i: "\<And>i y. (i, y) \<in> set s \<Longrightarrow> sn_id y = i"
    by (auto simp: snapshots_ok_def list_all_iff)
  have "x \<in> snd ` set s \<longleftrightarrow> (sn_id x, x) \<in> set s"
  proof
    assume "x \<in> snd ` set s"
    then obtain j where "(j, x) \<in> set s" by auto
    with i [OF this] show "(sn_id x, x) \<in> set s" by simp
  next
    assume "(sn_id x, x) \<in> set s"
    then show "x \<in> snd ` set s" by (metis image_eqI snd_conv)
  qed
  then show ?case
    using d by (simp add: list_missions_def findById_def)
next
  case (5 s)
  then have "map sn_id (list_missions s) = map fst s"
    by (auto simp: snapshots_ok_def list_missions_def list_all_iff intro!: map_cong)
  with 5 show ?case by (simp add: snapshots_ok_def)
next
  case (6 ts s)
  then show ?case by (simp add: findByStatus_def list_missions_def)
qed

section \<open>Event store\<close>

type_synonym event_log = "(js_string, MissionEvent list) js_map"

definition append_event :: "MissionEvent \<Rightarrow> event_log \<Rightarrow> event_log" where
  "append_event event m =
     (let existing = (case map_of m (ev_missionId event) of None \<Rightarrow> [] | Some es \<Rightarrow> es)
      in AList.update (ev_missionId event) (existing @ [event]) m)"

definition by_sequence :: "MissionEvent \<Rightarrow> MissionEvent \<Rightarrow> int" where
  "by_sequence a b = ev_sequence a - ev_sequence b"

definition list_events :: "js_string \<Rightarrow> event_log \<Rightarrow> MissionEvent list" where
  "list_events i m =
     js_sort by_sequence (case map_of m i of None \<Rightarrow> [] | Some es \<Rightarrow> es)"

definition all_events :: "event_log \<Rightarrow> MissionEvent list" where
  "all_events m = concat (map snd m)"

locale mission_event_store =
  fixes append :: "MissionEvent \<Rightarrow> 'e \<Rightarrow> 'e"
    and events_of :: "js_string \<Rightarrow> 'e \<Rightarrow> MissionEvent list"
  assumes append_other: "i \<noteq> ev_missionId e \<Longrightarrow> events_of i (append e s) = events_of i s"
    and append_mset:
      "mset (events_of (ev_missionId e) (append e s)) =
         add_mset e (mset (events_of (ev_missionId e) s))"
    and in_order: "sorted_wrt (\<lambda>a b. ev_sequence a \<le> ev_sequence b) (events_of i s)"
    and append_last:
      "(\<And>x. x \<in> set (events_of (ev_missionId e) s) \<Longrightarrow> ev_sequence x \<le> ev_sequence e) \<Longrightarrow>
         events_of (ev_missionId e) (append e s) = events_of (ev_missionId e) s @ [e]"
begin

lemma append_set:
  "set (events_of i (append e s)) =
     (if i = ev_missionId e then insert e (set (events_of i s)) else set (events_of i s))"
  using append_mset [of e s, THEN arg_cong, of set_mset] by (simp add: append_other)

lemma events_grow: "size (events_of i s) \<le> size (events_of i (append e s))"
  using append_mset [of e s, THEN arg_cong, of size] by (cases "i = ev_missionId e") (auto simp: append_other)

end

lemma by_sequence_preorder: "total_preorder by_sequence"
  by (auto simp: total_preorder_def by_sequence_def)

interpretation es: mission_event_store append_event list_events
proof (unfold_locales, goal_cases)
  case (1 i e s)
  then show ?case by (simp add: list_events_def append_event_def Let_def)
next
  case (2 e s)
  then show ?case by (simp add: list_events_def append_event_def Let_def)
next
  case (3 i s)
  then show ?case
    using sorted_js_sort [OF by_sequence_preorder] by (simp add: list_events_def by_sequence_def)
next
  case (4 e s)
  then show ?case
    by (simp add: list_events_def append_event_def Let_def js_sort_snoc by_sequence_def)
qed

section \<open>Idempotency store\<close>

datatype idempotency_status = I_EXECUTING | I_COMPLETED | I_FAILED

text \<open>
  What the runtime caches: the code of the error is the string it had, so that the replay of a
  foreign error carries \<open>INTERNAL_ERROR\<close> and no status.
\<close>

record CachedError =
  ce_code :: mission_error_code
  ce_statusCode :: "int option"
  ce_details :: error_details

datatype cached_result =
    R_started js_string
  | R_applied MissionSnapshot MissionEvent js_string
  | R_error CachedError js_string

record IdempotencyRecord =
  id_key :: js_string
  id_payloadHash :: js_string
  id_status :: idempotency_status
  id_result :: "cached_result option"
  id_expiresAt :: int

type_synonym idempotency_records = "(js_string, IdempotencyRecord) js_map"

text \<open>\<open>get\<close> reads the clock (\<open>now\<close>) and forgets an expired record.\<close>

definition get_record ::
  "int \<Rightarrow> js_string \<Rightarrow> idempotency_records \<Rightarrow> IdempotencyRecord option \<times> idempotency_records" where
  "get_record now key m =
     (case map_of m key of
        None \<Rightarrow> (None, m)
      | Some record \<Rightarrow>
          if id_expiresAt record \<le> now then (None, AList.delete key m) else (Some record, m))"

definition put_record :: "IdempotencyRecord \<Rightarrow> idempotency_records \<Rightarrow> idempotency_records" where
  "put_record record m = AList.update (id_key record) record m"

definition all_records :: "idempotency_records \<Rightarrow> IdempotencyRecord list" where
  "all_records m = map snd m"

locale idempotency_store =
  fixes fetch :: "int \<Rightarrow> js_string \<Rightarrow> 's \<Rightarrow> IdempotencyRecord option \<times> 's"
    and insert_rec :: "IdempotencyRecord \<Rightarrow> 's \<Rightarrow> 's"
  assumes read_write:
      "fst (fetch now k (insert_rec r s)) =
         (if k = id_key r then if id_expiresAt r \<le> now then None else Some r
          else fst (fetch now k s))"
    and read_keeps: "now \<le> later \<Longrightarrow> fst (fetch later k' (snd (fetch now k s))) = fst (fetch later k' s)"
    and read_live: "fst (fetch now k s) = Some r \<Longrightarrow> now < id_expiresAt r"
begin

lemma read_own: "now < id_expiresAt r \<Longrightarrow> fst (fetch now (id_key r) (insert_rec r s)) = Some r"
  by (simp add: read_write)

lemma read_expired: "id_expiresAt r \<le> now \<Longrightarrow> fst (fetch now (id_key r) (insert_rec r s)) = None"
  by (simp add: read_write)

lemma read_again: "fst (fetch now k (snd (fetch now k s))) = fst (fetch now k s)"
  by (simp add: read_keeps)

end

interpretation ids: idempotency_store get_record put_record
  by unfold_locales
    (auto simp: get_record_def put_record_def split: option.splits if_splits)

end
