(* ===== verification/Fencing.thy ===== *)
theory Fencing
  imports Mission_Store
begin

text \<open>
  \<^verbatim>\<open>missions/fencing.ts\<close>: the fence tokens that reject a stale worker. The state is the
  in-memory \<open>Map\<close> of tokens; \<open>FenceConflict\<close> is the thrown error. The interface is the
  locale \<open>fence_store\<close>; \<open>acquireFence\<close> and \<open>assertFence\<close> are its clients, and a
  history of workers is a sequence of acquisitions.
\<close>

type_synonym fence_tokens = "(js_string, int) js_map"

record FenceConflict =
  fc_missionId :: js_string
  fc_currentToken :: int
  fc_staleToken :: int

definition getToken :: "js_string \<Rightarrow> fence_tokens \<Rightarrow> int" where
  "getToken missionId m = (case map_of m missionId of None \<Rightarrow> 0 | Some t \<Rightarrow> t)"

definition setToken :: "js_string \<Rightarrow> int \<Rightarrow> fence_tokens \<Rightarrow> fence_tokens" where
  "setToken missionId token m = AList.update missionId token m"

definition acquireFence :: "js_string \<Rightarrow> fence_tokens \<Rightarrow> int \<times> fence_tokens" where
  "acquireFence missionId m =
     (let next = getToken missionId m + 1 in (next, setToken missionId next m))"

definition assertFence :: "js_string \<Rightarrow> int \<Rightarrow> fence_tokens \<Rightarrow> FenceConflict + unit" where
  "assertFence missionId token m =
     (let current = getToken missionId m
      in if token < current
         then Inl \<lparr>fc_missionId = missionId, fc_currentToken = current, fc_staleToken = token\<rparr>
         else Inr ())"

lemmas fence_defs = getToken_def setToken_def acquireFence_def assertFence_def

declare fence_defs [code_defs]

section \<open>The interface\<close>

locale fence_store =
  fixes get :: "js_string \<Rightarrow> 's \<Rightarrow> int"
    and put :: "js_string \<Rightarrow> int \<Rightarrow> 's \<Rightarrow> 's"
  assumes get_put: "get i (put j t s) = (if i = j then t else get i s)"
begin

definition acquire :: "js_string \<Rightarrow> 's \<Rightarrow> int \<times> 's" where
  "acquire i s = (get i s + 1, put i (get i s + 1) s)"

definition current :: "js_string \<Rightarrow> int \<Rightarrow> 's \<Rightarrow> bool" where
  "current i t s \<longleftrightarrow> get i s \<le> t"

text \<open>The tokens handed out by a sequence of acquisitions, and the store it leaves.\<close>

fun acquire_all :: "js_string list \<Rightarrow> 's \<Rightarrow> (js_string \<times> int) list \<times> 's" where
  "acquire_all [] s = ([], s)"
| "acquire_all (i # is) s =
     (case acquire i s of (t, s') \<Rightarrow>
        (case acquire_all is s' of (ts, s'') \<Rightarrow> ((i, t) # ts, s'')))"

lemma acquire_other: "j \<noteq> i \<Longrightarrow> get j (snd (acquire i s)) = get j s"
  by (simp add: acquire_def get_put)

lemma acquire_current: "current i (fst (acquire i s)) (snd (acquire i s))"
  by (simp add: acquire_def current_def get_put)

lemma acquire_revokes: "t \<le> get i s \<Longrightarrow> \<not> current i t (snd (acquire i s))"
  by (simp add: acquire_def current_def get_put)

lemma get_acquire_all: "get i (snd (acquire_all is s)) = get i s + int (count_list is i)"
proof (induction "is" arbitrary: s)
  case (Cons j js)
  show ?case
    using Cons [of "snd (acquire j s)"] by (simp add: acquire_def get_put split_beta)
qed simp

text \<open>Workers on one mission hold strictly increasing tokens, whatever the others do.\<close>

lemma acquire_all_tokens:
  "filter (\<lambda>p. fst p = i) (fst (acquire_all is s)) =
     map (\<lambda>k. (i, get i s + 1 + int k)) [0..<count_list is i]"
proof (induction "is" arbitrary: s)
  case (Cons j js)
  show ?case
  proof (cases "j = i")
    case True
    have "map (\<lambda>k. (i, get i s + 1 + int k)) [0..<Suc n] =
        (i, get i s + 1) # map (\<lambda>k. (i, get i s + 2 + int k)) [0..<n]" for n
      unfolding upt_conv_Cons [OF zero_less_Suc] map_Suc_upt [symmetric]
      by (simp add: add.assoc del: upt_Suc map_Suc_upt)
    with True Cons [of "snd (acquire j s)"] show ?thesis
      by (simp add: acquire_def get_put split_beta add.assoc)
  next
    case False
    with Cons [of "snd (acquire j s)"] show ?thesis
      by (simp add: acquire_def get_put split_beta)
  qed
qed simp

end

interpretation fs: fence_store getToken setToken
  by unfold_locales (simp add: getToken_def setToken_def)

lemma acquireFence_abstract: "acquireFence i m = fs.acquire i m"
  by (simp add: acquireFence_def fs.acquire_def Let_def)

lemma assertFence_abstract: "assertFence i t m = Inr () \<longleftrightarrow> fs.current i t m"
  by (simp add: assertFence_def fs.current_def Let_def linorder_not_less)

lemma assertFence_Inl_iff: "(\<exists>e. assertFence i t m = Inl e) \<longleftrightarrow> t < getToken i m"
  by (simp add: assertFence_def Let_def)

section \<open>Workers\<close>

definition acquire_history :: "js_string list \<Rightarrow> fence_tokens \<Rightarrow> fence_tokens" where
  "acquire_history is m = fold (\<lambda>i. snd \<circ> acquireFence i) is m"

lemma acquire_history_abstract: "acquire_history is m = snd (fs.acquire_all is m)"
  by (induction "is" arbitrary: m)
    (simp_all add: acquire_history_def acquireFence_abstract split_beta)

lemma token_after:
  "getToken i (acquire_history is (snd (acquireFence i m))) = getToken i m + 1 + int (count_list is i)"
  using acquire_history_abstract fs.get_acquire_all fs.get_put
  by (simp add: acquireFence_def Let_def)

lemma stale_worker_lemma:
  "i \<in> set is \<Longrightarrow>
     \<exists>e. assertFence i (fst (acquireFence i m)) (acquire_history is (snd (acquireFence i m))) = Inl e"
  using token_after [of i "is" m] count_list_0_iff [of "is" i]
  by (simp add: assertFence_Inl_iff) (simp add: acquireFence_def Let_def)

text \<open>
  a worker's token stays good through any acquisitions of other missions and is rejected
  from the first later acquisition of its own mission on; the rejection names the token of the
  last worker and the stale one.
\<close>

theorem stale_worker_is_fenced:
  "assertFence i (fst (acquireFence i m)) (acquire_history is (snd (acquireFence i m))) =
     (if i \<in> set is
      then Inl \<lparr>fc_missionId = i,
                fc_currentToken = getToken i m + 1 + int (count_list is i),
                fc_staleToken = getToken i m + 1\<rparr>
      else Inr ())"
proof -
  note token_after [of i "is" m]
  moreover have "i \<in> set is \<longleftrightarrow> 0 < count_list is i"
    by (metis count_list_0_iff gr0I less_numeral_extra(3))
  ultimately show ?thesis
    by (simp add: assertFence_def acquireFence_def Let_def)
qed

end
