(* ===== verification/External_Reconciliation.thy ===== *)
theory External_Reconciliation
  imports Prelude
begin

text \<open>
  \<^verbatim>\<open>missions/reconciliation.ts\<close>: what to do with an external call whose outcome is
  unknown. The resolver queries a system outside the program: it is an argument that may throw
  (\<open>Inl\<close>) or report an outcome with optional evidence. The human-readable reason of a
  result is not modelled.
\<close>

record ExternalEvidence =
  xe_identifier :: js_string
  xe_state :: js_string
  xe_provenance :: js_string
  xe_moment :: js_string
  xe_responseHash :: js_string

record ExternalCall =
  xc_stableIdentifier :: js_string
  xc_system :: js_string
  xc_missionId :: js_string

datatype external_outcome = Executed | Not_Executed | Indeterminate

datatype reconciliation_decision = Record_Evidence | Retry | Human_Intervention

record ReconciliationResult =
  rr_decision :: reconciliation_decision
  rr_evidence :: "ExternalEvidence option"

datatype reconciliation_error = NO_RESOLVER | EXECUTED_WITHOUT_EVIDENCE | RESOLVER_FAILED

type_synonym external_resolver =
  "ExternalCall \<Rightarrow> unit + external_outcome \<times> ExternalEvidence option"

definition isVerifiableEvidence :: "ExternalEvidence \<Rightarrow> bool" where
  "isVerifiableEvidence evidence \<longleftrightarrow>
     0 < length (xe_identifier evidence) \<and> 0 < length (xe_state evidence) \<and>
     0 < length (xe_provenance evidence) \<and> 0 < length (xe_moment evidence) \<and>
     hex64 (xe_responseHash evidence)"

definition reconcileExternalCall ::
  "external_resolver option \<Rightarrow> ExternalCall \<Rightarrow> reconciliation_error + ReconciliationResult" where
  "reconcileExternalCall resolver call =
     (case resolver of
        None \<Rightarrow> Inl NO_RESOLVER
      | Some resolve \<Rightarrow>
          (case resolve call of
             Inl _ \<Rightarrow> Inl RESOLVER_FAILED
           | Inr (outcome, evidence) \<Rightarrow>
               (case outcome of
                  Executed \<Rightarrow>
                    (case evidence of
                       None \<Rightarrow> Inl EXECUTED_WITHOUT_EVIDENCE
                     | Some e \<Rightarrow>
                         if \<not> isVerifiableEvidence e then Inl EXECUTED_WITHOUT_EVIDENCE
                         else Inr \<lparr>rr_decision = Record_Evidence, rr_evidence = Some e\<rparr>)
                | Not_Executed \<Rightarrow> Inr \<lparr>rr_decision = Retry, rr_evidence = None\<rparr>
                | Indeterminate \<Rightarrow>
                    Inr \<lparr>rr_decision = Human_Intervention, rr_evidence = None\<rparr>)))"

lemmas external_defs = isVerifiableEvidence_def reconcileExternalCall_def

declare external_defs [code_defs]

text \<open>An execution is only ever recorded on verifiable evidence the resolver provided.\<close>

lemma record_needs_evidence:
  "reconcileExternalCall resolver call = Inr r \<Longrightarrow> rr_decision r = Record_Evidence \<Longrightarrow>
     \<exists>resolve e. resolver = Some resolve \<and> resolve call = Inr (Executed, Some e) \<and>
       isVerifiableEvidence e \<and> rr_evidence r = Some e"
  by (auto simp: reconcileExternalCall_def
      split: option.splits sum.splits external_outcome.splits if_splits)

lemma retry_needs_denial:
  "reconcileExternalCall resolver call = Inr r \<Longrightarrow> rr_decision r = Retry \<Longrightarrow>
     \<exists>resolve e. resolver = Some resolve \<and> resolve call = Inr (Not_Executed, e)"
  by (auto simp: reconcileExternalCall_def
      split: option.splits sum.splits external_outcome.splits if_splits)

end
