(* ===== verification/Mission_Runtime.thy ===== *)
theory Mission_Runtime
  imports Fencing External_Reconciliation
begin

text \<open>
  \<^verbatim>\<open>missions/runtime.ts\<close> and \<^verbatim>\<open>missions/intents.ts\<close>: the durable mission
  lifecycle. The runtime's stores are the in-memory ones of \<open>Mission_Store\<close> and
  \<open>Fencing\<close>; its state is \<open>runtime_state\<close>. Each operation returns what the promise
  settles with (\<open>Inl\<close>: rejected with that exception) and the state it leaves, so that the
  idempotency record written on the way out of a failing command is part of the model.

  Not under \<^verbatim>\<open>src/\<close>: the clock, the random identifiers and the ISO rendering of a time
  (the record \<open>env\<close>), the SHA-256 of the canonical command (the argument \<open>H\<close>). The
  intent handlers are arguments too: the theory \<open>Agents\<close> gives those of the program.
\<close>

section \<open>Exceptions, handlers and results\<close>

datatype exn =
    X_mission mission_error
  | X_fence FenceConflict
  | X_idempotency js_string js_string js_string js_string \<comment> \<open>key, original, new, timestamp\<close>
  | X_reconciliation reconciliation_error
  | X_other

type_synonym intent_handler = "MissionSnapshot \<Rightarrow> ExecuteMissionCommand \<Rightarrow> exn + MissionSnapshot option"
type_synonym intent_registry = "(mission_intent, intent_handler) js_map"

definition register ::
  "mission_intent \<Rightarrow> intent_handler \<Rightarrow> intent_registry \<Rightarrow> intent_registry" where
  "register intent handler m = AList.update intent handler m"

definition resolve_handler :: "mission_intent \<Rightarrow> intent_registry \<Rightarrow> intent_handler option" where
  "resolve_handler intent m = map_of m intent"

record BoundMissionCommand =
  bc_missionId :: js_string
  bc_command :: MissionCommand

record apply_ctx =
  cx_idempotencyKey :: "js_string option"
  cx_expectedMissionVersion :: "int option"
  cx_fenceToken :: "int option"

record MissionApplyResult =
  ar_snapshot :: MissionSnapshot
  ar_event :: MissionEvent
  ar_replayed :: bool

text \<open>The clock as one call reads it, in the order of the reads, and the fresh identifier.\<close>

record env =
  env_iso :: "int \<Rightarrow> js_string"
  env_get :: int
  env_exec :: int
  env_next :: int
  env_done :: int
  env_expiry :: int
  env_uuid :: js_string

record runtime_state =
  rs_store :: snapshots
  rs_events :: event_log
  rs_idem :: idempotency_records
  rs_fences :: "fence_tokens option"

definition IDEMPOTENCY_TTL_MS :: int where
  "IDEMPOTENCY_TTL_MS = 24 * 60 * 60 * 1000"

text \<open>\<open>toErrorRecord\<close>: an exception that is no \<open>MissionError\<close> loses everything but its message.\<close>

fun toErrorRecord :: "exn \<Rightarrow> CachedError" where
  "toErrorRecord (X_mission e) =
     \<lparr>ce_code = err_code e, ce_statusCode = Some (err_status e), ce_details = err_details e\<rparr>"
| "toErrorRecord _ =
     \<lparr>ce_code = E_OTHER ''INTERNAL_ERROR'', ce_statusCode = None, ce_details = D_none\<rparr>"

text \<open>\<open>DEFAULT_RECOVERABLE\<close>: the states from which the matrix allows \<open>UNKNOWN\<close>.\<close>

definition DEFAULT_RECOVERABLE :: "mission_status list" where
  "DEFAULT_RECOVERABLE = map fst (filter (\<lambda>(_, targets). UNKNOWN \<in> set targets) VALID_TRANSITIONS)"

section \<open>Building the next snapshot and its event\<close>

definition nextSnapshot ::
  "env \<Rightarrow> MissionSnapshot \<Rightarrow> mission_status \<Rightarrow> MissionSnapshot \<Rightarrow> MissionSnapshot" where
  "nextSnapshot v mission status base =
     base\<lparr>sn_id := sn_id mission,
          sn_companyId := sn_companyId mission,
          sn_fiscalPeriod := sn_fiscalPeriod mission,
          sn_intent := sn_intent mission,
          sn_status := status,
          sn_version := sn_version mission + 1,
          sn_lastEventSequence := sn_lastEventSequence mission + 1,
          sn_updatedAt := env_iso v (env_next v)\<rparr>"

definition buildEvent :: "env \<Rightarrow> MissionSnapshot \<Rightarrow> mission_event_type \<Rightarrow> MissionEvent" where
  "buildEvent v snapshot eventType =
     \<lparr>ev_id = ''evt_'' @ env_uuid v,
      ev_missionId = sn_id snapshot,
      ev_sequence = sn_lastEventSequence snapshot,
      ev_eventType = eventType,
      ev_snapshot = snapshot,
      ev_createdAt = sn_updatedAt snapshot\<rparr>"

text \<open>\<open>store.save(next)\<close> followed by \<open>events.append(event)\<close>, the commit of every mutation.\<close>

definition commit :: "MissionSnapshot \<Rightarrow> MissionEvent \<Rightarrow> runtime_state \<Rightarrow> runtime_state" where
  "commit snapshot event st =
     st\<lparr>rs_store := save snapshot (rs_store st), rs_events := append_event event (rs_events st)\<rparr>"

definition put_idem :: "IdempotencyRecord \<Rightarrow> runtime_state \<Rightarrow> runtime_state" where
  "put_idem r st = st\<lparr>rs_idem := put_record r (rs_idem st)\<rparr>"

section \<open>start\<close>

definition start :: "env \<Rightarrow> js_string \<Rightarrow> CreateMissionCommand \<Rightarrow> runtime_state \<Rightarrow>
    MissionSnapshot \<times> runtime_state" where
  "start v missionUuid command st =
     (let now = env_iso v (env_next v);
          missionId = ''mission_'' @ missionUuid;
          started =
            \<lparr>sn_id = missionId,
             sn_companyId = cr_companyId command,
             sn_fiscalPeriod = cr_fiscalPeriod command,
             sn_intent = cr_intent command,
             sn_status = DRAFT,
             sn_version = 1,
             sn_progress = 0,
             sn_steps = [],
             sn_currentStep = '''',
             sn_blockers = [],
             sn_proposal = None,
             sn_rejection = None,
             sn_receiptId = None,
             sn_receiptHash = None,
             sn_lastEventSequence = 1,
             sn_createdAt = now,
             sn_updatedAt = now\<rparr>;
          event =
            \<lparr>ev_id = ''evt_'' @ env_uuid v,
             ev_missionId = missionId,
             ev_sequence = 1,
             ev_eventType = Ev_STATE_TRANSITION,
             ev_snapshot = started,
             ev_createdAt = now\<rparr>
      in (started, commit started event st))"

section \<open>apply\<close>

fun expectedVersionFrom :: "MissionCommand \<Rightarrow> int option" where
  "expectedVersionFrom (Create _) = None"
| "expectedVersionFrom (Execute p) = Some (ex_expectedMissionVersion p)"
| "expectedVersionFrom (Approve p) = Some (ap_expectedMissionVersion p)"
| "expectedVersionFrom (Reject p) = Some (re_expectedMissionVersion p)"
| "expectedVersionFrom (Reconcile p) = Some (rc_expectedMissionVersion p)"

text \<open>A guard or a transition that throws a \<open>MissionError\<close>, continued by \<open>k\<close>.\<close>

definition guarded :: "mission_error + 'a \<Rightarrow> ('a \<Rightarrow> exn + 'b) \<Rightarrow> exn + 'b" where
  "guarded r k = (case r of Inl e \<Rightarrow> Inl (X_mission e) | Inr x \<Rightarrow> k x)"

type_synonym target = "mission_status \<times> MissionSnapshot \<times> mission_event_type"

fun resolveTarget ::
  "intent_registry option \<Rightarrow> MissionSnapshot \<Rightarrow> MissionCommand \<Rightarrow> exn + target" where
  "resolveTarget registry mission (Execute payload) =
     (let default =
            guarded (transition (sn_status mission) RUNNING)
              (\<lambda>_. Inr (RUNNING, mission, Ev_STATE_TRANSITION))
      in (case (case registry of None \<Rightarrow> None | Some m \<Rightarrow> resolve_handler (sn_intent mission) m) of
            None \<Rightarrow> default
          | Some handler \<Rightarrow>
              (case handler mission payload of
                 Inl x \<Rightarrow> Inl x
               | Inr None \<Rightarrow> default
               | Inr (Some result) \<Rightarrow>
                   guarded (transition (sn_status mission) (sn_status result))
                     (\<lambda>_. Inr (sn_status result, result, Ev_STATE_TRANSITION)))))"
| "resolveTarget registry mission (Approve _) =
     guarded (transition (sn_status mission) APPROVED)
       (\<lambda>_. Inr (APPROVED, mission, Ev_APPROVAL_DECIDED))"
| "resolveTarget registry mission (Reject _) =
     guarded (transition (sn_status mission) REJECTED)
       (\<lambda>_. Inr (REJECTED, mission, Ev_APPROVAL_DECIDED))"
| "resolveTarget registry mission (Reconcile payload) =
     guarded (reconcileTransition (sn_status mission) (rc_resolution payload))
       (\<lambda>status. Inr (status, mission, Ev_RECONCILED))"
| "resolveTarget registry mission (Create _) =
     Inl (X_mission (MissionError E_INVALID_INPUT (Some 400) D_none))"

text \<open>\<open>replay\<close>: the cached outcome, thrown when it was an error, \<open>None\<close> when there is none yet.\<close>

definition replay_record :: "IdempotencyRecord \<Rightarrow> exn + MissionApplyResult option" where
  "replay_record record =
     (case id_result record of
        None \<Rightarrow> Inr None
      | Some (R_applied s e _) \<Rightarrow>
          Inr (Some \<lparr>ar_snapshot = s, ar_event = e, ar_replayed = True\<rparr>)
      | Some (R_error c _) \<Rightarrow>
          if id_status record = I_FAILED
          then Inl (X_mission (MissionError (ce_code c) (ce_statusCode c) (ce_details c)))
          else Inr None
      | Some (R_started _) \<Rightarrow> Inr None)"

definition createdAtOf :: "env \<Rightarrow> IdempotencyRecord \<Rightarrow> js_string" where
  "createdAtOf v record =
     (case id_result record of
        Some (R_started t) \<Rightarrow> t
      | Some (R_applied _ _ t) \<Rightarrow> t
      | Some (R_error _ t) \<Rightarrow> t
      | None \<Rightarrow> env_iso v (id_expiresAt record))"

text \<open>Steps 3 to 5 of the pipeline: what is decided before anything is written.\<close>

definition check_command ::
  "intent_registry option \<Rightarrow> fence_tokens option \<Rightarrow> apply_ctx \<Rightarrow> BoundMissionCommand \<Rightarrow>
     MissionSnapshot \<Rightarrow> exn + target" where
  "check_command registry fences ctx command mission =
     (let expected =
            (case cx_expectedMissionVersion ctx of
               Some n \<Rightarrow> Some n | None \<Rightarrow> expectedVersionFrom (bc_command command))
      in if expected \<noteq> None \<and> expected \<noteq> Some (sn_version mission)
         then Inl (X_mission (MissionError E_VERSION_CONFLICT (Some 409)
                     (D_versions (the expected) (sn_version mission))))
         else (case (case (fences, cx_fenceToken ctx) of
                       (Some tokens, Some token) \<Rightarrow> assertFence (bc_missionId command) token tokens
                     | _ \<Rightarrow> Inr ()) of
                 Inl conflict \<Rightarrow> Inl (X_fence conflict)
               | Inr _ \<Rightarrow>
                   guarded (guardTerminal (sn_status mission))
                     (\<lambda>_. resolveTarget registry mission (bc_command command))))"

text \<open>Steps 3 to 6: the checks, then the commit.\<close>

definition run_command ::
  "env \<Rightarrow> intent_registry option \<Rightarrow> apply_ctx \<Rightarrow> BoundMissionCommand \<Rightarrow> MissionSnapshot \<Rightarrow>
     runtime_state \<Rightarrow> (exn + MissionApplyResult) \<times> runtime_state" where
  "run_command v registry ctx command mission st =
     (case check_command registry (rs_fences st) ctx command mission of
        Inl x \<Rightarrow> (Inl x, st)
      | Inr (status, base, eventType) \<Rightarrow>
          (let next = nextSnapshot v mission status base;
               event = buildEvent v next eventType
           in (Inr \<lparr>ar_snapshot = next, ar_event = event, ar_replayed = False\<rparr>,
               commit next event st)))"

text \<open>The record written before the checks and the one written after them.\<close>

definition executing_record :: "env \<Rightarrow> js_string \<Rightarrow> js_string \<Rightarrow> IdempotencyRecord" where
  "executing_record v key hash =
     \<lparr>id_key = key, id_payloadHash = hash, id_status = I_EXECUTING,
      id_result = Some (R_started (env_iso v (env_exec v))),
      id_expiresAt = env_exec v + IDEMPOTENCY_TTL_MS\<rparr>"

definition outcome_record ::
  "env \<Rightarrow> js_string \<Rightarrow> js_string \<Rightarrow> exn + MissionApplyResult \<Rightarrow> IdempotencyRecord" where
  "outcome_record v key hash outcome =
     (case outcome of
        Inr r \<Rightarrow>
          \<lparr>id_key = key, id_payloadHash = hash, id_status = I_COMPLETED,
           id_result = Some (R_applied (ar_snapshot r) (ar_event r) (env_iso v (env_done v))),
           id_expiresAt = env_expiry v + IDEMPOTENCY_TTL_MS\<rparr>
      | Inl x \<Rightarrow>
          \<lparr>id_key = key, id_payloadHash = hash, id_status = I_FAILED,
           id_result = Some (R_error (toErrorRecord x) (env_iso v (env_done v))),
           id_expiresAt = env_expiry v + IDEMPOTENCY_TTL_MS\<rparr>)"

text \<open>Step 1 when the key has a live record.\<close>

definition answer_from_record ::
  "env \<Rightarrow> IdempotencyRecord \<Rightarrow> js_string \<Rightarrow> js_string \<Rightarrow> BoundMissionCommand \<Rightarrow> runtime_state \<Rightarrow>
     exn + MissionApplyResult" where
  "answer_from_record v record key hash command st =
     (if id_payloadHash record \<noteq> hash
      then Inl (X_idempotency key (id_payloadHash record) hash (createdAtOf v record))
      else (case replay_record record of
              Inl x \<Rightarrow> Inl x
            | Inr (Some replayed) \<Rightarrow> Inr replayed
            | Inr None \<Rightarrow>
                (let executing =
                       Inl (X_mission (MissionError E_ALREADY_EXECUTING (Some 409) (D_key key)))
                 in (case findById (bc_missionId command) (rs_store st) of
                       None \<Rightarrow> executing
                     | Some current \<Rightarrow>
                         (let events = list_events (sn_id current) (rs_events st)
                          in if events = [] then executing
                             else Inr \<lparr>ar_snapshot = current, ar_event = last events,
                                       ar_replayed = True\<rparr>)))))"

definition missing_mission :: "js_string \<Rightarrow> exn" where
  "missing_mission i = X_mission (MissionError E_MISSION_NOT_FOUND (Some 404) (D_mission i))"

definition apply_command ::
  "(BoundMissionCommand \<Rightarrow> js_string) \<Rightarrow> env \<Rightarrow> intent_registry option \<Rightarrow> BoundMissionCommand \<Rightarrow>
     apply_ctx \<Rightarrow> runtime_state \<Rightarrow> (exn + MissionApplyResult) \<times> runtime_state" where
  "apply_command H v registry command ctx st =
     (case bc_command command of
        Create _ \<Rightarrow> (Inl (X_mission (MissionError E_INVALID_INPUT (Some 400) D_none)), st)
      | _ \<Rightarrow>
          (case cx_idempotencyKey ctx of
             None \<Rightarrow>
               (case findById (bc_missionId command) (rs_store st) of
                  None \<Rightarrow> (Inl (missing_mission (bc_missionId command)), st)
                | Some mission \<Rightarrow> run_command v registry ctx command mission st)
           | Some key \<Rightarrow>
               (case get_record (env_get v) key (rs_idem st) of
                  (found, idem) \<Rightarrow>
                    (let st1 = st\<lparr>rs_idem := idem\<rparr>
                     in (case found of
                           Some record \<Rightarrow>
                             (answer_from_record v record key (H command) command st1, st1)
                         | None \<Rightarrow>
                             (case findById (bc_missionId command) (rs_store st1) of
                                None \<Rightarrow> (Inl (missing_mission (bc_missionId command)), st1)
                              | Some mission \<Rightarrow>
                                  (case run_command v registry ctx command mission
                                          (put_idem (executing_record v key (H command)) st1) of
                                     (outcome, st2) \<Rightarrow>
                                       (outcome,
                                        put_idem (outcome_record v key (H command) outcome) st2))))))))"

section \<open>recoverIncomplete and reconcile\<close>

fun recover_missions ::
  "(nat \<Rightarrow> env) \<Rightarrow> MissionSnapshot list \<Rightarrow> runtime_state \<Rightarrow> MissionSnapshot list \<times> runtime_state" where
  "recover_missions v [] st = ([], st)"
| "recover_missions v (mission # missions) st =
     (if sn_status mission = UNKNOWN
      then (case recover_missions (v \<circ> Suc) missions st of (rs, st') \<Rightarrow> (mission # rs, st'))
      else (let next = nextSnapshot (v 0) mission UNKNOWN mission;
                event = buildEvent (v 0) next Ev_STATE_TRANSITION
            in (case recover_missions (v \<circ> Suc) missions (commit next event st) of
                  (rs, st') \<Rightarrow> (next # rs, st'))))"

definition recoverIncomplete ::
  "(nat \<Rightarrow> env) \<Rightarrow> mission_status list option \<Rightarrow> runtime_state \<Rightarrow>
     MissionSnapshot list \<times> runtime_state" where
  "recoverIncomplete v statuses st =
     (let wanted = (case statuses of None \<Rightarrow> DEFAULT_RECOVERABLE | Some ss \<Rightarrow> ss)
      in recover_missions v (findByStatus wanted (rs_store st)) st)"

definition reconcile ::
  "env \<Rightarrow> js_string \<Rightarrow> ExternalCall \<Rightarrow> external_resolver option \<Rightarrow> runtime_state \<Rightarrow>
     (exn + ReconciliationResult \<times> MissionSnapshot) \<times> runtime_state" where
  "reconcile v missionId call resolver st =
     (case findById missionId (rs_store st) of
        None \<Rightarrow> (Inl (missing_mission missionId), st)
      | Some mission \<Rightarrow>
          if sn_status mission \<noteq> UNKNOWN
          then (Inl (X_mission (MissionError E_INVALID_INPUT (Some 400)
                       (D_mission_status missionId (sn_status mission)))), st)
          else (case reconcileExternalCall resolver call of
                  Inl e \<Rightarrow> (Inl (X_reconciliation e), st)
                | Inr result \<Rightarrow>
                    if rr_decision result = Human_Intervention
                    then (Inr (result, mission), st)
                    else (let next = nextSnapshot v mission RUNNING mission;
                              event = buildEvent v next Ev_RECONCILED
                          in (Inr (result, next), commit next event st))))"

lemmas runtime_defs = nextSnapshot_def buildEvent_def commit_def put_idem_def start_def
  guarded_def check_command_def run_command_def replay_record_def answer_from_record_def
  missing_mission_def apply_command_def recoverIncomplete_def reconcile_def
  executing_record_def outcome_record_def DEFAULT_RECOVERABLE_def createdAtOf_def

declare runtime_defs [code_defs]

end
