(* ===== verification/Runtime_Log.thy ===== *)
theory Runtime_Log
  imports Mission_Runtime
begin

text \<open>
  What the runtime promises of its two stores together: for every mission the event log is the
  history of the stored snapshot. The locale \<open>mission_log\<close> states the coupling over the
  ports, and proves that the two ways the runtime writes (the first event of a new mission and
  a commit that follows the matrix) preserve it; the runtime's operations are then shown to
  write in no other way, and every reachable state is coupled.
\<close>

section \<open>A snapshot and its log\<close>

definition scope_of :: "MissionSnapshot \<Rightarrow> js_string \<times> js_string \<times> mission_intent" where
  "scope_of s = (sn_companyId s, sn_fiscalPeriod s, sn_intent s)"

definition event_ok :: "js_string \<Rightarrow> MissionEvent \<Rightarrow> bool" where
  "event_ok i e \<longleftrightarrow>
     ev_missionId e = i \<and> sn_id (ev_snapshot e) = i \<and>
     sn_lastEventSequence (ev_snapshot e) = ev_sequence e \<and>
     sn_version (ev_snapshot e) = ev_sequence e"

abbreviation ev_status :: "MissionEvent \<Rightarrow> mission_status" where
  "ev_status e \<equiv> sn_status (ev_snapshot e)"

text \<open>
  Recovery with an explicit list of states writes \<open>UNKNOWN\<close> without asking the matrix. \<open>P\<close> is the set
  of the states that such lists may name; with the default policy alone it is empty.
\<close>

definition log_step :: "mission_status set \<Rightarrow> mission_status \<Rightarrow> mission_status \<Rightarrow> bool" where
  "log_step P s t \<longleftrightarrow> mission_step s t \<or> s \<in> P \<and> s \<noteq> UNKNOWN \<and> t = UNKNOWN"

lemma log_step_matrix: "mission_step s t \<Longrightarrow> log_step P s t"
  by (simp add: log_step_def)

definition log_ok :: "mission_status set \<Rightarrow> js_string \<Rightarrow> MissionSnapshot \<Rightarrow> MissionEvent list \<Rightarrow> bool" where
  "log_ok P i s es \<longleftrightarrow>
     es \<noteq> [] \<and> ev_snapshot (last es) = s \<and>
     map ev_sequence es = map (\<lambda>k. int k + 1) [0..<length es] \<and>
     list_all (event_ok i) es \<and>
     list_all (\<lambda>e. scope_of (ev_snapshot e) = scope_of s) es \<and>
     ev_status (hd es) = DRAFT \<and>
     successively (\<lambda>a b. log_step P (ev_status a) (ev_status b)) es"

text \<open>The snapshot a commit writes follows the stored one, and its event carries it.\<close>

definition follows :: "mission_status set \<Rightarrow> MissionSnapshot \<Rightarrow> MissionSnapshot \<Rightarrow> bool" where
  "follows P s n \<longleftrightarrow>
     sn_id n = sn_id s \<and> scope_of n = scope_of s \<and> sn_version n = sn_version s + 1 \<and>
     sn_lastEventSequence n = sn_lastEventSequence s + 1 \<and>
     log_step P (sn_status s) (sn_status n)"

definition carries :: "MissionEvent \<Rightarrow> MissionSnapshot \<Rightarrow> bool" where
  "carries e n \<longleftrightarrow>
     ev_snapshot e = n \<and> ev_missionId e = sn_id n \<and> ev_sequence e = sn_lastEventSequence n"

definition newborn :: "MissionSnapshot \<Rightarrow> bool" where
  "newborn s \<longleftrightarrow> sn_status s = DRAFT \<and> sn_version s = 1 \<and> sn_lastEventSequence s = 1"

lemma log_ok_last: "log_ok P i s es \<Longrightarrow> sn_id s = i \<and> sn_version s = int (length es) \<and>
    sn_lastEventSequence s = int (length es)"
proof -
  assume l: "log_ok P i s es"
  then have ne: "es \<noteq> []" by (simp add: log_ok_def)
  then have e: "event_ok i (last es)" using l by (simp add: log_ok_def list_all_iff)
  have "ev_sequence (last es) = last (map ev_sequence es)"
    using ne by (simp add: last_map)
  also have "\<dots> = int (length es)"
    using l ne by (simp add: log_ok_def last_map) (cases es, simp_all)
  finally show ?thesis using e l by (auto simp: event_ok_def log_ok_def)
qed

lemma log_ok_sequences: "log_ok P i s es \<Longrightarrow> e \<in> set es \<Longrightarrow> ev_sequence e \<le> int (length es)"
proof -
  assume "log_ok P i s es" and "e \<in> set es"
  then have "ev_sequence e \<in> set (map (\<lambda>k. int k + 1) [0..<length es])"
    by (metis image_eqI list.set_map log_ok_def)
  then show ?thesis by auto
qed

lemma log_ok_start: "newborn s \<Longrightarrow> carries e s \<Longrightarrow> log_ok P (sn_id s) s [e]"
  by (auto simp: log_ok_def newborn_def carries_def event_ok_def)

lemma log_ok_snoc:
  assumes "log_ok P i s es" and "follows P s n" and "carries e n"
  shows "log_ok P i n (es @ [e])"
  using assms log_ok_last [OF assms(1)]
  by (auto simp: log_ok_def follows_def carries_def event_ok_def successively_append_iff)

section \<open>The coupling over the ports\<close>

locale mission_log =
  mission_store put get listing by_status ok + mission_event_store append events_of
  for put :: "MissionSnapshot \<Rightarrow> 's \<Rightarrow> 's"
    and get :: "js_string \<Rightarrow> 's \<Rightarrow> MissionSnapshot option"
    and listing :: "'s \<Rightarrow> MissionSnapshot list"
    and by_status :: "mission_status list \<Rightarrow> 's \<Rightarrow> MissionSnapshot list"
    and ok :: "'s \<Rightarrow> bool"
    and append :: "MissionEvent \<Rightarrow> 'e \<Rightarrow> 'e"
    and events_of :: "js_string \<Rightarrow> 'e \<Rightarrow> MissionEvent list"
begin

definition coupled :: "mission_status set \<Rightarrow> 's \<Rightarrow> 'e \<Rightarrow> bool" where
  "coupled P s e \<longleftrightarrow>
     ok s \<and>
     (\<forall>i. case get i s of None \<Rightarrow> events_of i e = [] | Some m \<Rightarrow> log_ok P i m (events_of i e))"

lemma coupled_log: "coupled P s e \<Longrightarrow> get i s = Some m \<Longrightarrow> log_ok P i m (events_of i e)"
  unfolding coupled_def by (auto dest: spec [of _ i])

lemma coupled_none: "coupled P s e \<Longrightarrow> get i s = None \<Longrightarrow> events_of i e = []"
  unfolding coupled_def by (auto dest: spec [of _ i])

lemma coupled_write:
  assumes c: "coupled P s e" and n: "carries ev n"
    and l: "log_ok P (sn_id n) n (events_of (sn_id n) (append ev e))"
  shows "coupled P (put n s) (append ev e)"
proof -
  have "ev_missionId ev = sn_id n" using n by (simp add: carries_def)
  then have "case get i (put n s) of None \<Rightarrow> events_of i (append ev e) = []
      | Some m \<Rightarrow> log_ok P i m (events_of i (append ev e))" for i
    using c [unfolded coupled_def, THEN conjunct2, THEN spec, of i] l
    by (cases "i = sn_id n") (simp_all add: get_put append_other split: option.splits)
  with c show ?thesis by (simp add: coupled_def ok_put)
qed

lemma coupled_birth:
  assumes "coupled P s e" and "get (sn_id n) s = None" and "newborn n" and "carries ev n"
  shows "coupled P (put n s) (append ev e)"
proof (rule coupled_write [OF assms(1,4)])
  have m: "ev_missionId ev = sn_id n" using assms(4) by (simp add: carries_def)
  have "events_of (sn_id n) (append ev e) = [ev]"
    using append_last [of ev e] coupled_none [OF assms(1,2)] m by simp
  with assms(3,4) show "log_ok P (sn_id n) n (events_of (sn_id n) (append ev e))"
    by (simp add: log_ok_start)
qed

lemma coupled_commit:
  assumes "coupled P s e" and "get i s = Some m" and "follows P m n" and "carries ev n"
  shows "coupled P (put n s) (append ev e)"
proof (rule coupled_write [OF assms(1,4)])
  have l: "log_ok P i m (events_of i e)" by (rule coupled_log [OF assms(1,2)])
  have i: "sn_id n = i" "ev_missionId ev = i" "ev_sequence ev = int (length (events_of i e)) + 1"
    using assms(3,4) log_ok_last [OF l] by (auto simp: follows_def carries_def)
  have "events_of i (append ev e) = events_of i e @ [ev]"
    using append_last [of ev e] log_ok_sequences [OF l] i by fastforce
  with log_ok_snoc [OF l assms(3,4)] i show
    "log_ok P (sn_id n) n (events_of (sn_id n) (append ev e))" by simp
qed

lemma history_stays: "e \<in> set (events_of i es) \<Longrightarrow> e \<in> set (events_of i (append ev es))"
  by (auto simp: append_set)

end

interpretation ml: mission_log save findById list_missions findByStatus snapshots_ok
  append_event list_events
  by unfold_locales

section \<open>The runtime only writes legally\<close>

definition wf_runtime :: "mission_status set \<Rightarrow> runtime_state \<Rightarrow> bool" where
  "wf_runtime P st \<longleftrightarrow> ml.coupled P (rs_store st) (rs_events st)"

lemma wf_log:
  "wf_runtime P st \<Longrightarrow> findById i (rs_store st) = Some m \<Longrightarrow> log_ok P i m (list_events i (rs_events st))"
  unfolding wf_runtime_def by (rule ml.coupled_log)

lemma wf_any: "wf_runtime P st \<Longrightarrow> wf_runtime UNIV st"
proof -
  have "log_ok P i m es \<Longrightarrow> log_ok UNIV i m es" for i m es
    by (auto simp: log_ok_def log_step_def elim!: successively_mono)
  then show "wf_runtime P st \<Longrightarrow> wf_runtime UNIV st"
    by (force simp: wf_runtime_def ml.coupled_def split: option.splits)
qed

lemma wf_id: "wf_runtime P st \<Longrightarrow> findById i (rs_store st) = Some m \<Longrightarrow> sn_id m = i"
  using wf_log log_ok_last by blast

lemma resolveTarget_legal:
  "resolveTarget registry m c = Inr (status, base, ty) \<Longrightarrow> mission_step (sn_status m) status"
  by (cases c)
    (auto simp: guarded_def transition_Inr_iff Let_def dest: reconcile_is_step
      split: sum.splits option.splits)

lemma check_command_legal:
  "check_command registry fences ctx c m = Inr (status, base, ty) \<Longrightarrow>
     mission_step (sn_status m) status \<and> \<not> isTerminal (sn_status m)"
  by (auto simp: check_command_def guarded_def guardTerminal_Inr_iff Let_def
      dest: resolveTarget_legal split: sum.splits if_splits)

lemma nextSnapshot_follows: "log_step P (sn_status m) s \<Longrightarrow> follows P m (nextSnapshot v m s b)"
  by (simp add: follows_def nextSnapshot_def scope_of_def)

lemma buildEvent_carries: "carries (buildEvent v n ty) n"
  by (simp add: carries_def buildEvent_def)

lemma wf_commit:
  assumes "wf_runtime P st" and "findById i (rs_store st) = Some m" and "log_step P (sn_status m) s"
  shows "wf_runtime P (commit (nextSnapshot v m s b) (buildEvent v (nextSnapshot v m s b) ty) st)"
  using ml.coupled_commit [OF _ assms(2) nextSnapshot_follows [OF assms(3)] buildEvent_carries] assms(1)
  by (simp add: wf_runtime_def commit_def)

lemma wf_idem [simp]: "wf_runtime P (st\<lparr>rs_idem := r\<rparr>) = wf_runtime P st"
  "wf_runtime P (put_idem x st) = wf_runtime P st" "wf_runtime P (st\<lparr>rs_fences := f\<rparr>) = wf_runtime P st"
  by (simp_all add: wf_runtime_def put_idem_def)

lemma put_idem_sel [simp]:
  "rs_store (put_idem r st) = rs_store st" "rs_events (put_idem r st) = rs_events st"
  "rs_fences (put_idem r st) = rs_fences st"
  by (simp_all add: put_idem_def)

lemma run_command_cases:
  "(\<exists>x. run_command v registry ctx c m st = (Inl x, st)) \<or>
   (\<exists>s b ty. mission_step (sn_status m) s \<and> \<not> isTerminal (sn_status m) \<and>
      check_command registry (rs_fences st) ctx c m = Inr (s, b, ty) \<and>
      run_command v registry ctx c m st =
        (Inr \<lparr>ar_snapshot = nextSnapshot v m s b,
              ar_event = buildEvent v (nextSnapshot v m s b) ty, ar_replayed = False\<rparr>,
         commit (nextSnapshot v m s b) (buildEvent v (nextSnapshot v m s b) ty) st))"
proof (cases "check_command registry (rs_fences st) ctx c m")
  case (Inl x)
  then show ?thesis by (simp add: run_command_def)
next
  case (Inr t)
  then show ?thesis
    using check_command_legal by (cases t) (simp add: run_command_def Let_def)
qed

lemma wf_run:
  assumes "wf_runtime P st" and "findById i (rs_store st) = Some m"
  shows "wf_runtime P (snd (run_command v registry ctx c m st))"
  using run_command_cases [of v registry ctx c m st] wf_commit [OF assms log_step_matrix] assms(1) by auto

lemma wf_cong:
  "rs_store st' = rs_store st \<Longrightarrow> rs_events st' = rs_events st \<Longrightarrow> wf_runtime P st' = wf_runtime P st"
  by (simp add: wf_runtime_def)

lemma commit_sel [simp]:
  "rs_store (commit n e st) = save n (rs_store st)"
  "rs_events (commit n e st) = append_event e (rs_events st)"
  "rs_fences (commit n e st) = rs_fences st" "rs_idem (commit n e st) = rs_idem st"
  by (simp_all add: commit_def)

text \<open>What one \<open>apply\<close> does to the stores: nothing, or one legal commit on its mission.\<close>

definition committed ::
  "env \<Rightarrow> MissionSnapshot \<Rightarrow> target \<Rightarrow> runtime_state \<Rightarrow> MissionApplyResult \<Rightarrow> runtime_state \<Rightarrow> bool" where
  "committed v m tgt st out st' \<longleftrightarrow>
     (case tgt of (s, b, ty) \<Rightarrow>
        mission_step (sn_status m) s \<and> \<not> isTerminal (sn_status m) \<and>
        ar_snapshot out = nextSnapshot v m s b \<and>
        ar_event out = buildEvent v (ar_snapshot out) ty \<and> \<not> ar_replayed out \<and>
        rs_store st' = save (ar_snapshot out) (rs_store st) \<and>
        rs_events st' = append_event (ar_event out) (rs_events st))"

definition untouched :: "runtime_state \<Rightarrow> runtime_state \<Rightarrow> bool" where
  "untouched st st' \<longleftrightarrow> rs_store st' = rs_store st \<and> rs_events st' = rs_events st"

lemma run_command_effect:
  "run_command v registry ctx c m st = (out, st') \<Longrightarrow>
     rs_fences st' = rs_fences st \<and> rs_idem st' = rs_idem st \<and>
     ((\<exists>x. out = Inl x) \<and> st' = st \<or>
      (\<exists>r tgt. out = Inr r \<and> check_command registry (rs_fences st) ctx c m = Inr tgt \<and>
         committed v m tgt st r st'))"
  using run_command_cases [of v registry ctx c m st] by (auto simp: committed_def)

fun is_create :: "MissionCommand \<Rightarrow> bool" where
  "is_create (Create _) = True"
| "is_create _ = False"

text \<open>The branches of \<open>apply\<close>, one equation each.\<close>

lemma apply_create:
  "is_create (bc_command c) \<Longrightarrow> apply_command H v registry c ctx st =
     (Inl (X_mission (MissionError E_INVALID_INPUT (Some 400) D_none)), st)"
  by (cases "bc_command c") (simp_all add: apply_command_def)

lemma apply_unkeyed:
  "\<not> is_create (bc_command c) \<Longrightarrow> cx_idempotencyKey ctx = None \<Longrightarrow>
   apply_command H v registry c ctx st =
     (case findById (bc_missionId c) (rs_store st) of
        None \<Rightarrow> (Inl (missing_mission (bc_missionId c)), st)
      | Some mission \<Rightarrow> run_command v registry ctx c mission st)"
  by (cases "bc_command c") (simp_all add: apply_command_def)

lemma apply_keyed:
  assumes "\<not> is_create (bc_command c)" and "cx_idempotencyKey ctx = Some key"
    and "get_record (env_get v) key (rs_idem st) = (found, idem)"
  shows
    "found = Some record \<Longrightarrow> apply_command H v registry c ctx st =
       (answer_from_record v record key (H c) c (st\<lparr>rs_idem := idem\<rparr>), st\<lparr>rs_idem := idem\<rparr>)"
    "found = None \<Longrightarrow> findById (bc_missionId c) (rs_store st) = None \<Longrightarrow>
       apply_command H v registry c ctx st =
         (Inl (missing_mission (bc_missionId c)), st\<lparr>rs_idem := idem\<rparr>)"
    "found = None \<Longrightarrow> findById (bc_missionId c) (rs_store st) = Some mission \<Longrightarrow>
       run_command v registry ctx c mission
         (put_idem (executing_record v key (H c)) (st\<lparr>rs_idem := idem\<rparr>)) = (outcome, st2) \<Longrightarrow>
       apply_command H v registry c ctx st =
         (outcome, put_idem (outcome_record v key (H c) outcome) st2)"
  using assms by (cases "bc_command c"; simp add: apply_command_def Let_def)+

lemma answer_replayed: "answer_from_record v r key h c st = Inr a \<Longrightarrow> ar_replayed a"
  by (auto simp: answer_from_record_def replay_record_def Let_def
      split: if_splits option.splits cached_result.splits)

lemma apply_effect:
  assumes "apply_command H v registry c ctx st = (out, st')"
  shows "rs_fences st' = rs_fences st \<and>
     (untouched st st' \<and> ((\<exists>x. out = Inl x) \<or> (\<exists>r. out = Inr r \<and> ar_replayed r)) \<or>
      (\<exists>m r tgt. findById (bc_missionId c) (rs_store st) = Some m \<and> out = Inr r \<and>
         check_command registry (rs_fences st) ctx c m = Inr tgt \<and> committed v m tgt st r st'))"
proof (cases "is_create (bc_command c)")
  case True
  with assms show ?thesis by (auto simp: apply_create untouched_def)
next
  case nc: False
  show ?thesis
  proof (cases "cx_idempotencyKey ctx")
    case None
    with assms nc show ?thesis
      by (cases "findById (bc_missionId c) (rs_store st)")
        (auto simp: apply_unkeyed untouched_def dest!: run_command_effect)
  next
    case key: (Some key)
    obtain found idem where g: "get_record (env_get v) key (rs_idem st) = (found, idem)"
      by fastforce
    note eqs = apply_keyed [where H = H and registry = registry, OF nc key g]
    show ?thesis
    proof (cases found)
      case (Some cached)
      with assms eqs(1) [OF Some] have
        o: "answer_from_record v cached key (H c) c (st\<lparr>rs_idem := idem\<rparr>) = out"
        and s: "st' = st\<lparr>rs_idem := idem\<rparr>" by auto
      show ?thesis
        using answer_replayed o by (cases out) (auto simp: untouched_def s)
    next
      case none: None
      show ?thesis
      proof (cases "findById (bc_missionId c) (rs_store st)")
        case None
        with assms eqs(2) [OF none] show ?thesis by (auto simp: untouched_def)
      next
        case (Some m)
        obtain o2 st2 where r: "run_command v registry ctx c m
            (put_idem (executing_record v key (H c)) (st\<lparr>rs_idem := idem\<rparr>)) = (o2, st2)"
          by fastforce
        have "out = o2" and "st' = put_idem (outcome_record v key (H c) o2) st2"
          using assms eqs(3) [OF none Some r] by auto
        with run_command_effect [OF r] Some show ?thesis
          by (auto simp: untouched_def committed_def)
      qed
    qed
  qed
qed

lemma wf_committed:
  assumes "wf_runtime P st" and "findById i (rs_store st) = Some m" and "committed v m tgt st r st'"
  shows "wf_runtime P st'"
proof -
  obtain s b ty where "tgt = (s, b, ty)" by (cases tgt)
  with assms(3) wf_commit [OF assms(1,2), of s v b ty] show ?thesis
    by (simp add: committed_def wf_runtime_def log_step_matrix)
qed

lemma wf_apply: "wf_runtime P st \<Longrightarrow> wf_runtime P (snd (apply_command H v registry c ctx st))"
  using apply_effect [of H v registry c ctx st "fst (apply_command H v registry c ctx st)"
      "snd (apply_command H v registry c ctx st)"] wf_committed
  by (auto simp: untouched_def wf_runtime_def)

lemma default_recoverable: "DEFAULT_RECOVERABLE = [RUNNING]"
  by (simp add: DEFAULT_RECOVERABLE_def VALID_TRANSITIONS_def)

lemma wf_recover:
  assumes "wf_runtime P st" and "distinct (map sn_id ms)"
    and "\<And>m. m \<in> set ms \<Longrightarrow> findById (sn_id m) (rs_store st) = Some m"
    and "\<And>m. m \<in> set ms \<Longrightarrow> sn_status m \<in> insert RUNNING (insert UNKNOWN P)"
  shows "wf_runtime P (snd (recover_missions v ms st))"
  using assms
proof (induction ms arbitrary: st v)
  case Nil
  then show ?case by simp
next
  case (Cons m ms)
  show ?case
  proof (cases "sn_status m = UNKNOWN")
    case True
    have "wf_runtime P (snd (recover_missions (v \<circ> Suc) ms st))"
      using Cons.prems by (intro Cons.IH) auto
    with True show ?thesis by (simp add: split_beta)
  next
    case False
    let ?n = "nextSnapshot (v 0) m UNKNOWN m"
    let ?st = "commit ?n (buildEvent (v 0) ?n Ev_STATE_TRANSITION) st"
    have "sn_status m = RUNNING \<or> sn_status m \<in> P" using False Cons.prems(4) [of m] by simp
    then have "log_step P (sn_status m) UNKNOWN" using False step_to by (auto simp: log_step_def)
    then have wf: "wf_runtime P ?st"
      using Cons.prems(1,3) wf_commit [of P st "sn_id m" m] by simp
    have "sn_id ?n = sn_id m" by (simp add: nextSnapshot_def)
    then have "findById (sn_id x) (rs_store ?st) = Some x" if "x \<in> set ms" for x
    proof -
      have "sn_id x \<noteq> sn_id m" using that Cons.prems(2) by (force simp: image_iff)
      with that Cons.prems(3) [of x] \<open>sn_id ?n = sn_id m\<close> show ?thesis by (simp add: ms.get_put)
    qed
    with wf have "wf_runtime P (snd (recover_missions (v \<circ> Suc) ms ?st))"
      using Cons.prems(2,4) by (intro Cons.IH) auto
    with False show ?thesis by (simp add: Let_def split_beta)
  qed
qed

lemma wf_ok: "wf_runtime P st \<Longrightarrow> snapshots_ok (rs_store st)"
  by (simp add: wf_runtime_def ml.coupled_def)

text \<open>The list of states a call of \<open>recoverIncomplete\<close> works on.\<close>

definition wanted_states :: "mission_status list option \<Rightarrow> mission_status list" where
  "wanted_states statuses = (case statuses of None \<Rightarrow> [RUNNING] | Some ss \<Rightarrow> ss)"

definition listed_in :: "mission_status set \<Rightarrow> mission_status list option \<Rightarrow> bool" where
  "listed_in P statuses \<longleftrightarrow> (case statuses of None \<Rightarrow> True | Some ss \<Rightarrow> set ss \<subseteq> P)"

lemma recoverIncomplete_wanted:
  "recoverIncomplete v statuses st = recover_missions v (findByStatus (wanted_states statuses) (rs_store st)) st"
  by (cases statuses) (simp_all add: recoverIncomplete_def wanted_states_def default_recoverable)

lemma wanted_listed: "listed_in P statuses \<Longrightarrow> s \<in> set (wanted_states statuses) \<Longrightarrow> s = RUNNING \<or> s \<in> P"
  by (cases statuses) (auto simp: listed_in_def wanted_states_def)

lemma wf_recoverIncomplete:
  assumes "wf_runtime P st" and "listed_in P statuses"
  shows "wf_runtime P (snd (recoverIncomplete v statuses st))"
  unfolding recoverIncomplete_wanted
  using ms.by_status_iff [OF wf_ok [OF assms(1)]] ms.by_status_distinct [OF wf_ok [OF assms(1)]] assms(1)
    wanted_listed [OF assms(2)]
  by (intro wf_recover) auto

lemma wf_reconcile: "wf_runtime P st \<Longrightarrow> wf_runtime P (snd (reconcile v i call resolver st))"
  using wf_commit [of P st i _ RUNNING] step_to
  by (auto simp: log_step_def reconcile_def Let_def mission_step_code VALID_TRANSITIONS_def
      split: option.splits sum.splits)

lemma start_shape:
  "\<exists>s e. start v u c st = (s, commit s e st) \<and> sn_id s = ''mission_'' @ u \<and> newborn s \<and>
     carries e s \<and> ev_eventType e = Ev_STATE_TRANSITION"
  unfolding start_def Let_def
  by (rule exI, rule exI, rule conjI, rule refl) (simp add: newborn_def carries_def)

lemma wf_start:
  assumes "wf_runtime P st" and "findById (''mission_'' @ u) (rs_store st) = None"
  shows "wf_runtime P (snd (start v u c st))"
proof -
  obtain s e where "start v u c st = (s, commit s e st)" and s: "sn_id s = ''mission_'' @ u"
    "newborn s" "carries e s"
    using start_shape by blast
  with assms ml.coupled_birth [of P _ _ s e] show ?thesis by (simp add: wf_runtime_def)
qed

section \<open>Reachable states\<close>

text \<open>
  One call to the runtime: a mission id is drawn fresh, \<open>recoverIncomplete\<close> runs with its
  default states or with a list of states in \<open>P\<close>, and a worker may acquire a fence.
\<close>

inductive runtime_step ::
  "(BoundMissionCommand \<Rightarrow> js_string) \<Rightarrow> intent_registry option \<Rightarrow> mission_status set \<Rightarrow>
     runtime_state \<Rightarrow> runtime_state \<Rightarrow> bool"
  for H registry P where
  starts: "findById (''mission_'' @ u) (rs_store st) = None \<Longrightarrow>
    runtime_step H registry P st (snd (start v u c st))"
| applies: "runtime_step H registry P st (snd (apply_command H v registry cmd ctx st))"
| recovers: "listed_in P statuses \<Longrightarrow> runtime_step H registry P st (snd (recoverIncomplete w statuses st))"
| reconciles: "runtime_step H registry P st (snd (reconcile v i call resolver st))"
| fences: "rs_fences st = Some tokens \<Longrightarrow>
    runtime_step H registry P st (st\<lparr>rs_fences := Some (snd (acquireFence i tokens))\<rparr>)"

inductive_cases runtime_stepE: "runtime_step H registry P st st'"

definition initial_runtime :: "fence_tokens option \<Rightarrow> runtime_state" where
  "initial_runtime fences =
     \<lparr>rs_store = [], rs_events = [], rs_idem = [], rs_fences = fences\<rparr>"

definition reachable_runtime ::
  "(BoundMissionCommand \<Rightarrow> js_string) \<Rightarrow> intent_registry option \<Rightarrow> mission_status set \<Rightarrow> runtime_state \<Rightarrow> bool" where
  "reachable_runtime H registry P st \<longleftrightarrow>
     (\<exists>fences. (runtime_step H registry P)\<^sup>*\<^sup>* (initial_runtime fences) st)"

lemma wf_step: "runtime_step H registry P st st' \<Longrightarrow> wf_runtime P st \<Longrightarrow> wf_runtime P st'"
  by (induction rule: runtime_step.induct)
    (simp_all add: wf_start wf_apply wf_recoverIncomplete wf_reconcile)

lemma wf_initial: "wf_runtime P (initial_runtime fences)"
  by (auto simp: wf_runtime_def initial_runtime_def ml.coupled_def snapshots_ok_def
      findById_def list_events_def)

lemma wf_reachable: "reachable_runtime H registry P st \<Longrightarrow> wf_runtime P st"
proof -
  have "(runtime_step H registry P)\<^sup>*\<^sup>* s t \<Longrightarrow> wf_runtime P s \<Longrightarrow> wf_runtime P t" for s t
    by (induction rule: rtranclp_induct) (auto intro: wf_step)
  then show "reachable_runtime H registry P st \<Longrightarrow> wf_runtime P st"
    using wf_initial by (auto simp: reachable_runtime_def)
qed

end
