(* ===== verification/Runtime_Properties.thy ===== *)
theory Runtime_Properties
  imports Runtime_Log "HOL-Library.Sublist"
begin

text \<open>
  The properties of \<^verbatim>\<open>missions/runtime.ts\<close> over reachable states: the log is the
  history of the snapshot, histories only grow, and terminal missions stay as they are unless an
  explicit recovery list names their state.
\<close>

section \<open>What a step changes of one mission\<close>

definition same_at :: "js_string \<Rightarrow> runtime_state \<Rightarrow> runtime_state \<Rightarrow> bool" where
  "same_at i st st' \<longleftrightarrow>
     findById i (rs_store st') = findById i (rs_store st) \<and>
     list_events i (rs_events st') = list_events i (rs_events st)"

text \<open>
  Why an event was appended: a command the runtime resolved to its status and type, the
  reconciliation of an external call, or the recovery of an interrupted mission.
\<close>

definition caused :: "intent_registry option \<Rightarrow> mission_status set \<Rightarrow> MissionSnapshot \<Rightarrow> MissionEvent \<Rightarrow> bool" where
  "caused registry P m e \<longleftrightarrow>
     (\<exists>cmd b. resolveTarget registry m cmd = Inr (ev_status e, b, ev_eventType e)) \<or>
     ev_eventType e = Ev_RECONCILED \<and> sn_status m = UNKNOWN \<and> ev_status e = RUNNING \<or>
     ev_eventType e = Ev_STATE_TRANSITION \<and> (sn_status m = RUNNING \<or> sn_status m \<in> P) \<and>
       sn_status m \<noteq> UNKNOWN \<and> ev_status e = UNKNOWN"

definition grows_at :: "intent_registry option \<Rightarrow> mission_status set \<Rightarrow> js_string \<Rightarrow> runtime_state \<Rightarrow> runtime_state \<Rightarrow> bool" where
  "grows_at registry P i st st' \<longleftrightarrow>
     (\<exists>m n e. findById i (rs_store st) = Some m \<and> follows P m n \<and> carries e n \<and> caused registry P m e \<and>
        findById i (rs_store st') = Some n \<and>
        list_events i (rs_events st') = list_events i (rs_events st) @ [e])"

lemma caused_built:
  "caused registry P m (buildEvent v (nextSnapshot v m s b) ty) \<longleftrightarrow>
     (\<exists>cmd b. resolveTarget registry m cmd = Inr (s, b, ty)) \<or>
     ty = Ev_RECONCILED \<and> sn_status m = UNKNOWN \<and> s = RUNNING \<or>
     ty = Ev_STATE_TRANSITION \<and> (sn_status m = RUNNING \<or> sn_status m \<in> P) \<and>
       sn_status m \<noteq> UNKNOWN \<and> s = UNKNOWN"
  by (simp add: caused_def buildEvent_def nextSnapshot_def)

lemma untouched_same: "untouched st st' \<Longrightarrow> same_at i st st'"
  by (simp add: untouched_def same_at_def)

lemma same_trans: "same_at i s t \<Longrightarrow> same_at i t u \<Longrightarrow> same_at i s u"
  by (simp add: same_at_def)

lemma same_grows: "same_at i s t \<Longrightarrow> grows_at registry P i t u \<Longrightarrow> grows_at registry P i s u"
  by (simp add: same_at_def grows_at_def)

lemma grows_same: "grows_at registry P i s t \<Longrightarrow> same_at i t u \<Longrightarrow> grows_at registry P i s u"
  by (auto simp: same_at_def grows_at_def)

lemma same_other: "i \<noteq> sn_id n \<Longrightarrow> carries e n \<Longrightarrow> same_at i st (commit n e st)"
  by (simp add: same_at_def carries_def ms.get_put es.append_other)

lemma commit_grows:
  assumes wf: "wf_runtime P st" and m: "findById i (rs_store st) = Some m"
    and f: "follows P m n" and c: "carries e n" and r: "caused registry P m e"
  shows "grows_at registry P i st (commit n e st)"
proof -
  have l: "log_ok P i m (list_events i (rs_events st))" by (rule wf_log [OF wf m])
  have i: "sn_id n = i" "ev_missionId e = i" "ev_sequence e = int (length (list_events i (rs_events st))) + 1"
    using f c log_ok_last [OF l] by (auto simp: follows_def carries_def)
  have "list_events i (append_event e (rs_events st)) = list_events i (rs_events st) @ [e]"
    using es.append_last [of e "rs_events st"] log_ok_sequences [OF l] i by fastforce
  then show ?thesis
    using m f c i r by (auto simp: grows_at_def ms.get_put)
qed

lemma commit_next:
  assumes "wf_runtime P st" and "findById i (rs_store st) = Some m" and "log_step P (sn_status m) s"
    and "caused registry P m (buildEvent v (nextSnapshot v m s b) ty)"
  shows "grows_at registry P i st (commit (nextSnapshot v m s b) (buildEvent v (nextSnapshot v m s b) ty) st)"
  by (rule commit_grows [OF assms(1,2) nextSnapshot_follows [OF assms(3)] buildEvent_carries assms(4)])

lemma next_other:
  assumes "wf_runtime P st" and "findById j (rs_store st) = Some m" and "i \<noteq> j"
  shows "same_at i st (commit (nextSnapshot v m s b) (buildEvent v (nextSnapshot v m s b) ty) st)"
  using assms wf_id [OF assms(1,2)] by (intro same_other) (simp_all add: nextSnapshot_def buildEvent_carries)

lemma committed_changes:
  assumes "wf_runtime P st" and "findById j (rs_store st) = Some m" and "committed v m tgt st r st'"
    and "resolveTarget registry m cmd = Inr tgt"
  shows "if i = j then grows_at registry P i st st' else same_at i st st'"
proof -
  obtain s b ty where "tgt = (s, b, ty)" by (cases tgt)
  with assms(3) have step: "mission_step (sn_status m) s"
    and st': "rs_store st' = rs_store (commit (nextSnapshot v m s b) (buildEvent v (nextSnapshot v m s b) ty) st)"
      "rs_events st' = rs_events (commit (nextSnapshot v m s b) (buildEvent v (nextSnapshot v m s b) ty) st)"
    by (auto simp: committed_def)
  have "caused registry P m (buildEvent v (nextSnapshot v m s b) ty)"
    using assms(4) \<open>tgt = (s, b, ty)\<close>
    by (auto simp: caused_built)
  from commit_next [OF assms(1,2) log_step_matrix [OF step] this] show ?thesis
    using next_other [OF assms(1,2), of i v s b ty]
    by (auto simp: grows_at_def same_at_def st')
qed

lemma committed_either:
  assumes "wf_runtime P st" and "findById j (rs_store st) = Some m" and "committed v m tgt st r st'"
    and "resolveTarget registry m cmd = Inr tgt"
  shows "same_at i st st' \<or> grows_at registry P i st st'"
  using committed_changes [OF assms, of i] by (cases "i = j") simp_all

definition interrupted :: "MissionSnapshot list \<Rightarrow> js_string set" where
  "interrupted ms = sn_id ` {m \<in> set ms. sn_status m \<noteq> UNKNOWN}"

lemma interrupted_Cons:
  "interrupted (m # ms) = (if sn_status m = UNKNOWN then interrupted ms else insert (sn_id m) (interrupted ms))"
  by (auto simp: interrupted_def)

lemma recover_changes:
  assumes "wf_runtime P st" and "distinct (map sn_id ms)"
    and "\<And>m. m \<in> set ms \<Longrightarrow> findById (sn_id m) (rs_store st) = Some m"
    and "\<And>m. m \<in> set ms \<Longrightarrow> sn_status m = RUNNING \<or> sn_status m \<in> P"
  shows "if i \<in> interrupted ms then grows_at registry P i st (snd (recover_missions v ms st))
         else same_at i st (snd (recover_missions v ms st))"
  using assms
proof (induction ms arbitrary: st v)
  case Nil
  then show ?case by (simp add: same_at_def interrupted_def)
next
  case (Cons m ms)
  show ?case
  proof (cases "sn_status m = UNKNOWN")
    case True
    have "if i \<in> interrupted ms then grows_at registry P i st (snd (recover_missions (v \<circ> Suc) ms st))
        else same_at i st (snd (recover_missions (v \<circ> Suc) ms st))"
      using Cons.prems by (intro Cons.IH) auto
    with True show ?thesis by (simp add: interrupted_Cons split_beta)
  next
    case False
    let ?n = "nextSnapshot (v 0) m UNKNOWN m"
    let ?st = "commit ?n (buildEvent (v 0) ?n Ev_STATE_TRANSITION) st"
    have m: "findById (sn_id m) (rs_store st) = Some m" and run: "log_step P (sn_status m) UNKNOWN"
      using Cons.prems(3,4) [of m] step_to False by (auto simp: log_step_def)
    have notin: "sn_id m \<notin> sn_id ` set ms" using Cons.prems(2) by simp
    then have out: "sn_id m \<notin> interrupted ms" by (auto simp: interrupted_def)
    have id: "sn_id ?n = sn_id m" by (simp add: nextSnapshot_def)
    have "findById (sn_id x) (rs_store ?st) = Some x" if "x \<in> set ms" for x
    proof -
      have "sn_id x \<noteq> sn_id m" using that notin by (metis image_eqI)
      with that Cons.prems(3) [of x] id show ?thesis by (simp add: ms.get_put)
    qed
    then have IH: "if i \<in> interrupted ms then grows_at registry P i ?st (snd (recover_missions (v \<circ> Suc) ms ?st))
        else same_at i ?st (snd (recover_missions (v \<circ> Suc) ms ?st))"
      using Cons.prems wf_commit [OF Cons.prems(1) m run] by (intro Cons.IH) auto
    have r: "snd (recover_missions v (m # ms) st) = snd (recover_missions (v \<circ> Suc) ms ?st)"
      using False by (simp add: Let_def split_beta)
    show ?thesis
    proof (cases "i = sn_id m")
      case True
      with IH out have "same_at i ?st (snd (recover_missions (v \<circ> Suc) ms ?st))" by simp
      moreover have "grows_at registry P i st ?st"
        using True False Cons.prems(4) [of m]
        by (simp add: commit_next [OF Cons.prems(1) m run] caused_built)
      ultimately show ?thesis using True False by (simp add: r interrupted_Cons grows_same del: recover_missions.simps)
    next
      case other: False
      then have "same_at i st ?st" by (rule next_other [OF Cons.prems(1) m])
      with IH other False show ?thesis
        using same_grows same_trans by (auto simp: r interrupted_Cons simp del: recover_missions.simps split: if_splits)
    qed
  qed
qed

lemma recoverIncomplete_changes:
  assumes "wf_runtime P st" and "listed_in P statuses"
  shows "same_at i st (snd (recoverIncomplete v statuses st)) \<or>
         grows_at registry P i st (snd (recoverIncomplete v statuses st))"
  unfolding recoverIncomplete_wanted
  using recover_changes [OF assms(1), of "findByStatus (wanted_states statuses) (rs_store st)" i registry v]
    ms.by_status_iff [OF wf_ok [OF assms(1)], of _ "wanted_states statuses"]
    ms.by_status_distinct [OF wf_ok [OF assms(1)], of "wanted_states statuses"] wanted_listed [OF assms(2)]
  by (auto split: if_splits)

lemma check_command_target:
  "check_command registry fences ctx c m = Inr tgt \<Longrightarrow> resolveTarget registry m (bc_command c) = Inr tgt"
  by (auto simp: check_command_def guarded_def Let_def split: sum.splits if_splits)

lemma step_changes:
  assumes "runtime_step H registry P st st'" and wf: "wf_runtime P st"
    and m: "findById i (rs_store st) = Some m"
  shows "same_at i st st' \<or> grows_at registry P i st st'"
  using assms(1)
proof cases
  case (starts u v c)
  obtain s e where "start v u c st = (s, commit s e st)" and "sn_id s = ''mission_'' @ u" "carries e s"
    using start_shape by blast
  moreover from this starts m have "i \<noteq> sn_id s" by (metis option.distinct(1))
  ultimately show ?thesis
    using starts same_other [of i s e st] by simp
next
  case (applies v cmd ctx)
  then have "apply_command H v registry cmd ctx st = (fst (apply_command H v registry cmd ctx st), st')"
    by simp
  from apply_effect [OF this] show ?thesis
    using untouched_same committed_either [OF wf] check_command_target by blast
next
  case (recovers statuses w)
  then show ?thesis using recoverIncomplete_changes [OF wf] by simp
next
  case (reconciles v j call resolver)
  have s: "log_step P UNKNOWN RUNNING"
    by (simp add: log_step_def mission_step_code VALID_TRANSITIONS_def)
  show ?thesis
  proof (cases "st' = st")
    case False
    with reconciles obtain n where j: "findById j (rs_store st) = Some n" "sn_status n = UNKNOWN"
      "st' = commit (nextSnapshot v n RUNNING n)
               (buildEvent v (nextSnapshot v n RUNNING n) Ev_RECONCILED) st"
      by (auto simp: reconcile_def Let_def split: option.splits sum.splits if_splits)
    with s show ?thesis
      using commit_next [OF wf j(1), of RUNNING registry v n Ev_RECONCILED] next_other [OF wf j(1)]
      by (cases "i = j") (simp_all add: caused_built)
  qed (simp add: same_at_def)
next
  case (fences tokens j)
  then show ?thesis by (simp add: same_at_def)
qed

text \<open>A mission appears only by \<open>start\<close>, with one event.\<close>

lemma absent_same:
  "findById i (rs_store st) = None \<Longrightarrow> same_at i st st' \<or> grows_at registry P i st st' \<Longrightarrow>
     same_at i st st'"
  by (auto simp: grows_at_def)

lemma step_births:
  assumes "runtime_step H registry P st st'" and wf: "wf_runtime P st"
    and m: "findById i (rs_store st) = None"
  shows "same_at i st st' \<or>
    (\<exists>n e. findById i (rs_store st') = Some n \<and> list_events i (rs_events st') = [e] \<and>
       carries e n \<and> newborn n \<and> ev_eventType e = Ev_STATE_TRANSITION)"
  using assms(1)
proof cases
  case (starts u v c)
  obtain s e where s: "start v u c st = (s, commit s e st)" "carries e s" "newborn s"
    "ev_eventType e = Ev_STATE_TRANSITION"
    using start_shape by blast
  show ?thesis
  proof (cases "i = sn_id s")
    case True
    have "list_events i (append_event e (rs_events st)) = [e]"
      using es.append_last [of e "rs_events st"] s(2) True m wf
      by (simp add: carries_def wf_runtime_def ml.coupled_none)
    with True starts s show ?thesis by (auto simp: ms.get_put)
  next
    case False
    with starts s show ?thesis using same_other [of i s e st] by simp
  qed
next
  case (applies v cmd ctx)
  then have "apply_command H v registry cmd ctx st = (fst (apply_command H v registry cmd ctx st), st')"
    by simp
  from apply_effect [OF this] show ?thesis
    using untouched_same committed_either [OF wf] check_command_target absent_same [OF m] by metis
next
  case (recovers statuses w)
  then show ?thesis using recoverIncomplete_changes [OF wf] absent_same [OF m] by metis
next
  case (reconciles v j call resolver)
  show ?thesis
  proof (cases "st' = st")
    case False
    with reconciles obtain n where j: "findById j (rs_store st) = Some n"
      "st' = commit (nextSnapshot v n RUNNING n)
               (buildEvent v (nextSnapshot v n RUNNING n) Ev_RECONCILED) st"
      by (auto simp: reconcile_def Let_def split: option.splits sum.splits if_splits)
    with m next_other [OF wf j(1)] show ?thesis by (cases "i = j") simp_all
  qed (simp add: same_at_def)
next
  case (fences tokens j)
  then show ?thesis by (simp add: same_at_def)
qed

definition caused_log :: "intent_registry option \<Rightarrow> mission_status set \<Rightarrow> MissionEvent list \<Rightarrow> bool" where
  "caused_log registry P es \<longleftrightarrow>
     (es \<noteq> [] \<longrightarrow> ev_eventType (hd es) = Ev_STATE_TRANSITION) \<and>
     successively (\<lambda>a b. caused registry P (ev_snapshot a) b) es"

lemma caused_log_step:
  assumes step: "runtime_step H registry P st st'" and wf: "wf_runtime P st"
    and all: "\<forall>i. caused_log registry P (list_events i (rs_events st))"
  shows "caused_log registry P (list_events i (rs_events st'))"
proof (cases "findById i (rs_store st)")
  case None
  from step_births [OF step wf this] all show ?thesis
    by (auto simp: same_at_def caused_log_def)
next
  case (Some m)
  from step_changes [OF step wf this] show ?thesis
  proof
    assume "same_at i st st'"
    with all show ?thesis by (simp add: same_at_def)
  next
    assume "grows_at registry P i st st'"
    then obtain e where e: "caused registry P m e"
      "list_events i (rs_events st') = list_events i (rs_events st) @ [e]"
      using Some by (auto simp: grows_at_def)
    have "list_events i (rs_events st) \<noteq> []" "ev_snapshot (last (list_events i (rs_events st))) = m"
      using wf_log [OF wf Some] by (simp_all add: log_ok_def)
    with e all show ?thesis by (auto simp: caused_log_def successively_append_iff)
  qed
qed

lemma caused_log_reachable:
  assumes "reachable_runtime H registry P st"
  shows "caused_log registry P (list_events i (rs_events st))"
proof -
  obtain fences where "(runtime_step H registry P)\<^sup>*\<^sup>* (initial_runtime fences) st"
    using assms by (auto simp: reachable_runtime_def)
  then have "wf_runtime P st \<and> (\<forall>i. caused_log registry P (list_events i (rs_events st)))"
  proof (induction rule: rtranclp_induct)
    case base
    show ?case using wf_initial
      by (simp add: caused_log_def initial_runtime_def list_events_def)
  next
    case (step t u)
    then show ?case using caused_log_step wf_step by blast
  qed
  then show ?thesis by blast
qed

section \<open>The properties\<close>

text \<open>
  C1: in every state the runtime can reach, whatever the intent handlers do, the event log of
  a mission is the history of its stored snapshot: it is not empty, it starts in \<open>DRAFT\<close>,
  its sequences are 1, 2, 3, ... without a gap, every event is bound to the mission and to the
  company, period and intent the mission was created with, the last snapshot is the stored one, and
  the version is the length of the log. Consecutive snapshots are joined by an entry of the transition
  matrix, except that a recovery called with an explicit list of states takes a mission from a state
  of that list to \<open>UNKNOWN\<close>, terminal states included; \<open>P\<close> holds the states such lists name, and is
  empty where recovery only runs with its default states.
\<close>

theorem event_log_is_the_history:
  assumes "reachable_runtime H registry P st" and "findById i (rs_store st) = Some m"
  shows "let es = list_events i (rs_events st)
         in es \<noteq> [] \<and> ev_snapshot (last es) = m \<and> sn_status (ev_snapshot (es ! 0)) = DRAFT \<and>
            sn_version m = int (length es) \<and> sn_lastEventSequence m = int (length es) \<and>
            (\<forall>k < length es.
               ev_sequence (es ! k) = int k + 1 \<and> sn_version (ev_snapshot (es ! k)) = int k + 1 \<and>
               ev_missionId (es ! k) = i \<and> sn_id (ev_snapshot (es ! k)) = i \<and>
               sn_companyId (ev_snapshot (es ! k)) = sn_companyId m \<and>
               sn_fiscalPeriod (ev_snapshot (es ! k)) = sn_fiscalPeriod m \<and>
               sn_intent (ev_snapshot (es ! k)) = sn_intent m) \<and>
            (\<forall>k. Suc k < length es \<longrightarrow>
               transition (sn_status (ev_snapshot (es ! k))) (sn_status (ev_snapshot (es ! Suc k))) =
                 Inr (sn_status (ev_snapshot (es ! Suc k))) \<or>
               sn_status (ev_snapshot (es ! k)) \<in> P \<and> sn_status (ev_snapshot (es ! k)) \<noteq> UNKNOWN \<and>
               sn_status (ev_snapshot (es ! Suc k)) = UNKNOWN)"
proof -
  define es where "es = list_events i (rs_events st)"
  have l: "log_ok P i m es"
    using wf_log [OF wf_reachable [OF assms(1)] assms(2)] by (simp add: es_def)
  have k: "ev_sequence (es ! k) = int k + 1 \<and> event_ok i (es ! k) \<and>
      scope_of (ev_snapshot (es ! k)) = scope_of m" if "k < length es" for k
  proof -
    have "map ev_sequence es ! k = map (\<lambda>k. int k + 1) [0..<length es] ! k"
      using l by (simp add: log_ok_def)
    with that have "ev_sequence (es ! k) = int k + 1" by simp
    with that l show ?thesis by (simp add: log_ok_def list_all_length)
  qed
  have s: "log_step P (ev_status (es ! k)) (ev_status (es ! Suc k))" if "Suc k < length es" for k
    using l that by (simp add: log_ok_def successively_conv_nth)
  have "es \<noteq> []" and "ev_snapshot (last es) = m" and "ev_status (es ! 0) = DRAFT"
    using l by (auto simp: log_ok_def hd_conv_nth)
  with k s log_ok_last [OF l] show ?thesis
    unfolding Let_def es_def [symmetric]
    by (auto simp: event_ok_def scope_of_def transition_Inr_iff log_step_def)
qed

text \<open>A concrete run: one mission created and moved to \<open>QUEUED\<close> by a handler.\<close>

definition sample_env :: env where
  "sample_env =
     \<lparr>env_iso = (\<lambda>t. ''t'' @ dec_int t), env_get = 1, env_exec = 2, env_next = 3, env_done = 4,
      env_expiry = 5, env_uuid = ''e''\<rparr>"

definition sample_create :: CreateMissionCommand where
  "sample_create =
     \<lparr>cr_companyId = ''co'', cr_fiscalPeriod = ''2024-01'', cr_intent = Monthly_Close,
      cr_instruction = ''close''\<rparr>"

definition sample_registry :: intent_registry where
  "sample_registry = register Monthly_Close (\<lambda>m _. Inr (Some (m\<lparr>sn_status := QUEUED\<rparr>))) []"

definition sample_execute :: "int \<Rightarrow> BoundMissionCommand" where
  "sample_execute n =
     \<lparr>bc_missionId = ''mission_1'', bc_command = Execute \<lparr>ex_expectedMissionVersion = n\<rparr>\<rparr>"

definition sample_hash :: "BoundMissionCommand \<Rightarrow> js_string" where
  "sample_hash c =
     (case expectedVersionFrom (bc_command c) of None \<Rightarrow> [] | Some n \<Rightarrow> dec_int n)"

definition sample_ctx :: apply_ctx where
  "sample_ctx =
     \<lparr>cx_idempotencyKey = Some ''key-0001'', cx_expectedMissionVersion = None, cx_fenceToken = None\<rparr>"

definition sample_started :: runtime_state where
  "sample_started = snd (start sample_env ''1'' sample_create (initial_runtime (Some [])))"

definition sample_queued :: runtime_state where
  "sample_queued =
     snd (apply_command sample_hash sample_env (Some sample_registry) (sample_execute 1) sample_ctx
            sample_started)"

lemmas sample_defs = sample_env_def sample_create_def sample_registry_def sample_execute_def
  sample_ctx_def sample_started_def sample_queued_def sample_hash_def initial_runtime_def register_def

lemma sample_reachable:
  "reachable_runtime sample_hash (Some sample_registry) P sample_started"
  "reachable_runtime sample_hash (Some sample_registry) P sample_queued"
proof -
  let ?S = "runtime_step sample_hash (Some sample_registry) P"
  have s: "?S (initial_runtime (Some [])) sample_started"
    unfolding sample_started_def by (rule starts) (simp add: initial_runtime_def findById_def)
  have "?S sample_started sample_queued"
    unfolding sample_queued_def by (rule applies)
  with s show "reachable_runtime sample_hash (Some sample_registry) P sample_started"
    "reachable_runtime sample_hash (Some sample_registry) P sample_queued"
    unfolding reachable_runtime_def
    by (blast intro: r_into_rtranclp rtranclp.rtrancl_into_rtrancl)+
qed

definition sample_mission :: "runtime_state \<Rightarrow> MissionSnapshot" where
  "sample_mission st = snd (hd (rs_store st))"

lemma sample_stored:
  "findById ''mission_1'' (rs_store sample_started) = Some (sample_mission sample_started)"
  "findById ''mission_1'' (rs_store sample_queued) = Some (sample_mission sample_queued)"
  by code_simp+

lemma sample_status:
  "sn_status (sample_mission sample_started) = DRAFT" "sn_status (sample_mission sample_queued) = QUEUED"
  by code_simp+

theorem event_log_is_the_history_witness:
  "ev_snapshot (last (list_events ''mission_1'' (rs_events sample_queued))) = sample_mission sample_queued \<and>
   length (list_events ''mission_1'' (rs_events sample_queued)) = 2"
proof
  show "ev_snapshot (last (list_events ''mission_1'' (rs_events sample_queued))) =
      sample_mission sample_queued"
    using event_log_is_the_history [OF sample_reachable(2) sample_stored(2)] by (simp add: Let_def)
  show "length (list_events ''mission_1'' (rs_events sample_queued)) = 2" by code_simp
qed

lemma grows_prefix: "grows_at registry P i st st' \<Longrightarrow>
    prefix (list_events i (rs_events st)) (list_events i (rs_events st'))"
  by (auto simp: grows_at_def)

lemma grows_not_terminal:
  "grows_at registry P i st st' \<Longrightarrow> findById i (rs_store st) = Some m \<Longrightarrow>
     \<not> isTerminal (sn_status m) \<or> sn_status m \<in> P"
  by (auto simp: grows_at_def follows_def log_step_def dest: terminal_no_step)

lemma run_changes:
  assumes "(runtime_step H registry P)\<^sup>*\<^sup>* st st'" and "wf_runtime P st"
    and "findById i (rs_store st) = Some m"
  shows "wf_runtime P st' \<and> (\<exists>m'. findById i (rs_store st') = Some m' \<and> scope_of m' = scope_of m \<and>
           (log_step P)\<^sup>*\<^sup>* (sn_status m) (sn_status m') \<and>
           sn_version m' - sn_version m =
             int (length (list_events i (rs_events st'))) - int (length (list_events i (rs_events st)))) \<and>
         prefix (list_events i (rs_events st)) (list_events i (rs_events st'))"
  using assms
proof (induction rule: rtranclp_induct)
  case base
  then show ?case by auto
next
  case (step t u)
  then obtain m' where m': "findById i (rs_store t) = Some m'" "scope_of m' = scope_of m"
    "(log_step P)\<^sup>*\<^sup>* (sn_status m) (sn_status m')"
    "sn_version m' - sn_version m =
       int (length (list_events i (rs_events t))) - int (length (list_events i (rs_events st)))"
    and p: "prefix (list_events i (rs_events st)) (list_events i (rs_events t))"
    and wf: "wf_runtime P t" by blast
  have "wf_runtime P u" using step wf wf_step by blast
  from step_changes [OF step.hyps(2) wf m'(1)] show ?case
  proof
    assume "same_at i t u"
    with m' p \<open>wf_runtime P u\<close> show ?thesis by (auto simp: same_at_def)
  next
    assume g: "grows_at registry P i t u"
    then obtain n e where n: "follows P m' n" "findById i (rs_store u) = Some n"
      "list_events i (rs_events u) = list_events i (rs_events t) @ [e]"
      using m'(1) by (auto simp: grows_at_def)
    with m' have "scope_of n = scope_of m \<and> (log_step P)\<^sup>*\<^sup>* (sn_status m) (sn_status n) \<and>
        sn_version n - sn_version m =
          int (length (list_events i (rs_events u))) - int (length (list_events i (rs_events st)))"
      by (auto simp: follows_def intro: rtranclp.rtrancl_into_rtrancl)
    moreover have "prefix (list_events i (rs_events st)) (list_events i (rs_events u))"
      using p grows_prefix [OF g] by (rule prefix_order.trans)
    ultimately show ?thesis using n(2) \<open>wf_runtime P u\<close> by blast
  qed
qed

text \<open>
  C2: histories are append-only. Along any further run of the runtime a stored mission stays
  stored in the company, period and intent it has, its status moves along the matrix (and from the
  states explicit recovery lists name to \<open>UNKNOWN\<close>), its log is extended at the end only, by one event
  per version, and once the mission is \<open>COMPLETED\<close> or \<open>FAILED\<close>, and no such list names that state,
  neither its snapshot nor its log ever changes again.
\<close>

theorem histories_only_grow:
  assumes "reachable_runtime H registry P st" and "(runtime_step H registry P)\<^sup>*\<^sup>* st st'"
    and "findById i (rs_store st) = Some m"
  shows "(\<exists>m'. findById i (rs_store st') = Some m' \<and>
            sn_companyId m' = sn_companyId m \<and> sn_fiscalPeriod m' = sn_fiscalPeriod m \<and>
            sn_intent m' = sn_intent m \<and> (log_step P)\<^sup>*\<^sup>* (sn_status m) (sn_status m') \<and>
            sn_version m' = sn_version m +
              int (length (list_events i (rs_events st')) - length (list_events i (rs_events st)))) \<and>
         prefix (list_events i (rs_events st)) (list_events i (rs_events st')) \<and>
         (isTerminal (sn_status m) \<and> sn_status m \<notin> P \<longrightarrow>
            findById i (rs_store st') = Some m \<and>
            list_events i (rs_events st') = list_events i (rs_events st))"
proof -
  note wf = wf_reachable [OF assms(1)]
  note r = run_changes [OF assms(2) wf assms(3)]
  from r obtain m' where m': "findById i (rs_store st') = Some m'" "scope_of m' = scope_of m"
    "(log_step P)\<^sup>*\<^sup>* (sn_status m) (sn_status m')"
    "sn_version m' - sn_version m =
       int (length (list_events i (rs_events st'))) - int (length (list_events i (rs_events st)))"
    by blast
  have p: "prefix (list_events i (rs_events st)) (list_events i (rs_events st'))"
    using r by blast
  have terminal: "findById i (rs_store st') = Some m \<and>
      list_events i (rs_events st') = list_events i (rs_events st)" if "isTerminal (sn_status m)" "sn_status m \<notin> P"
    using assms(2)
  proof (induction rule: rtranclp_induct)
    case base
    show ?case using assms(3) by simp
  next
    case (step t u)
    have "wf_runtime P t" using run_changes [OF step.hyps(1) wf assms(3)] by blast
    with step have "same_at i t u"
      using step_changes grows_not_terminal that by blast
    with step.IH show ?case by (simp add: same_at_def)
  qed
  from prefix_length_le [OF p] m'(4) have
    "sn_version m' = sn_version m +
       int (length (list_events i (rs_events st')) - length (list_events i (rs_events st)))"
    by (simp add: of_nat_diff)
  with m' p terminal show ?thesis by (auto simp: scope_of_def)
qed

theorem histories_only_grow_witness:
  "prefix (list_events ''mission_1'' (rs_events sample_started))
          (list_events ''mission_1'' (rs_events sample_queued))"
proof -
  have "(runtime_step sample_hash (Some sample_registry) P)\<^sup>*\<^sup>* sample_started sample_queued"
    unfolding sample_queued_def by (rule r_into_rtranclp, rule applies)
  from histories_only_grow [OF sample_reachable(1) this sample_stored(1)] show ?thesis by blast
qed

end
