(* ===== verification/Runtime_Commands.thy ===== *)
theory Runtime_Commands
  imports Runtime_Properties
begin

text \<open>
  The properties of one command to \<^verbatim>\<open>missions/runtime.ts\<close>: what an accepted command
  proves and what a refused one leaves, fencing of superseded workers, and the answers given
  from an idempotency record.
\<close>

section \<open>Guards\<close>

definition expected_version :: "apply_ctx \<Rightarrow> BoundMissionCommand \<Rightarrow> int option" where
  "expected_version ctx c =
     (case cx_expectedMissionVersion ctx of
        Some n \<Rightarrow> Some n | None \<Rightarrow> expectedVersionFrom (bc_command c))"

lemma check_command_guards:
  assumes "check_command registry fences ctx c m = Inr (s, b, ty)"
  shows "(\<forall>n. expected_version ctx c = Some n \<longrightarrow> n = sn_version m) \<and>
         (\<forall>tokens t. fences = Some tokens \<longrightarrow> cx_fenceToken ctx = Some t \<longrightarrow>
            getToken (bc_missionId c) tokens \<le> t) \<and>
         \<not> isTerminal (sn_status m) \<and> mission_step (sn_status m) s"
proof -
  have "\<forall>n. expected_version ctx c = Some n \<longrightarrow> n = sn_version m"
    using assms by (auto simp: check_command_def expected_version_def Let_def split: if_splits)
  moreover have "\<forall>tokens t. fences = Some tokens \<longrightarrow> cx_fenceToken ctx = Some t \<longrightarrow>
      getToken (bc_missionId c) tokens \<le> t"
    using assms
    by (auto simp: check_command_def assertFence_def Let_def split: if_splits sum.splits)
  ultimately show ?thesis using check_command_legal [OF assms] by blast
qed

text \<open>What one \<open>apply\<close> writes to the idempotency records: at most the outcome, under its own key.\<close>

definition record_after ::
    "(BoundMissionCommand \<Rightarrow> js_string) \<Rightarrow> env \<Rightarrow> BoundMissionCommand \<Rightarrow> apply_ctx \<Rightarrow> runtime_state \<Rightarrow>
     exn + MissionApplyResult \<Rightarrow> js_string \<Rightarrow> IdempotencyRecord option set" where
  "record_after H v c ctx st out k =
     (if cx_idempotencyKey ctx = Some k
      then {map_of (rs_idem st) k, fst (get_record (env_get v) k (rs_idem st)),
            Some (outcome_record v k (H c) out)}
      else {map_of (rs_idem st) k})"

lemma outcome_key: "id_key (outcome_record v k h out) = k" "id_key (executing_record v k h) = k"
  by (simp_all add: outcome_record_def executing_record_def split: sum.split)

lemma get_record_map:
  assumes "get_record now key m = (found, m')"
  shows "map_of m' k = (if k = key then found else map_of m k)"
  using assms by (auto simp: get_record_def delete_conv' split: option.splits if_splits)

lemma apply_records:
  assumes "apply_command H v registry c ctx st = (out, st')"
  shows "map_of (rs_idem st') k \<in> record_after H v c ctx st out k"
proof (cases "is_create (bc_command c)")
  case True
  with assms show ?thesis by (auto simp: apply_create record_after_def)
next
  case nc: False
  show ?thesis
  proof (cases "cx_idempotencyKey ctx")
    case None
    then have "rs_idem st' = rs_idem st"
      using assms nc by (cases "findById (bc_missionId c) (rs_store st)") (auto simp: apply_unkeyed dest!: run_command_effect)
    then show ?thesis by (simp add: record_after_def)
  next
    case key: (Some key)
    obtain found idem where g: "get_record (env_get v) key (rs_idem st) = (found, idem)" by fastforce
    note eqs = apply_keyed [where H = H and registry = registry, OF nc key g]
    have own: "map_of idem k \<in> record_after H v c ctx st out k" for out
      using get_record_map [OF g, of k] key g by (auto simp: record_after_def)
    show ?thesis
    proof (cases found)
      case (Some cached)
      with assms eqs(1) [OF Some] own show ?thesis by auto
    next
      case none: None
      show ?thesis
      proof (cases "findById (bc_missionId c) (rs_store st)")
        case None
        with assms eqs(2) [OF none] own show ?thesis by auto
      next
        case (Some m)
        obtain o2 st2 where r: "run_command v registry ctx c m
            (put_idem (executing_record v key (H c)) (st\<lparr>rs_idem := idem\<rparr>)) = (o2, st2)"
          by fastforce
        have o: "out = o2" and s: "st' = put_idem (outcome_record v key (H c) o2) st2"
          using assms eqs(3) [OF none Some r] by auto
        have "rs_idem st2 = put_record (executing_record v key (H c)) idem"
          using run_command_effect [OF r] by (simp add: put_idem_def)
        then have "map_of (rs_idem st') k =
            (if k = key then Some (outcome_record v key (H c) o2) else map_of idem k)"
          by (simp add: s put_idem_def put_record_def outcome_key)
        then show ?thesis using own [of out] o key by (auto simp: record_after_def)
      qed
    qed
  qed
qed

text \<open>
  C3: a command that is not answered from a record succeeds only on a mission that exists,
  has the version the caller expects, is not terminal, whose fence token is not newer than the
  caller's, and to which the matrix allows the new status; success stores the snapshot with the
  next version and appends its event. A command that is refused, or answered from a record,
  leaves the snapshots, the events and the fence tokens as they were. Any command changes the
  idempotency record of its own key only, an expired one being forgotten, and what it may write there
  is its outcome, the refusal included.
\<close>

theorem command_commits_or_changes_nothing:
  "case apply_command H v registry c ctx st of (out, st') \<Rightarrow>
     rs_fences st' = rs_fences st \<and>
     (if \<exists>r. out = Inr r \<and> \<not> ar_replayed r
      then \<exists>m r. out = Inr r \<and> findById (bc_missionId c) (rs_store st) = Some m \<and>
             (expected_version ctx c = None \<or> expected_version ctx c = Some (sn_version m)) \<and>
             (rs_fences st = None \<or> cx_fenceToken ctx = None \<or>
              getToken (bc_missionId c) (the (rs_fences st)) \<le> the (cx_fenceToken ctx)) \<and>
             \<not> isTerminal (sn_status m) \<and>
             transition (sn_status m) (sn_status (ar_snapshot r)) = Inr (sn_status (ar_snapshot r)) \<and>
             sn_version (ar_snapshot r) = sn_version m + 1 \<and>
             rs_store st' = save (ar_snapshot r) (rs_store st) \<and>
             rs_events st' = append_event (ar_event r) (rs_events st) \<and>
             ev_snapshot (ar_event r) = ar_snapshot r
      else rs_store st' = rs_store st \<and> rs_events st' = rs_events st) \<and>
     (\<forall>k. map_of (rs_idem st') k \<in> record_after H v c ctx st out k)"
proof -
  obtain out st' where a: "apply_command H v registry c ctx st = (out, st')" by fastforce
  from apply_effect [OF a] have f: "rs_fences st' = rs_fences st" by blast
  from apply_effect [OF a] consider
    (quiet) "untouched st st'" "(\<exists>x. out = Inl x) \<or> (\<exists>r. out = Inr r \<and> ar_replayed r)" |
    (commits) m r tgt where "findById (bc_missionId c) (rs_store st) = Some m" "out = Inr r"
      "check_command registry (rs_fences st) ctx c m = Inr tgt" "committed v m tgt st r st'"
    by blast
  then show ?thesis
  proof cases
    case quiet
    with f apply_records [OF a] show ?thesis by (auto simp: a untouched_def)
  next
    case commits
    obtain s b ty where t: "tgt = (s, b, ty)" by (cases tgt)
    note g = check_command_guards [OF commits(3) [unfolded t]]
    have n: "\<not> ar_replayed r" "ar_snapshot r = nextSnapshot v m s b"
      "ar_event r = buildEvent v (ar_snapshot r) ty"
      "rs_store st' = save (ar_snapshot r) (rs_store st)"
      "rs_events st' = append_event (ar_event r) (rs_events st)"
      using commits(4) by (simp_all add: committed_def t)
    have "sn_status (ar_snapshot r) = s" "sn_version (ar_snapshot r) = sn_version m + 1"
      "ev_snapshot (ar_event r) = ar_snapshot r"
      using n(2,3) by (simp_all add: nextSnapshot_def buildEvent_def)
    moreover have "rs_fences st = None \<or> cx_fenceToken ctx = None \<or>
        getToken (bc_missionId c) (the (rs_fences st)) \<le> the (cx_fenceToken ctx)"
      using g by (cases "rs_fences st"; cases "cx_fenceToken ctx") auto
    moreover have "expected_version ctx c = None \<or> expected_version ctx c = Some (sn_version m)"
      using g by (cases "expected_version ctx c") auto
    moreover have "transition (sn_status m) s = Inr s" using g by (simp add: transition_Inr_iff)
    ultimately show ?thesis
      using f g n commits(1,2) apply_records [OF a] by (simp add: a)
  qed
qed

text \<open>
  C5: a superseded worker cannot write. Once another worker has acquired the fence of the
  mission, a command carrying the old token neither changes a snapshot nor appends an event,
  whichever other missions were fenced in between.
\<close>

theorem superseded_worker_cannot_write:
  assumes "acquireFence i tokens = (token, tokens')" and "i \<in> set later"
    and "rs_fences st = Some (acquire_history later tokens')"
    and "bc_missionId c = i" and "cx_fenceToken ctx = Some token"
  shows "rs_store (snd (apply_command H v registry c ctx st)) = rs_store st \<and>
         rs_events (snd (apply_command H v registry c ctx st)) = rs_events st"
proof -
  have "\<exists>e. assertFence i token (acquire_history later tokens') = Inl e"
    using stale_worker_lemma [OF assms(2), of tokens] assms(1) by simp
  then have "token < getToken i (acquire_history later tokens')"
    by (simp add: assertFence_Inl_iff)
  with assms(3-5) have "check_command registry (rs_fences st) ctx c m \<noteq> Inr tgt" for m tgt
    using check_command_guards [of registry "rs_fences st" ctx c m] by (cases tgt) fastforce
  then show ?thesis
    using apply_effect [of H v registry c ctx st "fst (apply_command H v registry c ctx st)"
        "snd (apply_command H v registry c ctx st)"]
    by (auto simp: untouched_def)
qed

theorem superseded_worker_cannot_write_witness:
  "rs_store (snd (apply_command sample_hash sample_env None (sample_execute 1)
       (sample_ctx\<lparr>cx_fenceToken := Some 1\<rparr>)
       (sample_started\<lparr>rs_fences := Some [(''mission_1'', 2)]\<rparr>))) = rs_store sample_started"
proof -
  have "acquireFence ''mission_1'' [] = (1, [(''mission_1'', 1)])"
    and "acquire_history [''mission_1''] [(''mission_1'', 1)] = [(''mission_1'', 2)]"
    by (simp_all add: fence_defs acquire_history_def)
  with superseded_worker_cannot_write [of "''mission_1''" "[]" 1 "[(''mission_1'', 1)]"
      "[''mission_1'']" "sample_started\<lparr>rs_fences := Some [(''mission_1'', 2)]\<rparr>"
      "sample_execute 1" "sample_ctx\<lparr>cx_fenceToken := Some 1\<rparr>"]
  show ?thesis by (simp add: sample_execute_def)
qed

section \<open>Idempotency\<close>

text \<open>
  The answer a reused key gets: the cached result flagged as replayed, or the cached error,
  of which a foreign exception keeps neither its class nor a status.
\<close>

fun as_replay :: "exn + MissionApplyResult \<Rightarrow> exn + MissionApplyResult" where
  "as_replay (Inr r) = Inr (r\<lparr>ar_replayed := True\<rparr>)"
| "as_replay (Inl (X_mission e)) =
     Inl (X_mission (MissionError (err_code e) (Some (err_status e)) (err_details e)))"
| "as_replay (Inl _) = Inl (X_mission (MissionError (E_OTHER ''INTERNAL_ERROR'') None D_none))"

lemma replay_outcome:
  "replay_record (outcome_record v key h out) =
     (case as_replay out of Inl x \<Rightarrow> Inl x | Inr r \<Rightarrow> Inr (Some r))"
proof (cases out)
  case (Inl x)
  then show ?thesis by (cases x) (simp_all add: replay_record_def outcome_record_def)
next
  case (Inr r)
  then show ?thesis by (simp add: replay_record_def outcome_record_def)
qed

lemma outcome_record_sel [simp]:
  "id_key (outcome_record v key h out) = key" "id_payloadHash (outcome_record v key h out) = h"
  "id_expiresAt (outcome_record v key h out) = env_expiry v + IDEMPOTENCY_TTL_MS"
  by (simp_all add: outcome_record_def split: sum.splits)

lemma createdAt_outcome: "createdAtOf w (outcome_record v key h out) = env_iso v (env_done v)"
  by (simp add: createdAtOf_def outcome_record_def split: sum.splits)

lemma keyed_record:
  assumes "\<not> is_create (bc_command c)" and "cx_idempotencyKey ctx = Some key"
    and "fst (get_record (env_get v) key (rs_idem st)) = None"
    and "findById (bc_missionId c) (rs_store st) = Some m"
    and "apply_command H v registry c ctx st = (out, st')"
  shows "map_of (rs_idem st') key = Some (outcome_record v key (H c) out)"
proof -
  obtain found idem where g: "get_record (env_get v) key (rs_idem st) = (found, idem)" by fastforce
  then have found: "found = None" using assms(3) by simp
  obtain o2 st2 where r: "run_command v registry ctx c m
      (put_idem (executing_record v key (H c)) (st\<lparr>rs_idem := idem\<rparr>)) = (o2, st2)" by fastforce
  have "out = o2" and "st' = put_idem (outcome_record v key (H c) o2) st2"
    using assms(5) apply_keyed(3) [where H = H, OF assms(1,2) g found assms(4) r] by auto
  then show ?thesis by (simp add: put_idem_def put_record_def)
qed

text \<open>
  C4: an idempotency key is executed at most once. After a command ran under a fresh key, any
  later command under that key, before the record expires and whatever happened to the missions
  in between, executes nothing and leaves the whole state as it is: with the same payload hash
  it gets the first outcome again, success or failure, and with another hash the conflict
  error that names both hashes.
\<close>

theorem idempotency_key_executes_once:
  assumes "\<not> is_create (bc_command c)" and "cx_idempotencyKey ctx = Some key"
    and "fst (get_record (env_get v) key (rs_idem st)) = None"
    and "findById (bc_missionId c) (rs_store st) = Some m"
    and "apply_command H v registry c ctx st = (out, st1)"
    and "map_of (rs_idem st2) key = map_of (rs_idem st1) key"
    and "env_get w < env_expiry v + IDEMPOTENCY_TTL_MS"
    and "\<not> is_create (bc_command c')" and "cx_idempotencyKey ctx' = Some key"
  shows "apply_command H w registry' c' ctx' st2 =
     ((if H c' = H c then as_replay out
       else Inl (X_idempotency key (H c) (H c') (env_iso v (env_done v)))), st2)"
proof -
  let ?r = "outcome_record v key (H c) out"
  have "map_of (rs_idem st2) key = Some ?r"
    using keyed_record [OF assms(1-5)] assms(6) by simp
  then have g: "get_record (env_get w) key (rs_idem st2) = (Some ?r, rs_idem st2)"
    using assms(7) by (simp add: get_record_def)
  have "apply_command H w registry' c' ctx' st2 =
      (answer_from_record w ?r key (H c') c' st2, st2)"
    using apply_keyed(1) [OF assms(8,9) g refl, of H registry'] by simp
  moreover have "answer_from_record w ?r key (H c') c' st2 =
      (if H c' = H c then as_replay out
       else Inl (X_idempotency key (H c) (H c') (env_iso v (env_done v))))"
    by (simp add: answer_from_record_def replay_outcome createdAt_outcome split: sum.splits)
  ultimately show ?thesis by simp
qed

theorem idempotency_key_executes_once_witness:
  "apply_command sample_hash sample_env None (sample_execute 1) sample_ctx sample_queued =
     (Inr \<lparr>ar_snapshot = sample_mission sample_queued,
           ar_event = last (list_events ''mission_1'' (rs_events sample_queued)),
           ar_replayed = True\<rparr>, sample_queued)"
proof -
  have out: "apply_command sample_hash sample_env (Some sample_registry)
      (sample_execute 1) sample_ctx sample_started =
      (Inr \<lparr>ar_snapshot = sample_mission sample_queued,
            ar_event = last (list_events ''mission_1'' (rs_events sample_queued)),
            ar_replayed = False\<rparr>, sample_queued)"
    unfolding sample_queued_def [symmetric] prod_eq_iff by (simp only: fst_conv snd_conv, code_simp)
  have key: "fst (get_record (env_get sample_env) ''key-0001'' (rs_idem sample_started)) = None"
    by code_simp
  have m: "findById (bc_missionId (sample_execute 1)) (rs_store sample_started) =
      Some (sample_mission sample_started)"
    using sample_stored(1) by (simp add: sample_execute_def)
  have now: "env_get sample_env < env_expiry sample_env + IDEMPOTENCY_TTL_MS"
    by (simp add: sample_env_def IDEMPOTENCY_TTL_MS_def)
  have c: "\<not> is_create (bc_command (sample_execute 1))"
    "cx_idempotencyKey sample_ctx = Some ''key-0001''"
    by (simp_all add: sample_execute_def sample_ctx_def)
  show ?thesis
    using idempotency_key_executes_once [OF c key m out refl now c, of None] by simp
qed

end
