(* ===== verification/Agents.thy ===== *)
theory Agents
  imports Runtime_Commands
begin

text \<open>
  \<^verbatim>\<open>agents/plans.ts\<close>, \<^verbatim>\<open>agents/handlers.ts\<close> and
  \<^verbatim>\<open>agents/registry.ts\<close>: the staged work plans and the deterministic intent
  handlers the runtime runs. The hash of the empty evidence list, a SHA-256, is the argument
  \<open>empty_hash\<close>. A handler never throws: it is a total function with \<open>Inr\<close> results.
\<close>

section \<open>Plans\<close>

record IntentPlan =
  ip_intent :: mission_intent
  ip_title :: js_string
  ip_steps :: "js_string list"
  ip_proposalSummary :: js_string
  ip_riskLevel :: risk_level

fun INTENT_PLANS :: "mission_intent \<Rightarrow> IntentPlan" where
  "INTENT_PLANS Monthly_Close =
     \<lparr>ip_intent = Monthly_Close,
      ip_title = ''Monthly close'',
      ip_steps =
        [''stage period-cutoff checklist'', ''queue posting-review worklist'',
         ''prepare close proposal''],
      ip_proposalSummary =
        ''Monthly-close work staged for review: cutoff checklist, posting-review worklist, and close proposal.'',
      ip_riskLevel = Risk_MEDIUM\<rparr>"
| "INTENT_PLANS Correction =
     \<lparr>ip_intent = Correction,
      ip_title = ''Accounting correction'',
      ip_steps =
        [''stage correction scope'', ''queue reclassification draft'',
         ''prepare correction proposal''],
      ip_proposalSummary =
        ''Correction work staged for review: scope, reclassification draft, and correction proposal.'',
      ip_riskLevel = Risk_HIGH\<rparr>"
| "INTENT_PLANS Bank_Reconciliation_Intent =
     \<lparr>ip_intent = Bank_Reconciliation_Intent,
      ip_title = ''Reconciliation'',
      ip_steps =
        [''stage reconciliation worklist'', ''queue variance review'',
         ''prepare reconciliation proposal''],
      ip_proposalSummary =
        ''Reconciliation work staged for review: worklist, variance review, and reconciliation proposal.'',
      ip_riskLevel = Risk_MEDIUM\<rparr>"
| "INTENT_PLANS Invoice_Review =
     \<lparr>ip_intent = Invoice_Review,
      ip_title = ''Invoice review'',
      ip_steps =
        [''stage invoice-review worklist'', ''queue line-item checks'',
         ''prepare invoice review proposal''],
      ip_proposalSummary =
        ''Invoice-review work staged for review: worklist, line-item checks, and review proposal.'',
      ip_riskLevel = Risk_LOW\<rparr>"
| "INTENT_PLANS Compliance_Check =
     \<lparr>ip_intent = Compliance_Check,
      ip_title = ''Compliance check'',
      ip_steps =
        [''stage compliance checklist'', ''queue policy-gap review'',
         ''prepare compliance proposal''],
      ip_proposalSummary =
        ''Compliance work staged for review: checklist, policy-gap review, and compliance proposal.'',
      ip_riskLevel = Risk_HIGH\<rparr>"

section \<open>Steps\<close>

definition completedSteps :: "MissionStep list \<Rightarrow> nat" where
  "completedSteps steps =
     foldl (\<lambda>count step. if st_status step = S_COMPLETED then count + 1 else count) 0 steps"

text \<open>\<open>findIndex\<close>, with \<open>None\<close> for the \<open>-1\<close> of the source.\<close>

definition firstActiveIndex :: "MissionStep list \<Rightarrow> nat option" where
  "firstActiveIndex steps =
     find_index (\<lambda>step. st_status step = S_IN_PROGRESS \<or> st_status step = S_PENDING) steps"

definition stagedSteps :: "IntentPlan \<Rightarrow> MissionStep list" where
  "stagedSteps plan =
     map (\<lambda>(index, name).
            \<lparr>st_id = ''step_'' @ dec_nat (index + 1), st_name = name, st_description = None,
             st_status = S_PENDING, st_startedAt = None, st_completedAt = None,
             st_error = None, st_evidenceIds = None\<rparr>)
       (enumerate 0 (ip_steps plan))"

definition activateSteps :: "MissionStep list \<Rightarrow> js_string \<Rightarrow> MissionStep list" where
  "activateSteps steps now =
     (case firstActiveIndex steps of
        None \<Rightarrow> steps
      | Some i \<Rightarrow>
          steps[i := (steps ! i)\<lparr>st_status := S_IN_PROGRESS, st_startedAt := Some now\<rparr>])"

definition advanceSteps :: "MissionStep list \<Rightarrow> js_string \<Rightarrow> MissionStep list \<times> js_string" where
  "advanceSteps steps now =
     (case firstActiveIndex steps of
        None \<Rightarrow> (steps, [])
      | Some i \<Rightarrow>
          (let completed =
                 steps[i := (steps ! i)\<lparr>st_status := S_COMPLETED, st_completedAt := Some now\<rparr>]
           in (case find_index (\<lambda>step. st_status step = S_PENDING) completed of
                 None \<Rightarrow> (completed, [])
               | Some j \<Rightarrow>
                   (let next = completed[j := (completed ! j)
                                 \<lparr>st_status := S_IN_PROGRESS, st_startedAt := Some now\<rparr>]
                    in (next, st_id (next ! j))))))"

definition stageProposal :: "js_string \<Rightarrow> MissionSnapshot \<Rightarrow> IntentPlan \<Rightarrow> MissionSnapshot" where
  "stageProposal empty_hash mission plan =
     mission\<lparr>sn_status := AWAITING_APPROVAL,
             sn_progress := int (length (ip_steps plan)),
             sn_currentStep := [],
             sn_proposal := Some
               \<lparr>pr_id = ''proposal_'' @ sn_id mission,
                pr_missionId = sn_id mission,
                pr_version = sn_version mission,
                pr_evidence = [],
                pr_evidenceHash = empty_hash,
                pr_summary = ip_proposalSummary plan,
                pr_riskLevel = ip_riskLevel plan,
                pr_generatedAt = sn_updatedAt mission,
                pr_expiresAt = None\<rparr>\<rparr>"

section \<open>The handler\<close>

definition running_execute :: "js_string \<Rightarrow> IntentPlan \<Rightarrow> MissionSnapshot \<Rightarrow> MissionSnapshot" where
  "running_execute empty_hash plan mission =
     (if length (ip_steps plan) \<le> completedSteps (sn_steps mission)
      then stageProposal empty_hash (mission\<lparr>sn_status := RUNNING\<rparr>) plan
      else (case advanceSteps (sn_steps mission) (sn_updatedAt mission) of
              (steps, current) \<Rightarrow>
                (let advanced = mission\<lparr>sn_steps := steps, sn_currentStep := current\<rparr>
                 in if length (ip_steps plan) \<le> completedSteps steps
                    then stageProposal empty_hash
                           (advanced\<lparr>sn_progress := int (length (ip_steps plan))\<rparr>) plan
                    else advanced\<lparr>sn_status := WAITING_FOR_EVIDENCE,
                                  sn_progress := int (completedSteps steps)\<rparr>)))"

definition plan_execute ::
  "js_string \<Rightarrow> IntentPlan \<Rightarrow> MissionSnapshot \<Rightarrow> ExecuteMissionCommand \<Rightarrow> MissionSnapshot option" where
  "plan_execute empty_hash plan mission command =
     (case sn_status mission of
        DRAFT \<Rightarrow>
          Some (mission\<lparr>sn_status := QUEUED, sn_steps := stagedSteps plan,
                        sn_currentStep := ''step_1'', sn_progress := 0\<rparr>)
      | QUEUED \<Rightarrow>
          (let steps = activateSteps (sn_steps mission) (sn_updatedAt mission)
           in Some (mission\<lparr>sn_status := RUNNING, sn_steps := steps,
                            sn_currentStep :=
                              (case firstActiveIndex steps of
                                 None \<Rightarrow> [] | Some i \<Rightarrow> st_id (steps ! i)),
                            sn_progress := int (completedSteps steps)\<rparr>))
      | RUNNING \<Rightarrow> Some (running_execute empty_hash plan mission)
      | WAITING_FOR_EVIDENCE \<Rightarrow> Some (mission\<lparr>sn_status := RUNNING\<rparr>)
      | BLOCKED \<Rightarrow> Some (mission\<lparr>sn_status := RUNNING\<rparr>)
      | BLOCKED_BY_GATE \<Rightarrow> Some (mission\<lparr>sn_status := RUNNING\<rparr>)
      | RETRYING \<Rightarrow> Some (mission\<lparr>sn_status := RUNNING\<rparr>)
      | RECOVERING \<Rightarrow> Some (mission\<lparr>sn_status := RUNNING\<rparr>)
      | UNKNOWN \<Rightarrow> Some (mission\<lparr>sn_status := RUNNING\<rparr>)
      | REVISION_REQUESTED \<Rightarrow> Some (mission\<lparr>sn_status := QUEUED\<rparr>)
      | APPROVED \<Rightarrow>
          Some (mission\<lparr>sn_status := COMPLETED,
                        sn_steps := map (\<lambda>step. if st_status step = S_COMPLETED then step
                            else step\<lparr>st_status := S_COMPLETED,
                                      st_completedAt := Some (sn_updatedAt mission)\<rparr>)
                          (sn_steps mission),
                        sn_currentStep := [],
                        sn_progress := int (length (ip_steps plan))\<rparr>)
      | AWAITING_APPROVAL \<Rightarrow> None
      | COMPLETED \<Rightarrow> None
      | FAILED \<Rightarrow> None
      | REJECTED \<Rightarrow> None)"

definition PlanIntentHandler :: "js_string \<Rightarrow> IntentPlan \<Rightarrow> mission_intent \<times> intent_handler" where
  "PlanIntentHandler empty_hash plan =
     (ip_intent plan, (\<lambda>mission command. Inr (plan_execute empty_hash plan mission command)))"

definition AGENT_HANDLERS :: "js_string \<Rightarrow> (mission_intent \<times> intent_handler) list" where
  "AGENT_HANDLERS empty_hash =
     map (\<lambda>intent. PlanIntentHandler empty_hash (INTENT_PLANS intent))
       [Monthly_Close, Correction, Bank_Reconciliation_Intent, Invoice_Review, Compliance_Check]"

definition createAgentRegistry :: "js_string \<Rightarrow> intent_registry" where
  "createAgentRegistry empty_hash =
     fold (\<lambda>(intent, handler). register intent handler) (AGENT_HANDLERS empty_hash) []"

lemmas agent_defs = completedSteps_def firstActiveIndex_def stagedSteps_def activateSteps_def
  advanceSteps_def stageProposal_def running_execute_def plan_execute_def PlanIntentHandler_def
  AGENT_HANDLERS_def createAgentRegistry_def

declare agent_defs [code_defs]

section \<open>What the handlers propose\<close>

lemma agent_handler:
  "resolve_handler i (createAgentRegistry h) =
     Some (\<lambda>mission command. Inr (plan_execute h (INTENT_PLANS i) mission command))"
  by (cases i)
    (simp_all add: createAgentRegistry_def AGENT_HANDLERS_def PlanIntentHandler_def
      resolve_handler_def register_def)

lemma running_execute_status:
  "sn_status (running_execute h plan m) \<in> {AWAITING_APPROVAL, WAITING_FOR_EVIDENCE}"
  by (simp add: running_execute_def stageProposal_def Let_def split: prod.splits)

lemma plan_execute_status:
  "plan_execute h plan m c = Some r \<Longrightarrow>
     (sn_status m, sn_status r) \<in>
       {(DRAFT, QUEUED), (QUEUED, RUNNING), (RUNNING, AWAITING_APPROVAL),
        (RUNNING, WAITING_FOR_EVIDENCE), (WAITING_FOR_EVIDENCE, RUNNING), (BLOCKED, RUNNING),
        (BLOCKED_BY_GATE, RUNNING), (RETRYING, RUNNING), (RECOVERING, RUNNING),
        (UNKNOWN, RUNNING), (REVISION_REQUESTED, QUEUED), (APPROVED, COMPLETED)}"
  using running_execute_status [of h plan m]
  by (auto simp: plan_execute_def Let_def split: mission_status.splits)

lemma agent_status_legal: "plan_execute h plan m c = Some r \<Longrightarrow> mission_step (sn_status m) (sn_status r)"
  by (drule plan_execute_status) (auto simp: mission_step_code VALID_TRANSITIONS_def)

text \<open>What the runtime with the agents' registry resolves, as a table of moves.\<close>

lemma agent_moves:
  assumes "resolveTarget (Some (createAgentRegistry h)) m cmd = Inr (s, b, ty)"
  shows "ty = Ev_STATE_TRANSITION \<and> s \<notin> {APPROVED, REJECTED, FAILED} \<and>
           (s = COMPLETED \<longrightarrow> sn_status m = APPROVED) \<or>
         ty = Ev_APPROVAL_DECIDED \<and> s \<in> {APPROVED, REJECTED} \<and> sn_status m = AWAITING_APPROVAL \<or>
         ty = Ev_RECONCILED \<and> s \<in> {RUNNING, FAILED, COMPLETED} \<and> sn_status m = UNKNOWN"
proof (cases cmd)
  case (Execute p)
  show ?thesis
  proof (cases "plan_execute h (INTENT_PLANS (sn_intent m)) m p")
    case None
    with assms Execute show ?thesis
      by (auto simp: agent_handler guarded_def Let_def split: sum.splits)
  next
    case (Some r)
    with assms Execute plan_execute_status [OF Some] show ?thesis
      by (auto simp: agent_handler guarded_def Let_def split: sum.splits)
  qed
next
  case (Approve p)
  with assms show ?thesis
    by (auto simp: guarded_def transition_Inr_iff step_to_approved split: sum.splits)
next
  case (Reject p)
  have "mission_step x REJECTED \<Longrightarrow> x = AWAITING_APPROVAL" for x
    by (cases x) (auto simp: mission_step_code VALID_TRANSITIONS_def)
  with Reject assms show ?thesis
    by (auto simp: guarded_def transition_Inr_iff split: sum.splits)
next
  case (Reconcile p)
  with assms show ?thesis
    by (auto simp: guarded_def reconcileTransition_Inr_iff split: sum.splits)
qed (use assms in simp)

lemma agent_caused:
  assumes "caused (Some (createAgentRegistry h)) P m e" and "ev_status e = COMPLETED"
  shows "sn_status m = APPROVED \<and> ev_eventType e = Ev_STATE_TRANSITION \<or>
         sn_status m = UNKNOWN \<and> ev_eventType e = Ev_RECONCILED"
  using assms by (auto simp: caused_def dest!: agent_moves)

lemma agent_approved:
  assumes "caused (Some (createAgentRegistry h)) P m e" and "ev_status e = APPROVED"
  shows "sn_status m = AWAITING_APPROVAL \<and> ev_eventType e = Ev_APPROVAL_DECIDED"
  using assms by (auto simp: caused_def dest!: agent_moves)

text \<open>
  C7: no mission completes by itself. With the agents' handlers, whenever a reachable state
  stores a completed mission, its log ends either in an approval decision on an
  \<open>AWAITING_APPROVAL\<close> mission followed by the completing transition, or in a reconciliation
  command that resolved an \<open>UNKNOWN\<close> mission to \<open>COMPLETED\<close>.
\<close>

theorem completion_needs_a_decision:
  assumes "reachable_runtime H (Some (createAgentRegistry h)) P st"
    and "findById i (rs_store st) = Some m" and "sn_status m = COMPLETED"
  shows "\<exists>k. Suc k < length (list_events i (rs_events st)) \<and>
    (let a = list_events i (rs_events st) ! k; b = list_events i (rs_events st) ! Suc k
     in b = last (list_events i (rs_events st)) \<and>
        (sn_status (ev_snapshot a) = APPROVED \<and> ev_eventType a = Ev_APPROVAL_DECIDED \<and>
           ev_eventType b = Ev_STATE_TRANSITION \<and> 0 < k \<and>
           sn_status (ev_snapshot (list_events i (rs_events st) ! (k - 1))) = AWAITING_APPROVAL \<or>
         sn_status (ev_snapshot a) = UNKNOWN \<and> ev_eventType b = Ev_RECONCILED))"
proof -
  define es where "es = list_events i (rs_events st)"
  have l: "log_ok P i m es"
    using wf_log [OF wf_reachable [OF assms(1)] assms(2)] by (simp add: es_def)
  have c: "caused (Some (createAgentRegistry h)) P (ev_snapshot (es ! k)) (es ! Suc k)"
    if "Suc k < length es" for k
    using caused_log_reachable [OF assms(1), of i] that
    by (simp add: caused_log_def es_def successively_conv_nth)
  have ne: "es \<noteq> []" and last: "ev_snapshot (last es) = m" and draft: "ev_status (es ! 0) = DRAFT"
    using l by (auto simp: log_ok_def hd_conv_nth)
  have "length es \<noteq> 1" using last draft assms(3) ne by (auto simp: last_conv_nth)
  with ne obtain k where k: "length es = Suc (Suc k)"
    by (metis One_nat_def length_0_conv not0_implies_Suc)
  then have b: "last es = es ! Suc k" using ne by (simp add: last_conv_nth)
  then have compl: "ev_status (es ! Suc k) = COMPLETED" using last assms(3) by simp
  have step: "ev_status (es ! k) = APPROVED \<and> ev_eventType (es ! Suc k) = Ev_STATE_TRANSITION \<or>
      ev_status (es ! k) = UNKNOWN \<and> ev_eventType (es ! Suc k) = Ev_RECONCILED"
    using agent_caused [OF c compl] k by simp
  have "ev_eventType (es ! k) = Ev_APPROVAL_DECIDED \<and> 0 < k \<and> ev_status (es ! (k - 1)) = AWAITING_APPROVAL"
    if a: "ev_status (es ! k) = APPROVED"
  proof -
    have "k \<noteq> 0" using draft a by (cases k) auto
    then obtain j where j: "k = Suc j" by (cases k) auto
    with agent_approved [OF c, of j] a k show ?thesis by simp
  qed
  with step b k show ?thesis
    unfolding es_def [symmetric] Let_def by (intro exI [of _ k]) auto
qed

section \<open>Driving a mission\<close>

text \<open>The step list when the first \<open>k\<close> of its \<open>n\<close> steps are done and the next one runs.\<close>

definition steps_at :: "nat \<Rightarrow> nat \<Rightarrow> MissionStep list \<Rightarrow> bool" where
  "steps_at n k steps \<longleftrightarrow>
     length steps = n \<and>
     (\<forall>j < n. st_status (steps ! j) =
        (if j < k then S_COMPLETED else if j = k then S_IN_PROGRESS else S_PENDING))"

lemma find_index_eq:
  "i < length xs \<Longrightarrow> P (xs ! i) \<Longrightarrow> (\<And>j. j < i \<Longrightarrow> \<not> P (xs ! j)) \<Longrightarrow> find_index P xs = Some i"
proof (induction xs arbitrary: i)
  case (Cons x xs)
  show ?case
  proof (cases i)
    case 0
    with Cons.prems(2) show ?thesis by simp
  next
    case (Suc l)
    have "find_index P xs = Some l"
    proof (rule Cons.IH)
      show "l < length xs" and "P (xs ! l)" using Cons.prems(1,2) Suc by simp_all
      show "\<not> P (xs ! j)" if "j < l" for j
        using Cons.prems(3) [of "Suc j"] that Suc by simp
    qed
    moreover have "\<not> P x" using Cons.prems(3) [of 0] Suc by simp
    ultimately show ?thesis using Suc by simp
  qed
qed simp

lemma completedSteps_filter:
  "completedSteps steps = length (filter (\<lambda>s. st_status s = S_COMPLETED) steps)"
proof -
  have "foldl (\<lambda>count step. if st_status step = S_COMPLETED then count + 1 else count) c steps =
      c + length (filter (\<lambda>s. st_status s = S_COMPLETED) steps)" for c :: nat
    by (induction steps arbitrary: c) simp_all
  then show ?thesis by (simp add: completedSteps_def)
qed

lemma steps_at_completed: "steps_at n k steps \<Longrightarrow> k \<le> n \<Longrightarrow> completedSteps steps = k"
proof -
  assume s: "steps_at n k steps" and k: "k \<le> n"
  have "{i. i < length steps \<and> st_status (steps ! i) = S_COMPLETED} = {..<k}"
    using s k by (auto simp: steps_at_def split: if_splits)
  then show ?thesis by (simp add: completedSteps_filter length_filter_conv_card)
qed

lemma steps_at_activate:
  assumes "0 < length (ip_steps plan)"
  shows "steps_at (length (ip_steps plan)) 0 (activateSteps (stagedSteps plan) now)"
proof -
  have all: "length (stagedSteps plan) = length (ip_steps plan)"
    "\<And>j. j < length (ip_steps plan) \<Longrightarrow> st_status (stagedSteps plan ! j) = S_PENDING"
    by (simp_all add: stagedSteps_def nth_enumerate_eq)
  have "firstActiveIndex (stagedSteps plan) = Some 0"
    unfolding firstActiveIndex_def using assms all by (intro find_index_eq) auto
  with all show ?thesis by (auto simp: activateSteps_def steps_at_def nth_list_update)
qed

lemma steps_at_advance:
  assumes s: "steps_at n k steps" and k: "k < n"
  shows "steps_at n (Suc k) (fst (advanceSteps steps now))"
proof -
  define c where
    "c = steps[k := (steps ! k)\<lparr>st_status := S_COMPLETED, st_completedAt := Some now\<rparr>]"
  have f: "firstActiveIndex steps = Some k"
    unfolding firstActiveIndex_def using s k by (intro find_index_eq) (auto simp: steps_at_def)
  have c: "length c = n" "\<And>j. j < n \<Longrightarrow> st_status (c ! j) = (if j \<le> k then S_COMPLETED else S_PENDING)"
    using s k by (auto simp: steps_at_def nth_list_update c_def)
  show ?thesis
  proof (cases "Suc k < n")
    case True
    then have "find_index (\<lambda>step. st_status step = S_PENDING) c = Some (Suc k)"
      using c by (intro find_index_eq) auto
    with f c True show ?thesis
      by (auto simp: advanceSteps_def Let_def c_def [symmetric] steps_at_def nth_list_update
          less_Suc_eq_le)
  next
    case False
    with k have n: "n = Suc k" by simp
    with c have "find_index (\<lambda>step. st_status step = S_PENDING) c = None"
      by (auto simp: find_index_None_iff in_set_conv_nth)
    with f c n show ?thesis
      by (auto simp: advanceSteps_def Let_def c_def [symmetric] steps_at_def)
  qed
qed

text \<open>
  \<open>drive\<close> issues the given number of \<open>execute\<close> commands to a mission, each with the
  version it finds stored, as an orchestrator does.
\<close>

definition plain_ctx :: apply_ctx where
  "plain_ctx = \<lparr>cx_idempotencyKey = None, cx_expectedMissionVersion = None, cx_fenceToken = None\<rparr>"

definition execute_now :: "MissionSnapshot \<Rightarrow> BoundMissionCommand" where
  "execute_now m =
     \<lparr>bc_missionId = sn_id m, bc_command = Execute \<lparr>ex_expectedMissionVersion = sn_version m\<rparr>\<rparr>"

fun drive ::
  "(BoundMissionCommand \<Rightarrow> js_string) \<Rightarrow> intent_registry option \<Rightarrow> env list \<Rightarrow> js_string \<Rightarrow>
     runtime_state \<Rightarrow> runtime_state" where
  "drive H registry [] i st = st"
| "drive H registry (v # vs) i st =
     (case findById i (rs_store st) of
        None \<Rightarrow> st
      | Some m \<Rightarrow>
          drive H registry vs i (snd (apply_command H v registry (execute_now m) plain_ctx st)))"

lemma drive_append:
  "findById i (rs_store (drive H registry vs i st)) \<noteq> None \<Longrightarrow>
     drive H registry (vs @ ws) i st = drive H registry ws i (drive H registry vs i st)"
proof (induction vs arbitrary: st)
  case (Cons v vs)
  then show ?case by (auto split: option.splits)
qed simp

lemma drive_step:
  assumes "wf_runtime UNIV st" and "findById i (rs_store st) = Some m"
    and "plan_execute h (INTENT_PLANS (sn_intent m)) m \<lparr>ex_expectedMissionVersion = sn_version m\<rparr> = Some r"
  shows "findById i (rs_store (snd (apply_command H v (Some (createAgentRegistry h)) (execute_now m)
           plain_ctx st))) = Some (nextSnapshot v m (sn_status r) r) \<and>
         wf_runtime UNIV (snd (apply_command H v (Some (createAgentRegistry h)) (execute_now m) plain_ctx st))"
proof -
  have i: "sn_id m = i" by (rule wf_id [OF assms(1,2)])
  have legal: "mission_step (sn_status m) (sn_status r)" by (rule agent_status_legal [OF assms(3)])
  then have "\<not> isTerminal (sn_status m)" using terminal_no_step by blast
  then have "check_command (Some (createAgentRegistry h)) (rs_fences st) plain_ctx (execute_now m) m =
      Inr (sn_status r, r, Ev_STATE_TRANSITION)"
    using assms(3) legal guardTerminal_Inr_iff [of "sn_status m"]
    by (simp add: check_command_def plain_ctx_def execute_now_def agent_handler guarded_def
        transition_Inr_iff [THEN iffD2] Let_def split: option.splits)
  then have "run_command v (Some (createAgentRegistry h)) plain_ctx (execute_now m) m st =
      (Inr \<lparr>ar_snapshot = nextSnapshot v m (sn_status r) r,
            ar_event = buildEvent v (nextSnapshot v m (sn_status r) r) Ev_STATE_TRANSITION,
            ar_replayed = False\<rparr>,
       commit (nextSnapshot v m (sn_status r) r)
         (buildEvent v (nextSnapshot v m (sn_status r) r) Ev_STATE_TRANSITION) st)"
    by (simp add: run_command_def Let_def)
  moreover have "apply_command H v (Some (createAgentRegistry h)) (execute_now m) plain_ctx st =
      run_command v (Some (createAgentRegistry h)) plain_ctx (execute_now m) m st"
    using assms(2) i by (subst apply_unkeyed) (simp_all add: plain_ctx_def execute_now_def)
  moreover have "sn_id (nextSnapshot v m (sn_status r) r) = i" by (simp add: nextSnapshot_def i)
  ultimately show ?thesis
    using wf_commit [OF assms(1,2) log_step_matrix [OF legal]] by (simp add: ms.get_put)
qed

text \<open>A well-formed state whose mission \<open>i\<close> is at the given status, version and step.\<close>

definition phase ::
  "runtime_state \<Rightarrow> js_string \<Rightarrow> mission_intent \<Rightarrow> mission_status \<Rightarrow> int \<Rightarrow>
     (MissionStep list \<Rightarrow> bool) \<Rightarrow> bool" where
  "phase st i intent status version P \<longleftrightarrow>
     wf_runtime UNIV st \<and>
     (\<exists>m. findById i (rs_store st) = Some m \<and> sn_intent m = intent \<and> sn_status m = status \<and>
        sn_version m = version \<and> P (sn_steps m))"

lemma phase_drive:
  assumes "phase st i intent status n P"
    and "\<And>m c. sn_status m = status \<Longrightarrow> P (sn_steps m) \<Longrightarrow>
           \<exists>r. plan_execute h (INTENT_PLANS intent) m c = Some r \<and> sn_status r = status' \<and>
             Q (sn_steps r)"
  shows "phase (drive H (Some (createAgentRegistry h)) [v] i st) i intent status' (n + 1) Q"
proof -
  from assms(1) obtain m where wf: "wf_runtime UNIV st" and m: "findById i (rs_store st) = Some m"
    "sn_intent m = intent" "sn_status m = status" "sn_version m = n" "P (sn_steps m)"
    by (auto simp: phase_def)
  from assms(2) [OF m(3,5)] obtain r where
    r: "plan_execute h (INTENT_PLANS (sn_intent m)) m \<lparr>ex_expectedMissionVersion = sn_version m\<rparr> = Some r"
      "sn_status r = status'" "Q (sn_steps r)"
    using m(2) by blast
  from drive_step [OF wf m(1) r(1)] m r show ?thesis
    by (auto simp: phase_def nextSnapshot_def)
qed

lemma phase_found: "phase st i intent s n P \<Longrightarrow> findById i (rs_store st) \<noteq> None"
  by (auto simp: phase_def)

abbreviation plan_length :: "mission_intent \<Rightarrow> nat" where
  "plan_length intent \<equiv> length (ip_steps (INTENT_PLANS intent))"

lemma plan_length_3: "plan_length intent = 3"
  by (cases intent) simp_all

lemma drive_two:
  assumes "phase (drive H r [v] i st) i intent s n P"
  shows "drive H r (v # vs) i st = drive H r vs i (drive H r [v] i st)"
  using drive_append [OF phase_found [OF assms], of vs] by simp

lemma drive_start:
  assumes "phase st i intent DRAFT n (\<lambda>_. True)" and "length vs = 2"
  shows "phase (drive H (Some (createAgentRegistry h)) vs i st) i intent RUNNING (n + 2)
           (steps_at (plan_length intent) 0)"
proof -
  obtain v w where vs: "vs = [v, w]" using assms(2) by (auto simp: length_Suc_conv numeral_2_eq_2)
  have q: "phase (drive H (Some (createAgentRegistry h)) [v] i st) i intent QUEUED (n + 1)
      (\<lambda>s. s = stagedSteps (INTENT_PLANS intent))"
    using assms(1) by (rule phase_drive) (simp add: plan_execute_def)
  have "phase (drive H (Some (createAgentRegistry h)) [w] i
        (drive H (Some (createAgentRegistry h)) [v] i st)) i intent RUNNING (n + 1 + 1)
      (steps_at (plan_length intent) 0)"
    using q by (rule phase_drive)
      (use steps_at_activate [of "INTENT_PLANS intent"] in
        \<open>simp add: plan_execute_def Let_def plan_length_3\<close>)
  then show ?thesis by (simp only: vs drive_two [OF q, of "[w]"] add.assoc one_add_one)
qed

lemma drive_one_step:
  assumes "phase st i intent RUNNING n (steps_at (plan_length intent) k)"
    and "Suc k < plan_length intent" and "length vs = 2"
  shows "phase (drive H (Some (createAgentRegistry h)) vs i st) i intent RUNNING (n + 2)
           (steps_at (plan_length intent) (Suc k))"
proof -
  obtain v w where vs: "vs = [v, w]" using assms(3) by (auto simp: length_Suc_conv numeral_2_eq_2)
  have q: "phase (drive H (Some (createAgentRegistry h)) [v] i st) i intent WAITING_FOR_EVIDENCE (n + 1)
      (steps_at (plan_length intent) (Suc k))"
    using assms(1)
  proof (rule phase_drive)
    fix m :: MissionSnapshot and c assume s: "sn_status m = RUNNING" "steps_at (plan_length intent) k (sn_steps m)"
    have a: "steps_at (plan_length intent) (Suc k) (fst (advanceSteps (sn_steps m) (sn_updatedAt m)))"
      using s(2) assms(2) by (intro steps_at_advance) auto
    show "\<exists>r. plan_execute h (INTENT_PLANS intent) m c = Some r \<and> sn_status r = WAITING_FOR_EVIDENCE \<and>
        steps_at (plan_length intent) (Suc k) (sn_steps r)"
      using s a steps_at_completed [OF s(2)] steps_at_completed [OF a] assms(2)
      by (simp add: plan_execute_def running_execute_def Let_def split_beta)
  qed
  have "phase (drive H (Some (createAgentRegistry h)) [w] i
        (drive H (Some (createAgentRegistry h)) [v] i st)) i intent RUNNING (n + 1 + 1)
      (steps_at (plan_length intent) (Suc k))"
    using q by (rule phase_drive) (simp add: plan_execute_def)
  then show ?thesis by (simp only: vs drive_two [OF q, of "[w]"] add.assoc one_add_one)
qed

lemma drive_last_step:
  assumes "phase st i intent RUNNING n (steps_at (plan_length intent) k)" and "Suc k = plan_length intent"
  shows "phase (drive H (Some (createAgentRegistry h)) [v] i st) i intent AWAITING_APPROVAL (n + 1)
           (steps_at (plan_length intent) (Suc k))"
  using assms(1)
proof (rule phase_drive)
  fix m :: MissionSnapshot and c assume s: "sn_status m = RUNNING" "steps_at (plan_length intent) k (sn_steps m)"
  have a: "steps_at (plan_length intent) (Suc k) (fst (advanceSteps (sn_steps m) (sn_updatedAt m)))"
    using s(2) assms(2) by (intro steps_at_advance) auto
  show "\<exists>r. plan_execute h (INTENT_PLANS intent) m c = Some r \<and> sn_status r = AWAITING_APPROVAL \<and>
      steps_at (plan_length intent) (Suc k) (sn_steps r)"
    using s a steps_at_completed [OF s(2)] steps_at_completed [OF a] assms(2)
    by (simp add: plan_execute_def running_execute_def stageProposal_def Let_def split_beta)
qed

lemma phase_mono: "phase st i intent s n P \<Longrightarrow> (\<And>x. P x \<Longrightarrow> Q x) \<Longrightarrow> phase st i intent s n Q"
  by (auto simp: phase_def)

text \<open>The whole staging of a plan: two commands to start it, two per step but the last.\<close>

lemma drive_to_approval:
  assumes "phase st i intent DRAFT n (\<lambda>_. True)" and "length vs = 7"
  shows "phase (drive H (Some (createAgentRegistry h)) vs i st) i intent AWAITING_APPROVAL (n + 7)
           (steps_at (plan_length intent) (plan_length intent))"
proof -
  let ?d = "drive H (Some (createAgentRegistry h))"
  obtain a b c d e f g where vs: "vs = [a, b] @ [c, d] @ [e, f] @ [g]"
    using assms(2) by (auto simp: length_Suc_conv eval_nat_numeral)
  have "phase (?d [a, b] i st) i intent RUNNING (n + 2) (steps_at (plan_length intent) 0)"
    by (rule drive_start [OF assms(1)]) simp
  note 1 = this drive_one_step [OF this, of "[c, d]" H h]
  have 2: "phase (?d [c, d] i (?d [a, b] i st)) i intent RUNNING (n + 2 + 2)
      (steps_at (plan_length intent) 1)"
    using 1(2) by (simp add: plan_length_3)
  have 3: "phase (?d [e, f] i (?d [c, d] i (?d [a, b] i st))) i intent RUNNING (n + 2 + 2 + 2)
      (steps_at (plan_length intent) 2)"
    using drive_one_step [OF 2, of "[e, f]" H h] by (simp add: plan_length_3 numeral_2_eq_2)
  have 4: "phase (?d [g] i (?d [e, f] i (?d [c, d] i (?d [a, b] i st)))) i intent
      AWAITING_APPROVAL (n + 2 + 2 + 2 + 1) (steps_at (plan_length intent) 3)"
    using drive_last_step [OF 3, of H h g] by (simp add: plan_length_3 numeral_3_eq_3)
  show ?thesis
    unfolding vs drive_append [OF phase_found [OF 1(1)]] drive_append [OF phase_found [OF 2]]
      drive_append [OF phase_found [OF 3]]
    using 4 by (simp add: plan_length_3 algebra_simps)
qed

definition approve_now :: "js_string \<Rightarrow> int \<Rightarrow> js_string \<Rightarrow> MissionSnapshot \<Rightarrow> BoundMissionCommand" where
  "approve_now proposal version hash m =
     \<lparr>bc_missionId = sn_id m,
      bc_command = Approve \<lparr>ap_proposalId = proposal, ap_proposalVersion = version,
        ap_evidenceHash = hash, ap_expectedMissionVersion = sn_version m\<rparr>\<rparr>"

definition stored :: "js_string \<Rightarrow> runtime_state \<Rightarrow> MissionSnapshot" where
  "stored i st = the (findById i (rs_store st))"

lemma drive_approve:
  assumes "phase st i intent AWAITING_APPROVAL n P"
  shows "phase (snd (apply_command H v registry (approve_now pid pv hash (stored i st)) plain_ctx st))
           i intent APPROVED (n + 1) P"
proof -
  from assms obtain m where wf: "wf_runtime UNIV st" and m: "findById i (rs_store st) = Some m"
    "sn_intent m = intent" "sn_status m = AWAITING_APPROVAL" "sn_version m = n" "P (sn_steps m)"
    by (auto simp: phase_def)
  have i: "sn_id m = i" by (rule wf_id [OF wf m(1)])
  have legal: "mission_step (sn_status m) APPROVED" by (simp add: m(3) step_to_approved)
  have "check_command registry (rs_fences st) plain_ctx (approve_now pid pv hash m) m =
      Inr (APPROVED, m, Ev_APPROVAL_DECIDED)"
    using legal guardTerminal_Inr_iff [of "sn_status m"] m(3)
    by (simp add: check_command_def plain_ctx_def approve_now_def guarded_def
        transition_Inr_iff [THEN iffD2] isTerminal_def TERMINAL_STATES_def Let_def
        split: option.splits)
  then have "apply_command H v registry (approve_now pid pv hash m) plain_ctx st =
      (Inr \<lparr>ar_snapshot = nextSnapshot v m APPROVED m,
            ar_event = buildEvent v (nextSnapshot v m APPROVED m) Ev_APPROVAL_DECIDED,
            ar_replayed = False\<rparr>,
       commit (nextSnapshot v m APPROVED m)
         (buildEvent v (nextSnapshot v m APPROVED m) Ev_APPROVAL_DECIDED) st)"
    using m(1) i
    by (subst apply_unkeyed) (simp_all add: plain_ctx_def approve_now_def run_command_def Let_def)
  then show ?thesis
    using wf_commit [OF wf m(1) log_step_matrix [OF legal], of v m Ev_APPROVAL_DECIDED] m i
    by (simp add: phase_def stored_def ms.get_put nextSnapshot_def)
qed

text \<open>
  C8: liveness of the orchestrated lifecycle. In any reachable state with a \<open>DRAFT\<close> mission
  of any intent, seven execute commands stage its plan and bring it to
  \<open>AWAITING_APPROVAL\<close> with every step completed, one approval and one more execute complete
  it, nine versions later; the approval is accepted for any proposal id, version and evidence
  hash it names.
\<close>

theorem agent_mission_completes:
  assumes "reachable_runtime H (Some (createAgentRegistry h)) P st"
    and "findById i (rs_store st) = Some m" and "sn_status m = DRAFT" and "length vs = 7"
  shows "let st1 = drive H (Some (createAgentRegistry h)) vs i st;
             st2 = snd (apply_command H v (Some (createAgentRegistry h))
                         (approve_now pid pv hash (stored i st1)) plain_ctx st1);
             st3 = drive H (Some (createAgentRegistry h)) [w] i st2
         in sn_status (stored i st1) = AWAITING_APPROVAL \<and>
            sn_version (stored i st1) = sn_version m + 7 \<and>
            list_all (\<lambda>s. st_status s = S_COMPLETED) (sn_steps (stored i st1)) \<and>
            length (sn_steps (stored i st1)) = length (ip_steps (INTENT_PLANS (sn_intent m))) \<and>
            sn_status (stored i st3) = COMPLETED \<and> sn_version (stored i st3) = sn_version m + 9"
proof -
  define st1 where "st1 = drive H (Some (createAgentRegistry h)) vs i st"
  define st2 where "st2 = snd (apply_command H v (Some (createAgentRegistry h))
                       (approve_now pid pv hash (stored i st1)) plain_ctx st1)"
  define st3 where "st3 = drive H (Some (createAgentRegistry h)) [w] i st2"
  have "phase st i (sn_intent m) DRAFT (sn_version m) (\<lambda>_. True)"
    using assms(2,3) wf_any [OF wf_reachable [OF assms(1)]] by (auto simp: phase_def)
  from drive_to_approval [OF this assms(4), of H h]
  have 1: "phase st1 i (sn_intent m) AWAITING_APPROVAL (sn_version m + 7)
      (steps_at (plan_length (sn_intent m)) (plan_length (sn_intent m)))"
    by (simp add: st1_def)
  have 2: "phase st2 i (sn_intent m) APPROVED (sn_version m + 7 + 1)
      (steps_at (plan_length (sn_intent m)) (plan_length (sn_intent m)))"
    unfolding st2_def by (rule drive_approve [OF 1])
  have 3: "phase st3 i (sn_intent m) COMPLETED (sn_version m + 7 + 1 + 1) (\<lambda>_. True)"
    unfolding st3_def using 2 by (rule phase_drive) (simp add: plan_execute_def)
  show ?thesis
    unfolding Let_def st1_def [symmetric] st2_def [symmetric] st3_def [symmetric]
    using 1 3 by (auto simp: phase_def stored_def steps_at_def list_all_length)
qed

lemma started_reachable:
  "reachable_runtime H registry P sample_started"
proof -
  have "runtime_step H registry P (initial_runtime (Some [])) sample_started"
    unfolding sample_started_def by (rule starts) (simp add: initial_runtime_def findById_def)
  then show ?thesis unfolding reachable_runtime_def by blast
qed

theorem agent_mission_completes_witness:
  "sn_status (stored ''mission_1'' (drive sample_hash (Some (createAgentRegistry ''e''))
     (replicate 7 sample_env) ''mission_1'' sample_started)) = AWAITING_APPROVAL"
  using agent_mission_completes [OF started_reachable sample_stored(1) sample_status(1),
      of "replicate 7 sample_env" sample_hash "''e''"]
  by (simp add: Let_def)

definition sample_completed :: runtime_state where
  "sample_completed =
     (let r = Some (createAgentRegistry ''e'');
          st1 = drive sample_hash r (replicate 7 sample_env) ''mission_1'' sample_started;
          st2 = snd (apply_command sample_hash sample_env r
                       (approve_now ''p'' 1 ''h'' (stored ''mission_1'' st1)) plain_ctx st1)
      in drive sample_hash r [sample_env] ''mission_1'' st2)"

lemma drive_reachable:
  "reachable_runtime H registry P st \<Longrightarrow> reachable_runtime H registry P (drive H registry vs i st)"
proof (induction vs arbitrary: st)
  case (Cons v vs)
  have "reachable_runtime H registry P (snd (apply_command H v registry c plain_ctx st))" for c
    using Cons.prems unfolding reachable_runtime_def
    by (blast intro: rtranclp.rtrancl_into_rtrancl applies)
  with Cons show ?case by (simp split: option.splits)
qed simp

lemma sample_completed_reachable:
  "reachable_runtime sample_hash (Some (createAgentRegistry ''e'')) P sample_completed"
proof -
  have "reachable_runtime H registry P st \<Longrightarrow>
      reachable_runtime H registry P (snd (apply_command H v registry c ctx st))" for H registry st v c ctx
    unfolding reachable_runtime_def by (blast intro: rtranclp.rtrancl_into_rtrancl applies)
  then show ?thesis
    unfolding sample_completed_def Let_def by (intro drive_reachable) (blast intro: drive_reachable started_reachable)
qed

theorem completion_needs_a_decision_witness:
  "\<exists>k. Suc k < length (list_events ''mission_1'' (rs_events sample_completed)) \<and>
     list_events ''mission_1'' (rs_events sample_completed) ! Suc k =
       last (list_events ''mission_1'' (rs_events sample_completed))"
proof -
  have "findById ''mission_1'' (rs_store sample_completed) = Some (stored ''mission_1'' sample_completed)"
    and "sn_status (stored ''mission_1'' sample_completed) = COMPLETED"
    by code_simp+
  from completion_needs_a_decision [OF sample_completed_reachable this] show ?thesis
    by (auto simp: Let_def)
qed

end
