(* ===== verification/Recovery.thy ===== *)
theory Recovery
  imports Runtime_Commands
begin

text \<open>
  \<^verbatim>\<open>recovery/policy.ts\<close> and \<^verbatim>\<open>recovery/replay.ts\<close>: what to do with a
  mission after a restart, and the reconstruction of a snapshot from its log. The log that
  \<open>replayMission\<close> reads comes from storage, so its shape is not trusted: a \<open>raw_event\<close>
  keeps the sequence as any value (\<open>None\<close>: not a number) and the snapshot as \<open>None\<close> when the
  shape guard \<open>isValidSnapshot\<close> rejects it.
\<close>

section \<open>Policy\<close>

datatype recovery_action = Recover_To_Unknown | Decide_By_Evidence | Leave | Terminal

datatype recovery_outcome = Out_Completed | Out_Failed | Out_Running

definition effectiveStatus :: "mission_status \<Rightarrow> MissionEvent list \<Rightarrow> mission_status" where
  "effectiveStatus status events =
     (if events = [] then status else sn_status (ev_snapshot (last events)))"

definition recoveryAction :: "mission_status \<Rightarrow> MissionEvent list \<Rightarrow> recovery_action" where
  "recoveryAction status events =
     (case effectiveStatus status events of
        RUNNING \<Rightarrow> Recover_To_Unknown
      | RETRYING \<Rightarrow> Recover_To_Unknown
      | UNKNOWN \<Rightarrow> Decide_By_Evidence
      | WAITING_FOR_EVIDENCE \<Rightarrow> Leave
      | BLOCKED_BY_GATE \<Rightarrow> Leave
      | COMPLETED \<Rightarrow> Terminal
      | FAILED \<Rightarrow> Terminal
      | _ \<Rightarrow> Leave)"

definition isUnknownMarker :: "MissionEvent \<Rightarrow> bool" where
  "isUnknownMarker event \<longleftrightarrow>
     ev_eventType event = Ev_UNKNOWN \<or> sn_status (ev_snapshot event) = UNKNOWN"

definition isTerminalEvent :: "MissionEvent \<Rightarrow> bool" where
  "isTerminalEvent event \<longleftrightarrow>
     ev_eventType event = Ev_COMPLETED \<or> ev_eventType event = Ev_FAILED \<or>
     sn_status (ev_snapshot event) = COMPLETED \<or> sn_status (ev_snapshot event) = FAILED"

text \<open>The first loop: the index of the last marker, \<open>None\<close> for the \<open>-1\<close> of the source.\<close>

fun last_unknown :: "MissionEvent list \<Rightarrow> nat \<Rightarrow> nat option \<Rightarrow> nat option" where
  "last_unknown [] i acc = acc"
| "last_unknown (e # es) i acc = last_unknown es (i + 1) (if isUnknownMarker e then Some i else acc)"

text \<open>The second loop, over the events after the marker.\<close>

fun first_terminal :: "MissionEvent list \<Rightarrow> recovery_outcome" where
  "first_terminal [] = Out_Running"
| "first_terminal (e # es) =
     (if isTerminalEvent e
      then (if sn_status (ev_snapshot e) = COMPLETED then Out_Completed else Out_Failed)
      else first_terminal es)"

definition decideUnknownRecovery :: "MissionEvent list \<Rightarrow> recovery_outcome" where
  "decideUnknownRecovery events =
     (case last_unknown events 0 None of
        None \<Rightarrow> Out_Running
      | Some i \<Rightarrow> first_terminal (drop (i + 1) events))"

section \<open>Replay\<close>

record raw_event =
  raw_id :: js_string
  raw_missionId :: js_string
  raw_sequence :: "js_number option"
  raw_snapshot :: "MissionSnapshot option"

datatype replay_error =
    Empty_Log
  | Foreign_Mission js_string js_string
  | Bad_Sequence js_string
  | Not_Increasing int
  | Bad_Snapshot js_string

fun check_log :: "js_string \<Rightarrow> int \<Rightarrow> raw_event list \<Rightarrow> replay_error option" where
  "check_log missionId previous [] = None"
| "check_log missionId previous (e # es) =
     (if raw_missionId e \<noteq> missionId then Some (Foreign_Mission (raw_id e) (raw_missionId e))
      else (case raw_sequence e of
              None \<Rightarrow> Some (Bad_Sequence (raw_id e))
            | Some n \<Rightarrow>
                if \<not> is_integer n then Some (Bad_Sequence (raw_id e))
                else if to_bigint n \<le> previous then Some (Not_Increasing (to_bigint n))
                else if raw_snapshot e = None then Some (Bad_Snapshot (raw_id e))
                else check_log missionId (to_bigint n) es))"

definition replayMission :: "raw_event list \<Rightarrow> replay_error + MissionSnapshot" where
  "replayMission events =
     (case events of
        [] \<Rightarrow> Inl Empty_Log
      | first # _ \<Rightarrow>
          (case check_log (raw_missionId first) (- 1) events of
             Some e \<Rightarrow> Inl e
           | None \<Rightarrow> Inr (the (raw_snapshot (last events)))))"

definition raw_of :: "MissionEvent \<Rightarrow> raw_event" where
  "raw_of e =
     \<lparr>raw_id = ev_id e, raw_missionId = ev_missionId e,
      raw_sequence = Some (Fin (of_int (ev_sequence e))), raw_snapshot = Some (ev_snapshot e)\<rparr>"

lemmas recovery_defs = effectiveStatus_def recoveryAction_def isUnknownMarker_def
  isTerminalEvent_def decideUnknownRecovery_def replayMission_def raw_of_def

declare recovery_defs [code_defs]

section \<open>Lemmas\<close>

definition raw_seq :: "raw_event \<Rightarrow> int" where
  "raw_seq e = (case raw_sequence e of None \<Rightarrow> - 1 | Some n \<Rightarrow> to_bigint n)"

definition raw_ok :: "js_string \<Rightarrow> raw_event \<Rightarrow> bool" where
  "raw_ok i e \<longleftrightarrow>
     raw_missionId e = i \<and> (\<exists>n. raw_sequence e = Some n \<and> is_integer n) \<and> raw_snapshot e \<noteq> None"

lemma check_log_None_iff:
  "check_log i p es = None \<longleftrightarrow>
     list_all (raw_ok i) es \<and> sorted_wrt (<) (p # map raw_seq es)"
proof (induction es arbitrary: p)
  case Nil
  then show ?case by simp
next
  case (Cons e es)
  have s: "sorted_wrt (<) (p # map raw_seq (e # es)) \<longleftrightarrow>
      p < raw_seq e \<and> sorted_wrt (<) (raw_seq e # map raw_seq es)"
    by auto
  show ?case
  proof (cases "raw_ok i e \<and> p < raw_seq e")
    case True
    then have "check_log i p (e # es) = check_log i (raw_seq e) es"
      by (auto simp: raw_ok_def raw_seq_def)
    with True s Cons [of "raw_seq e"] show ?thesis by simp
  next
    case False
    then have "check_log i p (e # es) \<noteq> None"
      by (auto simp: raw_ok_def raw_seq_def split: option.splits)
    with False s show ?thesis by auto
  qed
qed

lemma last_unknown_none: "\<forall>e \<in> set es. \<not> isUnknownMarker e \<Longrightarrow> last_unknown es i acc = acc"
  by (induction es arbitrary: i) auto

lemma last_unknown_some:
  "isUnknownMarker e \<Longrightarrow> \<forall>x \<in> set ys. \<not> isUnknownMarker x \<Longrightarrow>
     last_unknown (xs @ e # ys) i acc = Some (i + length xs)"
  by (induction xs arbitrary: i acc) (auto simp: last_unknown_none)

lemma decide_marker:
  "isUnknownMarker e \<Longrightarrow> \<forall>x \<in> set ys. \<not> isUnknownMarker x \<Longrightarrow>
     decideUnknownRecovery (xs @ e # ys) = first_terminal ys"
  by (simp add: decideUnknownRecovery_def last_unknown_some)

lemma decide_no_marker:
  "\<forall>x \<in> set es. \<not> isUnknownMarker x \<Longrightarrow> decideUnknownRecovery es = Out_Running"
  by (simp add: decideUnknownRecovery_def last_unknown_none)

lemma find_append_none: "find P xs = None \<Longrightarrow> find P (xs @ ys) = find P ys"
  by (induction xs) (auto split: if_splits)

lemma first_terminal_find:
  "first_terminal es =
     (case find isTerminalEvent es of
        None \<Rightarrow> Out_Running
      | Some t \<Rightarrow> if sn_status (ev_snapshot t) = COMPLETED then Out_Completed else Out_Failed)"
  by (induction es) auto

text \<open>
  C10: \<open>replayMission\<close> accepts exactly the logs that belong to one mission, have strictly
  increasing integer sequences from 0 on and carry only valid snapshots, and returns the last
  snapshot; everything else is an error.
\<close>

theorem replay_accepts_exactly_wellformed_logs:
  "replayMission es = Inr s \<longleftrightarrow>
     es \<noteq> [] \<and> raw_snapshot (last es) = Some s \<and>
     (\<forall>e \<in> set es. raw_missionId e = raw_missionId (hd es) \<and> raw_snapshot e \<noteq> None \<and>
        (\<exists>n. raw_sequence e = Some n \<and> is_integer n \<and> 0 \<le> to_bigint n)) \<and>
     (\<forall>i j. i < j \<longrightarrow> j < length es \<longrightarrow> raw_seq (es ! i) < raw_seq (es ! j))"
proof (cases es)
  case Nil
  then show ?thesis by (simp add: replayMission_def)
next
  case (Cons e es')
  let ?i = "raw_missionId e"
  have "replayMission es = Inr s \<longleftrightarrow> check_log ?i (- 1) es = None \<and> the (raw_snapshot (last es)) = s"
    using Cons by (auto simp: replayMission_def split: option.splits)
  also have "\<dots> \<longleftrightarrow> list_all (raw_ok ?i) es \<and> sorted_wrt (<) (- 1 # map raw_seq es) \<and>
      the (raw_snapshot (last es)) = s"
    by (simp only: check_log_None_iff conj_assoc)
  also have "sorted_wrt (<) (- 1 # map raw_seq es) \<longleftrightarrow>
      (\<forall>e \<in> set es. 0 \<le> raw_seq e) \<and> sorted_wrt (<) (map raw_seq es)"
    by auto
  also have "sorted_wrt (<) (map raw_seq es) \<longleftrightarrow>
      (\<forall>i j. i < j \<longrightarrow> j < length es \<longrightarrow> raw_seq (es ! i) < raw_seq (es ! j))"
    by (auto simp: sorted_wrt_iff_nth_less)
  also have "list_all (raw_ok ?i) es \<and> ((\<forall>e \<in> set es. 0 \<le> raw_seq e) \<and>
      (\<forall>i j. i < j \<longrightarrow> j < length es \<longrightarrow> raw_seq (es ! i) < raw_seq (es ! j))) \<and>
      the (raw_snapshot (last es)) = s \<longleftrightarrow>
      (\<forall>e \<in> set es. raw_ok ?i e \<and> 0 \<le> raw_seq e) \<and>
      (\<forall>i j. i < j \<longrightarrow> j < length es \<longrightarrow> raw_seq (es ! i) < raw_seq (es ! j)) \<and>
      the (raw_snapshot (last es)) = s"
    by (auto simp: list_all_iff)
  also have "\<dots> \<longleftrightarrow> (\<forall>e \<in> set es. raw_ok ?i e \<and> 0 \<le> raw_seq e) \<and>
      (\<forall>i j. i < j \<longrightarrow> j < length es \<longrightarrow> raw_seq (es ! i) < raw_seq (es ! j)) \<and>
      raw_snapshot (last es) = Some s"
    using Cons last_in_set [of es] by (auto simp: raw_ok_def)
  finally show ?thesis
    using Cons by (auto simp: raw_ok_def raw_seq_def)
qed

definition sample_raw :: "rat \<Rightarrow> raw_event" where
  "sample_raw n =
     \<lparr>raw_id = ''e'', raw_missionId = ''m'', raw_sequence = Some (Fin n),
      raw_snapshot = Some (sample_mission sample_started)\<rparr>"

theorem replay_accepts_exactly_wellformed_logs_witness:
  "replayMission [sample_raw 1, sample_raw 2] = Inr (sample_mission sample_started) \<and>
   replayMission [sample_raw 2, sample_raw 1] \<noteq> Inr (sample_mission sample_started)"
proof (intro conjI)
  show "replayMission [sample_raw 1, sample_raw 2] = Inr (sample_mission sample_started)"
    unfolding replay_accepts_exactly_wellformed_logs
    by (auto simp: sample_raw_def raw_seq_def less_Suc_eq nth_Cons')
  show "replayMission [sample_raw 2, sample_raw 1] \<noteq> Inr (sample_mission sample_started)"
    unfolding replay_accepts_exactly_wellformed_logs
  proof (rule notI, elim conjE)
    assume "\<forall>i j. i < j \<longrightarrow> j < length [sample_raw 2, sample_raw 1] \<longrightarrow>
        raw_seq ([sample_raw 2, sample_raw 1] ! i) < raw_seq ([sample_raw 2, sample_raw 1] ! j)"
    from this [rule_format, of 0 1] show False by (simp add: sample_raw_def raw_seq_def)
  qed
qed

section \<open>Recovery of what the runtime wrote\<close>

lemma map_raw_seq [simp]: "map raw_seq (map raw_of es) = map ev_sequence es"
  by (auto simp: raw_seq_def raw_of_def)

text \<open>
  C9: recovery loses nothing. In every reachable state, replaying the event log of a mission
  yields exactly the snapshot the store holds, and replaying any non-empty prefix of it yields
  the snapshot the mission had then.
\<close>

theorem replay_recovers_the_store:
  assumes "reachable_runtime H registry P st" and "findById i (rs_store st) = Some m"
  shows "replayMission (map raw_of (list_events i (rs_events st))) = Inr m \<and>
         (\<forall>k. 0 < k \<longrightarrow> k \<le> length (list_events i (rs_events st)) \<longrightarrow>
            replayMission (map raw_of (take k (list_events i (rs_events st)))) =
              Inr (ev_snapshot (list_events i (rs_events st) ! (k - 1))))"
proof -
  define es where "es = list_events i (rs_events st)"
  have l: "log_ok P i m es"
    using wf_log [OF wf_reachable [OF assms(1)] assms(2)] by (simp add: es_def)
  have "replayMission (map raw_of (take k es)) = Inr (ev_snapshot (es ! (k - 1)))"
    if k: "0 < k" "k \<le> length es" for k
  proof -
    let ?r = "map raw_of (take k es)"
    have ne: "take k es \<noteq> []" using k by auto
    then have "last (take k es) = es ! (k - 1)"
      using k last_conv_nth [OF ne] by (simp add: min_def)
    with ne have last: "raw_snapshot (last ?r) = Some (ev_snapshot (es ! (k - 1)))"
      by (simp add: last_map raw_of_def)
    have seq: "map ev_sequence (take k es) = map (\<lambda>j. int j + 1) [0..<k]"
    proof -
      have "map ev_sequence (take k es) = take k (map (\<lambda>j. int j + 1) [0..<length es])"
        using l by (simp add: log_ok_def take_map [symmetric])
      then show ?thesis using k by (simp add: take_map)
    qed
    have "ev_missionId e = i" if "e \<in> set (take k es)" for e
      using l that in_set_takeD [OF that] by (auto simp: log_ok_def list_all_iff event_ok_def)
    then have ok: "list_all (raw_ok i) ?r"
      by (auto simp: list_all_iff raw_ok_def raw_of_def)
    have "sorted_wrt (<) (- 1 # map raw_seq ?r)"
      unfolding map_raw_seq seq by (auto simp: sorted_wrt_iff_nth_less nth_Cons')
    with ok have "check_log i (- 1) ?r = None" by (simp only: check_log_None_iff simp_thms)
    moreover from ne ok obtain f r where "?r = f # r" "raw_missionId f = i"
      by (cases "take k es") (auto simp: raw_ok_def)
    ultimately show ?thesis using last by (simp add: replayMission_def)
  qed
  moreover from this [of "length es"] l have "replayMission (map raw_of es) = Inr m"
    by (auto simp: log_ok_def last_conv_nth)
  ultimately show ?thesis unfolding es_def by blast
qed

theorem replay_recovers_the_store_witness:
  "replayMission (map raw_of (list_events ''mission_1'' (rs_events sample_queued))) =
     Inr (sample_mission sample_queued)"
  using replay_recovers_the_store [OF sample_reachable(2) sample_stored(2)] by blast

lemma log_terminal_last:
  assumes "log_ok {} i m es" and "es = xs @ e # ys" and "isTerminal (ev_status e)"
  shows "ys = []"
proof (rule ccontr)
  assume "ys \<noteq> []"
  then obtain y zs where "ys = y # zs" by (cases ys) auto
  with assms(1,2) have "mission_step (ev_status e) (ev_status y)"
    by (simp add: log_ok_def log_step_def successively_append_iff)
  with assms(3) show False by (simp add: terminal_no_step)
qed

lemma caused_types:
  "caused registry P m e \<Longrightarrow> ev_eventType e \<in> {Ev_STATE_TRANSITION, Ev_APPROVAL_DECIDED, Ev_RECONCILED}"
proof -
  have "resolveTarget registry m cmd = Inr (s, b, ty) \<Longrightarrow>
      ty \<in> {Ev_STATE_TRANSITION, Ev_APPROVAL_DECIDED, Ev_RECONCILED}" for cmd s b ty
    by (cases cmd) (auto simp: guarded_def Let_def split: sum.splits option.splits)
  then show "caused registry P m e \<Longrightarrow>
      ev_eventType e \<in> {Ev_STATE_TRANSITION, Ev_APPROVAL_DECIDED, Ev_RECONCILED}"
    by (auto simp: caused_def)
qed

lemma types_log:
  assumes c: "caused_log registry P es" and e: "e \<in> set es"
  shows "ev_eventType e \<in> {Ev_STATE_TRANSITION, Ev_APPROVAL_DECIDED, Ev_RECONCILED}"
proof -
  obtain k where k: "k < length es" "e = es ! k" using e by (auto simp: in_set_conv_nth)
  show ?thesis
  proof (cases k)
    case 0
    with k c e show ?thesis by (auto simp: caused_log_def hd_conv_nth)
  next
    case (Suc j)
    with k c have "caused registry P (ev_snapshot (es ! j)) e"
      by (simp add: caused_log_def successively_conv_nth)
    then show ?thesis by (rule caused_types)
  qed
qed

text \<open>
  what the evidence decision can find. On the logs the runtime writes with its default recovery,
  \<open>decideUnknownRecovery\<close> returns a terminal outcome exactly when the mission went through
  \<open>UNKNOWN\<close> and is terminal already, and then it is the stored outcome; a mission that is
  still \<open>UNKNOWN\<close>, the only one \<open>recoveryAction\<close> sends there, is always to be resumed.
\<close>

theorem evidence_decision_on_runtime_logs:
  assumes "reachable_runtime H registry {} st" and "findById i (rs_store st) = Some m"
  defines "es \<equiv> list_events i (rs_events st)"
  shows "decideUnknownRecovery es =
           (if (\<exists>e \<in> set es. sn_status (ev_snapshot e) = UNKNOWN) \<and> isTerminal (sn_status m)
            then (if sn_status m = COMPLETED then Out_Completed else Out_Failed)
            else Out_Running) \<and>
         (recoveryAction (sn_status m) es = Decide_By_Evidence \<longleftrightarrow> sn_status m = UNKNOWN)"
proof -
  have l: "log_ok {} i m es"
    using wf_log [OF wf_reachable [OF assms(1)] assms(2)] by (simp add: es_def)
  then have ne: "es \<noteq> []" and last: "ev_status (last es) = sn_status m"
    and draft: "ev_status (hd es) = DRAFT"
    by (auto simp: log_ok_def)
  have action: "recoveryAction (sn_status m) es = Decide_By_Evidence \<longleftrightarrow> sn_status m = UNKNOWN"
    using ne last by (auto simp: recoveryAction_def effectiveStatus_def split: mission_status.splits)
  have ty: "ev_eventType e \<notin> {Ev_UNKNOWN, Ev_COMPLETED, Ev_FAILED}" if "e \<in> set es" for e
    using types_log [OF caused_log_reachable [OF assms(1)], of e i] that
    by (auto simp: es_def)
  have mark: "isUnknownMarker e \<longleftrightarrow> ev_status e = UNKNOWN" if "e \<in> set es" for e
    using ty [OF that] by (simp add: isUnknownMarker_def)
  have final: "isTerminalEvent e \<longleftrightarrow> isTerminal (ev_status e)" if "e \<in> set es" for e
    using ty [OF that] by (auto simp: isTerminalEvent_def isTerminal_def TERMINAL_STATES_def)
  show ?thesis
  proof (cases "\<exists>e \<in> set es. ev_status e = UNKNOWN")
    case False
    then have "decideUnknownRecovery es = Out_Running" using mark by (simp add: decide_no_marker)
    with False action show ?thesis by auto
  next
    case True
    then have "\<exists>e \<in> set es. isUnknownMarker e" using mark by blast
    then obtain xs u ys where es: "es = xs @ u # ys" "isUnknownMarker u"
      "\<forall>e \<in> set ys. \<not> isUnknownMarker e"
      by (auto dest!: split_list_last_prop)
    have d: "decideUnknownRecovery es = first_terminal ys" using es decide_marker by simp
    have u: "\<not> isTerminal (ev_status u)" using es mark [of u] by (auto simp: status_defs)
    have find: "find isTerminalEvent ys = (if isTerminal (sn_status m) then Some (last es) else None)"
    proof (cases "isTerminal (sn_status m)")
      case True
      then have "ys \<noteq> []" using u last es by auto
      then obtain zs t where ys: "ys = zs @ [t]" by (metis rev_exhaust)
      have "\<not> isTerminalEvent e" if e: "e \<in> set zs" for e
      proof -
        obtain as bs where "zs = as @ e # bs" using split_list [OF e] by blast
        then have "es = (xs @ u # as) @ e # (bs @ [t])" using es ys by simp
        with log_terminal_last [OF l this] final [of e] show ?thesis by auto
      qed
      then have "find isTerminalEvent zs = None" by (simp add: find_None_iff)
      moreover have "isTerminalEvent t" and "t = last es"
        using final [of t] es ys last True by auto
      ultimately show ?thesis using True ys by (simp add: find_append_none)
    next
      case False
      have "\<not> isTerminalEvent e" if e: "e \<in> set ys" for e
      proof
        assume "isTerminalEvent e"
        then have "isTerminal (ev_status e)" using final e es by simp
        obtain as bs where "ys = as @ e # bs" using split_list [OF e] by blast
        then have s: "es = (xs @ u # as) @ e # bs" using es by simp
        with log_terminal_last [OF l s \<open>isTerminal (ev_status e)\<close>] last False
          \<open>isTerminal (ev_status e)\<close>
        show False by simp
      qed
      with False show ?thesis by (simp add: find_None_iff)
    qed
    then have "first_terminal ys =
        (if isTerminal (sn_status m) then if sn_status m = COMPLETED then Out_Completed else Out_Failed
         else Out_Running)"
      using last by (simp add: first_terminal_find)
    with True d action show ?thesis by auto
  qed
qed

theorem evidence_decision_on_runtime_logs_witness:
  "decideUnknownRecovery (list_events ''mission_1'' (rs_events sample_queued)) = Out_Running"
  using evidence_decision_on_runtime_logs [OF sample_reachable(2) sample_stored(2)] sample_status(2)
  by (auto simp: status_defs)

end
