(* ===== verification/Outbox.thy ===== *)
theory Outbox
  imports Mission_Store
begin

text \<open>
  \<^verbatim>\<open>missions/outbox.ts\<close>: the transactional outbox. The in-memory store is the
  insertion-ordered \<open>Map\<close> of its messages; \<open>enqueueMessage\<close> and \<open>deliverMessage\<close> take
  the fresh identifier and the clock as arguments. The delivery contract is proved against
  the events a run emits (which identifiers \<open>deliverMessage\<close> returned \<open>true\<close> for).
\<close>

datatype outbox_status = O_pending | O_delivered | O_failed

record OutboxMessage =
  om_id :: js_string
  om_aggregateId :: js_string
  om_type :: js_string
  om_payloadHash :: js_string
  om_status :: outbox_status
  om_attempts :: int
  om_createdAt :: js_string
  om_deliveredAt :: "js_string option"

record DuplicateDeliveryError =
  dd_aggregateId :: js_string
  dd_payloadHash :: js_string

type_synonym outbox = "(js_string, OutboxMessage) js_map"

section \<open>The in-memory store\<close>

definition om_findPending :: "js_string \<Rightarrow> js_string \<Rightarrow> outbox \<Rightarrow> OutboxMessage option" where
  "om_findPending aggregateId payloadHash m =
     find (\<lambda>x. om_aggregateId x = aggregateId \<and> om_payloadHash x = payloadHash) (map snd m)"

definition om_wasDelivered :: "js_string \<Rightarrow> js_string \<Rightarrow> outbox \<Rightarrow> bool" where
  "om_wasDelivered aggregateId payloadHash m =
     (case om_findPending aggregateId payloadHash m of
        None \<Rightarrow> False | Some x \<Rightarrow> om_status x = O_delivered)"

definition om_findById :: "js_string \<Rightarrow> outbox \<Rightarrow> OutboxMessage option" where
  "om_findById i m = map_of m i"

definition om_enqueue :: "OutboxMessage \<Rightarrow> outbox \<Rightarrow> DuplicateDeliveryError + outbox" where
  "om_enqueue x m =
     (if om_wasDelivered (om_aggregateId x) (om_payloadHash x) m
      then Inl \<lparr>dd_aggregateId = om_aggregateId x, dd_payloadHash = om_payloadHash x\<rparr>
      else Inr (AList.update (om_id x) x m))"

definition om_markDelivered :: "js_string \<Rightarrow> js_string \<Rightarrow> outbox \<Rightarrow> outbox" where
  "om_markDelivered now i m =
     (case map_of m i of
        None \<Rightarrow> m
      | Some x \<Rightarrow>
          AList.update i (x\<lparr>om_status := O_delivered, om_deliveredAt := Some now\<rparr>) m)"

definition om_markFailed :: "js_string \<Rightarrow> outbox \<Rightarrow> outbox" where
  "om_markFailed i m =
     (case map_of m i of
        None \<Rightarrow> m
      | Some x \<Rightarrow> AList.update i (x\<lparr>om_status := O_failed, om_attempts := om_attempts x + 1\<rparr>) m)"

section \<open>Operations\<close>

definition pending_message ::
  "js_string \<Rightarrow> js_string \<Rightarrow> js_string \<Rightarrow> js_string \<Rightarrow> js_string \<Rightarrow> OutboxMessage" where
  "pending_message uuid now aggregateId type payloadHash =
     \<lparr>om_id = ''outbox_'' @ uuid, om_aggregateId = aggregateId, om_type = type,
      om_payloadHash = payloadHash, om_status = O_pending, om_attempts = 0,
      om_createdAt = now, om_deliveredAt = None\<rparr>"

definition enqueueMessage ::
  "js_string \<Rightarrow> js_string \<Rightarrow> js_string \<Rightarrow> js_string \<Rightarrow> js_string \<Rightarrow> outbox \<Rightarrow>
     (DuplicateDeliveryError + OutboxMessage) \<times> outbox" where
  "enqueueMessage uuid now aggregateId type payloadHash m =
     (case om_findPending aggregateId payloadHash m of
        Some existing \<Rightarrow>
          if om_status existing = O_delivered
          then (Inl \<lparr>dd_aggregateId = aggregateId, dd_payloadHash = payloadHash\<rparr>, m)
          else (Inr existing, m)
      | None \<Rightarrow>
          (let x = pending_message uuid now aggregateId type payloadHash
           in (case om_enqueue x m of Inl e \<Rightarrow> (Inl e, m) | Inr m' \<Rightarrow> (Inr x, m'))))"

definition deliverMessage :: "js_string \<Rightarrow> js_string \<Rightarrow> outbox \<Rightarrow> bool \<times> outbox" where
  "deliverMessage now i m =
     (case om_findById i m of
        None \<Rightarrow> (False, m)
      | Some x \<Rightarrow>
          if om_status x = O_delivered then (False, m) else (True, om_markDelivered now i m))"

lemmas outbox_defs = om_findPending_def om_wasDelivered_def om_findById_def om_enqueue_def
  om_markDelivered_def om_markFailed_def pending_message_def enqueueMessage_def deliverMessage_def

declare outbox_defs [code_defs]

section \<open>Runs\<close>

text \<open>
  The caller's actions, and what a run delivers: the deduplication identities (aggregate and
  payload hash) of the messages \<open>deliverMessage\<close> answered \<open>true\<close> for, in order.
\<close>

datatype outbox_action =
    Enqueue js_string js_string js_string js_string js_string
  | Deliver js_string js_string
  | Fail js_string

definition om_identity :: "OutboxMessage \<Rightarrow> js_string \<times> js_string" where
  "om_identity x = (om_aggregateId x, om_payloadHash x)"

fun outbox_step :: "outbox_action \<Rightarrow> outbox \<Rightarrow> (js_string \<times> js_string) list \<times> outbox" where
  "outbox_step (Enqueue uuid now agg type hash) m = ([], snd (enqueueMessage uuid now agg type hash m))"
| "outbox_step (Deliver now i) m =
     (case deliverMessage now i m of
        (done, m') \<Rightarrow>
          ((if done then map om_identity (case om_findById i m of None \<Rightarrow> [] | Some x \<Rightarrow> [x]) else []), m'))"
| "outbox_step (Fail i) m = ([], om_markFailed i m)"

fun outbox_run :: "outbox_action list \<Rightarrow> outbox \<Rightarrow> (js_string \<times> js_string) list \<times> outbox" where
  "outbox_run [] m = ([], m)"
| "outbox_run (a # as) m =
     (case outbox_step a m of
        (ds, m') \<Rightarrow> (case outbox_run as m' of (es, m'') \<Rightarrow> (ds @ es, m'')))"

text \<open>
  A fair action enqueues under a fresh identifier and never marks a delivered message failed.
\<close>

fun fair_action :: "outbox_action \<Rightarrow> outbox \<Rightarrow> bool" where
  "fair_action (Enqueue uuid now agg type hash) m = (om_findById (''outbox_'' @ uuid) m = None)"
| "fair_action (Deliver now i) m = True"
| "fair_action (Fail i) m =
     (case om_findById i m of None \<Rightarrow> True | Some x \<Rightarrow> om_status x \<noteq> O_delivered)"

fun fair_run :: "outbox_action list \<Rightarrow> outbox \<Rightarrow> bool" where
  "fair_run [] m = True"
| "fair_run (a # as) m = (fair_action a m \<and> fair_run as (snd (outbox_step a m)))"

definition outbox_ok :: "outbox \<Rightarrow> bool" where
  "outbox_ok m \<longleftrightarrow>
     distinct (map fst m) \<and> distinct (map (om_identity \<circ> snd) m) \<and>
     list_all (\<lambda>(i, x). om_id x = i) m"

definition delivered :: "outbox \<Rightarrow> (js_string \<times> js_string) set" where
  "delivered m = {om_identity x | i x. (i, x) \<in> set m \<and> om_status x = O_delivered}"

lemma findPending_None_iff:
  "om_findPending a h m = None \<longleftrightarrow> (a, h) \<notin> om_identity ` snd ` set m"
  by (force simp: om_findPending_def find_None_iff om_identity_def)

lemma findPending_Some:
  "om_findPending a h m = Some x \<Longrightarrow> x \<in> snd ` set m \<and> om_identity x = (a, h)"
  by (auto simp: om_findPending_def find_Some_iff om_identity_def)

lemma enqueue_shape:
  "snd (enqueueMessage uuid now agg type hash m) = m \<or>
   om_findPending agg hash m = None \<and>
   snd (enqueueMessage uuid now agg type hash m) =
     AList.update (''outbox_'' @ uuid) (pending_message uuid now agg type hash) m"
  by (auto simp: enqueueMessage_def om_enqueue_def Let_def pending_message_def split: option.splits)

lemma pending_message_simps [simp]:
  "om_id (pending_message uuid now agg type hash) = ''outbox_'' @ uuid"
  "om_identity (pending_message uuid now agg type hash) = (agg, hash)"
  "om_status (pending_message uuid now agg type hash) = O_pending"
  by (simp_all add: pending_message_def om_identity_def)

lemma outbox_ok_put:
  assumes "outbox_ok m" and "map_of m i = Some x" and "om_identity y = om_identity x"
    and "om_id y = om_id x"
  shows "outbox_ok (AList.update i y m)"
proof -
  have "om_id x = i"
    using assms(1,2) by (auto simp: outbox_ok_def list_all_iff dest: map_of_SomeD)
  with assms show ?thesis
    by (auto simp: outbox_ok_def distinct_update update_map_preserved list_all_iff
        dest!: in_set_update)
qed

lemma delivered_put:
  assumes ok: "outbox_ok m" and x: "map_of m i = Some x" and y: "om_identity y = om_identity x"
  shows "delivered (AList.update i y m) =
           (if om_status y = O_delivered then insert (om_identity x) (delivered m)
            else delivered m - {om_identity x})"
proof -
  have d: "distinct (map fst m)" and u: "distinct (map (om_identity \<circ> snd) m)"
    using ok by (simp_all add: outbox_ok_def)
  have inj: "j = i \<and> z = x" if "(j, z) \<in> set m" and "om_identity z = om_identity x" for j z
    using u that map_of_SomeD [OF x] unfolding distinct_map inj_on_def
    by fastforce
  have "{p \<in> set m. fst p \<noteq> i} = set m - {(i, x)}"
    using map_of_SomeD [OF x] d by (auto dest: eq_key_imp_eq_value)
  then have s: "set (AList.update i y m) = insert (i, y) (set m - {(i, x)})"
    by (simp add: set_update_distinct [OF d])
  show ?thesis
    unfolding delivered_def s using y map_of_SomeD [OF x] by (auto dest: inj) (metis inj)+
qed

lemma outbox_step_ok: "outbox_ok m \<Longrightarrow> fair_action a m \<Longrightarrow> outbox_ok (snd (outbox_step a m))"
proof (cases a)
  case (Enqueue uuid now agg type hash)
  assume ok: "outbox_ok m" and fair: "fair_action a m"
  show ?thesis
  proof (cases "snd (enqueueMessage uuid now agg type hash m) = m")
    case True
    with ok Enqueue show ?thesis by simp
  next
    case False
    with enqueue_shape have
      n: "om_findPending agg hash m = None" and
      u: "snd (enqueueMessage uuid now agg type hash m) =
            AList.update (''outbox_'' @ uuid) (pending_message uuid now agg type hash) m"
      by blast+
    from fair Enqueue have new: "''outbox_'' @ uuid \<notin> fst ` set m"
      by (simp add: om_findById_def map_of_eq_None_iff)
    from ok n new show ?thesis
      unfolding Enqueue outbox_step.simps snd_conv u update_new_key [OF new]
      by (simp add: outbox_ok_def findPending_None_iff image_comp)
  qed
qed (auto simp: deliverMessage_def om_markDelivered_def om_markFailed_def om_findById_def
    om_identity_def split: option.splits intro!: outbox_ok_put)

lemma delivered_subset: "delivered m \<subseteq> om_identity ` snd ` set m"
  unfolding delivered_def by force

lemma delivered_new:
  "om_status y \<noteq> O_delivered \<Longrightarrow> delivered (m @ [(i, y)]) = delivered m"
  by (auto simp: delivered_def)

lemma outbox_step_delivered:
  assumes ok: "outbox_ok m" and fair: "fair_action a m"
  shows "delivered (snd (outbox_step a m)) = delivered m \<union> set (fst (outbox_step a m)) \<and>
         set (fst (outbox_step a m)) \<inter> delivered m = {} \<and> distinct (fst (outbox_step a m))"
proof (cases a)
  case (Enqueue uuid now agg type hash)
  have "delivered (snd (enqueueMessage uuid now agg type hash m)) = delivered m"
  proof (cases "snd (enqueueMessage uuid now agg type hash m) = m")
    case False
    with enqueue_shape have
      u: "snd (enqueueMessage uuid now agg type hash m) =
            AList.update (''outbox_'' @ uuid) (pending_message uuid now agg type hash) m"
      by blast
    from fair Enqueue have "''outbox_'' @ uuid \<notin> fst ` set m"
      by (simp add: om_findById_def map_of_eq_None_iff)
    then show ?thesis unfolding u by (simp add: update_new_key delivered_new)
  qed simp
  with Enqueue show ?thesis by simp
next
  case (Deliver now i)
  show ?thesis
  proof (cases "map_of m i")
    case None
    with Deliver show ?thesis by (simp add: deliverMessage_def om_findById_def)
  next
    case (Some x)
    have u: "om_identity z = om_identity x \<Longrightarrow> (j, z) \<in> set m \<Longrightarrow> z = x" for j z
      using ok map_of_SomeD [OF Some] unfolding outbox_ok_def distinct_map inj_on_def by fastforce
    have "om_status x \<noteq> O_delivered \<Longrightarrow> om_identity x \<notin> delivered m"
      using u unfolding delivered_def by fastforce
    with Deliver Some delivered_put [OF ok Some,
        of "x\<lparr>om_status := O_delivered, om_deliveredAt := Some now\<rparr>"]
    show ?thesis
      by (auto simp: deliverMessage_def om_findById_def om_markDelivered_def om_identity_def)
  qed
next
  case (Fail i)
  show ?thesis
  proof (cases "map_of m i")
    case None
    with Fail show ?thesis by (simp add: om_markFailed_def)
  next
    case (Some x)
    have u: "om_identity z = om_identity x \<Longrightarrow> (j, z) \<in> set m \<Longrightarrow> z = x" for j z
      using ok map_of_SomeD [OF Some] unfolding outbox_ok_def distinct_map inj_on_def by fastforce
    have "om_status x \<noteq> O_delivered"
      using fair Fail Some by (simp add: om_findById_def)
    then have "om_identity x \<notin> delivered m"
      using u unfolding delivered_def by fastforce
    with Fail Some delivered_put [OF ok Some,
        of "x\<lparr>om_status := O_failed, om_attempts := om_attempts x + 1\<rparr>"]
    show ?thesis by (simp add: om_markFailed_def om_identity_def)
  qed
qed

lemma outbox_run_delivered:
  assumes "outbox_ok m" and "fair_run as m"
  shows "outbox_ok (snd (outbox_run as m)) \<and>
         delivered (snd (outbox_run as m)) = delivered m \<union> set (fst (outbox_run as m)) \<and>
         set (fst (outbox_run as m)) \<inter> delivered m = {} \<and> distinct (fst (outbox_run as m))"
  using assms
proof (induction as arbitrary: m)
  case Nil
  then show ?case by simp
next
  case (Cons a as)
  obtain ds m' where s: "outbox_step a m = (ds, m')" by fastforce
  obtain es m'' where r: "outbox_run as m' = (es, m'')" by fastforce
  have "outbox_ok m'" using outbox_step_ok [of m a] Cons.prems s by simp
  with Cons.IH [of m'] outbox_step_delivered [of m a] Cons.prems show ?case
    by (auto simp: s r)
qed

text \<open>
  C6: exactly-once delivery. In a run from the empty outbox whose identifiers are fresh and
  which never marks a delivered message failed, no deduplication identity (aggregate and
  payload hash) is delivered twice, the delivered identities are those the outbox records,
  and enqueueing any of them again is refused.
\<close>

theorem outbox_exactly_once:
  assumes "fair_run as []"
  shows "distinct (fst (outbox_run as [])) \<and>
         (\<forall>a h. (a, h) \<in> set (fst (outbox_run as [])) \<longleftrightarrow> om_wasDelivered a h (snd (outbox_run as []))) \<and>
         (\<forall>a h uuid now type. (a, h) \<in> set (fst (outbox_run as [])) \<longrightarrow>
            enqueueMessage uuid now a type h (snd (outbox_run as [])) =
              (Inl \<lparr>dd_aggregateId = a, dd_payloadHash = h\<rparr>, snd (outbox_run as [])))"
proof -
  let ?m = "snd (outbox_run as [])"
  have ok: "outbox_ok ?m" and d: "delivered ?m = set (fst (outbox_run as []))"
    and dist: "distinct (fst (outbox_run as []))"
    using outbox_run_delivered [of "[]" as] assms by (simp_all add: outbox_ok_def delivered_def)
  have was: "(a, h) \<in> delivered ?m \<longleftrightarrow> om_wasDelivered a h ?m" for a h
  proof (cases "om_findPending a h ?m")
    case None
    then have "(a, h) \<notin> delivered ?m"
      using delivered_subset [of ?m] unfolding findPending_None_iff by blast
    with None show ?thesis by (simp add: om_wasDelivered_def)
  next
    case (Some x)
    then obtain j where j: "(j, x) \<in> set ?m" and x: "om_identity x = (a, h)"
      using findPending_Some by fastforce
    have u: "om_identity z = (a, h) \<Longrightarrow> (i, z) \<in> set ?m \<Longrightarrow> z = x" for i z
      using ok j x unfolding outbox_ok_def distinct_map inj_on_def by fastforce
    have "(a, h) \<in> delivered ?m \<longleftrightarrow> om_status x = O_delivered"
    proof
      assume "(a, h) \<in> delivered ?m"
      then obtain i z where "(i, z) \<in> set ?m" "om_identity z = (a, h)" "om_status z = O_delivered"
        unfolding delivered_def by auto
      with u show "om_status x = O_delivered" by blast
    next
      assume "om_status x = O_delivered"
      with j x show "(a, h) \<in> delivered ?m" unfolding delivered_def by force
    qed
    with Some show ?thesis by (simp add: om_wasDelivered_def)
  qed
  moreover have "enqueueMessage uuid now a type h ?m =
      (Inl \<lparr>dd_aggregateId = a, dd_payloadHash = h\<rparr>, ?m)" if "om_wasDelivered a h ?m"
    for a h uuid now type
    using that by (auto simp: enqueueMessage_def om_wasDelivered_def split: option.splits)
  ultimately show ?thesis using dist d by auto
qed

theorem outbox_exactly_once_witness:
  "distinct (fst (outbox_run
     [Enqueue ''1'' ''t'' ''m'' ''mail'' ''h'', Fail ''outbox_1'', Deliver ''t'' ''outbox_1'',
      Deliver ''t'' ''outbox_1'', Enqueue ''2'' ''t'' ''m'' ''mail'' ''h''] []))"
proof -
  have "fair_run
     [Enqueue ''1'' ''t'' ''m'' ''mail'' ''h'', Fail ''outbox_1'', Deliver ''t'' ''outbox_1'',
      Deliver ''t'' ''outbox_1'', Enqueue ''2'' ''t'' ''m'' ''mail'' ''h''] []"
    by code_simp
  then show ?thesis by (rule outbox_exactly_once [THEN conjunct1])
qed

text \<open>
  the guard on \<open>markFailed\<close> is needed. Marking a delivered message failed re-opens it:
  every deliverable message can be delivered, marked failed and delivered a second time.
\<close>

theorem failed_mark_reopens_delivery:
  assumes "om_findById i m = Some x" and "om_status x \<noteq> O_delivered"
  shows "fst (outbox_run [Deliver t i, Fail i, Deliver t' i] m) = [om_identity x, om_identity x]"
  using assms
  by (simp add: deliverMessage_def om_findById_def om_markDelivered_def om_markFailed_def
      om_identity_def)

theorem failed_mark_reopens_delivery_witness:
  "fst (outbox_run [Deliver ''t'' ''outbox_1'', Fail ''outbox_1'', Deliver ''u'' ''outbox_1'']
     [(''outbox_1'', pending_message ''1'' ''t'' ''m'' ''mail'' ''h'')]) =
   [(''m'', ''h''), (''m'', ''h'')]"
  using failed_mark_reopens_delivery [of "''outbox_1''"
      "[(''outbox_1'', pending_message ''1'' ''t'' ''m'' ''mail'' ''h'')]"
      "pending_message ''1'' ''t'' ''m'' ''mail'' ''h''" "''t''" "''u''"]
  by (simp add: om_findById_def)

end
