(* ===== verification/Ledger.thy ===== *)
theory Ledger
  imports Prelude
begin

text \<open>
  \<^verbatim>\<open>ledger/types.ts\<close> and \<^verbatim>\<open>ledger/validate.ts\<close>: the hash-linked ledger
  and its validator. The text of a reason is the datatype \<open>ledger_reason\<close>; the free-form
  \<open>payload\<close> of an entry and \<open>manifest\<close> of a manifest, which the validator does not read,
  are left out. \<open>fail\<close> is the closure of the source: it appends the reason and remembers
  the first.
\<close>

section \<open>Data\<close>

datatype entry_type =
    GENESIS | RECEIPT_RECORDED | ATTESTATION_ADDED | ENTRY_SUPERSEDED | ENTRY_REVOKED
  | CHECKPOINT_CREATED

record LedgerEntry =
  le_entryId :: js_string
  le_ledgerId :: js_string
  le_sequence :: int
  le_entryType :: entry_type
  le_previousEntryHash :: js_string
  le_payloadHash :: js_string
  le_receiptHash :: js_string
  le_occurredAt :: js_string
  le_recordedAt :: js_string
  le_actor :: js_string
  le_schemaVersion :: js_string
  le_signerKeyId :: js_string
  le_signature :: "js_string option"
  le_signerPublicKey :: "js_string option"
  le_idempotencyKey :: "js_string option"

record LedgerManifest =
  lm_ledgerId :: js_string
  lm_protocolVersion :: js_string
  lm_trustRoot :: "js_string list"
  lm_jurisdiction :: js_string
  lm_createdAt :: js_string
  lm_signingRequired :: bool
  lm_signingKeyIds :: "js_string list"

datatype ledger_reason =
    Empty_Chain | Wrong_Ledger | Not_Genesis | Genesis_Previous_Hash | Genesis_Sequence
  | Broken_Link | Sequence_Gap | Bad_Payload_Hash | Bad_Receipt_Hash | Bad_Previous_Hash
  | Hash_Only_Signed | Missing_Signature | Missing_Public_Key | Unbacked_Receipt
  | Schema_Mismatch

record LedgerValidationResult =
  lv_valid :: bool
  lv_firstDivergence :: "(int \<times> ledger_reason) option"
  lv_reasons :: "(int \<times> ledger_reason) list"

definition GENESIS_EMPTY_HASH :: js_string where
  "GENESIS_EMPTY_HASH = ''e3b0c44298fc1c149afbf4c8996fb92427ae41e4649b934ca495991b7852b855''"

definition isHashOnly :: "LedgerEntry \<Rightarrow> bool" where
  "isHashOnly entry \<longleftrightarrow> le_signerKeyId entry = ''hash-only''"

section \<open>The validator\<close>

type_synonym validation_state = "(int \<times> ledger_reason) list \<times> (int \<times> ledger_reason) option"

definition fail :: "int \<Rightarrow> ledger_reason \<Rightarrow> validation_state \<Rightarrow> validation_state" where
  "fail index reason s =
     (case s of (reasons, first) \<Rightarrow>
        (reasons @ [(index, reason)],
         (case first of None \<Rightarrow> Some (index, reason) | Some f \<Rightarrow> Some f)))"

definition fail_if ::
  "bool \<Rightarrow> int \<Rightarrow> ledger_reason \<Rightarrow> validation_state \<Rightarrow> validation_state" where
  "fail_if b index reason s = (if b then fail index reason s else s)"

text \<open>One round of the loop; \<open>previous\<close> is \<open>None\<close> in the first one.\<close>

definition check_link ::
  "nat \<Rightarrow> LedgerEntry option \<Rightarrow> LedgerEntry \<Rightarrow> validation_state \<Rightarrow> validation_state" where
  "check_link i previous entry s =
     (if i = 0
      then fail_if (le_sequence entry \<noteq> 1) 0 Genesis_Sequence
            (fail_if (le_previousEntryHash entry \<noteq> GENESIS_EMPTY_HASH) 0 Genesis_Previous_Hash
              (fail_if (le_entryType entry \<noteq> GENESIS) 0 Not_Genesis s))
      else (case previous of
              None \<Rightarrow> s
            | Some p \<Rightarrow>
                fail_if (le_sequence entry \<noteq> le_sequence p + 1) (int i) Sequence_Gap
                 (fail_if (le_previousEntryHash entry \<noteq> le_payloadHash p) (int i) Broken_Link s)))"

definition check_hashes :: "nat \<Rightarrow> LedgerEntry \<Rightarrow> validation_state \<Rightarrow> validation_state" where
  "check_hashes i entry s =
     fail_if (\<not> hex64 (le_previousEntryHash entry)) (int i) Bad_Previous_Hash
      (fail_if (\<not> hex64 (le_receiptHash entry)) (int i) Bad_Receipt_Hash
        (fail_if (\<not> hex64 (le_payloadHash entry)) (int i) Bad_Payload_Hash s))"

definition or_empty :: "js_string option \<Rightarrow> js_string" where
  "or_empty x = (case x of None \<Rightarrow> [] | Some s \<Rightarrow> s)"

definition check_signer :: "nat \<Rightarrow> LedgerEntry \<Rightarrow> validation_state \<Rightarrow> validation_state" where
  "check_signer i entry s =
     (if isHashOnly entry
      then fail_if (le_signature entry \<noteq> None \<or> le_signerPublicKey entry \<noteq> None) (int i)
             Hash_Only_Signed s
      else fail_if (length (or_empty (le_signerPublicKey entry)) = 0) (int i) Missing_Public_Key
            (fail_if (length (or_empty (le_signature entry)) = 0) (int i) Missing_Signature s))"

definition check_entry ::
  "LedgerManifest \<Rightarrow> js_string \<Rightarrow> nat \<Rightarrow> LedgerEntry option \<Rightarrow> LedgerEntry \<Rightarrow>
     validation_state \<Rightarrow> validation_state" where
  "check_entry manifest firstSchemaVersion i previous entry s =
     fail_if (0 < i \<and> le_schemaVersion entry \<noteq> firstSchemaVersion) (int i) Schema_Mismatch
      (fail_if (le_entryType entry = RECEIPT_RECORDED \<and> le_receiptHash entry = GENESIS_EMPTY_HASH)
          (int i) Unbacked_Receipt
        (check_signer i entry
          (check_hashes i entry
            (check_link i previous entry
              (fail_if (le_ledgerId entry \<noteq> lm_ledgerId manifest) (int i) Wrong_Ledger s)))))"

fun check_entries ::
  "LedgerManifest \<Rightarrow> js_string \<Rightarrow> nat \<Rightarrow> LedgerEntry option \<Rightarrow> LedgerEntry list \<Rightarrow>
     validation_state \<Rightarrow> validation_state" where
  "check_entries manifest schema i previous [] s = s"
| "check_entries manifest schema i previous (entry # entries) s =
     check_entries manifest schema (i + 1) (Some entry) entries
       (check_entry manifest schema i previous entry s)"

definition validateLedger :: "LedgerManifest \<Rightarrow> LedgerEntry list \<Rightarrow> LedgerValidationResult" where
  "validateLedger manifest entries =
     (case entries of
        [] \<Rightarrow> \<lparr>lv_valid = False, lv_firstDivergence = Some (- 1, Empty_Chain),
               lv_reasons = [(- 1, Empty_Chain)]\<rparr>
      | first # _ \<Rightarrow>
          (case check_entries manifest (le_schemaVersion first) 0 None entries ([], None) of
             (reasons, divergence) \<Rightarrow>
               \<lparr>lv_valid = (divergence = None), lv_firstDivergence = divergence,
                lv_reasons = reasons\<rparr>))"

lemmas ledger_defs = fail_def fail_if_def check_link_def check_hashes_def or_empty_def
  check_signer_def check_entry_def validateLedger_def isHashOnly_def GENESIS_EMPTY_HASH_def

declare ledger_defs [code_defs]

section \<open>The chain it accepts\<close>

text \<open>What an entry must satisfy on its own, and what joins it to its predecessor.\<close>

definition entry_wf :: "LedgerManifest \<Rightarrow> js_string \<Rightarrow> LedgerEntry \<Rightarrow> bool" where
  "entry_wf manifest schema e \<longleftrightarrow>
     le_ledgerId e = lm_ledgerId manifest \<and> le_schemaVersion e = schema \<and>
     hex64 (le_payloadHash e) \<and> hex64 (le_receiptHash e) \<and> hex64 (le_previousEntryHash e) \<and>
     (if isHashOnly e then le_signature e = None \<and> le_signerPublicKey e = None
      else or_empty (le_signature e) \<noteq> [] \<and> or_empty (le_signerPublicKey e) \<noteq> []) \<and>
     (le_entryType e = RECEIPT_RECORDED \<longrightarrow> le_receiptHash e \<noteq> GENESIS_EMPTY_HASH)"

definition linked :: "LedgerEntry \<Rightarrow> LedgerEntry \<Rightarrow> bool" where
  "linked p e \<longleftrightarrow>
     le_previousEntryHash e = le_payloadHash p \<and> le_sequence e = le_sequence p + 1"

definition is_genesis :: "LedgerEntry \<Rightarrow> bool" where
  "is_genesis e \<longleftrightarrow>
     le_entryType e = GENESIS \<and> le_previousEntryHash e = GENESIS_EMPTY_HASH \<and> le_sequence e = 1"

definition valid_chain :: "LedgerManifest \<Rightarrow> LedgerEntry list \<Rightarrow> bool" where
  "valid_chain manifest es \<longleftrightarrow>
     es \<noteq> [] \<and> is_genesis (hd es) \<and> successively linked es \<and>
     list_all (entry_wf manifest (le_schemaVersion (hd es))) es"

text \<open>The validator's state: the first divergence is the head of the reasons.\<close>

definition state_ok :: "validation_state \<Rightarrow> bool" where
  "state_ok s \<longleftrightarrow> snd s = (case fst s of [] \<Rightarrow> None | r # _ \<Rightarrow> Some r)"

lemma fail_if_state:
  "state_ok s \<Longrightarrow> state_ok (fail_if b i r s)"
  "fst (fail_if b i r s) = fst s @ (if b then [(i, r)] else [])"
  by (auto simp: fail_if_def fail_def state_ok_def split: prod.splits list.splits option.splits)

text \<open>The faults of one entry, in the order in which the validator reports them.\<close>

definition link_faults :: "LedgerEntry option \<Rightarrow> LedgerEntry \<Rightarrow> ledger_reason list" where
  "link_faults previous e =
     (case previous of
        None \<Rightarrow> (if le_entryType e \<noteq> GENESIS then [Not_Genesis] else []) @
          (if le_previousEntryHash e \<noteq> GENESIS_EMPTY_HASH then [Genesis_Previous_Hash] else []) @
          (if le_sequence e \<noteq> 1 then [Genesis_Sequence] else [])
      | Some p \<Rightarrow> (if le_previousEntryHash e \<noteq> le_payloadHash p then [Broken_Link] else []) @
          (if le_sequence e \<noteq> le_sequence p + 1 then [Sequence_Gap] else []))"

definition entry_faults ::
  "LedgerManifest \<Rightarrow> js_string \<Rightarrow> LedgerEntry option \<Rightarrow> LedgerEntry \<Rightarrow> ledger_reason list" where
  "entry_faults manifest schema previous e =
     (if le_ledgerId e \<noteq> lm_ledgerId manifest then [Wrong_Ledger] else []) @
     link_faults previous e @
     (if \<not> hex64 (le_payloadHash e) then [Bad_Payload_Hash] else []) @
     (if \<not> hex64 (le_receiptHash e) then [Bad_Receipt_Hash] else []) @
     (if \<not> hex64 (le_previousEntryHash e) then [Bad_Previous_Hash] else []) @
     (if isHashOnly e
      then (if le_signature e \<noteq> None \<or> le_signerPublicKey e \<noteq> None then [Hash_Only_Signed] else [])
      else (if or_empty (le_signature e) = [] then [Missing_Signature] else []) @
           (if or_empty (le_signerPublicKey e) = [] then [Missing_Public_Key] else [])) @
     (if le_entryType e = RECEIPT_RECORDED \<and> le_receiptHash e = GENESIS_EMPTY_HASH
      then [Unbacked_Receipt] else []) @
     (if previous \<noteq> None \<and> le_schemaVersion e \<noteq> schema then [Schema_Mismatch] else [])"

lemma check_entry_faults:
  assumes "previous = None \<longleftrightarrow> i = 0"
  shows "fst (check_entry m schema i previous e s) =
      fst s @ map (Pair (int i)) (entry_faults m schema previous e)"
    and "state_ok s \<Longrightarrow> state_ok (check_entry m schema i previous e s)"
  using assms
  by (cases previous;
      simp add: check_entry_def check_signer_def check_hashes_def check_link_def fail_if_state
        entry_faults_def link_faults_def)+

definition prev_at :: "LedgerEntry list \<Rightarrow> nat \<Rightarrow> LedgerEntry option" where
  "prev_at es i = (if i = 0 then None else Some (es ! (i - 1)))"

definition faults_at :: "LedgerManifest \<Rightarrow> LedgerEntry list \<Rightarrow> nat \<Rightarrow> (int \<times> ledger_reason) list" where
  "faults_at m es i =
     map (Pair (int i)) (entry_faults m (le_schemaVersion (hd es)) (prev_at es i) (es ! i))"

lemma check_entries_faults:
  assumes "state_ok s" and "prev = prev_at es i" and "drop i es = rest" and "i \<le> length es"
  shows "fst (check_entries m (le_schemaVersion (hd es)) i prev rest s) =
           fst s @ concat (map (faults_at m es) [i..<length es]) \<and>
         state_ok (check_entries m (le_schemaVersion (hd es)) i prev rest s)"
  using assms
proof (induction rest arbitrary: i prev s)
  case Nil
  then show ?case by simp
next
  case (Cons e rest)
  then have i: "i < length es" by (metis drop_eq_Nil linorder_not_le list.distinct(1))
  have e: "es ! i = e" by (rule nth_via_drop [OF Cons.prems(3)])
  have rest: "drop (Suc i) es = rest" using Cons.prems(3) by (metis drop_Suc list.sel(3) tl_drop)
  have p: "prev = None \<longleftrightarrow> i = 0" using Cons.prems(2) by (simp add: prev_at_def)
  let ?s = "check_entry m (le_schemaVersion (hd es)) i prev e s"
  have s: "state_ok ?s" "fst ?s = fst s @ faults_at m es i"
    using check_entry_faults [OF p] Cons.prems(1,2) e by (simp_all add: faults_at_def)
  have "Some e = prev_at es (Suc i)" using e by (simp add: prev_at_def)
  from Cons.IH [OF s(1) this rest] i s(2) show ?case
    by (simp add: upt_conv_Cons)
qed

lemma validate_reasons:
  assumes "es \<noteq> []"
  shows "lv_reasons (validateLedger m es) = concat (map (faults_at m es) [0..<length es])"
    and "lv_firstDivergence (validateLedger m es) =
      (case lv_reasons (validateLedger m es) of [] \<Rightarrow> None | r # _ \<Rightarrow> Some r)"
    and "lv_valid (validateLedger m es) \<longleftrightarrow> lv_firstDivergence (validateLedger m es) = None"
proof -
  obtain f r where es: "es = f # r" using assms by (cases es) auto
  have "state_ok ([], None)" by (simp add: state_ok_def)
  from check_entries_faults [OF this, of None es 0 es m]
  have "fst (check_entries m (le_schemaVersion f) 0 None es ([], None)) =
      concat (map (faults_at m es) [0..<length es])"
    and "state_ok (check_entries m (le_schemaVersion f) 0 None es ([], None))"
    by (simp_all add: prev_at_def es)
  then show "lv_reasons (validateLedger m es) = concat (map (faults_at m es) [0..<length es])"
    "lv_firstDivergence (validateLedger m es) =
      (case lv_reasons (validateLedger m es) of [] \<Rightarrow> None | r # _ \<Rightarrow> Some r)"
    "lv_valid (validateLedger m es) \<longleftrightarrow> lv_firstDivergence (validateLedger m es) = None"
    by (auto simp: validateLedger_def es state_ok_def split: prod.splits)
qed

lemma validate_Nil [simp]: "\<not> lv_valid (validateLedger m [])"
  by (simp add: validateLedger_def)

lemma link_faults_Nil_iff:
  "link_faults previous e = [] \<longleftrightarrow>
     (case previous of None \<Rightarrow> is_genesis e | Some p \<Rightarrow> linked p e)"
  by (simp add: link_faults_def is_genesis_def linked_def split: option.split)

lemma if_one_Nil_iff: "(if P then [x] else []) = [] \<longleftrightarrow> \<not> P"
  by simp

lemma entry_faults_Nil_iff:
  "entry_faults m schema previous e = [] \<longleftrightarrow>
     link_faults previous e = [] \<and>
     entry_wf m (if previous = None then le_schemaVersion e else schema) e"
proof -
  have "(if isHashOnly e
      then (if le_signature e \<noteq> None \<or> le_signerPublicKey e \<noteq> None then [Hash_Only_Signed] else [])
      else (if or_empty (le_signature e) = [] then [Missing_Signature] else []) @
           (if or_empty (le_signerPublicKey e) = [] then [Missing_Public_Key] else [])) = [] \<longleftrightarrow>
    (if isHashOnly e then le_signature e = None \<and> le_signerPublicKey e = None
      else or_empty (le_signature e) \<noteq> [] \<and> or_empty (le_signerPublicKey e) \<noteq> [])"
    by simp
  then show ?thesis
    unfolding entry_faults_def entry_wf_def append_is_Nil_conv if_one_Nil_iff
    by (cases previous) (simp_all only: option.distinct simp_thms if_True if_False de_Morgan_conj
        not_not, blast+)
qed

lemma faults_at_Nil_iff:
  "faults_at m es i = [] \<longleftrightarrow>
     (case prev_at es i of None \<Rightarrow> is_genesis (es ! i) | Some p \<Rightarrow> linked p (es ! i)) \<and>
     entry_wf m (if i = 0 then le_schemaVersion (es ! i) else le_schemaVersion (hd es)) (es ! i)"
  by (simp add: faults_at_def entry_faults_Nil_iff link_faults_Nil_iff prev_at_def)

lemma valid_iff_no_faults:
  "lv_valid (validateLedger m es) \<longleftrightarrow> es \<noteq> [] \<and> (\<forall>i < length es. faults_at m es i = [])"
proof (cases "es = []")
  case False
  have "lv_valid (validateLedger m es) \<longleftrightarrow> lv_reasons (validateLedger m es) = []"
    using validate_reasons(2,3) [OF False, of m] by (simp split: list.splits)
  with validate_reasons(1) [OF False, of m] False show ?thesis by auto
qed simp

lemma chain_iff_no_faults:
  "valid_chain m es \<longleftrightarrow> es \<noteq> [] \<and> (\<forall>i < length es. faults_at m es i = [])"
proof (cases "es = []")
  case False
  have 0: "faults_at m es 0 = [] \<longleftrightarrow> is_genesis (hd es) \<and> entry_wf m (le_schemaVersion (hd es)) (es ! 0)"
    using False by (simp add: faults_at_Nil_iff prev_at_def hd_conv_nth)
  have S: "faults_at m es (Suc i) = [] \<longleftrightarrow> linked (es ! i) (es ! Suc i) \<and>
      entry_wf m (le_schemaVersion (hd es)) (es ! Suc i)" for i
    by (simp add: faults_at_Nil_iff prev_at_def)
  have "(\<forall>i < length es. faults_at m es i = []) \<longleftrightarrow>
      faults_at m es 0 = [] \<and> (\<forall>i. Suc i < length es \<longrightarrow> faults_at m es (Suc i) = [])"
    using False by (metis length_greater_0_conv not0_implies_Suc)
  also have "\<dots> \<longleftrightarrow> is_genesis (hd es) \<and> (\<forall>i. Suc i < length es \<longrightarrow> linked (es ! i) (es ! Suc i)) \<and>
      (\<forall>i < length es. entry_wf m (le_schemaVersion (hd es)) (es ! i))"
    unfolding 0 S using False by (metis length_greater_0_conv not0_implies_Suc)
  finally show ?thesis
    using False by (simp add: valid_chain_def successively_conv_nth list_all_length)
qed (simp add: valid_chain_def)

lemma valid_iff_chain: "lv_valid (validateLedger m es) \<longleftrightarrow> valid_chain m es"
  by (simp only: valid_iff_no_faults chain_iff_no_faults)

lemma chain_nth:
  "valid_chain m es \<longleftrightarrow>
     es \<noteq> [] \<and> is_genesis (es ! 0) \<and> (\<forall>i. Suc i < length es \<longrightarrow> linked (es ! i) (es ! Suc i)) \<and>
     (\<forall>i < length es. entry_wf m (le_schemaVersion (es ! 0)) (es ! i))"
  by (cases "es = []")
    (simp_all add: valid_chain_def hd_conv_nth successively_conv_nth list_all_length)

section \<open>Properties\<close>

lemma first_is_head: "lv_firstDivergence (validateLedger m es) =
    (case lv_reasons (validateLedger m es) of [] \<Rightarrow> None | r # _ \<Rightarrow> Some r)"
proof (cases "es = []")
  case True
  then show ?thesis by (simp add: validateLedger_def)
qed (rule validate_reasons(2))

lemma reasons_iff: "lv_valid (validateLedger m es) \<longleftrightarrow> lv_reasons (validateLedger m es) = []"
proof (cases "es = []")
  case True
  then show ?thesis by (simp add: validateLedger_def)
next
  case False
  then show ?thesis
    using validate_reasons(3) [OF False, of m] first_is_head [of m es]
    by (simp split: list.splits)
qed

text \<open>
  C12: the validator accepts exactly the chains that start with an anchored \<open>GENESIS\<close> of
  sequence 1, link every entry to the payload hash of its predecessor with the next sequence,
  and are well formed entry by entry under one ledger id and one schema version; it accepts
  when it has no reason to report, and the first divergence is the first reason.
\<close>

theorem ledger_validator_accepts_exactly_chains:
  "(lv_valid (validateLedger m es) \<longleftrightarrow>
      es \<noteq> [] \<and>
      le_entryType (es ! 0) = GENESIS \<and> le_previousEntryHash (es ! 0) = GENESIS_EMPTY_HASH \<and>
      (\<forall>i < length es. le_sequence (es ! i) = int i + 1 \<and>
         entry_wf m (le_schemaVersion (es ! 0)) (es ! i)) \<and>
      (\<forall>i. Suc i < length es \<longrightarrow> le_previousEntryHash (es ! Suc i) = le_payloadHash (es ! i))) \<and>
   (lv_valid (validateLedger m es) \<longleftrightarrow> lv_reasons (validateLedger m es) = []) \<and>
   lv_firstDivergence (validateLedger m es) =
     (case lv_reasons (validateLedger m es) of [] \<Rightarrow> None | r # _ \<Rightarrow> Some r)"
proof -
  have seq: "(\<forall>i < length es. le_sequence (es ! i) = int i + 1) \<longleftrightarrow>
      le_sequence (es ! 0) = 1 \<and>
      (\<forall>i. Suc i < length es \<longrightarrow> le_sequence (es ! Suc i) = le_sequence (es ! i) + 1)"
    if "es \<noteq> []"
  proof
    assume a: "le_sequence (es ! 0) = 1 \<and>
      (\<forall>i. Suc i < length es \<longrightarrow> le_sequence (es ! Suc i) = le_sequence (es ! i) + 1)"
    have "i < length es \<Longrightarrow> le_sequence (es ! i) = int i + 1" for i
      by (induction i) (use a in auto)
    then show "\<forall>i < length es. le_sequence (es ! i) = int i + 1" by blast
  qed (use that in auto)
  have "valid_chain m es \<longleftrightarrow>
      es \<noteq> [] \<and>
      le_entryType (es ! 0) = GENESIS \<and> le_previousEntryHash (es ! 0) = GENESIS_EMPTY_HASH \<and>
      (\<forall>i < length es. le_sequence (es ! i) = int i + 1 \<and>
         entry_wf m (le_schemaVersion (es ! 0)) (es ! i)) \<and>
      (\<forall>i. Suc i < length es \<longrightarrow> le_previousEntryHash (es ! Suc i) = le_payloadHash (es ! i))"
    using seq unfolding chain_nth is_genesis_def linked_def by blast
  moreover have "lv_valid (validateLedger m es) \<longleftrightarrow> lv_reasons (validateLedger m es) = []"
    "lv_firstDivergence (validateLedger m es) =
     (case lv_reasons (validateLedger m es) of [] \<Rightarrow> None | r # _ \<Rightarrow> Some r)"
    using reasons_iff first_is_head by blast+
  ultimately show ?thesis by (simp add: valid_iff_chain)
qed

lemma faults_take: "j < k \<Longrightarrow> k \<le> length es \<Longrightarrow> faults_at m (take k es) j = faults_at m es j"
  by (simp add: faults_at_def prev_at_def hd_take)

lemma first_divergence_index:
  assumes "lv_firstDivergence (validateLedger m es) = Some (j, r)" and "es \<noteq> []"
  shows "\<exists>i. j = int i \<and> i < length es \<and> faults_at m es i \<noteq> [] \<and> (\<forall>k < i. faults_at m es k = [])"
proof -
  let ?P = "\<lambda>i. i < length es \<and> faults_at m es i \<noteq> []"
  have "\<not> lv_valid (validateLedger m es)"
    using assms validate_reasons(3) [OF assms(2)] by simp
  then have "\<exists>i. ?P i" using assms(2) by (auto simp: valid_iff_no_faults)
  then have i: "?P (LEAST i. ?P i)" by (rule LeastI_ex)
  define i where "i = (LEAST i. ?P i)"
  have i: "?P i" using i by (simp add: i_def)
  have least: "\<not> ?P k" if "k < i" for k
    using that not_less_Least [of k ?P] by (simp add: i_def)
  have "concat (map (faults_at m es) [0..<i]) = []"
    using least i by auto
  moreover have "[0..<length es] = [0..<i] @ i # [Suc i..<length es]"
    using i by (metis less_imp_add_positive upt_add_eq_append upt_conv_Cons zero_le)
  ultimately have "lv_reasons (validateLedger m es) =
      faults_at m es i @ concat (map (faults_at m es) [Suc i..<length es])"
    by (simp only: validate_reasons(1) [OF assms(2)] map_append concat_append list.map concat.simps
        append_Nil)
  with assms(1) i validate_reasons(2) [OF assms(2), of m] have "(j, r) = hd (faults_at m es i)"
    by (cases "faults_at m es i") auto
  then have "j = int i" using i by (cases "faults_at m es i") (auto simp: faults_at_def)
  with i least show ?thesis by auto
qed

text \<open>
  the reported index is the exact point of divergence: everything before it is a valid
  ledger by itself, and no longer prefix is.
\<close>

theorem first_divergence_is_exact:
  assumes "lv_firstDivergence (validateLedger m es) = Some (j, r)" and "es \<noteq> []"
  shows "\<exists>i < length es. j = int i \<and> (i = 0 \<or> lv_valid (validateLedger m (take i es))) \<and>
           (\<forall>k. i < k \<longrightarrow> k \<le> length es \<longrightarrow> \<not> lv_valid (validateLedger m (take k es)))"
proof -
  obtain i where i: "j = int i" "i < length es" "faults_at m es i \<noteq> []"
    "\<forall>k < i. faults_at m es k = []"
    using first_divergence_index [OF assms] by blast
  have "i = 0 \<or> lv_valid (validateLedger m (take i es))"
    using i assms(2) by (auto simp: valid_iff_no_faults faults_take)
  moreover have "\<not> lv_valid (validateLedger m (take k es))" if "i < k" "k \<le> length es" for k
    using i that faults_take [OF that, of m] by (auto simp: valid_iff_no_faults min_def)
  ultimately show ?thesis using i by blast
qed

text \<open>Replacing a payload hash in a valid ledger: only its own entry and the next one are at fault.\<close>

lemma link_faults_payload: "link_faults previous (e\<lparr>le_payloadHash := h\<rparr>) = link_faults previous e"
  by (cases previous) (simp_all add: link_faults_def)

definition later_faults :: "js_string \<Rightarrow> LedgerEntry option \<Rightarrow> LedgerEntry \<Rightarrow> ledger_reason list" where
  "later_faults schema previous e =
     (if \<not> hex64 (le_receiptHash e) then [Bad_Receipt_Hash] else []) @
     (if \<not> hex64 (le_previousEntryHash e) then [Bad_Previous_Hash] else []) @
     (if isHashOnly e
      then (if le_signature e \<noteq> None \<or> le_signerPublicKey e \<noteq> None then [Hash_Only_Signed] else [])
      else (if or_empty (le_signature e) = [] then [Missing_Signature] else []) @
           (if or_empty (le_signerPublicKey e) = [] then [Missing_Public_Key] else [])) @
     (if le_entryType e = RECEIPT_RECORDED \<and> le_receiptHash e = GENESIS_EMPTY_HASH
      then [Unbacked_Receipt] else []) @
     (if previous \<noteq> None \<and> le_schemaVersion e \<noteq> schema then [Schema_Mismatch] else [])"

lemma entry_faults_split:
  "entry_faults m schema previous e =
     (if le_ledgerId e \<noteq> lm_ledgerId m then [Wrong_Ledger] else []) @ link_faults previous e @
     (if \<not> hex64 (le_payloadHash e) then [Bad_Payload_Hash] else []) @ later_faults schema previous e"
  by (simp only: entry_faults_def later_faults_def)

lemma later_faults_payload: "later_faults schema previous (e\<lparr>le_payloadHash := h\<rparr>) = later_faults schema previous e"
  by (simp add: later_faults_def isHashOnly_def)

lemma later_faults_previous: "later_faults schema (Some p) e = later_faults schema (Some q) e"
  by (simp add: later_faults_def)

lemma payload_faults:
  assumes "entry_faults m schema previous e = []"
  shows "entry_faults m schema previous (e\<lparr>le_payloadHash := h\<rparr>) = (if hex64 h then [] else [Bad_Payload_Hash])"
  using assms by (simp add: entry_faults_split link_faults_payload later_faults_payload split: if_splits)

lemma broken_link_faults:
  assumes "entry_faults m schema (Some p) e = []" and "h \<noteq> le_payloadHash p"
  shows "entry_faults m schema (Some (p\<lparr>le_payloadHash := h\<rparr>)) e = [Broken_Link]"
  using assms later_faults_previous [of schema "p\<lparr>le_payloadHash := h\<rparr>" e p]
  by (simp add: entry_faults_split link_faults_def split: if_splits)

lemma replaced_faults:
  assumes "lv_valid (validateLedger m es)" and "i < length es" and "h \<noteq> le_payloadHash (es ! i)"
    and "k < length es"
  shows "faults_at m (es[i := (es ! i)\<lparr>le_payloadHash := h\<rparr>]) k =
    (if k = i then if hex64 h then [] else [(int i, Bad_Payload_Hash)]
     else if k = Suc i then [(int i + 1, Broken_Link)] else [])"
proof -
  let ?e = "(es ! i)\<lparr>le_payloadHash := h\<rparr>"
  let ?schema = "le_schemaVersion (hd es)"
  have ne: "es \<noteq> []" using assms(2) by auto
  have old: "entry_faults m ?schema (prev_at es k) (es ! k) = []"
    using assms(1,4) by (simp add: valid_iff_no_faults ne faults_at_def)
  have hd: "le_schemaVersion (hd (es[i := ?e])) = ?schema"
    using assms(2) ne by (cases i; cases es) simp_all
  consider "k = i" | "k = Suc i" | "k \<noteq> i" "k \<noteq> Suc i" by blast
  then show ?thesis
  proof cases
    case 1
    then have "prev_at (es[i := ?e]) k = prev_at es k" by (cases i) (simp_all add: prev_at_def)
    with 1 payload_faults [OF old, of h] assms(2) show ?thesis by (simp add: faults_at_def hd)
  next
    case 2
    then have "prev_at (es[i := ?e]) k = Some ?e" and p: "prev_at es k = Some (es ! i)"
      using assms(2) by (simp_all add: prev_at_def)
    with 2 broken_link_faults [OF old [unfolded p] assms(3)] show ?thesis by (simp add: faults_at_def hd)
  next
    case 3
    then have "prev_at (es[i := ?e]) k = prev_at es k" by (cases k) (auto simp: prev_at_def)
    with 3 old show ?thesis by (simp add: faults_at_def hd)
  qed
qed

lemma concat_two:
  assumes "i < n" and "\<And>k. k < n \<Longrightarrow> F k = (if k = i then A else if k = Suc i then B else [])"
  shows "concat (map F [0..<n]) = A @ (if Suc i < n then B else [])"
proof -
  have "[0..<n] = [0..<i] @ i # [Suc i..<n]"
    using assms(1) by (metis less_imp_add_positive upt_add_eq_append upt_conv_Cons zero_le)
  moreover have "concat (map F [0..<i]) = []" using assms by auto
  moreover have "concat (map F [Suc i..<n]) = (if Suc i < n then B else [])"
    using assms by (auto simp: upt_conv_Cons)
  ultimately show ?thesis using assms by simp
qed

text \<open>
  C11: tamper evidence of the hash chain. Replacing the payload hash of one entry of a valid
  ledger is reported as a broken link at the next entry, if there is one, and as a bad hash at the
  entry itself, if the replacement has not the format of a hash; nothing else is reported, and the
  first of these is the first divergence. The last entry's payload hash can be replaced unnoticed.
\<close>

theorem ledger_tamper_evidence:
  assumes "lv_valid (validateLedger m es)" and "i < length es" and "h \<noteq> le_payloadHash (es ! i)"
  shows "let r = validateLedger m (es[i := (es ! i)\<lparr>le_payloadHash := h\<rparr>])
    in lv_reasons r = (if hex64 h then [] else [(int i, Bad_Payload_Hash)]) @
         (if Suc i < length es then [(int i + 1, Broken_Link)] else []) \<and>
       lv_firstDivergence r =
         (if \<not> hex64 h then Some (int i, Bad_Payload_Hash)
          else if Suc i < length es then Some (int i + 1, Broken_Link) else None) \<and>
       (lv_valid r \<longleftrightarrow> Suc i = length es \<and> hex64 h)"
proof -
  let ?es = "es[i := (es ! i)\<lparr>le_payloadHash := h\<rparr>]"
  have ne: "?es \<noteq> []" using assms(2) by auto
  have reasons: "lv_reasons (validateLedger m ?es) = (if hex64 h then [] else [(int i, Bad_Payload_Hash)]) @
      (if Suc i < length es then [(int i + 1, Broken_Link)] else [])"
    unfolding validate_reasons(1) [OF ne] length_list_update
    by (rule concat_two [OF assms(2)]) (rule replaced_faults [OF assms])
  moreover have "Suc i < length es \<or> Suc i = length es" using assms(2) by linarith
  ultimately show ?thesis
    unfolding Let_def validate_reasons(3) [OF ne] validate_reasons(2) [OF ne] reasons by auto
qed

section \<open>A concrete ledger\<close>

definition sample_manifest :: LedgerManifest where
  "sample_manifest =
     \<lparr>lm_ledgerId = ''L'', lm_protocolVersion = ''1.0'', lm_trustRoot = [], lm_jurisdiction = ''PE'',
      lm_createdAt = ''t'', lm_signingRequired = False, lm_signingKeyIds = []\<rparr>"

definition sample_entry :: "int \<Rightarrow> entry_type \<Rightarrow> js_string \<Rightarrow> js_string \<Rightarrow> LedgerEntry" where
  "sample_entry n ty previous payload =
     \<lparr>le_entryId = ''e'', le_ledgerId = ''L'', le_sequence = n, le_entryType = ty,
      le_previousEntryHash = previous, le_payloadHash = payload,
      le_receiptHash = replicate 64 CHR ''b'', le_occurredAt = ''t'', le_recordedAt = ''t'',
      le_actor = ''a'', le_schemaVersion = ''1'', le_signerKeyId = ''hash-only'',
      le_signature = None, le_signerPublicKey = None, le_idempotencyKey = None\<rparr>"

definition sample_ledger :: "LedgerEntry list" where
  "sample_ledger =
     [sample_entry 1 GENESIS GENESIS_EMPTY_HASH (replicate 64 CHR ''1''),
      sample_entry 2 RECEIPT_RECORDED (replicate 64 CHR ''1'') (replicate 64 CHR ''2'')]"

theorem ledger_validator_accepts_exactly_chains_witness:
  "le_sequence (sample_ledger ! 1) = 2 \<and>
   le_previousEntryHash (sample_ledger ! 1) = le_payloadHash (sample_ledger ! 0)"
proof -
  have "lv_valid (validateLedger sample_manifest sample_ledger)" by code_simp
  then have "(\<forall>i < length sample_ledger. le_sequence (sample_ledger ! i) = int i + 1) \<and>
      (\<forall>i. Suc i < length sample_ledger \<longrightarrow>
        le_previousEntryHash (sample_ledger ! Suc i) = le_payloadHash (sample_ledger ! i))"
    using ledger_validator_accepts_exactly_chains [of sample_manifest sample_ledger] by blast
  moreover have "length sample_ledger = 2" by (simp add: sample_ledger_def)
  ultimately show ?thesis by (metis One_nat_def Suc_1 lessI of_nat_1 one_add_one)
qed

theorem first_divergence_is_exact_witness:
  "\<exists>i < length (sample_ledger @ [sample_entry 4 GENESIS [] []]). (2 :: int) = int i \<and>
     lv_valid (validateLedger sample_manifest (take i (sample_ledger @ [sample_entry 4 GENESIS [] []])))"
proof -
  have "lv_firstDivergence (validateLedger sample_manifest (sample_ledger @ [sample_entry 4 GENESIS [] []])) =
      Some (2, Broken_Link)"
    by code_simp
  from first_divergence_is_exact [OF this] show ?thesis by auto
qed

theorem ledger_tamper_evidence_witness:
  "lv_firstDivergence (validateLedger sample_manifest
     (sample_ledger[0 := (sample_ledger ! 0)\<lparr>le_payloadHash := replicate 64 CHR ''f''\<rparr>])) = Some (1, Broken_Link)"
proof -
  have v: "lv_valid (validateLedger sample_manifest sample_ledger)" by code_simp
  have n: "replicate 64 CHR ''f'' \<noteq> le_payloadHash (sample_ledger ! 0)" by code_simp
  have h: "hex64 (replicate 64 CHR ''f'')" by code_simp
  have l: "0 < length sample_ledger" "Suc 0 < length sample_ledger" by (simp_all add: sample_ledger_def)
  show ?thesis
    using ledger_tamper_evidence [OF v l(1) n] h l(2) by (simp add: Let_def)
qed

end
