(* ===== verification/Js_Value.thy ===== *)
theory Js_Value
  imports Prelude
begin

text \<open>
  The untyped values (\<open>unknown\<close>) that cross the program's boundaries, and the canonical
  texts that are hashed: \<open>JSON.stringify\<close>, \<open>sortedStringify\<close> of
  \<^verbatim>\<open>missions/runtime.ts\<close> (keys sorted at every level) and \<open>sortedStringify\<close> of
  \<^verbatim>\<open>receipts/canonical.ts\<close> (keys sorted at the top level only). An object is the list
  of its own properties in insertion order, with distinct keys. The decimal text of a number
  that is not an integer is the argument \<open>fr\<close>; the protocol has none. A value that
  \<open>JSON.stringify\<close> would throw on (a BigInt) is not a \<open>js_value\<close>.
\<close>

datatype js_value =
    J_undefined
  | J_null
  | J_bool bool
  | J_num js_number
  | J_str js_string
  | J_arr "js_value list"
  | J_obj "(js_string \<times> js_value) list"

text \<open>\<open>typeof v === "object" && v !== null\<close>, which arrays satisfy too, and property access.\<close>

fun isRecord :: "js_value \<Rightarrow> bool" where
  "isRecord (J_obj _) = True"
| "isRecord (J_arr _) = True"
| "isRecord _ = False"

fun get_field :: "js_value \<Rightarrow> js_string \<Rightarrow> js_value" where
  "get_field (J_obj fs) k = (case map_of fs k of None \<Rightarrow> J_undefined | Some v \<Rightarrow> v)"
| "get_field _ k = J_undefined"

section \<open>JSON text\<close>

definition hex_digit :: "nat \<Rightarrow> char" where
  "hex_digit n = char_of (if n < 10 then 48 + n else 87 + n)"

text \<open>The escapes of \<open>JSON.stringify\<close> for a code unit below 256.\<close>

definition json_char :: "char \<Rightarrow> js_string" where
  "json_char c =
     (let n = code_unit c
      in if c = CHR 0x22 then [CHR 0x5C, CHR 0x22]
         else if c = CHR 0x5C then [CHR 0x5C, CHR 0x5C]
         else if n = 8 then [CHR 0x5C, CHR ''b'']
         else if n = 9 then [CHR 0x5C, CHR ''t'']
         else if n = 10 then [CHR 0x5C, CHR ''n'']
         else if n = 12 then [CHR 0x5C, CHR ''f'']
         else if n = 13 then [CHR 0x5C, CHR ''r'']
         else if n < 32 then
           [CHR 0x5C, CHR ''u'', CHR ''0'', CHR ''0'', hex_digit (n div 16), hex_digit (n mod 16)]
         else [c])"

definition quote :: char where
  "quote = CHR 0x22"

definition json_quote :: "js_string \<Rightarrow> js_string" where
  "json_quote s = quote # concat (map json_char s) @ [quote]"

text \<open>
  The text of an integer: its decimal digits below \<open>10 ^ 21\<close>, the exponent form from there on (the digits
  without the last zeros, a point after the first). A number is its exact value here, so all of its
  digits are written; where a double beyond \<open>2 ^ 53\<close> is meant, the engine writes the fewest digits that
  tell it from the other doubles.
\<close>

definition exponent_limit :: int where
  "exponent_limit = 1000000000000000000000"

definition strip_zeros :: "js_string \<Rightarrow> js_string" where
  "strip_zeros s = rev (dropWhile (\<lambda>c. c = CHR ''0'') (rev s))"

definition mantissa :: "js_string \<Rightarrow> js_string" where
  "mantissa s = hd s # (if tl s = [] then [] else CHR ''.'' # tl s)"

definition scientific :: "nat \<Rightarrow> js_string" where
  "scientific n = mantissa (strip_zeros (dec_nat n)) @ ''e+'' @ dec_nat (length (dec_nat n) - 1)"

definition int_text :: "int \<Rightarrow> js_string" where
  "int_text i =
     (if \<bar>i\<bar> < exponent_limit then dec_int i
      else if i < 0 then CHR ''-'' # scientific (nat (- i)) else scientific (nat i))"

definition json_number :: "(rat \<Rightarrow> js_string) \<Rightarrow> js_number \<Rightarrow> js_string" where
  "json_number fr n =
     (case n of
        Fin r \<Rightarrow> if is_integer n then int_text \<lfloor>r\<rfloor> else fr r
      | _ \<Rightarrow> ''null'')"

fun join :: "js_string list \<Rightarrow> js_string" where
  "join [] = []"
| "join [s] = s"
| "join (s # t # ss) = s @ CHR '','' # join (t # ss)"

definition json_field :: "js_string \<times> js_string \<Rightarrow> js_string" where
  "json_field f = json_quote (fst f) @ CHR '':'' # snd f"

definition braces :: "js_string \<Rightarrow> js_string" where
  "braces s = CHR ''{'' # s @ ''}''"

definition brackets :: "js_string \<Rightarrow> js_string" where
  "brackets s = CHR ''['' # s @ '']''"

text \<open>\<open>JSON.stringify\<close> inside a document: \<open>undefined\<close> is dropped from objects, null in arrays.\<close>

fun json_stringify :: "(rat \<Rightarrow> js_string) \<Rightarrow> js_value \<Rightarrow> js_string" where
  "json_stringify fr J_undefined = ''null''"
| "json_stringify fr J_null = ''null''"
| "json_stringify fr (J_bool b) = (if b then ''true'' else ''false'')"
| "json_stringify fr (J_num n) = json_number fr n"
| "json_stringify fr (J_str s) = json_quote s"
| "json_stringify fr (J_arr vs) = brackets (join (map (json_stringify fr) vs))"
| "json_stringify fr (J_obj fs) =
     braces (join (map (\<lambda>(k, v). json_field (k, json_stringify fr v))
       (filter (\<lambda>(k, v). v \<noteq> J_undefined) fs)))"

text \<open>\<open>Object.keys(o).sort()\<close>: by code units, the default order of \<open>sort\<close>.\<close>

definition sort_fields :: "(js_string \<times> 'a) list \<Rightarrow> (js_string \<times> 'a) list" where
  "sort_fields fs = sort_key fst fs"

text \<open>
  The runtime's canonical text: an \<open>undefined\<close> property is printed as such, an \<open>undefined\<close> element of an
  array is joined as the empty text.
\<close>

fun canonical_text :: "(rat \<Rightarrow> js_string) \<Rightarrow> js_value \<Rightarrow> js_string" where
  "canonical_text fr J_undefined = ''undefined''"
| "canonical_text fr J_null = ''null''"
| "canonical_text fr (J_bool b) = (if b then ''true'' else ''false'')"
| "canonical_text fr (J_num n) = json_number fr n"
| "canonical_text fr (J_str s) = json_quote s"
| "canonical_text fr (J_arr vs) = brackets (join (map (\<lambda>v. if v = J_undefined then [] else canonical_text fr v) vs))"
| "canonical_text fr (J_obj fs) =
     braces (join (map json_field
       (sort_fields (map (\<lambda>(k, v). (k, canonical_text fr v)) fs))))"

definition sortedStringify :: "(rat \<Rightarrow> js_string) \<Rightarrow> (js_string \<times> js_value) list \<Rightarrow> js_string" where
  "sortedStringify fr fs = json_stringify fr (J_obj (sort_fields fs))"

text \<open>
  What the hashed records take from outside: SHA-256 in hexadecimal (of the UTF-8 text),
  \<open>localeCompare\<close> of the host's collation, \<open>Date.parse\<close> (\<open>None\<close> for NaN) and the text of
  a non-integer number.
\<close>

record js_lib =
  lib_sha256 :: "js_string \<Rightarrow> js_string"
  lib_compare :: "js_string \<Rightarrow> js_string \<Rightarrow> int"
  lib_parse :: "js_string \<Rightarrow> int option"
  lib_number :: "rat \<Rightarrow> js_string"

section \<open>The text determines the value\<close>

text \<open>A text is closed by what may follow it: the end, a separator or a closing bracket.\<close>

definition closes :: "js_string \<Rightarrow> bool" where
  "closes s \<longleftrightarrow> s = [] \<or> hd s \<in> {CHR '','', CHR '']'', CHR ''}''}"

definition hex_val :: "char \<Rightarrow> nat" where
  "hex_val c = (if code_unit c < 58 then code_unit c - 48 else code_unit c - 87)"

lemma hex_val_digit [simp]: "n < 16 \<Longrightarrow> hex_val (hex_digit n) = n"
  by (simp add: hex_val_def hex_digit_def)

text \<open>Reading one character back from its escaped form.\<close>

definition unescape :: "js_string \<Rightarrow> nat \<times> js_string" where
  "unescape s =
     (if hd s \<noteq> CHR 0x5C then (code_unit (hd s), tl s)
      else (let e = s ! 1; r = drop 2 s
            in if e = CHR ''b'' then (8, r) else if e = CHR ''t'' then (9, r)
               else if e = CHR ''n'' then (10, r) else if e = CHR ''f'' then (12, r)
               else if e = CHR ''r'' then (13, r)
               else if e = CHR ''u'' then (16 * hex_val (s ! 4) + hex_val (s ! 5), drop 6 s)
               else (code_unit e, r)))"

lemma code_unit_less: "code_unit c < 256"
  by (simp add: code_unit_def of_char_def)

lemma unescape_json_char: "unescape (json_char c @ s) = (code_unit c, s)"
proof -
  have "c = CHR 0x22 \<or> c = CHR 0x5C \<or> (c \<noteq> CHR 0x22 \<and> c \<noteq> CHR 0x5C)" by blast
  moreover have "unescape (json_char c @ s) = (code_unit c, s)" if "c = CHR 0x22 \<or> c = CHR 0x5C"
    using that by (auto simp: unescape_def json_char_def Let_def)
  moreover have "unescape (json_char c @ s) = (code_unit c, s)"
    if "c \<noteq> CHR 0x22" "c \<noteq> CHR 0x5C" "code_unit c < 32"
  proof -
    have "code_unit c div 16 < 16" "code_unit c mod 16 < 16" using that(3) by simp_all
    with that show ?thesis
      by (auto simp: unescape_def json_char_def Let_def)
  qed
  moreover have "unescape (json_char c @ s) = (code_unit c, s)"
    if "c \<noteq> CHR 0x22" "c \<noteq> CHR 0x5C" "\<not> code_unit c < 32"
    using that by (simp add: unescape_def json_char_def Let_def)
  ultimately show ?thesis by blast
qed

lemma json_char_prefix: "json_char c @ s = json_char d @ t \<Longrightarrow> c = d \<and> s = t"
  by (metis code_unit_inject prod.inject unescape_json_char)

lemma json_char_hd: "hd (json_char c @ s) \<noteq> quote" "json_char c \<noteq> []"
  by (auto simp: json_char_def quote_def Let_def)

lemma json_chars_prefix:
  "concat (map json_char a) @ quote # s = concat (map json_char b) @ quote # t \<Longrightarrow> a = b \<and> s = t"
proof (induction a arbitrary: b)
  case Nil
  show ?case
  proof (cases b)
    case (Cons d ds)
    with Nil have "quote # s = json_char d @ concat (map json_char ds) @ quote # t" by simp
    then have "hd (json_char d @ concat (map json_char ds) @ quote # t) = quote"
      by (metis list.sel(1))
    with json_char_hd(1) show ?thesis by blast
  qed (use Nil in simp)
next
  case (Cons c cs)
  show ?case
  proof (cases b)
    case Nil
    with Cons.prems have "json_char c @ concat (map json_char cs) @ quote # s = quote # t" by simp
    then have "hd (json_char c @ concat (map json_char cs) @ quote # s) = quote"
      by (metis list.sel(1))
    with json_char_hd(1) show ?thesis by blast
  next
    case (Cons d ds)
    with Cons.prems have "json_char c @ (concat (map json_char cs) @ quote # s) =
        json_char d @ (concat (map json_char ds) @ quote # t)" by simp
    from json_char_prefix [OF this] Cons Cons.IH show ?thesis by blast
  qed
qed

lemma json_quote_prefix: "json_quote a @ s = json_quote b @ t \<Longrightarrow> a = b \<and> s = t"
  using json_chars_prefix [of a s b t] by (simp add: json_quote_def)

text \<open>Integers end where the digits end.\<close>

lemma closes_not_digit: "closes s \<Longrightarrow> s = [] \<or> \<not> is_digit (hd s)"
  by (auto simp: closes_def is_digit_def code_unit_def)

lemma digits_prefix:
  assumes "list_all is_digit a" "list_all is_digit b" "closes s" "closes t" "a @ s = b @ t"
  shows "a = b \<and> s = t"
proof -
  have tw: "takeWhile is_digit (x @ u) = x" if "list_all is_digit x" "closes u" for x u
    using that closes_not_digit [OF that(2)] by (cases u) (auto simp: list_all_iff)
  have "a = b" using tw [OF assms(1,3)] tw [OF assms(2,4)] assms(5) by simp
  with assms(5) show ?thesis by simp
qed

lemma dec_nat_hd: "is_digit (hd (dec_nat n))"
  using dec_nat_digits [of n] dec_nat_nonempty [of n] by (cases "dec_nat n") auto

lemma dec_nat_leading: "0 < n \<Longrightarrow> hd (dec_nat n) \<noteq> CHR ''0''"
proof (induction n rule: dec_nat.induct)
  case (1 n)
  show ?case
  proof (cases "n < 10")
    case True
    then have "code_unit (hd (dec_nat n)) = 48 + n" unfolding dec_nat.simps [of n] by (simp add: code_unit_def)
    with 1 show ?thesis by (auto simp: code_unit_def)
  next
    case False
    with 1 have "hd (dec_nat (n div 10)) \<noteq> CHR ''0''" by simp
    with False dec_nat_nonempty [of "n div 10"] show ?thesis by (subst dec_nat.simps) simp
  qed
qed

lemma strip_padded: "s = strip_zeros s @ replicate (length s - length (strip_zeros s)) CHR ''0''"
proof -
  let ?z = "takeWhile (\<lambda>c. c = CHR ''0'') (rev s)" and ?d = "dropWhile (\<lambda>c. c = CHR ''0'') (rev s)"
  have r: "rev s = ?z @ ?d" by simp
  have "length ?z + length ?d = length s" using arg_cong [OF r, of length] by (metis length_append length_rev)
  then have l: "length ?z = length s - length ?d" by arith
  have "?z = replicate (length ?z) CHR ''0''"
    by (rule sym, rule replicate_length_same) (auto dest: set_takeWhileD)
  with l have "rev ?z = replicate (length s - length ?d) CHR ''0''" by (metis rev_replicate)
  with arg_cong [OF r, of rev] show ?thesis by (simp add: strip_zeros_def del: takeWhile_dropWhile_id)
qed

lemma stripped_digits:
  assumes "0 < n"
  shows "list_all is_digit (strip_zeros (dec_nat n))" "strip_zeros (dec_nat n) \<noteq> []"
proof -
  show "list_all is_digit (strip_zeros (dec_nat n))"
    using dec_nat_digits [of n] by (auto simp: strip_zeros_def list_all_iff dest: set_dropWhileD)
  have "hd (dec_nat n) \<in> set (rev (dec_nat n))" using dec_nat_nonempty by simp
  with dec_nat_leading [OF assms] show "strip_zeros (dec_nat n) \<noteq> []"
    by (auto simp: strip_zeros_def)
qed

lemma point_not_digit: "\<not> is_digit CHR ''.''" "\<not> is_digit CHR ''e''" "\<not> is_digit CHR ''-''"
  by (simp_all add: is_digit_def code_unit_def)

lemma mantissa_digits:
  assumes "list_all is_digit s" "s \<noteq> []"
  shows "filter is_digit (mantissa s) = s" "CHR ''e'' \<notin> set (mantissa s)" "is_digit (hd (mantissa s))"
  using assms point_not_digit by (cases s; auto simp: mantissa_def filter_id_conv list_all_iff)+

lemma split_once:
  assumes "c \<notin> set a" "c \<notin> set b" "a @ c # s = b @ c # t"
  shows "a = b \<and> s = t"
proof -
  have "takeWhile (\<lambda>x. x \<noteq> c) (u @ c # v) = u" if "c \<notin> set u" for u v
    using that by (induction u) auto
  from this [OF assms(1), of s] this [OF assms(2), of t] have "a = b" unfolding assms(3) by (rule trans [OF sym])
  with assms(3) show ?thesis by simp
qed

lemma scientific_prefix:
  assumes "closes s" "closes t" "0 < m" "0 < n" "scientific m @ s = scientific n @ t"
  shows "m = n \<and> s = t"
proof -
  note d = mantissa_digits [OF stripped_digits [OF assms(3)]] mantissa_digits [OF stripped_digits [OF assms(4)]]
  have "mantissa (strip_zeros (dec_nat m)) @ CHR ''e'' # (CHR ''+'' # dec_nat (length (dec_nat m) - 1) @ s) =
      mantissa (strip_zeros (dec_nat n)) @ CHR ''e'' # (CHR ''+'' # dec_nat (length (dec_nat n) - 1) @ t)"
    using assms(5) by (simp add: scientific_def)
  from split_once [OF d(2,5) this]
  have ma: "mantissa (strip_zeros (dec_nat m)) = mantissa (strip_zeros (dec_nat n))"
    and e: "dec_nat (length (dec_nat m) - 1) @ s = dec_nat (length (dec_nat n) - 1) @ t" by simp_all
  from digits_prefix [OF dec_nat_digits dec_nat_digits assms(1,2) e]
  have "length (dec_nat m) - 1 = length (dec_nat n) - 1" and st: "s = t" by simp_all
  moreover have "0 < length (dec_nat m)" "0 < length (dec_nat n)" using dec_nat_nonempty by simp_all
  ultimately have "length (dec_nat m) = length (dec_nat n)" by linarith
  moreover have "strip_zeros (dec_nat m) = strip_zeros (dec_nat n)" 
    using arg_cong [OF ma, of "filter is_digit"] unfolding d(1,4) .
  ultimately have "dec_nat m = dec_nat n"
    by - (rule trans [OF strip_padded [of "dec_nat m"] trans [OF _ sym [OF strip_padded [of "dec_nat n"]]]], simp)
  with st show ?thesis by simp
qed

lemma scientific_not_digits:
  assumes "closes s" "0 < n"
  shows "dec_nat m @ s \<noteq> scientific n @ t"
proof
  assume e: "dec_nat m @ s = scientific n @ t"
  let ?z = "strip_zeros (dec_nat n)"
  obtain c r where z: "?z = c # r" using stripped_digits(2) [OF assms(2)] by (meson neq_Nil_conv)
  have c: "is_digit c" using stripped_digits(1) [OF assms(2)] z by simp
  obtain x u where "scientific n @ t = c # x # u" and x: "x = CHR ''.'' \<or> x = CHR ''e''"
    by (cases r) (auto simp: scientific_def mantissa_def z)
  with e have e: "dec_nat m @ s = [c] @ x # u" by simp
  have "\<not> is_digit x" using x point_not_digit by auto
  then have "takeWhile is_digit ([c] @ x # u) = [c]" using c by simp
  moreover have "takeWhile is_digit (dec_nat m @ s) = dec_nat m"
    using dec_nat_digits [of m] closes_not_digit [OF assms(1)] by (cases s) (auto simp: list_all_iff)
  ultimately have "dec_nat m = [c]" using e by simp
  with e have "s = x # u" by simp
  with assms(1) x show False by (auto simp: closes_def)
qed

definition nat_text :: "nat \<Rightarrow> js_string" where
  "nat_text n = (if int n < exponent_limit then dec_nat n else scientific n)"

lemma int_text_nat: "int_text i = (if i < 0 then CHR ''-'' # nat_text (nat (- i)) else nat_text (nat i))"
  by (simp add: int_text_def nat_text_def dec_int_def)

lemma nat_text_prefix:
  assumes "closes s" "closes t" "nat_text m @ s = nat_text n @ t"
  shows "m = n \<and> s = t"
proof -
  have pos: "0 < k" if "\<not> int k < exponent_limit" for k using that by (simp add: exponent_limit_def)
  show ?thesis
    using assms(3) digits_prefix [OF dec_nat_digits dec_nat_digits assms(1,2), of m n]
      scientific_prefix [OF assms(1,2) pos pos, of m n] scientific_not_digits [OF assms(1) pos, of n m t]
      scientific_not_digits [OF assms(2) pos, of m n s]
    by (auto simp: nat_text_def split: if_splits)
qed

lemma nat_text_hd: "nat_text n \<noteq> []" "is_digit (hd (nat_text n))"
proof -
  have "0 < n" if "\<not> int n < exponent_limit" using that by (simp add: exponent_limit_def)
  then show "is_digit (hd (nat_text n))"
    using dec_nat_hd [of n] mantissa_digits(3) [OF stripped_digits [of n]]
    by (auto simp: nat_text_def scientific_def mantissa_def)
  show "nat_text n \<noteq> []" by (simp add: nat_text_def scientific_def mantissa_def dec_nat_nonempty)
qed

lemma int_text_small [simp]: "\<bar>i\<bar> < 1000000000000000000000 \<Longrightarrow> int_text i = dec_int i"
  by (simp add: int_text_def exponent_limit_def)

lemma int_text_prefix:
  assumes "closes s" "closes t" "int_text i @ s = int_text j @ t"
  shows "i = j \<and> s = t"
proof -
  have nd: "nat_text n @ u \<noteq> CHR ''-'' # v" for n u v
    using nat_text_hd [of n] point_not_digit(3) by (cases "nat_text n") auto
  note p = nat_text_prefix [OF assms(1,2)]
  consider "i < 0" "j < 0" | "i < 0" "\<not> j < 0" | "\<not> i < 0" "j < 0" | "\<not> i < 0" "\<not> j < 0"
    by blast
  then show ?thesis
  proof cases
    case 1
    with assms(3) p [of "nat (- i)" "nat (- j)"] have "nat (- i) = nat (- j)" "s = t"
      by (simp_all add: int_text_nat)
    with 1 show ?thesis by linarith
  next
    case 2
    with assms(3) nd [of "nat j" t] show ?thesis by (simp add: int_text_nat) metis
  next
    case 3
    with assms(3) nd [of "nat i" s] show ?thesis by (simp add: int_text_nat)
  next
    case 4
    with assms(3) p [of "nat i" "nat j"] have "nat i = nat j" "s = t"
      by (simp_all add: int_text_nat)
    with 4 show ?thesis by linarith
  qed
qed

text \<open>
  The normal form the runtime's text determines: object keys sorted at every level, a number
  that JSON cannot express replaced by null. \<open>protocol_value\<close>: the numbers are integers
  or not finite, and no element of an array is \<open>undefined\<close>, as for every value read from JSON.
\<close>

fun normal :: "js_value \<Rightarrow> js_value" where
  "normal (J_num n) = (if is_integer n then J_num n else J_null)"
| "normal (J_arr vs) = J_arr (map normal vs)"
| "normal (J_obj fs) = J_obj (sort_fields (map (\<lambda>(k, v). (k, normal v)) fs))"
| "normal v = v"

fun protocol_value :: "js_value \<Rightarrow> bool" where
  "protocol_value (J_num n) = (\<forall>r. n = Fin r \<longrightarrow> is_integer n)"
| "protocol_value (J_arr vs) = list_all (\<lambda>v. v \<noteq> J_undefined \<and> protocol_value v) vs"
| "protocol_value (J_obj fs) = list_all (\<lambda>(k, v). protocol_value v) fs"
| "protocol_value v = True"

lemma sort_fields_map:
  fixes f :: "'a \<Rightarrow> 'b"
  shows "sort_fields (map (\<lambda>(k, v). (k, f v)) fs) = map (\<lambda>(k, v). (k, f v)) (sort_fields fs)"
proof -
  have ins: "insort_key fst (k, f v) (map (\<lambda>(k, v). (k, f v)) xs) =
      map (\<lambda>(k, v). (k, f v)) (insort_key fst (k, v) xs)" for k v and xs :: "(js_string \<times> 'a) list"
    by (induction xs) auto
  show ?thesis
    unfolding sort_fields_def by (induction fs) (auto simp: ins)
qed

lemma set_sort_fields [simp]: "set (sort_fields fs) = set fs"
  by (simp add: sort_fields_def)

lemma canonical_obj:
  "canonical_text fr (J_obj fs) =
     braces (join (map (\<lambda>(k, v). json_field (k, canonical_text fr v)) (sort_fields fs)))"
  unfolding canonical_text.simps sort_fields_map map_map
  by (auto intro!: arg_cong [of _ _ braces] arg_cong [of _ _ join])

lemma normal_obj: "normal (J_obj fs) = J_obj (map (\<lambda>(k, v). (k, normal v)) (sort_fields fs))"
  by (simp add: sort_fields_map)

definition text_ok :: "(rat \<Rightarrow> js_string) \<Rightarrow> js_value \<Rightarrow> bool" where
  "text_ok fr v \<longleftrightarrow>
     (\<forall>w s t. protocol_value w \<longrightarrow> closes s \<longrightarrow> closes t \<longrightarrow>
        canonical_text fr v @ s = canonical_text fr w @ t \<longrightarrow> normal v = normal w \<and> s = t)"

text \<open>The first character of a text, by the kind of value.\<close>

definition kind :: "js_value \<Rightarrow> nat" where
  "kind v = (case v of J_undefined \<Rightarrow> 0 | J_null \<Rightarrow> 1 | J_bool b \<Rightarrow> (if b then 2 else 3)
     | J_num n \<Rightarrow> if is_integer n then 4 else 1 | J_str _ \<Rightarrow> 5 | J_arr _ \<Rightarrow> 6 | J_obj _ \<Rightarrow> 7)"

definition char_kind :: "char \<Rightarrow> nat" where
  "char_kind c =
     (if c = CHR ''u'' then 0 else if c = CHR ''n'' then 1 else if c = CHR ''t'' then 2
      else if c = CHR ''f'' then 3 else if is_digit c \<or> c = CHR ''-'' then 4
      else if c = quote then 5 else if c = CHR ''['' then 6 else if c = CHR ''{'' then 7 else 8)"

lemma digit_kind: "is_digit c \<Longrightarrow> char_kind c = 4"
  by (auto simp: char_kind_def is_digit_def code_unit_def)

lemma int_text_kind: "int_text i \<noteq> [] \<and> char_kind (hd (int_text i)) = 4"
  using nat_text_hd digit_kind by (simp add: int_text_nat) (simp add: char_kind_def is_digit_def code_unit_def)

lemma canonical_kind:
  "protocol_value v \<Longrightarrow> canonical_text fr v \<noteq> [] \<and> char_kind (hd (canonical_text fr v)) = kind v"
proof (cases v)
  case (J_num n)
  assume "protocol_value v"
  with J_num int_text_kind show ?thesis
    by (cases n) (simp_all add: kind_def json_number_def char_kind_def)
qed (auto simp: kind_def char_kind_def json_number_def json_quote_def brackets_def braces_def
      quote_def is_digit_def code_unit_def)

lemma text_same_kind:
  assumes "protocol_value v" "protocol_value w" "canonical_text fr v @ s = canonical_text fr w @ t"
  shows "kind v = kind w"
  using canonical_kind [OF assms(1), of fr] canonical_kind [OF assms(2), of fr] assms(3)
  by (metis hd_append2)

lemma join_Cons: "join (x # xs) = x @ (if xs = [] then [] else CHR '','' # join xs)"
  by (cases xs) simp_all

lemma closes_simps [simp]:
  "closes (CHR '','' # s)" "closes (CHR '']'' # s)" "closes (CHR ''}'' # s)"
  by (simp_all add: closes_def)

definition starts_item :: "js_string \<Rightarrow> bool" where
  "starts_item s \<longleftrightarrow> s \<noteq> [] \<and> hd s \<notin> {CHR '']'', CHR ''}''}"

lemma join_prefix:
  assumes ok: "\<And>v w s t. v \<in> set vs \<Longrightarrow> w \<in> set ws \<Longrightarrow> closes s \<Longrightarrow> closes t \<Longrightarrow>
      T v @ s = T w @ t \<Longrightarrow> N v = N w \<and> s = t"
    and items: "\<And>v. v \<in> set vs \<union> set ws \<Longrightarrow> starts_item (T v)"
    and c: "c = CHR '']'' \<or> c = CHR ''}''"
    and eq: "join (map T vs) @ c # s = join (map T ws) @ c # t"
  shows "map N vs = map N ws \<and> s = t"
  using assms
proof (induction vs arbitrary: ws)
  case Nil
  show ?case
  proof (cases ws)
    case (Cons w ws')
    with Nil.prems(2) [of w] Nil.prems(3,4) show ?thesis
      by (cases "T w") (auto simp: join_Cons starts_item_def)
  qed (use Nil in simp)
next
  case (Cons v vs)
  show ?case
  proof (cases ws)
    case Nil
    with Cons.prems(2) [of v] Cons.prems(3,4) show ?thesis
      by (cases "T v") (auto simp: join_Cons starts_item_def)
  next
    case ws: (Cons w ws')
    let ?l = "\<lambda>xs u. if xs = [] then c # u else CHR '','' # join (map T xs) @ c # u"
    have "T v @ ?l vs s = T w @ ?l ws' t"
      using Cons.prems(4) ws by (auto simp: join_Cons)
    moreover have "closes (?l xs u)" for xs u using Cons.prems(3) by auto
    ultimately have n: "N v = N w" and l: "?l vs s = ?l ws' t"
      using Cons.prems(1) [of v w "?l vs s" "?l ws' t"] ws by auto
    have "map N vs = map N ws' \<and> s = t"
    proof (cases "vs = []")
      case True
      with l Cons.prems(3) show ?thesis by (auto split: if_splits)
    next
      case False
      with l Cons.prems(3) have "join (map T vs) @ c # s = join (map T ws') @ c # t"
        by (auto split: if_splits)
      with Cons.prems ws show ?thesis by (intro Cons.IH) auto
    qed
    with n ws show ?thesis by simp
  qed
qed

lemma text_starts_item: "protocol_value v \<Longrightarrow> starts_item (canonical_text fr v)"
proof -
  assume "protocol_value v"
  from canonical_kind [OF this, of fr] have "canonical_text fr v \<noteq> []"
    and "char_kind (hd (canonical_text fr v)) \<noteq> 8"
    by (auto simp: kind_def split: js_value.splits if_splits)
  then show ?thesis
    by (auto simp: starts_item_def char_kind_def quote_def is_digit_def code_unit_def)
qed

lemma field_starts_item: "starts_item (json_field f)"
  by (simp add: starts_item_def json_field_def json_quote_def quote_def)

lemma kind_eq:
  assumes "kind v = kind w"
  shows "kind v = 0 \<and> v = J_undefined \<and> w = J_undefined \<or>
    kind v = 1 \<and> normal v = J_null \<and> normal w = J_null \<or>
    kind v = 2 \<and> v = J_bool True \<and> w = J_bool True \<or> kind v = 3 \<and> v = J_bool False \<and> w = J_bool False \<or>
    (\<exists>m n. v = J_num m \<and> w = J_num n \<and> is_integer m \<and> is_integer n) \<or>
    (\<exists>a b. v = J_str a \<and> w = J_str b) \<or> (\<exists>a b. v = J_arr a \<and> w = J_arr b) \<or>
    (\<exists>a b. v = J_obj a \<and> w = J_obj b)"
  using assms by (cases v; cases w) (auto simp: kind_def split: if_splits)

lemma null_normal: "kind v = 1 \<Longrightarrow> normal v = J_null"
  by (cases v) (auto simp: kind_def split: if_splits)

lemma null_text: "kind v = 1 \<Longrightarrow> protocol_value v \<Longrightarrow> canonical_text fr v = ''null''"
  by (cases v) (auto simp: kind_def json_number_def split: if_splits js_number.splits)

lemma number_text:
  assumes "is_integer m" "is_integer n" "closes s" "closes t"
    and "json_number fr m @ s = json_number fr n @ t"
  shows "m = n \<and> s = t"
proof -
  obtain q r where "m = Fin q" "n = Fin r" "q = of_int \<lfloor>q\<rfloor>" "r = of_int \<lfloor>r\<rfloor>"
    using assms(1,2) by (cases m; cases n) auto
  with assms show ?thesis
    using int_text_prefix [OF assms(3,4), of "\<lfloor>q\<rfloor>" "\<lfloor>r\<rfloor>"] by (simp add: json_number_def)
qed

lemma defined_elements:
  "list_all (\<lambda>v. v \<noteq> J_undefined \<and> Q v) vs \<Longrightarrow>
     map (\<lambda>v. if v = J_undefined then [] else f v) vs = map f vs"
  by (induction vs) simp_all

lemma canonical_text_prefix:
  "protocol_value v \<Longrightarrow> protocol_value w \<Longrightarrow> closes s \<Longrightarrow> closes t \<Longrightarrow>
     canonical_text fr v @ s = canonical_text fr w @ t \<Longrightarrow> normal v = normal w \<and> s = t"
proof (induction v arbitrary: w s t)
  case (J_arr vs)
  obtain ws where w: "w = J_arr ws"
    using kind_eq [OF text_same_kind [OF J_arr.prems(1,2,5)]] by (auto simp: kind_def)
  have e: "join (map (canonical_text fr) vs) @ CHR '']'' # s =
      join (map (canonical_text fr) ws) @ CHR '']'' # t"
    using J_arr.prems(1,2,5) by (simp add: w brackets_def defined_elements)
  have "map normal vs = map normal ws \<and> s = t"
  proof (rule join_prefix [OF _ _ _ e])
    fix v x s' t' assume v: "v \<in> set vs" "x \<in> set ws" "closes s'" "closes t'"
      "canonical_text fr v @ s' = canonical_text fr x @ t'"
    then have "protocol_value v" "protocol_value x"
      using J_arr.prems(1,2) by (auto simp: w list_all_iff)
    with v J_arr.IH show "normal v = normal x \<and> s' = t'" by blast
  next
    fix v assume "v \<in> set vs \<union> set ws"
    then show "starts_item (canonical_text fr v)"
      using J_arr.prems(1,2) by (auto simp: w list_all_iff text_starts_item)
  qed simp
  then show ?case by (simp add: w)
next
  case (J_obj fs)
  obtain gs where w: "w = J_obj gs"
    using kind_eq [OF text_same_kind [OF J_obj.prems(1,2,5)]] by (auto simp: kind_def)
  let ?T = "\<lambda>(k, v). json_field (k, canonical_text fr v)"
  have e: "join (map ?T (sort_fields fs)) @ CHR ''}'' # s =
      join (map ?T (sort_fields gs)) @ CHR ''}'' # t"
    using J_obj.prems(5) unfolding w canonical_obj by (simp add: braces_def)
  have "map (\<lambda>(k, v). (k, normal v)) (sort_fields fs) = map (\<lambda>(k, v). (k, normal v)) (sort_fields gs) \<and> s = t"
  proof (rule join_prefix [OF _ _ _ e])
    fix p q s' t' assume pq: "p \<in> set (sort_fields fs)" "q \<in> set (sort_fields gs)"
      "closes s'" "closes t'" "?T p @ s' = ?T q @ t'"
    obtain k v l x where p: "p = (k, v)" and q: "q = (l, x)" by (cases p; cases q)
    have pv: "protocol_value v" "protocol_value x"
      using J_obj.prems(1,2) pq(1,2) by (auto simp: w p q list_all_iff)
    have "json_quote k @ (CHR '':'' # canonical_text fr v @ s') =
        json_quote l @ (CHR '':'' # canonical_text fr x @ t')"
      using pq(5) by (simp add: p q json_field_def)
    from json_quote_prefix [OF this] have "k = l"
      "canonical_text fr v @ s' = canonical_text fr x @ t'" by simp_all
    moreover have "(k, v) \<in> set fs" using pq(1) p by simp
    ultimately show "(case p of (k, v) \<Rightarrow> (k, normal v)) = (case q of (k, v) \<Rightarrow> (k, normal v)) \<and> s' = t'"
      using J_obj.IH [of "(k, v)" v x s' t'] pv pq(3,4) by (simp add: p q)
  next
    fix p show "starts_item (?T p)" by (cases p) (simp add: field_starts_item)
  qed simp
  then show ?case by (simp only: w normal_obj simp_thms)
next
  case J_undefined
  from kind_eq [OF text_same_kind [OF J_undefined.prems(1,2,5)]] J_undefined.prems(5) show ?case
    by (auto simp: kind_def)
next
  case J_null
  have "kind w = 1" using text_same_kind [OF J_null.prems(1,2,5)] by (simp add: kind_def)
  from kind_eq [OF text_same_kind [OF J_null.prems(1,2,5)]] null_text [OF this J_null.prems(2), of fr]
    J_null.prems(5)
  show ?case by (auto simp: kind_def)
next
  case (J_bool b)
  from kind_eq [OF text_same_kind [OF J_bool.prems(1,2,5)]] J_bool.prems(5) show ?case
    by (auto simp: kind_def split: if_splits)
next
  case (J_num n)
  note k = text_same_kind [OF J_num.prems(1,2,5)]
  show ?case
  proof (cases "is_integer n")
    case True
    with kind_eq [OF k] obtain m where "w = J_num m" "is_integer m" by (auto simp: kind_def)
    with True number_text [of n m s t fr] J_num.prems show ?thesis by simp
  next
    case False
    then have "kind (J_num n) = 1" by (simp add: kind_def)
    with k null_normal [of w] null_normal [of "J_num n"] null_text [of w fr]
      null_text [of "J_num n" fr] J_num.prems
    show ?thesis by simp
  qed
next
  case (J_str a)
  from kind_eq [OF text_same_kind [OF J_str.prems(1,2,5)]] obtain b where "w = J_str b"
    by (auto simp: kind_def)
  with J_str.prems(5) json_quote_prefix [of a s b t] show ?case by simp
qed

lemma sort_fields_idem [simp]: "sort_fields (sort_fields fs) = sort_fields fs"
proof -
  have "sort_key fst xs = xs" if "sorted (map fst xs)" for xs :: "(js_string \<times> 'a) list"
    using that by (induction xs) (auto intro: insort_is_Cons)
  then show ?thesis unfolding sort_fields_def by (simp add: sorted_sort_key)
qed

lemma text_normal: "protocol_value v \<Longrightarrow> canonical_text fr (normal v) = canonical_text fr v"
proof (induction v)
  case (J_num n)
  then show ?case by (cases n) (auto simp: json_number_def)
next
  case (J_arr vs)
  then have "map (canonical_text fr \<circ> normal) vs = map (canonical_text fr) vs"
    by (intro map_cong) (auto simp: list_all_iff)
  moreover have "normal v = J_undefined \<longleftrightarrow> v = J_undefined" for v by (cases v) auto
  moreover have "map (\<lambda>v. if v = J_undefined then [] else canonical_text fr v) (map normal vs) =
      map (canonical_text fr \<circ> normal) vs"
    using J_arr.prems calculation(2) by (induction vs) simp_all
  ultimately show ?case using J_arr.prems by (simp only: normal.simps canonical_text.simps protocol_value.simps defined_elements)
next
  case (J_obj fs)
  let ?n = "map (\<lambda>(k, v). (k, normal v)) (sort_fields fs)"
  have "sort_fields ?n = ?n" by (simp add: sort_fields_map)
  moreover have "map (\<lambda>(k, v). json_field (k, canonical_text fr v)) ?n =
      map (\<lambda>(k, v). json_field (k, canonical_text fr v)) (sort_fields fs)"
    unfolding map_map
  proof (rule map_cong [OF refl])
    fix f assume f: "f \<in> set (sort_fields fs)"
    obtain k v where kv: "f = (k, v)" by (cases f)
    then have "(k, v) \<in> set fs" and "protocol_value v"
      using f J_obj.prems by (auto simp: list_all_iff)
    with J_obj.IH [of "(k, v)" v] show
      "((\<lambda>(k, v). json_field (k, canonical_text fr v)) \<circ> (\<lambda>(k, v). (k, normal v))) f =
       (case f of (k, v) \<Rightarrow> json_field (k, canonical_text fr v))"
      by (simp add: kv)
  qed
  ultimately show ?case unfolding normal_obj canonical_obj by (simp only:)
qed simp_all

text \<open>
  C13: the runtime's canonical text is faithful on what JSON can bring. Two protocol values have the
  same text exactly when they differ in the order of object keys only (and in numbers that JSON cannot
  express), so that a payload hash identifies the command up to collisions of SHA-256. Protocol values
  have integers as their finite numbers and no \<open>undefined\<close> element in an array, which is joined as the
  empty text, so that \<open>[undefined]\<close> and \<open>[]\<close> have one.
\<close>

theorem canonical_text_identifies_the_value:
  assumes "protocol_value v" and "protocol_value w"
  shows "canonical_text fr v = canonical_text fr w \<longleftrightarrow> normal v = normal w"
  using canonical_text_prefix [OF assms, of "[]" "[]" fr] text_normal [OF assms(1), of fr]
    text_normal [OF assms(2), of fr]
  by (auto simp: closes_def)

theorem canonical_text_identifies_the_value_witness:
  "canonical_text (\<lambda>_. []) (J_obj [(''b'', J_num (Fin 1)), (''a'', J_str ''x'')]) =
     canonical_text (\<lambda>_. []) (J_obj [(''a'', J_str ''x''), (''b'', J_num (Fin 1))]) \<and>
   canonical_text (\<lambda>_. []) (J_obj [(''a'', J_str ''1'')]) \<noteq>
     canonical_text (\<lambda>_. []) (J_obj [(''a'', J_num (Fin 1))])"
proof -
  have p: "protocol_value (J_obj [(''b'', J_num (Fin 1)), (''a'', J_str ''x'')])"
    "protocol_value (J_obj [(''a'', J_str ''x''), (''b'', J_num (Fin 1))])"
    "protocol_value (J_obj [(''a'', J_str ''1'')])" "protocol_value (J_obj [(''a'', J_num (Fin 1))])"
    by simp_all
  show ?thesis
    unfolding canonical_text_identifies_the_value [OF p(1,2)]
      canonical_text_identifies_the_value [OF p(3,4)]
    by (simp add: sort_fields_def less_list_code)
qed

end
