(* ===== verification/Tenant.thy ===== *)
theory Tenant
  imports Js_Value
begin

text \<open>
  \<^verbatim>\<open>tenant-core/scope.ts\<close>, \<^verbatim>\<open>tenant-core/types.ts\<close>,
  \<^verbatim>\<open>tenant-isolation/read.ts\<close> and \<^verbatim>\<open>tenant-isolation/types.ts\<close>: the
  fiscal scope (company, RUC, period), its validation and canonical key, and the scoped read
  that discloses nothing about other scopes. The input of the validation is untyped; the
  scoped store is its \<open>select\<close> operation, an argument.
\<close>

section \<open>Scopes\<close>

record TenantScope =
  sc_companyId :: js_string
  sc_ruc :: js_string
  sc_period :: js_string

datatype tenant_scope_error = INVALID_COMPANY | INVALID_RUC | INVALID_PERIOD

definition TENANT_SCOPE_BRAND :: js_string where
  "TENANT_SCOPE_BRAND = ''drenyra:validated-tenant-scope:v1''"

definition RUC_PATTERN :: "js_string \<Rightarrow> bool" where
  "RUC_PATTERN s \<longleftrightarrow> digits_exactly 11 s"

text \<open>\<open>/^[0-9]{4}(0[1-9]|1[0-2])$/\<close>\<close>

definition PERIOD_PATTERN :: "js_string \<Rightarrow> bool" where
  "PERIOD_PATTERN s \<longleftrightarrow>
     length s = 6 \<and> list_all is_digit (take 4 s) \<and>
     (s ! 4 = CHR ''0'' \<and> is_digit (s ! 5) \<and> s ! 5 \<noteq> CHR ''0'' \<or>
      s ! 4 = CHR ''1'' \<and> (s ! 5 = CHR ''0'' \<or> s ! 5 = CHR ''1'' \<or> s ! 5 = CHR ''2''))"

definition normalizeCompanyId :: "js_value \<Rightarrow> js_string option" where
  "normalizeCompanyId companyId =
     (case companyId of
        J_str s \<Rightarrow> (let trimmed = js_trim s in if length trimmed = 0 then None else Some trimmed)
      | _ \<Rightarrow> None)"

definition normalizeRuc :: "js_value \<Rightarrow> js_string option" where
  "normalizeRuc ruc = (case ruc of J_str s \<Rightarrow> if RUC_PATTERN s then Some s else None | _ \<Rightarrow> None)"

definition normalizePeriod :: "js_value \<Rightarrow> js_string option" where
  "normalizePeriod period =
     (case period of J_str s \<Rightarrow> if PERIOD_PATTERN s then Some s else None | _ \<Rightarrow> None)"

definition validateTenantScope :: "js_value \<Rightarrow> tenant_scope_error + TenantScope" where
  "validateTenantScope input =
     (if \<not> isRecord input then Inl INVALID_COMPANY
      else (case normalizeCompanyId (get_field input ''companyId'') of
              None \<Rightarrow> Inl INVALID_COMPANY
            | Some companyId \<Rightarrow>
                (case normalizeRuc (get_field input ''ruc'') of
                   None \<Rightarrow> Inl INVALID_RUC
                 | Some ruc \<Rightarrow>
                     (case normalizePeriod (get_field input ''period'') of
                        None \<Rightarrow> Inl INVALID_PERIOD
                      | Some period \<Rightarrow>
                          Inr \<lparr>sc_companyId = companyId, sc_ruc = ruc, sc_period = period\<rparr>))))"

text \<open>The branded object the validation returns, as a value.\<close>

definition scope_value :: "TenantScope \<Rightarrow> js_value" where
  "scope_value s =
     J_obj [(''brand'', J_str TENANT_SCOPE_BRAND), (''companyId'', J_str (sc_companyId s)),
            (''ruc'', J_str (sc_ruc s)), (''period'', J_str (sc_period s))]"

definition tenantScopeKey :: "TenantScope \<Rightarrow> js_string" where
  "tenantScopeKey scope =
     (let companyId = js_trim (sc_companyId scope)
      in dec_nat (length companyId) @ '':'' @ companyId @ '';'' @
         dec_nat (length (sc_ruc scope)) @ '':'' @ sc_ruc scope @ '';'' @
         dec_nat (length (sc_period scope)) @ '':'' @ sc_period scope)"

definition sameTenantScope :: "TenantScope \<Rightarrow> TenantScope \<Rightarrow> bool" where
  "sameTenantScope a b \<longleftrightarrow> tenantScopeKey a = tenantScopeKey b"

section \<open>Scoped reads\<close>

datatype 'a ScopedReadResult = FOUND 'a | NOT_FOUND_OR_OUT_OF_SCOPE

type_synonym 'a TenantScopedStore = "js_string \<Rightarrow> js_string \<Rightarrow> 'a option"

text \<open>A string property, read where the validation has established that it is one.\<close>

definition str_field :: "js_value \<Rightarrow> js_string \<Rightarrow> js_string" where
  "str_field v k = (case get_field v k of J_str s \<Rightarrow> s | _ \<Rightarrow> [])"

definition scope_of_value :: "js_value \<Rightarrow> TenantScope" where
  "scope_of_value v =
     \<lparr>sc_companyId = str_field v ''companyId'', sc_ruc = str_field v ''ruc'',
      sc_period = str_field v ''period''\<rparr>"

definition assertTenantReadScope :: "js_value \<Rightarrow> tenant_scope_error + js_value" where
  "assertTenantReadScope scope =
     (case validateTenantScope scope of Inl e \<Rightarrow> Inl e | Inr _ \<Rightarrow> Inr scope)"

definition readArtifact ::
  "'a TenantScopedStore \<Rightarrow> js_value \<Rightarrow> js_string \<Rightarrow> tenant_scope_error + 'a ScopedReadResult" where
  "readArtifact select scope artifactId =
     (case assertTenantReadScope scope of
        Inl e \<Rightarrow> Inl e
      | Inr _ \<Rightarrow>
          (case select (tenantScopeKey (scope_of_value scope)) artifactId of
             None \<Rightarrow> Inr NOT_FOUND_OR_OUT_OF_SCOPE
           | Some artifact \<Rightarrow> Inr (FOUND artifact)))"

lemmas tenant_defs = TENANT_SCOPE_BRAND_def RUC_PATTERN_def PERIOD_PATTERN_def
  normalizeCompanyId_def normalizeRuc_def normalizePeriod_def validateTenantScope_def
  scope_value_def tenantScopeKey_def sameTenantScope_def str_field_def scope_of_value_def
  assertTenantReadScope_def readArtifact_def

declare tenant_defs [code_defs]

section \<open>Properties\<close>

definition valid_scope :: "TenantScope \<Rightarrow> bool" where
  "valid_scope s \<longleftrightarrow>
     sc_companyId s \<noteq> [] \<and> js_trim (sc_companyId s) = sc_companyId s \<and> RUC_PATTERN (sc_ruc s) \<and>
     PERIOD_PATTERN (sc_period s)"

lemma normalizeCompanyId_iff:
  "normalizeCompanyId v = Some c \<longleftrightarrow> (\<exists>s. v = J_str s \<and> js_trim s = c \<and> c \<noteq> [])"
  by (auto simp: normalizeCompanyId_def Let_def split: js_value.splits)

lemma normalizeRuc_iff: "normalizeRuc v = Some r \<longleftrightarrow> v = J_str r \<and> RUC_PATTERN r"
  by (auto simp: normalizeRuc_def split: js_value.splits)

lemma normalizePeriod_iff: "normalizePeriod v = Some p \<longleftrightarrow> v = J_str p \<and> PERIOD_PATTERN p"
  by (auto simp: normalizePeriod_def split: js_value.splits)

lemma validate_iff:
  "validateTenantScope v = Inr s \<longleftrightarrow>
     isRecord v \<and> normalizeCompanyId (get_field v ''companyId'') = Some (sc_companyId s) \<and>
     normalizeRuc (get_field v ''ruc'') = Some (sc_ruc s) \<and>
     normalizePeriod (get_field v ''period'') = Some (sc_period s)"
  by (cases s) (auto simp: validateTenantScope_def split: option.splits)

lemma validate_valid: "validateTenantScope v = Inr s \<Longrightarrow> valid_scope s"
  by (auto simp: validate_iff valid_scope_def normalizeCompanyId_iff normalizeRuc_iff normalizePeriod_iff)
    (metis js_trim_idem)

lemma validate_scope_value: "validateTenantScope (scope_value s) = Inr s \<longleftrightarrow> valid_scope s"
  by (auto simp: validate_iff valid_scope_def normalizeCompanyId_iff normalizeRuc_iff
      normalizePeriod_iff scope_value_def)

lemma validated_raw:
  "validateTenantScope v = Inr s \<Longrightarrow>
     js_trim (sc_companyId (scope_of_value v)) = sc_companyId s \<and>
     sc_ruc (scope_of_value v) = sc_ruc s \<and> sc_period (scope_of_value v) = sc_period s"
  by (auto simp: validate_iff normalizeCompanyId_iff normalizeRuc_iff normalizePeriod_iff
      scope_of_value_def str_field_def)

lemma key_inject:
  "tenantScopeKey a = tenantScopeKey b \<longleftrightarrow>
     js_trim (sc_companyId a) = js_trim (sc_companyId b) \<and> sc_ruc a = sc_ruc b \<and>
     sc_period a = sc_period b"
proof
  assume "tenantScopeKey a = tenantScopeKey b"
  then have "dec_nat (length (js_trim (sc_companyId a))) @ CHR '':'' # js_trim (sc_companyId a) @
      CHR '';'' # dec_nat (length (sc_ruc a)) @ CHR '':'' # sc_ruc a @ CHR '';'' #
      dec_nat (length (sc_period a)) @ CHR '':'' # sc_period a @ [] =
    dec_nat (length (js_trim (sc_companyId b))) @ CHR '':'' # js_trim (sc_companyId b) @
      CHR '';'' # dec_nat (length (sc_ruc b)) @ CHR '':'' # sc_ruc b @ CHR '';'' #
      dec_nat (length (sc_period b)) @ CHR '':'' # sc_period b @ []"
    by (simp add: tenantScopeKey_def Let_def)
  from length_prefixed_inject [OF this] have
    c: "js_trim (sc_companyId a) = js_trim (sc_companyId b)" and
    r: "dec_nat (length (sc_ruc a)) @ CHR '':'' # sc_ruc a @ CHR '';'' #
      dec_nat (length (sc_period a)) @ CHR '':'' # sc_period a @ [] =
      dec_nat (length (sc_ruc b)) @ CHR '':'' # sc_ruc b @ CHR '';'' #
      dec_nat (length (sc_period b)) @ CHR '':'' # sc_period b @ []"
    by simp_all
  from length_prefixed_inject [OF r] have "sc_ruc a = sc_ruc b" and
    p: "dec_nat (length (sc_period a)) @ CHR '':'' # sc_period a @ [] =
      dec_nat (length (sc_period b)) @ CHR '':'' # sc_period b @ []"
    by simp_all
  with c length_prefixed_inject [OF p] show
    "js_trim (sc_companyId a) = js_trim (sc_companyId b) \<and> sc_ruc a = sc_ruc b \<and>
     sc_period a = sc_period b" by simp
qed (simp add: tenantScopeKey_def)

lemma key_valid_inject:
  "valid_scope a \<Longrightarrow> valid_scope b \<Longrightarrow> tenantScopeKey a = tenantScopeKey b \<longleftrightarrow> a = b"
  by (cases a; cases b) (auto simp: key_inject valid_scope_def)

lemma key_validated: "validateTenantScope v = Inr s \<Longrightarrow>
    tenantScopeKey (scope_of_value v) = tenantScopeKey s"
  using validated_raw [of v s] validate_valid [of v s] by (simp add: key_inject valid_scope_def)

text \<open>
  scope identity. The validation returns only trimmed, non-empty companies with an
  eleven-digit RUC and a YYYYMM period, accepts its own result unchanged, and on its results
  the canonical key is injective: two validated scopes share a key only when they are equal.
\<close>

theorem validated_scopes_have_distinct_keys:
  assumes "validateTenantScope v = Inr s" and "validateTenantScope w = Inr t"
  shows "validateTenantScope (scope_value s) = Inr s \<and>
         js_trim (sc_companyId s) = sc_companyId s \<and> sc_companyId s \<noteq> [] \<and>
         digits_exactly 11 (sc_ruc s) \<and> PERIOD_PATTERN (sc_period s) \<and>
         (tenantScopeKey s = tenantScopeKey t \<longleftrightarrow> s = t) \<and>
         (sameTenantScope s t \<longleftrightarrow> s = t)"
  using validate_valid [OF assms(1)] validate_valid [OF assms(2)] key_valid_inject
  by (auto simp: validate_scope_value sameTenantScope_def valid_scope_def RUC_PATTERN_def)

theorem validated_scopes_have_distinct_keys_witness:
  "tenantScopeKey \<lparr>sc_companyId = ''a;1'', sc_ruc = ''20100070970'', sc_period = ''202401''\<rparr> \<noteq>
   tenantScopeKey \<lparr>sc_companyId = ''a'', sc_ruc = ''20100070970'', sc_period = ''202402''\<rparr>"
proof -
  have "validateTenantScope (J_obj [(''companyId'', J_str '' a;1 ''), (''ruc'', J_str ''20100070970''),
      (''period'', J_str ''202401'')]) =
      Inr \<lparr>sc_companyId = ''a;1'', sc_ruc = ''20100070970'', sc_period = ''202401''\<rparr>"
    and "validateTenantScope (J_obj [(''companyId'', J_str ''a''), (''ruc'', J_str ''20100070970''),
      (''period'', J_str ''202402'')]) =
      Inr \<lparr>sc_companyId = ''a'', sc_ruc = ''20100070970'', sc_period = ''202402''\<rparr>"
    by code_simp+
  from validated_scopes_have_distinct_keys [OF this] show ?thesis by simp
qed

text \<open>
  read isolation. What a read returns in a scope does not depend on what the store holds
  for any other scope: changing, adding or removing an artifact of another validated scope
  changes no answer, and an invalid scope gets an error whatever the store holds.
\<close>

theorem reads_are_isolated:
  assumes "validateTenantScope foreign = Inr t"
    and "\<forall>s. validateTenantScope scope = Inr s \<longrightarrow> s \<noteq> t"
  shows "readArtifact (select (tenantScopeKey t := artifacts)) scope i = readArtifact select scope i \<and>
         ((\<exists>e. readArtifact select scope i = Inl e) \<longleftrightarrow> (\<exists>e. validateTenantScope scope = Inl e))"
proof (cases "validateTenantScope scope")
  case (Inl e)
  then show ?thesis by (simp add: readArtifact_def assertTenantReadScope_def)
next
  case (Inr s)
  with assms have "tenantScopeKey (scope_of_value scope) \<noteq> tenantScopeKey t"
    using key_valid_inject [OF validate_valid [OF Inr] validate_valid [OF assms(1)]]
    by (simp add: key_validated [OF Inr])
  with Inr show ?thesis
    by (simp add: readArtifact_def assertTenantReadScope_def split: option.splits)
qed

theorem reads_are_isolated_witness:
  "readArtifact ((\<lambda>_ _. None)(tenantScopeKey
       \<lparr>sc_companyId = ''b'', sc_ruc = ''20100070970'', sc_period = ''202401''\<rparr> := (\<lambda>_. Some (7 :: nat))))
     (scope_value \<lparr>sc_companyId = ''a'', sc_ruc = ''20100070970'', sc_period = ''202401''\<rparr>) ''x'' =
   Inr NOT_FOUND_OR_OUT_OF_SCOPE"
proof -
  let ?a = "\<lparr>sc_companyId = ''a'', sc_ruc = ''20100070970'', sc_period = ''202401''\<rparr>"
  let ?b = "\<lparr>sc_companyId = ''b'', sc_ruc = ''20100070970'', sc_period = ''202401''\<rparr>"
  have v: "validateTenantScope (scope_value ?a) = Inr ?a" "validateTenantScope (scope_value ?b) = Inr ?b"
    by code_simp+
  have "readArtifact (\<lambda>_ _. None) (scope_value ?a) ''x'' =
      Inr (NOT_FOUND_OR_OUT_OF_SCOPE :: nat ScopedReadResult)"
    using v(1) by (simp add: readArtifact_def assertTenantReadScope_def)
  with reads_are_isolated [OF v(2), of "scope_value ?a" "\<lambda>_ _. None" "\<lambda>_. Some (7 :: nat)" "''x''"] v(1)
  show ?thesis by simp
qed

end
