(* ===== verification/Evidence.thy ===== *)
theory Evidence
  imports Tenant
begin

text \<open>
  \<^verbatim>\<open>evidence/identity\<close>, \<^verbatim>\<open>evidence/authority\<close>,
  \<^verbatim>\<open>evidence/accept.ts\<close> and \<open>computeEvidenceHash\<close> of
  \<^verbatim>\<open>receipts/verify.ts\<close>: the fail-closed registration of evidence and its
  content identity. The submission is untyped. Freezing an object changes no value and is not
  modelled.
\<close>

section \<open>Data\<close>

datatype evidence_error =
    INVALID_INPUT | INVALID_SCOPE | INVALID_ITEM | MISSING_PROVENANCE | MALFORMED_PROVENANCE
  | MEMORY_SHAPED | ADVISORY_SHAPED | SCOPE_MISMATCH

datatype evidence_channel = DOCUMENT | REPORT | SYSTEM | EXTERNAL

fun channel_name :: "evidence_channel \<Rightarrow> js_string" where
  "channel_name DOCUMENT = ''document''"
| "channel_name REPORT = ''report''"
| "channel_name SYSTEM = ''system''"
| "channel_name EXTERNAL = ''external''"

definition EVIDENCE_CHANNEL :: "evidence_channel list" where
  "EVIDENCE_CHANNEL = [DOCUMENT, REPORT, SYSTEM, EXTERNAL]"

definition MEMORY_SHAPED_MARKERS :: "js_string list" where
  "MEMORY_SHAPED_MARKERS = [''memory'', ''engram'', ''recall'']"

definition ADVISORY_SHAPED_MARKERS :: "js_string list" where
  "ADVISORY_SHAPED_MARKERS =
     [''advisory'', ''assistant'', ''llm'', ''suggestion'', ''agent'', ''chat'']"

record EvidenceProvenanceShape =
  ps_channel :: js_string
  ps_source :: js_string
  ps_capturedAt :: js_string
  ps_capturedBy :: js_string

record EvidenceProvenance =
  ep_channel :: evidence_channel
  ep_source :: js_string
  ep_capturedAt :: js_string
  ep_capturedBy :: js_string

record RegisteredEvidence =
  rg_id :: js_string
  rg_scope :: TenantScope
  rg_scopeKey :: js_string
  rg_items :: "js_value list"
  rg_evidenceHash :: js_string
  rg_provenance :: EvidenceProvenance

record AcceptedEvidence = RegisteredEvidence +
  ac_identity :: js_string

section \<open>Identity\<close>

fun isNonEmptyString :: "js_value \<Rightarrow> bool" where
  "isNonEmptyString (J_str s) = (0 < length (js_trim s))"
| "isNonEmptyString _ = False"

fun isTimestamp :: "js_lib \<Rightarrow> js_value \<Rightarrow> bool" where
  "isTimestamp L (J_str s) = (lib_parse L s \<noteq> None)"
| "isTimestamp L _ = False"

fun isString :: "js_value \<Rightarrow> bool" where
  "isString (J_str _) = True"
| "isString _ = False"

definition validateProvenanceShape ::
  "js_lib \<Rightarrow> js_value \<Rightarrow> evidence_error + EvidenceProvenanceShape" where
  "validateProvenanceShape L provenance =
     (if provenance = J_undefined then Inl MISSING_PROVENANCE
      else if \<not> isRecord provenance then Inl MALFORMED_PROVENANCE
      else if \<not> isString (get_field provenance ''channel'') \<or>
              \<not> isNonEmptyString (get_field provenance ''source'') \<or>
              \<not> isNonEmptyString (get_field provenance ''capturedBy'') \<or>
              \<not> isTimestamp L (get_field provenance ''capturedAt'')
      then Inl MALFORMED_PROVENANCE
      else Inr \<lparr>ps_channel = to_lower (js_trim (str_field provenance ''channel'')),
                ps_source = js_trim (str_field provenance ''source''),
                ps_capturedAt = str_field provenance ''capturedAt'',
                ps_capturedBy = js_trim (str_field provenance ''capturedBy'')\<rparr>)"

definition deriveEvidenceIdentity ::
  "js_lib \<Rightarrow> js_string \<Rightarrow> js_string \<Rightarrow> EvidenceProvenanceShape \<Rightarrow> js_string" where
  "deriveEvidenceIdentity L scopeKey evidenceHash provenance =
     lib_sha256 L (sortedStringify (lib_number L)
       [(''scopeKey'', J_str scopeKey),
        (''evidenceHash'', J_str evidenceHash),
        (''provenance'', J_obj
           [(''channel'', J_str (ps_channel provenance)),
            (''source'', J_str (ps_source provenance)),
            (''capturedAt'', J_str (ps_capturedAt provenance)),
            (''capturedBy'', J_str (ps_capturedBy provenance))])])"

definition by_id :: "js_lib \<Rightarrow> js_value \<Rightarrow> js_value \<Rightarrow> int" where
  "by_id L a b = lib_compare L (str_field a ''id'') (str_field b ''id'')"

definition computeEvidenceHash :: "js_lib \<Rightarrow> js_value list \<Rightarrow> js_string" where
  "computeEvidenceHash L evidence =
     lib_sha256 L (json_stringify (lib_number L) (J_arr (js_sort (by_id L) evidence)))"

section \<open>Authority\<close>

definition validateScopeValue :: "js_value \<Rightarrow> evidence_error + TenantScope" where
  "validateScopeValue scope =
     (if \<not> isRecord scope \<or> get_field scope ''brand'' \<noteq> J_str TENANT_SCOPE_BRAND
      then Inl INVALID_SCOPE
      else (case validateTenantScope scope of Inl _ \<Rightarrow> Inl INVALID_SCOPE | Inr s \<Rightarrow> Inr s))"

text \<open>The loop over the items with the set \<open>seen\<close> of identifiers.\<close>

fun check_items :: "js_string list \<Rightarrow> js_value list \<Rightarrow> evidence_error option" where
  "check_items seen [] = None"
| "check_items seen (item # items) =
     (if \<not> isRecord item \<or> \<not> isNonEmptyString (get_field item ''id'') \<or>
         \<not> isNonEmptyString (get_field item ''label'') \<or>
         \<not> isNonEmptyString (get_field item ''type'')
      then Some INVALID_ITEM
      else if str_field item ''id'' \<in> set seen then Some INVALID_ITEM
      else check_items (str_field item ''id'' # seen) items)"

definition validateItems :: "js_value \<Rightarrow> evidence_error + js_value list" where
  "validateItems items =
     (case items of
        J_arr vs \<Rightarrow> (case check_items [] vs of Some e \<Rightarrow> Inl e | None \<Rightarrow> Inr vs)
      | _ \<Rightarrow> Inl INVALID_ITEM)"

definition resolveEvidenceChannel :: "js_string \<Rightarrow> evidence_error + evidence_channel" where
  "resolveEvidenceChannel normalizedChannel =
     (if normalizedChannel \<in> set MEMORY_SHAPED_MARKERS then Inl MEMORY_SHAPED
      else if normalizedChannel \<in> set ADVISORY_SHAPED_MARKERS then Inl ADVISORY_SHAPED
      else (case find (\<lambda>c. channel_name c = normalizedChannel) EVIDENCE_CHANNEL of
              None \<Rightarrow> Inl MALFORMED_PROVENANCE | Some c \<Rightarrow> Inr c))"

definition registerEvidence :: "js_lib \<Rightarrow> js_value \<Rightarrow> evidence_error + RegisteredEvidence" where
  "registerEvidence L input =
     (if \<not> isRecord input then Inl INVALID_INPUT
      else (case validateScopeValue (get_field input ''scope'') of Inl e \<Rightarrow> Inl e | Inr scope \<Rightarrow>
           (case validateItems (get_field input ''items'') of Inl e \<Rightarrow> Inl e | Inr items \<Rightarrow>
           (case validateProvenanceShape L (get_field input ''provenance'') of Inl e \<Rightarrow> Inl e | Inr shape \<Rightarrow>
           (case resolveEvidenceChannel (ps_channel shape) of Inl e \<Rightarrow> Inl e | Inr channel \<Rightarrow>
              (let scopeKey = tenantScopeKey scope;
                   evidenceHash = computeEvidenceHash L items
               in Inr \<lparr>rg_id = deriveEvidenceIdentity L scopeKey evidenceHash shape,
                       rg_scope = scope,
                       rg_scopeKey = scopeKey,
                       rg_items = items,
                       rg_evidenceHash = evidenceHash,
                       rg_provenance =
                         \<lparr>ep_channel = channel, ep_source = ps_source shape,
                          ep_capturedAt = ps_capturedAt shape,
                          ep_capturedBy = ps_capturedBy shape\<rparr>\<rparr>))))))"

definition assertEvidenceInScope ::
  "'a RegisteredEvidence_scheme \<Rightarrow> js_value \<Rightarrow> evidence_error + unit" where
  "assertEvidenceInScope evidence scope =
     (case validateScopeValue scope of
        Inl e \<Rightarrow> Inl e
      | Inr validated \<Rightarrow>
          if rg_scopeKey evidence \<noteq> tenantScopeKey validated then Inl SCOPE_MISMATCH else Inr ())"

definition acceptEvidence :: "js_lib \<Rightarrow> js_value \<Rightarrow> evidence_error + AcceptedEvidence" where
  "acceptEvidence L input =
     (case registerEvidence L input of
        Inl e \<Rightarrow> Inl e
      | Inr registered \<Rightarrow>
          Inr (RegisteredEvidence.extend registered
                 \<lparr>ac_identity = computeEvidenceHash L (rg_items registered)\<rparr>))"

lemmas evidence_defs = EVIDENCE_CHANNEL_def MEMORY_SHAPED_MARKERS_def ADVISORY_SHAPED_MARKERS_def
  validateProvenanceShape_def deriveEvidenceIdentity_def by_id_def computeEvidenceHash_def
  validateScopeValue_def validateItems_def resolveEvidenceChannel_def registerEvidence_def
  assertEvidenceInScope_def acceptEvidence_def

declare evidence_defs [code_defs]

section \<open>Lemmas\<close>

definition item_ok :: "js_value \<Rightarrow> bool" where
  "item_ok v \<longleftrightarrow>
     isRecord v \<and> isNonEmptyString (get_field v ''id'') \<and> isNonEmptyString (get_field v ''label'') \<and>
     isNonEmptyString (get_field v ''type'')"

lemma check_items_None_iff:
  "check_items seen vs = None \<longleftrightarrow>
     list_all item_ok vs \<and> distinct (map (\<lambda>v. str_field v ''id'') vs) \<and>
     set seen \<inter> set (map (\<lambda>v. str_field v ''id'') vs) = {}"
  by (induction vs arbitrary: seen) (auto simp: item_ok_def)

lemma validateItems_iff:
  "validateItems v = Inr vs \<longleftrightarrow>
     v = J_arr vs \<and> list_all item_ok vs \<and> distinct (map (\<lambda>v. str_field v ''id'') vs)"
proof (cases v)
  case (J_arr ws)
  with check_items_None_iff [of "[]" ws] show ?thesis
    by (cases "check_items [] ws") (auto simp: validateItems_def)
qed (simp_all add: validateItems_def)

lemma validateScopeValue_iff:
  "validateScopeValue v = Inr s \<longleftrightarrow>
     get_field v ''brand'' = J_str TENANT_SCOPE_BRAND \<and> validateTenantScope v = Inr s"
proof -
  have "validateTenantScope v = Inr s \<Longrightarrow> isRecord v" by (simp add: validate_iff)
  then show ?thesis by (auto simp: validateScopeValue_def split: sum.splits)
qed

lemma resolve_channel_iff: "resolveEvidenceChannel n = Inr c \<longleftrightarrow> n = channel_name c"
  by (cases c)
    (auto simp: resolveEvidenceChannel_def MEMORY_SHAPED_MARKERS_def ADVISORY_SHAPED_MARKERS_def
      EVIDENCE_CHANNEL_def split: if_splits)

lemma registered:
  "registerEvidence L input = Inr e \<Longrightarrow>
     (\<exists>shape. isRecord input \<and>
        validateScopeValue (get_field input ''scope'') = Inr (rg_scope e) \<and>
        validateItems (get_field input ''items'') = Inr (rg_items e) \<and>
        validateProvenanceShape L (get_field input ''provenance'') = Inr shape \<and>
        ps_channel shape = channel_name (ep_channel (rg_provenance e)) \<and>
        ps_source shape = ep_source (rg_provenance e) \<and>
        ps_capturedAt shape = ep_capturedAt (rg_provenance e) \<and>
        ps_capturedBy shape = ep_capturedBy (rg_provenance e) \<and>
        rg_scopeKey e = tenantScopeKey (rg_scope e) \<and>
        rg_evidenceHash e = computeEvidenceHash L (rg_items e) \<and>
        rg_id e = deriveEvidenceIdentity L (rg_scopeKey e) (rg_evidenceHash e) shape)"
  by (auto simp: registerEvidence_def Let_def resolve_channel_iff split: if_splits sum.splits)

definition shape_of :: "EvidenceProvenance \<Rightarrow> EvidenceProvenanceShape" where
  "shape_of p =
     \<lparr>ps_channel = channel_name (ep_channel p), ps_source = ep_source p,
      ps_capturedAt = ep_capturedAt p, ps_capturedBy = ep_capturedBy p\<rparr>"

lemma register_id:
  "registerEvidence L input = Inr e \<Longrightarrow>
     rg_id e = deriveEvidenceIdentity L (rg_scopeKey e) (rg_evidenceHash e) (shape_of (rg_provenance e))"
proof -
  assume "registerEvidence L input = Inr e"
  then obtain shape where s: "ps_channel shape = channel_name (ep_channel (rg_provenance e))"
    "ps_source shape = ep_source (rg_provenance e)"
    "ps_capturedAt shape = ep_capturedAt (rg_provenance e)"
    "ps_capturedBy shape = ep_capturedBy (rg_provenance e)"
    "rg_id e = deriveEvidenceIdentity L (rg_scopeKey e) (rg_evidenceHash e) shape"
    using registered by blast
  then have "shape = shape_of (rg_provenance e)" by (cases shape) (simp add: shape_of_def)
  with s(5) show ?thesis by simp
qed

definition strict_collation :: "js_lib \<Rightarrow> bool" where
  "strict_collation L \<longleftrightarrow>
     total_preorder (lib_compare L) \<and>
     (\<forall>a b. lib_compare L a b \<le> 0 \<longrightarrow> lib_compare L b a \<le> 0 \<longrightarrow> a = b)"

lemma hash_permutation:
  assumes "strict_collation L" and "mset vs = mset ws" and "distinct (map (\<lambda>v. str_field v ''id'') vs)"
  shows "computeEvidenceHash L vs = computeEvidenceHash L ws"
proof -
  have "total_preorder (by_id L)"
    using assms(1) unfolding strict_collation_def total_preorder_def by_id_def by blast
  moreover have "x = y" if "x \<in> set vs" "y \<in> set vs" "by_id L x y \<le> 0" "by_id L y x \<le> 0" for x y
  proof -
    have "str_field x ''id'' = str_field y ''id''"
      using assms(1) that(3,4) by (simp add: strict_collation_def by_id_def)
    with assms(3) that(1,2) show ?thesis by (auto simp: distinct_map dest: inj_onD)
  qed
  ultimately have "js_sort (by_id L) vs = js_sort (by_id L) ws"
    using assms(2) by (intro js_sort_unique) auto
  then show ?thesis by (simp add: computeEvidenceHash_def)
qed

section \<open>Properties\<close>

text \<open>
  content identity. Two accepted submissions in the same scope with the same provenance
  whose items are the same up to order get the same id, evidence hash and canonical identity,
  provided the host's collation tells distinct identifiers apart.
\<close>

theorem evidence_identity_ignores_item_order:
  assumes "strict_collation L"
    and "acceptEvidence L input = Inr a" and "acceptEvidence L input' = Inr b"
    and "rg_scope a = rg_scope b" and "rg_provenance a = rg_provenance b"
    and "mset (rg_items a) = mset (rg_items b)"
  shows "rg_id a = rg_id b \<and> rg_evidenceHash a = rg_evidenceHash b \<and> ac_identity a = ac_identity b"
proof -
  obtain x y where x: "registerEvidence L input = Inr x" and y: "registerEvidence L input' = Inr y"
    and a: "a = RegisteredEvidence.extend x \<lparr>ac_identity = computeEvidenceHash L (rg_items x)\<rparr>"
    and b: "b = RegisteredEvidence.extend y \<lparr>ac_identity = computeEvidenceHash L (rg_items y)\<rparr>"
    using assms(2,3) by (auto simp: acceptEvidence_def split: sum.splits)
  have eq: "rg_scope x = rg_scope y" "rg_provenance x = rg_provenance y"
    "mset (rg_items x) = mset (rg_items y)"
    using assms(4-6) by (simp_all add: a b RegisteredEvidence.extend_def)
  have "distinct (map (\<lambda>v. str_field v ''id'') (rg_items x))"
    using registered [OF x] by (auto simp: validateItems_iff)
  from hash_permutation [OF assms(1) eq(3) this] have
    h: "computeEvidenceHash L (rg_items x) = computeEvidenceHash L (rg_items y)" .
  then have "rg_evidenceHash x = rg_evidenceHash y" and "rg_scopeKey x = rg_scopeKey y"
    using registered [OF x] registered [OF y] eq(1) by auto
  with register_id [OF x] register_id [OF y] eq(2) h show ?thesis
    by (simp add: a b RegisteredEvidence.extend_def)
qed

definition sample_lib :: js_lib where
  "sample_lib =
     \<lparr>lib_sha256 = (\<lambda>s. s), lib_compare = (\<lambda>a b. if a = b then 0 else if a < b then - 1 else 1),
      lib_parse = (\<lambda>s. if s = [] then None else Some (int (length s))), lib_number = (\<lambda>_. [])\<rparr>"

lemma sample_lib_strict: "strict_collation sample_lib"
  by (auto simp: strict_collation_def total_preorder_def sample_lib_def split: if_splits)

definition sample_scope :: TenantScope where
  "sample_scope = \<lparr>sc_companyId = ''a'', sc_ruc = ''20100070970'', sc_period = ''202401''\<rparr>"

definition sample_item :: "js_string \<Rightarrow> js_value" where
  "sample_item i = J_obj [(''id'', J_str i), (''label'', J_str ''l''), (''type'', J_str ''t'')]"

definition sample_submission :: "js_value list \<Rightarrow> js_string \<Rightarrow> js_value" where
  "sample_submission items channel =
     J_obj [(''scope'', scope_value sample_scope), (''items'', J_arr items),
            (''provenance'', J_obj [(''channel'', J_str channel), (''source'', J_str ''s''),
               (''capturedAt'', J_str ''2024''), (''capturedBy'', J_str ''me'')])]"

definition sample_accepted :: "js_value list \<Rightarrow> AcceptedEvidence" where
  "sample_accepted items = projr (acceptEvidence sample_lib (sample_submission items '' Document''))"

lemma sample_not_refused:
  "isl (acceptEvidence sample_lib (sample_submission [sample_item ''1'', sample_item ''2''] '' Document'')) =
     False"
  "isl (acceptEvidence sample_lib (sample_submission [sample_item ''2'', sample_item ''1''] '' Document'')) =
     False"
  "isl (acceptEvidence sample_lib (sample_submission [sample_item ''1''] ''Engram'')) = True"
  by code_simp+

lemma sample_accepted:
  "acceptEvidence sample_lib (sample_submission [sample_item ''1'', sample_item ''2''] '' Document'') =
     Inr (sample_accepted [sample_item ''1'', sample_item ''2''])"
  "acceptEvidence sample_lib (sample_submission [sample_item ''2'', sample_item ''1''] '' Document'') =
     Inr (sample_accepted [sample_item ''2'', sample_item ''1''])"
  unfolding sample_accepted_def using sample_not_refused by (simp_all add: sum.collapse)

lemma sample_accepted_fields:
  "rg_scope (sample_accepted [sample_item ''1'', sample_item ''2'']) =
     rg_scope (sample_accepted [sample_item ''2'', sample_item ''1''])"
  "rg_provenance (sample_accepted [sample_item ''1'', sample_item ''2'']) =
     rg_provenance (sample_accepted [sample_item ''2'', sample_item ''1''])"
  "rg_items (sample_accepted [sample_item ''1'', sample_item ''2'']) = [sample_item ''1'', sample_item ''2'']"
  "rg_items (sample_accepted [sample_item ''2'', sample_item ''1'']) = [sample_item ''2'', sample_item ''1'']"
  by code_simp+

theorem evidence_identity_ignores_item_order_witness:
  "rg_id (sample_accepted [sample_item ''1'', sample_item ''2'']) =
   rg_id (sample_accepted [sample_item ''2'', sample_item ''1''])"
proof -
  have "mset (rg_items (sample_accepted [sample_item ''1'', sample_item ''2''])) =
      mset (rg_items (sample_accepted [sample_item ''2'', sample_item ''1'']))"
    unfolding sample_accepted_fields(3,4) by simp
  from evidence_identity_ignores_item_order [OF sample_lib_strict sample_accepted
      sample_accepted_fields(1,2) this]
  show ?thesis by blast
qed

text \<open>
  C14: fail-closed acceptance. Evidence is only accepted in a branded, valid tenant scope, with
  items that all have an id, a label and a type and whose ids are distinct, and from one of the
  four evidence channels, never a memory or advisory one; it is then in scope for exactly the
  scope it was accepted in. Its items are those submitted, and its evidence hash and canonical
  identity are the SHA-256 of the JSON text of these items in the order of their ids; its id is the
  SHA-256 over its scope key, that hash and its provenance.
\<close>

theorem accepted_evidence_is_bound:
  assumes "acceptEvidence L input = Inr a"
  shows "valid_scope (rg_scope a) \<and> rg_scopeKey a = tenantScopeKey (rg_scope a) \<and>
         list_all item_ok (rg_items a) \<and> distinct (map (\<lambda>v. str_field v ''id'') (rg_items a)) \<and>
         to_lower (js_trim (str_field (get_field input ''provenance'') ''channel'')) \<notin>
           set MEMORY_SHAPED_MARKERS \<union> set ADVISORY_SHAPED_MARKERS \<and>
         (\<exists>c \<in> set EVIDENCE_CHANNEL. ep_channel (rg_provenance a) = c \<and>
            to_lower (js_trim (str_field (get_field input ''provenance'') ''channel'')) = channel_name c) \<and>
         get_field input ''items'' = J_arr (rg_items a) \<and>
         rg_evidenceHash a = lib_sha256 L (json_stringify (lib_number L) (J_arr (js_sort (by_id L) (rg_items a)))) \<and>
         ac_identity a = rg_evidenceHash a \<and>
         rg_id a = deriveEvidenceIdentity L (rg_scopeKey a) (rg_evidenceHash a) (shape_of (rg_provenance a)) \<and>
         (assertEvidenceInScope a v = Inr () \<longleftrightarrow>
            get_field v ''brand'' = J_str TENANT_SCOPE_BRAND \<and> validateTenantScope v = Inr (rg_scope a))"
proof -
  obtain x where x: "registerEvidence L input = Inr x"
    and a: "a = RegisteredEvidence.extend x \<lparr>ac_identity = computeEvidenceHash L (rg_items x)\<rparr>"
    using assms by (auto simp: acceptEvidence_def split: sum.splits)
  from registered [OF x] obtain shape where
    r: "validateScopeValue (get_field input ''scope'') = Inr (rg_scope x)"
      "validateItems (get_field input ''items'') = Inr (rg_items x)"
      "validateProvenanceShape L (get_field input ''provenance'') = Inr shape"
      "ps_channel shape = channel_name (ep_channel (rg_provenance x))"
      "rg_scopeKey x = tenantScopeKey (rg_scope x)"
      "rg_evidenceHash x = computeEvidenceHash L (rg_items x)"
    by blast
  have sel: "rg_scope a = rg_scope x" "rg_items a = rg_items x" "rg_scopeKey a = rg_scopeKey x"
    "rg_provenance a = rg_provenance x" "rg_evidenceHash a = rg_evidenceHash x"
    "ac_identity a = computeEvidenceHash L (rg_items x)" "rg_id a = rg_id x"
    by (simp_all add: a RegisteredEvidence.extend_def)
  have valid: "valid_scope (rg_scope x)" using r(1) validate_valid by (auto simp: validateScopeValue_iff)
  have ch: "to_lower (js_trim (str_field (get_field input ''provenance'') ''channel'')) =
      channel_name (ep_channel (rg_provenance x))"
    using r(3,4) by (auto simp: validateProvenanceShape_def split: if_splits)
  have "channel_name c \<notin> set MEMORY_SHAPED_MARKERS \<union> set ADVISORY_SHAPED_MARKERS" for c
    by (cases c) (simp_all add: MEMORY_SHAPED_MARKERS_def ADVISORY_SHAPED_MARKERS_def)
  moreover have "c \<in> set EVIDENCE_CHANNEL" for c by (cases c) (simp_all add: EVIDENCE_CHANNEL_def)
  moreover have "assertEvidenceInScope a v = Inr () \<longleftrightarrow> validateScopeValue v = Inr (rg_scope x)"
  proof (cases "validateScopeValue v")
    case (Inl e)
    then show ?thesis by (simp add: assertEvidenceInScope_def)
  next
    case (Inr s)
    then have "valid_scope s" using validate_valid by (auto simp: validateScopeValue_iff)
    with Inr key_valid_inject [OF valid this] show ?thesis
      by (auto simp: assertEvidenceInScope_def sel r(5))
  qed
  ultimately show ?thesis
    using valid r ch register_id [OF x] by (auto simp: sel validateItems_iff validateScopeValue_iff computeEvidenceHash_def)
qed

theorem accepted_evidence_is_bound_witness:
  "assertEvidenceInScope (sample_accepted [sample_item ''1'', sample_item ''2''])
     (scope_value sample_scope) = Inr ()"
proof -
  have "get_field (scope_value sample_scope) ''brand'' = J_str TENANT_SCOPE_BRAND"
    by (simp add: scope_value_def)
  moreover have "validateTenantScope (scope_value sample_scope) =
      Inr (rg_scope (sample_accepted [sample_item ''1'', sample_item ''2'']))"
    by code_simp
  ultimately show ?thesis
    using accepted_evidence_is_bound [OF sample_accepted(1), of "scope_value sample_scope"] by simp
qed

end
