(* ===== verification/Journal.thy ===== *)
theory Journal
  imports Evidence
begin

text \<open>
  \<^verbatim>\<open>journal/types.ts\<close>, \<^verbatim>\<open>journal/validate.ts\<close> and
  \<^verbatim>\<open>journal/journal.ts\<close>: the double-entry journal, its fail-closed validation and
  the operations record, post, supersede and revoke. Amounts are BigInt cents. The evidence
  artifacts are untyped: the validation reads their fields as they come, and a field that is
  not there makes the code throw a \<open>TypeError\<close> in the one place where it dereferences it.
  The receipt issuer is an argument that may throw.
\<close>

section \<open>Data\<close>

datatype journal_side = DEBIT | CREDIT

datatype journal_status = RECORDED | POSTED | SUPERSEDED | REVOKED

record JournalLine =
  jl_accountCode :: js_string
  jl_side :: journal_side
  jl_amountCents :: int

record JournalEntry =
  je_id :: js_string
  je_scope :: TenantScope
  je_lines :: "JournalLine list"
  je_evidence :: "js_value list"
  je_status :: journal_status
  je_supersedesEntryId :: "js_string option"

record JournalRecordInput =
  ji_id :: js_string
  ji_scope :: js_value
  ji_lines :: "JournalLine list"
  ji_evidence :: "js_value list"
  ji_asOf :: js_value

datatype journal_error =
    JE_INVALID_SCOPE | JE_INVALID_AMOUNT | JE_EMPTY_LINES | JE_UNBALANCED | JE_MISSING_EVIDENCE
  | JE_EVIDENCE_SCOPE_MISMATCH | JE_INVALID_ACCOUNT | JE_INVALID_ENTRY_ID | JE_INVALID_AS_OF
  | JE_FUTURE_EVIDENCE | JE_TypeError

datatype journal_action = ACT_POST | ACT_SUPERSEDE | ACT_REVOKE

record JournalReceiptContext =
  jc_entryId :: js_string
  jc_action :: journal_action
  jc_supersedesEntryId :: "js_string option"

type_synonym ('x, 'r) receipt_issuer = "JournalReceiptContext \<Rightarrow> 'x + 'r"

section \<open>Validation\<close>

definition isNonBlank :: "js_string \<Rightarrow> bool" where
  "isNonBlank s \<longleftrightarrow> 0 < length (js_trim s)"

definition validatedScope :: "js_value \<Rightarrow> journal_error + TenantScope" where
  "validatedScope input =
     (case validateTenantScope input of Inl _ \<Rightarrow> Inl JE_INVALID_SCOPE | Inr s \<Rightarrow> Inr s)"

definition referenceInstant :: "js_lib \<Rightarrow> js_value \<Rightarrow> journal_error + int" where
  "referenceInstant L asOf =
     (case (case asOf of J_str s \<Rightarrow> if isNonBlank s then lib_parse L s else None | _ \<Rightarrow> None) of
        None \<Rightarrow> Inl JE_INVALID_AS_OF
      | Some instant \<Rightarrow> Inr instant)"

fun lineTotals :: "JournalLine list \<Rightarrow> int \<Rightarrow> int \<Rightarrow> journal_error + int \<times> int" where
  "lineTotals [] debits credits = Inr (debits, credits)"
| "lineTotals (line # lines) debits credits =
     (if jl_amountCents line \<le> 0 then Inl JE_INVALID_AMOUNT
      else if \<not> isNonBlank (jl_accountCode line) then Inl JE_INVALID_ACCOUNT
      else if jl_side line = DEBIT then lineTotals lines (debits + jl_amountCents line) credits
      else lineTotals lines debits (credits + jl_amountCents line))"

text \<open>
  \<open>String(v)\<close>, and the part of a scope key made of a component of any value:
  \<open>`${v.length}:${v}`\<close>, \<open>None\<close> where reading \<open>length\<close> throws.
\<close>

fun to_js_string :: "js_lib \<Rightarrow> js_value \<Rightarrow> js_string" where
  "to_js_string L J_undefined = ''undefined''"
| "to_js_string L J_null = ''null''"
| "to_js_string L (J_bool b) = (if b then ''true'' else ''false'')"
| "to_js_string L (J_num NaN) = ''NaN''"
| "to_js_string L (J_num (Infinite b)) = (if b then ''Infinity'' else ''-Infinity'')"
| "to_js_string L (J_num (Fin r)) = json_number (lib_number L) (Fin r)"
| "to_js_string L (J_str s) = s"
| "to_js_string L (J_arr vs) =
     join (map (\<lambda>v. if v = J_undefined \<or> v = J_null then [] else to_js_string L v) vs)"
| "to_js_string L (J_obj fs) = ''[object Object]''"

fun key_part :: "js_lib \<Rightarrow> js_value \<Rightarrow> js_string option" where
  "key_part L J_undefined = None"
| "key_part L J_null = None"
| "key_part L (J_str s) = Some (dec_nat (length s) @ '':'' @ s)"
| "key_part L (J_arr vs) = Some (dec_nat (length vs) @ '':'' @ to_js_string L (J_arr vs))"
| "key_part L v = Some (to_js_string L (get_field v ''length'') @ '':'' @ to_js_string L v)"

definition value_scope_key :: "js_lib \<Rightarrow> js_value \<Rightarrow> js_string option" where
  "value_scope_key L v =
     (case get_field v ''companyId'' of
        J_str c \<Rightarrow>
          (case (key_part L (get_field v ''ruc''), key_part L (get_field v ''period'')) of
             (Some r, Some p) \<Rightarrow>
               (let companyId = js_trim c
                in Some (dec_nat (length companyId) @ '':'' @ companyId @ '';'' @ r @ '';'' @ p))
           | _ \<Rightarrow> None)
      | _ \<Rightarrow> None)"

definition capturedAt :: "js_lib \<Rightarrow> js_value \<Rightarrow> int option" where
  "capturedAt L artifact =
     lib_parse L (to_js_string L (get_field (get_field artifact ''provenance'') ''capturedAt''))"

definition check_artifact :: "js_lib \<Rightarrow> TenantScope \<Rightarrow> int \<Rightarrow> js_value \<Rightarrow> journal_error option" where
  "check_artifact L scope asOf artifact =
     (case get_field artifact ''items'' of
        J_arr (_ # _) \<Rightarrow>
          (let artifactScope = get_field artifact ''scope''
           in if \<not> isRecord artifactScope \<or>
                 get_field artifactScope ''brand'' \<noteq> J_str TENANT_SCOPE_BRAND
              then Some JE_EVIDENCE_SCOPE_MISMATCH
              else (case value_scope_key L artifactScope of
                      None \<Rightarrow> Some JE_TypeError
                    | Some key \<Rightarrow>
                        if key \<noteq> tenantScopeKey scope then Some JE_EVIDENCE_SCOPE_MISMATCH
                        else (case capturedAt L artifact of
                                None \<Rightarrow> Some JE_FUTURE_EVIDENCE
                              | Some t \<Rightarrow> if asOf < t then Some JE_FUTURE_EVIDENCE else None)))
      | _ \<Rightarrow> Some JE_MISSING_EVIDENCE)"

definition assertEvidenceBound ::
  "js_lib \<Rightarrow> js_value list \<Rightarrow> TenantScope \<Rightarrow> int \<Rightarrow> journal_error option" where
  "assertEvidenceBound L evidence scope asOf =
     (if evidence = [] then Some JE_MISSING_EVIDENCE
      else first_error (check_artifact L scope asOf) evidence)"

definition validateRecord :: "js_lib \<Rightarrow> JournalRecordInput \<Rightarrow> journal_error + TenantScope" where
  "validateRecord L input =
     (if \<not> isNonBlank (ji_id input) then Inl JE_INVALID_ENTRY_ID
      else (case referenceInstant L (ji_asOf input) of Inl e \<Rightarrow> Inl e | Inr asOf \<Rightarrow>
           (if ji_lines input = [] then Inl JE_EMPTY_LINES
            else (case validatedScope (ji_scope input) of Inl e \<Rightarrow> Inl e | Inr scope \<Rightarrow>
                 (case lineTotals (ji_lines input) 0 0 of Inl e \<Rightarrow> Inl e | Inr (debits, credits) \<Rightarrow>
                    (if debits \<noteq> credits then Inl JE_UNBALANCED
                     else (case assertEvidenceBound L (ji_evidence input) scope asOf of
                             Some e \<Rightarrow> Inl e
                           | None \<Rightarrow> Inr scope)))))))"

section \<open>Operations\<close>

definition record_entry :: "js_lib \<Rightarrow> JournalRecordInput \<Rightarrow> journal_error + JournalEntry" where
  "record_entry L input =
     (case validateRecord L input of
        Inl e \<Rightarrow> Inl e
      | Inr scope \<Rightarrow>
          Inr \<lparr>je_id = ji_id input, je_scope = scope, je_lines = ji_lines input,
               je_evidence = ji_evidence input, je_status = RECORDED,
               je_supersedesEntryId = None\<rparr>)"

definition post :: "JournalEntry \<Rightarrow> ('x, 'r) receipt_issuer \<Rightarrow> 'x + JournalEntry \<times> 'r" where
  "post entry issue =
     (case issue \<lparr>jc_entryId = je_id entry, jc_action = ACT_POST, jc_supersedesEntryId = None\<rparr> of
        Inl x \<Rightarrow> Inl x
      | Inr receipt \<Rightarrow> Inr (entry\<lparr>je_status := POSTED\<rparr>, receipt))"

definition supersede ::
  "js_lib \<Rightarrow> JournalEntry \<Rightarrow> JournalRecordInput \<Rightarrow> ('x, 'r) receipt_issuer \<Rightarrow>
     (journal_error + 'x) + JournalEntry \<times> JournalEntry \<times> 'r" where
  "supersede L prior input issue =
     (case validateRecord L input of
        Inl e \<Rightarrow> Inl (Inl e)
      | Inr scope \<Rightarrow>
          (case issue \<lparr>jc_entryId = ji_id input, jc_action = ACT_SUPERSEDE,
                       jc_supersedesEntryId = Some (je_id prior)\<rparr> of
             Inl x \<Rightarrow> Inl (Inr x)
           | Inr receipt \<Rightarrow>
               Inr (prior,
                    \<lparr>je_id = ji_id input, je_scope = scope, je_lines = ji_lines input,
                     je_evidence = ji_evidence input, je_status = POSTED,
                     je_supersedesEntryId = Some (je_id prior)\<rparr>,
                    receipt)))"

fun flip :: "journal_side \<Rightarrow> journal_side" where
  "flip DEBIT = CREDIT"
| "flip CREDIT = DEBIT"

definition revoke :: "JournalEntry \<Rightarrow> ('x, 'r) receipt_issuer \<Rightarrow> 'x + JournalEntry \<times> 'r" where
  "revoke prior issue =
     (let i = ''revoke:'' @ je_id prior;
          lines = map (\<lambda>line. line\<lparr>jl_side := flip (jl_side line)\<rparr>) (je_lines prior)
      in (case issue \<lparr>jc_entryId = i, jc_action = ACT_REVOKE,
                      jc_supersedesEntryId = Some (je_id prior)\<rparr> of
            Inl x \<Rightarrow> Inl x
          | Inr receipt \<Rightarrow>
              Inr (\<lparr>je_id = i, je_scope = je_scope prior, je_lines = lines,
                    je_evidence = je_evidence prior, je_status = REVOKED,
                    je_supersedesEntryId = Some (je_id prior)\<rparr>, receipt)))"

lemmas journal_defs = isNonBlank_def validatedScope_def referenceInstant_def value_scope_key_def
  capturedAt_def check_artifact_def assertEvidenceBound_def validateRecord_def record_entry_def
  post_def supersede_def revoke_def

declare journal_defs [code_defs]

section \<open>Lemmas\<close>

definition side_total :: "journal_side \<Rightarrow> JournalLine list \<Rightarrow> int" where
  "side_total s lines = (\<Sum>line \<leftarrow> lines. if jl_side line = s then jl_amountCents line else 0)"

definition lines_ok :: "JournalLine list \<Rightarrow> bool" where
  "lines_ok lines \<longleftrightarrow>
     lines \<noteq> [] \<and> list_all (\<lambda>l. 0 < jl_amountCents l \<and> isNonBlank (jl_accountCode l)) lines \<and>
     side_total DEBIT lines = side_total CREDIT lines"

lemma side_cases: "s \<noteq> DEBIT \<longleftrightarrow> s = CREDIT"
  by (cases s) simp_all

lemma lineTotals_iff:
  "lineTotals lines d c = Inr (d', c') \<longleftrightarrow>
     list_all (\<lambda>l. 0 < jl_amountCents l \<and> isNonBlank (jl_accountCode l)) lines \<and>
     d' = d + side_total DEBIT lines \<and> c' = c + side_total CREDIT lines"
  by (induction lines arbitrary: d c) (auto simp: side_total_def side_cases)

definition artifact_bound :: "js_lib \<Rightarrow> TenantScope \<Rightarrow> int \<Rightarrow> js_value \<Rightarrow> bool" where
  "artifact_bound L scope asOf a \<longleftrightarrow>
     (\<exists>v vs. get_field a ''items'' = J_arr (v # vs)) \<and> isRecord (get_field a ''scope'') \<and>
     get_field (get_field a ''scope'') ''brand'' = J_str TENANT_SCOPE_BRAND \<and>
     value_scope_key L (get_field a ''scope'') = Some (tenantScopeKey scope) \<and>
     (\<exists>t. capturedAt L a = Some t \<and> t \<le> asOf)"

lemma check_artifact_iff: "check_artifact L scope asOf a = None \<longleftrightarrow> artifact_bound L scope asOf a"
  by (auto simp: check_artifact_def artifact_bound_def Let_def
      split: js_value.splits list.splits option.splits)

lemma evidence_bound_iff:
  "assertEvidenceBound L evidence scope asOf = None \<longleftrightarrow>
     evidence \<noteq> [] \<and> list_all (artifact_bound L scope asOf) evidence"
  by (simp add: assertEvidenceBound_def first_error_None_iff check_artifact_iff list_all_iff)

lemma validateRecord_iff:
  "validateRecord L input = Inr scope \<longleftrightarrow>
     isNonBlank (ji_id input) \<and>
     (\<exists>asOf. referenceInstant L (ji_asOf input) = Inr asOf \<and> lines_ok (ji_lines input) \<and>
        validateTenantScope (ji_scope input) = Inr scope \<and>
        ji_evidence input \<noteq> [] \<and> list_all (artifact_bound L scope asOf) (ji_evidence input))"
proof -
  have "validatedScope (ji_scope input) = Inr s \<longleftrightarrow> validateTenantScope (ji_scope input) = Inr s" for s
    by (simp add: validatedScope_def split: sum.splits)
  moreover have "lineTotals (ji_lines input) 0 0 = Inr (d, d) \<longleftrightarrow>
      list_all (\<lambda>l. 0 < jl_amountCents l \<and> isNonBlank (jl_accountCode l)) (ji_lines input) \<and>
      d = side_total DEBIT (ji_lines input) \<and> d = side_total CREDIT (ji_lines input)" for d
    by (simp add: lineTotals_iff)
  moreover have "validateRecord L input = Inr scope \<longleftrightarrow>
      isNonBlank (ji_id input) \<and> (\<exists>asOf. referenceInstant L (ji_asOf input) = Inr asOf \<and>
      ji_lines input \<noteq> [] \<and> validatedScope (ji_scope input) = Inr scope \<and>
      (\<exists>d. lineTotals (ji_lines input) 0 0 = Inr (d, d)) \<and>
      assertEvidenceBound L (ji_evidence input) scope asOf = None)"
    by (auto simp: validateRecord_def split: sum.splits option.splits if_splits)
  ultimately show ?thesis
    by (auto simp: lines_ok_def evidence_bound_iff)
qed

lemma record_entry_iff:
  "record_entry L input = Inr e \<longleftrightarrow>
     validateRecord L input = Inr (je_scope e) \<and> je_id e = ji_id input \<and>
     je_lines e = ji_lines input \<and> je_evidence e = ji_evidence input \<and>
     je_status e = RECORDED \<and> je_supersedesEntryId e = None"
  by (cases e) (auto simp: record_entry_def split: sum.splits)

definition account_balance :: "js_string \<Rightarrow> JournalLine list \<Rightarrow> int" where
  "account_balance a lines =
     (\<Sum>line \<leftarrow> filter (\<lambda>l. jl_accountCode l = a) lines.
        if jl_side line = DEBIT then jl_amountCents line else - jl_amountCents line)"

definition reversed :: "JournalLine list \<Rightarrow> JournalLine list" where
  "reversed lines = map (\<lambda>line. line\<lparr>jl_side := flip (jl_side line)\<rparr>) lines"

lemma account_balance_append: "account_balance a (xs @ ys) = account_balance a xs + account_balance a ys"
  by (simp add: account_balance_def)

lemma account_balance_reversed: "account_balance a (reversed lines) = - account_balance a lines"
proof (induction lines)
  case (Cons l ls)
  then show ?case by (cases "jl_side l") (auto simp: account_balance_def reversed_def)
qed (simp add: account_balance_def reversed_def)

lemma side_total_reversed: "side_total s (reversed lines) = side_total (flip s) lines"
proof (induction lines)
  case (Cons l ls)
  then show ?case by (cases "jl_side l"; cases s) (auto simp: side_total_def reversed_def)
qed (simp add: side_total_def reversed_def)

lemma lines_ok_reversed: "lines_ok (reversed lines) = lines_ok lines"
  by (auto simp: lines_ok_def side_total_reversed) (simp_all add: reversed_def list_all_iff)

section \<open>Properties\<close>

text \<open>
  C15: double entry. An entry is recorded exactly when it has an id, an ISO reference instant,
  at least one line, only positive amounts on named accounts, equal debits and credits, a valid
  scope, and evidence of which every artifact has items, belongs to that scope and was captured
  no later than the instant; it is then recorded as given.
\<close>

theorem recorded_entries_balance:
  "record_entry L input = Inr e \<longleftrightarrow>
     isNonBlank (ji_id input) \<and> validateTenantScope (ji_scope input) = Inr (je_scope e) \<and>
     ji_lines input \<noteq> [] \<and>
     (\<forall>l \<in> set (ji_lines input). 0 < jl_amountCents l \<and> isNonBlank (jl_accountCode l)) \<and>
     (\<Sum>l \<leftarrow> ji_lines input. if jl_side l = DEBIT then jl_amountCents l else 0) =
       (\<Sum>l \<leftarrow> ji_lines input. if jl_side l = CREDIT then jl_amountCents l else 0) \<and>
     ji_evidence input \<noteq> [] \<and>
     (\<exists>asOf. referenceInstant L (ji_asOf input) = Inr asOf \<and>
        (\<forall>a \<in> set (ji_evidence input). artifact_bound L (je_scope e) asOf a)) \<and>
     je_id e = ji_id input \<and> je_lines e = ji_lines input \<and> je_evidence e = ji_evidence input \<and>
     je_status e = RECORDED \<and> je_supersedesEntryId e = None"
  by (auto simp: record_entry_iff validateRecord_iff lines_ok_def side_total_def list_all_iff)

definition sample_artifact :: js_value where
  "sample_artifact =
     J_obj [(''items'', J_arr [sample_item ''1'']), (''scope'', scope_value sample_scope),
            (''provenance'', J_obj [(''capturedAt'', J_str ''2024'')])]"

definition sample_record :: JournalRecordInput where
  "sample_record =
     \<lparr>ji_id = ''e1'', ji_scope = scope_value sample_scope,
      ji_lines = [\<lparr>jl_accountCode = ''10'', jl_side = DEBIT, jl_amountCents = 118\<rparr>,
                  \<lparr>jl_accountCode = ''70'', jl_side = CREDIT, jl_amountCents = 100\<rparr>,
                  \<lparr>jl_accountCode = ''40'', jl_side = CREDIT, jl_amountCents = 18\<rparr>],
      ji_evidence = [sample_artifact], ji_asOf = J_str ''20240131''\<rparr>"

theorem recorded_entries_balance_witness:
  "\<exists>e. record_entry sample_lib sample_record = Inr e \<and> je_status e = RECORDED \<and>
     (\<Sum>l \<leftarrow> ji_lines sample_record. if jl_side l = DEBIT then jl_amountCents l else 0) =
     (\<Sum>l \<leftarrow> ji_lines sample_record. if jl_side l = CREDIT then jl_amountCents l else 0)"
proof -
  have "\<not> isl (record_entry sample_lib sample_record)" by code_simp
  then obtain e where e: "record_entry sample_lib sample_record = Inr e"
    by (cases "record_entry sample_lib sample_record") auto
  with recorded_entries_balance [of sample_lib sample_record e] show ?thesis by blast
qed

text \<open>
  revocation is a reversal. The entry \<open>revoke\<close> returns cancels the prior one account by
  account, satisfies double entry whenever the prior one does, refers to it, and asks the
  issuer for a revocation receipt of exactly that reference; the prior entry stays as it is,
  and nothing is returned when the issuer refuses.
\<close>

theorem revocation_reverses_the_entry:
  assumes "revoke prior issue = Inr (e, receipt)"
  shows "(\<forall>a. account_balance a (je_lines prior @ je_lines e) = 0) \<and>
         (lines_ok (je_lines e) \<longleftrightarrow> lines_ok (je_lines prior)) \<and>
         je_scope e = je_scope prior \<and> je_supersedesEntryId e = Some (je_id prior) \<and>
         je_status e = REVOKED \<and>
         issue \<lparr>jc_entryId = je_id e, jc_action = ACT_REVOKE,
                jc_supersedesEntryId = Some (je_id prior)\<rparr> = Inr receipt"
proof -
  have e: "je_lines e = reversed (je_lines prior)"
    and "je_scope e = je_scope prior \<and> je_supersedesEntryId e = Some (je_id prior) \<and>
         je_status e = REVOKED \<and>
         issue \<lparr>jc_entryId = je_id e, jc_action = ACT_REVOKE,
                jc_supersedesEntryId = Some (je_id prior)\<rparr> = Inr receipt"
    using assms by (auto simp: revoke_def reversed_def Let_def split: sum.splits)
  then show ?thesis
    by (simp add: account_balance_append account_balance_reversed lines_ok_reversed)
qed

theorem revocation_reverses_the_entry_witness:
  "account_balance ''10''
     ([\<lparr>jl_accountCode = ''10'', jl_side = DEBIT, jl_amountCents = 5\<rparr>,
       \<lparr>jl_accountCode = ''40'', jl_side = CREDIT, jl_amountCents = 5\<rparr>] @
      [\<lparr>jl_accountCode = ''10'', jl_side = CREDIT, jl_amountCents = 5\<rparr>,
       \<lparr>jl_accountCode = ''40'', jl_side = DEBIT, jl_amountCents = 5\<rparr>]) = 0"
proof -
  let ?lines = "[\<lparr>jl_accountCode = ''10'', jl_side = DEBIT, jl_amountCents = 5\<rparr>,
       \<lparr>jl_accountCode = ''40'', jl_side = CREDIT, jl_amountCents = 5\<rparr>]"
  let ?e = "\<lparr>je_id = ''1'', je_scope = sample_scope, je_lines = ?lines, je_evidence = [],
    je_status = POSTED, je_supersedesEntryId = None\<rparr>"
  have "revoke ?e (\<lambda>c. Inr c :: unit + JournalReceiptContext) =
      Inr (\<lparr>je_id = ''revoke:1'', je_scope = sample_scope,
            je_lines = [\<lparr>jl_accountCode = ''10'', jl_side = CREDIT, jl_amountCents = 5\<rparr>,
              \<lparr>jl_accountCode = ''40'', jl_side = DEBIT, jl_amountCents = 5\<rparr>],
            je_evidence = [], je_status = REVOKED, je_supersedesEntryId = Some ''1''\<rparr>,
           \<lparr>jc_entryId = ''revoke:1'', jc_action = ACT_REVOKE, jc_supersedesEntryId = Some ''1''\<rparr>)"
    by (simp add: revoke_def Let_def)
  from revocation_reverses_the_entry [OF this] show ?thesis by simp
qed

end
