(* ===== verification/Candidates.thy ===== *)
theory Candidates
  imports Prelude "HOL-Library.Word"
begin

text \<open>
  \<^verbatim>\<open>candidates/types.ts\<close>, \<^verbatim>\<open>candidates/ruc.ts\<close>,
  \<^verbatim>\<open>candidates/materiality.ts\<close>, \<^verbatim>\<open>candidates/identity.ts\<close>,
  \<^verbatim>\<open>candidates/errors.ts\<close> and \<^verbatim>\<open>candidates/lifecycle.ts\<close>: the review
  protocol of an agent's proposal. SHA-256 is the argument \<open>sha256\<close> on bytes; the random id
  and the clock a transition reads are its arguments \<open>uuid\<close> and \<open>now\<close>.
\<close>

section \<open>Types\<close>

datatype candidate_status = Proposed | Inspected | Reviewing | Accepted | Corrected | Rejected

datatype materiality = R0 | R1 | R2 | R3

fun orderOf :: "materiality \<Rightarrow> nat" where
  "orderOf R0 = 0"
| "orderOf R1 = 1"
| "orderOf R2 = 2"
| "orderOf R3 = 3"

instantiation materiality :: linorder
begin

definition less_eq_materiality :: "materiality \<Rightarrow> materiality \<Rightarrow> bool" where
  "less_eq_materiality a b \<longleftrightarrow> orderOf a \<le> orderOf b"

definition less_materiality :: "materiality \<Rightarrow> materiality \<Rightarrow> bool" where
  "less_materiality a b \<longleftrightarrow> orderOf a < orderOf b"

instance
proof
  fix a b :: materiality
  show "a \<le> b \<Longrightarrow> b \<le> a \<Longrightarrow> a = b"
    by (cases a; cases b) (simp_all add: less_eq_materiality_def)
qed (auto simp: less_eq_materiality_def less_materiality_def)

end

datatype reversibility = Reversible | Partially_Reversible | Irreversible

record CandidateScope =
  cs_ruc :: js_string
  cs_period :: js_string

definition isValidRuc :: "js_string \<Rightarrow> bool" where
  "isValidRuc ruc \<longleftrightarrow> digits_exactly 11 ruc"

definition isValidPeriod :: "js_string \<Rightarrow> bool" where
  "isValidPeriod period \<longleftrightarrow> digits_exactly 6 period"

definition isValidScope :: "CandidateScope \<Rightarrow> bool" where
  "isValidScope scope \<longleftrightarrow> isValidRuc (cs_ruc scope) \<and> isValidPeriod (cs_period scope)"

datatype review_verdict = Verdict_Accept | Verdict_Reject

record CandidateReview =
  cr_id :: js_string
  cr_verdict :: review_verdict
  cr_reason :: "js_string option"
  cr_reviewer :: js_string
  cr_reviewedAt :: js_string

record CorrectionRecord =
  co_id :: js_string
  co_fromHash :: js_string
  co_toHash :: js_string
  co_reason :: js_string
  co_correctedAt :: js_string

record Candidate =
  ca_id :: js_string
  ca_subjectHash :: js_string
  ca_scope :: CandidateScope
  ca_materiality :: materiality
  ca_status :: candidate_status
  ca_reviews :: "CandidateReview list"
  ca_corrections :: "CorrectionRecord list"
  ca_createdAt :: js_string
  ca_version :: int

record MaterialityInput =
  mi_value :: int
  mi_reversibility :: reversibility
  mi_jurisdiction :: js_string

section \<open>The RUC checksum\<close>

definition RUC_WEIGHTS :: "int list" where
  "RUC_WEIGHTS = [5, 4, 3, 2, 7, 6, 5, 4, 3, 2]"

text \<open>\<open>Number.parseInt\<close> of one digit; the callers pass ten digits.\<close>

definition digit_at :: "js_string \<Rightarrow> nat \<Rightarrow> int" where
  "digit_at s i = (if i < length s then int (digit_val (s ! i)) else 0)"

definition weighted_sum :: "js_string \<Rightarrow> int" where
  "weighted_sum first10 = (\<Sum>i \<leftarrow> [0..<10]. digit_at first10 i * RUC_WEIGHTS ! i)"

definition expectedRucCheckDigit :: "js_string \<Rightarrow> int" where
  "expectedRucCheckDigit first10 =
     (let expected = 11 - weighted_sum first10 mod 11
      in if expected = 10 then 0 else if expected = 11 then 1 else expected)"

definition isValidRucChecksummed :: "js_string \<Rightarrow> bool" where
  "isValidRucChecksummed ruc \<longleftrightarrow>
     digits_exactly 11 ruc \<and> expectedRucCheckDigit (take 10 ruc) = digit_at ruc 10"

section \<open>Materiality\<close>

definition HIGH_VALUE_CENTS :: int where "HIGH_VALUE_CENTS = 10000000"

definition MEDIUM_VALUE_CENTS :: int where "MEDIUM_VALUE_CENTS = 1000000"

fun escalateMateriality :: "materiality \<Rightarrow> materiality" where
  "escalateMateriality R0 = R1"
| "escalateMateriality R1 = R2"
| "escalateMateriality R2 = R3"
| "escalateMateriality R3 = R3"

definition deriveMateriality :: "MaterialityInput \<Rightarrow> materiality" where
  "deriveMateriality input =
     (let tier =
        (if mi_value input = 0 \<and> mi_reversibility input = Reversible then R0
         else if mi_reversibility input = Irreversible then R3
         else if mi_reversibility input = Partially_Reversible then R2
         else if HIGH_VALUE_CENTS \<le> mi_value input then R3
         else if MEDIUM_VALUE_CENTS \<le> mi_value input then R2
         else R1)
      in if mi_jurisdiction input \<noteq> ''PE'' then escalateMateriality tier else tier)"

section \<open>Identity\<close>

datatype subject = Bytes "8 word list" | Text js_string

text \<open>The UTF-8 bytes of a code unit below 256: one below 128, two above.\<close>

definition utf8_unit :: "char \<Rightarrow> 8 word list" where
  "utf8_unit c =
     (let w = word_of_nat (code_unit c) :: 8 word
      in if code_unit c < 128 then [w]
         else [0xC0 + drop_bit 6 w, 0x80 + take_bit 6 w])"

fun subject_bytes :: "subject \<Rightarrow> 8 word list" where
  "subject_bytes (Bytes b) = b"
| "subject_bytes (Text s) = concat (map utf8_unit s)"

type_synonym byte_hash = "8 word list \<Rightarrow> js_string"

definition computeSubjectHash :: "byte_hash \<Rightarrow> subject \<Rightarrow> js_string" where
  "computeSubjectHash sha256 subject = sha256 (subject_bytes subject)"

definition candidateIdentity :: "js_string \<Rightarrow> CandidateScope \<Rightarrow> js_string" where
  "candidateIdentity subjectHash scope =
     subjectHash @ '':'' @ cs_ruc scope @ '':'' @ cs_period scope"

section \<open>Lifecycle\<close>

datatype candidate_error =
  INVALID_TRANSITION | SUBJECT_MUTATED | CORRECTION_BUDGET_EXCEEDED | INVALID_SCOPE | MISSING_REASON

record ProposeInput =
  pi_subject :: subject
  pi_scope :: CandidateScope
  pi_materialityInput :: MaterialityInput

record ReviewDecision =
  rd_reviewer :: js_string
  rd_reason :: "js_string option"

record ReviewRejection =
  rr_reviewer :: js_string
  rr_reason :: js_string

record CorrectionInput =
  ci_subject :: subject
  ci_reason :: js_string

definition requireStatus ::
    "Candidate \<Rightarrow> candidate_status list \<Rightarrow> candidate_error option" where
  "requireStatus candidate allowed =
     (if ca_status candidate \<notin> set allowed then Some INVALID_TRANSITION else None)"

definition withStatus :: "Candidate \<Rightarrow> candidate_status \<Rightarrow> Candidate" where
  "withStatus candidate status =
     candidate\<lparr>ca_status := status, ca_version := ca_version candidate + 1\<rparr>"

definition propose :: "byte_hash \<Rightarrow> js_string \<Rightarrow> ProposeInput \<Rightarrow> candidate_error + Candidate" where
  "propose sha256 now input =
     (if \<not> isValidScope (pi_scope input) then Inl INVALID_SCOPE
      else
        let subjectHash = computeSubjectHash sha256 (pi_subject input)
        in Inr \<lparr>ca_id = candidateIdentity subjectHash (pi_scope input),
                ca_subjectHash = subjectHash,
                ca_scope = pi_scope input,
                ca_materiality = deriveMateriality (pi_materialityInput input),
                ca_status = Proposed, ca_reviews = [], ca_corrections = [],
                ca_createdAt = now, ca_version = 1\<rparr>)"

definition inspect :: "byte_hash \<Rightarrow> Candidate \<Rightarrow> subject \<Rightarrow> candidate_error + Candidate" where
  "inspect sha256 candidate subject =
     (case requireStatus candidate [Proposed, Corrected] of
        Some e \<Rightarrow> Inl e
      | None \<Rightarrow>
          if computeSubjectHash sha256 subject \<noteq> ca_subjectHash candidate then Inl SUBJECT_MUTATED
          else Inr (withStatus candidate Inspected))"

definition submitForReview :: "Candidate \<Rightarrow> candidate_error + Candidate" where
  "submitForReview candidate =
     (case requireStatus candidate [Inspected] of
        Some e \<Rightarrow> Inl e
      | None \<Rightarrow> Inr (withStatus candidate Reviewing))"

definition accept ::
    "js_string \<Rightarrow> js_string \<Rightarrow> Candidate \<Rightarrow> ReviewDecision \<Rightarrow> candidate_error + Candidate" where
  "accept uuid now candidate review =
     (case requireStatus candidate [Reviewing] of
        Some e \<Rightarrow> Inl e
      | None \<Rightarrow>
          Inr ((withStatus candidate Accepted)
                 \<lparr>ca_reviews := ca_reviews candidate @
                    [\<lparr>cr_id = uuid, cr_verdict = Verdict_Accept, cr_reason = rd_reason review,
                      cr_reviewer = rd_reviewer review, cr_reviewedAt = now\<rparr>]\<rparr>))"

definition reject ::
    "js_string \<Rightarrow> js_string \<Rightarrow> Candidate \<Rightarrow> ReviewRejection \<Rightarrow> candidate_error + Candidate" where
  "reject uuid now candidate review =
     (case requireStatus candidate [Reviewing] of
        Some e \<Rightarrow> Inl e
      | None \<Rightarrow>
          if js_trim (rr_reason review) = [] then Inl MISSING_REASON
          else
            Inr ((withStatus candidate Rejected)
                   \<lparr>ca_reviews := ca_reviews candidate @
                      [\<lparr>cr_id = uuid, cr_verdict = Verdict_Reject, cr_reason = Some (rr_reason review),
                        cr_reviewer = rr_reviewer review, cr_reviewedAt = now\<rparr>]\<rparr>))"

definition correct_candidate ::
    "byte_hash \<Rightarrow> js_string \<Rightarrow> js_string \<Rightarrow> Candidate \<Rightarrow> CorrectionInput \<Rightarrow> candidate_error + Candidate"
  where
  "correct_candidate sha256 uuid now candidate input =
     (case requireStatus candidate [Reviewing] of
        Some e \<Rightarrow> Inl e
      | None \<Rightarrow>
          if 0 < length (ca_corrections candidate) then Inl CORRECTION_BUDGET_EXCEEDED
          else
            let toHash = computeSubjectHash sha256 (ci_subject input)
            in Inr (candidate\<lparr>ca_id := candidateIdentity toHash (ca_scope candidate),
                              ca_subjectHash := toHash,
                              ca_status := Corrected,
                              ca_version := ca_version candidate + 1,
                              ca_corrections := ca_corrections candidate @
                                [\<lparr>co_id = uuid, co_fromHash = ca_subjectHash candidate,
                                  co_toHash = toHash, co_reason = ci_reason input,
                                  co_correctedAt = now\<rparr>]\<rparr>))"

text \<open>A call of the lifecycle with what it reads from the environment, and a run of calls that stops
  at the first error.\<close>

datatype candidate_call =
  Call_Inspect subject
| Call_Submit
| Call_Accept js_string js_string ReviewDecision
| Call_Reject js_string js_string ReviewRejection
| Call_Correct js_string js_string CorrectionInput

fun candidate_op :: "byte_hash \<Rightarrow> candidate_call \<Rightarrow> Candidate \<Rightarrow> candidate_error + Candidate" where
  "candidate_op sha256 (Call_Inspect s) c = inspect sha256 c s"
| "candidate_op sha256 Call_Submit c = submitForReview c"
| "candidate_op sha256 (Call_Accept uuid now r) c = accept uuid now c r"
| "candidate_op sha256 (Call_Reject uuid now r) c = reject uuid now c r"
| "candidate_op sha256 (Call_Correct uuid now i) c = correct_candidate sha256 uuid now c i"

fun candidate_run ::
    "byte_hash \<Rightarrow> candidate_call list \<Rightarrow> Candidate \<Rightarrow> candidate_error + Candidate" where
  "candidate_run sha256 [] c = Inr c"
| "candidate_run sha256 (call # calls) c =
     (case candidate_op sha256 call c of Inl e \<Rightarrow> Inl e | Inr c' \<Rightarrow> candidate_run sha256 calls c')"

lemmas candidate_defs = isValidRuc_def isValidPeriod_def isValidScope_def RUC_WEIGHTS_def
  digit_at_def weighted_sum_def expectedRucCheckDigit_def isValidRucChecksummed_def
  HIGH_VALUE_CENTS_def MEDIUM_VALUE_CENTS_def deriveMateriality_def computeSubjectHash_def
  candidateIdentity_def requireStatus_def withStatus_def propose_def inspect_def
  submitForReview_def accept_def reject_def correct_candidate_def

declare candidate_defs [code_defs]

fun_cases candidate_run_ConsE: "candidate_run sha256 (call # calls) c = Inr c'"

section \<open>Checksum errors\<close>

definition check_of :: "int \<Rightarrow> int" where
  "check_of r = (if r = 1 then 0 else if r = 0 then 1 else 11 - r)"

lemma expected_check: "expectedRucCheckDigit s = check_of (weighted_sum s mod 11)"
  unfolding expectedRucCheckDigit_def check_of_def Let_def by presburger

lemma check_of_collision:
  assumes "r \<in> {0..10}" and "t \<in> {0..10}" and "r \<noteq> t"
  shows "check_of r = check_of t \<longleftrightarrow> {r, t} = {0, 10}"
    and "check_of r = check_of t \<Longrightarrow> check_of r = 1"
  using assms by (auto simp: check_of_def doubleton_eq_iff split: if_splits)

lemma weighted_sum_set: "weighted_sum s = (\<Sum>i<10. digit_at s i * RUC_WEIGHTS ! i)"
  unfolding weighted_sum_def by (simp add: interv_sum_list_conv_sum_set_nat atLeast0LessThan)

lemma digit_at_take: "i < 10 \<Longrightarrow> digit_at (take 10 s) i = digit_at s i"
  by (simp add: digit_at_def)

lemma digit_at_bounds: "digits_exactly 11 s \<Longrightarrow> 0 \<le> digit_at s i \<and> digit_at s i \<le> 9"
  using digit_val_le [of "s ! i"] digits_exactly_nth [of 11 s i]
  by (auto simp: digit_at_def digits_exactly_def)

lemma digit_at_eq_iff:
  assumes "digits_exactly 11 s" and "digits_exactly 11 s'" and "i < 11"
  shows "digit_at s i = digit_at s' i \<longleftrightarrow> s ! i = s' ! i"
  using assms digit_val_inj [of "s ! i" "s' ! i"]
  by (simp add: digit_at_def digits_exactly_length digits_exactly_nth)

lemma no_multiple_of_11:
  assumes "x \<noteq> 0" and "\<bar>x\<bar> \<le> 9" and "w \<in> {-5, 1, 2, 3, 4, 5, 6, 7 :: int}"
  shows "\<not> 11 dvd x * w"
  using assms by (elim insertE emptyE; simp; presburger)

lemma weight_in: "i < 10 \<Longrightarrow> RUC_WEIGHTS ! i \<in> {-5, 1, 2, 3, 4, 5, 6, 7}"
proof -
  assume "i < 10"
  then have "RUC_WEIGHTS ! i \<in> set RUC_WEIGHTS"
    by (intro nth_mem) (simp add: RUC_WEIGHTS_def)
  then show ?thesis by (auto simp: RUC_WEIGHTS_def)
qed

lemma weight_step: "i < 9 \<Longrightarrow> RUC_WEIGHTS ! i - RUC_WEIGHTS ! Suc i \<in> {-5, 1, 2, 3, 4, 5, 6, 7}"
proof -
  have "list_all (\<lambda>i. RUC_WEIGHTS ! i - RUC_WEIGHTS ! Suc i \<in> {-5, 1, 2, 3, 4, 5, 6, 7}) [0..<9]"
    by code_simp
  then show "i < 9 \<Longrightarrow> ?thesis" by (simp only: list_all_iff set_upt atLeastLessThan_iff) simp
qed

text \<open>The residue decides: a change by \<open>x * w\<close> is seen unless the residues are 0 and 10.\<close>

lemma residue_error:
  assumes "isValidRucChecksummed s" and "digits_exactly 11 s'" and "s' ! 10 = s ! 10"
    and "weighted_sum (take 10 s') - weighted_sum (take 10 s) = x * w"
    and "x \<noteq> 0" and "\<bar>x\<bar> \<le> 9" and "w \<in> {-5, 1, 2, 3, 4, 5, 6, 7}"
  shows "isValidRucChecksummed s' \<longleftrightarrow>
    s ! 10 = CHR ''1'' \<and>
    {weighted_sum (take 10 s) mod 11, weighted_sum (take 10 s') mod 11} = {0, 10}"
proof -
  let ?r = "weighted_sum (take 10 s) mod 11" and ?t = "weighted_sum (take 10 s') mod 11"
  have s: "digits_exactly 11 s" and c: "check_of ?r = digit_at s 10"
    using assms(1) by (simp_all add: isValidRucChecksummed_def expected_check)
  have d: "digit_at s' 10 = digit_at s 10"
    using assms(2,3) s by (simp add: digit_at_eq_iff)
  have "is_digit (s ! 10)" and "is_digit CHR ''1''" and "digit_val CHR ''1'' = 1"
    using digits_exactly_nth [OF s, of 10] by (simp, code_simp, code_simp)
  with s digit_val_inj have one: "digit_at s 10 = 1 \<longleftrightarrow> s ! 10 = CHR ''1''"
    unfolding digit_at_def by (metis digits_exactly_length of_nat_1 of_nat_eq_iff lessI numeral_One
      eval_nat_numeral(3) semiring_norm(26) semiring_norm(27))
  have residue: "x mod 11 \<in> {0..10}" for x :: int
    using pos_mod_bound [of 11 x] pos_mod_sign [of 11 x] by simp
  have "\<not> 11 dvd weighted_sum (take 10 s') - weighted_sum (take 10 s)"
    using no_multiple_of_11 [OF assms(5,6,7)] assms(4) by simp
  then have "?r \<noteq> ?t" by (metis mod_eq_dvd_iff)
  then have col: "check_of ?r = check_of ?t \<longleftrightarrow> {?r, ?t} = {0, 10}"
    and eq1: "check_of ?r = check_of ?t \<Longrightarrow> check_of ?r = 1"
    using check_of_collision [OF residue residue] by blast+
  have "isValidRucChecksummed s' \<longleftrightarrow> check_of ?t = check_of ?r"
    using assms(2) c d by (simp add: isValidRucChecksummed_def expected_check)
  also have "\<dots> \<longleftrightarrow> digit_at s 10 = 1 \<and> {?r, ?t} = {0, 10}"
    using col eq1 c by metis
  finally show ?thesis using one by simp
qed

definition one_digit_off :: "nat \<Rightarrow> js_string \<Rightarrow> js_string \<Rightarrow> bool" where
  "one_digit_off i s s' \<longleftrightarrow> (\<exists>c. c \<noteq> s ! i \<and> s' = s[i := c])"

definition swapped_at :: "nat \<Rightarrow> js_string \<Rightarrow> js_string \<Rightarrow> bool" where
  "swapped_at i s s' \<longleftrightarrow> s ! i \<noteq> s ! Suc i \<and> s' = s[i := s ! Suc i, Suc i := s ! i]"

lemma sum_one_off:
  assumes "digits_exactly 11 s" and "i < 10"
  shows "weighted_sum (take 10 (s[i := c])) - weighted_sum (take 10 s) =
    (int (digit_val c) - digit_at s i) * RUC_WEIGHTS ! i"
proof -
  have "weighted_sum (take 10 (s[i := c])) - weighted_sum (take 10 s) =
      (\<Sum>j<10. (digit_at (s[i := c]) j - digit_at s j) * RUC_WEIGHTS ! j)"
    by (simp add: weighted_sum_set digit_at_take sum_subtractf [symmetric] left_diff_distrib)
  also have "\<dots> = (\<Sum>j<10. if j = i then (int (digit_val c) - digit_at s i) * RUC_WEIGHTS ! i else 0)"
    using assms by (intro sum.cong) (auto simp: digit_at_def digits_exactly_length nth_list_update)
  also have "\<dots> = (int (digit_val c) - digit_at s i) * RUC_WEIGHTS ! i"
    using assms(2) by simp
  finally show ?thesis .
qed

lemma sum_swapped:
  assumes "digits_exactly 11 s" and "i < 9"
  shows "weighted_sum (take 10 (s[i := s ! Suc i, Suc i := s ! i])) - weighted_sum (take 10 s) =
    (digit_at s (Suc i) - digit_at s i) * (RUC_WEIGHTS ! i - RUC_WEIGHTS ! Suc i)"
proof -
  let ?t = "s[i := s ! Suc i]"
  have t: "digits_exactly 11 ?t"
    using assms by (simp add: digits_exactly_def list_all_length nth_list_update)
  have "digit_at ?t (Suc i) = digit_at s (Suc i)"
    using assms by (simp add: digit_at_def)
  with sum_one_off [OF assms(1), of i "s ! Suc i"] sum_one_off [OF t, of "Suc i" "s ! i"] assms
  show ?thesis
    by (simp add: digit_at_def digits_exactly_length algebra_simps)
qed

definition blind_spot :: "js_string \<Rightarrow> js_string \<Rightarrow> bool" where
  "blind_spot s s' \<longleftrightarrow>
     s ! 10 = CHR ''1'' \<and>
     {weighted_sum (take 10 s) mod 11, weighted_sum (take 10 s') mod 11} = {0, 10}"

lemma digit_difference:
  assumes "digits_exactly 11 a" and "digits_exactly 11 b"
  shows "\<bar>digit_at a j - digit_at b k\<bar> \<le> 9"
  using digit_at_bounds [OF assms(1), of j] digit_at_bounds [OF assms(2), of k] by linarith

lemma wrong_digit:
  assumes "isValidRucChecksummed s" and "digits_exactly 11 s'" and "i < 10" and "one_digit_off i s s'"
  shows "isValidRucChecksummed s' \<longleftrightarrow> blind_spot s s'"
proof -
  have s: "digits_exactly 11 s" using assms(1) by (simp add: isValidRucChecksummed_def)
  obtain c where c: "c \<noteq> s ! i" "s' = s[i := c]" using assms(4) by (auto simp: one_digit_off_def)
  have nth: "s' ! i = c" "s' ! 10 = s ! 10"
    using c s assms(3) by (simp_all add: digits_exactly_length)
  have d: "int (digit_val c) = digit_at s' i"
    using nth assms(2,3) by (simp add: digit_at_def digits_exactly_length)
  have "digit_at s' i - digit_at s i \<noteq> 0"
    using digit_at_eq_iff [OF assms(2) s, of i] c(1) nth(1) assms(3) by simp
  moreover have "weighted_sum (take 10 s') - weighted_sum (take 10 s) =
      (digit_at s' i - digit_at s i) * RUC_WEIGHTS ! i"
    using sum_one_off [OF s assms(3), of c] d c(2) by simp
  ultimately show ?thesis
    unfolding blind_spot_def
    using residue_error [OF assms(1,2) nth(2) _ _ digit_difference [OF assms(2) s] weight_in [OF assms(3)]]
    by blast
qed

lemma swapped_digits:
  assumes "isValidRucChecksummed s" and "digits_exactly 11 s'" and "i < 9" and "swapped_at i s s'"
  shows "isValidRucChecksummed s' \<longleftrightarrow> blind_spot s s'"
proof -
  have s: "digits_exactly 11 s" using assms(1) by (simp add: isValidRucChecksummed_def)
  have "int (digit_val (s ! Suc i)) \<noteq> int (digit_val (s ! i))"
    using digit_val_inj [of "s ! Suc i" "s ! i"] digits_exactly_nth [OF s] assms(3,4)
    by (auto simp: swapped_at_def)
  then have "digit_at s (Suc i) - digit_at s i \<noteq> 0"
    using s assms(3) by (simp add: digit_at_def digits_exactly_length)
  moreover have "s' ! 10 = s ! 10"
    using assms(3,4) by (simp add: swapped_at_def)
  moreover have "weighted_sum (take 10 s') - weighted_sum (take 10 s) =
      (digit_at s (Suc i) - digit_at s i) * (RUC_WEIGHTS ! i - RUC_WEIGHTS ! Suc i)"
    using sum_swapped [OF s assms(3)] assms(4) by (simp add: swapped_at_def)
  ultimately show ?thesis
    unfolding blind_spot_def
    using residue_error [OF assms(1,2) _ _ _ digit_difference [OF s s] weight_step [OF assms(3)]]
    by blast
qed

lemma wrong_check_digit:
  assumes "isValidRucChecksummed s" and "digits_exactly 11 s'" and "one_digit_off 10 s s'"
  shows "\<not> isValidRucChecksummed s'"
proof -
  have s: "digits_exactly 11 s" using assms(1) by (simp add: isValidRucChecksummed_def)
  obtain c where c: "c \<noteq> s ! 10" "s' = s[10 := c]" using assms(3) by (auto simp: one_digit_off_def)
  then have "digit_at s' 10 \<noteq> digit_at s 10"
    using digit_at_eq_iff [OF assms(2) s, of 10] s by (simp add: digits_exactly_length)
  with c(2) assms(1) show ?thesis by (simp add: isValidRucChecksummed_def)
qed

text \<open>
  C21: The RUC checksum detects every wrong digit and every swap of two neighbouring digits of the
  first ten, with one exact exception: the modulus has eleven residues and the check digit ten
  values, residues 0 and 10 share the digit 1, so a wrong RUC passes precisely when its check digit
  is 1 and the two residues are 0 and 10. A wrong check digit is always detected.
\<close>

theorem ruc_checksum_detects_errors:
  assumes "isValidRucChecksummed s" and "digits_exactly 11 s'"
    and "i < 10 \<and> one_digit_off i s s' \<or> i < 9 \<and> swapped_at i s s' \<or> i = 10 \<and> one_digit_off i s s'"
  shows "isValidRucChecksummed s' \<longleftrightarrow> i \<noteq> 10 \<and> blind_spot s s'"
  using assms(3) wrong_digit [OF assms(1,2), of i] swapped_digits [OF assms(1,2), of i]
    wrong_check_digit [OF assms(1,2)] by auto

theorem ruc_checksum_detects_errors_witness:
  "(isValidRucChecksummed ''20116317061'' \<longleftrightarrow> (3::nat) \<noteq> 10 \<and> blind_spot ''20176317061'' ''20116317061'')
   \<and> isValidRucChecksummed ''20116317061'' \<and> isValidRucChecksummed ''20176317061''"
proof -
  have a: "isValidRucChecksummed ''20176317061''" and b: "digits_exactly 11 ''20116317061''"
    and c: "isValidRucChecksummed ''20116317061''"
    by code_simp+
  have "one_digit_off 3 ''20176317061'' ''20116317061''"
    unfolding one_digit_off_def by (rule exI [of _ "CHR ''1''"]) simp
  then show ?thesis using ruc_checksum_detects_errors [OF a b, of 3] c a by simp
qed

section \<open>Materiality is fail-closed\<close>

text \<open>
  For amounts that are not negative the tier grows with the amount; a jurisdiction without a
  country pack never lowers it; nothing but a zero, reversible, Peruvian action is R0 and every
  irreversible action is R3. The reversibility itself is not monotone: a reversible action of
  S/ 100,000 or more is R3 while the same amount partially reversible is only R2.
\<close>

theorem materiality_is_fail_closed:
  assumes "0 \<le> v" and "v \<le> w"
  shows "deriveMateriality \<lparr>mi_value = v, mi_reversibility = r, mi_jurisdiction = j\<rparr>
           \<le> deriveMateriality \<lparr>mi_value = w, mi_reversibility = r, mi_jurisdiction = j\<rparr> \<and>
    deriveMateriality \<lparr>mi_value = v, mi_reversibility = r, mi_jurisdiction = ''PE''\<rparr>
           \<le> deriveMateriality \<lparr>mi_value = v, mi_reversibility = r, mi_jurisdiction = j\<rparr> \<and>
    (deriveMateriality \<lparr>mi_value = v, mi_reversibility = r, mi_jurisdiction = j\<rparr> = R0 \<longleftrightarrow>
           v = 0 \<and> r = Reversible \<and> j = ''PE'') \<and>
    deriveMateriality \<lparr>mi_value = v, mi_reversibility = Irreversible, mi_jurisdiction = j\<rparr> = R3 \<and>
    (deriveMateriality \<lparr>mi_value = v, mi_reversibility = Reversible, mi_jurisdiction = j\<rparr>
           \<le> deriveMateriality \<lparr>mi_value = v, mi_reversibility = Partially_Reversible, mi_jurisdiction = j\<rparr>
       \<longleftrightarrow> v < 10000000 \<or> j \<noteq> ''PE'')"
  using assms
  by (cases r; cases "j = ''PE''")
    (auto simp: deriveMateriality_def HIGH_VALUE_CENTS_def MEDIUM_VALUE_CENTS_def less_eq_materiality_def)

theorem materiality_is_fail_closed_witness:
  "deriveMateriality \<lparr>mi_value = 5, mi_reversibility = Reversible, mi_jurisdiction = ''PE''\<rparr> \<le>
   deriveMateriality \<lparr>mi_value = 10000000, mi_reversibility = Reversible, mi_jurisdiction = ''PE''\<rparr> \<and>
   \<not> deriveMateriality \<lparr>mi_value = 10000000, mi_reversibility = Reversible, mi_jurisdiction = ''PE''\<rparr> \<le>
   deriveMateriality \<lparr>mi_value = 10000000, mi_reversibility = Partially_Reversible, mi_jurisdiction = ''PE''\<rparr>"
  using materiality_is_fail_closed [of 5 10000000 Reversible "''PE''"]
    materiality_is_fail_closed [of 10000000 10000000 Reversible "''PE''"] by simp

section \<open>Runs of the lifecycle\<close>

lemma op_Inspect: "candidate_op H (Call_Inspect s) c = Inr c' \<longleftrightarrow>
    ca_status c \<in> {Proposed, Corrected} \<and> computeSubjectHash H s = ca_subjectHash c \<and>
    c' = withStatus c Inspected"
  by (auto simp: inspect_def requireStatus_def)

lemma op_Submit: "candidate_op H Call_Submit c = Inr c' \<longleftrightarrow>
    ca_status c = Inspected \<and> c' = withStatus c Reviewing"
  by (auto simp: submitForReview_def requireStatus_def)

lemma op_Accept: "candidate_op H (Call_Accept u t r) c = Inr c' \<longleftrightarrow>
    ca_status c = Reviewing \<and>
    c' = (withStatus c Accepted)\<lparr>ca_reviews := ca_reviews c @
      [\<lparr>cr_id = u, cr_verdict = Verdict_Accept, cr_reason = rd_reason r,
        cr_reviewer = rd_reviewer r, cr_reviewedAt = t\<rparr>]\<rparr>"
  by (auto simp: accept_def requireStatus_def)

lemma op_Reject: "candidate_op H (Call_Reject u t r) c = Inr c' \<longleftrightarrow>
    ca_status c = Reviewing \<and> js_trim (rr_reason r) \<noteq> [] \<and>
    c' = (withStatus c Rejected)\<lparr>ca_reviews := ca_reviews c @
      [\<lparr>cr_id = u, cr_verdict = Verdict_Reject, cr_reason = Some (rr_reason r),
        cr_reviewer = rr_reviewer r, cr_reviewedAt = t\<rparr>]\<rparr>"
  by (auto simp: reject_def requireStatus_def)

lemma op_Correct: "candidate_op H (Call_Correct u t k) c = Inr c' \<longleftrightarrow>
    ca_status c = Reviewing \<and> ca_corrections c = [] \<and>
    c' = c\<lparr>ca_id := candidateIdentity (computeSubjectHash H (ci_subject k)) (ca_scope c),
           ca_subjectHash := computeSubjectHash H (ci_subject k),
           ca_status := Corrected, ca_version := ca_version c + 1,
           ca_corrections := [\<lparr>co_id = u, co_fromHash = ca_subjectHash c,
             co_toHash = computeSubjectHash H (ci_subject k), co_reason = ci_reason k,
             co_correctedAt = t\<rparr>]\<rparr>"
  by (auto simp: correct_candidate_def requireStatus_def Let_def)

lemmas op_iffs = op_Inspect op_Submit op_Accept op_Reject op_Correct

lemma withStatus_sel [simp]:
  "ca_status (withStatus c s) = s" "ca_version (withStatus c s) = ca_version c + 1"
  "ca_id (withStatus c s) = ca_id c" "ca_subjectHash (withStatus c s) = ca_subjectHash c"
  "ca_scope (withStatus c s) = ca_scope c" "ca_materiality (withStatus c s) = ca_materiality c"
  "ca_reviews (withStatus c s) = ca_reviews c" "ca_corrections (withStatus c s) = ca_corrections c"
  "ca_createdAt (withStatus c s) = ca_createdAt c"
  by (simp_all add: withStatus_def)

lemma run_Cons: "candidate_run H (call # calls) c = Inr c' \<longleftrightarrow>
    (\<exists>d. candidate_op H call c = Inr d \<and> candidate_run H calls d = Inr c')"
  by (auto split: sum.splits)

declare candidate_op.simps [simp del] candidate_run.simps(2) [simp del]

text \<open>What holds of a candidate along its life, relative to its proposal \<open>p\<close>.\<close>

fun place :: "candidate_status \<Rightarrow> int" where
  "place Proposed = 0"
| "place Inspected = 1"
| "place Reviewing = 2"
| "place Accepted = 3"
| "place Rejected = 3"
| "place Corrected = 0"

definition review_ok :: "Candidate \<Rightarrow> bool" where
  "review_ok c \<longleftrightarrow>
     (case ca_status c of
        Accepted \<Rightarrow> list_all (\<lambda>r. cr_verdict r = Verdict_Accept) (ca_reviews c) \<and> length (ca_reviews c) = 1
      | Rejected \<Rightarrow>
          list_all (\<lambda>r. cr_verdict r = Verdict_Reject \<and> (\<exists>s. cr_reason r = Some s \<and> js_trim s \<noteq> []))
            (ca_reviews c) \<and> length (ca_reviews c) = 1
      | _ \<Rightarrow> ca_reviews c = [])"

definition lineage_ok :: "Candidate \<Rightarrow> Candidate \<Rightarrow> bool" where
  "lineage_ok p c \<longleftrightarrow>
     ca_corrections c = [] \<and> ca_subjectHash c = ca_subjectHash p \<and> ca_status c \<noteq> Corrected \<or>
     map co_fromHash (ca_corrections c) = [ca_subjectHash p] \<and>
     map co_toHash (ca_corrections c) = [ca_subjectHash c] \<and> ca_status c \<noteq> Proposed"

definition candidate_inv :: "Candidate \<Rightarrow> Candidate \<Rightarrow> bool" where
  "candidate_inv p c \<longleftrightarrow>
     ca_id c = candidateIdentity (ca_subjectHash c) (ca_scope c) \<and>
     ca_scope c = ca_scope p \<and> ca_materiality c = ca_materiality p \<and>
     ca_createdAt c = ca_createdAt p \<and> lineage_ok p c \<and> review_ok c \<and>
     ca_version c = 1 + place (ca_status c) + (if ca_corrections c = [] then 0 else 3)"

lemma inv_propose: "propose H now input = Inr p \<Longrightarrow> candidate_inv p p"
  by (auto simp: propose_def Let_def candidate_inv_def lineage_ok_def review_ok_def split: if_splits)

lemma inv_op: "candidate_inv p c \<Longrightarrow> candidate_op H call c = Inr c' \<Longrightarrow>
    candidate_inv p c' \<and> ca_version c' = ca_version c + 1"
  by (cases call) (auto simp: op_iffs candidate_inv_def lineage_ok_def review_ok_def)

lemma inv_run: "candidate_inv p c \<Longrightarrow> candidate_run H calls c = Inr c' \<Longrightarrow>
    candidate_inv p c' \<and> ca_version c' = ca_version c + int (length calls)"
proof (induction calls arbitrary: c)
  case (Cons call calls)
  then obtain d where "candidate_op H call c = Inr d" and "candidate_run H calls d = Inr c'"
    by (auto simp: run_Cons)
  with inv_op [OF Cons.prems(1)] Cons.IH show ?case by fastforce
qed simp

lemma inv_version: "candidate_inv p c \<Longrightarrow> ca_version c \<le> 7"
  by (cases "ca_status c") (auto simp: candidate_inv_def)

lemma proposed: "propose H t input = Inr p \<Longrightarrow>
    ca_status p = Proposed \<and> ca_corrections p = [] \<and> ca_version p = 1 \<and> ca_scope p = pi_scope input \<and>
    ca_materiality p = deriveMateriality (pi_materialityInput input) \<and>
    ca_subjectHash p = computeSubjectHash H (pi_subject input)"
  by (auto simp: propose_def Let_def split: if_splits)

text \<open>
  C20: Whatever calls succeed on a proposed candidate, its id is the identity of its present subject
  hash and its scope, scope, materiality and creation time are those of the proposal, at most one
  correction links the proposed hash to the present one, an accepted or rejected candidate carries
  exactly one review with that verdict (a rejection with a reason that is not blank), every call
  raised the version by one, and at most six calls succeed.
\<close>

theorem candidate_keeps_identity_and_lineage:
  assumes "propose H t input = Inr p" and "candidate_run H calls p = Inr c"
  shows "ca_id c = candidateIdentity (ca_subjectHash c) (pi_scope input) \<and>
    ca_scope c = pi_scope input \<and> ca_materiality c = deriveMateriality (pi_materialityInput input) \<and>
    lineage_ok p c \<and> length (ca_corrections c) \<le> 1 \<and> review_ok c \<and>
    ca_version c = 1 + int (length calls) \<and> length calls \<le> 6"
proof -
  from inv_run [OF inv_propose [OF assms(1)] assms(2)] proposed [OF assms(1)]
  have c: "candidate_inv p c" and "ca_version c = 1 + int (length calls)"
    and "ca_scope p = pi_scope input"
    and "ca_materiality p = deriveMateriality (pi_materialityInput input)" by simp_all
  moreover from c have "length (ca_corrections c) \<le> 1"
    by (auto simp: candidate_inv_def lineage_ok_def dest: arg_cong [of _ _ length])
  ultimately show ?thesis
    using inv_version [OF c] by (simp add: candidate_inv_def)
qed

text \<open>Sequences of calls that end in acceptance.\<close>

definition accepting :: "byte_hash \<Rightarrow> Candidate \<Rightarrow> candidate_call list \<Rightarrow> bool" where
  "accepting H c calls \<longleftrightarrow> (\<exists>c'. candidate_run H calls c = Inr c' \<and> ca_status c' = Accepted)"

lemma accepting_Nil: "accepting H c [] \<longleftrightarrow> ca_status c = Accepted"
  by (simp add: accepting_def)

lemma accepting_Cons: "accepting H c (call # calls) \<longleftrightarrow>
    (\<exists>d. candidate_op H call c = Inr d \<and> accepting H d calls)"
  by (auto simp: accepting_def run_Cons)

lemma accepting_final: "ca_status c = Accepted \<Longrightarrow> accepting H c calls \<longleftrightarrow> calls = []"
  "ca_status c = Rejected \<Longrightarrow> \<not> accepting H c calls"
  by (cases calls; cases "hd calls"; simp add: accepting_Nil accepting_Cons op_iffs)+

lemma accepting_reviewing:
  assumes "ca_status c = Reviewing"
  shows "accepting H c calls \<longleftrightarrow>
    (\<exists>u t r. calls = [Call_Accept u t r]) \<or>
    (\<exists>u t k rest d. calls = Call_Correct u t k # rest \<and> candidate_op H (Call_Correct u t k) c = Inr d \<and>
      accepting H d rest)"
proof (cases calls)
  case (Cons call rest)
  show ?thesis unfolding Cons
    by (cases call) (simp_all add: accepting_Cons op_Inspect op_Submit op_Accept op_Reject assms accepting_final)
qed (simp add: accepting_Nil assms)

lemma accepting_inspected:
  assumes "ca_status c = Inspected"
  shows "accepting H c calls \<longleftrightarrow> (\<exists>rest. calls = Call_Submit # rest \<and> accepting H (withStatus c Reviewing) rest)"
proof (cases calls)
  case (Cons call rest)
  show ?thesis unfolding Cons by (cases call) (simp_all add: accepting_Cons op_iffs assms)
qed (simp add: accepting_Nil assms)

lemma accepting_start:
  assumes "ca_status c \<in> {Proposed, Corrected}"
  shows "accepting H c calls \<longleftrightarrow>
    (\<exists>s rest. calls = Call_Inspect s # rest \<and> computeSubjectHash H s = ca_subjectHash c \<and>
      accepting H (withStatus c Inspected) rest)"
proof (cases calls)
  case (Cons call rest)
  show ?thesis unfolding Cons using assms by (cases call) (auto simp: accepting_Cons op_iffs)
qed (use assms in \<open>auto simp: accepting_Nil\<close>)

lemma accepting_corrected:
  assumes "ca_status c = Corrected" and "ca_corrections c \<noteq> []"
  shows "accepting H c calls \<longleftrightarrow>
    (\<exists>s u t r. calls = [Call_Inspect s, Call_Submit, Call_Accept u t r] \<and>
      computeSubjectHash H s = ca_subjectHash c)"
  using assms by (auto simp: accepting_start accepting_inspected accepting_reviewing op_Correct)

text \<open>
  C19: A candidate is accepted in exactly two ways: inspected, submitted, accepted; or inspected,
  submitted, corrected once, inspected again on the corrected subject, submitted, accepted. In both,
  the last inspection recomputed the hash of the subject that is accepted: no bytes are accepted
  that were not inspected, and nothing else ever leads to acceptance.
\<close>

theorem accepted_bytes_were_inspected:
  assumes "propose H now input = Inr p"
  shows "(\<exists>c. candidate_run H calls p = Inr c \<and> ca_status c = Accepted) \<longleftrightarrow>
    (\<exists>s u t r. calls = [Call_Inspect s, Call_Submit, Call_Accept u t r] \<and>
       computeSubjectHash H s = computeSubjectHash H (pi_subject input)) \<or>
    (\<exists>s u' t' k s' u t r.
       calls = [Call_Inspect s, Call_Submit, Call_Correct u' t' k,
                Call_Inspect s', Call_Submit, Call_Accept u t r] \<and>
       computeSubjectHash H s = computeSubjectHash H (pi_subject input) \<and>
       computeSubjectHash H s' = computeSubjectHash H (ci_subject k))"
proof -
  have "accepting H p calls \<longleftrightarrow>
    (\<exists>s u t r. calls = [Call_Inspect s, Call_Submit, Call_Accept u t r] \<and>
       computeSubjectHash H s = ca_subjectHash p) \<or>
    (\<exists>s u' t' k s' u t r.
       calls = [Call_Inspect s, Call_Submit, Call_Correct u' t' k,
                Call_Inspect s', Call_Submit, Call_Accept u t r] \<and>
       computeSubjectHash H s = ca_subjectHash p \<and>
       computeSubjectHash H s' = computeSubjectHash H (ci_subject k))"
    using proposed [OF assms]
    by (auto simp: accepting_start accepting_inspected accepting_reviewing accepting_corrected op_Correct)
  then show ?thesis using proposed [OF assms] by (simp add: accepting_def)
qed

definition sample_proposal :: ProposeInput where
  "sample_proposal =
     \<lparr>pi_subject = Text ''asiento'', pi_scope = \<lparr>cs_ruc = ''20100070970'', cs_period = ''202607''\<rparr>,
      pi_materialityInput = \<lparr>mi_value = 250000, mi_reversibility = Reversible, mi_jurisdiction = ''PE''\<rparr>\<rparr>"

definition sample_byte_hash :: byte_hash where
  "sample_byte_hash b = map (\<lambda>w. char_of (unat w)) b"

definition sample_calls :: "candidate_call list" where
  "sample_calls =
     [Call_Inspect (Text ''asiento''), Call_Submit,
      Call_Correct ''c1'' ''t3'' \<lparr>ci_subject = Text ''asiento 2'', ci_reason = ''typo''\<rparr>,
      Call_Inspect (Text ''asiento 2''), Call_Submit,
      Call_Accept ''r1'' ''t6'' \<lparr>rd_reviewer = ''ana'', rd_reason = None\<rparr>]"

definition sample_candidate :: Candidate where
  "sample_candidate = projr (propose sample_byte_hash ''t0'' sample_proposal)"

lemmas sample_candidate_defs = sample_proposal_def sample_byte_hash_def sample_calls_def sample_candidate_def

lemma sample_proposed: "propose sample_byte_hash ''t0'' sample_proposal = Inr sample_candidate"
  by (simp add: sample_candidate_defs candidate_defs digits_exactly_def is_digit_def code_unit_def Let_def)

theorem accepted_bytes_were_inspected_witness:
  "\<exists>c. candidate_run sample_byte_hash sample_calls sample_candidate = Inr c \<and> ca_status c = Accepted"
  unfolding accepted_bytes_were_inspected [OF sample_proposed] sample_calls_def
  by (simp add: sample_proposal_def)

definition sample_accepted_candidate :: Candidate where
  "sample_accepted_candidate = projr (candidate_run sample_byte_hash sample_calls sample_candidate)"

theorem candidate_keeps_identity_and_lineage_witness:
  "lineage_ok sample_candidate sample_accepted_candidate \<and> ca_version sample_accepted_candidate = 7"
proof -
  have "\<not> isl (candidate_run sample_byte_hash sample_calls sample_candidate)" by code_simp
  then have "candidate_run sample_byte_hash sample_calls sample_candidate = Inr sample_accepted_candidate"
    by (simp add: sample_accepted_candidate_def)
  from candidate_keeps_identity_and_lineage [OF sample_proposed this]
  show ?thesis by (simp add: sample_calls_def)
qed

end
