(* ===== verification/Authorization.thy ===== *)
theory Authorization
  imports Evidence Candidates
begin

text \<open>
  \<^verbatim>\<open>authorization/types.ts\<close>, \<^verbatim>\<open>authorization/roles.ts\<close>,
  \<^verbatim>\<open>authorization/authorize.ts\<close> and \<^verbatim>\<open>authorization/segregation.ts\<close>: role
  assignments, the fail-closed decision and the segregation of duties. Inputs are untyped, as the
  code checks them. A denial is its code; the fixed texts that go with each code are left out.
\<close>

section \<open>Roles\<close>

datatype role = Preparer | Reviewer | Approver | Admin

datatype permission =
  Close_Propose | Close_Approve | Close_Review | Close_Audit_Read | Mission_Operate | Tenant_Admin

definition ROLES :: "role list" where
  "ROLES = [Preparer, Reviewer, Approver, Admin]"

fun role_code :: "role \<Rightarrow> js_string" where
  "role_code Preparer = ''preparer''"
| "role_code Reviewer = ''reviewer''"
| "role_code Approver = ''approver''"
| "role_code Admin = ''admin''"

definition PERMISSIONS :: "permission list" where
  "PERMISSIONS =
     [Close_Propose, Close_Approve, Close_Review, Close_Audit_Read, Mission_Operate, Tenant_Admin]"

fun permission_code :: "permission \<Rightarrow> js_string" where
  "permission_code Close_Propose = ''close:propose''"
| "permission_code Close_Approve = ''close:approve''"
| "permission_code Close_Review = ''close:review''"
| "permission_code Close_Audit_Read = ''close:audit-read''"
| "permission_code Mission_Operate = ''mission:operate''"
| "permission_code Tenant_Admin = ''tenant:admin''"

fun ROLE_PERMISSIONS :: "role \<Rightarrow> permission list" where
  "ROLE_PERMISSIONS Preparer = [Close_Propose, Mission_Operate, Close_Audit_Read]"
| "ROLE_PERMISSIONS Reviewer = [Close_Review, Close_Audit_Read]"
| "ROLE_PERMISSIONS Approver = [Close_Approve, Close_Audit_Read]"
| "ROLE_PERMISSIONS Admin = [Tenant_Admin, Close_Audit_Read]"

text \<open>The guards, which also give the code the string stands for.\<close>

definition isRole :: "js_value \<Rightarrow> role option" where
  "isRole v = (case v of J_str s \<Rightarrow> find (\<lambda>r. role_code r = s) ROLES | _ \<Rightarrow> None)"

definition isPermission :: "js_value \<Rightarrow> permission option" where
  "isPermission v = (case v of J_str s \<Rightarrow> find (\<lambda>p. permission_code p = s) PERMISSIONS | _ \<Rightarrow> None)"

definition permissionsForRole :: "js_value \<Rightarrow> permission list" where
  "permissionsForRole v = (case isRole v of None \<Rightarrow> [] | Some r \<Rightarrow> ROLE_PERMISSIONS r)"

section \<open>Assignments\<close>

datatype rbac_denial =
  Unknown_Identity | Unknown_Permission | Unknown_Role | Invalid_Assignment | Missing_Scope
| Scope_Mismatch | Insufficient_Permission | Malformed_Context

record ValidatedAssignment =
  va_identity :: js_string
  va_scope :: TenantScope
  va_roles :: "role list"

fun is_plain_record :: "js_value \<Rightarrow> bool" where
  "is_plain_record (J_obj _) = True"
| "is_plain_record _ = False"

text \<open>The roles of a list, first occurrences only; \<open>None\<close> at the first that is no role.\<close>

fun collect_roles :: "js_value list \<Rightarrow> role list \<Rightarrow> role list option" where
  "collect_roles [] roles = Some roles"
| "collect_roles (v # vs) roles =
     (case isRole v of
        None \<Rightarrow> None
      | Some r \<Rightarrow> collect_roles vs (if r \<in> set roles then roles else roles @ [r]))"

text \<open>What \<open>assignRoles\<close> and \<open>validateAssignment\<close> check alike, in the same order.\<close>

definition validate_assignment_fields :: "js_value \<Rightarrow> rbac_denial + ValidatedAssignment" where
  "validate_assignment_fields assignment =
     (case validateTenantScope (get_field assignment ''scope'') of
        Inl _ \<Rightarrow> Inl Missing_Scope
      | Inr scope \<Rightarrow>
          if \<not> isNonEmptyString (get_field assignment ''identity'') then Inl Invalid_Assignment
          else (case get_field assignment ''roles'' of
                  J_arr (v # vs) \<Rightarrow>
                    (case collect_roles (v # vs) [] of
                       None \<Rightarrow> Inl Unknown_Role
                     | Some roles \<Rightarrow>
                         Inr \<lparr>va_identity = str_field assignment ''identity'', va_scope = scope,
                              va_roles = roles\<rparr>)
                | _ \<Rightarrow> Inl Invalid_Assignment))"

definition validateAssignment :: "js_value \<Rightarrow> rbac_denial + ValidatedAssignment" where
  "validateAssignment assignment =
     (if \<not> is_plain_record assignment then Inl Malformed_Context
      else validate_assignment_fields assignment)"

definition assignRoles :: "js_value \<Rightarrow> rbac_denial + ValidatedAssignment" where
  "assignRoles input = validate_assignment_fields input"

section \<open>The decision\<close>

definition materiality_ok :: "js_value \<Rightarrow> bool" where
  "materiality_ok v \<longleftrightarrow> v = J_undefined \<or> v \<in> set (map J_str [''R0'', ''R1'', ''R2'', ''R3''])"

definition decide ::
    "ValidatedAssignment list \<Rightarrow> js_string \<Rightarrow> permission \<Rightarrow> TenantScope \<Rightarrow> rbac_denial + TenantScope"
  where
  "decide validated identity perm targetScope =
     (let mine = filter (\<lambda>a. va_identity a = identity) validated;
          atTarget = filter (\<lambda>a. sameTenantScope (va_scope a) targetScope) mine
      in if length mine = 0 then Inl Unknown_Identity
         else if length atTarget = 0 then Inl Scope_Mismatch
         else if 1 < length atTarget then Inl Malformed_Context
         else if \<not> list_ex (\<lambda>r. perm \<in> set (ROLE_PERMISSIONS r)) (va_roles (atTarget ! 0))
         then Inl Insufficient_Permission
         else Inr targetScope)"

definition authorize :: "js_value \<Rightarrow> rbac_denial + TenantScope" where
  "authorize input =
     (if \<not> is_plain_record input then Inl Malformed_Context
      else (case get_field input ''assignments'' of
              J_arr assignments \<Rightarrow>
                if \<not> isNonEmptyString (get_field input ''identity'') then Inl Malformed_Context
                else if \<not> materiality_ok (get_field input ''materiality'') then Inl Malformed_Context
                else (case validateTenantScope (get_field input ''scope'') of
                        Inl _ \<Rightarrow> Inl Missing_Scope
                      | Inr targetScope \<Rightarrow>
                          (case isPermission (get_field input ''permission'') of
                             None \<Rightarrow> Inl Unknown_Permission
                           | Some perm \<Rightarrow>
                               (case traverse validateAssignment assignments of
                                  Inl code \<Rightarrow> Inl code
                                | Inr validated \<Rightarrow>
                                    decide validated (str_field input ''identity'') perm targetScope)))
            | _ \<Rightarrow> Inl Malformed_Context))"

section \<open>Segregation of duties\<close>

datatype sod_denial = Sod_Violation | Sod_Invalid_Input

definition assertSegregation :: "js_value \<Rightarrow> sod_denial option" where
  "assertSegregation input =
     (if \<not> is_plain_record input then Some Sod_Invalid_Input
      else if \<not> isNonEmptyString (get_field input ''closeStepId'') then Some Sod_Invalid_Input
      else if \<not> isNonEmptyString (get_field input ''proposerId'') then Some Sod_Invalid_Input
      else (case get_field input ''approverIds'' of
              J_arr approverIds \<Rightarrow>
                if \<not> list_all isNonEmptyString approverIds then Some Sod_Invalid_Input
                else if get_field input ''proposerId'' \<in> set approverIds then Some Sod_Violation
                else None
            | _ \<Rightarrow> Some Sod_Invalid_Input))"

lemmas authorization_defs = ROLES_def PERMISSIONS_def isRole_def isPermission_def
  permissionsForRole_def validate_assignment_fields_def validateAssignment_def assignRoles_def
  materiality_ok_def decide_def authorize_def assertSegregation_def

declare authorization_defs [code_defs]

section \<open>Properties\<close>

lemma isRole_iff: "isRole v = Some r \<longleftrightarrow> v = J_str (role_code r)"
  by (cases r) (auto simp: isRole_def ROLES_def split: js_value.splits if_splits)

lemma isPermission_iff: "isPermission v = Some p \<longleftrightarrow> v = J_str (permission_code p)"
  by (cases p) (auto simp: isPermission_def PERMISSIONS_def split: js_value.splits if_splits)

lemma nonempty_iff: "isNonEmptyString v \<longleftrightarrow> (\<exists>s. v = J_str s \<and> js_trim s \<noteq> [])"
  by (cases v) auto

lemma role_code_inject [simp]: "role_code a = role_code b \<longleftrightarrow> a = b"
  by (cases a; cases b) simp_all

definition codes :: "js_value list \<Rightarrow> role set" where
  "codes vs = {r. J_str (role_code r) \<in> set vs}"

lemma codes_simps: "codes [] = {}" "codes (J_str (role_code r) # vs) = insert r (codes vs)"
  by (auto simp: codes_def)

lemma insert_once: "set (if r \<in> set xs then xs else xs @ [r]) = insert r (set xs)"
  by auto

lemma collect_roles_set: "collect_roles vs acc = Some roles \<Longrightarrow> set roles = set acc \<union> codes vs"
proof (induction vs arbitrary: acc)
  case (Cons v vs)
  then obtain r where r: "isRole v = Some r"
    by (auto split: option.splits)
  with Cons.prems have "collect_roles vs (if r \<in> set acc then acc else acc @ [r]) = Some roles" by simp
  from Cons.IH [OF this] r show ?case
    unfolding insert_once isRole_iff by (simp add: codes_simps)
qed (simp add: codes_simps)

lemma collect_roles_some: "collect_roles vs acc \<noteq> None \<longleftrightarrow> (\<forall>v \<in> set vs. isRole v \<noteq> None)"
  by (induction vs arbitrary: acc) (auto split: option.splits)

text \<open>An assignment that is accepted, and what it grants.\<close>

definition assignment_ok :: "js_value \<Rightarrow> bool" where
  "assignment_ok a \<longleftrightarrow>
     is_plain_record a \<and> \<not> isl (validateTenantScope (get_field a ''scope'')) \<and>
     isNonEmptyString (get_field a ''identity'') \<and>
     (\<exists>v vs. get_field a ''roles'' = J_arr (v # vs) \<and> (\<forall>r \<in> set (v # vs). isRole r \<noteq> None))"

definition assigned_to :: "js_string \<Rightarrow> js_value \<Rightarrow> bool" where
  "assigned_to identity a \<longleftrightarrow> get_field a ''identity'' = J_str identity"

definition at_scope :: "TenantScope \<Rightarrow> js_value \<Rightarrow> bool" where
  "at_scope scope a \<longleftrightarrow> validateTenantScope (get_field a ''scope'') = Inr scope"

definition grants :: "permission \<Rightarrow> js_value \<Rightarrow> bool" where
  "grants perm a \<longleftrightarrow>
     (\<exists>vs r. get_field a ''roles'' = J_arr vs \<and> J_str (role_code r) \<in> set vs \<and>
       perm \<in> set (ROLE_PERMISSIONS r))"

definition reads :: "js_value \<Rightarrow> ValidatedAssignment \<Rightarrow> bool" where
  "reads a b \<longleftrightarrow>
     get_field a ''identity'' = J_str (va_identity b) \<and>
     validateTenantScope (get_field a ''scope'') = Inr (va_scope b) \<and>
     (\<exists>vs. get_field a ''roles'' = J_arr vs \<and> set (va_roles b) = codes vs)"

lemma fields_Inr_iff: "validate_assignment_fields a = Inr b \<longleftrightarrow>
    validateTenantScope (get_field a ''scope'') = Inr (va_scope b) \<and>
    isNonEmptyString (get_field a ''identity'') \<and> str_field a ''identity'' = va_identity b \<and>
    (\<exists>v vs. get_field a ''roles'' = J_arr (v # vs) \<and> collect_roles (v # vs) [] = Some (va_roles b))"
  by (cases b)
    (auto simp: validate_assignment_fields_def simp del: collect_roles.simps
      split: sum.splits js_value.splits list.splits option.splits)

lemma validateAssignment_reads:
  assumes "validateAssignment a = Inr b"
  shows "assignment_ok a \<and> reads a b"
proof -
  from assms have a: "is_plain_record a" "validate_assignment_fields a = Inr b"
    by (auto simp: validateAssignment_def split: if_splits)
  then obtain v vs where r: "get_field a ''roles'' = J_arr (v # vs)"
      "collect_roles (v # vs) [] = Some (va_roles b)"
    and s: "validateTenantScope (get_field a ''scope'') = Inr (va_scope b)"
    and i: "isNonEmptyString (get_field a ''identity'')" "str_field a ''identity'' = va_identity b"
    unfolding fields_Inr_iff by blast
  from i have "get_field a ''identity'' = J_str (va_identity b)"
    by (auto simp: nonempty_iff str_field_def)
  moreover have "\<forall>r \<in> set (v # vs). isRole r \<noteq> None"
    using collect_roles_some r(2) by blast
  moreover have "set (va_roles b) = codes (v # vs)"
    using collect_roles_set [OF r(2)] by simp
  ultimately show ?thesis
    using a(1) r(1) s i(1) unfolding assignment_ok_def reads_def by simp
qed

lemma validateAssignment_ok:
  assumes "assignment_ok a"
  shows "\<exists>b. validateAssignment a = Inr b"
proof -
  obtain v vs where r: "get_field a ''roles'' = J_arr (v # vs)" "\<forall>r \<in> set (v # vs). isRole r \<noteq> None"
    using assms by (auto simp: assignment_ok_def)
  then obtain roles where c: "collect_roles (v # vs) [] = Some roles"
    using collect_roles_some [of "v # vs" "[]"] by blast
  obtain s where s: "validateTenantScope (get_field a ''scope'') = Inr s"
    using assms by (cases "validateTenantScope (get_field a ''scope'')") (auto simp: assignment_ok_def)
  have "validate_assignment_fields a =
      Inr \<lparr>va_identity = str_field a ''identity'', va_scope = s, va_roles = roles\<rparr>"
    using assms r(1) c s unfolding fields_Inr_iff assignment_ok_def by simp
  with assms show ?thesis by (simp add: validateAssignment_def assignment_ok_def)
qed

lemma traverse_validate:
  "(\<exists>bs. traverse validateAssignment as = Inr bs) \<longleftrightarrow> list_all assignment_ok as"
proof
  assume "\<exists>bs. traverse validateAssignment as = Inr bs"
  then obtain bs where "list_all2 (\<lambda>x y. validateAssignment x = Inr y) as bs"
    by (auto simp: traverse_Inr_iff)
  then show "list_all assignment_ok as"
    by (induction rule: list_all2_induct) (auto dest: validateAssignment_reads)
next
  assume "list_all assignment_ok as"
  then show "\<exists>bs. traverse validateAssignment as = Inr bs"
  proof (induction as)
    case (Cons a as)
    then obtain b bs where "validateAssignment a = Inr b" and "traverse validateAssignment as = Inr bs"
      using validateAssignment_ok by fastforce
    then show ?case by simp
  qed simp
qed

lemma traverse_reads: "traverse validateAssignment as = Inr bs \<Longrightarrow> list_all2 reads as bs"
  unfolding traverse_Inr_iff using validateAssignment_reads by (auto intro: list.rel_mono_strong)

lemma filter_reads: "list_all2 reads as bs \<Longrightarrow>
    (\<And>a b. reads a b \<Longrightarrow> P a = Q b) \<Longrightarrow> list_all2 reads (filter P as) (filter Q bs)"
  by (induction rule: list_all2_induct) auto

lemma reads_identity: "reads a b \<Longrightarrow> assigned_to i a = (va_identity b = i)"
  by (auto simp: reads_def assigned_to_def)

lemma reads_scope: "reads a b \<Longrightarrow> valid_scope s \<Longrightarrow> at_scope s a = sameTenantScope (va_scope b) s"
  using key_valid_inject [of "va_scope b" s] validate_valid
  by (auto simp: reads_def at_scope_def sameTenantScope_def)

lemma reads_grants: "reads a b \<Longrightarrow> grants p a = list_ex (\<lambda>r. p \<in> set (ROLE_PERMISSIONS r)) (va_roles b)"
  by (auto simp: reads_def grants_def list_ex_iff codes_def)

text \<open>The decision, read off the untyped assignments.\<close>

definition decision_on ::
    "js_value list \<Rightarrow> js_string \<Rightarrow> permission \<Rightarrow> TenantScope \<Rightarrow> rbac_denial + TenantScope" where
  "decision_on as identity perm scope =
     (case filter (assigned_to identity) as of
        [] \<Rightarrow> Inl Unknown_Identity
      | mine \<Rightarrow>
          (case filter (at_scope scope) mine of
             [] \<Rightarrow> Inl Scope_Mismatch
           | [a] \<Rightarrow> if grants perm a then Inr scope else Inl Insufficient_Permission
           | _ \<Rightarrow> Inl Malformed_Context))"

lemma decide_reads:
  assumes "list_all2 reads as bs" and "valid_scope s"
  shows "decide bs i p s = decision_on as i p s"
proof -
  let ?mb = "filter (\<lambda>b. va_identity b = i) bs"
  have m: "list_all2 reads (filter (assigned_to i) as) ?mb"
    by (rule filter_reads [OF assms(1)]) (rule reads_identity)
  have t: "list_all2 reads (filter (at_scope s) (filter (assigned_to i) as))
      (filter (\<lambda>b. sameTenantScope (va_scope b) s) ?mb)"
    by (rule filter_reads [OF m]) (rule reads_scope [OF _ assms(2)])
  show ?thesis
  proof (cases "filter (assigned_to i) as")
    case Nil
    with m show ?thesis by (simp add: decision_on_def decide_def)
  next
    case mine: (Cons a as')
    with m have n: "?mb \<noteq> []" by auto
    show ?thesis
    proof (cases "filter (at_scope s) (a # as')")
      case Nil
      with t n mine show ?thesis by (simp add: decision_on_def decide_def)
    next
      case (Cons b rest)
      then obtain c rest' where c: "filter (\<lambda>b. sameTenantScope (va_scope b) s) ?mb = c # rest'"
        and "reads b c" and l: "list_all2 reads rest rest'"
        using t mine by (auto simp: list_all2_Cons1)
      then have g: "list_ex (\<lambda>r. p \<in> set (ROLE_PERMISSIONS r)) (va_roles c) = grants p b"
        by (simp add: reads_grants)
      show ?thesis
        unfolding decision_on_def decide_def Let_def mine list.case Cons c
        using n l g by (cases rest; cases rest') simp_all
    qed
  qed
qed

definition context_ok :: "js_value \<Rightarrow> bool" where
  "context_ok input \<longleftrightarrow>
     is_plain_record input \<and> isNonEmptyString (get_field input ''identity'') \<and>
     materiality_ok (get_field input ''materiality'')"

lemma authorize_decides:
  assumes "context_ok input" and "get_field input ''assignments'' = J_arr as"
    and "validateTenantScope (get_field input ''scope'') = Inr s"
    and "get_field input ''permission'' = J_str (permission_code p)"
    and "list_all assignment_ok as"
  shows "authorize input = decision_on as (str_field input ''identity'') p s"
proof -
  obtain bs where bs: "traverse validateAssignment as = Inr bs"
    using assms(5) traverse_validate by blast
  have "isPermission (get_field input ''permission'') = Some p"
    using assms(4) by (simp add: isPermission_iff)
  with assms bs decide_reads [OF traverse_reads [OF bs] validate_valid [OF assms(3)]]
  show ?thesis by (simp add: authorize_def context_ok_def)
qed

lemma authorize_InrD:
  assumes "authorize input = Inr s"
  shows "context_ok input \<and> validateTenantScope (get_field input ''scope'') = Inr s \<and>
    (\<exists>as p. get_field input ''assignments'' = J_arr as \<and> list_all assignment_ok as \<and>
      get_field input ''permission'' = J_str (permission_code p))"
proof -
  obtain as where as: "get_field input ''assignments'' = J_arr as"
    and c: "context_ok input"
    using assms by (auto simp: authorize_def context_ok_def split: if_splits js_value.splits)
  obtain t p bs where t: "validateTenantScope (get_field input ''scope'') = Inr t"
    and p: "isPermission (get_field input ''permission'') = Some p"
    and bs: "traverse validateAssignment as = Inr bs"
    and d: "decide bs (str_field input ''identity'') p t = Inr s"
    using assms as by (auto simp: authorize_def split: if_splits sum.splits option.splits)
  from d have "s = t" by (auto simp: decide_def Let_def split: if_splits)
  with as c t p bs show ?thesis using traverse_validate [of as] by (auto simp: isPermission_iff)
qed

lemma decision_Inr_iff: "decision_on as i p s = Inr t \<longleftrightarrow>
    t = s \<and> (\<exists>a. filter (\<lambda>a. assigned_to i a \<and> at_scope s a) as = [a] \<and> grants p a)"
proof -
  have "filter (\<lambda>a. assigned_to i a \<and> at_scope s a) as = filter (at_scope s) (filter (assigned_to i) as)"
    by simp
  then show ?thesis
    unfolding decision_on_def
    by (cases "filter (assigned_to i) as"; cases "filter (at_scope s) (filter (assigned_to i) as)")
      (auto simp del: filter_filter filter.simps split: list.splits)
qed

text \<open>
  An authorization is granted exactly when the context is well-formed, the scope is a valid
  tenant scope, the permission is one of the six, every supplied assignment is valid, exactly one of
  them gives the identity a role at exactly this scope, and one of its roles grants the permission in
  the matrix. Anything else is denied; the granted scope is the validated one.
\<close>

theorem authorization_is_exact:
  "authorize input = Inr s \<longleftrightarrow>
     is_plain_record input \<and> materiality_ok (get_field input ''materiality'') \<and>
     validateTenantScope (get_field input ''scope'') = Inr s \<and>
     (\<exists>as identity p a.
        get_field input ''assignments'' = J_arr as \<and> list_all assignment_ok as \<and>
        get_field input ''identity'' = J_str identity \<and> js_trim identity \<noteq> [] \<and>
        get_field input ''permission'' = J_str (permission_code p) \<and>
        filter (\<lambda>a. assigned_to identity a \<and> at_scope s a) as = [a] \<and> grants p a)"
  (is "_ \<longleftrightarrow> ?ok")
proof
  assume granted: "authorize input = Inr s"
  from authorize_InrD [OF granted] obtain as p where c: "context_ok input"
    and s: "validateTenantScope (get_field input ''scope'') = Inr s"
    and as: "get_field input ''assignments'' = J_arr as" "list_all assignment_ok as"
    and p: "get_field input ''permission'' = J_str (permission_code p)" by blast
  from authorize_decides [OF c as(1) s p as(2)] granted
  have "decision_on as (str_field input ''identity'') p s = Inr s" by simp
  with c s as p show ?ok
    by (auto simp: decision_Inr_iff context_ok_def nonempty_iff str_field_def)
next
  assume ?ok
  then obtain as identity p a where "context_ok input" "get_field input ''identity'' = J_str identity"
      "get_field input ''assignments'' = J_arr as" "list_all assignment_ok as"
      "validateTenantScope (get_field input ''scope'') = Inr s"
      "get_field input ''permission'' = J_str (permission_code p)"
      "filter (\<lambda>a. assigned_to identity a \<and> at_scope s a) as = [a]" "grants p a"
    by (auto simp: context_ok_def)
  then show "authorize input = Inr s"
    using authorize_decides [of input as s p] by (simp add: decision_Inr_iff str_field_def)
qed

text \<open>
  A decision discloses nothing about other identities: as long as all assignments are valid,
  adding, changing or removing the assignments of other identities changes neither a grant nor the
  denial code.
\<close>

theorem decision_ignores_other_identities:
  assumes "get_field a ''assignments'' = J_arr as" and "get_field b ''assignments'' = J_arr bs"
    and "list_all assignment_ok as" and "list_all assignment_ok bs"
    and "is_plain_record a" and "is_plain_record b"
    and "\<forall>k \<in> {''identity'', ''permission'', ''scope'', ''materiality''}. get_field a k = get_field b k"
    and "get_field a ''identity'' = J_str identity"
    and "filter (assigned_to identity) as = filter (assigned_to identity) bs"
  shows "authorize a = authorize b"
proof -
  have i: "str_field a ''identity'' = identity" "str_field b ''identity'' = identity"
    using assms(8) assms(7) [THEN bspec, of "''identity''"] by (auto simp: str_field_def)
  have ctx: "context_ok a = context_ok b"
    using assms(5-7) by (simp add: context_ok_def)
  obtain va vb where v: "traverse validateAssignment as = Inr va" "traverse validateAssignment bs = Inr vb"
    using assms(3,4) traverse_validate by blast
  show ?thesis
  proof (cases "context_ok a")
    case False
    with ctx assms(1,2,5,6) show ?thesis by (auto simp: authorize_def context_ok_def)
  next
    case True
    show ?thesis
    proof (cases "validateTenantScope (get_field a ''scope'')")
      case (Inl e)
      with True ctx assms show ?thesis by (simp add: authorize_def context_ok_def)
    next
      case s: (Inr s)
      show ?thesis
      proof (cases "isPermission (get_field a ''permission'')")
        case None
        with s True ctx assms show ?thesis by (simp add: authorize_def context_ok_def)
      next
        case (Some p)
        then have p: "get_field a ''permission'' = J_str (permission_code p)"
          by (simp add: isPermission_iff)
        have "decision_on as identity p s = decision_on bs identity p s"
          using assms(9) by (simp add: decision_on_def)
        then show ?thesis
          using authorize_decides [OF _ assms(1) s p assms(3)] authorize_decides [of b bs s p]
            assms(2,4,7) s p True ctx i by simp
      qed
    qed
  qed
qed

definition sample_assignment :: "js_string \<Rightarrow> js_string \<Rightarrow> js_value" where
  "sample_assignment who code =
     J_obj [(''identity'', J_str who), (''scope'', scope_value sample_scope),
            (''roles'', J_arr [J_str code])]"

definition sample_request :: "js_value list \<Rightarrow> js_value" where
  "sample_request as =
     J_obj [(''assignments'', J_arr as), (''identity'', J_str ''ana''),
            (''permission'', J_str ''close:approve''), (''scope'', scope_value sample_scope)]"

theorem decision_ignores_other_identities_witness:
  "authorize (sample_request [sample_assignment ''ana'' ''approver'']) =
   authorize (sample_request [sample_assignment ''bob'' ''admin'', sample_assignment ''ana'' ''approver''])"
proof -
  have s: "validateTenantScope (scope_value sample_scope) = Inr sample_scope"
    unfolding validate_scope_value by code_simp
  have "is_plain_record (sample_assignment who code)" for who code
    by (simp add: sample_assignment_def)
  have ok: "assignment_ok (sample_assignment ''ana'' ''approver'')"
    "assignment_ok (sample_assignment ''bob'' ''admin'')"
    using s by (simp_all add: assignment_ok_def sample_assignment_def isRole_def ROLES_def js_trim_def
        is_space_def code_unit_def)
  show ?thesis
    by (rule decision_ignores_other_identities
          [where as = "[sample_assignment ''ana'' ''approver'']" and identity = "''ana''"
            and bs = "[sample_assignment ''bob'' ''admin'', sample_assignment ''ana'' ''approver'']"])
      (use ok in \<open>simp_all add: sample_request_def assigned_to_def sample_assignment_def\<close>)
qed

end
