(* ===== verification/Receipts.thy ===== *)
theory Receipts
  imports Evidence
begin

text \<open>
  \<^verbatim>\<open>receipts/types.ts\<close>, \<^verbatim>\<open>receipts/verify.ts\<close> and
  \<^verbatim>\<open>receipts/sign.ts\<close>: the signed receipts. SHA-256 and \<open>Date.parse\<close> are those of
  \<open>js_lib\<close>; Ed25519 is the record \<open>ed25519\<close>, whose verification answers false for malformed
  keys and signatures, as the code's \<open>catch\<close> does. The keys and signatures are their base64
  texts. The clock is an argument.
\<close>

section \<open>Data\<close>

datatype receipt_type = APPROVAL | EXECUTION | COMPLETION | EXTERNAL_SUBMISSION

datatype receipt_decision = APPROVE | REJECT

fun decision_text :: "receipt_decision \<Rightarrow> js_string" where
  "decision_text APPROVE = ''APPROVE''"
| "decision_text REJECT = ''REJECT''"

record ReceiptContent =
  rc_missionId :: js_string
  rc_companyId :: js_string
  rc_actorId :: js_string
  rc_decision :: receipt_decision
  rc_proposalVersion :: int
  rc_evidenceHash :: js_string
  rc_previousStatus :: js_string
  rc_newStatus :: js_string
  rc_payloadHash :: js_string
  rc_timestamp :: js_string

record ReceiptKeyPair =
  kp_publicKey :: js_string
  kp_privateKey :: js_string
  kp_keyId :: js_string

record SignedReceipt =
  sr_protocolVersion :: js_string
  sr_receiptType :: receipt_type
  sr_content :: ReceiptContent
  sr_receiptHash :: js_string
  sr_signerKeyId :: js_string
  sr_signerPublicKey :: js_string
  sr_signature :: js_string
  sr_issuedAt :: js_string

datatype verification_status =
  CONTENT_VALID | SIGNATURE_VALID | SIGNER_TRUSTED | KEY_EXPIRED | KEY_REVOKED | UNKNOWN_SIGNER
| PAYLOAD_TAMPERED

record SigningKeyInfo =
  ki_keyId :: js_string
  ki_publicKey :: js_string
  ki_issuedAt :: js_string
  ki_expiresAt :: "js_string option"
  ki_revokedAt :: "js_string option"

type_synonym key_resolver = "js_string \<Rightarrow> SigningKeyInfo option"

record VerificationSteps =
  vs_hashValid :: bool
  vs_signatureValid :: bool
  vs_signerRecognized :: bool
  vs_keyCurrent :: bool
  vs_keyRevoked :: bool

record SignedVerification =
  sv_valid :: bool
  sv_hashValid :: bool
  sv_signatureValid :: bool
  sv_keyId :: js_string
  sv_protocolVersion :: js_string

text \<open>Ed25519: signature of a text with a private key, and its check with a public key.\<close>

record ed25519 =
  ed_sign :: "js_string \<Rightarrow> js_string \<Rightarrow> js_string"
  ed_verify :: "js_string \<Rightarrow> js_string \<Rightarrow> js_string \<Rightarrow> bool"

section \<open>Canonical payload and hash\<close>

definition content_fields :: "ReceiptContent \<Rightarrow> (js_string \<times> js_value) list" where
  "content_fields c =
     [(''missionId'', J_str (rc_missionId c)),
      (''companyId'', J_str (rc_companyId c)),
      (''actorId'', J_str (rc_actorId c)),
      (''decision'', J_str (decision_text (rc_decision c))),
      (''proposalVersion'', J_num (Fin (of_int (rc_proposalVersion c)))),
      (''evidenceHash'', J_str (rc_evidenceHash c)),
      (''previousStatus'', J_str (rc_previousStatus c)),
      (''newStatus'', J_str (rc_newStatus c)),
      (''payloadHash'', J_str (rc_payloadHash c)),
      (''timestamp'', J_str (rc_timestamp c))]"

definition canonicalPayload :: "js_lib \<Rightarrow> ReceiptContent \<Rightarrow> js_string" where
  "canonicalPayload L content = sortedStringify (lib_number L) (content_fields content)"

definition generateReceiptHash :: "js_lib \<Rightarrow> ReceiptContent \<Rightarrow> js_string" where
  "generateReceiptHash L content = lib_sha256 L (canonicalPayload L content)"

text \<open>
  \<open>Buffer.from(s, "hex")\<close>: pairs of hexadecimal digits, of either case, up to the first pair
  that is not one; a last single digit is dropped.
\<close>

definition is_hex :: "char \<Rightarrow> bool" where
  "is_hex c \<longleftrightarrow> is_hex_lower c \<or> 65 \<le> code_unit c \<and> code_unit c \<le> 70"

definition hex_value :: "char \<Rightarrow> nat" where
  "hex_value c =
     (let n = code_unit c in if is_digit c then n - 48 else if 97 \<le> n then n - 87 else n - 55)"

fun hex_buffer :: "js_string \<Rightarrow> nat list" where
  "hex_buffer (a # b # s) =
     (if is_hex a \<and> is_hex b then (16 * hex_value a + hex_value b) # hex_buffer s else [])"
| "hex_buffer _ = []"

definition verifyReceiptIntegrity :: "js_lib \<Rightarrow> ReceiptContent \<Rightarrow> js_string \<Rightarrow> bool" where
  "verifyReceiptIntegrity L content assertedHash =
     (let computedBuf = hex_buffer (generateReceiptHash L content);
          assertedBuf = hex_buffer assertedHash
      in if length computedBuf \<noteq> length assertedBuf then False else computedBuf = assertedBuf)"

section \<open>Signatures\<close>

definition signReceipt ::
    "js_lib \<Rightarrow> ed25519 \<Rightarrow> ReceiptContent \<Rightarrow> js_string \<Rightarrow> js_string \<times> js_string" where
  "signReceipt L ed content privateKey =
     (let payload = canonicalPayload L content in (ed_sign ed payload privateKey, payload))"

definition buildSignedReceipt ::
    "js_lib \<Rightarrow> ed25519 \<Rightarrow> js_string \<Rightarrow> ReceiptContent \<Rightarrow> ReceiptKeyPair \<Rightarrow> js_string \<Rightarrow> receipt_type \<Rightarrow>
     SignedReceipt" where
  "buildSignedReceipt L ed now content keyPair protocolVersion receiptType =
     \<lparr>sr_protocolVersion = protocolVersion, sr_receiptType = receiptType, sr_content = content,
      sr_receiptHash = generateReceiptHash L content, sr_signerKeyId = kp_keyId keyPair,
      sr_signerPublicKey = kp_publicKey keyPair,
      sr_signature = fst (signReceipt L ed content (kp_privateKey keyPair)), sr_issuedAt = now\<rparr>"

definition verifyReceiptSignature ::
    "js_lib \<Rightarrow> ed25519 \<Rightarrow> ReceiptContent \<Rightarrow> js_string \<Rightarrow> js_string \<Rightarrow> bool" where
  "verifyReceiptSignature L ed content signature publicKey =
     ed_verify ed (canonicalPayload L content) publicKey signature"

definition verifySignedReceipt :: "js_lib \<Rightarrow> ed25519 \<Rightarrow> SignedReceipt \<Rightarrow> SignedVerification" where
  "verifySignedReceipt L ed receipt =
     (let hashValid = verifyReceiptIntegrity L (sr_content receipt) (sr_receiptHash receipt);
          signatureValid = verifyReceiptSignature L ed (sr_content receipt) (sr_signature receipt)
            (sr_signerPublicKey receipt)
      in \<lparr>sv_valid = (hashValid \<and> signatureValid), sv_hashValid = hashValid,
          sv_signatureValid = signatureValid, sv_keyId = sr_signerKeyId receipt,
          sv_protocolVersion = sr_protocolVersion receipt\<rparr>)"

definition trustResult ::
    "verification_status \<Rightarrow> bool \<Rightarrow> bool \<Rightarrow> bool \<Rightarrow> bool \<Rightarrow> bool \<Rightarrow>
     verification_status \<times> VerificationSteps" where
  "trustResult status h s r c k =
     (status, \<lparr>vs_hashValid = h, vs_signatureValid = s, vs_signerRecognized = r, vs_keyCurrent = c,
               vs_keyRevoked = k\<rparr>)"

text \<open>Comparisons with \<open>Date.parse\<close>, false when it is NaN.\<close>

definition parsed_le :: "js_lib \<Rightarrow> js_string \<Rightarrow> int \<Rightarrow> bool" where
  "parsed_le L s now = (case lib_parse L s of None \<Rightarrow> False | Some t \<Rightarrow> t \<le> now)"

definition parsed_gt :: "js_lib \<Rightarrow> js_string \<Rightarrow> int \<Rightarrow> bool" where
  "parsed_gt L s now = (case lib_parse L s of None \<Rightarrow> False | Some t \<Rightarrow> now < t)"

definition key_current :: "js_lib \<Rightarrow> int \<Rightarrow> SigningKeyInfo \<Rightarrow> bool" where
  "key_current L now key \<longleftrightarrow>
     parsed_le L (ki_issuedAt key) now \<and>
     (case ki_expiresAt key of None \<Rightarrow> True | Some e \<Rightarrow> parsed_gt L e now)"

definition key_revoked :: "js_lib \<Rightarrow> int \<Rightarrow> SigningKeyInfo \<Rightarrow> bool" where
  "key_revoked L now key \<longleftrightarrow> (case ki_revokedAt key of None \<Rightarrow> False | Some r \<Rightarrow> parsed_le L r now)"

definition verifySignedReceiptTrusted ::
    "js_lib \<Rightarrow> ed25519 \<Rightarrow> int \<Rightarrow> SignedReceipt \<Rightarrow> key_resolver \<Rightarrow>
     verification_status \<times> VerificationSteps" where
  "verifySignedReceiptTrusted L ed now receipt resolveKey =
     (if \<not> verifyReceiptIntegrity L (sr_content receipt) (sr_receiptHash receipt)
      then trustResult PAYLOAD_TAMPERED False False False False False
      else if \<not> verifyReceiptSignature L ed (sr_content receipt) (sr_signature receipt)
                  (sr_signerPublicKey receipt)
      then trustResult CONTENT_VALID True False False False False
      else (case resolveKey (sr_signerKeyId receipt) of
              None \<Rightarrow> trustResult UNKNOWN_SIGNER True True False False False
            | Some key \<Rightarrow>
                if ki_publicKey key \<noteq> sr_signerPublicKey receipt
                then trustResult UNKNOWN_SIGNER True True False False False
                else if \<not> key_current L now key
                then trustResult KEY_EXPIRED True True True False False
                else if key_revoked L now key
                then trustResult KEY_REVOKED True True True True True
                else trustResult SIGNER_TRUSTED True True True True False))"

lemmas receipt_defs = content_fields_def canonicalPayload_def generateReceiptHash_def is_hex_def
  hex_value_def verifyReceiptIntegrity_def signReceipt_def buildSignedReceipt_def
  verifyReceiptSignature_def verifySignedReceipt_def trustResult_def parsed_le_def parsed_gt_def
  key_current_def key_revoked_def verifySignedReceiptTrusted_def

declare receipt_defs [code_defs]

section \<open>The payload determines the content\<close>

definition flat_value :: "js_value \<Rightarrow> bool" where
  "flat_value v \<longleftrightarrow> (case v of J_str _ \<Rightarrow> True | J_num _ \<Rightarrow> True | _ \<Rightarrow> False)"

lemma flat_text:
  assumes "\<forall>(k, v) \<in> set fs. flat_value v"
  shows "sortedStringify fr fs = canonical_text fr (J_obj fs)"
proof -
  have keep: "filter (\<lambda>(k, v). v \<noteq> J_undefined) (sort_fields fs) = sort_fields fs"
    using assms by (auto simp: filter_id_conv flat_value_def)
  have "map (\<lambda>(k, v). json_field (k, json_stringify fr v)) (sort_fields fs) =
      map (\<lambda>(k, v). json_field (k, canonical_text fr v)) (sort_fields fs)"
  proof (rule map_cong [OF refl])
    fix f assume "f \<in> set (sort_fields fs)"
    with assms have "flat_value (snd f)" by auto
    then show "(case f of (k, v) \<Rightarrow> json_field (k, json_stringify fr v)) =
        (case f of (k, v) \<Rightarrow> json_field (k, canonical_text fr v))"
      by (cases f; cases "snd f") (simp_all add: flat_value_def)
  qed
  with keep show ?thesis
    by (simp only: sortedStringify_def json_stringify.simps canonical_obj)
qed

lemma decision_text_inject [simp]: "decision_text a = decision_text b \<longleftrightarrow> a = b"
  by (cases a; cases b) simp_all

lemma content_flat: "\<forall>(k, v) \<in> set (content_fields c). flat_value v"
  by (simp add: content_fields_def flat_value_def)

lemma content_protocol: "protocol_value (J_obj (content_fields c))"
  by (simp add: content_fields_def)

lemma content_sorted: "sort_fields (content_fields c) =
   [(''actorId'', J_str (rc_actorId c)),
    (''companyId'', J_str (rc_companyId c)),
    (''decision'', J_str (decision_text (rc_decision c))),
    (''evidenceHash'', J_str (rc_evidenceHash c)),
    (''missionId'', J_str (rc_missionId c)),
    (''newStatus'', J_str (rc_newStatus c)),
    (''payloadHash'', J_str (rc_payloadHash c)),
    (''previousStatus'', J_str (rc_previousStatus c)),
    (''proposalVersion'', J_num (Fin (of_int (rc_proposalVersion c)))),
    (''timestamp'', J_str (rc_timestamp c))]"
  by (simp add: sort_fields_def content_fields_def less_list_code)

lemma payload_inject: "canonicalPayload L a = canonicalPayload L b \<longleftrightarrow> a = b"
proof
  have closed: "closes []" by (simp add: closes_def)
  assume "canonicalPayload L a = canonicalPayload L b"
  then have "canonical_text (lib_number L) (J_obj (content_fields a)) =
      canonical_text (lib_number L) (J_obj (content_fields b))"
    by (simp only: canonicalPayload_def flat_text [OF content_flat])
  then have "normal (J_obj (content_fields a)) = normal (J_obj (content_fields b))"
    using canonical_text_prefix [OF content_protocol content_protocol closed closed, of "lib_number L" a b]
    by (simp only: append_Nil2 simp_thms)
  then show "a = b"
    unfolding normal_obj content_sorted by (cases a; cases b) simp
qed simp

section \<open>Hexadecimal comparison\<close>

lemma hex_unit_iff:
  fixes n m :: nat
  assumes "48 \<le> m \<and> m \<le> 57 \<or> 97 \<le> m \<and> m \<le> 102"
  shows "(48 \<le> n \<and> n \<le> 57 \<or> 97 \<le> n \<and> n \<le> 102 \<or> 65 \<le> n \<and> n \<le> 70) \<and>
      (if 48 \<le> n \<and> n \<le> 57 then n - 48 else if 97 \<le> n then n - 87 else n - 55) =
      (if 48 \<le> m \<and> m \<le> 57 then m - 48 else if 97 \<le> m then m - 87 else m - 55) \<longleftrightarrow>
    (if 65 \<le> n \<and> n \<le> 90 \<or> 192 \<le> n \<and> n \<le> 222 \<and> n \<noteq> 215 then n + 32 else n) = m"
proof -
  consider "n < 48" | "48 \<le> n" "n \<le> 57" | "58 \<le> n" "n \<le> 64" | "65 \<le> n" "n \<le> 70" | "71 \<le> n" "n \<le> 96"
    | "97 \<le> n" "n \<le> 102" | "103 \<le> n"
    by linarith
  then show ?thesis by cases (use assms in auto)
qed

lemma hex_value_iff:
  assumes "is_hex_lower d"
  shows "is_hex c \<and> hex_value c = hex_value d \<longleftrightarrow> lower_char c = d"
proof -
  let ?n = "code_unit c" and ?m = "code_unit d"
  have m: "48 \<le> ?m \<and> ?m \<le> 57 \<or> 97 \<le> ?m \<and> ?m \<le> 102"
    using assms by (simp add: is_hex_lower_def is_digit_def)
  have "code_unit (lower_char c) =
      (if 65 \<le> ?n \<and> ?n \<le> 90 \<or> 192 \<le> ?n \<and> ?n \<le> 222 \<and> ?n \<noteq> 215 then ?n + 32 else ?n)"
    using code_unit_less [of c] by (simp add: lower_char_def Let_def)
  then have low: "lower_char c = d \<longleftrightarrow>
      (if 65 \<le> ?n \<and> ?n \<le> 90 \<or> 192 \<le> ?n \<and> ?n \<le> 222 \<and> ?n \<noteq> 215 then ?n + 32 else ?n) = ?m"
    by (metis code_unit_inject)
  have "is_hex c \<longleftrightarrow> 48 \<le> ?n \<and> ?n \<le> 57 \<or> 97 \<le> ?n \<and> ?n \<le> 102 \<or> 65 \<le> ?n \<and> ?n \<le> 70"
    by (auto simp: is_hex_def is_hex_lower_def is_digit_def)
  then show ?thesis
    unfolding low hex_value_def Let_def is_digit_def using hex_unit_iff [OF m, of ?n]
    by (simp only:)
qed

lemma is_hex_lower_hex: "is_hex_lower d \<Longrightarrow> is_hex d"
  by (simp add: is_hex_def)

lemma hex_value_less: "is_hex c \<Longrightarrow> hex_value c < 16"
  by (auto simp: is_hex_def is_hex_lower_def is_digit_def hex_value_def Let_def)

lemma pair_eq:
  fixes a b c d :: nat
  assumes "b < 16" and "d < 16"
  shows "16 * a + b = 16 * c + d \<longleftrightarrow> a = c \<and> b = d"
proof
  assume e: "16 * a + b = 16 * c + d"
  have "(16 * a + b) div 16 = a" and "(16 * c + d) div 16 = c" using assms by simp_all
  with e have "a = c" by simp
  with e show "a = c \<and> b = d" by simp
qed simp

lemma hex_buffer_iff:
  assumes "list_all is_hex_lower x" and "even (length x)"
  shows "hex_buffer h = hex_buffer x \<longleftrightarrow>
    length x \<le> length h \<and> to_lower (take (length x) h) = x \<and> hex_buffer (drop (length x) h) = []"
  using assms
proof (induction x arbitrary: h rule: hex_buffer.induct)
  case (1 c d x)
  then have cd: "is_hex_lower c" "is_hex_lower d" "is_hex c" "is_hex d"
    and x: "list_all is_hex_lower x" "even (length x)" by (simp_all add: is_hex_lower_hex)
  show ?case
  proof (cases h rule: hex_buffer.cases)
    case (1 a b s)
    have "hex_buffer h = hex_buffer (c # d # x) \<longleftrightarrow>
        is_hex a \<and> is_hex b \<and> hex_value a = hex_value c \<and> hex_value b = hex_value d \<and>
        hex_buffer s = hex_buffer x"
      using cd pair_eq [of "hex_value b" "hex_value d" "hex_value a" "hex_value c"]
      by (auto simp: 1 hex_value_less)
    also have "\<dots> \<longleftrightarrow> lower_char a = c \<and> lower_char b = d \<and> hex_buffer s = hex_buffer x"
      using hex_value_iff [OF cd(1), of a] hex_value_iff [OF cd(2), of b] by blast
    also have "hex_buffer s = hex_buffer x \<longleftrightarrow>
        length x \<le> length s \<and> to_lower (take (length x) s) = x \<and> hex_buffer (drop (length x) s) = []"
      by (rule "1.IH") (use cd x in simp_all)
    finally show ?thesis by (auto simp: 1 to_lower_def)
  qed (use cd in simp_all)
qed (auto simp: to_lower_def)

text \<open>
  C18: The integrity check compares decoded hexadecimal: against a lowercase SHA-256 it accepts
  exactly the texts whose first 64 characters spell the hash in either case and whose rest decodes to
  no byte. So the receipt hash of an accepted receipt is not unique: an upper-case copy, or one with
  trailing junk, is accepted too.
\<close>

theorem integrity_up_to_hex_decoding:
  assumes "hex64 (generateReceiptHash L content)"
  shows "verifyReceiptIntegrity L content asserted \<longleftrightarrow>
    64 \<le> length asserted \<and> to_lower (take 64 asserted) = generateReceiptHash L content \<and>
    hex_buffer (drop 64 asserted) = []"
proof -
  have h: "list_all is_hex_lower (generateReceiptHash L content)" "length (generateReceiptHash L content) = 64"
    using assms by (simp_all add: hex64_def)
  have "verifyReceiptIntegrity L content asserted \<longleftrightarrow>
      hex_buffer asserted = hex_buffer (generateReceiptHash L content)"
    by (auto simp: verifyReceiptIntegrity_def Let_def)
  with hex_buffer_iff [OF h(1)] h(2) show ?thesis by simp
qed

definition sample_sha :: js_string where
  "sample_sha = replicate 64 CHR ''a''"

definition sample_receipt_lib :: js_lib where
  "sample_receipt_lib = sample_lib\<lparr>lib_sha256 := \<lambda>_. sample_sha\<rparr>"

definition sample_content :: ReceiptContent where
  "sample_content =
     \<lparr>rc_missionId = ''m1'', rc_companyId = ''20100070970'', rc_actorId = ''ana'', rc_decision = APPROVE,
      rc_proposalVersion = 3, rc_evidenceHash = sample_sha, rc_previousStatus = ''AWAITING_APPROVAL'',
      rc_newStatus = ''APPROVED'', rc_payloadHash = sample_sha, rc_timestamp = ''2026''\<rparr>"

lemma sample_content_hash: "generateReceiptHash sample_receipt_lib c = sample_sha"
  by (simp add: generateReceiptHash_def sample_receipt_lib_def)

theorem integrity_up_to_hex_decoding_witness:
  "verifyReceiptIntegrity sample_receipt_lib sample_content (replicate 64 CHR ''A'' @ ''zz'')"
proof -
  have "hex64 (generateReceiptHash sample_receipt_lib sample_content)"
    unfolding sample_content_hash sample_sha_def by code_simp
  moreover have "to_lower (take 64 (replicate 64 CHR ''A'' @ ''zz'')) = sample_sha"
    "hex_buffer (drop 64 (replicate 64 CHR ''A'' @ ''zz'')) = []"
    unfolding sample_sha_def by code_simp+
  ultimately show ?thesis
    by (simp add: integrity_up_to_hex_decoding sample_content_hash)
qed

section \<open>What a verified receipt proves\<close>

lemma integrity_of_hash: "hex64 (generateReceiptHash L a) \<Longrightarrow> hex64 (generateReceiptHash L b) \<Longrightarrow>
    verifyReceiptIntegrity L b (generateReceiptHash L a) \<longleftrightarrow> generateReceiptHash L a = generateReceiptHash L b"
proof -
  assume a: "hex64 (generateReceiptHash L a)" and b: "hex64 (generateReceiptHash L b)"
  have "to_lower (generateReceiptHash L a) = generateReceiptHash L a"
    using a by (auto simp: hex64_def to_lower_def list_all_iff lower_char_def is_hex_lower_def is_digit_def
        Let_def intro!: map_idI)
  moreover have "verifyReceiptIntegrity L b (generateReceiptHash L a) \<longleftrightarrow>
      hex_buffer (generateReceiptHash L a) = hex_buffer (generateReceiptHash L b)"
    by (auto simp: verifyReceiptIntegrity_def Let_def)
  moreover have "even (length (generateReceiptHash L b))" "list_all is_hex_lower (generateReceiptHash L b)"
    "length (generateReceiptHash L b) = length (generateReceiptHash L a)"
    using a b by (simp_all add: hex64_def)
  ultimately show ?thesis
    using hex_buffer_iff [of "generateReceiptHash L b" "generateReceiptHash L a"] by auto
qed

text \<open>
  A signed receipt round-trips: with an Ed25519 whose verification accepts the pair's own
  signatures and a hash in lowercase hexadecimal, the built receipt verifies, and it is trusted
  exactly when the resolver knows the key id with this public key, the key is current and it is not
  revoked; otherwise the status says what failed.
\<close>

theorem signed_receipt_roundtrip:
  assumes "hex64 (generateReceiptHash L content)"
    and "\<And>p. ed_verify ed p (kp_publicKey pair) (ed_sign ed p (kp_privateKey pair))"
    and "receipt = buildSignedReceipt L ed issued content pair version rtype"
  shows "sv_valid (verifySignedReceipt L ed receipt) \<and>
    fst (verifySignedReceiptTrusted L ed now receipt resolve) =
      (case resolve (kp_keyId pair) of
         None \<Rightarrow> UNKNOWN_SIGNER
       | Some key \<Rightarrow>
           if ki_publicKey key \<noteq> kp_publicKey pair then UNKNOWN_SIGNER
           else if \<not> key_current L now key then KEY_EXPIRED
           else if key_revoked L now key then KEY_REVOKED else SIGNER_TRUSTED)"
proof -
  have "verifyReceiptIntegrity L content (generateReceiptHash L content)"
    using integrity_of_hash [OF assms(1,1)] by simp
  with assms(2) show ?thesis
    by (simp add: assms(3) buildSignedReceipt_def verifySignedReceipt_def Let_def signReceipt_def
        verifyReceiptSignature_def verifySignedReceiptTrusted_def trustResult_def split: option.split)
qed

definition sample_ed :: ed25519 where
  "sample_ed = \<lparr>ed_sign = (\<lambda>p k. k @ '':'' @ p), ed_verify = (\<lambda>p k s. s = k @ '':'' @ p)\<rparr>"

definition sample_pair :: ReceiptKeyPair where
  "sample_pair = \<lparr>kp_publicKey = ''k'', kp_privateKey = ''k'', kp_keyId = ''key_1''\<rparr>"

definition sample_key :: SigningKeyInfo where
  "sample_key = \<lparr>ki_keyId = ''key_1'', ki_publicKey = ''k'', ki_issuedAt = ''1'', ki_expiresAt = None,
     ki_revokedAt = Some []\<rparr>"

definition sample_receipt :: SignedReceipt where
  "sample_receipt =
     buildSignedReceipt sample_receipt_lib sample_ed ''2026'' sample_content sample_pair ''1.0'' APPROVAL"

lemma sample_sha_hex: "hex64 (generateReceiptHash sample_receipt_lib c)"
  unfolding sample_content_hash sample_sha_def by code_simp

lemma sample_ed_law: "ed_verify sample_ed p (kp_publicKey sample_pair) (ed_sign sample_ed p (kp_privateKey sample_pair))"
  by (simp add: sample_ed_def sample_pair_def)

theorem signed_receipt_roundtrip_witness:
  "fst (verifySignedReceiptTrusted sample_receipt_lib sample_ed 9 sample_receipt (\<lambda>_. Some sample_key)) =
     SIGNER_TRUSTED"
  using signed_receipt_roundtrip [OF sample_sha_hex sample_ed_law sample_receipt_def,
      of 9 "\<lambda>_. Some sample_key"]
  by (simp add: sample_receipt_def sample_pair_def sample_key_def key_current_def key_revoked_def
      parsed_le_def sample_receipt_lib_def sample_lib_def)

text \<open>
  C17: A receipt is trusted exactly when its hash decodes to the content's hash, its signature
  verifies over the canonical payload, and the resolver's key for its signer has the embedded public
  key, is current and has no revocation date that parses to the past. If no one can make the key
  verify a payload its owner did not sign, a trusted receipt's content is one the owner signed. A
  revocation date that does not parse leaves the key trusted.
\<close>

theorem trusted_receipt_was_signed:
  assumes "\<And>p s. ed_verify ed p (sr_signerPublicKey receipt) s \<Longrightarrow> p \<in> canonicalPayload L ` signed"
  shows "(fst (verifySignedReceiptTrusted L ed now receipt resolve) = SIGNER_TRUSTED \<longleftrightarrow>
      sv_valid (verifySignedReceipt L ed receipt) \<and>
      (\<exists>key. resolve (sr_signerKeyId receipt) = Some key \<and> ki_publicKey key = sr_signerPublicKey receipt \<and>
         key_current L now key \<and>
         (\<forall>r t. ki_revokedAt key = Some r \<and> lib_parse L r = Some t \<longrightarrow> now < t))) \<and>
    (fst (verifySignedReceiptTrusted L ed now receipt resolve) = SIGNER_TRUSTED \<longrightarrow>
      sr_content receipt \<in> signed)"
proof -
  have exact: "fst (verifySignedReceiptTrusted L ed now receipt resolve) = SIGNER_TRUSTED \<longleftrightarrow>
      sv_valid (verifySignedReceipt L ed receipt) \<and>
      (\<exists>key. resolve (sr_signerKeyId receipt) = Some key \<and> ki_publicKey key = sr_signerPublicKey receipt \<and>
         key_current L now key \<and> \<not> key_revoked L now key)"
    by (auto simp: verifySignedReceiptTrusted_def verifySignedReceipt_def Let_def trustResult_def
        split: option.splits)
  have revoked: "\<not> key_revoked L now key \<longleftrightarrow>
      (\<forall>r t. ki_revokedAt key = Some r \<and> lib_parse L r = Some t \<longrightarrow> now < t)" for key
    by (auto simp: key_revoked_def parsed_le_def split: option.splits)
  have "sr_content receipt \<in> signed" if "sv_valid (verifySignedReceipt L ed receipt)"
  proof -
    have "ed_verify ed (canonicalPayload L (sr_content receipt)) (sr_signerPublicKey receipt) (sr_signature receipt)"
      using that by (simp add: verifySignedReceipt_def Let_def verifyReceiptSignature_def)
    from assms [OF this] show ?thesis by (auto simp: payload_inject)
  qed
  with exact show ?thesis unfolding revoked [symmetric] by blast
qed

definition sample_owned :: ed25519 where
  "sample_owned =
     \<lparr>ed_sign = (\<lambda>p k. k), ed_verify = (\<lambda>p k s. p = canonicalPayload sample_receipt_lib sample_content)\<rparr>"

theorem trusted_receipt_was_signed_witness:
  "fst (verifySignedReceiptTrusted sample_receipt_lib sample_owned 9 sample_receipt (\<lambda>_. Some sample_key)) =
     SIGNER_TRUSTED \<and> sr_content sample_receipt \<in> {sample_content}"
proof -
  have valid: "sv_valid (verifySignedReceipt sample_receipt_lib sample_owned sample_receipt)"
    using integrity_of_hash [OF sample_sha_hex sample_sha_hex, of sample_content sample_content]
    by (simp add: verifySignedReceipt_def Let_def verifyReceiptSignature_def sample_owned_def
        sample_receipt_def buildSignedReceipt_def)
  have law: "\<And>p s. ed_verify sample_owned p (sr_signerPublicKey sample_receipt) s \<Longrightarrow>
      p \<in> canonicalPayload sample_receipt_lib ` {sample_content}"
    by (simp add: sample_owned_def)
  have key: "ki_publicKey sample_key = sr_signerPublicKey sample_receipt"
    "key_current sample_receipt_lib 9 sample_key" "lib_parse sample_receipt_lib [] = None"
    "ki_revokedAt sample_key = Some []"
    by (simp_all add: sample_receipt_def buildSignedReceipt_def sample_pair_def sample_key_def
        key_current_def parsed_le_def sample_receipt_lib_def sample_lib_def)
  show ?thesis
    using trusted_receipt_was_signed [of sample_owned sample_receipt sample_receipt_lib "{sample_content}" 9
        "\<lambda>_. Some sample_key", OF law] valid key by simp
qed

text \<open>
  The receipt hash binds the content: unless SHA-256 collides on the two payloads, the hash of
  one content passes the integrity check of another only if the contents are the same in every
  field.
\<close>

theorem receipt_hash_binds_content:
  assumes "hex64 (generateReceiptHash L a)" and "hex64 (generateReceiptHash L b)"
    and "lib_sha256 L (canonicalPayload L a) = lib_sha256 L (canonicalPayload L b) \<Longrightarrow>
      canonicalPayload L a = canonicalPayload L b"
  shows "verifyReceiptIntegrity L b (generateReceiptHash L a) \<longleftrightarrow> a = b"
proof -
  have "generateReceiptHash L a = generateReceiptHash L b \<longleftrightarrow> a = b"
    using assms(3) payload_inject [of L a b] by (auto simp: generateReceiptHash_def)
  then show ?thesis unfolding integrity_of_hash [OF assms(1,2)] .
qed

theorem receipt_hash_binds_content_witness:
  "\<not> verifyReceiptIntegrity
     (sample_receipt_lib\<lparr>lib_sha256 :=
        \<lambda>s. if s = canonicalPayload sample_receipt_lib sample_content then replicate 64 CHR ''b'' else sample_sha\<rparr>)
     (sample_content\<lparr>rc_proposalVersion := 4\<rparr>) (replicate 64 CHR ''b'')"
proof -
  let ?L = "sample_receipt_lib\<lparr>lib_sha256 :=
    \<lambda>s. if s = canonicalPayload sample_receipt_lib sample_content then replicate 64 CHR ''b'' else sample_sha\<rparr>"
  let ?b = "sample_content\<lparr>rc_proposalVersion := 4\<rparr>"
  have same: "canonicalPayload ?L c = canonicalPayload sample_receipt_lib c" for c
    by (simp add: canonicalPayload_def)
  have ne: "canonicalPayload sample_receipt_lib ?b \<noteq> canonicalPayload sample_receipt_lib sample_content"
    unfolding payload_inject by (simp add: sample_content_def)
  have a: "generateReceiptHash ?L sample_content = replicate 64 CHR ''b''"
    and b: "generateReceiptHash ?L ?b = sample_sha"
    using ne by (simp_all add: generateReceiptHash_def same)
  have ha: "hex64 (generateReceiptHash ?L sample_content)" unfolding a by code_simp
  have sha: "hex64 sample_sha" by code_simp
  have hb: "hex64 (generateReceiptHash ?L ?b)" by (simp only: b sha)
  have "replicate 64 CHR ''b'' \<noteq> sample_sha" unfolding sample_sha_def by code_simp
  with a b have coll: "lib_sha256 ?L (canonicalPayload ?L sample_content) = lib_sha256 ?L (canonicalPayload ?L ?b) \<Longrightarrow>
      canonicalPayload ?L sample_content = canonicalPayload ?L ?b"
    unfolding generateReceiptHash_def by simp
  show ?thesis
    using receipt_hash_binds_content [OF ha hb coll] unfolding a by (simp add: sample_content_def)
qed

end
