(* ===== verification/Gates.thy ===== *)
theory Gates
  imports Mission_Store Authorization Receipts
begin

text \<open>
  \<^verbatim>\<open>gates/types.ts\<close>, \<^verbatim>\<open>gates/approval.ts\<close>,
  \<^verbatim>\<open>gates/authorization.ts\<close>, \<^verbatim>\<open>gates/mission.ts\<close>,
  \<^verbatim>\<open>gates/receipt.ts\<close> and \<^verbatim>\<open>gates/runner.ts\<close>: the checkpoints before an
  action. The text of a reason is the datatype \<open>gate_reason\<close>, the untyped envelope the datatype
  \<open>envelope\<close>. The role assignments an authorization gate is built with are untyped.
\<close>

section \<open>Data\<close>

datatype gate_name = G_mission | G_receipt | G_approval | G_authorization | G_pre_commit | G_release

datatype gate_verdict = Allowed | Blocked | Needs_Input

record ApprovalRecord =
  ap_approverId :: js_string
  ap_at :: js_string
  ap_reason :: "js_string option"

datatype envelope =
  Env_Required materiality nat "ApprovalRecord list"
| Env_Dual materiality nat "js_string list" "ApprovalRecord list"
| Env_Missing_Scope materiality "ApprovalRecord list"
| Env_Missing_Assignments materiality "ApprovalRecord list"
| Env_Denial rbac_denial js_string "ApprovalRecord list"
| Env_Transition mission_status mission_status mission_error_code
| Env_Receipt verification_status VerificationSteps js_string bool

datatype gate_reason =
  Not_Required materiality
| Needs_Approval
| Approvals_Recorded nat
| Dual_Required nat
| Dual_Recorded nat
| No_Scope
| No_Assignments
| Approver_Denied js_string rbac_denial
| All_Authorized
| No_Mission
| No_Target
| Illegal_Transition mission_status mission_status mission_error_code
| Legal_Transition mission_status mission_status
| No_Receipt
| Receipt_Verified js_string
| Receipt_Failed verification_status

record GateResult =
  gr_gate :: gate_name
  gr_verdict :: gate_verdict
  gr_reason :: gate_reason
  gr_envelope :: "envelope option"

record GateContext =
  gc_mission :: "MissionSnapshot option"
  gc_targetStatus :: "mission_status option"
  gc_receipt :: "SignedReceipt option"
  gc_trustedKeys :: "SigningKeyInfo list option"
  gc_materiality :: "materiality option"
  gc_approval :: "ApprovalRecord list option"

type_synonym gate = "GateContext \<Rightarrow> GateResult"

definition gate_result :: "gate_name \<Rightarrow> gate_verdict \<Rightarrow> gate_reason \<Rightarrow> envelope option \<Rightarrow> GateResult" where
  "gate_result g v r e = \<lparr>gr_gate = g, gr_verdict = v, gr_reason = r, gr_envelope = e\<rparr>"

section \<open>Approval\<close>

definition DUAL_APPROVAL_COUNT :: nat where
  "DUAL_APPROVAL_COUNT = 2"

definition distinctApprovers :: "ApprovalRecord list \<Rightarrow> nat" where
  "distinctApprovers approval = card (set (map ap_approverId approval))"

text \<open>\<open>??\<close>, the value or its default, and the elements of a set in insertion order.\<close>

fun or_default :: "'a option \<Rightarrow> 'a \<Rightarrow> 'a" where
  "or_default None d = d"
| "or_default (Some x) d = x"

definition set_elements :: "'a list \<Rightarrow> 'a list" where
  "set_elements xs = rev (remdups (rev xs))"

definition approval_gate :: gate where
  "approval_gate ctx =
     (let tier = or_default (gc_materiality ctx) R0;
          approvals = or_default (gc_approval ctx) []
      in if orderOf tier \<le> orderOf R1 then gate_result G_approval Allowed (Not_Required tier) None
         else if tier = R2 then
           (if length approvals = 0
            then gate_result G_approval Needs_Input Needs_Approval (Some (Env_Required tier 1 approvals))
            else gate_result G_approval Allowed (Approvals_Recorded (length approvals)) None)
         else
           (let distinct_count = distinctApprovers approvals
            in if distinct_count < DUAL_APPROVAL_COUNT
               then gate_result G_approval Blocked (Dual_Required distinct_count)
                      (Some (Env_Dual tier DUAL_APPROVAL_COUNT (set_elements (map ap_approverId approvals))
                         approvals))
               else gate_result G_approval Allowed (Dual_Recorded distinct_count) None))"

section \<open>Authorization\<close>

definition deriveScope :: "GateContext \<Rightarrow> TenantScope option" where
  "deriveScope ctx =
     (case gc_mission ctx of
        None \<Rightarrow> None
      | Some mission \<Rightarrow>
          (case validateTenantScope
                  (J_obj [(''companyId'', J_str (sn_companyId mission)),
                          (''ruc'', J_str (sn_companyId mission)),
                          (''period'', J_str (sn_fiscalPeriod mission))]) of
             Inl _ \<Rightarrow> None
           | Inr scope \<Rightarrow> Some scope))"

fun tier_code :: "materiality \<Rightarrow> js_string" where
  "tier_code R0 = ''R0''"
| "tier_code R1 = ''R1''"
| "tier_code R2 = ''R2''"
| "tier_code R3 = ''R3''"

definition approval_request ::
    "js_value list \<Rightarrow> js_string \<Rightarrow> TenantScope \<Rightarrow> materiality option \<Rightarrow> js_value" where
  "approval_request assignments approver scope m =
     J_obj [(''assignments'', J_arr assignments), (''identity'', J_str approver),
            (''permission'', J_str ''close:approve''), (''scope'', scope_value scope),
            (''materiality'', case m of None \<Rightarrow> J_undefined | Some t \<Rightarrow> J_str (tier_code t))]"

fun check_approvers ::
    "js_value list \<Rightarrow> TenantScope \<Rightarrow> materiality option \<Rightarrow> ApprovalRecord list \<Rightarrow> ApprovalRecord list \<Rightarrow>
     GateResult" where
  "check_approvers assignments scope m approvals [] =
     gate_result G_authorization Allowed All_Authorized None"
| "check_approvers assignments scope m approvals (r # rs) =
     (case authorize (approval_request assignments (ap_approverId r) scope m) of
        Inl denial \<Rightarrow>
          gate_result G_authorization Blocked (Approver_Denied (ap_approverId r) denial)
            (Some (Env_Denial denial (ap_approverId r) approvals))
      | Inr _ \<Rightarrow> check_approvers assignments scope m approvals rs)"

definition authorization_gate :: "js_value list \<Rightarrow> gate" where
  "authorization_gate assignments ctx =
     (let approvalResult = approval_gate ctx;
          tierResult = approvalResult\<lparr>gr_gate := G_authorization\<rparr>;
          tier = or_default (gc_materiality ctx) R0;
          approvals = or_default (gc_approval ctx) []
      in if tier = R0 \<or> tier = R1 then tierResult
         else if gr_verdict approvalResult \<noteq> Allowed then tierResult
         else (case deriveScope ctx of
                 None \<Rightarrow>
                   gate_result G_authorization Needs_Input No_Scope (Some (Env_Missing_Scope tier approvals))
               | Some scope \<Rightarrow>
                   if length assignments = 0
                   then gate_result G_authorization Needs_Input No_Assignments
                          (Some (Env_Missing_Assignments tier approvals))
                   else check_approvers assignments scope (gc_materiality ctx) approvals approvals))"

section \<open>Mission state\<close>

definition mission_gate :: gate where
  "mission_gate ctx =
     (case gc_mission ctx of
        None \<Rightarrow> gate_result G_mission Blocked No_Mission None
      | Some mission \<Rightarrow>
          (case gc_targetStatus ctx of
             None \<Rightarrow> gate_result G_mission Blocked No_Target None
           | Some target \<Rightarrow>
               (case (case guardTerminal (sn_status mission) of
                        Inl e \<Rightarrow> Inl e
                      | Inr _ \<Rightarrow> validateTransition (sn_status mission) target) of
                  Inl e \<Rightarrow>
                    gate_result G_mission Blocked (Illegal_Transition (sn_status mission) target (err_code e))
                      (Some (Env_Transition (sn_status mission) target (err_code e)))
                | Inr _ \<Rightarrow> gate_result G_mission Allowed (Legal_Transition (sn_status mission) target) None)))"

section \<open>Receipt\<close>

definition EPOCH_ISSUED_AT :: js_string where
  "EPOCH_ISSUED_AT = ''1970-01-01T00:00:00.000Z''"

definition trustedKeysResolver :: "SigningKeyInfo list \<Rightarrow> key_resolver" where
  "trustedKeysResolver keys keyId = find (\<lambda>key. ki_keyId key = keyId) keys"

definition selfTrustResolver :: "SignedReceipt \<Rightarrow> key_resolver" where
  "selfTrustResolver receipt keyId =
     (if keyId = sr_signerKeyId receipt
      then Some \<lparr>ki_keyId = keyId, ki_publicKey = sr_signerPublicKey receipt,
                 ki_issuedAt = EPOCH_ISSUED_AT, ki_expiresAt = None, ki_revokedAt = None\<rparr>
      else None)"

definition receipt_gate :: "js_lib \<Rightarrow> ed25519 \<Rightarrow> int \<Rightarrow> gate" where
  "receipt_gate L ed now ctx =
     (case gc_receipt ctx of
        None \<Rightarrow> gate_result G_receipt Blocked No_Receipt None
      | Some receipt \<Rightarrow>
          (let resolver =
                 (case gc_trustedKeys ctx of
                    Some keys \<Rightarrow> if 0 < length keys then trustedKeysResolver keys else selfTrustResolver receipt
                  | None \<Rightarrow> selfTrustResolver receipt);
               local = verifySignedReceipt L ed receipt;
               trusted = verifySignedReceiptTrusted L ed now receipt resolver
           in if sv_valid local \<and> fst trusted = SIGNER_TRUSTED
              then gate_result G_receipt Allowed (Receipt_Verified (sr_signerKeyId receipt)) None
              else gate_result G_receipt Blocked (Receipt_Failed (fst trusted))
                     (Some (Env_Receipt (fst trusted) (snd trusted) (sr_signerKeyId receipt)
                        (sv_valid local)))))"

section \<open>Runner\<close>

fun run_gates :: "gate list \<Rightarrow> GateContext \<Rightarrow> GateResult list" where
  "run_gates [] ctx = []"
| "run_gates (gate # gates) ctx =
     (let result = gate ctx
      in if gr_verdict result \<noteq> Allowed then [result] else result # run_gates gates ctx)"

lemmas gate_defs = gate_result_def DUAL_APPROVAL_COUNT_def distinctApprovers_def set_elements_def
  approval_gate_def deriveScope_def approval_request_def authorization_gate_def mission_gate_def
  EPOCH_ISSUED_AT_def trustedKeysResolver_def selfTrustResolver_def receipt_gate_def

declare gate_defs [code_defs]

section \<open>Properties\<close>

lemma gate_result_sel [simp]:
  "gr_gate (gate_result g v r e) = g" "gr_verdict (gate_result g v r e) = v"
  "gr_reason (gate_result g v r e) = r" "gr_envelope (gate_result g v r e) = e"
  by (simp_all add: gate_result_def)

text \<open>
  The runner is fail-closed and deterministic: it answers the results of the gates in order up
  to and including the first that is not allowed, and all answers are allowed exactly when every
  gate allows.
\<close>

theorem gate_runner_is_fail_closed:
  "run_gates gates ctx =
     map (\<lambda>g. g ctx) (take (Suc (length (takeWhile (\<lambda>g. gr_verdict (g ctx) = Allowed) gates))) gates) \<and>
   (list_all (\<lambda>r. gr_verdict r = Allowed) (run_gates gates ctx) \<longleftrightarrow>
     list_all (\<lambda>g. gr_verdict (g ctx) = Allowed) gates)"
proof (intro conjI)
  show "list_all (\<lambda>r. gr_verdict r = Allowed) (run_gates gates ctx) \<longleftrightarrow>
      list_all (\<lambda>g. gr_verdict (g ctx) = Allowed) gates"
    by (induction gates) (auto simp: Let_def)
qed (induction gates; simp add: Let_def)

lemma two_distinct: "2 \<le> card (set xs) \<longleftrightarrow> (\<exists>a \<in> set xs. \<exists>b \<in> set xs. a \<noteq> b)"
proof
  assume c: "2 \<le> card (set xs)"
  then obtain a where a: "a \<in> set xs" by (cases xs) auto
  have "\<not> set xs \<subseteq> {a}"
    using c card_mono [of "{a}" "set xs"] by auto
  with a show "\<exists>a \<in> set xs. \<exists>b \<in> set xs. a \<noteq> b" by blast
next
  assume "\<exists>a \<in> set xs. \<exists>b \<in> set xs. a \<noteq> b"
  then obtain a b where "{a, b} \<subseteq> set xs" "a \<noteq> b" by blast
  then show "2 \<le> card (set xs)" using card_mono [of "set xs" "{a, b}"] by simp
qed

lemma approval_allowed: "gr_verdict (approval_gate ctx) = Allowed \<longleftrightarrow>
    (case or_default (gc_materiality ctx) R0 of
       R2 \<Rightarrow> or_default (gc_approval ctx) [] \<noteq> []
     | R3 \<Rightarrow> (\<exists>a \<in> set (or_default (gc_approval ctx) []). \<exists>b \<in> set (or_default (gc_approval ctx) []).
              ap_approverId a \<noteq> ap_approverId b)
     | _ \<Rightarrow> True)"
  using two_distinct [of "map ap_approverId (or_default (gc_approval ctx) [])"]
  by (cases "or_default (gc_materiality ctx) R0")
    (auto simp: approval_gate_def Let_def distinctApprovers_def DUAL_APPROVAL_COUNT_def not_less)

lemma check_approvers_allowed: "gr_verdict (check_approvers as s m all rs) = Allowed \<longleftrightarrow>
    (\<forall>r \<in> set rs. \<not> isl (authorize (approval_request as (ap_approverId r) s m)))"
  by (induction rs) (auto split: sum.splits)

lemma authorization_allowed: "gr_verdict (authorization_gate as ctx) = Allowed \<longleftrightarrow>
    or_default (gc_materiality ctx) R0 \<in> {R0, R1} \<or>
    gr_verdict (approval_gate ctx) = Allowed \<and> as \<noteq> [] \<and>
    (\<exists>s. deriveScope ctx = Some s \<and>
      (\<forall>r \<in> set (or_default (gc_approval ctx) []).
         \<not> isl (authorize (approval_request as (ap_approverId r) s (gc_materiality ctx)))))"
proof (cases "or_default (gc_materiality ctx) R0 \<in> {R0, R1}")
  case True
  then have "gr_verdict (approval_gate ctx) = Allowed" by (auto simp: approval_allowed)
  with True show ?thesis by (auto simp: authorization_gate_def Let_def)
next
  case False
  then show ?thesis
    by (auto simp: authorization_gate_def Let_def check_approvers_allowed split: option.splits)
qed

lemma only_approvers_approve: "Close_Approve \<in> set (ROLE_PERMISSIONS r) \<longleftrightarrow> r = Approver"
  by (cases r) simp_all

lemma request_fields [simp]:
  "is_plain_record (approval_request as i s m)"
  "get_field (approval_request as i s m) ''assignments'' = J_arr as"
  "get_field (approval_request as i s m) ''identity'' = J_str i"
  "get_field (approval_request as i s m) ''permission'' = J_str (permission_code Close_Approve)"
  "get_field (approval_request as i s m) ''scope'' = scope_value s"
  by (simp_all add: approval_request_def)

definition approver_at :: "js_value list \<Rightarrow> TenantScope \<Rightarrow> js_string \<Rightarrow> bool" where
  "approver_at as s i \<longleftrightarrow>
     (\<exists>a vs. a \<in> set as \<and> assigned_to i a \<and> at_scope s a \<and> get_field a ''roles'' = J_arr vs \<and>
       J_str ''approver'' \<in> set vs)"

lemma authorized_approver:
  assumes "valid_scope s" and "\<not> isl (authorize (approval_request as i s m))"
  shows "approver_at as s i"
proof -
  let ?r = "approval_request as i s m"
  obtain t where t: "authorize ?r = Inr t" using assms(2) by (cases "authorize ?r") auto
  from authorize_InrD [OF t] have ctx: "context_ok ?r" and ok: "list_all assignment_ok as" by auto
  have s: "validateTenantScope (get_field ?r ''scope'') = Inr s"
    using assms(1) validate_scope_value by simp
  have "authorize ?r = decision_on as i Close_Approve s"
    using authorize_decides [OF ctx _ s _ ok, of Close_Approve] by (simp add: str_field_def)
  with t obtain a where "filter (\<lambda>a. assigned_to i a \<and> at_scope s a) as = [a]" and g: "grants Close_Approve a"
    by (auto simp: decision_Inr_iff)
  then have "a \<in> set (filter (\<lambda>a. assigned_to i a \<and> at_scope s a) as)" by simp
  with g show ?thesis
    by (fastforce simp: approver_at_def grants_def only_approvers_approve)
qed

lemma deriveScope_valid: "deriveScope ctx = Some s \<Longrightarrow> valid_scope s"
  by (auto simp: deriveScope_def split: option.splits sum.splits dest: validate_valid)

lemma segregated: "assertSegregation (J_obj [(''closeStepId'', c), (''proposerId'', p), (''approverIds'', J_arr as)]) = None
    \<Longrightarrow> p \<notin> set as"
  by (auto simp: assertSegregation_def split: if_splits)

text \<open>
  C16: Four eyes, and six with segregation. If the authorization gate allows an R3 action, two
  different people among its approvers hold, each through an assignment of their own, the role
  approver at exactly the tenant scope of the mission; if moreover the close step passes the
  segregation check, neither of them is its proposer.
\<close>

theorem r3_needs_two_authorized_people:
  assumes "gr_verdict (authorization_gate assignments ctx) = Allowed"
    and "gc_materiality ctx = Some R3" and "gc_approval ctx = Some approvals"
  shows "\<exists>a b scope. a \<in> set (map ap_approverId approvals) \<and> b \<in> set (map ap_approverId approvals) \<and> a \<noteq> b \<and>
    deriveScope ctx = Some scope \<and> approver_at assignments scope a \<and> approver_at assignments scope b \<and>
    (\<forall>step proposer.
      assertSegregation (J_obj [(''closeStepId'', J_str step), (''proposerId'', J_str proposer),
        (''approverIds'', J_arr (map (\<lambda>r. J_str (ap_approverId r)) approvals))]) = None \<longrightarrow>
      a \<noteq> proposer \<and> b \<noteq> proposer)"
proof -
  from assms obtain s where q: "gr_verdict (approval_gate ctx) = Allowed" and s: "deriveScope ctx = Some s"
    and all: "\<And>r. r \<in> set approvals \<Longrightarrow>
      \<not> isl (authorize (approval_request assignments (ap_approverId r) s (Some R3)))"
    by (auto simp: authorization_allowed)
  from q assms(2,3) obtain x y where xy: "x \<in> set approvals" "y \<in> set approvals"
    "ap_approverId x \<noteq> ap_approverId y"
    by (auto simp: approval_allowed)
  note appr = authorized_approver [OF deriveScope_valid [OF s] all]
  have "a \<noteq> proposer" if "assertSegregation (J_obj [(''closeStepId'', J_str step),
      (''proposerId'', J_str proposer), (''approverIds'', J_arr (map (\<lambda>r. J_str (ap_approverId r)) approvals))]) = None"
    and "a \<in> set (map ap_approverId approvals)" for a step proposer
    using segregated [OF that(1)] that(2) by auto
  with xy s appr [OF xy(1)] appr [OF xy(2)] show ?thesis
    by (intro exI [of _ "ap_approverId x"] exI [of _ "ap_approverId y"] exI [of _ s]) auto
qed

definition sample_mission_at :: "mission_status \<Rightarrow> MissionSnapshot" where
  "sample_mission_at s =
     \<lparr>sn_id = ''m1'', sn_companyId = ''20100070970'', sn_fiscalPeriod = ''202607'', sn_intent = Monthly_Close,
      sn_status = s, sn_version = 1, sn_progress = 0, sn_steps = [], sn_currentStep = [], sn_blockers = [],
      sn_proposal = None, sn_rejection = None, sn_receiptId = None, sn_receiptHash = None,
      sn_lastEventSequence = 1, sn_createdAt = [], sn_updatedAt = []\<rparr>"

definition sample_approvals :: "ApprovalRecord list" where
  "sample_approvals =
     [\<lparr>ap_approverId = ''ana'', ap_at = [], ap_reason = None\<rparr>, \<lparr>ap_approverId = ''luis'', ap_at = [], ap_reason = None\<rparr>]"

definition sample_gate_ctx :: GateContext where
  "sample_gate_ctx =
     \<lparr>gc_mission = Some (sample_mission_at AWAITING_APPROVAL), gc_targetStatus = Some APPROVED, gc_receipt = None,
      gc_trustedKeys = None, gc_materiality = Some R3, gc_approval = Some sample_approvals\<rparr>"

definition sample_gate_scope :: TenantScope where
  "sample_gate_scope = \<lparr>sc_companyId = ''20100070970'', sc_ruc = ''20100070970'', sc_period = ''202607''\<rparr>"

definition sample_gate_assignments :: "js_value list" where
  "sample_gate_assignments =
     map (\<lambda>i. J_obj [(''identity'', J_str i), (''scope'', scope_value sample_gate_scope),
                     (''roles'', J_arr [J_str ''approver''])]) [''ana'', ''luis'']"

theorem r3_needs_two_authorized_people_witness:
  "\<exists>a b. a \<in> {''ana'', ''luis''} \<and> b \<in> {''ana'', ''luis''} \<and> a \<noteq> b \<and>
     approver_at sample_gate_assignments sample_gate_scope a \<and> approver_at sample_gate_assignments sample_gate_scope b"
proof -
  have "gr_verdict (authorization_gate sample_gate_assignments sample_gate_ctx) = Allowed" by code_simp
  moreover have "deriveScope sample_gate_ctx = Some sample_gate_scope" by code_simp
  ultimately show ?thesis
    using r3_needs_two_authorized_people [of sample_gate_assignments sample_gate_ctx sample_approvals]
    by (auto simp: sample_gate_ctx_def sample_approvals_def)
qed

lemma guarded_transition:
  "(case guardTerminal s of Inl e \<Rightarrow> Inl e | Inr _ \<Rightarrow> validateTransition s t) =
     (if mission_step s t then Inr ()
      else Inl (if isTerminal s then MissionError E_TERMINAL_STATE_GUARD (Some 409) (D_status s)
                else MissionError E_INVALID_TRANSITION None (D_move s t)))"
  using terminal_no_step [of s t] validateTransition_Inr_iff [of s t]
  by (auto simp: guardTerminal_def isTerminal_def validateTransition_def transition_Inl)

text \<open>
  The mission gate allows exactly the steps the runtime can take: a present mission, a present
  target and a transition of the matrix. A blocked step carries the code the runtime would answer.
\<close>

theorem mission_gate_is_the_matrix:
  "(gr_verdict (mission_gate ctx) = Allowed \<longleftrightarrow>
     (\<exists>m t. gc_mission ctx = Some m \<and> gc_targetStatus ctx = Some t \<and> mission_step (sn_status m) t)) \<and>
   (\<forall>m t. gc_mission ctx = Some m \<and> gc_targetStatus ctx = Some t \<and> \<not> mission_step (sn_status m) t \<longrightarrow>
     gr_envelope (mission_gate ctx) =
       Some (Env_Transition (sn_status m) t
         (if isTerminal (sn_status m) then E_TERMINAL_STATE_GUARD else E_INVALID_TRANSITION)))"
  unfolding mission_gate_def guarded_transition
  by (auto simp: MissionError_def split: option.splits)

theorem mission_gate_is_the_matrix_witness:
  "gr_envelope (mission_gate
     (sample_gate_ctx\<lparr>gc_mission := Some (sample_mission_at COMPLETED), gc_targetStatus := Some RUNNING\<rparr>)) =
     Some (Env_Transition COMPLETED RUNNING E_TERMINAL_STATE_GUARD)"
proof -
  let ?ctx = "sample_gate_ctx\<lparr>gc_mission := Some (sample_mission_at COMPLETED), gc_targetStatus := Some RUNNING\<rparr>"
  have "isTerminal COMPLETED" by code_simp
  with terminal_no_step mission_gate_is_the_matrix [of ?ctx] show ?thesis
    by (simp add: sample_mission_at_def)
qed

text \<open>
  The receipt gate. With a non-empty allow-list an action is allowed exactly for a receipt that
  verifies and whose signer's first listed key is its embedded key, current and not revoked. Without
  a list, and also with an empty one, every internally consistent receipt is allowed: whoever signed
  it vouches for their own key.
\<close>

theorem receipt_gate_trust:
  assumes "gc_receipt ctx = Some receipt" and "lib_parse L EPOCH_ISSUED_AT = Some 0" and "0 \<le> now"
  shows "gr_verdict (receipt_gate L ed now ctx) = Allowed \<longleftrightarrow>
    sv_valid (verifySignedReceipt L ed receipt) \<and>
    (case gc_trustedKeys ctx of
       Some (k # ks) \<Rightarrow>
         (\<exists>key. find (\<lambda>key. ki_keyId key = sr_signerKeyId receipt) (k # ks) = Some key \<and>
           ki_publicKey key = sr_signerPublicKey receipt \<and> key_current L now key \<and> \<not> key_revoked L now key)
     | _ \<Rightarrow> True)"
proof -
  have exact: "fst (verifySignedReceiptTrusted L ed now receipt resolve) = SIGNER_TRUSTED \<longleftrightarrow>
      sv_valid (verifySignedReceipt L ed receipt) \<and>
      (\<exists>key. resolve (sr_signerKeyId receipt) = Some key \<and> ki_publicKey key = sr_signerPublicKey receipt \<and>
         key_current L now key \<and> \<not> key_revoked L now key)" for resolve
    by (auto simp: verifySignedReceiptTrusted_def verifySignedReceipt_def Let_def trustResult_def
        split: option.splits)
  have self: "\<exists>key. selfTrustResolver receipt (sr_signerKeyId receipt) = Some key \<and>
      ki_publicKey key = sr_signerPublicKey receipt \<and> key_current L now key \<and> \<not> key_revoked L now key"
    using assms(2,3) by (simp add: selfTrustResolver_def key_current_def key_revoked_def parsed_le_def)
  have verdict: "gr_verdict (receipt_gate L ed now ctx) = Allowed \<longleftrightarrow>
      sv_valid (verifySignedReceipt L ed receipt) \<and>
      fst (verifySignedReceiptTrusted L ed now receipt
        (case gc_trustedKeys ctx of
           Some keys \<Rightarrow> if 0 < length keys then trustedKeysResolver keys else selfTrustResolver receipt
         | None \<Rightarrow> selfTrustResolver receipt)) = SIGNER_TRUSTED"
    by (simp add: receipt_gate_def assms(1) Let_def)
  show ?thesis
  proof (cases "gc_trustedKeys ctx")
    case None
    then show ?thesis unfolding verdict exact using self by auto
  next
    case (Some keys)
    show ?thesis unfolding verdict exact using self Some
      by (cases keys) (auto simp: trustedKeysResolver_def)
  qed
qed

theorem receipt_gate_trust_witness:
  "gr_verdict (receipt_gate (sample_receipt_lib\<lparr>lib_parse := \<lambda>_. Some 0\<rparr>) sample_ed 9
     (sample_gate_ctx\<lparr>gc_receipt := Some sample_receipt, gc_trustedKeys := Some []\<rparr>)) = Allowed"
proof -
  let ?L = "sample_receipt_lib\<lparr>lib_parse := \<lambda>_. Some 0\<rparr>"
  let ?ctx = "sample_gate_ctx\<lparr>gc_receipt := Some sample_receipt, gc_trustedKeys := Some []\<rparr>"
  have same: "generateReceiptHash ?L c = generateReceiptHash sample_receipt_lib c"
    "canonicalPayload ?L c = canonicalPayload sample_receipt_lib c" for c
    by (simp_all add: generateReceiptHash_def canonicalPayload_def)
  have "sv_valid (verifySignedReceipt ?L sample_ed sample_receipt)"
    using integrity_of_hash [OF sample_sha_hex sample_sha_hex, of sample_content sample_content] sample_ed_law
    by (simp add: verifySignedReceipt_def Let_def verifyReceiptSignature_def verifyReceiptIntegrity_def same
        sample_receipt_def buildSignedReceipt_def signReceipt_def)
  then show ?thesis
    using receipt_gate_trust [of ?ctx sample_receipt ?L 9 sample_ed] by simp
qed

end
