(* ===== verification/Close_Calculations.thy ===== *)
theory Close_Calculations
  imports Prelude
begin

text \<open>
  \<^verbatim>\<open>close-calculations/types.ts\<close>, \<^verbatim>\<open>close-calculations/depreciation.ts\<close>,
  \<^verbatim>\<open>close-calculations/provisions.ts\<close>, \<^verbatim>\<open>close-calculations/isr.ts\<close>,
  \<^verbatim>\<open>close-calculations/close-results.ts\<close> and \<^verbatim>\<open>close-calculations/report.ts\<close>: the
  monthly close. Amounts are BigInt cents, rates and days are JavaScript numbers. The sides, kinds
  and rules the code compares at run time stay strings. The locale \<open>close_producer\<close> is what
  the report relies on: a producer's entries are balanced, positive, in scope and in the chart.
\<close>

section \<open>Data\<close>

record Scope =
  cl_ruc :: js_string
  cl_period :: js_string

record FixedAsset =
  fa_id :: js_string
  fa_description :: js_string
  fa_costBasisCents :: int
  fa_annualRateBp :: js_number
  fa_acquisitionDate :: js_string

record DepreciationPolicy =
  dp_chart :: "js_string set"
  dp_expense :: js_string
  dp_accumulated :: js_string

record ProvisionInput =
  pv_id :: js_string
  pv_agingDays :: js_number
  pv_exposureCents :: int
  pv_provisionRateBp :: js_number
  pv_kind :: js_string

record ProvisionPolicy =
  pp_chart :: "js_string set"
  pp_expense :: js_string
  pp_liability :: js_string

record ProvisionalIsrInput =
  is_id :: js_string
  is_netIncomeCents :: int
  is_priorYearRatioBp :: "js_number option"
  is_monthlyNetIncomeCents :: int
  is_rule :: js_string

record IsrPolicy =
  ip_chart :: "js_string set"
  ip_expense :: js_string
  ip_payable :: js_string
  ip_statutoryMinimumBp :: js_number

datatype close_kind = K_Depreciation | K_Provision | K_Isr | K_Closing

record CloseLine =
  ln_accountCode :: js_string
  ln_side :: js_string
  ln_amountCents :: int

record CloseEntry =
  en_id :: js_string
  en_scope :: Scope
  en_lines :: "CloseLine list"
  en_kind :: close_kind

record IsrCedula =
  ce_coefficientPathCents :: int
  ce_pctPathCents :: int
  ce_appliedCents :: int

record ResultBalance =
  rb_accountCode :: js_string
  rb_balanceCents :: int

record CloseReport =
  rp_scope :: Scope
  rp_entries :: "CloseEntry list"
  rp_trialBalanceBalanced :: bool
  rp_isrCedula :: IsrCedula
  rp_beforeCents :: int
  rp_afterCents :: int

datatype close_error =
  CE_INVALID_SCOPE | CE_NEGATIVE_AMOUNT | CE_UNBALANCED_ENTRY | CE_RATE_OUT_OF_BOUNDS
| CE_UNCLASSIFIABLE_INPUT | CE_ACCOUNT_NOT_IN_CHART

section \<open>Guards\<close>

definition MAX_RATE_BP :: int where
  "MAX_RATE_BP = 10000"

definition RETAINED_EARNINGS_ACCOUNT :: js_string where
  "RETAINED_EARNINGS_ACCOUNT = ''59''"

definition month_of :: "js_string \<Rightarrow> nat" where
  "month_of period = 10 * digit_val (period ! 4) + digit_val (period ! 5)"

definition validateScope :: "Scope \<Rightarrow> close_error option" where
  "validateScope scope =
     (if \<not> digits_exactly 11 (cl_ruc scope) then Some CE_INVALID_SCOPE
      else if \<not> digits_exactly 6 (cl_period scope) then Some CE_INVALID_SCOPE
      else let month = month_of (cl_period scope)
           in if month < 1 \<or> 12 < month then Some CE_INVALID_SCOPE else None)"

definition assertChartAccount :: "js_string set \<Rightarrow> js_string \<Rightarrow> close_error option" where
  "assertChartAccount chart accountCode =
     (if accountCode \<notin> chart then Some CE_ACCOUNT_NOT_IN_CHART else None)"

definition assertRateInBounds :: "js_number \<Rightarrow> close_error option" where
  "assertRateInBounds bp =
     (if \<not> is_integer bp \<or> to_bigint bp \<le> 0 \<or> MAX_RATE_BP < to_bigint bp
      then Some CE_RATE_OUT_OF_BOUNDS else None)"

fun balance_loop :: "CloseLine list \<Rightarrow> int \<Rightarrow> int \<Rightarrow> close_error + int \<times> int" where
  "balance_loop [] debits credits = Inr (debits, credits)"
| "balance_loop (line # ls) debits credits =
     (if ln_side line \<noteq> ''debit'' \<and> ln_side line \<noteq> ''credit'' then Inl CE_UNCLASSIFIABLE_INPUT
      else if ln_amountCents line \<le> 0 then Inl CE_NEGATIVE_AMOUNT
      else if ln_side line = ''debit'' then balance_loop ls (debits + ln_amountCents line) credits
      else balance_loop ls debits (credits + ln_amountCents line))"

definition assertBalanced :: "CloseEntry \<Rightarrow> close_error option" where
  "assertBalanced entry =
     (case balance_loop (en_lines entry) 0 0 of
        Inl e \<Rightarrow> Some e
      | Inr (debits, credits) \<Rightarrow> if debits \<noteq> credits then Some CE_UNBALANCED_ENTRY else None)"

text \<open>The code runs guards in order and stops at the first that throws.\<close>

fun guards :: "close_error option list \<Rightarrow> close_error option" where
  "guards [] = None"
| "guards (None # gs) = guards gs"
| "guards (Some e # gs) = Some e"

definition guarding :: "close_error option list \<Rightarrow> (close_error + 'a) \<Rightarrow> close_error + 'a" where
  "guarding gs k = (case guards gs of Some e \<Rightarrow> Inl e | None \<Rightarrow> k)"

definition throw_if :: "bool \<Rightarrow> close_error \<Rightarrow> close_error option" where
  "throw_if b e = (if b then Some e else None)"

definition checked :: "CloseEntry \<Rightarrow> close_error + CloseEntry" where
  "checked entry = guarding [assertBalanced entry] (Inr entry)"

text \<open>An entry with one debit and one credit line.\<close>

definition two_lines :: "js_string \<Rightarrow> js_string \<Rightarrow> int \<Rightarrow> CloseLine list" where
  "two_lines debit_account credit_account amount =
     [\<lparr>ln_accountCode = debit_account, ln_side = ''debit'', ln_amountCents = amount\<rparr>,
      \<lparr>ln_accountCode = credit_account, ln_side = ''credit'', ln_amountCents = amount\<rparr>]"

section \<open>Depreciation\<close>

definition monthly_depreciation :: "FixedAsset \<Rightarrow> int" where
  "monthly_depreciation asset =
     bigint_div (bigint_div (fa_costBasisCents asset * to_bigint (fa_annualRateBp asset)) 10000) 12"

definition depreciate ::
    "Scope \<Rightarrow> DepreciationPolicy \<Rightarrow> nat \<times> FixedAsset \<Rightarrow> close_error + CloseEntry" where
  "depreciate scope policy ia =
     (case ia of (index, asset) \<Rightarrow>
        guarding
          [throw_if (fa_costBasisCents asset \<le> 0) CE_NEGATIVE_AMOUNT,
           assertRateInBounds (fa_annualRateBp asset)]
          (let monthly = monthly_depreciation asset
           in guarding [throw_if (monthly \<le> 0) CE_NEGATIVE_AMOUNT]
                (checked \<lparr>en_id = ''depr-'' @ dec_nat (index + 1), en_scope = scope,
                          en_lines = two_lines (dp_expense policy) (dp_accumulated policy) monthly,
                          en_kind = K_Depreciation\<rparr>)))"

definition computeDepreciation ::
    "Scope \<Rightarrow> FixedAsset list \<Rightarrow> DepreciationPolicy \<Rightarrow> close_error + CloseEntry list" where
  "computeDepreciation scope assets policy =
     guarding
       [validateScope scope, assertChartAccount (dp_chart policy) (dp_expense policy),
        assertChartAccount (dp_chart policy) (dp_accumulated policy)]
       (traverse (depreciate scope policy) (enumerate 0 assets))"

section \<open>Provisions\<close>

fun num_negative :: "js_number \<Rightarrow> bool" where
  "num_negative (Fin r) = (r < 0)"
| "num_negative NaN = False"
| "num_negative (Infinite negative) = negative"

definition provision_amount :: "ProvisionInput \<Rightarrow> int" where
  "provision_amount input = bigint_div (pv_exposureCents input * to_bigint (pv_provisionRateBp input)) 10000"

definition provide ::
    "Scope \<Rightarrow> ProvisionPolicy \<Rightarrow> nat \<times> ProvisionInput \<Rightarrow> close_error + CloseEntry" where
  "provide scope policy ii =
     (case ii of (index, input) \<Rightarrow>
        guarding
          [throw_if (pv_kind input \<noteq> ''receivable'' \<and> pv_kind input \<noteq> ''inventory'') CE_UNCLASSIFIABLE_INPUT,
           throw_if (num_negative (pv_agingDays input)) CE_NEGATIVE_AMOUNT,
           throw_if (pv_exposureCents input \<le> 0) CE_NEGATIVE_AMOUNT,
           assertRateInBounds (pv_provisionRateBp input)]
          (let amount = provision_amount input
           in guarding [throw_if (amount \<le> 0) CE_NEGATIVE_AMOUNT]
                (checked \<lparr>en_id = ''prov-'' @ dec_nat (index + 1), en_scope = scope,
                          en_lines = two_lines (pp_expense policy) (pp_liability policy) amount,
                          en_kind = K_Provision\<rparr>)))"

definition computeProvisions ::
    "Scope \<Rightarrow> ProvisionInput list \<Rightarrow> ProvisionPolicy \<Rightarrow> close_error + CloseEntry list" where
  "computeProvisions scope inputs policy =
     guarding
       [validateScope scope, assertChartAccount (pp_chart policy) (pp_expense policy),
        assertChartAccount (pp_chart policy) (pp_liability policy)]
       (traverse (provide scope policy) (enumerate 0 inputs))"

section \<open>Provisional income tax\<close>

definition coefficient_path :: "ProvisionalIsrInput \<Rightarrow> int" where
  "coefficient_path input =
     (case is_priorYearRatioBp input of
        None \<Rightarrow> 0
      | Some bp \<Rightarrow> bigint_div (to_bigint bp * is_netIncomeCents input) 10000)"

definition pct_path :: "ProvisionalIsrInput \<Rightarrow> IsrPolicy \<Rightarrow> int" where
  "pct_path input policy =
     bigint_div (to_bigint (ip_statutoryMinimumBp policy) * is_monthlyNetIncomeCents input) 10000"

definition applied_isr :: "ProvisionalIsrInput \<Rightarrow> IsrPolicy \<Rightarrow> close_error + int" where
  "applied_isr input policy =
     (if is_rule input = ''coeficiente'' then
        (if is_priorYearRatioBp input = None then Inl CE_RATE_OUT_OF_BOUNDS
         else Inr (coefficient_path input))
      else if is_rule input = ''pct-ingresos'' then Inr (pct_path input policy)
      else if is_rule input = ''greater-of'' then
        Inr (if pct_path input policy < coefficient_path input then coefficient_path input
             else pct_path input policy)
      else Inl CE_UNCLASSIFIABLE_INPUT)"

definition computeProvisionalIsr ::
    "Scope \<Rightarrow> ProvisionalIsrInput \<Rightarrow> IsrPolicy \<Rightarrow> close_error + CloseEntry \<times> IsrCedula" where
  "computeProvisionalIsr scope input policy =
     guarding
       [validateScope scope,
        throw_if (is_netIncomeCents input < 0) CE_NEGATIVE_AMOUNT,
        throw_if (is_monthlyNetIncomeCents input < 0) CE_NEGATIVE_AMOUNT,
        assertRateInBounds (ip_statutoryMinimumBp policy),
        (case is_priorYearRatioBp input of None \<Rightarrow> None | Some bp \<Rightarrow> assertRateInBounds bp),
        assertChartAccount (ip_chart policy) (ip_expense policy),
        assertChartAccount (ip_chart policy) (ip_payable policy)]
       (case applied_isr input policy of
          Inl e \<Rightarrow> Inl e
        | Inr applied \<Rightarrow>
            guarding [throw_if (applied \<le> 0) CE_NEGATIVE_AMOUNT]
              (case checked \<lparr>en_id = ''isr-1'', en_scope = scope,
                             en_lines = two_lines (ip_expense policy) (ip_payable policy) applied,
                             en_kind = K_Isr\<rparr> of
                 Inl e \<Rightarrow> Inl e
               | Inr entry \<Rightarrow>
                   Inr (entry, \<lparr>ce_coefficientPathCents = coefficient_path input,
                                ce_pctPathCents = pct_path input policy, ce_appliedCents = applied\<rparr>)))"

section \<open>Closing entries\<close>

definition closing_lines :: "ResultBalance \<Rightarrow> CloseLine list" where
  "closing_lines b =
     (let amount = (if rb_balanceCents b < 0 then - rb_balanceCents b else rb_balanceCents b)
      in if rb_balanceCents b < 0
         then [\<lparr>ln_accountCode = rb_accountCode b, ln_side = ''debit'', ln_amountCents = amount\<rparr>,
               \<lparr>ln_accountCode = RETAINED_EARNINGS_ACCOUNT, ln_side = ''credit'', ln_amountCents = amount\<rparr>]
         else [\<lparr>ln_accountCode = rb_accountCode b, ln_side = ''credit'', ln_amountCents = amount\<rparr>,
               \<lparr>ln_accountCode = RETAINED_EARNINGS_ACCOUNT, ln_side = ''debit'', ln_amountCents = amount\<rparr>])"

fun close_loop ::
    "Scope \<Rightarrow> js_string set \<Rightarrow> ResultBalance list \<Rightarrow> nat \<Rightarrow> CloseEntry list \<Rightarrow> close_error + CloseEntry list"
  where
  "close_loop scope chart [] index entries = Inr entries"
| "close_loop scope chart (b # bs) index entries =
     guarding
       [assertChartAccount chart (rb_accountCode b),
        throw_if (rb_accountCode b = RETAINED_EARNINGS_ACCOUNT) CE_UNCLASSIFIABLE_INPUT]
       (if rb_balanceCents b = 0 then close_loop scope chart bs index entries
        else (case checked \<lparr>en_id = ''close-'' @ dec_nat (index + 1), en_scope = scope,
                            en_lines = closing_lines b, en_kind = K_Closing\<rparr> of
                Inl e \<Rightarrow> Inl e
              | Inr entry \<Rightarrow> close_loop scope chart bs (index + 1) (entries @ [entry])))"

definition closeResultAccounts ::
    "Scope \<Rightarrow> ResultBalance list \<Rightarrow> js_string set \<Rightarrow> close_error + CloseEntry list" where
  "closeResultAccounts scope balances chart =
     guarding [validateScope scope, assertChartAccount chart RETAINED_EARNINGS_ACCOUNT]
       (close_loop scope chart balances 0 [])"

section \<open>Report\<close>

record CloseReportInput =
  ri_scope :: Scope
  ri_entries :: "CloseEntry list"
  ri_isrCedula :: IsrCedula
  ri_opening :: int
  ri_chart :: "js_string set"

text \<open>The running totals of debits, credits and the change of account 59.\<close>

type_synonym totals = "int \<times> int \<times> int"

definition add_line :: "CloseLine \<Rightarrow> totals \<Rightarrow> totals" where
  "add_line line t =
     (case t of (debits, credits, retained) \<Rightarrow>
        ((if ln_side line = ''debit'' then debits + ln_amountCents line else debits),
         (if ln_side line = ''debit'' then credits else credits + ln_amountCents line),
         (if ln_accountCode line = RETAINED_EARNINGS_ACCOUNT
          then retained + (if ln_side line = ''credit'' then ln_amountCents line else - ln_amountCents line)
          else retained)))"

fun report_loop :: "js_string set \<Rightarrow> CloseEntry list \<Rightarrow> totals \<Rightarrow> close_error + totals" where
  "report_loop chart [] t = Inr t"
| "report_loop chart (e # es) t =
     guarding
       [first_error (\<lambda>line. assertChartAccount chart (ln_accountCode line)) (en_lines e), assertBalanced e]
       (report_loop chart es (fold add_line (en_lines e) t))"

definition buildCloseReport :: "CloseReportInput \<Rightarrow> close_error + CloseReport" where
  "buildCloseReport input =
     guarding [validateScope (ri_scope input)]
       (case report_loop (ri_chart input) (ri_entries input) (0, 0, 0) of
          Inl e \<Rightarrow> Inl e
        | Inr (debits, credits, retained) \<Rightarrow>
            if debits \<noteq> credits then Inl CE_UNBALANCED_ENTRY
            else Inr \<lparr>rp_scope = ri_scope input, rp_entries = ri_entries input,
                      rp_trialBalanceBalanced = (debits = credits), rp_isrCedula = ri_isrCedula input,
                      rp_beforeCents = ri_opening input, rp_afterCents = ri_opening input + retained\<rparr>)"

lemmas close_defs = MAX_RATE_BP_def RETAINED_EARNINGS_ACCOUNT_def month_of_def validateScope_def
  assertChartAccount_def assertRateInBounds_def assertBalanced_def guarding_def throw_if_def
  checked_def two_lines_def monthly_depreciation_def depreciate_def computeDepreciation_def
  provision_amount_def provide_def computeProvisions_def coefficient_path_def pct_path_def
  applied_isr_def computeProvisionalIsr_def closing_lines_def closeResultAccounts_def add_line_def
  buildCloseReport_def

declare close_defs [code_defs]

section \<open>Balanced entries\<close>

definition line_total :: "js_string \<Rightarrow> CloseLine list \<Rightarrow> int" where
  "line_total side ls = (\<Sum>l \<leftarrow> ls. if ln_side l = side then ln_amountCents l else 0)"

definition line_ok :: "CloseLine \<Rightarrow> bool" where
  "line_ok l \<longleftrightarrow> (ln_side l = ''debit'' \<or> ln_side l = ''credit'') \<and> 0 < ln_amountCents l"

definition retained_change :: "CloseLine list \<Rightarrow> int" where
  "retained_change ls =
     (\<Sum>l \<leftarrow> ls. if ln_accountCode l = RETAINED_EARNINGS_ACCOUNT
                 then (if ln_side l = ''credit'' then ln_amountCents l else - ln_amountCents l) else 0)"

lemma line_total_simps [simp]: "line_total s [] = 0"
  "line_total s (l # ls) = (if ln_side l = s then ln_amountCents l else 0) + line_total s ls"
  "line_total s (xs @ ys) = line_total s xs + line_total s ys"
  by (simp_all add: line_total_def)

lemma retained_change_simps [simp]: "retained_change [] = 0"
  "retained_change (l # ls) =
     (if ln_accountCode l = RETAINED_EARNINGS_ACCOUNT
      then (if ln_side l = ''credit'' then ln_amountCents l else - ln_amountCents l) else 0) + retained_change ls"
  "retained_change (xs @ ys) = retained_change xs + retained_change ys"
  by (simp_all add: retained_change_def)

lemma balance_loop_Inr_iff: "balance_loop ls d c = Inr (d', c') \<longleftrightarrow>
    list_all line_ok ls \<and> d' = d + line_total ''debit'' ls \<and> c' = c + line_total ''credit'' ls"
  by (induction ls d c rule: balance_loop.induct) (auto simp: line_ok_def)

lemma assertBalanced_None_iff: "assertBalanced e = None \<longleftrightarrow>
    list_all line_ok (en_lines e) \<and> line_total ''debit'' (en_lines e) = line_total ''credit'' (en_lines e)"
proof (cases "balance_loop (en_lines e) 0 0")
  case (Inl a)
  have "\<not> list_all line_ok (en_lines e)"
    using Inl balance_loop_Inr_iff [of "en_lines e" 0 0 "line_total ''debit'' (en_lines e)"
        "line_total ''credit'' (en_lines e)"] by auto
  with Inl show ?thesis by (simp add: assertBalanced_def)
next
  case (Inr t)
  obtain d c where t: "t = (d, c)" by fastforce
  from Inr have "balance_loop (en_lines e) 0 0 = Inr (d, c)" by (simp add: t)
  with balance_loop_Inr_iff [of "en_lines e" 0 0 d c] show ?thesis by (simp add: assertBalanced_def)
qed

lemma guarded_Inr_iff [simp]:
  "guarding (g # gs) k = Inr x \<longleftrightarrow> g = None \<and> guarding gs k = Inr x" "guarding [] k = k"
  by (cases g; simp add: guarding_def) (simp add: guarding_def)

lemma guarded_Inl_iff [simp]:
  "guarding (g # gs) k = Inl e \<longleftrightarrow> g = Some e \<or> g = None \<and> guarding gs k = Inl e"
  by (cases g) (auto simp: guarding_def)

lemma throw_if_None [simp]: "throw_if b e = None \<longleftrightarrow> \<not> b" "throw_if b e = Some f \<longleftrightarrow> b \<and> e = f"
  by (simp_all add: throw_if_def)

lemma checked_Inr_iff: "checked e = Inr e' \<longleftrightarrow> assertBalanced e = None \<and> e' = e"
  by (auto simp: checked_def)

lemma two_lines_balanced: "assertBalanced \<lparr>en_id = i, en_scope = s, en_lines = two_lines a b n, en_kind = k\<rparr> = None
    \<longleftrightarrow> 0 < n"
  by (auto simp: assertBalanced_None_iff two_lines_def line_ok_def)

lemma closing_balanced: "rb_balanceCents b \<noteq> 0 \<Longrightarrow>
    assertBalanced \<lparr>en_id = i, en_scope = s, en_lines = closing_lines b, en_kind = k\<rparr> = None"
  by (auto simp: assertBalanced_None_iff closing_lines_def line_ok_def Let_def)

lemma assertChart_None [simp]: "assertChartAccount chart a = None \<longleftrightarrow> a \<in> chart"
  by (simp add: assertChartAccount_def)

lemma fold_add_line: "list_all line_ok ls \<Longrightarrow> fold add_line ls (d, c, r) =
    (d + line_total ''debit'' ls, c + line_total ''credit'' ls, r + retained_change ls)"
  by (induction ls arbitrary: d c r) (auto simp: add_line_def line_ok_def)

section \<open>What the report relies on\<close>

text \<open>A well-formed entry of a scope and a chart.\<close>

definition entry_ok :: "Scope \<Rightarrow> js_string set \<Rightarrow> CloseEntry \<Rightarrow> bool" where
  "entry_ok scope chart e \<longleftrightarrow>
     assertBalanced e = None \<and> en_scope e = scope \<and> validateScope scope = None \<and>
     list_all (\<lambda>l. ln_accountCode l \<in> chart) (en_lines e)"

definition all_lines :: "CloseEntry list \<Rightarrow> CloseLine list" where
  "all_lines es = concat (map en_lines es)"

lemma all_lines_simps [simp]: "all_lines [] = []" "all_lines (e # es) = en_lines e @ all_lines es"
  "all_lines (xs @ ys) = all_lines xs @ all_lines ys"
  by (simp_all add: all_lines_def)

lemma report_loop_Inr_iff: "report_loop chart es (d, c, r) = Inr t \<longleftrightarrow>
    list_all (\<lambda>e. assertBalanced e = None \<and> list_all (\<lambda>l. ln_accountCode l \<in> chart) (en_lines e)) es \<and>
    t = (d + line_total ''debit'' (all_lines es), c + line_total ''credit'' (all_lines es),
         r + retained_change (all_lines es))"
proof (induction es arbitrary: d c r)
  case (Cons e es)
  show ?case
  proof (cases "assertBalanced e = None")
    case True
    then have "list_all line_ok (en_lines e)" by (simp add: assertBalanced_None_iff)
    with True Cons.IH fold_add_line [of "en_lines e" d c r] show ?thesis
      by (auto simp: first_error_None_iff list_all_iff add.assoc)
  next
    case False
    then show ?thesis by auto
  qed
qed auto

lemma balanced_totals: "list_all (\<lambda>e. assertBalanced e = None) es \<Longrightarrow>
    line_total ''debit'' (all_lines es) = line_total ''credit'' (all_lines es)"
  by (induction es) (simp_all add: assertBalanced_None_iff)

lemma report_of_good_entries:
  assumes "list_all (entry_ok (ri_scope input) (ri_chart input)) (ri_entries input)"
    and "validateScope (ri_scope input) = None"
  shows "buildCloseReport input =
    Inr \<lparr>rp_scope = ri_scope input, rp_entries = ri_entries input, rp_trialBalanceBalanced = True,
         rp_isrCedula = ri_isrCedula input, rp_beforeCents = ri_opening input,
         rp_afterCents = ri_opening input + retained_change (all_lines (ri_entries input))\<rparr>"
proof -
  let ?t = "(line_total ''debit'' (all_lines (ri_entries input)),
    line_total ''credit'' (all_lines (ri_entries input)), retained_change (all_lines (ri_entries input)))"
  have "list_all (\<lambda>e. assertBalanced e = None \<and> list_all (\<lambda>l. ln_accountCode l \<in> ri_chart input) (en_lines e))
      (ri_entries input)"
    using assms(1) by (auto simp: entry_ok_def list_all_iff)
  then have "report_loop (ri_chart input) (ri_entries input) (0, 0, 0) = Inr ?t"
    by (simp add: report_loop_Inr_iff)
  moreover have "line_total ''debit'' (all_lines (ri_entries input)) =
      line_total ''credit'' (all_lines (ri_entries input))"
    using assms(1) by (intro balanced_totals) (auto simp: entry_ok_def list_all_iff)
  ultimately show ?thesis
    using assms(2) by (simp add: buildCloseReport_def guarding_def)
qed

locale close_producer =
  fixes produce :: "'i \<Rightarrow> close_error + CloseEntry list"
    and scope_of_input :: "'i \<Rightarrow> Scope"
    and chart_of_input :: "'i \<Rightarrow> js_string set"
    and moves :: "'i \<Rightarrow> int"
  assumes produces_good: "produce x = Inr es \<Longrightarrow> list_all (entry_ok (scope_of_input x) (chart_of_input x)) es"
    and produces_scope: "produce x = Inr es \<Longrightarrow> validateScope (scope_of_input x) = None"
    and produces_move: "produce x = Inr es \<Longrightarrow> retained_change (all_lines es) = moves x"
begin

lemma reported:
  assumes "produce x = Inr es"
  shows "buildCloseReport \<lparr>ri_scope = scope_of_input x, ri_entries = es, ri_isrCedula = cedula,
      ri_opening = opening, ri_chart = chart_of_input x\<rparr> =
    Inr \<lparr>rp_scope = scope_of_input x, rp_entries = es, rp_trialBalanceBalanced = True,
         rp_isrCedula = cedula, rp_beforeCents = opening, rp_afterCents = opening + moves x\<rparr>"
  using report_of_good_entries [of "\<lparr>ri_scope = scope_of_input x, ri_entries = es, ri_isrCedula = cedula,
      ri_opening = opening, ri_chart = chart_of_input x\<rparr>"] produces_good [OF assms]
    produces_scope [OF assms] produces_move [OF assms]
  by simp

lemma joins:
  assumes "produce x = Inr es"
    and "list_all (entry_ok (scope_of_input x) (chart_of_input x)) es'"
  shows "list_all (entry_ok (scope_of_input x) (chart_of_input x)) (es @ es') \<and>
    retained_change (all_lines (es @ es')) = moves x + retained_change (all_lines es')"
  using produces_good [OF assms(1)] produces_move [OF assms(1)] assms(2) by simp

end

section \<open>The four producers\<close>

definition rate_ok :: "js_number \<Rightarrow> bool" where
  "rate_ok bp \<longleftrightarrow> is_integer bp \<and> 0 < to_bigint bp \<and> to_bigint bp \<le> 10000"

lemma rate_None [simp]: "assertRateInBounds bp = None \<longleftrightarrow> rate_ok bp"
  by (auto simp: assertRateInBounds_def rate_ok_def MAX_RATE_BP_def)

definition pair_move :: "js_string \<Rightarrow> js_string \<Rightarrow> int" where
  "pair_move a b = (if b = RETAINED_EARNINGS_ACCOUNT then 1 else 0) - (if a = RETAINED_EARNINGS_ACCOUNT then 1 else 0)"

lemma two_lines_move: "retained_change (two_lines a b n) = pair_move a b * n"
  by (simp add: two_lines_def pair_move_def)

lemma list_all_enumerate: "list_all (\<lambda>ix. P (snd ix)) (enumerate k xs) = list_all P xs"
  by (induction xs arbitrary: k) simp_all

lemma sum_enumerate: "(\<Sum>ix \<leftarrow> enumerate k xs. f (snd ix)) = (\<Sum>x \<leftarrow> xs. f x)"
  by (induction xs arbitrary: k) simp_all

definition asset_ok :: "FixedAsset \<Rightarrow> bool" where
  "asset_ok a \<longleftrightarrow> 0 < fa_costBasisCents a \<and> rate_ok (fa_annualRateBp a) \<and> 0 < monthly_depreciation a"

definition depreciation_entry :: "Scope \<Rightarrow> DepreciationPolicy \<Rightarrow> nat \<times> FixedAsset \<Rightarrow> CloseEntry" where
  "depreciation_entry scope policy ia =
     \<lparr>en_id = ''depr-'' @ dec_nat (fst ia + 1), en_scope = scope,
      en_lines = two_lines (dp_expense policy) (dp_accumulated policy) (monthly_depreciation (snd ia)),
      en_kind = K_Depreciation\<rparr>"

lemma depreciation_Inr_iff: "computeDepreciation scope assets policy = Inr es \<longleftrightarrow>
    validateScope scope = None \<and> dp_expense policy \<in> dp_chart policy \<and>
    dp_accumulated policy \<in> dp_chart policy \<and> list_all asset_ok assets \<and>
    es = map (depreciation_entry scope policy) (enumerate 0 assets)"
proof -
  have "depreciate scope policy ia = Inr e \<longleftrightarrow> asset_ok (snd ia) \<and> e = depreciation_entry scope policy ia"
    for ia e
    by (cases ia) (auto simp: depreciate_def asset_ok_def depreciation_entry_def checked_Inr_iff
        two_lines_balanced Let_def)
  then have "traverse (depreciate scope policy) ias = Inr es \<longleftrightarrow>
      list_all (\<lambda>ia. asset_ok (snd ia)) ias \<and> es = map (depreciation_entry scope policy) ias" for ias
    by (rule traverse_map_iff)
  then show ?thesis by (simp add: computeDepreciation_def list_all_enumerate)
qed

definition provision_ok :: "ProvisionInput \<Rightarrow> bool" where
  "provision_ok p \<longleftrightarrow>
     (pv_kind p = ''receivable'' \<or> pv_kind p = ''inventory'') \<and> \<not> num_negative (pv_agingDays p) \<and>
     0 < pv_exposureCents p \<and> rate_ok (pv_provisionRateBp p) \<and> 0 < provision_amount p"

definition provision_entry :: "Scope \<Rightarrow> ProvisionPolicy \<Rightarrow> nat \<times> ProvisionInput \<Rightarrow> CloseEntry" where
  "provision_entry scope policy ip =
     \<lparr>en_id = ''prov-'' @ dec_nat (fst ip + 1), en_scope = scope,
      en_lines = two_lines (pp_expense policy) (pp_liability policy) (provision_amount (snd ip)),
      en_kind = K_Provision\<rparr>"

lemma provisions_Inr_iff: "computeProvisions scope inputs policy = Inr es \<longleftrightarrow>
    validateScope scope = None \<and> pp_expense policy \<in> pp_chart policy \<and>
    pp_liability policy \<in> pp_chart policy \<and> list_all provision_ok inputs \<and>
    es = map (provision_entry scope policy) (enumerate 0 inputs)"
proof -
  have "provide scope policy ip = Inr e \<longleftrightarrow> provision_ok (snd ip) \<and> e = provision_entry scope policy ip"
    for ip e
    by (cases ip) (auto simp: provide_def provision_ok_def provision_entry_def checked_Inr_iff
        two_lines_balanced Let_def)
  then have "traverse (provide scope policy) ips = Inr es \<longleftrightarrow>
      list_all (\<lambda>ip. provision_ok (snd ip)) ips \<and> es = map (provision_entry scope policy) ips" for ips
    by (rule traverse_map_iff)
  then show ?thesis by (simp add: computeProvisions_def list_all_enumerate)
qed

text \<open>Numbered lists of two-line entries over the same two accounts.\<close>

lemma pair_entries:
  fixes n :: "'a \<Rightarrow> int"
  assumes "validateScope scope = None" and "a \<in> chart" and "b \<in> chart" and "list_all P xs"
    and pos: "\<And>x. P x \<Longrightarrow> 0 < n x"
    and f: "\<And>ix. en_scope (f ix) = scope \<and> en_lines (f ix) = two_lines a b (n (snd ix))"
  shows "list_all (entry_ok scope chart) (map f (enumerate 0 xs)) \<and>
    retained_change (all_lines (map f (enumerate 0 xs))) = pair_move a b * (\<Sum>x \<leftarrow> xs. n x)"
proof
  have "list_all (\<lambda>ix. 0 < n (snd ix)) (enumerate 0 xs)"
    using assms(4) pos list_all_enumerate [of "\<lambda>x. 0 < n x" 0 xs] by (simp add: list_all_iff)
  moreover have "entry_ok scope chart (f ix)" if "0 < n (snd ix)" for ix
    using that assms(1-3) f [of ix]
    by (simp add: entry_ok_def assertBalanced_None_iff two_lines_def line_ok_def)
  ultimately show "list_all (entry_ok scope chart) (map f (enumerate 0 xs))"
    by (simp add: list_all_iff)
  have "retained_change (all_lines (map f ixs)) = pair_move a b * (\<Sum>ix \<leftarrow> ixs. n (snd ix))" for ixs
    using f by (induction ixs) (simp_all add: two_lines_move distrib_left)
  then show "retained_change (all_lines (map f (enumerate 0 xs))) = pair_move a b * (\<Sum>x \<leftarrow> xs. n x)"
    by (simp add: sum_enumerate)
qed

lemma depreciation_good:
  assumes "computeDepreciation s assets p = Inr es"
  shows "list_all (entry_ok s (dp_chart p)) es \<and>
    retained_change (all_lines es) =
      pair_move (dp_expense p) (dp_accumulated p) * (\<Sum>a \<leftarrow> assets. monthly_depreciation a)"
  using assms pair_entries [of s "dp_expense p" "dp_chart p" "dp_accumulated p" asset_ok assets
      monthly_depreciation "depreciation_entry s p"]
  by (simp add: depreciation_Inr_iff asset_ok_def depreciation_entry_def)

lemma provisions_good:
  assumes "computeProvisions s inputs p = Inr es"
  shows "list_all (entry_ok s (pp_chart p)) es \<and>
    retained_change (all_lines es) =
      pair_move (pp_expense p) (pp_liability p) * (\<Sum>i \<leftarrow> inputs. provision_amount i)"
  using assms pair_entries [of s "pp_expense p" "pp_chart p" "pp_liability p" provision_ok inputs
      provision_amount "provision_entry s p"]
  by (simp add: provisions_Inr_iff provision_ok_def provision_entry_def)

lemma isr_Inr_iff: "computeProvisionalIsr s input p = Inr (e, cedula) \<longleftrightarrow>
    validateScope s = None \<and> 0 \<le> is_netIncomeCents input \<and> 0 \<le> is_monthlyNetIncomeCents input \<and>
    rate_ok (ip_statutoryMinimumBp p) \<and> (\<forall>bp. is_priorYearRatioBp input = Some bp \<longrightarrow> rate_ok bp) \<and>
    ip_expense p \<in> ip_chart p \<and> ip_payable p \<in> ip_chart p \<and>
    (\<exists>applied. applied_isr input p = Inr applied \<and> 0 < applied \<and>
      e = \<lparr>en_id = ''isr-1'', en_scope = s, en_lines = two_lines (ip_expense p) (ip_payable p) applied,
           en_kind = K_Isr\<rparr> \<and>
      cedula = \<lparr>ce_coefficientPathCents = coefficient_path input, ce_pctPathCents = pct_path input p,
                ce_appliedCents = applied\<rparr>)"
proof (cases "applied_isr input p")
  case (Inl err)
  then show ?thesis by (simp add: computeProvisionalIsr_def)
next
  case (Inr applied)
  have "(case is_priorYearRatioBp input of None \<Rightarrow> None | Some bp \<Rightarrow> assertRateInBounds bp) = None \<longleftrightarrow>
      (\<forall>bp. is_priorYearRatioBp input = Some bp \<longrightarrow> rate_ok bp)"
    by (simp split: option.split)
  moreover have "(case checked \<lparr>en_id = ''isr-1'', en_scope = s,
        en_lines = two_lines (ip_expense p) (ip_payable p) applied, en_kind = K_Isr\<rparr> of
      Inl e \<Rightarrow> Inl e | Inr entry \<Rightarrow> Inr (entry, c)) = Inr (e, cedula) \<longleftrightarrow>
    0 < applied \<and> cedula = c \<and> e = \<lparr>en_id = ''isr-1'', en_scope = s,
        en_lines = two_lines (ip_expense p) (ip_payable p) applied, en_kind = K_Isr\<rparr>" for c
  proof (cases "0 < applied")
    case True
    then have "checked \<lparr>en_id = ''isr-1'', en_scope = s,
        en_lines = two_lines (ip_expense p) (ip_payable p) applied, en_kind = K_Isr\<rparr> =
      Inr \<lparr>en_id = ''isr-1'', en_scope = s,
        en_lines = two_lines (ip_expense p) (ip_payable p) applied, en_kind = K_Isr\<rparr>"
      by (simp add: checked_Inr_iff two_lines_balanced)
    with True show ?thesis by auto
  next
    case False
    then show ?thesis by (auto split: sum.split simp: checked_Inr_iff two_lines_balanced)
  qed
  ultimately show ?thesis unfolding computeProvisionalIsr_def Inr by auto
qed

lemma isr_good:
  assumes "computeProvisionalIsr s input p = Inr (e, cedula)"
  shows "entry_ok s (ip_chart p) e \<and>
    retained_change (en_lines e) = pair_move (ip_expense p) (ip_payable p) * ce_appliedCents cedula"
  using assms unfolding isr_Inr_iff
  by (auto simp: entry_ok_def assertBalanced_None_iff two_lines_move)
    (auto simp: two_lines_def line_ok_def)

lemma close_loop_good:
  "close_loop s chart bs index es = Inr es' \<Longrightarrow> validateScope s = None \<Longrightarrow>
    RETAINED_EARNINGS_ACCOUNT \<in> chart \<Longrightarrow> list_all (entry_ok s chart) es \<Longrightarrow>
    list_all (entry_ok s chart) es' \<and>
    retained_change (all_lines es') = retained_change (all_lines es) - (\<Sum>b \<leftarrow> bs. rb_balanceCents b)"
proof (induction bs arbitrary: index es)
  case (Cons b bs)
  show ?case
  proof (cases "rb_balanceCents b = 0")
    case True
    with Cons show ?thesis by auto
  next
    case False
    let ?e = "\<lparr>en_id = ''close-'' @ dec_nat (index + 1), en_scope = s, en_lines = closing_lines b, en_kind = K_Closing\<rparr>"
    have acct: "rb_accountCode b \<in> chart" "rb_accountCode b \<noteq> RETAINED_EARNINGS_ACCOUNT"
      using Cons.prems(1) by auto
    have "checked ?e = Inr ?e"
      using closing_balanced [OF False, of "''close-'' @ dec_nat (index + 1)" s K_Closing]
      by (simp add: checked_Inr_iff)
    with Cons.prems(1) False have run: "close_loop s chart bs (index + 1) (es @ [?e]) = Inr es'" by auto
    have "entry_ok s chart ?e"
      using acct closing_balanced [OF False, of "''close-'' @ dec_nat (index + 1)" s K_Closing] Cons.prems(2,3)
      by (simp add: entry_ok_def closing_lines_def Let_def)
    moreover have "retained_change (closing_lines b) = - rb_balanceCents b"
      using acct by (simp add: closing_lines_def Let_def)
    ultimately show ?thesis using Cons.IH [OF run Cons.prems(2,3)] Cons.prems(4) by simp
  qed
qed auto

lemma closing_good:
  assumes "closeResultAccounts s bs chart = Inr es"
  shows "validateScope s = None \<and> list_all (entry_ok s chart) es \<and>
    retained_change (all_lines es) = - (\<Sum>b \<leftarrow> bs. rb_balanceCents b)"
  using assms close_loop_good [of s chart bs 0 "[]" es] by (simp add: closeResultAccounts_def)

interpretation depreciation: close_producer
  "\<lambda>(scope, assets, policy). computeDepreciation scope assets policy"
  "\<lambda>(scope, assets, policy). scope" "\<lambda>(scope, assets, policy). dp_chart policy"
  "\<lambda>(scope, assets, policy). pair_move (dp_expense policy) (dp_accumulated policy) *
     (\<Sum>a \<leftarrow> assets. monthly_depreciation a)"
  by unfold_locales (auto simp: split_beta depreciation_good depreciation_Inr_iff [THEN iffD1])

interpretation provisions: close_producer
  "\<lambda>(scope, inputs, policy). computeProvisions scope inputs policy"
  "\<lambda>(scope, inputs, policy). scope" "\<lambda>(scope, inputs, policy). pp_chart policy"
  "\<lambda>(scope, inputs, policy). pair_move (pp_expense policy) (pp_liability policy) *
     (\<Sum>i \<leftarrow> inputs. provision_amount i)"
  by unfold_locales (auto simp: split_beta provisions_good provisions_Inr_iff [THEN iffD1])

interpretation closing: close_producer
  "\<lambda>(scope, balances, chart). closeResultAccounts scope balances chart"
  "\<lambda>(scope, balances, chart). scope" "\<lambda>(scope, balances, chart). chart"
  "\<lambda>(scope, balances, chart). - (\<Sum>b \<leftarrow> balances. rb_balanceCents b)"
  by unfold_locales (auto simp: split_beta closing_good)

section \<open>Properties\<close>

text \<open>
  C22: The close composes. When the policies of the engines use the chart of the close, and none of
  them posts to account 59, whatever depreciation, provision, tax and closing entries the producers
  emit for one scope, in any number, the report over all of them is emitted, its trial balance holds,
  and retained earnings move by exactly the result balances that were closed.
\<close>

theorem monthly_close_is_reported:
  assumes "computeDepreciation s assets dp = Inr ds"
    and "computeProvisions s inputs pp = Inr ps"
    and "computeProvisionalIsr s isr ip = Inr (e, cedula)"
    and "closeResultAccounts s balances chart = Inr cs"
    and "dp_chart dp = chart" and "pp_chart pp = chart" and "ip_chart ip = chart"
    and "RETAINED_EARNINGS_ACCOUNT \<notin>
      {dp_expense dp, dp_accumulated dp, pp_expense pp, pp_liability pp, ip_expense ip, ip_payable ip}"
  shows "buildCloseReport \<lparr>ri_scope = s, ri_entries = ds @ ps @ [e] @ cs, ri_isrCedula = cedula,
      ri_opening = opening, ri_chart = chart\<rparr> =
    Inr \<lparr>rp_scope = s, rp_entries = ds @ ps @ [e] @ cs, rp_trialBalanceBalanced = True, rp_isrCedula = cedula,
         rp_beforeCents = opening, rp_afterCents = opening - (\<Sum>b \<leftarrow> balances. rb_balanceCents b)\<rparr>"
proof -
  have neutral: "pair_move (dp_expense dp) (dp_accumulated dp) = 0"
    "pair_move (pp_expense pp) (pp_liability pp) = 0" "pair_move (ip_expense ip) (ip_payable ip) = 0"
    using assms(8) by (auto simp: pair_move_def)
  have "list_all (entry_ok s chart) cs \<and>
      retained_change (all_lines cs) = - (\<Sum>b \<leftarrow> balances. rb_balanceCents b)"
    using closing.joins [of "(s, balances, chart)" cs "[]"] assms(4) by simp
  moreover have "entry_ok s chart e \<and> retained_change (en_lines e) = 0"
    using isr_good [OF assms(3)] assms(7) neutral by simp
  ultimately have "list_all (entry_ok s chart) ([e] @ cs) \<and>
      retained_change (all_lines ([e] @ cs)) = - (\<Sum>b \<leftarrow> balances. rb_balanceCents b)" by simp
  then have "list_all (entry_ok s chart) (ps @ [e] @ cs) \<and>
      retained_change (all_lines (ps @ [e] @ cs)) = - (\<Sum>b \<leftarrow> balances. rb_balanceCents b)"
    using provisions.joins [of "(s, inputs, pp)" ps "[e] @ cs"] assms(2,6) neutral by simp
  then have "list_all (entry_ok s chart) (ds @ ps @ [e] @ cs) \<and>
      retained_change (all_lines (ds @ ps @ [e] @ cs)) = - (\<Sum>b \<leftarrow> balances. rb_balanceCents b)"
    using depreciation.joins [of "(s, assets, dp)" ds "ps @ [e] @ cs"] assms(1,5) neutral by simp
  moreover have "validateScope s = None" using closing_good [OF assms(4)] by simp
  ultimately show ?thesis
    using report_of_good_entries [of "\<lparr>ri_scope = s, ri_entries = ds @ ps @ [e] @ cs, ri_isrCedula = cedula,
      ri_opening = opening, ri_chart = chart\<rparr>"] by simp
qed

definition sample_chart :: "js_string set" where
  "sample_chart = set [''39'', ''68'', ''19'', ''88'', ''40'', ''59'', ''70'', ''60'']"

definition sample_close_scope :: Scope where
  "sample_close_scope = \<lparr>cl_ruc = ''20100070970'', cl_period = ''202607''\<rparr>"

definition sample_assets :: "FixedAsset list" where
  "sample_assets =
     [\<lparr>fa_id = ''a1'', fa_description = ''van'', fa_costBasisCents = 6000000, fa_annualRateBp = Fin 2000,
       fa_acquisitionDate = ''2025-01-02''\<rparr>]"

definition sample_dp :: DepreciationPolicy where
  "sample_dp = \<lparr>dp_chart = sample_chart, dp_expense = ''68'', dp_accumulated = ''39''\<rparr>"

definition sample_pp :: ProvisionPolicy where
  "sample_pp = \<lparr>pp_chart = sample_chart, pp_expense = ''68'', pp_liability = ''19''\<rparr>"

definition sample_provisions :: "ProvisionInput list" where
  "sample_provisions =
     [\<lparr>pv_id = ''p1'', pv_agingDays = Fin 90, pv_exposureCents = 50000, pv_provisionRateBp = Fin 2500,
       pv_kind = ''receivable''\<rparr>]"

definition sample_isr :: ProvisionalIsrInput where
  "sample_isr =
     \<lparr>is_id = ''i1'', is_netIncomeCents = 1000000, is_priorYearRatioBp = Some (Fin 120),
      is_monthlyNetIncomeCents = 1000000, is_rule = ''greater-of''\<rparr>"

definition sample_ip :: IsrPolicy where
  "sample_ip = \<lparr>ip_chart = sample_chart, ip_expense = ''88'', ip_payable = ''40'', ip_statutoryMinimumBp = Fin 150\<rparr>"

definition sample_balances :: "ResultBalance list" where
  "sample_balances = [\<lparr>rb_accountCode = ''70'', rb_balanceCents = -900\<rparr>, \<lparr>rb_accountCode = ''60'', rb_balanceCents = 400\<rparr>]"

theorem monthly_close_is_reported_witness:
  "\<exists>es cedula. buildCloseReport \<lparr>ri_scope = sample_close_scope, ri_entries = es, ri_isrCedula = cedula,
      ri_opening = 1000, ri_chart = sample_chart\<rparr> =
    Inr \<lparr>rp_scope = sample_close_scope, rp_entries = es, rp_trialBalanceBalanced = True, rp_isrCedula = cedula,
         rp_beforeCents = 1000, rp_afterCents = 1500\<rparr>"
proof -
  have "\<not> isl (computeDepreciation sample_close_scope sample_assets sample_dp)" by code_simp
  then obtain ds where ds: "computeDepreciation sample_close_scope sample_assets sample_dp = Inr ds"
    by (metis sum.collapse(2))
  have "\<not> isl (computeProvisions sample_close_scope sample_provisions sample_pp)" by code_simp
  then obtain ps where ps: "computeProvisions sample_close_scope sample_provisions sample_pp = Inr ps"
    by (metis sum.collapse(2))
  have "\<not> isl (computeProvisionalIsr sample_close_scope sample_isr sample_ip)" by code_simp
  then obtain e c where e: "computeProvisionalIsr sample_close_scope sample_isr sample_ip = Inr (e, c)"
    by (metis sum.collapse(2) surj_pair)
  have "\<not> isl (closeResultAccounts sample_close_scope sample_balances sample_chart)" by code_simp
  then obtain cs where cs: "closeResultAccounts sample_close_scope sample_balances sample_chart = Inr cs"
    by (metis sum.collapse(2))
  have charts: "dp_chart sample_dp = sample_chart" "pp_chart sample_pp = sample_chart"
    "ip_chart sample_ip = sample_chart"
    by (simp_all add: sample_dp_def sample_pp_def sample_ip_def)
  have out: "RETAINED_EARNINGS_ACCOUNT \<notin> {dp_expense sample_dp, dp_accumulated sample_dp, pp_expense sample_pp,
      pp_liability sample_pp, ip_expense sample_ip, ip_payable sample_ip}"
    by code_simp
  show ?thesis
    using monthly_close_is_reported [OF ds ps e cs charts out, of 1000] by (auto simp: sample_balances_def)
qed

lemma floor_bounds: "120000 * (n div 120000) \<le> n \<and> n < 120000 * (n div 120000 + 1)" for n :: int
  by presburger

text \<open>
  Depreciation is exact integer arithmetic: the i-th entry posts to the policy's two accounts
  the largest whole number of cents whose twelve-month total, at the asset's rate, does not exceed
  the yearly amount; it is positive and twelve of it never exceed the cost.
\<close>

theorem depreciation_is_exact_floor:
  assumes "computeDepreciation s assets p = Inr es" and "i < length assets"
  shows "length es = length assets \<and>
    (\<exists>m. en_lines (es ! i) =
        [\<lparr>ln_accountCode = dp_expense p, ln_side = ''debit'', ln_amountCents = m\<rparr>,
         \<lparr>ln_accountCode = dp_accumulated p, ln_side = ''credit'', ln_amountCents = m\<rparr>] \<and>
      en_id (es ! i) = ''depr-'' @ dec_nat (i + 1) \<and> 0 < m \<and>
      120000 * m \<le> fa_costBasisCents (assets ! i) * to_bigint (fa_annualRateBp (assets ! i)) \<and>
      fa_costBasisCents (assets ! i) * to_bigint (fa_annualRateBp (assets ! i)) < 120000 * (m + 1) \<and>
      12 * m \<le> fa_costBasisCents (assets ! i))"
proof -
  let ?a = "assets ! i" and ?m = "monthly_depreciation (assets ! i)"
  let ?n = "fa_costBasisCents ?a * to_bigint (fa_annualRateBp ?a)"
  from assms have es: "es = map (depreciation_entry s p) (enumerate 0 assets)" and ok: "asset_ok ?a"
    by (simp_all add: depreciation_Inr_iff list_all_length)
  have e: "es ! i = depreciation_entry s p (i, ?a)"
    using assms(2) by (simp add: es nth_enumerate_eq)
  have pos: "0 \<le> ?n" and le: "?n \<le> fa_costBasisCents ?a * 10000"
    using ok by (simp_all add: asset_ok_def rate_ok_def mult_left_mono)
  have "?m = ?n div 10000 div 12"
    using pos by (simp add: monthly_depreciation_def bigint_div_nonneg pos_imp_zdiv_nonneg_iff)
  also have "\<dots> = ?n div 120000"
    using zdiv_zmult2_eq [of 12 ?n 10000] by simp
  finally have m: "?m = ?n div 120000" .
  have "120000 * ?m \<le> ?n" and "?n < 120000 * (?m + 1)"
    unfolding m using floor_bounds [of ?n] by simp_all
  moreover from this le have "12 * ?m \<le> fa_costBasisCents ?a" by linarith
  ultimately show ?thesis
    using ok e by (auto simp: es depreciation_entry_def two_lines_def asset_ok_def)
qed

theorem depreciation_is_exact_floor_witness:
  "\<exists>es. computeDepreciation sample_close_scope sample_assets sample_dp = Inr es \<and> length es = 1"
proof -
  have "\<not> isl (computeDepreciation sample_close_scope sample_assets sample_dp)" by code_simp
  then obtain es where "computeDepreciation sample_close_scope sample_assets sample_dp = Inr es"
    by (metis sum.collapse(2))
  with depreciation_is_exact_floor [OF this, of 0] show ?thesis by (simp add: sample_assets_def)
qed

text \<open>
  The provisional income tax: with \<open>greater-of\<close> the applied amount is the greater of the two
  paths, each the exact floor of its rate; a missing prior-year ratio leaves the statutory minimum.
  It is positive and never exceeds the greater income.
\<close>

theorem provisional_isr_is_the_greater_path:
  assumes "computeProvisionalIsr s input p = Inr (e, cedula)" and "is_rule input = ''greater-of''"
  shows "ce_appliedCents cedula = max (ce_coefficientPathCents cedula) (ce_pctPathCents cedula) \<and>
    0 < ce_appliedCents cedula \<and>
    ce_appliedCents cedula \<le> max (is_netIncomeCents input) (is_monthlyNetIncomeCents input) \<and>
    ce_pctPathCents cedula =
      to_bigint (ip_statutoryMinimumBp p) * is_monthlyNetIncomeCents input div 10000 \<and>
    ce_coefficientPathCents cedula =
      (case is_priorYearRatioBp input of
         None \<Rightarrow> 0 | Some bp \<Rightarrow> to_bigint bp * is_netIncomeCents input div 10000) \<and>
    en_lines e = two_lines (ip_expense p) (ip_payable p) (ce_appliedCents cedula)"
proof -
  have floor: "0 \<le> bp * n \<and> bigint_div (bp * n) 10000 = bp * n div 10000 \<and> bp * n div 10000 \<le> n"
    if "0 < bp" "bp \<le> 10000" "0 \<le> n" for bp n :: int
  proof -
    have "bp * n \<le> 10000 * n" using that by (simp add: mult_right_mono)
    then have "bp * n div 10000 \<le> 10000 * n div 10000" by (rule zdiv_mono1) simp
    with that show ?thesis by (simp add: bigint_div_nonneg)
  qed
  from assms(1) have inc: "0 \<le> is_netIncomeCents input" "0 \<le> is_monthlyNetIncomeCents input"
    and min: "rate_ok (ip_statutoryMinimumBp p)"
    and ratio: "\<And>bp. is_priorYearRatioBp input = Some bp \<Longrightarrow> rate_ok bp"
    by (auto simp: isr_Inr_iff)
  have pct: "pct_path input p = to_bigint (ip_statutoryMinimumBp p) * is_monthlyNetIncomeCents input div 10000 \<and>
      pct_path input p \<le> is_monthlyNetIncomeCents input"
    using floor [OF _ _ inc(2)] min by (simp add: pct_path_def rate_ok_def)
  have coef: "coefficient_path input = (case is_priorYearRatioBp input of
      None \<Rightarrow> 0 | Some bp \<Rightarrow> to_bigint bp * is_netIncomeCents input div 10000) \<and>
      coefficient_path input \<le> is_netIncomeCents input"
    using floor [OF _ _ inc(1)] ratio inc(1) by (auto simp: coefficient_path_def rate_ok_def split: option.splits)
  show ?thesis
    using assms pct coef by (auto simp: isr_Inr_iff applied_isr_def)
qed

theorem provisional_isr_is_the_greater_path_witness:
  "\<exists>e cedula. computeProvisionalIsr sample_close_scope sample_isr sample_ip = Inr (e, cedula) \<and>
     ce_appliedCents cedula = 15000"
proof -
  have "\<not> isl (computeProvisionalIsr sample_close_scope sample_isr sample_ip)" by code_simp
  then obtain e c where e: "computeProvisionalIsr sample_close_scope sample_isr sample_ip = Inr (e, c)"
    by (metis sum.collapse(2) surj_pair)
  with provisional_isr_is_the_greater_path [OF e] show ?thesis
    by (simp add: sample_isr_def sample_ip_def)
qed

definition provision_fault :: "ProvisionInput \<Rightarrow> close_error option" where
  "provision_fault p =
     (if pv_kind p \<noteq> ''receivable'' \<and> pv_kind p \<noteq> ''inventory'' then Some CE_UNCLASSIFIABLE_INPUT
      else if num_negative (pv_agingDays p) \<or> pv_exposureCents p \<le> 0 then Some CE_NEGATIVE_AMOUNT
      else if \<not> rate_ok (pv_provisionRateBp p) then Some CE_RATE_OUT_OF_BOUNDS
      else if provision_amount p \<le> 0 then Some CE_NEGATIVE_AMOUNT else None)"

lemma rate_Some: "assertRateInBounds bp = Some e \<longleftrightarrow> \<not> rate_ok bp \<and> e = CE_RATE_OUT_OF_BOUNDS"
  by (auto simp: assertRateInBounds_def rate_ok_def MAX_RATE_BP_def)

lemma provide_faults: "isl (provide s policy ip) \<longleftrightarrow> provision_fault (snd ip) \<noteq> None"
  "provide s policy ip = Inl e \<longleftrightarrow> provision_fault (snd ip) = Some e"
proof -
  have ok: "assertBalanced \<lparr>en_id = i, en_scope = s, en_lines = two_lines a b n, en_kind = k\<rparr> = None"
    if "\<not> n \<le> 0" for i a b n k
    using that by (simp add: two_lines_balanced)
  show inl: "provide s policy ip = Inl e \<longleftrightarrow> provision_fault (snd ip) = Some e" for e
    using ok by (cases ip)
      (auto simp: provide_def provision_fault_def Let_def rate_Some checked_def)
  show "isl (provide s policy ip) \<longleftrightarrow> provision_fault (snd ip) \<noteq> None"
    using inl by (cases "provide s policy ip") (force simp: isl_def)+
qed

text \<open>
  Provisions are rejected as a whole and for the first reason only: an invalid scope, an account
  outside the chart, or the first input that has a fault, whose fault is the error; no entry of the
  inputs before it is returned.
\<close>

theorem provisions_reject_the_first_fault:
  "computeProvisions s inputs p = Inl e \<longleftrightarrow>
     (case validateScope s of
        Some err \<Rightarrow> e = err
      | None \<Rightarrow>
          if pp_expense p \<in> pp_chart p \<and> pp_liability p \<in> pp_chart p
          then (\<exists>x. find (\<lambda>x. provision_fault x \<noteq> None) inputs = Some x \<and> provision_fault x = Some e)
          else e = CE_ACCOUNT_NOT_IN_CHART)"
proof -
  have find_snd: "(\<exists>ix. find (\<lambda>ix. P (snd ix)) (enumerate k xs) = Some ix \<and> Q (snd ix)) \<longleftrightarrow>
      (\<exists>x. find P xs = Some x \<and> Q x)" for P Q k and xs :: "ProvisionInput list"
    by (induction xs arbitrary: k) auto
  have "traverse (provide s p) (enumerate 0 inputs) = Inl e \<longleftrightarrow>
      (\<exists>x. find (\<lambda>x. provision_fault x \<noteq> None) inputs = Some x \<and> provision_fault x = Some e)"
    unfolding traverse_Inl_iff provide_faults
    by (rule find_snd [of "\<lambda>x. provision_fault x \<noteq> None" 0 inputs "\<lambda>x. provision_fault x = Some e"])
  then show ?thesis
    by (auto simp: computeProvisions_def assertChartAccount_def split: option.split)
qed

end
