(* ===== verification/Annual_Declaration.thy ===== *)
theory Annual_Declaration
  imports Close_Calculations
begin

text \<open>
  \<^verbatim>\<open>annual-declaration/\<close>: \<^verbatim>\<open>types.ts\<close>, \<^verbatim>\<open>net-income.ts\<close>,
  \<^verbatim>\<open>isr.ts\<close>, \<^verbatim>\<open>settlement.ts\<close>, \<^verbatim>\<open>close-results.ts\<close>,
  \<^verbatim>\<open>declaration.ts\<close> and \<^verbatim>\<open>report.ts\<close>: the annual tax settlement. It reuses
  the closing entries and the balance check of the monthly close; an error of those is
  \<open>AE_Close\<close>.
\<close>

section \<open>Data\<close>

record AnnualScope =
  as_ruc :: js_string
  as_year :: js_string

record AnnualMonthInput =
  am_ruc :: js_string
  am_year :: js_string
  am_period :: js_string
  am_closed :: bool
  am_netIncomeCents :: int

record AnnualNetIncomeInput =
  ai_scope :: AnnualScope
  ai_months :: "AnnualMonthInput list"
  ai_additionsCents :: int
  ai_deductionsCents :: int

record AnnualIsrPolicy =
  ap_statutoryRateBp :: "js_number option"
  ap_maxStatutoryRateBp :: "js_number option"

record MonthlyIsrCedula =
  mc_ruc :: js_string
  mc_period :: js_string
  mc_amountCents :: int

datatype balance_kind = Payable | In_Favor | Zero_Balance

record AnnualSettlement =
  st_scope :: AnnualScope
  st_annualIsrCents :: int
  st_provisionalCreditCents :: int
  st_balanceCents :: int
  st_balanceKind :: balance_kind

datatype annual_error =
  AE_INVALID_SCOPE | AE_CROSS_RUC_ACCESS | AE_INCOMPLETE_INPUT | AE_NEGATIVE_AMOUNT
| AE_RATE_OUT_OF_BOUNDS | AE_UNBALANCED_ENTRY | AE_ACCOUNT_NOT_IN_CHART | AE_Close close_error

definition assertAnnualScope :: "AnnualScope \<Rightarrow> annual_error option" where
  "assertAnnualScope scope =
     (if \<not> digits_exactly 11 (as_ruc scope) then Some AE_INVALID_SCOPE
      else if \<not> digits_exactly 4 (as_year scope) then Some AE_INVALID_SCOPE else None)"

section \<open>Net income\<close>

fun count_closed :: "AnnualMonthInput list \<Rightarrow> nat \<Rightarrow> nat" where
  "count_closed [] n = n"
| "count_closed (m # ms) n = count_closed ms (if am_closed m then n + 1 else n)"

definition countClosedMonthlyPeriods :: "AnnualMonthInput list \<Rightarrow> nat" where
  "countClosedMonthlyPeriods months = count_closed months 0"

definition pad2 :: "nat \<Rightarrow> js_string" where
  "pad2 n = (let s = dec_nat n in replicate (2 - length s) CHR ''0'' @ s)"

definition expectedPeriods :: "js_string \<Rightarrow> js_string list" where
  "expectedPeriods year = map (\<lambda>i. year @ ''-'' @ pad2 (i + 1)) [0..<12]"

definition determineAnnualNetIncome :: "AnnualNetIncomeInput \<Rightarrow> annual_error + int" where
  "determineAnnualNetIncome input =
     (let scope = ai_scope input; months = ai_months input
      in case assertAnnualScope scope of
           Some e \<Rightarrow> Inl e
         | None \<Rightarrow>
             if list_ex (\<lambda>m. am_ruc m \<noteq> as_ruc scope \<or> take 4 (am_period m) \<noteq> as_year scope) months
             then Inl AE_CROSS_RUC_ACCESS
             else
               let present = set (map am_period months);
                   complete = length months = 12 \<and> card present = 12 \<and>
                     list_all (\<lambda>period. period \<in> present) (expectedPeriods (as_year scope)) \<and>
                     list_all am_closed months
               in if \<not> complete then Inl AE_INCOMPLETE_INPUT
                  else Inr ((\<Sum>m \<leftarrow> months. am_netIncomeCents m) + ai_additionsCents input -
                            ai_deductionsCents input))"

section \<open>Income tax\<close>

definition DEFAULT_STATUTORY_RATE_BP :: js_number where
  "DEFAULT_STATUTORY_RATE_BP = Fin 2950"

definition DEFAULT_MAX_STATUTORY_RATE_BP :: js_number where
  "DEFAULT_MAX_STATUTORY_RATE_BP = Fin 10000"

text \<open>\<open>a > b\<close> of a finite number and any number.\<close>

fun exceeds :: "int \<Rightarrow> js_number \<Rightarrow> bool" where
  "exceeds a (Fin r) = (r < of_int a)"
| "exceeds a NaN = False"
| "exceeds a (Infinite negative) = negative"

definition policy_rate :: "AnnualIsrPolicy option \<Rightarrow> js_number" where
  "policy_rate policy =
     (case policy of
        None \<Rightarrow> DEFAULT_STATUTORY_RATE_BP
      | Some p \<Rightarrow> (case ap_statutoryRateBp p of None \<Rightarrow> DEFAULT_STATUTORY_RATE_BP | Some r \<Rightarrow> r))"

definition policy_max :: "AnnualIsrPolicy option \<Rightarrow> js_number" where
  "policy_max policy =
     (case policy of
        None \<Rightarrow> DEFAULT_MAX_STATUTORY_RATE_BP
      | Some p \<Rightarrow> (case ap_maxStatutoryRateBp p of None \<Rightarrow> DEFAULT_MAX_STATUTORY_RATE_BP | Some r \<Rightarrow> r))"

definition computeAnnualIsr :: "int \<Rightarrow> AnnualIsrPolicy option \<Rightarrow> annual_error + int" where
  "computeAnnualIsr taxableBaseCents policy =
     (let rate = policy_rate policy
      in if \<not> is_integer rate \<or> to_bigint rate \<le> 0 \<or> exceeds (to_bigint rate) (policy_max policy)
         then Inl AE_RATE_OUT_OF_BOUNDS
         else if taxableBaseCents < 0 then Inl AE_NEGATIVE_AMOUNT
         else Inr (bigint_div (taxableBaseCents * to_bigint rate) 10000))"

section \<open>Settlement\<close>

definition kind_of_balance :: "int \<Rightarrow> balance_kind" where
  "kind_of_balance b = (if 0 < b then Payable else if b < 0 then In_Favor else Zero_Balance)"

definition computeAnnualSettlement ::
    "AnnualScope \<Rightarrow> int \<Rightarrow> MonthlyIsrCedula list \<Rightarrow> annual_error + AnnualSettlement" where
  "computeAnnualSettlement scope annualIsrCents cedulas =
     (case assertAnnualScope scope of
        Some e \<Rightarrow> Inl e
      | None \<Rightarrow>
          if list_ex (\<lambda>c. mc_ruc c \<noteq> as_ruc scope \<or> take 4 (mc_period c) \<noteq> as_year scope) cedulas
          then Inl AE_CROSS_RUC_ACCESS
          else
            let present = set (map mc_period cedulas);
                complete = length cedulas = 12 \<and> card present = 12 \<and>
                  list_all (\<lambda>period. period \<in> present) (expectedPeriods (as_year scope))
            in if \<not> complete then Inl AE_INCOMPLETE_INPUT
               else
                 let credit = (\<Sum>c \<leftarrow> cedulas. mc_amountCents c);
                     balance = annualIsrCents - credit
                 in Inr \<lparr>st_scope = scope, st_annualIsrCents = annualIsrCents,
                         st_provisionalCreditCents = credit, st_balanceCents = balance,
                         st_balanceKind = kind_of_balance balance\<rparr>)"

section \<open>Closing, declaration and report\<close>

definition closeAnnualResults ::
    "AnnualScope \<Rightarrow> ResultBalance list \<Rightarrow> js_string set \<Rightarrow> annual_error + CloseEntry list" where
  "closeAnnualResults scope balances chart =
     (case assertAnnualScope scope of
        Some e \<Rightarrow> Inl e
      | None \<Rightarrow>
          (case closeResultAccounts \<lparr>cl_ruc = as_ruc scope, cl_period = as_year scope @ ''12''\<rparr> balances chart of
             Inl e \<Rightarrow> Inl (AE_Close e)
           | Inr es \<Rightarrow> Inr es))"

record AnnualDeclarationInput =
  ad_scope :: AnnualScope
  ad_annualNetIncomeCents :: int
  ad_netIncome :: AnnualNetIncomeInput
  ad_taxableBaseCents :: int
  ad_rateBp :: js_number
  ad_settlement :: AnnualSettlement

record AnnualDeclarationPayload =
  pl_scope :: AnnualScope
  pl_annualNetIncomeCents :: int
  pl_taxableBaseCents :: int
  pl_annualIsrCents :: int
  pl_provisionalCreditCents :: int
  pl_balanceCents :: int
  pl_balanceKind :: balance_kind
  pl_netIncome :: AnnualNetIncomeInput
  pl_isr_taxableBaseCents :: int
  pl_isr_rateBp :: js_number
  pl_settlement :: AnnualSettlement

definition buildAnnualDeclaration :: "AnnualDeclarationInput \<Rightarrow> AnnualDeclarationPayload" where
  "buildAnnualDeclaration input =
     \<lparr>pl_scope = ad_scope input, pl_annualNetIncomeCents = ad_annualNetIncomeCents input,
      pl_taxableBaseCents = ad_taxableBaseCents input,
      pl_annualIsrCents = st_annualIsrCents (ad_settlement input),
      pl_provisionalCreditCents = st_provisionalCreditCents (ad_settlement input),
      pl_balanceCents = st_balanceCents (ad_settlement input),
      pl_balanceKind = st_balanceKind (ad_settlement input), pl_netIncome = ad_netIncome input,
      pl_isr_taxableBaseCents = ad_taxableBaseCents input, pl_isr_rateBp = ad_rateBp input,
      pl_settlement = ad_settlement input\<rparr>"

record AnnualReportInput =
  ar_entries :: "CloseEntry list"
  ar_settlement :: AnnualSettlement
  ar_before :: int

record AnnualReport =
  an_entries :: "CloseEntry list"
  an_trialBalanceBalanced :: bool
  an_settlement :: AnnualSettlement
  an_beforeCents :: int
  an_afterCents :: int

fun annual_loop :: "CloseEntry list \<Rightarrow> totals \<Rightarrow> annual_error + totals" where
  "annual_loop [] t = Inr t"
| "annual_loop (e # es) t =
     (case assertBalanced e of
        Some err \<Rightarrow> Inl (AE_Close err)
      | None \<Rightarrow> annual_loop es (fold add_line (en_lines e) t))"

definition buildAnnualReport :: "AnnualReportInput \<Rightarrow> annual_error + AnnualReport" where
  "buildAnnualReport input =
     (case annual_loop (ar_entries input) (0, 0, 0) of
        Inl e \<Rightarrow> Inl e
      | Inr (debits, credits, retained) \<Rightarrow>
          if debits \<noteq> credits then Inl AE_UNBALANCED_ENTRY
          else Inr \<lparr>an_entries = ar_entries input, an_trialBalanceBalanced = (debits = credits),
                    an_settlement = ar_settlement input, an_beforeCents = ar_before input,
                    an_afterCents = ar_before input + retained\<rparr>)"

lemmas annual_defs = assertAnnualScope_def countClosedMonthlyPeriods_def pad2_def expectedPeriods_def
  determineAnnualNetIncome_def DEFAULT_STATUTORY_RATE_BP_def DEFAULT_MAX_STATUTORY_RATE_BP_def
  policy_rate_def policy_max_def computeAnnualIsr_def kind_of_balance_def computeAnnualSettlement_def
  closeAnnualResults_def buildAnnualDeclaration_def buildAnnualReport_def

declare annual_defs [code_defs]

section \<open>Twelve months\<close>

lemma expected_distinct: "distinct (expectedPeriods year)" "length (expectedPeriods year) = 12"
proof -
  have "distinct (map (\<lambda>i. pad2 (i + 1)) [0..<12])" by code_simp
  then show "distinct (expectedPeriods year)"
    unfolding expectedPeriods_def by (auto simp: distinct_map inj_on_def)
qed (simp add: expectedPeriods_def)

text \<open>The code's test of completeness says that the periods are a permutation of the twelve.\<close>

lemma twelve_iff: "length ps = 12 \<and> card (set ps) = 12 \<and> list_all (\<lambda>p. p \<in> set ps) (expectedPeriods year) \<longleftrightarrow>
    mset ps = mset (expectedPeriods year)"
proof
  assume l: "length ps = 12 \<and> card (set ps) = 12 \<and> list_all (\<lambda>p. p \<in> set ps) (expectedPeriods year)"
  then have d: "distinct ps" by (simp add: card_distinct)
  have "set (expectedPeriods year) \<subseteq> set ps" using l by (auto simp: list_all_iff)
  moreover have "card (set (expectedPeriods year)) = card (set ps)"
    using l expected_distinct by (simp add: distinct_card)
  ultimately have "set (expectedPeriods year) = set ps" by (intro card_subset_eq) auto
  with d expected_distinct(1) show "mset ps = mset (expectedPeriods year)"
    by (simp add: set_eq_iff_mset_eq_distinct)
next
  assume m: "mset ps = mset (expectedPeriods year)"
  then have "set ps = set (expectedPeriods year)" "length ps = 12"
    using expected_distinct(2) by (metis set_mset_mset, metis size_mset)
  with expected_distinct show "length ps = 12 \<and> card (set ps) = 12 \<and>
      list_all (\<lambda>p. p \<in> set ps) (expectedPeriods year)"
    by (simp add: distinct_card list_all_iff)
qed

lemma expected_year: "digits_exactly 4 year \<Longrightarrow> p \<in> set (expectedPeriods year) \<Longrightarrow> take 4 p = year"
  by (auto simp: expectedPeriods_def digits_exactly_def)

definition year_ok :: "AnnualScope \<Rightarrow> bool" where
  "year_ok s \<longleftrightarrow> digits_exactly 11 (as_ruc s) \<and> digits_exactly 4 (as_year s)"

lemma annual_scope_None: "assertAnnualScope s = None \<longleftrightarrow> year_ok s"
  by (auto simp: assertAnnualScope_def year_ok_def)

lemma net_income_Inr_iff: "determineAnnualNetIncome input = Inr n \<longleftrightarrow>
    year_ok (ai_scope input) \<and>
    mset (map am_period (ai_months input)) = mset (expectedPeriods (as_year (ai_scope input))) \<and>
    list_all (\<lambda>m. am_ruc m = as_ruc (ai_scope input) \<and> am_closed m) (ai_months input) \<and>
    n = (\<Sum>m \<leftarrow> ai_months input. am_netIncomeCents m) + ai_additionsCents input - ai_deductionsCents input"
proof -
  let ?s = "ai_scope input" and ?ms = "ai_months input"
  have year: "list_all (\<lambda>m. take 4 (am_period m) = as_year ?s) ?ms"
    if "year_ok ?s" "mset (map am_period ?ms) = mset (expectedPeriods (as_year ?s))"
  proof -
    have "set (map am_period ?ms) = set (expectedPeriods (as_year ?s))"
      using that(2) by (metis set_mset_mset)
    with that(1) expected_year [of "as_year ?s"] show ?thesis
      by (fastforce simp: list_all_iff year_ok_def)
  qed
  show ?thesis
  proof (cases "year_ok ?s")
    case True
    then have "assertAnnualScope ?s = None" by (simp add: annual_scope_None)
    then have "determineAnnualNetIncome input = Inr n \<longleftrightarrow>
        list_all (\<lambda>m. am_ruc m = as_ruc ?s \<and> take 4 (am_period m) = as_year ?s) ?ms \<and>
        (length (map am_period ?ms) = 12 \<and> card (set (map am_period ?ms)) = 12 \<and>
         list_all (\<lambda>p. p \<in> set (map am_period ?ms)) (expectedPeriods (as_year ?s))) \<and>
        list_all am_closed ?ms \<and>
        n = (\<Sum>m \<leftarrow> ?ms. am_netIncomeCents m) + ai_additionsCents input - ai_deductionsCents input"
      by (auto simp: determineAnnualNetIncome_def Let_def list_all_iff list_ex_iff)
    with True year show ?thesis unfolding twelve_iff by (auto simp: list_all_iff)
  next
    case False
    then show ?thesis
      by (auto simp: determineAnnualNetIncome_def Let_def annual_scope_None [symmetric] split: option.split)
  qed
qed

lemma settlement_Inr_iff: "computeAnnualSettlement s isr cs = Inr st \<longleftrightarrow>
    year_ok s \<and> mset (map mc_period cs) = mset (expectedPeriods (as_year s)) \<and>
    list_all (\<lambda>c. mc_ruc c = as_ruc s) cs \<and>
    st = \<lparr>st_scope = s, st_annualIsrCents = isr, st_provisionalCreditCents = (\<Sum>c \<leftarrow> cs. mc_amountCents c),
          st_balanceCents = isr - (\<Sum>c \<leftarrow> cs. mc_amountCents c),
          st_balanceKind = kind_of_balance (isr - (\<Sum>c \<leftarrow> cs. mc_amountCents c))\<rparr>"
proof (cases "year_ok s")
  case True
  then have "assertAnnualScope s = None" by (simp add: annual_scope_None)
  then have "computeAnnualSettlement s isr cs = Inr st \<longleftrightarrow>
      list_all (\<lambda>c. mc_ruc c = as_ruc s \<and> take 4 (mc_period c) = as_year s) cs \<and>
      (length (map mc_period cs) = 12 \<and> card (set (map mc_period cs)) = 12 \<and>
       list_all (\<lambda>p. p \<in> set (map mc_period cs)) (expectedPeriods (as_year s))) \<and>
      st = \<lparr>st_scope = s, st_annualIsrCents = isr, st_provisionalCreditCents = (\<Sum>c \<leftarrow> cs. mc_amountCents c),
          st_balanceCents = isr - (\<Sum>c \<leftarrow> cs. mc_amountCents c),
          st_balanceKind = kind_of_balance (isr - (\<Sum>c \<leftarrow> cs. mc_amountCents c))\<rparr>"
    by (auto simp: computeAnnualSettlement_def Let_def list_all_iff list_ex_iff)
  moreover have "list_all (\<lambda>c. take 4 (mc_period c) = as_year s) cs"
    if "mset (map mc_period cs) = mset (expectedPeriods (as_year s))"
  proof -
    have "set (map mc_period cs) = set (expectedPeriods (as_year s))"
      using that by (metis set_mset_mset)
    with True expected_year [of "as_year s"] show ?thesis
      by (fastforce simp: list_all_iff year_ok_def)
  qed
  ultimately show ?thesis unfolding twelve_iff using True by (auto simp: list_all_iff)
next
  case False
  then show ?thesis
    by (auto simp: computeAnnualSettlement_def annual_scope_None [symmetric] split: option.split)
qed

lemma annual_isr_Inr: "computeAnnualIsr base policy = Inr isr \<Longrightarrow>
    0 \<le> base \<and> 0 < to_bigint (policy_rate policy) \<and> isr = base * to_bigint (policy_rate policy) div 10000"
  by (auto simp: computeAnnualIsr_def Let_def bigint_div_nonneg split: if_splits)

lemma floor_ten_thousand: "10000 * (n div 10000) \<le> n \<and> n < 10000 * (n div 10000 + 1)" for n :: int
  by presburger

section \<open>Properties\<close>

text \<open>
  The annual chain is exact. If net income, tax and settlement all succeed, the months and the
  payments are each exactly the twelve periods of the fiscal year, of this RUC and closed; the tax is
  the whole-cent floor of net income times the rate; and the balance is the tax less all payments,
  payable, in favor or zero by its sign. The declaration carries these amounts unchanged.
\<close>

theorem annual_settlement_is_exact:
  assumes "determineAnnualNetIncome input = Inr n" and "computeAnnualIsr n policy = Inr isr"
    and "computeAnnualSettlement (ai_scope input) isr cs = Inr st"
  shows "mset (map am_period (ai_months input)) = mset (expectedPeriods (as_year (ai_scope input))) \<and>
    mset (map mc_period cs) = mset (expectedPeriods (as_year (ai_scope input))) \<and>
    list_all (\<lambda>m. am_ruc m = as_ruc (ai_scope input) \<and> am_closed m) (ai_months input) \<and>
    list_all (\<lambda>c. mc_ruc c = as_ruc (ai_scope input)) cs \<and>
    n = (\<Sum>m \<leftarrow> ai_months input. am_netIncomeCents m) + ai_additionsCents input - ai_deductionsCents input \<and>
    0 \<le> n \<and> 10000 * isr \<le> n * to_bigint (policy_rate policy) \<and>
    n * to_bigint (policy_rate policy) < 10000 * (isr + 1) \<and>
    st_balanceCents st = isr - (\<Sum>c \<leftarrow> cs. mc_amountCents c) \<and>
    (st_balanceKind st = Payable \<longleftrightarrow> 0 < st_balanceCents st) \<and>
    (st_balanceKind st = In_Favor \<longleftrightarrow> st_balanceCents st < 0) \<and>
    (let p = buildAnnualDeclaration \<lparr>ad_scope = ai_scope input, ad_annualNetIncomeCents = n, ad_netIncome = input,
        ad_taxableBaseCents = n, ad_rateBp = policy_rate policy, ad_settlement = st\<rparr>
     in pl_annualIsrCents p = isr \<and> pl_balanceCents p = st_balanceCents st \<and>
        pl_provisionalCreditCents p + pl_balanceCents p = pl_annualIsrCents p)"
proof -
  note i = annual_isr_Inr [OF assms(2)]
  have "10000 * isr \<le> n * to_bigint (policy_rate policy) \<and> n * to_bigint (policy_rate policy) < 10000 * (isr + 1)"
    using i floor_ten_thousand [of "n * to_bigint (policy_rate policy)"] by simp
  with i assms(1,3) show ?thesis
    by (simp add: net_income_Inr_iff settlement_Inr_iff buildAnnualDeclaration_def kind_of_balance_def Let_def)
qed

definition sample_months :: "AnnualMonthInput list" where
  "sample_months =
     map (\<lambda>p. \<lparr>am_ruc = ''20100070970'', am_year = ''2025'', am_period = p, am_closed = True, am_netIncomeCents = 1000\<rparr>)
       (rev (expectedPeriods ''2025''))"

definition sample_annual :: AnnualNetIncomeInput where
  "sample_annual =
     \<lparr>ai_scope = \<lparr>as_ruc = ''20100070970'', as_year = ''2025''\<rparr>, ai_months = sample_months,
      ai_additionsCents = 500, ai_deductionsCents = 200\<rparr>"

definition sample_cedulas :: "MonthlyIsrCedula list" where
  "sample_cedulas =
     map (\<lambda>p. \<lparr>mc_ruc = ''20100070970'', mc_period = p, mc_amountCents = 300\<rparr>) (expectedPeriods ''2025'')"

theorem annual_settlement_is_exact_witness:
  "\<exists>st. computeAnnualSettlement (ai_scope sample_annual) 3628 sample_cedulas = Inr st \<and>
     st_balanceCents st = 28 \<and> st_balanceKind st = Payable"
proof -
  have n: "determineAnnualNetIncome sample_annual = Inr 12300" by code_simp
  have isr: "computeAnnualIsr 12300 None = Inr 3628" by code_simp
  have "\<not> isl (computeAnnualSettlement (ai_scope sample_annual) 3628 sample_cedulas)" by code_simp
  then obtain st where st: "computeAnnualSettlement (ai_scope sample_annual) 3628 sample_cedulas = Inr st"
    by (metis sum.collapse(2))
  have "(\<Sum>c \<leftarrow> sample_cedulas. mc_amountCents c) = 3600" by code_simp
  with annual_settlement_is_exact [OF n isr st] st show ?thesis by auto
qed

lemma annual_loop_Inr: "list_all (\<lambda>e. assertBalanced e = None) es \<Longrightarrow> annual_loop es (d, c, r) =
    Inr (d + line_total ''debit'' (all_lines es), c + line_total ''credit'' (all_lines es),
         r + retained_change (all_lines es))"
proof (induction es arbitrary: d c r)
  case (Cons e es)
  then have "list_all line_ok (en_lines e)" by (simp add: assertBalanced_None_iff)
  with Cons fold_add_line [of "en_lines e" d c r] show ?case by (simp add: add.assoc)
qed simp

text \<open>
  A year-end close that succeeds is reported: its entries post in December of the fiscal year,
  the report over them is emitted with a balanced trial balance, and retained earnings move by the
  closed balances.
\<close>

theorem annual_close_is_reported:
  assumes "closeAnnualResults s balances chart = Inr es"
  shows "list_all (\<lambda>e. en_scope e = \<lparr>cl_ruc = as_ruc s, cl_period = as_year s @ ''12''\<rparr>) es \<and>
    buildAnnualReport \<lparr>ar_entries = es, ar_settlement = st, ar_before = opening\<rparr> =
      Inr \<lparr>an_entries = es, an_trialBalanceBalanced = True, an_settlement = st, an_beforeCents = opening,
           an_afterCents = opening - (\<Sum>b \<leftarrow> balances. rb_balanceCents b)\<rparr>"
proof -
  let ?s = "\<lparr>cl_ruc = as_ruc s, cl_period = as_year s @ ''12''\<rparr>"
  from assms have "closeResultAccounts ?s balances chart = Inr es"
    by (auto simp: closeAnnualResults_def split: option.splits sum.splits)
  then have good: "list_all (entry_ok ?s chart) es"
    and move: "retained_change (all_lines es) = - (\<Sum>b \<leftarrow> balances. rb_balanceCents b)"
    using closing.produces_good [of "(?s, balances, chart)" es]
      closing.produces_move [of "(?s, balances, chart)" es] by simp_all
  from good have b: "list_all (\<lambda>e. assertBalanced e = None) es"
    by (auto simp: list_all_iff entry_ok_def)
  have "list_all (\<lambda>e. en_scope e = ?s) es"
    using good by (auto simp: list_all_iff entry_ok_def)
  with move balanced_totals [OF b] annual_loop_Inr [OF b, of 0 0 0] show ?thesis
    by (simp add: buildAnnualReport_def)
qed

theorem annual_close_is_reported_witness:
  "\<exists>es. closeAnnualResults \<lparr>as_ruc = ''20100070970'', as_year = ''2025''\<rparr> sample_balances sample_chart = Inr es \<and>
     list_all (\<lambda>e. cl_period (en_scope e) = ''202512'') es"
proof -
  have "\<not> isl (closeAnnualResults \<lparr>as_ruc = ''20100070970'', as_year = ''2025''\<rparr> sample_balances sample_chart)"
    by code_simp
  then obtain es where
    es: "closeAnnualResults \<lparr>as_ruc = ''20100070970'', as_year = ''2025''\<rparr> sample_balances sample_chart = Inr es"
    by (metis sum.collapse(2))
  with annual_close_is_reported [OF es] show ?thesis by (auto simp: list_all_iff)
qed

end
