(* ===== verification/Bank_Reconciliation.thy ===== *)
theory Bank_Reconciliation
  imports Prelude
begin

text \<open>
  \<^verbatim>\<open>bank-reconciliation/\<close>: \<^verbatim>\<open>types.ts\<close>, \<^verbatim>\<open>normalize.ts\<close>,
  \<^verbatim>\<open>compare.ts\<close>, \<^verbatim>\<open>adjust.ts\<close> and \<^verbatim>\<open>report.ts\<close>. Amounts are
  BigInt cents; \<open>localeCompare\<close> is the argument \<open>cmp\<close>. The side tables are plain objects, so a
  side token that names a member of \<open>Object.prototype\<close> is found there: that value is the side
  \<open>Inherited\<close>. The text of a rejection's detail and of a justification are datatypes.
\<close>

section \<open>Data\<close>

datatype movement_side = Inflow | Outflow | Inherited js_string

datatype movement_source = From_Bank | From_Ledger

record Movement =
  mv_date :: js_string
  mv_reference :: js_string
  mv_amountCents :: int
  mv_side :: movement_side
  mv_source :: movement_source
  mv_sourceKey :: js_string

record BankScope =
  bs_ruc :: js_string
  bs_period :: js_string

record RawRow =
  rw_ruc :: js_string
  rw_date :: js_string
  rw_reference :: js_string
  rw_amount :: js_string
  rw_side :: js_string
  rw_sourceKey :: js_string

datatype rejection_code = NORMALIZATION_REJECTED | CROSS_RUC_ACCESS | NEGATIVE_AMOUNT | FRACTIONAL_CENTS

datatype rejection_detail =
  Foreign_Ruc js_string js_string | Bad_Date_Format js_string | No_Calendar_Date js_string | Empty_Reference
| Not_Decimal js_string | Negative js_string | Fractional js_string | Not_Positive js_string
| Unknown_Side js_string | Empty_Key | Duplicate_Key js_string

record Rejection =
  rj_sourceKey :: js_string
  rj_code :: rejection_code
  rj_detail :: rejection_detail

record NormalizeResult =
  nr_movements :: "Movement list"
  nr_rejected :: "Rejection list"

datatype difference =
  Matched Movement Movement
| Bank_Only Movement
| Ledger_Only Movement
| Conflict js_string "Movement list" "Movement list"

record Reconciliation =
  rn_scope :: BankScope
  rn_differences :: "difference list"
  rn_fullyMatched :: bool

text \<open>The errors a caller sees; the last is the \<open>TypeError\<close> of \<open>JSON.stringify\<close> on a BigInt.\<close>

datatype scope_fault = Bad_Ruc js_string | Bad_Period js_string | Bad_Month js_string

datatype bank_error = INVALID_BANK_SCOPE scope_fault | UNCLASSIFIED_DIFFERENCE | Bigint_Not_Serializable

definition validateBankScope :: "BankScope \<Rightarrow> scope_fault option" where
  "validateBankScope scope =
     (if \<not> digits_exactly 11 (bs_ruc scope) then Some (Bad_Ruc (bs_ruc scope))
      else if \<not> digits_exactly 6 (bs_period scope) then Some (Bad_Period (bs_period scope))
      else let month = 10 * digit_val (bs_period scope ! 4) + digit_val (bs_period scope ! 5)
           in if month < 1 \<or> 12 < month then Some (Bad_Month (bs_period scope)) else None)"

section \<open>Normalization\<close>

definition OBJECT_PROTOTYPE :: "js_string list" where
  "OBJECT_PROTOTYPE =
     [''constructor'', ''hasOwnProperty'', ''isPrototypeOf'', ''propertyIsEnumerable'', ''toLocaleString'',
      ''toString'', ''valueOf'', ''__proto__'', ''__defineGetter__'', ''__defineSetter__'',
      ''__lookupGetter__'', ''__lookupSetter__'']"

definition side_lookup :: "(js_string \<times> movement_side) list \<Rightarrow> js_string \<Rightarrow> movement_side option" where
  "side_lookup table token =
     (case map_of table token of
        Some s \<Rightarrow> Some s
      | None \<Rightarrow> if token \<in> set OBJECT_PROTOTYPE then Some (Inherited token) else None)"

definition BANK_SIDE :: "(js_string \<times> movement_side) list" where
  "BANK_SIDE = [(''deposit'', Inflow), (''withdrawal'', Outflow)]"

definition LEDGER_SIDE :: "(js_string \<times> movement_side) list" where
  "LEDGER_SIDE = [(''debit'', Inflow), (''credit'', Outflow)]"

text \<open>\<open>replace(/\s+/g, " ")\<close>\<close>

fun collapse_spaces :: "js_string \<Rightarrow> js_string" where
  "collapse_spaces [] = []"
| "collapse_spaces (c # s) =
     (if is_space c
      then (case s of
              d # _ \<Rightarrow> if is_space d then collapse_spaces s else CHR '' '' # collapse_spaces s
            | [] \<Rightarrow> '' '')
      else c # collapse_spaces s)"

definition normalizeReference :: "js_string \<Rightarrow> js_string" where
  "normalizeReference reference = to_lower (collapse_spaces (js_trim reference))"

definition leap_year :: "nat \<Rightarrow> bool" where
  "leap_year y \<longleftrightarrow> y mod 4 = 0 \<and> (y mod 100 \<noteq> 0 \<or> y mod 400 = 0)"

definition days_in_month :: "nat \<Rightarrow> nat \<Rightarrow> nat" where
  "days_in_month y m = (if m = 2 then (if leap_year y then 29 else 28) else if m \<in> {4, 6, 9, 11} then 30 else 31)"

text \<open>
  Whether \<open>Date.UTC(year, month - 1, day)\<close> reads back as the same year, month and day: the
  fields of a real date of the proleptic Gregorian calendar; \<open>Date.UTC\<close> takes the years 0 to 99
  for 1900 to 1999, so that those never read back.
\<close>

definition utc_roundtrip :: "nat \<Rightarrow> nat \<Rightarrow> nat \<Rightarrow> bool" where
  "utc_roundtrip y m d \<longleftrightarrow> 100 \<le> y \<and> 1 \<le> m \<and> m \<le> 12 \<and> 1 \<le> d \<and> d \<le> days_in_month y m"

definition validateDate :: "js_string \<Rightarrow> rejection_detail option" where
  "validateDate v =
     (if \<not> ISO_DATE_PATTERN v then Some (Bad_Date_Format v)
      else if \<not> utc_roundtrip (undec (take 4 v)) (undec (take 2 (drop 5 v))) (undec (drop 8 v))
      then Some (No_Calendar_Date v) else None)"

text \<open>\<open>/^-?\d+(?:\.\d+)?$/\<close> on a text without or with its sign.\<close>

definition unsigned_decimal :: "js_string \<Rightarrow> bool" where
  "unsigned_decimal s \<longleftrightarrow>
     (let whole = takeWhile is_digit s; rest = dropWhile is_digit s
      in whole \<noteq> [] \<and>
         (case rest of [] \<Rightarrow> True | c # f \<Rightarrow> c = CHR ''.'' \<and> f \<noteq> [] \<and> list_all is_digit f))"

definition AMOUNT_PATTERN :: "js_string \<Rightarrow> bool" where
  "AMOUNT_PATTERN s \<longleftrightarrow>
     (case s of c # t \<Rightarrow> if c = CHR ''-'' then unsigned_decimal t else unsigned_decimal s | [] \<Rightarrow> False)"

definition parseAmountCents :: "js_string \<Rightarrow> (rejection_code \<times> rejection_detail) + int" where
  "parseAmountCents raw =
     (let amount = js_trim raw
      in if \<not> AMOUNT_PATTERN amount then Inl (NORMALIZATION_REJECTED, Not_Decimal raw)
         else if take 1 amount = ''-'' then Inl (NEGATIVE_AMOUNT, Negative raw)
         else
           let whole = takeWhile (\<lambda>c. c \<noteq> CHR ''.'') amount;
               fraction = takeWhile (\<lambda>c. c \<noteq> CHR ''.'') (drop (length whole + 1) amount);
               fractionalDigits = rev (dropWhile (\<lambda>c. c = CHR ''0'') (rev fraction))
           in if 0 < length fractionalDigits then Inl (FRACTIONAL_CENTS, Fractional raw)
              else
                let cents = int (undec whole)
                in if cents \<le> 0 then Inl (NORMALIZATION_REJECTED, Not_Positive raw) else Inr cents)"

text \<open>One row, given the keys seen so far: a rejection or the movement.\<close>

definition normalize_row ::
    "BankScope \<Rightarrow> movement_source \<Rightarrow> (js_string \<times> movement_side) list \<Rightarrow> js_string list \<Rightarrow> RawRow \<Rightarrow>
     Rejection + Movement" where
  "normalize_row scope source table seen row =
     (let refuse = (\<lambda>code detail.
        Inl \<lparr>rj_sourceKey = rw_sourceKey row, rj_code = code, rj_detail = detail\<rparr>);
          reference = normalizeReference (rw_reference row)
      in if rw_ruc row \<noteq> bs_ruc scope then refuse CROSS_RUC_ACCESS (Foreign_Ruc (rw_ruc row) (bs_ruc scope))
         else (case validateDate (rw_date row) of
                 Some detail \<Rightarrow> refuse NORMALIZATION_REJECTED detail
               | None \<Rightarrow>
                   if length reference = 0 then refuse NORMALIZATION_REJECTED Empty_Reference
                   else (case parseAmountCents (rw_amount row) of
                           Inl (code, detail) \<Rightarrow> refuse code detail
                         | Inr cents \<Rightarrow>
                             (case side_lookup table (rw_side row) of
                                None \<Rightarrow> refuse NORMALIZATION_REJECTED (Unknown_Side (rw_side row))
                              | Some side \<Rightarrow>
                                  if length (rw_sourceKey row) = 0 then refuse NORMALIZATION_REJECTED Empty_Key
                                  else if rw_sourceKey row \<in> set seen
                                  then refuse NORMALIZATION_REJECTED (Duplicate_Key (rw_sourceKey row))
                                  else Inr \<lparr>mv_date = rw_date row, mv_reference = reference,
                                            mv_amountCents = cents, mv_side = side, mv_source = source,
                                            mv_sourceKey = rw_sourceKey row\<rparr>))))"

fun normalize_loop ::
    "BankScope \<Rightarrow> movement_source \<Rightarrow> (js_string \<times> movement_side) list \<Rightarrow> RawRow list \<Rightarrow> js_string list \<Rightarrow>
     NormalizeResult" where
  "normalize_loop scope source table [] seen = \<lparr>nr_movements = [], nr_rejected = []\<rparr>"
| "normalize_loop scope source table (row # rows) seen =
     (case normalize_row scope source table seen row of
        Inl rejection \<Rightarrow>
          (let r = normalize_loop scope source table rows seen
           in r\<lparr>nr_rejected := rejection # nr_rejected r\<rparr>)
      | Inr movement \<Rightarrow>
          (let r = normalize_loop scope source table rows (rw_sourceKey row # seen)
           in r\<lparr>nr_movements := movement # nr_movements r\<rparr>))"

definition normalizeBankRows :: "BankScope \<Rightarrow> RawRow list \<Rightarrow> scope_fault + NormalizeResult" where
  "normalizeBankRows scope rows =
     (case validateBankScope scope of
        Some e \<Rightarrow> Inl e | None \<Rightarrow> Inr (normalize_loop scope From_Bank BANK_SIDE rows []))"

definition normalizeLedgerRows :: "BankScope \<Rightarrow> RawRow list \<Rightarrow> scope_fault + NormalizeResult" where
  "normalizeLedgerRows scope rows =
     (case validateBankScope scope of
        Some e \<Rightarrow> Inl e | None \<Rightarrow> Inr (normalize_loop scope From_Ledger LEDGER_SIDE rows []))"

section \<open>Matching\<close>

definition groupByReference :: "(js_string, Movement list) js_map \<Rightarrow> Movement \<Rightarrow> (js_string, Movement list) js_map" where
  "groupByReference byReference movement =
     (case map_of byReference (mv_reference movement) of
        None \<Rightarrow> AList.update (mv_reference movement) [movement] byReference
      | Some ms \<Rightarrow> AList.update (mv_reference movement) (ms @ [movement]) byReference)"

definition groups :: "Movement list \<Rightarrow> (js_string, Movement list) js_map" where
  "groups ms = foldl groupByReference [] ms"

text \<open>What the reference pass has found: conflicts, matches and the keys they take.\<close>

record reference_pass =
  rs_conflicts :: "difference list"
  rs_matches :: "difference list"
  rs_bankMatched :: "js_string list"
  rs_ledgerMatched :: "js_string list"
  rs_bankConflict :: "js_string list"
  rs_ledgerConflict :: "js_string list"

definition or_nil :: "'a list option \<Rightarrow> 'a list" where
  "or_nil x = (case x of None \<Rightarrow> [] | Some xs \<Rightarrow> xs)"

definition reference_step ::
    "(js_string, Movement list) js_map \<Rightarrow> (js_string, Movement list) js_map \<Rightarrow> js_string \<Rightarrow> reference_pass \<Rightarrow>
     reference_pass" where
  "reference_step bankBy ledgerBy reference s =
     (let bankSide = or_nil (map_of bankBy reference); ledgerSide = or_nil (map_of ledgerBy reference)
      in if 1 < length bankSide \<or> 1 < length ledgerSide
         then s\<lparr>rs_conflicts := rs_conflicts s @ [Conflict reference bankSide ledgerSide],
                rs_bankConflict := rs_bankConflict s @ map mv_sourceKey bankSide,
                rs_ledgerConflict := rs_ledgerConflict s @ map mv_sourceKey ledgerSide\<rparr>
         else if length bankSide = 1 \<and> length ledgerSide = 1
         then s\<lparr>rs_matches := rs_matches s @ [Matched (bankSide ! 0) (ledgerSide ! 0)],
                rs_bankMatched := rs_bankMatched s @ [mv_sourceKey (bankSide ! 0)],
                rs_ledgerMatched := rs_ledgerMatched s @ [mv_sourceKey (ledgerSide ! 0)]\<rparr>
         else s)"

definition sorted_references :: "Movement list \<Rightarrow> Movement list \<Rightarrow> js_string list" where
  "sorted_references bank ledger = sort (remdups (map fst (groups bank) @ map fst (groups ledger)))"

definition reference_matching :: "Movement list \<Rightarrow> Movement list \<Rightarrow> reference_pass" where
  "reference_matching bank ledger =
     fold (reference_step (groups bank) (groups ledger)) (sorted_references bank ledger)
       \<lparr>rs_conflicts = [], rs_matches = [], rs_bankMatched = [], rs_ledgerMatched = [],
        rs_bankConflict = [], rs_ledgerConflict = []\<rparr>"

definition by_key :: "(js_string \<Rightarrow> js_string \<Rightarrow> int) \<Rightarrow> Movement list \<Rightarrow> Movement list" where
  "by_key cmp ms = js_sort (\<lambda>a b. cmp (mv_sourceKey a) (mv_sourceKey b)) ms"

definition same_effect :: "Movement \<Rightarrow> Movement \<Rightarrow> bool" where
  "same_effect candidate movement \<longleftrightarrow>
     mv_amountCents candidate = mv_amountCents movement \<and> mv_date candidate = mv_date movement \<and>
     mv_side candidate = mv_side movement"

text \<open>The greedy pass: fallback matches, bank movements left over, and the remaining ledger.\<close>

fun greedy_pass :: "Movement list \<Rightarrow> Movement list \<Rightarrow> difference list \<times> difference list \<times> Movement list" where
  "greedy_pass [] available = ([], [], available)"
| "greedy_pass (m # ms) available =
     (case find_index (\<lambda>candidate. same_effect candidate m) available of
        None \<Rightarrow>
          (case greedy_pass ms available of
             (matches, bankOnly, rest) \<Rightarrow> (matches, Bank_Only m # bankOnly, rest))
      | Some i \<Rightarrow>
          (case greedy_pass ms (take i available @ drop (i + 1) available) of
             (matches, bankOnly, rest) \<Rightarrow> (Matched m (available ! i) # matches, bankOnly, rest)))"

fun is_matched :: "difference \<Rightarrow> bool" where
  "is_matched (Matched _ _) = True"
| "is_matched _ = False"

definition all_differences ::
    "(js_string \<Rightarrow> js_string \<Rightarrow> int) \<Rightarrow> Movement list \<Rightarrow> Movement list \<Rightarrow> difference list" where
  "all_differences cmp bank ledger =
     (let p = reference_matching bank ledger;
          unmatchedBank = by_key cmp (filter (\<lambda>m. mv_sourceKey m \<notin> set (rs_bankMatched p) \<and>
            mv_sourceKey m \<notin> set (rs_bankConflict p)) bank);
          availableLedger = by_key cmp (filter (\<lambda>m. mv_sourceKey m \<notin> set (rs_ledgerMatched p) \<and>
            mv_sourceKey m \<notin> set (rs_ledgerConflict p)) ledger)
      in case greedy_pass unmatchedBank availableLedger of
           (fallback, bankOnly, rest) \<Rightarrow>
             rs_conflicts p @ rs_matches p @ fallback @ bankOnly @ map Ledger_Only rest)"

definition reconcile_movements ::
    "(js_string \<Rightarrow> js_string \<Rightarrow> int) \<Rightarrow> BankScope \<Rightarrow> Movement list \<Rightarrow> Movement list \<Rightarrow> scope_fault + Reconciliation"
  where
  "reconcile_movements cmp scope bank ledger =
     (case validateBankScope scope of
        Some e \<Rightarrow> Inl e
      | None \<Rightarrow>
          (let differences = all_differences cmp bank ledger
           in Inr \<lparr>rn_scope = scope, rn_differences = differences,
                   rn_fullyMatched = list_all is_matched differences\<rparr>))"

section \<open>Adjustments and report\<close>

datatype justification = Justify bool Movement

datatype draft_status = Draft | Pending_Approval

record AdjustmentDraft =
  dr_draftId :: js_string
  dr_reference :: js_string
  dr_source :: movement_source
  dr_amountCents :: int
  dr_side :: movement_side
  dr_justification :: justification
  dr_requireApproval :: bool
  dr_status :: draft_status

record AdjustOptions =
  ao_requireApproval :: "bool option"
  ao_approvalOverrides :: "(js_string \<times> bool) list option"

text \<open>\<open>opts?.approvalOverrides?.[key] ?? default\<close>; an inherited member is a truthy value.\<close>

definition approval_of :: "AdjustOptions \<Rightarrow> js_string \<Rightarrow> bool" where
  "approval_of opts key =
     (let otherwise = (case ao_requireApproval opts of None \<Rightarrow> True | Some b \<Rightarrow> b)
      in case ao_approvalOverrides opts of
           None \<Rightarrow> otherwise
         | Some overrides \<Rightarrow>
             (case map_of overrides key of
                Some b \<Rightarrow> b
              | None \<Rightarrow> if key \<in> set OBJECT_PROTOTYPE then True else otherwise))"

definition draft_for :: "AdjustOptions \<Rightarrow> nat \<Rightarrow> bool \<Rightarrow> Movement \<Rightarrow> AdjustmentDraft" where
  "draft_for opts n bankOnly m =
     (let requireApproval = approval_of opts (mv_sourceKey m)
      in \<lparr>dr_draftId = ''adj-'' @ dec_nat n, dr_reference = mv_reference m, dr_source = mv_source m,
          dr_amountCents = mv_amountCents m, dr_side = mv_side m, dr_justification = Justify bankOnly m,
          dr_requireApproval = requireApproval,
          dr_status = (if requireApproval then Pending_Approval else Draft)\<rparr>)"

fun adjust_loop :: "AdjustOptions \<Rightarrow> difference list \<Rightarrow> nat \<Rightarrow> AdjustmentDraft list" where
  "adjust_loop opts [] n = []"
| "adjust_loop opts (Matched _ _ # ds) n = adjust_loop opts ds n"
| "adjust_loop opts (Conflict _ _ _ # ds) n = adjust_loop opts ds n"
| "adjust_loop opts (Bank_Only m # ds) n = draft_for opts (n + 1) True m # adjust_loop opts ds (n + 1)"
| "adjust_loop opts (Ledger_Only m # ds) n = draft_for opts (n + 1) False m # adjust_loop opts ds (n + 1)"

text \<open>
  A difference as it reaches \<open>buildAdjustments\<close>: of one of the classifications, or of none. The
  error text of the latter is built with \<open>JSON.stringify\<close>, which throws when the value holds a
  BigInt (as every movement does).
\<close>

datatype raw_difference = Classified difference | Unclassified bool

fun classify :: "raw_difference \<Rightarrow> bank_error + difference" where
  "classify (Classified d) = Inr d"
| "classify (Unclassified holds_bigint) =
     Inl (if holds_bigint then Bigint_Not_Serializable else UNCLASSIFIED_DIFFERENCE)"

definition buildAdjustments :: "raw_difference list \<Rightarrow> AdjustOptions \<Rightarrow> bank_error + AdjustmentDraft list" where
  "buildAdjustments differences opts =
     (case traverse classify differences of Inl e \<Rightarrow> Inl e | Inr ds \<Rightarrow> Inr (adjust_loop opts ds 0))"

record Balances =
  bl_bankInitial :: int
  bl_bankFinal :: int
  bl_ledgerInitial :: int
  bl_ledgerFinal :: int

record BankReport =
  br_scope :: BankScope
  br_balances :: Balances
  br_differences :: "difference list"
  br_adjustments :: "AdjustmentDraft list"
  br_netAdjustmentCents :: int
  br_reconciled :: bool

definition draft_effect :: "AdjustmentDraft \<Rightarrow> int" where
  "draft_effect d = (if dr_side d = Inflow then dr_amountCents d else - dr_amountCents d)"

definition buildReport :: "Reconciliation \<Rightarrow> Balances \<Rightarrow> bank_error + BankReport" where
  "buildReport reconciliation balances =
     (case validateBankScope (rn_scope reconciliation) of
        Some e \<Rightarrow> Inl (INVALID_BANK_SCOPE e)
      | None \<Rightarrow>
          (case buildAdjustments (map Classified (rn_differences reconciliation))
                  \<lparr>ao_requireApproval = None, ao_approvalOverrides = None\<rparr> of
             Inl e \<Rightarrow> Inl e
           | Inr adjustments \<Rightarrow>
               (let net = foldl (\<lambda>acc d. acc + draft_effect d) 0 adjustments
                in Inr \<lparr>br_scope = rn_scope reconciliation, br_balances = balances,
                        br_differences = rn_differences reconciliation, br_adjustments = adjustments,
                        br_netAdjustmentCents = net,
                        br_reconciled = (rn_fullyMatched reconciliation \<and>
                          bl_ledgerFinal balances + net = bl_bankFinal balances)\<rparr>)))"

lemmas bank_defs = validateBankScope_def OBJECT_PROTOTYPE_def side_lookup_def BANK_SIDE_def LEDGER_SIDE_def
  normalizeReference_def ISO_DATE_PATTERN_def leap_year_def days_in_month_def utc_roundtrip_def
  validateDate_def unsigned_decimal_def AMOUNT_PATTERN_def parseAmountCents_def normalize_row_def
  normalizeBankRows_def normalizeLedgerRows_def groupByReference_def groups_def or_nil_def
  reference_step_def sorted_references_def reference_matching_def by_key_def same_effect_def
  all_differences_def reconcile_movements_def approval_of_def draft_for_def buildAdjustments_def
  draft_effect_def buildReport_def

declare bank_defs [code_defs]

section \<open>What the matching pass does with the movements\<close>

fun bank_of :: "difference \<Rightarrow> Movement list" where
  "bank_of (Matched b _) = [b]"
| "bank_of (Bank_Only b) = [b]"
| "bank_of (Ledger_Only _) = []"
| "bank_of (Conflict _ bs _) = bs"

fun ledger_of :: "difference \<Rightarrow> Movement list" where
  "ledger_of (Matched _ l) = [l]"
| "ledger_of (Bank_Only _) = []"
| "ledger_of (Ledger_Only l) = [l]"
| "ledger_of (Conflict _ _ ls) = ls"

definition with_reference :: "js_string \<Rightarrow> Movement list \<Rightarrow> Movement list" where
  "with_reference r ms = filter (\<lambda>m. mv_reference m = r) ms"

lemma groupByReference_map:
  "map_of (groupByReference g m) =
     (map_of g)(mv_reference m \<mapsto> or_nil (map_of g (mv_reference m)) @ [m])"
  by (simp add: groupByReference_def or_nil_def split: option.splits)

lemma groupByReference_keys:
  "fst ` set (groupByReference g m) = insert (mv_reference m) (fst ` set g)"
  by (auto simp: groupByReference_def dom_update split: option.splits)

lemma groups_snoc: "groups (ms @ [m]) = groupByReference (groups ms) m"
  by (simp add: groups_def)

lemma groups_lookup [simp]: "or_nil (map_of (groups ms) r) = with_reference r ms"
proof (induction ms rule: rev_induct)
  case Nil
  show ?case by (simp add: groups_def or_nil_def with_reference_def)
next
  case (snoc m ms)
  then show ?case
    by (auto simp: groups_snoc groupByReference_map with_reference_def or_nil_def)
qed

lemma groups_keys [simp]: "fst ` set (groups ms) = mv_reference ` set ms"
proof (induction ms rule: rev_induct)
  case Nil
  show ?case by (simp add: groups_def)
next
  case (snoc m ms)
  then show ?case by (simp add: groups_snoc groupByReference_keys)
qed

lemma sorted_references_set: "set (sorted_references bank ledger) = mv_reference ` (set bank \<union> set ledger)"
  by (simp add: sorted_references_def image_Un)

lemma sorted_references_distinct: "distinct (sorted_references bank ledger)"
  by (simp add: sorted_references_def)

text \<open>A reference is settled by the reference pass when it is ambiguous or shared one to one.\<close>

definition ambiguous :: "Movement list \<Rightarrow> Movement list \<Rightarrow> js_string \<Rightarrow> bool" where
  "ambiguous bank ledger r \<longleftrightarrow> 1 < length (with_reference r bank) \<or> 1 < length (with_reference r ledger)"

definition one_to_one :: "Movement list \<Rightarrow> Movement list \<Rightarrow> js_string \<Rightarrow> bool" where
  "one_to_one bank ledger r \<longleftrightarrow> length (with_reference r bank) = 1 \<and> length (with_reference r ledger) = 1"

definition settled :: "Movement list \<Rightarrow> Movement list \<Rightarrow> js_string \<Rightarrow> bool" where
  "settled bank ledger r \<longleftrightarrow> ambiguous bank ledger r \<or> one_to_one bank ledger r"

definition conflict_at :: "Movement list \<Rightarrow> Movement list \<Rightarrow> js_string \<Rightarrow> difference" where
  "conflict_at bank ledger r = Conflict r (with_reference r bank) (with_reference r ledger)"

definition match_at :: "Movement list \<Rightarrow> Movement list \<Rightarrow> js_string \<Rightarrow> difference" where
  "match_at bank ledger r = Matched (with_reference r bank ! 0) (with_reference r ledger ! 0)"

text \<open>The reference pass in closed form.\<close>

lemma reference_fold:
  "fold (reference_step (groups bank) (groups ledger)) rs s =
     s\<lparr>rs_conflicts := rs_conflicts s @ map (conflict_at bank ledger) (filter (ambiguous bank ledger) rs),
       rs_matches := rs_matches s @ map (match_at bank ledger)
         (filter (\<lambda>r. \<not> ambiguous bank ledger r \<and> one_to_one bank ledger r) rs),
       rs_bankMatched := rs_bankMatched s @ concat (map (\<lambda>r. map mv_sourceKey (with_reference r bank))
         (filter (\<lambda>r. \<not> ambiguous bank ledger r \<and> one_to_one bank ledger r) rs)),
       rs_ledgerMatched := rs_ledgerMatched s @ concat (map (\<lambda>r. map mv_sourceKey (with_reference r ledger))
         (filter (\<lambda>r. \<not> ambiguous bank ledger r \<and> one_to_one bank ledger r) rs)),
       rs_bankConflict := rs_bankConflict s @ concat (map (\<lambda>r. map mv_sourceKey (with_reference r bank))
         (filter (ambiguous bank ledger) rs)),
       rs_ledgerConflict := rs_ledgerConflict s @ concat (map (\<lambda>r. map mv_sourceKey (with_reference r ledger))
         (filter (ambiguous bank ledger) rs))\<rparr>"
proof (induction rs arbitrary: s)
  case (Cons r rs)
  consider (amb) "ambiguous bank ledger r" | (one) "\<not> ambiguous bank ledger r" "one_to_one bank ledger r"
    | (free) "\<not> ambiguous bank ledger r" "\<not> one_to_one bank ledger r"
    by blast
  then show ?case
  proof cases
    case amb
    then have "reference_step (groups bank) (groups ledger) r s =
        s\<lparr>rs_conflicts := rs_conflicts s @ [conflict_at bank ledger r],
          rs_bankConflict := rs_bankConflict s @ map mv_sourceKey (with_reference r bank),
          rs_ledgerConflict := rs_ledgerConflict s @ map mv_sourceKey (with_reference r ledger)\<rparr>"
      by (auto simp: reference_step_def ambiguous_def conflict_at_def Let_def)
    with amb show ?thesis unfolding fold.simps comp_apply Cons.IH by simp
  next
    case one
    then have "length (with_reference r bank) = 1" and "length (with_reference r ledger) = 1"
      by (simp_all add: one_to_one_def)
    then obtain b l where "with_reference r bank = [b]" and "with_reference r ledger = [l]"
      by (metis One_nat_def length_0_conv length_Suc_conv)
    with one have "reference_step (groups bank) (groups ledger) r s =
        s\<lparr>rs_matches := rs_matches s @ [match_at bank ledger r],
          rs_bankMatched := rs_bankMatched s @ map mv_sourceKey (with_reference r bank),
          rs_ledgerMatched := rs_ledgerMatched s @ map mv_sourceKey (with_reference r ledger)\<rparr>"
      by (simp add: reference_step_def match_at_def Let_def)
    with one show ?thesis unfolding fold.simps comp_apply Cons.IH by simp
  next
    case free
    then have "reference_step (groups bank) (groups ledger) r s = s"
      by (auto simp: reference_step_def ambiguous_def one_to_one_def Let_def)
    with free show ?thesis unfolding fold.simps comp_apply Cons.IH by simp
  qed
qed simp

lemma with_reference_partition:
  "distinct rs \<Longrightarrow>
     mset (concat (map (\<lambda>r. with_reference r ms) rs)) = mset (filter (\<lambda>m. mv_reference m \<in> set rs) ms)"
proof (induction rs)
  case (Cons r rs)
  have "mset (filter (\<lambda>m. mv_reference m \<in> set (r # rs)) ms) =
      mset (with_reference r ms) + mset (filter (\<lambda>m. mv_reference m \<in> set rs) ms)"
    using Cons.prems unfolding with_reference_def
    by (induction ms) auto
  with Cons show ?case by simp
qed simp

lemma settled_movements:
  assumes "mv_reference ` set ms \<subseteq> set rs" and "distinct rs"
  shows "mset (concat (map (\<lambda>r. with_reference r ms) (filter P rs))) = mset (filter (\<lambda>m. P (mv_reference m)) ms)"
proof -
  have "filter (\<lambda>m. mv_reference m \<in> set (filter P rs)) ms = filter (\<lambda>m. P (mv_reference m)) ms"
    using assms(1) by (intro filter_cong) auto
  moreover have "mset (concat (map (\<lambda>r. with_reference r ms) (filter P rs))) =
      mset (filter (\<lambda>m. mv_reference m \<in> set (filter P rs)) ms)"
    by (rule with_reference_partition) (simp add: assms(2))
  ultimately show ?thesis by (simp only:)
qed

lemma unsettled_by_key:
  assumes "distinct (map mv_sourceKey ms)" and "mv_reference ` set ms \<subseteq> set rs"
  shows "filter (\<lambda>m. mv_sourceKey m \<notin>
           set (concat (map (\<lambda>r. map mv_sourceKey (with_reference r ms)) (filter P rs)))) ms =
         filter (\<lambda>m. \<not> P (mv_reference m)) ms"
proof (rule filter_cong [OF refl])
  fix m assume m: "m \<in> set ms"
  have inj: "inj_on mv_sourceKey (set ms)"
    using assms(1) by (simp add: distinct_map)
  show "mv_sourceKey m \<notin> set (concat (map (\<lambda>r. map mv_sourceKey (with_reference r ms)) (filter P rs))) \<longleftrightarrow>
      \<not> P (mv_reference m)"
  proof
    assume "mv_sourceKey m \<notin> set (concat (map (\<lambda>r. map mv_sourceKey (with_reference r ms)) (filter P rs)))"
    with m assms(2) show "\<not> P (mv_reference m)"
      by (force simp: with_reference_def)
  next
    assume "\<not> P (mv_reference m)"
    with m inj show "mv_sourceKey m \<notin>
        set (concat (map (\<lambda>r. map mv_sourceKey (with_reference r ms)) (filter P rs)))"
      by (auto simp: with_reference_def dest: inj_onD)
  qed
qed

section \<open>The greedy pass\<close>

lemma take_drop_nth: "i < length xs \<Longrightarrow> mset xs = add_mset (xs ! i) (mset (take i xs @ drop (i + 1) xs))"
  by (metis Suc_eq_plus1 id_take_nth_drop mset.simps(2) mset_append union_mset_add_mset_right)

lemma greedy_conserves:
  "greedy_pass ms available = (matches, bankOnly, rest) \<Longrightarrow>
     mset (concat (map bank_of matches)) + mset (concat (map bank_of bankOnly)) = mset ms \<and>
     mset (concat (map ledger_of matches)) + mset rest = mset available \<and>
     concat (map ledger_of bankOnly) = []"
proof (induction ms available arbitrary: matches bankOnly rest rule: greedy_pass.induct)
  case (2 m ms available)
  show ?case
  proof (cases "find_index (\<lambda>candidate. same_effect candidate m) available")
    case None
    with 2 show ?thesis by (fastforce split: prod.splits)
  next
    case (Some i)
    then have "mset available = add_mset (available ! i) (mset (take i available @ drop (i + 1) available))"
      using find_index_Some take_drop_nth by blast
    with Some 2 show ?thesis by (fastforce split: prod.splits)
  qed
qed simp

text \<open>Every pair of the greedy pass has one effect, and what it leaves over has no pair.\<close>

lemma greedy_rest: "greedy_pass ms available = (matches, bankOnly, rest) \<Longrightarrow> set rest \<subseteq> set available"
  using greedy_conserves [of ms available matches bankOnly rest]
  by (metis mset_subset_eq_add_right set_mset_mono set_mset_mset)

fun greedy_match :: "Movement list \<Rightarrow> Movement list \<Rightarrow> difference \<Rightarrow> bool" where
  "greedy_match ms available (Matched b l) \<longleftrightarrow> b \<in> set ms \<and> l \<in> set available \<and> same_effect l b"
| "greedy_match _ _ _ \<longleftrightarrow> False"

lemma greedy_match_mono:
  "greedy_match ms available d \<Longrightarrow> set available \<subseteq> set available' \<Longrightarrow> greedy_match (m # ms) available' d"
  by (cases d) auto

lemma greedy_matches:
  "greedy_pass ms available = (matches, bankOnly, rest) \<Longrightarrow> d \<in> set matches \<Longrightarrow> greedy_match ms available d"
proof (induction ms available arbitrary: matches bankOnly rest rule: greedy_pass.induct)
  case (2 m ms available)
  show ?case
  proof (cases "find_index (\<lambda>candidate. same_effect candidate m) available")
    case None
    with 2 show ?thesis
      by (auto split: prod.splits intro: greedy_match_mono [OF _ subset_refl])
  next
    case (Some i)
    let ?left = "take i available @ drop (i + 1) available"
    obtain ds bs ls where r: "greedy_pass ms ?left = (ds, bs, ls)"
      by (metis prod_cases3)
    with Some 2 have "d = Matched m (available ! i) \<or> greedy_match ms ?left d" by auto
    moreover have "set ?left \<subseteq> set available"
      by (auto dest: in_set_takeD in_set_dropD)
    moreover have "i < length available" and "same_effect (available ! i) m"
      using Some find_index_Some by blast+
    ultimately show ?thesis
      using greedy_match_mono by fastforce
  qed
qed simp

fun greedy_left :: "Movement list \<Rightarrow> Movement list \<Rightarrow> difference \<Rightarrow> bool" where
  "greedy_left ms rest (Bank_Only b) \<longleftrightarrow> b \<in> set ms \<and> list_all (\<lambda>l. \<not> same_effect l b) rest"
| "greedy_left _ _ _ \<longleftrightarrow> False"

lemma greedy_left_mono: "greedy_left ms rest d \<Longrightarrow> greedy_left (m # ms) rest d"
  by (cases d) auto

lemma greedy_leaves:
  "greedy_pass ms available = (matches, bankOnly, rest) \<Longrightarrow> d \<in> set bankOnly \<Longrightarrow> greedy_left ms rest d"
proof (induction ms available arbitrary: matches bankOnly rest rule: greedy_pass.induct)
  case (2 m ms available)
  show ?case
  proof (cases "find_index (\<lambda>candidate. same_effect candidate m) available")
    case None
    obtain ds bs ls where r: "greedy_pass ms available = (ds, bs, ls)"
      by (metis prod_cases3)
    have "list_all (\<lambda>l. \<not> same_effect l m) ls"
      using None greedy_rest [OF r] by (auto simp: find_index_None_iff list_all_iff)
    moreover from None r 2 have "d = Bank_Only m \<or> greedy_left ms rest d" and "rest = ls" by auto
    ultimately show ?thesis by (auto dest: greedy_left_mono)
  next
    case (Some i)
    obtain ds bs ls where r: "greedy_pass ms (take i available @ drop (i + 1) available) = (ds, bs, ls)"
      by (metis prod_cases3)
    with Some 2 show ?thesis by (auto intro: greedy_left_mono)
  qed
qed simp

section \<open>The differences of a reconciliation\<close>

lemma mset_by_key [simp]: "mset (by_key cmp ms) = mset ms"
  by (simp add: by_key_def)

lemma reference_matching_eq:
  assumes "rs = sorted_references bank ledger"
  shows "rs_conflicts (reference_matching bank ledger) = map (conflict_at bank ledger) (filter (ambiguous bank ledger) rs)"
    and "rs_matches (reference_matching bank ledger) =
      map (match_at bank ledger) (filter (\<lambda>r. \<not> ambiguous bank ledger r \<and> one_to_one bank ledger r) rs)"
    and "set (rs_bankMatched (reference_matching bank ledger)) \<union> set (rs_bankConflict (reference_matching bank ledger)) =
      set (concat (map (\<lambda>r. map mv_sourceKey (with_reference r bank)) (filter (settled bank ledger) rs)))"
    and "set (rs_ledgerMatched (reference_matching bank ledger)) \<union> set (rs_ledgerConflict (reference_matching bank ledger)) =
      set (concat (map (\<lambda>r. map mv_sourceKey (with_reference r ledger)) (filter (settled bank ledger) rs)))"
  using assms by (auto simp: reference_matching_def reference_fold settled_def)

lemma match_at_sides:
  "one_to_one bank ledger r \<Longrightarrow> bank_of (match_at bank ledger r) = with_reference r bank \<and>
     ledger_of (match_at bank ledger r) = with_reference r ledger"
  unfolding one_to_one_def match_at_def by (cases "with_reference r bank"; cases "with_reference r ledger") auto

lemma split_settled:
  "mset (concat (map f (filter A rs))) + mset (concat (map f (filter (\<lambda>r. \<not> A r \<and> B r) rs))) =
     mset (concat (map f (filter (\<lambda>r. A r \<or> B r) rs)))"
  by (induction rs) auto

lemma reference_pass_conserves:
  fixes bank ledger :: "Movement list"
  defines "p \<equiv> reference_matching bank ledger"
  shows "mset (concat (map bank_of (rs_conflicts p @ rs_matches p))) =
      mset (filter (\<lambda>m. settled bank ledger (mv_reference m)) bank)"
    and "mset (concat (map ledger_of (rs_conflicts p @ rs_matches p))) =
      mset (filter (\<lambda>m. settled bank ledger (mv_reference m)) ledger)"
proof -
  let ?rs = "sorted_references bank ledger"
  let ?one = "filter (\<lambda>r. \<not> ambiguous bank ledger r \<and> one_to_one bank ledger r) ?rs"
  have b: "map (bank_of \<circ> match_at bank ledger) ?one = map (\<lambda>r. with_reference r bank) ?one"
    and l: "map (ledger_of \<circ> match_at bank ledger) ?one = map (\<lambda>r. with_reference r ledger) ?one"
    using match_at_sides by auto
  have *: "map bank_of (rs_conflicts p @ rs_matches p) =
      map (\<lambda>r. with_reference r bank) (filter (ambiguous bank ledger) ?rs) @ map (\<lambda>r. with_reference r bank) ?one"
    "map ledger_of (rs_conflicts p @ rs_matches p) =
      map (\<lambda>r. with_reference r ledger) (filter (ambiguous bank ledger) ?rs) @ map (\<lambda>r. with_reference r ledger) ?one"
    by (simp_all add: p_def reference_matching_eq [OF refl] b l conflict_at_def)
  have cover: "mv_reference ` set bank \<subseteq> set ?rs" "mv_reference ` set ledger \<subseteq> set ?rs"
    by (auto simp: sorted_references_set)
  show "mset (concat (map bank_of (rs_conflicts p @ rs_matches p))) =
      mset (filter (\<lambda>m. settled bank ledger (mv_reference m)) bank)"
    unfolding * concat_append mset_append split_settled settled_def
    by (rule settled_movements [OF cover(1) sorted_references_distinct])
  show "mset (concat (map ledger_of (rs_conflicts p @ rs_matches p))) =
      mset (filter (\<lambda>m. settled bank ledger (mv_reference m)) ledger)"
    unfolding * concat_append mset_append split_settled settled_def
    by (rule settled_movements [OF cover(2) sorted_references_distinct])
qed

text \<open>With distinct source keys, the movements left for the greedy pass are those not settled.\<close>

definition unsettled :: "Movement list \<Rightarrow> Movement list \<Rightarrow> Movement list \<Rightarrow> Movement list" where
  "unsettled bank ledger ms = filter (\<lambda>m. \<not> settled bank ledger (mv_reference m)) ms"

lemma all_differences_eq:
  assumes "distinct (map mv_sourceKey bank)" and "distinct (map mv_sourceKey ledger)"
    and "greedy_pass (by_key cmp (unsettled bank ledger bank)) (by_key cmp (unsettled bank ledger ledger)) =
      (matches, bankOnly, rest)"
  shows "all_differences cmp bank ledger =
    rs_conflicts (reference_matching bank ledger) @ rs_matches (reference_matching bank ledger) @
    matches @ bankOnly @ map Ledger_Only rest"
proof -
  let ?p = "reference_matching bank ledger"
  have cover: "mv_reference ` set bank \<subseteq> set (sorted_references bank ledger)"
    "mv_reference ` set ledger \<subseteq> set (sorted_references bank ledger)"
    by (auto simp: sorted_references_set)
  have "filter (\<lambda>m. mv_sourceKey m \<notin> set (rs_bankMatched ?p) \<and> mv_sourceKey m \<notin> set (rs_bankConflict ?p)) bank =
      unsettled bank ledger bank"
    using unsettled_by_key [OF assms(1) cover(1), of "settled bank ledger"]
      reference_matching_eq(3) [OF refl, of bank ledger] unfolding unsettled_def by (metis (no_types, lifting) Un_iff filter_cong)
  moreover have "filter (\<lambda>m. mv_sourceKey m \<notin> set (rs_ledgerMatched ?p) \<and> mv_sourceKey m \<notin> set (rs_ledgerConflict ?p)) ledger =
      unsettled bank ledger ledger"
    using unsettled_by_key [OF assms(2) cover(2), of "settled bank ledger"]
      reference_matching_eq(4) [OF refl, of bank ledger] unfolding unsettled_def by (metis (no_types, lifting) Un_iff filter_cong)
  ultimately show ?thesis
    using assms(3) by (simp add: all_differences_def Let_def)
qed

text \<open>
  With distinct source keys on each side, every bank movement and every ledger movement appears in
  exactly one difference.
\<close>

lemma every_movement_is_classified_once:
  assumes "distinct (map mv_sourceKey bank)" and "distinct (map mv_sourceKey ledger)"
    and "reconcile_movements cmp scope bank ledger = Inr r"
  shows "mset (concat (map bank_of (rn_differences r))) = mset bank \<and>
    mset (concat (map ledger_of (rn_differences r))) = mset ledger"
proof -
  obtain matches bankOnly rest where g: "greedy_pass (by_key cmp (unsettled bank ledger bank))
      (by_key cmp (unsettled bank ledger ledger)) = (matches, bankOnly, rest)"
    by (metis prod_cases3)
  have "rn_differences r = all_differences cmp bank ledger"
    using assms(3) by (auto simp: reconcile_movements_def Let_def split: option.splits)
  with all_differences_eq [OF assms(1, 2) g] have d: "rn_differences r =
      (rs_conflicts (reference_matching bank ledger) @ rs_matches (reference_matching bank ledger)) @
      matches @ bankOnly @ map Ledger_Only rest" by simp
  have only: "bank_of \<circ> Ledger_Only = (\<lambda>_. [])" "ledger_of \<circ> Ledger_Only = (\<lambda>l. [l])"
    by auto
  have Nils: "concat (map (\<lambda>_. []) rest) = ([] :: Movement list)" by (induction rest) auto
  have len: "concat (map ledger_of bankOnly) = []" using greedy_conserves [OF g] by blast
  have "mset (concat (map bank_of (rn_differences r))) =
      mset (filter (\<lambda>m. settled bank ledger (mv_reference m)) bank) + mset (unsettled bank ledger bank)"
    unfolding d using reference_pass_conserves(1) [of bank ledger] greedy_conserves [OF g]
    by (simp add: only Nils del: concat_eq_Nil_conv)
  moreover have "mset (concat (map ledger_of (rn_differences r))) =
      mset (filter (\<lambda>m. settled bank ledger (mv_reference m)) ledger) + mset (unsettled bank ledger ledger)"
    unfolding d using reference_pass_conserves(2) [of bank ledger] greedy_conserves [OF g]
    by (simp add: only len del: concat_eq_Nil_conv)
  ultimately show ?thesis
    by (simp add: unsettled_def)
qed

section \<open>What normalization accepts\<close>

definition movement_ok :: "movement_source \<Rightarrow> Movement \<Rightarrow> bool" where
  "movement_ok source m \<longleftrightarrow>
     mv_source m = source \<and> 0 < mv_amountCents m \<and> mv_sourceKey m \<noteq> [] \<and> mv_reference m \<noteq> [] \<and>
     validateDate (mv_date m) = None"

lemma parseAmountCents_pos: "parseAmountCents raw = Inr c \<Longrightarrow> 0 < c"
  by (auto simp: parseAmountCents_def Let_def split: if_splits)

lemma normalize_row_Inr:
  "normalize_row scope source table seen row = Inr m \<Longrightarrow>
     movement_ok source m \<and> mv_sourceKey m = rw_sourceKey row \<and> rw_sourceKey row \<notin> set seen \<and>
     rw_ruc row = bs_ruc scope"
  by (auto simp: normalize_row_def movement_ok_def Let_def parseAmountCents_pos
      split: if_splits option.splits sum.splits prod.splits)

lemma normalize_row_Inl:
  "normalize_row scope source table seen row = Inl e \<Longrightarrow> rj_sourceKey e = rw_sourceKey row"
  by (auto simp: normalize_row_def Let_def split: if_splits option.splits sum.splits prod.splits)

lemma normalize_loop_accepts:
  "list_all (movement_ok source) (nr_movements (normalize_loop scope source table rows seen)) \<and>
   distinct (map mv_sourceKey (nr_movements (normalize_loop scope source table rows seen))) \<and>
   set (map mv_sourceKey (nr_movements (normalize_loop scope source table rows seen))) \<inter> set seen = {}"
proof (induction rows arbitrary: seen)
  case (Cons row rows)
  show ?case
  proof (cases "normalize_row scope source table seen row")
    case (Inl e)
    with Cons.IH [of seen] show ?thesis by (simp add: Let_def)
  next
    case (Inr m)
    note row = normalize_row_Inr [OF Inr]
    from Cons.IH [of "rw_sourceKey row # seen"] row Inr show ?thesis by (auto simp: Let_def)
  qed
qed simp

lemma normalize_loop_keys:
  "mset (map rw_sourceKey rows) =
     mset (map mv_sourceKey (nr_movements (normalize_loop scope source table rows seen))) +
     mset (map rj_sourceKey (nr_rejected (normalize_loop scope source table rows seen)))"
proof (induction rows arbitrary: seen)
  case (Cons row rows)
  then show ?case
    using normalize_row_Inr [of scope source table seen row] normalize_row_Inl [of scope source table seen row]
    by (auto simp: Let_def split: sum.splits)
qed simp

lemma image_mset_flatten: "mset (map f (concat xss)) = image_mset f (mset (concat xss))"
  by simp

text \<open>
  Every row of the bank statement and of the ledger is accounted for: its key is that of one
  rejection, or it is in exactly one difference of the reconciliation over the accepted movements.
\<close>

theorem bank_rows_are_accounted:
  assumes "normalizeBankRows scope bankRows = Inr nb" and "normalizeLedgerRows scope ledgerRows = Inr nl"
    and "reconcile_movements cmp scope (nr_movements nb) (nr_movements nl) = Inr r"
  shows "mset (map rw_sourceKey bankRows) = mset (map rj_sourceKey (nr_rejected nb)) +
      mset (map mv_sourceKey (concat (map bank_of (rn_differences r)))) \<and>
    mset (map rw_sourceKey ledgerRows) = mset (map rj_sourceKey (nr_rejected nl)) +
      mset (map mv_sourceKey (concat (map ledger_of (rn_differences r))))"
proof -
  have nb: "nb = normalize_loop scope From_Bank BANK_SIDE bankRows []"
    and nl: "nl = normalize_loop scope From_Ledger LEDGER_SIDE ledgerRows []"
    using assms(1, 2) by (auto simp: normalizeBankRows_def normalizeLedgerRows_def split: option.splits)
  have "distinct (map mv_sourceKey (nr_movements nb))" and "distinct (map mv_sourceKey (nr_movements nl))"
    using normalize_loop_accepts [of From_Bank scope BANK_SIDE bankRows "[]"]
      normalize_loop_accepts [of From_Ledger scope LEDGER_SIDE ledgerRows "[]"] by (simp_all add: nb nl)
  from every_movement_is_classified_once [OF this assms(3)]
  show ?thesis
    using normalize_loop_keys [of bankRows scope From_Bank BANK_SIDE "[]"]
      normalize_loop_keys [of ledgerRows scope From_Ledger LEDGER_SIDE "[]"]
    unfolding image_mset_flatten by (simp add: nb nl add.commute)
qed

definition sample_bank_scope :: BankScope where
  "sample_bank_scope = \<lparr>bs_ruc = ''20100070970'', bs_period = ''202501''\<rparr>"

definition sample_row :: "js_string \<Rightarrow> js_string \<Rightarrow> js_string \<Rightarrow> js_string \<Rightarrow> RawRow" where
  "sample_row r amount side key =
     \<lparr>rw_ruc = ''20100070970'', rw_date = ''2025-01-15'', rw_reference = r, rw_amount = amount,
      rw_side = side, rw_sourceKey = key\<rparr>"

definition sample_statement :: "RawRow list" where
  "sample_statement =
     [sample_row '' OP  1'' ''250.00'' ''deposit'' ''b1'', sample_row ''x'' ''100'' ''withdrawal'' ''b2'',
      sample_row ''y'' ''70'' ''deposit'' ''b3'', sample_row ''z'' ''1.5'' ''deposit'' ''b4'']"

definition sample_books :: "RawRow list" where
  "sample_books =
     [sample_row ''op 1'' ''999'' ''debit'' ''l1'', sample_row ''w'' ''100'' ''credit'' ''l2'',
      sample_row ''v'' ''30'' ''credit'' ''l3'']"

definition compare_keys :: "js_string \<Rightarrow> js_string \<Rightarrow> int" where
  "compare_keys a b = (if a < b then -1 else if a = b then 0 else 1)"

lemmas sample_bank_defs = sample_bank_scope_def sample_row_def sample_statement_def sample_books_def compare_keys_def

theorem bank_rows_are_accounted_witness:
  "\<exists>nb nl r. normalizeBankRows sample_bank_scope sample_statement = Inr nb \<and>
     normalizeLedgerRows sample_bank_scope sample_books = Inr nl \<and>
     reconcile_movements compare_keys sample_bank_scope (nr_movements nb) (nr_movements nl) = Inr r \<and>
     length (nr_rejected nb) = 1 \<and>
     mset (map mv_sourceKey (concat (map ledger_of (rn_differences r)))) = mset [''l1'', ''l2'', ''l3'']"
proof -
  have "\<not> isl (normalizeBankRows sample_bank_scope sample_statement)"
    and "\<not> isl (normalizeLedgerRows sample_bank_scope sample_books)" by code_simp+
  then obtain nb nl where n: "normalizeBankRows sample_bank_scope sample_statement = Inr nb"
    "normalizeLedgerRows sample_bank_scope sample_books = Inr nl"
    by (metis sum.collapse(2))
  have "validateBankScope sample_bank_scope = None" by code_simp
  then obtain r where r: "reconcile_movements compare_keys sample_bank_scope (nr_movements nb) (nr_movements nl) = Inr r"
    by (simp add: reconcile_movements_def Let_def)
  have "length (nr_rejected (projr (normalizeBankRows sample_bank_scope sample_statement))) = 1"
    and "nr_rejected (projr (normalizeLedgerRows sample_bank_scope sample_books)) = []" by code_simp+
  then have "length (nr_rejected nb) = 1" and "nr_rejected nl = []" by (simp_all add: n)
  moreover have "map rw_sourceKey sample_books = [''l1'', ''l2'', ''l3'']" by code_simp
  ultimately show ?thesis
    using n r bank_rows_are_accounted [OF n r] by auto
qed

section \<open>What justifies a difference\<close>

fun justified :: "Movement list \<Rightarrow> Movement list \<Rightarrow> difference \<Rightarrow> bool" where
  "justified bank ledger (Matched b l) \<longleftrightarrow>
     b \<in> set bank \<and> l \<in> set ledger \<and>
     (same_effect l b \<or> mv_reference b = mv_reference l \<and>
        with_reference (mv_reference b) bank = [b] \<and> with_reference (mv_reference b) ledger = [l])"
| "justified bank ledger (Conflict r bs ls) \<longleftrightarrow>
     bs = with_reference r bank \<and> ls = with_reference r ledger \<and> (1 < length bs \<or> 1 < length ls)"
| "justified bank ledger (Bank_Only b) \<longleftrightarrow> b \<in> set bank"
| "justified bank ledger (Ledger_Only l) \<longleftrightarrow> l \<in> set ledger"

lemma with_reference_mem: "m \<in> set (with_reference r ms) \<Longrightarrow> m \<in> set ms \<and> mv_reference m = r"
  by (simp add: with_reference_def)

lemma match_at_justified: "one_to_one bank ledger r \<Longrightarrow> justified bank ledger (match_at bank ledger r)"
proof -
  assume "one_to_one bank ledger r"
  then obtain b l where "with_reference r bank = [b]" and "with_reference r ledger = [l]"
    unfolding one_to_one_def by (metis One_nat_def length_0_conv length_Suc_conv)
  moreover from this have "b \<in> set bank \<and> mv_reference b = r" and "l \<in> set ledger \<and> mv_reference l = r"
    using with_reference_mem [of _ r bank] with_reference_mem [of _ r ledger] by simp_all
  ultimately show ?thesis by (simp add: match_at_def)
qed

lemma greedy_match_justified:
  "greedy_match ms available d \<Longrightarrow> set ms \<subseteq> set bank \<Longrightarrow> set available \<subseteq> set ledger \<Longrightarrow> justified bank ledger d"
  by (cases d) auto

lemma greedy_left_justified: "greedy_left ms rest d \<Longrightarrow> set ms \<subseteq> set bank \<Longrightarrow> justified bank ledger d"
  by (cases d) auto

lemma all_differences_split:
  obtains ms available matches bankOnly rest where
    "greedy_pass ms available = (matches, bankOnly, rest)" and "set ms \<subseteq> set bank" and "set available \<subseteq> set ledger"
    and "all_differences cmp bank ledger =
      rs_conflicts (reference_matching bank ledger) @ rs_matches (reference_matching bank ledger) @
      matches @ bankOnly @ map Ledger_Only rest"
proof -
  define p where "p = reference_matching bank ledger"
  define ms where "ms = by_key cmp (filter (\<lambda>m. mv_sourceKey m \<notin> set (rs_bankMatched p) \<and>
    mv_sourceKey m \<notin> set (rs_bankConflict p)) bank)"
  define av where "av = by_key cmp (filter (\<lambda>m. mv_sourceKey m \<notin> set (rs_ledgerMatched p) \<and>
    mv_sourceKey m \<notin> set (rs_ledgerConflict p)) ledger)"
  obtain x y z where g: "greedy_pass ms av = (x, y, z)" by (metis prod_cases3)
  show thesis
  proof (rule that [OF g])
    show "set ms \<subseteq> set bank" and "set av \<subseteq> set ledger"
      by (auto simp: ms_def av_def by_key_def)
    show "all_differences cmp bank ledger =
      rs_conflicts (reference_matching bank ledger) @ rs_matches (reference_matching bank ledger) @
      x @ y @ map Ledger_Only z"
      using g by (simp add: all_differences_def Let_def flip: p_def ms_def av_def)
  qed
qed

text \<open>
  Every difference has its reason: a matched pair shares a reference that is unique on both sides
  or has one amount, date and side; a conflict holds all movements of a reference that is ambiguous on
  a side; and no movement left on the bank side has the amount, date and side of one left in the ledger.
\<close>

theorem bank_differences_are_justified:
  assumes "reconcile_movements cmp scope bank ledger = Inr r"
  shows "list_all (justified bank ledger) (rn_differences r) \<and>
    (\<nexists>b l. Bank_Only b \<in> set (rn_differences r) \<and> Ledger_Only l \<in> set (rn_differences r) \<and> same_effect l b)"
proof -
  have r: "rn_differences r = all_differences cmp bank ledger"
    using assms by (auto simp: reconcile_movements_def Let_def split: option.splits)
  obtain ms available matches bankOnly rest where
    g: "greedy_pass ms available = (matches, bankOnly, rest)" and sub: "set ms \<subseteq> set bank" "set available \<subseteq> set ledger"
    and d: "rn_differences r = rs_conflicts (reference_matching bank ledger) @
      rs_matches (reference_matching bank ledger) @ matches @ bankOnly @ map Ledger_Only rest"
    unfolding r by (rule all_differences_split)
  have conflicts: "list_all (justified bank ledger) (rs_conflicts (reference_matching bank ledger))"
    by (auto simp: reference_matching_eq [OF refl] list_all_iff conflict_at_def ambiguous_def)
  have matched: "list_all (justified bank ledger) (rs_matches (reference_matching bank ledger))"
    by (auto simp: reference_matching_eq [OF refl] list_all_iff match_at_justified)
  have greedy: "list_all (justified bank ledger) matches" "list_all (justified bank ledger) bankOnly"
    using greedy_matches [OF g] greedy_leaves [OF g] sub
    by (auto simp: list_all_iff intro: greedy_match_justified greedy_left_justified)
  have left: "list_all (justified bank ledger) (map Ledger_Only rest)"
    using greedy_rest [OF g] sub by (auto simp: list_all_iff)
  have shape: "Bank_Only b \<in> set (rn_differences r) \<Longrightarrow> Bank_Only b \<in> set bankOnly"
    "Ledger_Only l \<in> set (rn_differences r) \<Longrightarrow> l \<in> set rest" for b l
    unfolding d using greedy_matches [OF g] greedy_leaves [OF g]
    by (force simp: reference_matching_eq [OF refl] conflict_at_def match_at_def)+
  have "\<not> same_effect l b"
    if "Bank_Only b \<in> set (rn_differences r)" and "Ledger_Only l \<in> set (rn_differences r)" for b l
    using greedy_leaves [OF g shape(1) [OF that(1)]] shape(2) [OF that(2)] by (simp add: list_all_iff)
  with conflicts matched greedy left show ?thesis
    unfolding d by auto
qed

definition sample_movement :: "movement_source \<Rightarrow> js_string \<Rightarrow> int \<Rightarrow> js_string \<Rightarrow> Movement" where
  "sample_movement source r amount key =
     \<lparr>mv_date = ''2025-01-15'', mv_reference = r, mv_amountCents = amount, mv_side = Inflow,
      mv_source = source, mv_sourceKey = key\<rparr>"

theorem bank_differences_are_justified_witness:
  "\<exists>r. reconcile_movements compare_keys sample_bank_scope
       [sample_movement From_Bank ''a'' 100 ''b1'', sample_movement From_Bank ''b'' 200 ''b2'']
       [sample_movement From_Ledger ''a'' 999 ''l1'', sample_movement From_Ledger ''c'' 200 ''l2''] = Inr r \<and>
     length (rn_differences r) = 2 \<and>
     list_all (justified
       [sample_movement From_Bank ''a'' 100 ''b1'', sample_movement From_Bank ''b'' 200 ''b2'']
       [sample_movement From_Ledger ''a'' 999 ''l1'', sample_movement From_Ledger ''c'' 200 ''l2''])
       (rn_differences r)"
proof -
  let ?b = "[sample_movement From_Bank ''a'' 100 ''b1'', sample_movement From_Bank ''b'' 200 ''b2'']"
  let ?l = "[sample_movement From_Ledger ''a'' 999 ''l1'', sample_movement From_Ledger ''c'' 200 ''l2'']"
  have "validateBankScope sample_bank_scope = None"
    and "length (all_differences compare_keys ?b ?l) = 2" by code_simp+
  then obtain r where r: "reconcile_movements compare_keys sample_bank_scope ?b ?l = Inr r"
    and "length (rn_differences r) = 2"
    by (simp add: reconcile_movements_def Let_def)
  with bank_differences_are_justified [OF r] show ?thesis by blast
qed

section \<open>The report\<close>

fun open_effect :: "difference \<Rightarrow> int" where
  "open_effect (Bank_Only m) = (if mv_side m = Inflow then mv_amountCents m else - mv_amountCents m)"
| "open_effect (Ledger_Only m) = (if mv_side m = Inflow then mv_amountCents m else - mv_amountCents m)"
| "open_effect _ = 0"

fun is_only :: "difference \<Rightarrow> bool" where
  "is_only (Bank_Only _) = True"
| "is_only (Ledger_Only _) = True"
| "is_only _ = False"

definition default_options :: AdjustOptions where
  "default_options = \<lparr>ao_requireApproval = None, ao_approvalOverrides = None\<rparr>"

lemma adjust_loop_default:
  "list_all (\<lambda>d. dr_requireApproval d \<and> dr_status d = Pending_Approval) (adjust_loop default_options ds n) \<and>
   map dr_draftId (adjust_loop default_options ds n) =
     map (\<lambda>i. ''adj-'' @ dec_nat i) [n + 1..<n + 1 + length (filter is_only ds)] \<and>
   (\<Sum>d \<leftarrow> adjust_loop default_options ds n. draft_effect d) = (\<Sum>d \<leftarrow> ds. open_effect d)"
proof (induction ds arbitrary: n)
  case (Cons d ds)
  show ?case
    using Cons.IH [of n] Cons.IH [of "n + 1"]
    by (cases d) (simp_all add: draft_for_def approval_of_def default_options_def draft_effect_def upt_conv_Cons
        del: upt_Suc)
qed simp

lemma matched_closes: "list_all is_matched ds \<Longrightarrow> (\<Sum>d \<leftarrow> ds. open_effect d) = 0"
proof (induction ds)
  case (Cons d ds)
  then show ?case by (cases d) simp_all
qed simp

lemma classified_adjustments:
  "buildAdjustments (map Classified ds) default_options = Inr (adjust_loop default_options ds 0)"
proof -
  have "traverse classify (map Classified ds) = Inr ds" by (induction ds) simp_all
  then show ?thesis by (simp add: buildAdjustments_def)
qed

text \<open>
  The report drafts one adjustment for each movement without counterpart, numbered from one and
  all pending approval, their net is the signed sum of those movements, and the report claims to be
  reconciled exactly when every difference is a match and the final balances are equal.
\<close>

theorem bank_report_is_exact:
  assumes "reconcile_movements cmp scope bank ledger = Inr r"
  shows "\<exists>report. buildReport r balances = Inr report \<and>
    map dr_draftId (br_adjustments report) =
      map (\<lambda>i. ''adj-'' @ dec_nat i) [1..<1 + length (filter is_only (rn_differences r))] \<and>
    list_all (\<lambda>d. dr_status d = Pending_Approval) (br_adjustments report) \<and>
    br_netAdjustmentCents report = (\<Sum>d \<leftarrow> rn_differences r. open_effect d) \<and>
    br_reconciled report =
      (list_all is_matched (rn_differences r) \<and> bl_ledgerFinal balances = bl_bankFinal balances)"
proof -
  have "validateBankScope (rn_scope r) = None" and full: "rn_fullyMatched r = list_all is_matched (rn_differences r)"
    using assms by (auto simp: reconcile_movements_def Let_def split: option.splits)
  then obtain report where report: "buildReport r balances = Inr report"
    and adj: "br_adjustments report = adjust_loop default_options (rn_differences r) 0"
    and net: "br_netAdjustmentCents report = foldl (\<lambda>acc d. acc + draft_effect d) 0 (br_adjustments report)"
    and rec: "br_reconciled report = (rn_fullyMatched r \<and>
      bl_ledgerFinal balances + br_netAdjustmentCents report = bl_bankFinal balances)"
    using classified_adjustments [of "rn_differences r"]
    by (simp add: buildReport_def Let_def default_options_def)
  have "foldl (\<lambda>acc d. acc + draft_effect d) a ds = a + (\<Sum>d \<leftarrow> ds. draft_effect d)" for a ds
    by (induction ds arbitrary: a) (simp_all add: add.assoc)
  with net adj adjust_loop_default [of "rn_differences r" 0]
  have netsum: "br_netAdjustmentCents report = (\<Sum>d \<leftarrow> rn_differences r. open_effect d)" by simp
  have pending: "list_all (\<lambda>d. dr_status d = Pending_Approval) (br_adjustments report)"
    using adjust_loop_default [of "rn_differences r" 0] by (simp add: adj list_all_iff)
  have "map dr_draftId (br_adjustments report) =
      map (\<lambda>i. ''adj-'' @ dec_nat i) [1..<1 + length (filter is_only (rn_differences r))]"
    using adjust_loop_default [of "rn_differences r" 0] by (simp add: adj del: upt_Suc)
  with report netsum pending rec full matched_closes show ?thesis by auto
qed

theorem bank_report_is_exact_witness:
  "\<exists>r report. reconcile_movements compare_keys sample_bank_scope
       [sample_movement From_Bank ''a'' 100 ''b1''] [sample_movement From_Ledger ''a'' 999 ''l1''] = Inr r \<and>
     buildReport r \<lparr>bl_bankInitial = 0, bl_bankFinal = 5, bl_ledgerInitial = 0, bl_ledgerFinal = 5\<rparr> = Inr report \<and>
     br_reconciled report"
proof -
  let ?b = "[sample_movement From_Bank ''a'' 100 ''b1'']" and ?l = "[sample_movement From_Ledger ''a'' 999 ''l1'']"
  have "validateBankScope sample_bank_scope = None"
    and "list_all is_matched (all_differences compare_keys ?b ?l)" by code_simp+
  then obtain r where r: "reconcile_movements compare_keys sample_bank_scope ?b ?l = Inr r"
    and "list_all is_matched (rn_differences r)"
    by (simp add: reconcile_movements_def Let_def)
  with bank_report_is_exact [OF r, of "\<lparr>bl_bankInitial = 0, bl_bankFinal = 5, bl_ledgerInitial = 0, bl_ledgerFinal = 5\<rparr>"]
  show ?thesis by auto
qed

end
