(* ===== verification/Policy_Fiscal.thy ===== *)
theory Policy_Fiscal
  imports Candidates Evidence
begin

text \<open>
  \<^verbatim>\<open>policy/types.ts\<close>, \<^verbatim>\<open>policy/pe-policy.ts\<close>, \<^verbatim>\<open>fiscal/types.ts\<close> and
  \<^verbatim>\<open>fiscal/candidate-ordering.ts\<close>: the restriction-only policy and the ordering of the fiscal
  flow. A subject may be untyped (\<open>None\<close> stands for a value of the wrong type); the core
  validator, the reconciler, the subject builder and the governed authority are arguments, whose own
  errors pass through. The candidate port is an interface: \<open>candidate_port\<close> states its laws and
  the lifecycle discharges them.
\<close>

section \<open>Policy\<close>

datatype policy_decision = ALLOW | BLOCK | ESCALATE

datatype policy_reason =
  PE_RULES_APPLIED | NON_PE_JURISDICTION | UNSUPPORTED_JURISDICTION | ABOVE_PE_THRESHOLD
| INSUFFICIENT_EVIDENCE | POLICY_SCOPE_MISMATCH | UNKNOWN_INPUT

definition PE :: js_string where "PE = ''PE''"

record PolicySubject =
  po_jurisdiction :: js_value
  po_valueCents :: "int option"
  po_evidence :: "AcceptedEvidence list option"
  po_scopeKey :: js_value

record PolicyOutcome =
  oc_decision :: policy_decision
  oc_reason :: policy_reason

definition outcome :: "policy_decision \<Rightarrow> policy_reason \<Rightarrow> PolicyOutcome" where
  "outcome decision reason = \<lparr>oc_decision = decision, oc_reason = reason\<rparr>"

text \<open>The argument \<open>None\<close> is a subject that is null or no object.\<close>

definition evaluatePePolicy :: "PolicySubject option \<Rightarrow> PolicyOutcome" where
  "evaluatePePolicy subject =
     (case subject of
        None \<Rightarrow> outcome BLOCK UNKNOWN_INPUT
      | Some s \<Rightarrow>
          (case (po_jurisdiction s, po_valueCents s, po_evidence s, po_scopeKey s) of
             (J_str jurisdiction, Some valueCents, Some evidence, J_str scopeKey) \<Rightarrow>
               if length scopeKey = 0 then outcome BLOCK UNKNOWN_INPUT
               else if jurisdiction \<noteq> PE
               then (if length jurisdiction = 0 then outcome BLOCK UNSUPPORTED_JURISDICTION
                     else outcome BLOCK NON_PE_JURISDICTION)
               else if length evidence = 0 then outcome ESCALATE INSUFFICIENT_EVIDENCE
               else if list_ex (\<lambda>artifact. rg_scopeKey artifact \<noteq> scopeKey) evidence
               then outcome BLOCK POLICY_SCOPE_MISMATCH
               else if HIGH_VALUE_CENTS \<le> valueCents then outcome ESCALATE ABOVE_PE_THRESHOLD
               else outcome ALLOW PE_RULES_APPLIED
           | _ \<Rightarrow> outcome BLOCK UNKNOWN_INPUT))"

datatype 'e governed_error = Policy_Error policy_decision policy_reason | Authority_Error 'e

definition govern :: "'s \<Rightarrow> ('s \<Rightarrow> PolicyOutcome) \<Rightarrow> ('s \<Rightarrow> 'e + 'r) \<Rightarrow> 'e governed_error + 'r" where
  "govern subject evaluate apply =
     (let result = evaluate subject
      in if oc_decision result \<noteq> ALLOW then Inl (Policy_Error (oc_decision result) (oc_reason result))
         else (case apply subject of Inl e \<Rightarrow> Inl (Authority_Error e) | Inr r \<Rightarrow> Inr r))"

section \<open>The fiscal flow\<close>

datatype fiscal_code = MISSING_RECONCILIATION_EVIDENCE | RECONCILIATION_SCOPE_MISMATCH

datatype 'e fiscal_error =
  Flow_Scope tenant_scope_error | Flow_Port 'e | Flow_Fiscal fiscal_code | Flow_Candidate candidate_error

record 'i FiscalFlowInput =
  fi_scope :: js_value
  fi_payload :: 'i
  fi_materialityInput :: MaterialityInput

record 'v FiscalFlowResult =
  fr_scope :: TenantScope
  fr_validated :: 'v
  fr_evidence :: "AcceptedEvidence list"
  fr_subject :: "8 word list"
  fr_candidate :: Candidate

type_synonym propose_port = "ProposeInput \<Rightarrow> candidate_error + Candidate"
type_synonym inspect_port = "Candidate \<Rightarrow> subject \<Rightarrow> candidate_error + Candidate"

definition requireBoundReconciliation :: "TenantScope \<Rightarrow> AcceptedEvidence list \<Rightarrow> fiscal_code option" where
  "requireBoundReconciliation scope evidence =
     (if length evidence = 0 then Some MISSING_RECONCILIATION_EVIDENCE
      else if list_ex (\<lambda>artifact. \<not> sameTenantScope (rg_scope artifact) scope) evidence
      then Some RECONCILIATION_SCOPE_MISMATCH else None)"

definition run_fiscal ::
    "(TenantScope \<Rightarrow> 'i \<Rightarrow> 'e + 'v) \<Rightarrow> (TenantScope \<Rightarrow> 'v \<Rightarrow> 'e + AcceptedEvidence list) \<Rightarrow>
     (TenantScope \<Rightarrow> 'v \<Rightarrow> AcceptedEvidence list \<Rightarrow> 'e + 8 word list) \<Rightarrow> propose_port \<Rightarrow> inspect_port \<Rightarrow>
     'i FiscalFlowInput \<Rightarrow> 'e fiscal_error + 'v FiscalFlowResult" where
  "run_fiscal validate reconcile build port_propose port_inspect input =
     (case validateTenantScope (fi_scope input) of Inl e \<Rightarrow> Inl (Flow_Scope e) | Inr scope \<Rightarrow>
      (case validate scope (fi_payload input) of Inl e \<Rightarrow> Inl (Flow_Port e) | Inr validated \<Rightarrow>
      (case reconcile scope validated of Inl e \<Rightarrow> Inl (Flow_Port e) | Inr evidence \<Rightarrow>
      (case requireBoundReconciliation scope evidence of Some e \<Rightarrow> Inl (Flow_Fiscal e) | None \<Rightarrow>
      (case build scope validated evidence of Inl e \<Rightarrow> Inl (Flow_Port e) | Inr subject \<Rightarrow>
      (case port_propose \<lparr>pi_subject = Bytes subject,
                          pi_scope = \<lparr>cs_ruc = sc_ruc scope, cs_period = sc_period scope\<rparr>,
                          pi_materialityInput = fi_materialityInput input\<rparr> of
         Inl e \<Rightarrow> Inl (Flow_Candidate e)
       | Inr proposed \<Rightarrow>
      (case port_inspect proposed (Bytes subject) of
         Inl e \<Rightarrow> Inl (Flow_Candidate e)
       | Inr candidate \<Rightarrow>
           Inr \<lparr>fr_scope = scope, fr_validated = validated, fr_evidence = evidence, fr_subject = subject,
                fr_candidate = candidate\<rparr>)))))))"

lemmas policy_defs = PE_def outcome_def evaluatePePolicy_def govern_def requireBoundReconciliation_def
  run_fiscal_def

declare policy_defs [code_defs]

section \<open>The policy only restricts\<close>

definition policy_allows :: "PolicySubject \<Rightarrow> bool" where
  "policy_allows s \<longleftrightarrow>
     po_jurisdiction s = J_str ''PE'' \<and>
     (\<exists>k. k \<noteq> [] \<and> po_scopeKey s = J_str k \<and>
       (\<exists>es. es \<noteq> [] \<and> po_evidence s = Some es \<and> list_all (\<lambda>e. rg_scopeKey e = k) es)) \<and>
     (\<exists>v < 10000000. po_valueCents s = Some v)"

lemma policy_allows_iff: "oc_decision (evaluatePePolicy (Some s)) = ALLOW \<longleftrightarrow> policy_allows s"
  by (auto simp: evaluatePePolicy_def outcome_def PE_def policy_allows_def HIGH_VALUE_CENTS_def list_ex_iff
      list_all_iff split: js_value.splits option.splits)

text \<open>The policy only restricts: a governed call answers exactly what its authority answers, and only
  for a Peruvian subject with at least one artifact, all under the subject's non-empty scope key, and a
  value below ten million cents; every other subject, a malformed one included, is refused with the
  policy's decision, and the authority is not consulted.
\<close>

theorem policy_only_restricts:
  "(govern (Some s) evaluatePePolicy apply = Inr x) = (policy_allows s \<and> apply (Some s) = Inr x) \<and>
   (govern (Some s) evaluatePePolicy apply = Inl (Authority_Error e)) = (policy_allows s \<and> apply (Some s) = Inl e) \<and>
   (\<exists>d r. govern None evaluatePePolicy apply = Inl (Policy_Error d r) \<and> d = BLOCK) \<and>
   (\<exists>d r. govern (Some s) evaluatePePolicy apply = Inl (Policy_Error d r)) = (\<not> policy_allows s)"
  using policy_allows_iff [of s]
  by (auto simp: govern_def Let_def evaluatePePolicy_def [of None] outcome_def split: sum.splits)

section \<open>The order of the flow\<close>

text \<open>What the flow relies on of its candidate port.\<close>

locale candidate_port =
  fixes H :: byte_hash and port_propose :: propose_port and port_inspect :: inspect_port
  assumes propose_law: "port_propose input = Inr p \<Longrightarrow>
      ca_status p = Proposed \<and> ca_subjectHash p = computeSubjectHash H (pi_subject input) \<and>
      ca_scope p = pi_scope input \<and> ca_id p = candidateIdentity (ca_subjectHash p) (ca_scope p) \<and>
      ca_materiality p = deriveMateriality (pi_materialityInput input) \<and> ca_reviews p = []"
    and inspect_law: "port_inspect p s = Inr c \<Longrightarrow>
      computeSubjectHash H s = ca_subjectHash p \<and> ca_status c = Inspected \<and>
      ca_subjectHash c = ca_subjectHash p \<and> ca_scope c = ca_scope p \<and> ca_id c = ca_id p \<and>
      ca_materiality c = ca_materiality p \<and> ca_reviews c = ca_reviews p"
begin

lemma proposed_inspected:
  assumes "port_propose input = Inr p" and "port_inspect p s = Inr c"
  shows "ca_status c = Inspected \<and> ca_scope c = pi_scope input \<and>
    ca_subjectHash c = computeSubjectHash H (pi_subject input) \<and>
    ca_id c = candidateIdentity (computeSubjectHash H (pi_subject input)) (pi_scope input) \<and>
    ca_materiality c = deriveMateriality (pi_materialityInput input) \<and> ca_reviews c = []"
  using propose_law [OF assms(1)] inspect_law [OF assms(2)] by simp

lemma flow_binds:
  assumes "run_fiscal validate reconcile build port_propose port_inspect input = Inr r"
  shows "validateTenantScope (fi_scope input) = Inr (fr_scope r) \<and>
    validate (fr_scope r) (fi_payload input) = Inr (fr_validated r) \<and>
    reconcile (fr_scope r) (fr_validated r) = Inr (fr_evidence r) \<and>
    build (fr_scope r) (fr_validated r) (fr_evidence r) = Inr (fr_subject r) \<and>
    requireBoundReconciliation (fr_scope r) (fr_evidence r) = None \<and>
    ca_status (fr_candidate r) = Inspected \<and> ca_reviews (fr_candidate r) = [] \<and>
    ca_id (fr_candidate r) = candidateIdentity (H (fr_subject r))
      \<lparr>cs_ruc = sc_ruc (fr_scope r), cs_period = sc_period (fr_scope r)\<rparr> \<and>
    ca_materiality (fr_candidate r) = deriveMateriality (fi_materialityInput input)"
proof -
  from assms obtain p where
    "port_propose \<lparr>pi_subject = Bytes (fr_subject r),
      pi_scope = \<lparr>cs_ruc = sc_ruc (fr_scope r), cs_period = sc_period (fr_scope r)\<rparr>,
      pi_materialityInput = fi_materialityInput input\<rparr> = Inr p"
    and "port_inspect p (Bytes (fr_subject r)) = Inr (fr_candidate r)"
    by (auto simp: run_fiscal_def split: sum.splits option.splits)
  from proposed_inspected [OF this] show ?thesis
    using assms by (auto simp: run_fiscal_def computeSubjectHash_def split: sum.splits option.splits)
qed

end

interpretation lifecycle_port: candidate_port H "propose H now" "inspect H" for H now
proof unfold_locales
  fix input p assume "propose H now input = Inr p"
  then show "ca_status p = Proposed \<and> ca_subjectHash p = computeSubjectHash H (pi_subject input) \<and>
      ca_scope p = pi_scope input \<and> ca_id p = candidateIdentity (ca_subjectHash p) (ca_scope p) \<and>
      ca_materiality p = deriveMateriality (pi_materialityInput input) \<and> ca_reviews p = []"
    by (auto simp: propose_def Let_def split: if_splits)
next
  fix p s c assume "inspect H p s = Inr c"
  then show "computeSubjectHash H s = ca_subjectHash p \<and> ca_status c = Inspected \<and>
      ca_subjectHash c = ca_subjectHash p \<and> ca_scope c = ca_scope p \<and> ca_id c = ca_id p \<and>
      ca_materiality c = ca_materiality p \<and> ca_reviews c = ca_reviews p"
    by (auto simp: inspect_def split: option.splits if_splits)
qed

text \<open>A fiscal flow that returns validated its scope first, then its payload, and built its subject
  from at least one accepted artifact, all under that scope; its candidate is inspected and not yet
  reviewed, and its identity is that of exactly the bytes built, under the scope's RUC and period.
\<close>

theorem fiscal_flow_is_ordered:
  assumes "run_fiscal validate reconcile build (propose H now) (inspect H) input = Inr r"
  shows "validateTenantScope (fi_scope input) = Inr (fr_scope r) \<and>
    reconcile (fr_scope r) (fr_validated r) = Inr (fr_evidence r) \<and>
    build (fr_scope r) (fr_validated r) (fr_evidence r) = Inr (fr_subject r) \<and>
    fr_evidence r \<noteq> [] \<and> list_all (\<lambda>e. sameTenantScope (rg_scope e) (fr_scope r)) (fr_evidence r) \<and>
    ca_status (fr_candidate r) = Inspected \<and> ca_reviews (fr_candidate r) = [] \<and>
    ca_id (fr_candidate r) = candidateIdentity (H (fr_subject r))
      \<lparr>cs_ruc = sc_ruc (fr_scope r), cs_period = sc_period (fr_scope r)\<rparr>"
  using lifecycle_port.flow_binds [OF assms]
  by (auto simp: requireBoundReconciliation_def list_all_iff list_ex_iff split: if_splits)

definition sample_flow :: "unit FiscalFlowInput" where
  "sample_flow =
     \<lparr>fi_scope = scope_value sample_scope, fi_payload = (),
      fi_materialityInput = \<lparr>mi_value = 5, mi_reversibility = Reversible, mi_jurisdiction = ''PE''\<rparr>\<rparr>"

definition run_sample :: "unit fiscal_error + unit FiscalFlowResult" where
  "run_sample =
     run_fiscal (\<lambda>_ _. Inr ()) (\<lambda>_ _. Inr [sample_accepted [sample_item ''1'']]) (\<lambda>_ _ _. Inr [1, 2])
       (propose sample_byte_hash ''t'') (inspect sample_byte_hash) sample_flow"

theorem fiscal_flow_is_ordered_witness:
  "\<exists>r. run_sample = Inr r \<and> ca_status (fr_candidate r) = Inspected \<and> fr_evidence r \<noteq> []"
proof -
  have "\<not> isl run_sample" by code_simp
  then obtain r where r: "run_sample = Inr r" by (metis sum.collapse(2))
  with fiscal_flow_is_ordered [OF r [unfolded run_sample_def]] show ?thesis by blast
qed

end
