(* ===== verification/Projection.thy ===== *)
theory Projection
  imports Mission_Status Js_Value
begin

text \<open>
  \<^verbatim>\<open>projection/types.ts\<close> and \<^verbatim>\<open>projection/project-mission.ts\<close>: the read-only
  projection of a mission's lifecycle for clients, on untyped snapshots and requests.
\<close>

section \<open>Types\<close>

datatype MissionNextAction =
  Act_None | Act_Queue | Act_Run | Act_Monitor | Act_Resume | Act_Review | Act_Finalize
| Act_Request_Revision | Act_Requeue | Act_Reconcile | Act_Provide_Evidence | Act_Resolve_Gate

datatype blocking_condition = APPROVAL_REQUIRED | MISSING_EVIDENCE | POLICY_BLOCKED

datatype denial_code = Denied_Transition | Denied_Blocker blocking_condition | Unsupported_Status

datatype denial_cause =
  Unsupported_Status_Value | Malformed_Request | Terminal_State | Transition_Not_Eligible
| Approval_Context_Required | Evidence_Context_Required | Policy_Context_Blocked

datatype denial_continuation =
  Provide_Supported_Status | Correct_Request | Choose_Eligible_Transition | No_Continuation
| Provide_Approval_Context | Provide_Evidence_Context | Resolve_Policy_Context

record MissionProjectionDenial =
  de_code :: denial_code
  de_cause :: denial_cause
  de_continuation :: denial_continuation

record MissionProjection =
  pj_status :: mission_status
  pj_eligibleTransitions :: "mission_status list"
  pj_recoveryTransitions :: "mission_status list option"
  pj_nextAction :: MissionNextAction
  pj_deny :: "MissionProjectionDenial option"

datatype projection_result = Unsupported MissionProjectionDenial | Projected MissionProjection

section \<open>The projection\<close>

fun status_text :: "mission_status \<Rightarrow> js_string" where
  "status_text DRAFT = ''DRAFT''"
| "status_text QUEUED = ''QUEUED''"
| "status_text RUNNING = ''RUNNING''"
| "status_text BLOCKED = ''BLOCKED''"
| "status_text AWAITING_APPROVAL = ''AWAITING_APPROVAL''"
| "status_text APPROVED = ''APPROVED''"
| "status_text REJECTED = ''REJECTED''"
| "status_text REVISION_REQUESTED = ''REVISION_REQUESTED''"
| "status_text COMPLETED = ''COMPLETED''"
| "status_text FAILED = ''FAILED''"
| "status_text UNKNOWN = ''UNKNOWN''"
| "status_text RECOVERING = ''RECOVERING''"
| "status_text WAITING_FOR_EVIDENCE = ''WAITING_FOR_EVIDENCE''"
| "status_text BLOCKED_BY_GATE = ''BLOCKED_BY_GATE''"
| "status_text RETRYING = ''RETRYING''"

fun NEXT_ACTIONS :: "mission_status \<Rightarrow> MissionNextAction" where
  "NEXT_ACTIONS DRAFT = Act_Queue"
| "NEXT_ACTIONS QUEUED = Act_Run"
| "NEXT_ACTIONS RUNNING = Act_Monitor"
| "NEXT_ACTIONS BLOCKED = Act_Resume"
| "NEXT_ACTIONS AWAITING_APPROVAL = Act_Review"
| "NEXT_ACTIONS APPROVED = Act_Finalize"
| "NEXT_ACTIONS REJECTED = Act_Request_Revision"
| "NEXT_ACTIONS REVISION_REQUESTED = Act_Requeue"
| "NEXT_ACTIONS COMPLETED = Act_None"
| "NEXT_ACTIONS FAILED = Act_None"
| "NEXT_ACTIONS UNKNOWN = Act_Reconcile"
| "NEXT_ACTIONS RECOVERING = Act_Monitor"
| "NEXT_ACTIONS WAITING_FOR_EVIDENCE = Act_Provide_Evidence"
| "NEXT_ACTIONS BLOCKED_BY_GATE = Act_Resolve_Gate"
| "NEXT_ACTIONS RETRYING = Act_Monitor"

fun BLOCKER_DETAILS :: "blocking_condition \<Rightarrow> denial_cause \<times> denial_continuation" where
  "BLOCKER_DETAILS APPROVAL_REQUIRED = (Approval_Context_Required, Provide_Approval_Context)"
| "BLOCKER_DETAILS MISSING_EVIDENCE = (Evidence_Context_Required, Provide_Evidence_Context)"
| "BLOCKER_DETAILS POLICY_BLOCKED = (Policy_Context_Blocked, Resolve_Policy_Context)"

definition REQUEST_KEYS :: "js_string list" where
  "REQUEST_KEYS = [''requestedContinuation'', ''blockingCondition'']"

fun is_plain_object :: "js_value \<Rightarrow> bool" where
  "is_plain_object (J_obj _) = True"
| "is_plain_object _ = False"

fun canonical_status :: "js_value \<Rightarrow> mission_status option" where
  "canonical_status (J_str s) = find (\<lambda>st. status_text st = s) all_statuses"
| "canonical_status _ = None"

fun blocking_of :: "js_value \<Rightarrow> blocking_condition option" where
  "blocking_of (J_str s) =
     (if s = ''APPROVAL_REQUIRED'' then Some APPROVAL_REQUIRED
      else if s = ''MISSING_EVIDENCE'' then Some MISSING_EVIDENCE
      else if s = ''POLICY_BLOCKED'' then Some POLICY_BLOCKED else None)"
| "blocking_of _ = None"

fun object_keys :: "js_value \<Rightarrow> js_string list" where
  "object_keys (J_obj fs) = map fst fs"
| "object_keys _ = []"

definition hasExactRequestShape :: "js_value \<Rightarrow> bool" where
  "hasExactRequestShape r \<longleftrightarrow>
     list_all (\<lambda>k. k \<in> set REQUEST_KEYS) (object_keys r) \<and>
     canonical_status (get_field r ''requestedContinuation'') \<noteq> None \<and>
     (get_field r ''blockingCondition'' = J_undefined \<or> blocking_of (get_field r ''blockingCondition'') \<noteq> None)"

definition unsupported :: "denial_cause \<Rightarrow> denial_continuation \<Rightarrow> projection_result" where
  "unsupported cause continuation =
     Unsupported \<lparr>de_code = Unsupported_Status, de_cause = cause, de_continuation = continuation\<rparr>"

definition request_denial ::
    "mission_status \<Rightarrow> mission_status list \<Rightarrow> js_value \<Rightarrow> MissionProjectionDenial option" where
  "request_denial status canonical request =
     (if request = J_undefined then None
      else if the (canonical_status (get_field request ''requestedContinuation'')) \<notin> set canonical
      then (let terminal = status \<in> set TERMINAL_STATES
            in Some \<lparr>de_code = Denied_Transition,
                     de_cause = (if terminal then Terminal_State else Transition_Not_Eligible),
                     de_continuation = (if terminal then No_Continuation else Choose_Eligible_Transition)\<rparr>)
      else (case blocking_of (get_field request ''blockingCondition'') of
              None \<Rightarrow> None
            | Some b \<Rightarrow>
                Some \<lparr>de_code = Denied_Blocker b, de_cause = fst (BLOCKER_DETAILS b),
                      de_continuation = snd (BLOCKER_DETAILS b)\<rparr>))"

definition projectMission :: "js_value \<Rightarrow> js_value \<Rightarrow> projection_result" where
  "projectMission snapshot request =
     (case (if is_plain_object snapshot then canonical_status (get_field snapshot ''status'') else None) of
        None \<Rightarrow> unsupported Unsupported_Status_Value Provide_Supported_Status
      | Some status \<Rightarrow>
          if request \<noteq> J_undefined \<and> (\<not> is_plain_object request \<or> \<not> hasExactRequestShape request)
          then unsupported Malformed_Request Correct_Request
          else (case map_of VALID_TRANSITIONS status of
                  None \<Rightarrow> unsupported Unsupported_Status_Value Provide_Supported_Status
                | Some canonical \<Rightarrow>
                    Projected
                      \<lparr>pj_status = status,
                       pj_eligibleTransitions = (if status = UNKNOWN then [] else canonical),
                       pj_recoveryTransitions = (if status = UNKNOWN then Some canonical else None),
                       pj_nextAction = NEXT_ACTIONS status,
                       pj_deny = request_denial status canonical request\<rparr>))"

lemmas projection_defs = REQUEST_KEYS_def hasExactRequestShape_def unsupported_def request_denial_def
  projectMission_def

declare projection_defs [code_defs]

section \<open>The projection agrees with the lifecycle\<close>

definition snapshot_in :: "mission_status \<Rightarrow> js_value" where
  "snapshot_in s = J_obj [(''status'', J_str (status_text s))]"

definition request_for :: "mission_status \<Rightarrow> blocking_condition option \<Rightarrow> js_value" where
  "request_for t b =
     J_obj ((''requestedContinuation'', J_str (status_text t)) #
       (case b of None \<Rightarrow> []
        | Some c \<Rightarrow> [(''blockingCondition'', J_str (case c of APPROVAL_REQUIRED \<Rightarrow> ''APPROVAL_REQUIRED''
            | MISSING_EVIDENCE \<Rightarrow> ''MISSING_EVIDENCE'' | POLICY_BLOCKED \<Rightarrow> ''POLICY_BLOCKED''))]))"

lemma canonical_status_text [simp]: "canonical_status (J_str (status_text s)) = Some s"
  by (cases s) (simp_all add: all_statuses_def)

lemma canonical_status_iff: "canonical_status v = Some s \<longleftrightarrow> v = J_str (status_text s)"
proof (cases v)
  case (J_str x)
  then have "canonical_status v = Some s \<Longrightarrow> status_text s = x"
    by (auto simp: find_Some_iff)
  with J_str canonical_status_text [of s] show ?thesis by auto
qed simp_all

declare canonical_status.simps(1) [simp del]

lemma request_shape: "hasExactRequestShape (request_for t b)"
  by (cases b rule: option.exhaust; cases "the b")
    (simp_all add: hasExactRequestShape_def request_for_def REQUEST_KEYS_def)

lemma projection_request_fields [simp]:
  "get_field (request_for t b) ''requestedContinuation'' = J_str (status_text t)"
  "blocking_of (get_field (request_for t b) ''blockingCondition'') = b"
  "request_for t b \<noteq> J_undefined" "is_plain_object (request_for t b)"
  by (cases b rule: option.exhaust; cases "the b"; simp add: request_for_def)+

text \<open>For every state and every requested target the projection says what the lifecycle does: it lists
  exactly the transitions the guard lets through (those of UNKNOWN as recovery only), it denies a
  target as invalid exactly when the guard throws, and as terminal exactly in a terminal state, in
  which alone it also says that there is nothing left to do; an eligible target is denied only by the
  blocker the client names.
\<close>

theorem projection_agrees_with_the_lifecycle:
  "\<exists>p. projectMission (snapshot_in s) (request_for t b) = Projected p \<and> pj_status p = s \<and>
     (t \<in> set (pj_eligibleTransitions p @ (case pj_recoveryTransitions p of None \<Rightarrow> [] | Some r \<Rightarrow> r))) =
       (\<not> isl (transition s t)) \<and>
     (pj_eligibleTransitions p = [] \<and> pj_recoveryTransitions p = None) = isTerminal s \<and>
     (pj_recoveryTransitions p \<noteq> None) = (s = UNKNOWN) \<and>
     (pj_nextAction p = Act_None) = isTerminal s \<and>
     map_option de_code (pj_deny p) =
       (if isl (transition s t) then Some Denied_Transition else map_option Denied_Blocker b) \<and>
     (map_option de_cause (pj_deny p) = Some Terminal_State) = isTerminal s"
proof -
  obtain c where c: "map_of VALID_TRANSITIONS s = Some c"
    by (cases s) (simp_all add: VALID_TRANSITIONS_def)
  have "projectMission (snapshot_in s) (request_for t b) = Projected
      \<lparr>pj_status = s, pj_eligibleTransitions = (if s = UNKNOWN then [] else c),
       pj_recoveryTransitions = (if s = UNKNOWN then Some c else None),
       pj_nextAction = NEXT_ACTIONS s, pj_deny = request_denial s c (request_for t b)\<rparr>"
    using request_shape [of t b]
    by (simp add: projectMission_def snapshot_in_def c split del: if_split)
  moreover have "t \<in> set c \<longleftrightarrow> \<not> isl (transition s t)"
    using c by (auto simp: transition_def)
  moreover have "c = [] \<longleftrightarrow> isTerminal s" and "NEXT_ACTIONS s = Act_None \<longleftrightarrow> isTerminal s"
    and "s = UNKNOWN \<Longrightarrow> \<not> isTerminal s"
    using c by (cases s; auto simp: VALID_TRANSITIONS_def isTerminal_def TERMINAL_STATES_def)+
  moreover have "s \<in> set TERMINAL_STATES \<longleftrightarrow> isTerminal s" by (simp add: isTerminal_def)
  moreover have "fst (BLOCKER_DETAILS x) \<noteq> Terminal_State" for x by (cases x) simp_all
  ultimately show ?thesis
    by (auto simp: request_denial_def Let_def split: option.splits if_splits)
qed

end
