(* ===== verification/Cdr_Successor.thy ===== *)
theory Cdr_Successor
  imports Agents Gates Policy_Fiscal Projection
begin

text \<open>
  \<^verbatim>\<open>cdr/types.ts\<close> and \<^verbatim>\<open>cdr/successor.ts\<close>: the composition that takes an
  accepted candidate A through a successor mission to an accepted candidate B. The three ports are
  records of operations, as the interfaces of the code are, over a state of the mission port; the
  concrete ports on the mission runtime, the candidate lifecycle and the signed receipts are
  \<open>MissionRuntimePort\<close>, \<open>CandidatePort\<close> and \<open>ReceiptPort\<close>. The messages of errors are not modelled.
\<close>

section \<open>Data\<close>

datatype cdr_error =
  CANDIDATE_A_NOT_ACCEPTED | CANDIDATE_A_IDENTITY_MISMATCH | RECEIPT_A_INVALID | EVIDENCE_SCOPE_MISMATCH
| POLICY_STOPPED | SUCCESSOR_NOT_FOUND | OPERATION_BINDING_MISMATCH | RECONCILIATION_MISMATCH
| TERMINAL_SNAPSHOT_MISMATCH | STEP_IDEMPOTENCY_CONFLICT | GATE_BLOCKED | MISSION_RECEIPT_INVALID
| CANDIDATE_B_RECEIPT_INVALID | CANDIDATE_B_IDENTITY_MISMATCH

text \<open>What a composition rejects with: its own error, or one that passes through from a part.\<close>

datatype cdr_exn =
  Cdr cdr_error | Cdr_Scope tenant_scope_error | Cdr_Mission exn | Cdr_Candidate candidate_error

record CdrSuccessorLink =
  sl_candidateAId :: js_string
  sl_subjectHash :: js_string
  sl_approvalReceiptHash :: js_string
  sl_operationId :: js_string
  sl_evidenceIds :: "js_string list"

record CdrReconcileInput =
  rn_stableIdentifier :: js_string
  rn_system :: js_string
  rn_resolver :: "external_resolver option"

record CdrSuccessorInput =
  cd_scope :: js_value
  cd_candidateA :: Candidate
  cd_approvalA :: ApprovalRecord
  cd_receiptA :: SignedReceipt
  cd_evidence :: "AcceptedEvidence list"
  cd_operationId :: js_string
  cd_idempotencyKey :: js_string
  cd_valueCents :: int
  cd_expectedStatus :: mission_status
  cd_executeSteps :: "int list"
  cd_reconcile :: CdrReconcileInput
  cd_missionId :: "js_string option"
  cd_candidateBReviewer :: js_string
  cd_materiality :: MaterialityInput
  cd_receiptKeyPairB :: ReceiptKeyPair

record CdrABLink =
  ab_candidateAId :: js_string
  ab_candidateBId :: js_string
  ab_operationId :: js_string
  ab_successorMissionId :: js_string

record CdrSuccessorResult =
  cs_scope :: TenantScope
  cs_link :: CdrSuccessorLink
  cs_mission :: MissionSnapshot
  cs_reconciliation :: "ReconciliationResult option"
  cs_gates :: "GateResult list"
  cs_replayed :: bool
  cs_missionReceipt :: SignedReceipt
  cs_approvalB :: ApprovalRecord
  cs_receiptB :: SignedReceipt
  cs_candidateB :: Candidate
  cs_aToB :: CdrABLink

section \<open>Ports\<close>

record 's CdrMissionPort =
  mp_start :: "CreateMissionCommand \<Rightarrow> 's \<Rightarrow> (exn + MissionSnapshot) \<times> 's"
  mp_apply :: "BoundMissionCommand \<Rightarrow> apply_ctx \<Rightarrow> 's \<Rightarrow> (exn + MissionApplyResult) \<times> 's"
  mp_reconcile :: "js_string \<Rightarrow> ExternalCall \<Rightarrow> external_resolver option \<Rightarrow> 's \<Rightarrow>
    (exn + ReconciliationResult \<times> MissionSnapshot) \<times> 's"
  mp_findById :: "js_string \<Rightarrow> 's \<Rightarrow> MissionSnapshot option"

record CdrCandidatePort =
  cp_propose :: "ProposeInput \<Rightarrow> candidate_error + Candidate"
  cp_inspect :: "Candidate \<Rightarrow> subject \<Rightarrow> candidate_error + Candidate"
  cp_submitForReview :: "Candidate \<Rightarrow> candidate_error + Candidate"
  cp_accept :: "Candidate \<Rightarrow> ReviewDecision \<Rightarrow> candidate_error + Candidate"

record CdrReceiptPort =
  xp_sign :: "ReceiptContent \<Rightarrow> ReceiptKeyPair \<Rightarrow> SignedReceipt"
  xp_verify :: "SignedReceipt \<Rightarrow> bool"

text \<open>
  The runtime with the number of calls made so far: each call reads the clock and the random
  identifiers of its turn.
\<close>

type_synonym port_state = "nat \<times> runtime_state"

definition MissionRuntimePort ::
    "(BoundMissionCommand \<Rightarrow> js_string) \<Rightarrow> (nat \<Rightarrow> env) \<Rightarrow> (nat \<Rightarrow> js_string) \<Rightarrow> intent_registry option \<Rightarrow>
     port_state CdrMissionPort" where
  "MissionRuntimePort HC v uuid registry =
     \<lparr>mp_start = (\<lambda>command (n, st). case start (v n) (uuid n) command st of
         (snapshot, st') \<Rightarrow> (Inr snapshot, (Suc n, st'))),
      mp_apply = (\<lambda>command ctx (n, st). case apply_command HC (v n) registry command ctx st of
         (r, st') \<Rightarrow> (r, (Suc n, st'))),
      mp_reconcile = (\<lambda>missionId call resolver (n, st). case reconcile (v n) missionId call resolver st of
         (r, st') \<Rightarrow> (r, (Suc n, st'))),
      mp_findById = (\<lambda>missionId (n, st). findById missionId (rs_store st))\<rparr>"

definition CandidatePort :: "byte_hash \<Rightarrow> js_string \<Rightarrow> js_string \<Rightarrow> js_string \<Rightarrow> CdrCandidatePort" where
  "CandidatePort sha256 proposedAt uuid acceptedAt =
     \<lparr>cp_propose = propose sha256 proposedAt, cp_inspect = inspect sha256,
      cp_submitForReview = submitForReview, cp_accept = accept uuid acceptedAt\<rparr>"

definition ReceiptPort :: "js_lib \<Rightarrow> ed25519 \<Rightarrow> js_string \<Rightarrow> CdrReceiptPort" where
  "ReceiptPort L ed issuedAt =
     \<lparr>xp_sign = (\<lambda>content keyPair. buildSignedReceipt L ed issuedAt content keyPair ''1.0'' Receipts.APPROVAL),
      xp_verify = (\<lambda>receipt. sv_valid (verifySignedReceipt L ed receipt))\<rparr>"

section \<open>The steps\<close>

text \<open>\<open>await\<close>: the exception of a step ends the composition in the state the step left.\<close>

definition then_do :: "('e + 'a) \<times> 's \<Rightarrow> ('a \<Rightarrow> 's \<Rightarrow> ('e + 'b) \<times> 's) \<Rightarrow> ('e + 'b) \<times> 's" where
  "then_do m k = (case m of (Inl e, s) \<Rightarrow> (Inl e, s) | (Inr a, s) \<Rightarrow> k a s)"

definition mission_call :: "(exn + 'a) \<times> 's \<Rightarrow> (cdr_exn + 'a) \<times> 's" where
  "mission_call m = (case m of (Inl x, s) \<Rightarrow> (Inl (Cdr_Mission x), s) | (Inr a, s) \<Rightarrow> (Inr a, s))"

definition verifyAuthority :: "js_lib \<Rightarrow> ed25519 \<Rightarrow> CdrSuccessorInput \<Rightarrow> cdr_exn + TenantScope" where
  "verifyAuthority L ed input =
     (case validateTenantScope (cd_scope input) of
        Inl e \<Rightarrow> Inl (Cdr_Scope e)
      | Inr scope \<Rightarrow>
          if ca_status (cd_candidateA input) \<noteq> Accepted then Inl (Cdr CANDIDATE_A_NOT_ACCEPTED)
          else if ca_id (cd_candidateA input) \<noteq>
            candidateIdentity (ca_subjectHash (cd_candidateA input))
              \<lparr>cs_ruc = sc_ruc scope, cs_period = sc_period scope\<rparr>
          then Inl (Cdr CANDIDATE_A_IDENTITY_MISMATCH)
          else if \<not> sv_valid (verifySignedReceipt L ed (cd_receiptA input)) then Inl (Cdr RECEIPT_A_INVALID)
          else if list_ex (\<lambda>artifact. \<not> sameTenantScope (rg_scope artifact) scope) (cd_evidence input)
          then Inl (Cdr EVIDENCE_SCOPE_MISMATCH)
          else Inr scope)"

definition buildLink :: "CdrSuccessorInput \<Rightarrow> CdrSuccessorLink" where
  "buildLink input =
     \<lparr>sl_candidateAId = ca_id (cd_candidateA input), sl_subjectHash = ca_subjectHash (cd_candidateA input),
      sl_approvalReceiptHash = sr_receiptHash (cd_receiptA input), sl_operationId = cd_operationId input,
      sl_evidenceIds = map ac_identity (cd_evidence input)\<rparr>"

definition link_fields :: "CdrSuccessorLink \<Rightarrow> (js_string \<times> js_value) list" where
  "link_fields link =
     [(''candidateAId'', J_str (sl_candidateAId link)), (''subjectHash'', J_str (sl_subjectHash link)),
      (''approvalReceiptHash'', J_str (sl_approvalReceiptHash link)),
      (''operationId'', J_str (sl_operationId link)),
      (''evidenceIds'', J_arr (map J_str (sl_evidenceIds link)))]"

definition missionFor ::
    "js_lib \<Rightarrow> 's CdrMissionPort \<Rightarrow> CdrSuccessorInput \<Rightarrow> TenantScope \<Rightarrow> CdrSuccessorLink \<Rightarrow> 's \<Rightarrow>
     (cdr_exn + MissionSnapshot) \<times> 's" where
  "missionFor L port input scope link s =
     (case cd_missionId input of
        Some missionId \<Rightarrow>
          (case mp_findById port missionId s of
             None \<Rightarrow> (Inl (Cdr SUCCESSOR_NOT_FOUND), s)
           | Some existing \<Rightarrow> (Inr existing, s))
      | None \<Rightarrow>
          mission_call (mp_start port
            \<lparr>cr_companyId = sc_companyId scope, cr_fiscalPeriod = sc_period scope, cr_intent = Compliance_Check,
             cr_instruction = sortedStringify (lib_number L) (link_fields link)\<rparr> s))"

definition successor_subject :: "CdrSuccessorInput \<Rightarrow> TenantScope \<Rightarrow> PolicySubject" where
  "successor_subject input scope =
     \<lparr>po_jurisdiction = J_str PE, po_valueCents = Some (cd_valueCents input),
      po_evidence = Some (cd_evidence input), po_scopeKey = J_str (tenantScopeKey scope)\<rparr>"

text \<open>\<open>govern\<close> of an asynchronous authority: consulted only when the policy allows.\<close>

definition startMission ::
    "js_lib \<Rightarrow> 's CdrMissionPort \<Rightarrow> CdrSuccessorInput \<Rightarrow> TenantScope \<Rightarrow> CdrSuccessorLink \<Rightarrow> 's \<Rightarrow>
     (cdr_exn + MissionSnapshot) \<times> 's" where
  "startMission L port input scope link s =
     (case govern (Some (successor_subject input scope)) evaluatePePolicy
             (\<lambda>_. (Inr (missionFor L port input scope link s) :: unit + (cdr_exn + MissionSnapshot) \<times> 's)) of
        Inl _ \<Rightarrow> (Inl (Cdr POLICY_STOPPED), s)
      | Inr result \<Rightarrow> result)"

definition step_key :: "CdrSuccessorInput \<Rightarrow> nat \<Rightarrow> js_string" where
  "step_key input index = cd_idempotencyKey input @ '':execute:'' @ dec_nat index"

definition keyed_execute :: "js_string \<Rightarrow> int \<Rightarrow> js_string \<Rightarrow> BoundMissionCommand \<times> apply_ctx" where
  "keyed_execute missionId expected key =
     (\<lparr>bc_missionId = missionId, bc_command = Execute \<lparr>ex_expectedMissionVersion = expected\<rparr>\<rparr>,
      \<lparr>cx_idempotencyKey = Some key, cx_expectedMissionVersion = Some expected, cx_fenceToken = None\<rparr>)"

fun execute_steps ::
    "'s CdrMissionPort \<Rightarrow> js_string \<Rightarrow> CdrSuccessorInput \<Rightarrow> nat \<Rightarrow> int list \<Rightarrow> bool \<Rightarrow> 's \<Rightarrow>
     (cdr_exn + bool) \<times> 's" where
  "execute_steps port missionId input index [] replayed s = (Inr replayed, s)"
| "execute_steps port missionId input index (expected # steps) replayed s =
     (case keyed_execute missionId expected (step_key input index) of (command, ctx) \<Rightarrow>
      (case mp_apply port command ctx s of
         (Inl x, s') \<Rightarrow>
           (Inl (case x of X_idempotency _ _ _ _ \<Rightarrow> Cdr STEP_IDEMPOTENCY_CONFLICT | _ \<Rightarrow> Cdr_Mission x), s')
       | (Inr result, s') \<Rightarrow>
           execute_steps port missionId input (Suc index) steps (replayed \<or> ar_replayed result) s'))"

definition passable :: "CdrSuccessorInput \<Rightarrow> MissionSnapshot \<Rightarrow> bool" where
  "passable input snapshot \<longleftrightarrow>
     sn_status snapshot = cd_expectedStatus input \<or> sn_status snapshot = APPROVED \<or>
     sn_status snapshot = AWAITING_APPROVAL"

definition terminal_snapshot ::
    "CdrSuccessorInput \<Rightarrow> ReconciliationResult option \<Rightarrow> MissionSnapshot \<Rightarrow>
     cdr_exn + ReconciliationResult option \<times> MissionSnapshot" where
  "terminal_snapshot input result snapshot =
     (if result = None \<and> cd_missionId input = None then Inl (Cdr RECONCILIATION_MISMATCH)
      else if \<not> passable input snapshot then Inl (Cdr TERMINAL_SNAPSHOT_MISMATCH)
      else Inr (result, snapshot))"

definition reconcileAndVerify ::
    "'s CdrMissionPort \<Rightarrow> js_string \<Rightarrow> CdrSuccessorInput \<Rightarrow> 's \<Rightarrow>
     (cdr_exn + ReconciliationResult option \<times> MissionSnapshot) \<times> 's" where
  "reconcileAndVerify port missionId input s =
     (if rn_stableIdentifier (cd_reconcile input) \<noteq> cd_operationId input
      then (Inl (Cdr OPERATION_BINDING_MISMATCH), s)
      else (case mp_findById port missionId s of
              None \<Rightarrow> (Inl (Cdr RECONCILIATION_MISMATCH), s)
            | Some current \<Rightarrow>
                if sn_status current = UNKNOWN
                then then_do
                       (mission_call (mp_reconcile port missionId
                          \<lparr>xc_stableIdentifier = cd_operationId input, xc_system = rn_system (cd_reconcile input),
                           xc_missionId = missionId\<rparr> (rn_resolver (cd_reconcile input)) s))
                       (\<lambda>(result, snapshot) s'.
                          if rr_decision result \<noteq> Record_Evidence then (Inl (Cdr RECONCILIATION_MISMATCH), s')
                          else (terminal_snapshot input (Some result) snapshot, s'))
                else if passable input current then (terminal_snapshot input None current, s)
                else (Inl (Cdr RECONCILIATION_MISMATCH), s)))"

definition runGates :: "MissionSnapshot \<Rightarrow> CdrSuccessorInput \<Rightarrow> gate list \<Rightarrow> cdr_exn + GateResult list" where
  "runGates snapshot input gates =
     (let results = run_gates gates
            \<lparr>gc_mission = Some snapshot, gc_targetStatus = Some (cd_expectedStatus input), gc_receipt = None,
             gc_trustedKeys = None, gc_materiality = None, gc_approval = None\<rparr>
      in if list_ex (\<lambda>r. gr_verdict r \<noteq> Allowed) results then Inl (Cdr GATE_BLOCKED) else Inr results)"

definition successor_hash :: "js_lib \<Rightarrow> CdrSuccessorInput \<Rightarrow> js_string" where
  "successor_hash L input = computeEvidenceHash L (concat (map rg_items (cd_evidence input)))"

definition driveExpected :: "CdrSuccessorInput \<Rightarrow> int" where
  "driveExpected input = int (length (cd_executeSteps input)) + 2"

definition drive_to_gate ::
    "'s CdrMissionPort \<Rightarrow> MissionSnapshot \<Rightarrow> CdrSuccessorInput \<Rightarrow> 's \<Rightarrow> (cdr_exn + unit) \<times> 's" where
  "drive_to_gate port snapshot input s =
     (if sn_status snapshot = RUNNING
      then (case keyed_execute (sn_id snapshot) (driveExpected input)
                   (cd_idempotencyKey input @ '':approval-drive'') of
              (command, ctx) \<Rightarrow> then_do (mission_call (mp_apply port command ctx s)) (\<lambda>_ s'. (Inr (), s')))
      else (Inr (), s))"

definition approve_command ::
    "js_lib \<Rightarrow> MissionSnapshot \<Rightarrow> CdrSuccessorInput \<Rightarrow> CdrSuccessorLink \<Rightarrow> BoundMissionCommand \<times> apply_ctx" where
  "approve_command L snapshot input link =
     (\<lparr>bc_missionId = sn_id snapshot,
       bc_command = Approve \<lparr>ap_proposalId = sl_operationId link, ap_proposalVersion = driveExpected input,
         ap_evidenceHash = successor_hash L input, ap_expectedMissionVersion = driveExpected input + 1\<rparr>\<rparr>,
      \<lparr>cx_idempotencyKey = Some (cd_idempotencyKey input @ '':approve''),
       cx_expectedMissionVersion = Some (driveExpected input + 1), cx_fenceToken = None\<rparr>)"

definition approved_snapshot ::
    "js_lib \<Rightarrow> 's CdrMissionPort \<Rightarrow> MissionSnapshot \<Rightarrow> CdrSuccessorInput \<Rightarrow> CdrSuccessorLink \<Rightarrow> 's \<Rightarrow>
     (cdr_exn + MissionSnapshot) \<times> 's" where
  "approved_snapshot L port snapshot input link s =
     (if sn_status snapshot = APPROVED then (Inr snapshot, s)
      else then_do (drive_to_gate port snapshot input s)
             (\<lambda>_ s1. case approve_command L snapshot input link of (command, ctx) \<Rightarrow>
                then_do (mission_call (mp_apply port command ctx s1))
                  (\<lambda>_ s2. case mp_findById port (sn_id snapshot) s2 of
                     None \<Rightarrow> (Inl (Cdr RECONCILIATION_MISMATCH), s2)
                   | Some after \<Rightarrow> (Inr after, s2))))"

definition mission_receipt_content ::
    "js_lib \<Rightarrow> MissionSnapshot \<Rightarrow> CdrSuccessorInput \<Rightarrow> TenantScope \<Rightarrow> CdrSuccessorLink \<Rightarrow> ReceiptContent" where
  "mission_receipt_content L approved input scope link =
     \<lparr>rc_missionId = sn_id approved, rc_companyId = sc_companyId scope,
      rc_actorId = cd_candidateBReviewer input, rc_decision = APPROVE,
      rc_proposalVersion = driveExpected input + 1, rc_evidenceHash = successor_hash L input,
      rc_previousStatus = ''AWAITING_APPROVAL'', rc_newStatus = ''APPROVED'',
      rc_payloadHash = sl_operationId link, rc_timestamp = sn_updatedAt approved\<rparr>"

definition approveMission ::
    "js_lib \<Rightarrow> 's CdrMissionPort \<Rightarrow> CdrReceiptPort \<Rightarrow> MissionSnapshot \<Rightarrow> CdrSuccessorInput \<Rightarrow> TenantScope \<Rightarrow>
     CdrSuccessorLink \<Rightarrow> 's \<Rightarrow> (cdr_exn + MissionSnapshot \<times> SignedReceipt) \<times> 's" where
  "approveMission L port receipts snapshot input scope link s =
     then_do (approved_snapshot L port snapshot input link s)
       (\<lambda>approved s'.
          let receipt = xp_sign receipts (mission_receipt_content L approved input scope link)
                (cd_receiptKeyPairB input)
          in if \<not> xp_verify receipts receipt then (Inl (Cdr MISSION_RECEIPT_INVALID), s')
             else (Inr (approved, receipt), s'))"

section \<open>Candidate B\<close>

definition successor_subject_bytes ::
    "js_lib \<Rightarrow> MissionSnapshot \<Rightarrow> CdrSuccessorLink \<Rightarrow> SignedReceipt \<Rightarrow> subject" where
  "successor_subject_bytes L snapshot link missionReceipt =
     Bytes (subject_bytes (Text (sortedStringify (lib_number L)
       [(''operationId'', J_str (sl_operationId link)), (''missionId'', J_str (sn_id snapshot)),
        (''missionReceiptHash'', J_str (sr_receiptHash missionReceipt)),
        (''candidateAId'', J_str (sl_candidateAId link)),
        (''candidateASubjectHash'', J_str (sl_subjectHash link)),
        (''evidenceHash'', J_str (rc_evidenceHash (sr_content missionReceipt))),
        (''status'', J_str (status_text (sn_status snapshot)))])))"

definition candidate_receipt_content ::
    "MissionSnapshot \<Rightarrow> CdrSuccessorInput \<Rightarrow> TenantScope \<Rightarrow> SignedReceipt \<Rightarrow> js_string \<Rightarrow> ReceiptContent" where
  "candidate_receipt_content snapshot input scope missionReceipt intendedHash =
     \<lparr>rc_missionId = sn_id snapshot, rc_companyId = sc_companyId scope,
      rc_actorId = cd_candidateBReviewer input, rc_decision = APPROVE,
      rc_proposalVersion = sn_version snapshot, rc_evidenceHash = rc_evidenceHash (sr_content missionReceipt),
      rc_previousStatus = ''reviewing'', rc_newStatus = ''accepted'', rc_payloadHash = intendedHash,
      rc_timestamp = sn_updatedAt snapshot\<rparr>"

definition successor_reason :: "CdrSuccessorInput \<Rightarrow> js_string" where
  "successor_reason input = ''successor '' @ cd_operationId input"

text \<open>Steps 12 and 13: proposal from the exact bytes, inspection, submission and acceptance.\<close>

definition accept_successor ::
    "CdrCandidatePort \<Rightarrow> CdrSuccessorInput \<Rightarrow> TenantScope \<Rightarrow> subject \<Rightarrow> js_string \<Rightarrow> cdr_exn + Candidate" where
  "accept_successor port input scope subject intendedHash =
     (let candidateScope = \<lparr>cs_ruc = sc_ruc scope, cs_period = sc_period scope\<rparr>
      in case cp_propose port \<lparr>pi_subject = subject, pi_scope = candidateScope,
                                pi_materialityInput = cd_materiality input\<rparr> of
           Inl e \<Rightarrow> Inl (Cdr_Candidate e)
         | Inr proposed \<Rightarrow>
             if ca_id proposed \<noteq> candidateIdentity intendedHash candidateScope \<or>
                ca_subjectHash proposed \<noteq> intendedHash
             then Inl (Cdr CANDIDATE_B_IDENTITY_MISMATCH)
             else (case cp_inspect port proposed subject of
                     Inl e \<Rightarrow> Inl (Cdr_Candidate e)
                   | Inr inspected \<Rightarrow>
                       (case cp_submitForReview port inspected of
                          Inl e \<Rightarrow> Inl (Cdr_Candidate e)
                        | Inr submitted \<Rightarrow>
                            (case cp_accept port submitted
                                    \<lparr>rd_reviewer = cd_candidateBReviewer input,
                                     rd_reason = Some (successor_reason input)\<rparr> of
                               Inl e \<Rightarrow> Inl (Cdr_Candidate e)
                             | Inr candidateB \<Rightarrow> Inr candidateB))))"

definition materializeCandidateB ::
    "js_lib \<Rightarrow> byte_hash \<Rightarrow> CdrCandidatePort \<Rightarrow> CdrReceiptPort \<Rightarrow> MissionSnapshot \<Rightarrow> CdrSuccessorInput \<Rightarrow>
     TenantScope \<Rightarrow> CdrSuccessorLink \<Rightarrow> SignedReceipt \<Rightarrow>
     cdr_exn + ApprovalRecord \<times> SignedReceipt \<times> Candidate \<times> CdrABLink" where
  "materializeCandidateB L sha256 candidates receipts snapshot input scope link missionReceipt =
     (let subjectB = successor_subject_bytes L snapshot link missionReceipt;
          intendedHash = computeSubjectHash sha256 subjectB
      in if oc_decision (evaluatePePolicy (Some (successor_subject input scope))) \<noteq> ALLOW
         then Inl (Cdr POLICY_STOPPED)
         else (let approval =
                     \<lparr>ap_approverId = cd_candidateBReviewer input, ap_at = sn_updatedAt snapshot,
                      ap_reason = Some (successor_reason input)\<rparr>;
                   receipt = xp_sign receipts
                     (candidate_receipt_content snapshot input scope missionReceipt intendedHash)
                     (cd_receiptKeyPairB input)
               in if \<not> xp_verify receipts receipt then Inl (Cdr CANDIDATE_B_RECEIPT_INVALID)
                  else (case accept_successor candidates input scope subjectB intendedHash of
                          Inl e \<Rightarrow> Inl e
                        | Inr candidateB \<Rightarrow>
                            Inr (approval, receipt, candidateB,
                                 \<lparr>ab_candidateAId = sl_candidateAId link, ab_candidateBId = ca_id candidateB,
                                  ab_operationId = cd_operationId input,
                                  ab_successorMissionId = sn_id snapshot\<rparr>))))"

section \<open>The composition\<close>

definition compose ::
    "js_lib \<Rightarrow> byte_hash \<Rightarrow> ed25519 \<Rightarrow> 's CdrMissionPort \<Rightarrow> CdrCandidatePort \<Rightarrow> CdrReceiptPort \<Rightarrow>
     CdrSuccessorInput \<Rightarrow> gate list \<Rightarrow> 's \<Rightarrow> (cdr_exn + CdrSuccessorResult) \<times> 's" where
  "compose L sha256 ed port candidates receipts input gates s =
     then_do (verifyAuthority L ed input, s) (\<lambda>scope s0.
       let link = buildLink input
       in then_do (startMission L port input scope link s0) (\<lambda>mission s1.
          then_do (execute_steps port (sn_id mission) input 0 (cd_executeSteps input) False s1) (\<lambda>replayed s2.
          then_do (reconcileAndVerify port (sn_id mission) input s2) (\<lambda>(result, snapshot) s3.
          then_do (runGates snapshot input gates, s3) (\<lambda>gateResults s4.
          then_do (approveMission L port receipts snapshot input scope link s4) (\<lambda>(approved, missionReceipt) s5.
          then_do (materializeCandidateB L sha256 candidates receipts approved input scope link missionReceipt, s5)
            (\<lambda>(approval, receipt, candidateB, aToB) s6.
               (Inr \<lparr>cs_scope = scope, cs_link = link, cs_mission = approved, cs_reconciliation = result,
                     cs_gates = gateResults, cs_replayed = replayed, cs_missionReceipt = missionReceipt,
                     cs_approvalB = approval, cs_receiptB = receipt, cs_candidateB = candidateB,
                     cs_aToB = aToB\<rparr>, s6))))))))"

lemmas cdr_defs = MissionRuntimePort_def CandidatePort_def ReceiptPort_def then_do_def mission_call_def
  verifyAuthority_def buildLink_def link_fields_def missionFor_def successor_subject_def startMission_def
  step_key_def keyed_execute_def passable_def terminal_snapshot_def reconcileAndVerify_def runGates_def
  successor_hash_def driveExpected_def drive_to_gate_def approve_command_def approved_snapshot_def
  mission_receipt_content_def approveMission_def successor_subject_bytes_def candidate_receipt_content_def
  successor_reason_def accept_successor_def materializeCandidateB_def compose_def

declare cdr_defs [code_defs]

section \<open>Lemmas\<close>

lemma then_do_Inr: "then_do m k = (Inr b, t) \<longleftrightarrow> (\<exists>a s. m = (Inr a, s) \<and> k a s = (Inr b, t))"
  by (cases m; cases "fst m") (auto simp: then_do_def)

lemma mission_call_Inr: "mission_call m = (Inr a, t) \<longleftrightarrow> m = (Inr a, t)"
  by (cases m; cases "fst m") (auto simp: mission_call_def)

lemma runGates_Inr:
  "runGates snapshot input gates = Inr rs \<Longrightarrow>
     list_all (\<lambda>r. gr_verdict r = Allowed) rs \<and>
     rs = run_gates gates
       \<lparr>gc_mission = Some snapshot, gc_targetStatus = Some (cd_expectedStatus input), gc_receipt = None,
        gc_trustedKeys = None, gc_materiality = None, gc_approval = None\<rparr>"
  by (auto simp: runGates_def Let_def list_ex_iff list_all_iff split: if_splits)

lemma all_gates_run: "list_all (\<lambda>r. gr_verdict r = Allowed) (run_gates gates ctx) \<Longrightarrow>
    length (run_gates gates ctx) = length gates"
  by (induction gates) (auto simp: Let_def split: if_splits)

lemma startMission_Inr:
  "startMission L port input scope link s = (Inr m, t) \<Longrightarrow>
     policy_allows (successor_subject input scope) \<and> missionFor L port input scope link s = (Inr m, t)"
  by (auto simp: startMission_def govern_def Let_def policy_allows_iff [symmetric] split: if_splits)

lemma accepted_successor:
  assumes "accept_successor (CandidatePort H a u b) input scope subject h = Inr c"
  shows "ca_status c = Accepted \<and> ca_subjectHash c = h \<and> h = computeSubjectHash H subject \<and>
    ca_scope c = \<lparr>cs_ruc = sc_ruc scope, cs_period = sc_period scope\<rparr> \<and>
    ca_id c = candidateIdentity h (ca_scope c) \<and>
    ca_materiality c = deriveMateriality (cd_materiality input) \<and> ca_version c = 4 \<and>
    ca_reviews c = [\<lparr>cr_id = u, cr_verdict = Verdict_Accept, cr_reason = Some (successor_reason input),
      cr_reviewer = cd_candidateBReviewer input, cr_reviewedAt = b\<rparr>]"
  using assms
  by (auto simp: accept_successor_def CandidatePort_def propose_def inspect_def submitForReview_def
      accept_def requireStatus_def withStatus_def Let_def split: if_splits sum.splits)

section \<open>What a successor is\<close>

text \<open>The two receipts of a composition: what they say and that they verify.\<close>

definition receipts_bind :: "js_lib \<Rightarrow> ed25519 \<Rightarrow> CdrSuccessorInput \<Rightarrow> CdrSuccessorResult \<Rightarrow> bool" where
  "receipts_bind L ed input r \<longleftrightarrow>
     sv_valid (verifySignedReceipt L ed (cs_missionReceipt r)) \<and>
     sv_valid (verifySignedReceipt L ed (cs_receiptB r)) \<and>
     sr_content (cs_missionReceipt r) =
       mission_receipt_content L (cs_mission r) input (cs_scope r) (cs_link r) \<and>
     sr_content (cs_receiptB r) =
       candidate_receipt_content (cs_mission r) input (cs_scope r) (cs_missionReceipt r)
         (ca_subjectHash (cs_candidateB r))"

definition authority_of :: "js_lib \<Rightarrow> ed25519 \<Rightarrow> CdrSuccessorInput \<Rightarrow> TenantScope \<Rightarrow> bool" where
  "authority_of L ed input scope \<longleftrightarrow>
     validateTenantScope (cd_scope input) = Inr scope \<and> ca_status (cd_candidateA input) = Accepted \<and>
     ca_id (cd_candidateA input) = candidateIdentity (ca_subjectHash (cd_candidateA input))
       \<lparr>cs_ruc = sc_ruc scope, cs_period = sc_period scope\<rparr> \<and>
     sv_valid (verifySignedReceipt L ed (cd_receiptA input)) \<and>
     list_all (\<lambda>artifact. sameTenantScope (rg_scope artifact) scope) (cd_evidence input)"

lemma verifyAuthority_Inr: "verifyAuthority L ed input = Inr scope \<longleftrightarrow> authority_of L ed input scope"
  by (auto simp: verifyAuthority_def authority_of_def list_ex_iff list_all_iff split: sum.splits)

lemma approveMission_Inr:
  "approveMission L port (ReceiptPort L ed now) snapshot input scope link s = (Inr (m, x), t) \<Longrightarrow>
     sv_valid (verifySignedReceipt L ed x) \<and> sr_content x = mission_receipt_content L m input scope link"
  by (auto simp: approveMission_def then_do_Inr ReceiptPort_def Let_def buildSignedReceipt_def
      split: if_splits)

lemma materialized:
  assumes "materializeCandidateB L H (CandidatePort H a u b) (ReceiptPort L ed now) m input scope link x =
    Inr (approval, receipt, c, ab)"
  shows "sv_valid (verifySignedReceipt L ed receipt) \<and>
    sr_content receipt = candidate_receipt_content m input scope x (ca_subjectHash c) \<and>
    accept_successor (CandidatePort H a u b) input scope (successor_subject_bytes L m link x)
      (ca_subjectHash c) = Inr c \<and>
    ap_approverId approval = cd_candidateBReviewer input \<and>
    ab = \<lparr>ab_candidateAId = sl_candidateAId link, ab_candidateBId = ca_id c,
          ab_operationId = cd_operationId input, ab_successorMissionId = sn_id m\<rparr>"
proof -
  let ?h = "computeSubjectHash H (successor_subject_bytes L m link x)"
  have c: "accept_successor (CandidatePort H a u b) input scope (successor_subject_bytes L m link x) ?h = Inr c"
    using assms by (auto simp: materializeCandidateB_def Let_def split: if_splits sum.splits)
  note a = accepted_successor [OF c]
  then have h: "?h = ca_subjectHash c" by simp
  show ?thesis
    using assms c unfolding h
    by (auto simp: materializeCandidateB_def h Let_def ReceiptPort_def buildSignedReceipt_def
        split: if_splits sum.splits)
qed

text \<open>
  A composition that returns was authorized. Candidate A is accepted, its identity is that of the
  validated scope and its receipt verifies; there is evidence, all of it under the scope, and the
  value is below ten million cents; all gates were run and allowed. Candidate B is accepted by the
  given reviewer, and by nobody else, from exactly the bytes that name the operation, the mission, the
  mission's receipt and candidate A; its receipt verifies and is bound to the hash of these bytes, to
  the mission and to the hash of the evidence, and so is the mission's receipt.
\<close>

theorem successor_is_authorized:
  assumes "compose L H ed port (CandidatePort H a u b) (ReceiptPort L ed now) input gates s = (Inr r, t)"
  shows "authority_of L ed input (cs_scope r) \<and> policy_allows (successor_subject input (cs_scope r)) \<and>
    list_all (\<lambda>g. gr_verdict g = Allowed) (cs_gates r) \<and> length (cs_gates r) = length gates \<and>
    cs_link r = buildLink input \<and> receipts_bind L ed input r \<and>
    ca_status (cs_candidateB r) = Accepted \<and>
    map cr_reviewer (ca_reviews (cs_candidateB r)) = [cd_candidateBReviewer input] \<and>
    ca_subjectHash (cs_candidateB r) = computeSubjectHash H
      (successor_subject_bytes L (cs_mission r) (cs_link r) (cs_missionReceipt r)) \<and>
    ca_id (cs_candidateB r) = candidateIdentity (ca_subjectHash (cs_candidateB r))
      \<lparr>cs_ruc = sc_ruc (cs_scope r), cs_period = sc_period (cs_scope r)\<rparr> \<and>
    cs_aToB r = \<lparr>ab_candidateAId = ca_id (cd_candidateA input), ab_candidateBId = ca_id (cs_candidateB r),
      ab_operationId = cd_operationId input, ab_successorMissionId = sn_id (cs_mission r)\<rparr>"
proof -
  from assms obtain scope mission s1 replayed s2 result snapshot s3 gateResults s4 approved x s5
    approval receipt c ab s6 where
    v: "verifyAuthority L ed input = Inr scope"
    and m: "startMission L port input scope (buildLink input) s = (Inr mission, s1)"
    and g: "runGates snapshot input gates = Inr gateResults"
    and p: "approveMission L port (ReceiptPort L ed now) snapshot input scope (buildLink input) s4 =
      (Inr (approved, x), s5)"
    and b: "materializeCandidateB L H (CandidatePort H a u b) (ReceiptPort L ed now) approved input scope
      (buildLink input) x = Inr (approval, receipt, c, ab)"
    and r: "r = \<lparr>cs_scope = scope, cs_link = buildLink input, cs_mission = approved,
      cs_reconciliation = result, cs_gates = gateResults, cs_replayed = replayed, cs_missionReceipt = x,
      cs_approvalB = approval, cs_receiptB = receipt, cs_candidateB = c, cs_aToB = ab\<rparr>"
    by (auto simp: compose_def then_do_Inr Let_def)
  note g' = runGates_Inr [OF g]
  have "list_all (\<lambda>g. gr_verdict g = Allowed) gateResults" using g' by blast
  moreover have "length gateResults = length gates"
    using g' all_gates_run by blast
  ultimately show ?thesis
    using v startMission_Inr [OF m] approveMission_Inr [OF p] materialized [OF b]
      accepted_successor [of H a u b input scope _ "ca_subjectHash c" c]
    by (auto simp: r verifyAuthority_Inr receipts_bind_def buildLink_def)
qed

section \<open>A composition as a run of its mission port\<close>

text \<open>
  What a client of the mission port relies on: a preorder of states in which every call of the port
  moves, a start only from a state in which the next mission is new.
\<close>

lemma then_do_run:
  assumes "\<And>a s. m = (Inr a, s) \<Longrightarrow> R s (snd (k a s))" and "\<And>s t u. R s t \<Longrightarrow> R t u \<Longrightarrow> R s u"
    and "R t (snd m)"
  shows "R t (snd (then_do m k))"
  using assms by (cases m; cases "fst m") (auto simp: then_do_def)

locale mission_port_run =
  fixes port :: "'s CdrMissionPort" and R :: "'s \<Rightarrow> 's \<Rightarrow> bool" and fresh :: "'s \<Rightarrow> bool"
  assumes stays: "R s s"
    and goes_on: "R s t \<Longrightarrow> R t u \<Longrightarrow> R s u"
    and starts: "fresh s \<Longrightarrow> R s (snd (mp_start port command s))"
    and applies: "R s (snd (mp_apply port bound ctx s))"
    and reconciles: "R s (snd (mp_reconcile port i call resolver s))"
begin

lemma snd_mission_call: "snd (mission_call m) = snd m"
  by (cases m; cases "fst m") (simp_all add: mission_call_def)

lemma missionFor_run: "cd_missionId input \<noteq> None \<or> fresh s \<Longrightarrow> R s (snd (missionFor L port input scope link s))"
  by (auto simp: missionFor_def snd_mission_call stays starts split: option.splits)

lemma startMission_run:
  "cd_missionId input \<noteq> None \<or> fresh s \<Longrightarrow> R s (snd (startMission L port input scope link s))"
  using missionFor_run by (auto simp: startMission_def govern_def Let_def stays)

lemma execute_steps_run: "R s (snd (execute_steps port i input k steps replayed s))"
proof (induction steps arbitrary: k replayed s)
  case (Cons e steps)
  show ?case
  proof (cases "keyed_execute i e (step_key input k)")
    case (Pair command ctx)
    have a: "R s (snd (mp_apply port command ctx s))" by (rule applies)
    show ?thesis
    proof (cases "mp_apply port command ctx s")
      case (Pair out s')
      with a \<open>keyed_execute i e (step_key input k) = (command, ctx)\<close> show ?thesis
        by (cases out) (auto intro: goes_on [OF _ Cons.IH])
    qed
  qed
qed (simp add: stays)

lemma reconcile_run: "R s (snd (reconcileAndVerify port i input s))"
proof -
  have "R s (snd (then_do (mission_call (mp_reconcile port i call res s))
      (\<lambda>(result, snapshot) s'.
         if rr_decision result \<noteq> Record_Evidence then (Inl (Cdr RECONCILIATION_MISMATCH), s')
         else (terminal_snapshot input (Some result) snapshot, s'))))" for call res
    by (rule then_do_run [where R = R]) (auto simp: stays snd_mission_call reconciles intro: goes_on)
  then show ?thesis by (auto simp: reconcileAndVerify_def stays split: option.splits)
qed

lemma drive_run: "R s (snd (drive_to_gate port snapshot input s))"
  unfolding drive_to_gate_def
  by (auto simp: stays snd_mission_call applies intro: goes_on intro!: then_do_run [where R = R] split: prod.split)

lemma approved_run: "R s (snd (approved_snapshot L port snapshot input link s))"
proof -
  have "R s1 (snd (then_do (mission_call (mp_apply port command ctx s1))
      (\<lambda>_ s2. case mp_findById port (sn_id snapshot) s2 of
         None \<Rightarrow> (Inl (Cdr RECONCILIATION_MISMATCH), s2) | Some after \<Rightarrow> (Inr after, s2))))" for command ctx s1
    by (rule then_do_run [where R = R])
      (auto simp: stays snd_mission_call applies intro: goes_on split: option.splits)
  then have "R s (snd (then_do (drive_to_gate port snapshot input s)
      (\<lambda>_ s1. case approve_command L snapshot input link of (command, ctx) \<Rightarrow>
         then_do (mission_call (mp_apply port command ctx s1))
           (\<lambda>_ s2. case mp_findById port (sn_id snapshot) s2 of
              None \<Rightarrow> (Inl (Cdr RECONCILIATION_MISMATCH), s2) | Some after \<Rightarrow> (Inr after, s2)))))"
    by (intro then_do_run [where R = R]) (auto simp: drive_run intro: goes_on split: prod.split)
  then show ?thesis by (auto simp: approved_snapshot_def stays)
qed

lemma approve_run: "R s (snd (approveMission L port receipts snapshot input scope link s))"
  unfolding approveMission_def
  by (rule then_do_run [where R = R]) (auto simp: Let_def stays approved_run intro: goes_on)

lemma compose_run:
  assumes "cd_missionId input \<noteq> None \<or> fresh s"
  shows "R s (snd (compose L H ed port candidates receipts input gates s))"
  unfolding compose_def Let_def
  using assms
  by (intro then_do_run [where R = R])
    (auto simp: stays execute_steps_run reconcile_run approve_run startMission_run intro: goes_on
      intro!: then_do_run [where R = R])

end

interpretation runtime_port: mission_port_run
  "MissionRuntimePort HC v uuid registry"
  "\<lambda>p q. (runtime_step HC registry {})\<^sup>*\<^sup>* (snd p) (snd q)"
  "\<lambda>p. findById (''mission_'' @ uuid (fst p)) (rs_store (snd p)) = None"
  for HC v uuid registry
proof
  note r = r_into_rtranclp [where r = "runtime_step HC registry {}"]
  fix p q s :: port_state and command bound ctx i call resolver
  show "(runtime_step HC registry {})\<^sup>*\<^sup>* (snd p) (snd p)" by simp
  show "(runtime_step HC registry {})\<^sup>*\<^sup>* (snd p) (snd s)"
    if "(runtime_step HC registry {})\<^sup>*\<^sup>* (snd p) (snd q)" "(runtime_step HC registry {})\<^sup>*\<^sup>* (snd q) (snd s)"
    using that by (rule rtranclp_trans)
  show "(runtime_step HC registry {})\<^sup>*\<^sup>* (snd p) (snd (snd (mp_start (MissionRuntimePort HC v uuid registry) command p)))"
    if "findById (''mission_'' @ uuid (fst p)) (rs_store (snd p)) = None"
    using r [OF runtime_step.starts [OF that]]
    by (cases p) (auto simp: MissionRuntimePort_def split: prod.splits, metis snd_conv)
  show "(runtime_step HC registry {})\<^sup>*\<^sup>* (snd p) (snd (snd (mp_apply (MissionRuntimePort HC v uuid registry) bound ctx p)))"
    using r [OF runtime_step.applies]
    by (cases p) (auto simp: MissionRuntimePort_def split: prod.splits, metis snd_conv)
  show "(runtime_step HC registry {})\<^sup>*\<^sup>* (snd p)
      (snd (snd (mp_reconcile (MissionRuntimePort HC v uuid registry) i call resolver p)))"
    using r [OF runtime_step.reconciles]
    by (cases p) (auto simp: MissionRuntimePort_def split: prod.splits, metis snd_conv)
qed

section \<open>Properties on the mission runtime\<close>

lemma unauthorized_stops:
  assumes "\<not> (\<exists>scope. authority_of L ed input scope \<and> policy_allows (successor_subject input scope))"
  shows "\<exists>e. compose L H ed port candidates receipts input gates s = (Inl e, s)"
proof (cases "verifyAuthority L ed input")
  case (Inr scope)
  with assms have "oc_decision (evaluatePePolicy (Some (successor_subject input scope))) \<noteq> ALLOW"
    using policy_allows_iff verifyAuthority_Inr by blast
  with Inr show ?thesis by (simp add: compose_def then_do_def Let_def startMission_def govern_def)
qed (simp add: compose_def then_do_def)

text \<open>
  C24: Whatever a composition answers, the missions and their events it leaves are those of a run of
  the mission runtime, so that every invariant of the runtime survives a composition that fails half
  way; and a composition without an accepted candidate A of the scope, a verifying receipt, evidence of
  the scope and a policy that allows changes nothing at all.
\<close>

theorem composition_is_a_runtime_run:
  assumes "cd_missionId input \<noteq> None \<or> findById (''mission_'' @ uuid n) (rs_store st) = None"
    and "compose L H ed (MissionRuntimePort HC v uuid registry) candidates receipts input gates (n, st) =
      (out, n', st')"
  shows "(runtime_step HC registry {})\<^sup>*\<^sup>* st st' \<and>
    (if \<exists>scope. authority_of L ed input scope \<and> policy_allows (successor_subject input scope) then True
     else isl out \<and> st' = st)"
proof -
  have "(runtime_step HC registry {})\<^sup>*\<^sup>* (snd (n, st)) (snd (snd (compose L H ed
      (MissionRuntimePort HC v uuid registry) candidates receipts input gates (n, st))))"
    by (rule runtime_port.compose_run) (use assms(1) in simp)
  then have "(runtime_step HC registry {})\<^sup>*\<^sup>* st st'" by (simp add: assms(2))
  moreover have "isl out \<and> st' = st"
    if "\<not> (\<exists>scope. authority_of L ed input scope \<and> policy_allows (successor_subject input scope))"
    using unauthorized_stops [OF that, of H "MissionRuntimePort HC v uuid registry" candidates receipts gates "(n, st)"]
      assms(2) by auto
  ultimately show ?thesis by auto
qed

text \<open>A stored mission that no step has left undecided.\<close>

definition decided :: "js_string \<Rightarrow> port_state \<Rightarrow> bool" where
  "decided i p \<longleftrightarrow>
     (\<exists>m. findById i (rs_store (snd p)) = Some m \<and> sn_id m = i \<and> sn_status m \<noteq> UNKNOWN)"

lemma agent_never_unknown:
  assumes "check_command (Some (createAgentRegistry h)) fences ctx c m = Inr (s, b, ty)"
    and "bc_command c = Execute p"
  shows "s \<noteq> UNKNOWN"
proof -
  have "resolveTarget (Some (createAgentRegistry h)) m (Execute p) = Inr (s, b, ty)"
    using assms by (auto simp: check_command_def guarded_def Let_def split: if_splits sum.splits)
  then show ?thesis
    by (auto simp: agent_handler guarded_def Let_def split: sum.splits option.splits
        dest!: plan_execute_status)
qed

lemma decided_execute:
  assumes "decided i p"
  shows "decided i (snd (mp_apply (MissionRuntimePort HC v uuid (Some (createAgentRegistry h)))
    (fst (keyed_execute i e k)) (snd (keyed_execute i e k)) p))"
proof -
  obtain n st where p: "p = (n, st)" by (cases p)
  obtain m where m: "findById i (rs_store st) = Some m" "sn_id m = i" "sn_status m \<noteq> UNKNOWN"
    using assms by (auto simp: decided_def p)
  define c where "c = fst (keyed_execute i e k)"
  obtain out st' where a: "apply_command HC (v n) (Some (createAgentRegistry h)) c (snd (keyed_execute i e k)) st =
      (out, st')" by fastforce
  have c: "bc_missionId c = i" "bc_command c = Execute \<lparr>ex_expectedMissionVersion = e\<rparr>"
    by (simp_all add: c_def keyed_execute_def)
  have untouched: "decided i (n', st')" if "untouched st st'" for n'
    using m that by (auto simp: decided_def untouched_def)
  have "decided i (n', st')" for n'
    using apply_effect [OF a]
  proof (elim conjE disjE exE)
    fix m' r tgt
    assume f: "findById (bc_missionId c) (rs_store st) = Some m'" and k: "committed (v n) m' tgt st r st'"
      and "check_command (Some (createAgentRegistry h)) (rs_fences st) (snd (keyed_execute i e k)) c m' = Inr tgt"
    moreover obtain s b ty where t: "tgt = (s, b, ty)" by (cases tgt) auto
    ultimately have "s \<noteq> UNKNOWN" using agent_never_unknown [OF _ c(2)] by blast
    moreover have "m' = m" using f m c by simp
    ultimately show ?thesis
      using k m by (auto simp: t committed_def decided_def nextSnapshot_def save_def findById_def map_of_update)
  qed (simp_all add: untouched)
  then show ?thesis by (simp add: p MissionRuntimePort_def c_def [symmetric] a)
qed

lemma decided_steps:
  assumes "execute_steps (MissionRuntimePort HC v uuid (Some (createAgentRegistry h))) i input k steps replayed p =
      (Inr out, q)"
    and "decided i p"
  shows "decided i q"
  using assms
proof (induction steps arbitrary: k replayed p)
  case (Cons e steps)
  from decided_execute [OF Cons.prems(2), of HC v uuid h e "step_key input k"] Cons.prems(1) show ?case
    by (auto split: prod.splits sum.splits intro: Cons.IH)
qed simp

text \<open>
  C25: With the program's own intent handlers a first composition, one that does not name a mission to
  retry, never returns: it demands that its new mission be reconciled from \<open>UNKNOWN\<close>, a state no
  execute command of these handlers reaches.
\<close>

theorem first_composition_is_rejected:
  assumes "cd_missionId input = None"
  shows "isl (fst (compose L H ed (MissionRuntimePort HC v uuid (Some (createAgentRegistry h))) candidates receipts
    input gates p))"
proof (rule ccontr)
  let ?port = "MissionRuntimePort HC v uuid (Some (createAgentRegistry h))"
  assume "\<not> isl (fst (compose L H ed ?port candidates receipts input gates p))"
  then obtain r t where "compose L H ed ?port candidates receipts input gates p = (Inr r, t)"
    by (metis prod.collapse sum.collapse(2))
  then obtain scope mission s1 replayed s2 out s3 where
    m: "startMission L ?port input scope (buildLink input) p = (Inr mission, s1)"
    and e: "execute_steps ?port (sn_id mission) input 0 (cd_executeSteps input) False s1 = (Inr replayed, s2)"
    and r: "reconcileAndVerify ?port (sn_id mission) input s2 = (Inr out, s3)"
    by (auto simp: compose_def then_do_Inr Let_def)
  have "decided (sn_id mission) s1"
    using startMission_Inr [OF m] assms
    by (cases p) (auto simp: missionFor_def mission_call_def MissionRuntimePort_def start_def Let_def commit_def
        decided_def save_def findById_def map_of_update split: prod.splits)
  from decided_steps [OF e this] r assms show False
    by (auto simp: reconcileAndVerify_def decided_def MissionRuntimePort_def terminal_snapshot_def split: if_splits prod.splits)
qed

section \<open>Witnesses\<close>

definition cdr_ed :: ed25519 where
  "cdr_ed = \<lparr>ed_sign = (\<lambda>m k. m), ed_verify = (\<lambda>m k s. s = m)\<rparr>"

definition cdr_hash :: byte_hash where
  "cdr_hash bytes = ''hh''"

definition cdr_keys :: ReceiptKeyPair where
  "cdr_keys = \<lparr>kp_publicKey = ''p'', kp_privateKey = ''q'', kp_keyId = ''k''\<rparr>"

text \<open>A mission of another company that waits for approval, retried by a composition.\<close>

definition cdr_mission :: MissionSnapshot where
  "cdr_mission =
     \<lparr>sn_id = ''m'', sn_companyId = ''b'', sn_fiscalPeriod = ''202312'', sn_intent = Invoice_Review,
      sn_status = AWAITING_APPROVAL, sn_version = 3, sn_progress = 0, sn_steps = [], sn_currentStep = [],
      sn_blockers = [], sn_proposal = None, sn_rejection = None, sn_receiptId = None, sn_receiptHash = None,
      sn_lastEventSequence = 3, sn_createdAt = [], sn_updatedAt = []\<rparr>"

definition cdr_env :: env where
  "cdr_env = \<lparr>env_iso = (\<lambda>_. ''t''), env_get = 0, env_exec = 0, env_next = 0, env_done = 0, env_expiry = 0,
     env_uuid = ''u''\<rparr>"

definition cdr_port :: "port_state CdrMissionPort" where
  "cdr_port = MissionRuntimePort (\<lambda>_. []) (\<lambda>_. cdr_env) (\<lambda>_. ''u'') None"

definition cdr_start :: port_state where
  "cdr_start = (0, \<lparr>rs_store = [(''m'', cdr_mission)], rs_events = [], rs_idem = [], rs_fences = None\<rparr>)"

definition cdr_content :: ReceiptContent where
  "cdr_content =
     \<lparr>rc_missionId = [], rc_companyId = [], rc_actorId = [], rc_decision = APPROVE, rc_proposalVersion = 1,
      rc_evidenceHash = [], rc_previousStatus = [], rc_newStatus = [], rc_payloadHash = [], rc_timestamp = []\<rparr>"

definition cdr_evidence :: AcceptedEvidence where
  "cdr_evidence =
     \<lparr>rg_id = ''e'', rg_scope = sample_scope, rg_scopeKey = tenantScopeKey sample_scope, rg_items = [],
      rg_evidenceHash = [],
      rg_provenance = \<lparr>ep_channel = DOCUMENT, ep_source = ''s'', ep_capturedAt = [], ep_capturedBy = ''c''\<rparr>,
      ac_identity = ''i''\<rparr>"

definition cdr_input :: CdrSuccessorInput where
  "cdr_input =
     \<lparr>cd_scope = scope_value sample_scope,
      cd_candidateA = \<lparr>ca_id = ''h:20100070970:202401'', ca_subjectHash = ''h'',
        ca_scope = \<lparr>cs_ruc = ''20100070970'', cs_period = ''202401''\<rparr>, ca_materiality = R1,
        ca_status = Accepted, ca_reviews = [], ca_corrections = [], ca_createdAt = [], ca_version = 4\<rparr>,
      cd_approvalA = \<lparr>ap_approverId = ''r'', ap_at = [], ap_reason = None\<rparr>,
      cd_receiptA = buildSignedReceipt sample_lib cdr_ed [] cdr_content cdr_keys ''1.0'' Receipts.APPROVAL,
      cd_evidence = [cdr_evidence],
      cd_operationId = ''o'', cd_idempotencyKey = ''key'', cd_valueCents = 500, cd_expectedStatus = APPROVED,
      cd_executeSteps = [],
      cd_reconcile = \<lparr>rn_stableIdentifier = ''o'', rn_system = [], rn_resolver = None\<rparr>,
      cd_missionId = Some ''m'', cd_candidateBReviewer = ''r'',
      cd_materiality = \<lparr>mi_value = 0, mi_reversibility = Reversible, mi_jurisdiction = ''PE''\<rparr>,
      cd_receiptKeyPairB = cdr_keys\<rparr>"

definition cdr_run :: "(cdr_exn + CdrSuccessorResult) \<times> port_state" where
  "cdr_run = compose sample_lib cdr_hash cdr_ed cdr_port (CandidatePort cdr_hash [] ''u'' ''t'')
     (ReceiptPort sample_lib cdr_ed ''t'') cdr_input [mission_gate] cdr_start"

lemma cdr_signed:
  "sv_valid (verifySignedReceipt L cdr_ed (buildSignedReceipt L cdr_ed now c k v t))"
  by (simp add: verifySignedReceipt_def buildSignedReceipt_def Let_def verifyReceiptIntegrity_def
      verifyReceiptSignature_def signReceipt_def cdr_ed_def)

lemma cdr_subject: "computeSubjectHash cdr_hash s = ''hh''"
  by (simp add: computeSubjectHash_def cdr_hash_def)

lemma cdr_scope_ok: "validateTenantScope (scope_value sample_scope) = Inr sample_scope"
  by code_simp

lemma cdr_scope_fields: "sc_ruc sample_scope = ''20100070970''" "sc_period sample_scope = ''202401''"
  by (simp_all add: sample_scope_def)

lemma cdr_authority: "verifyAuthority sample_lib cdr_ed cdr_input = Inr sample_scope"
  by (simp add: verifyAuthority_Inr authority_of_def cdr_input_def cdr_scope_ok cdr_signed cdr_evidence_def
      sameTenantScope_def candidateIdentity_def cdr_scope_fields)

lemma cdr_policy: "policy_allows (successor_subject cdr_input sample_scope)"
proof -
  have "tenantScopeKey sample_scope \<noteq> []" by code_simp
  then show ?thesis
    by (simp add: policy_allows_def successor_subject_def cdr_input_def cdr_evidence_def PE_def)
qed

definition cdr_approved :: "(cdr_exn + MissionSnapshot) \<times> port_state" where
  "cdr_approved = approved_snapshot sample_lib cdr_port cdr_mission cdr_input (buildLink cdr_input) cdr_start"

lemma cdr_approval: "fst cdr_approved = Inr (cdr_mission\<lparr>sn_status := APPROVED, sn_version := 4,
    sn_lastEventSequence := 4, sn_updatedAt := ''t''\<rparr>)"
  by code_simp

lemma cdr_gates: "isl (runGates cdr_mission cdr_input [mission_gate]) = False"
  by code_simp

lemma cdr_resumes:
  "terminal_snapshot cdr_input None cdr_mission = Inr (None, cdr_mission)"
  "passable cdr_input cdr_mission" "sn_status cdr_mission = AWAITING_APPROVAL" "sn_id cdr_mission = ''m''"
  "mp_findById cdr_port ''m'' cdr_start = Some cdr_mission"
  "rn_stableIdentifier (cd_reconcile cdr_input) = cd_operationId cdr_input"
  "cd_missionId cdr_input = Some ''m''" "cd_executeSteps cdr_input = []" "sn_companyId cdr_mission = ''b''"
  by code_simp+

lemma cdr_accepts:
  "\<not> isl (accept_successor (CandidatePort cdr_hash [] ''u'' ''t'') cdr_input sample_scope subject ''hh'')"
proof -
  have "isValidScope \<lparr>cs_ruc = sc_ruc sample_scope, cs_period = sc_period sample_scope\<rparr>" by code_simp
  then show ?thesis
    by (simp add: accept_successor_def CandidatePort_def propose_def inspect_def submitForReview_def accept_def
        requireStatus_def withStatus_def Let_def cdr_subject)
qed

lemma cdr_run_returns: "\<exists>r t. cdr_run = (Inr r, t) \<and> sn_companyId (cs_mission r) = ''b'' \<and> cs_scope r = sample_scope"
proof -
  define t where "t = snd cdr_approved"
  have a: "cdr_approved = (Inr (cdr_mission\<lparr>sn_status := APPROVED, sn_version := 4,
      sn_lastEventSequence := 4, sn_updatedAt := ''t''\<rparr>), t)"
    by (rule prod_eqI) (simp_all only: cdr_approval t_def fst_conv snd_conv)
  obtain rs where g: "runGates cdr_mission cdr_input [mission_gate] = Inr rs"
    using cdr_gates by (cases "runGates cdr_mission cdr_input [mission_gate]") auto
  define c where "c = (\<lambda>subject. projr (accept_successor (CandidatePort cdr_hash [] ''u'' ''t'') cdr_input
    sample_scope subject ''hh''))"
  have c: "accept_successor (CandidatePort cdr_hash [] ''u'' ''t'') cdr_input sample_scope subject ''hh'' =
      Inr (c subject)" for subject
    using cdr_accepts by (simp add: c_def)
  have p: "oc_decision (evaluatePePolicy (Some (successor_subject cdr_input sample_scope))) = ALLOW"
    using cdr_policy by (simp add: policy_allows_iff)
  show ?thesis
    unfolding cdr_run_def compose_def
    by (simp add: then_do_def Let_def cdr_authority startMission_def govern_def p missionFor_def cdr_resumes
        reconcileAndVerify_def g approveMission_def cdr_approved_def [symmetric] a ReceiptPort_def cdr_signed
        materializeCandidateB_def cdr_subject c)
qed

theorem successor_is_authorized_witness:
  "\<exists>r t. cdr_run = (Inr r, t) \<and> ca_status (cs_candidateB r) = Accepted \<and>
     receipts_bind sample_lib cdr_ed cdr_input r \<and>
     sn_companyId (cs_mission r) = ''b'' \<and> sc_companyId (cs_scope r) = ''a''"
proof -
  obtain r t where r: "cdr_run = (Inr r, t)" "sn_companyId (cs_mission r) = ''b''" "cs_scope r = sample_scope"
    using cdr_run_returns by blast
  have "sc_companyId sample_scope = ''a''" by (simp add: sample_scope_def)
  with successor_is_authorized [OF r(1) [unfolded cdr_run_def]] r show ?thesis by metis
qed

theorem composition_is_a_runtime_run_witness:
  "\<exists>t. cdr_run = t \<and> (runtime_step (\<lambda>_. []) None {})\<^sup>*\<^sup>* (snd cdr_start) (snd (snd t))"
proof -
  obtain r n' st' where r: "cdr_run = (Inr r, n', st')" using cdr_run_returns by (metis prod.collapse)
  have "cd_missionId cdr_input \<noteq> None" by (simp add: cdr_input_def)
  with composition_is_a_runtime_run [OF disjI1, of cdr_input sample_lib cdr_hash cdr_ed "\<lambda>_. []" "\<lambda>_. cdr_env"
      "\<lambda>_. ''u''" None "CandidatePort cdr_hash [] ''u'' ''t''" "ReceiptPort sample_lib cdr_ed ''t''" "[mission_gate]"
      0 "snd cdr_start" "Inr r" n' st'] r
  have "(runtime_step (\<lambda>_. []) None {})\<^sup>*\<^sup>* (snd cdr_start) st'"
    by (simp add: cdr_run_def cdr_port_def cdr_start_def)
  with r show ?thesis by (metis snd_conv)
qed

theorem first_composition_is_rejected_witness:
  "isl (fst (compose sample_lib cdr_hash cdr_ed
     (MissionRuntimePort (\<lambda>_. []) (\<lambda>_. cdr_env) (\<lambda>_. ''u'') (Some (createAgentRegistry ''h'')))
     (CandidatePort cdr_hash [] ''u'' ''t'') (ReceiptPort sample_lib cdr_ed ''t'')
     (cdr_input\<lparr>cd_missionId := None\<rparr>) [mission_gate] cdr_start))"
  by (rule first_composition_is_rejected) simp

end
