(* ===== verification/Flow_Wiring.thy ===== *)
theory Flow_Wiring
  imports Bank_Reconciliation Close_Calculations Candidates Js_Value
begin

text \<open>
  \<^verbatim>\<open>flow/close-wiring.ts\<close>: the converters that turn the output of the two engines into
  the proposals of the monthly close. The texts of risks and explanations are datatypes; the subject
  of a proposal, which is hashed, is its JSON text, and its amount the decimal text that the close
  reads back with \<open>BigInt\<close>. The text of a number is the argument \<open>fr\<close>, \<open>localeCompare\<close> is \<open>cmp\<close>.
\<close>

section \<open>BigInt of a text\<close>

definition radix_digit :: "nat \<Rightarrow> char \<Rightarrow> nat option" where
  "radix_digit b c =
     (let n = code_unit c;
          d = (if is_digit c then n - 48 else if 97 \<le> n \<and> n \<le> 102 then n - 87
               else if 65 \<le> n \<and> n \<le> 70 then n - 55 else b)
      in if d < b then Some d else None)"

fun radix_value :: "nat \<Rightarrow> nat \<Rightarrow> js_string \<Rightarrow> nat option" where
  "radix_value b a [] = Some a"
| "radix_value b a (c # s) =
     (case radix_digit b c of None \<Rightarrow> None | Some d \<Rightarrow> radix_value b (b * a + d) s)"

definition radix_text :: "nat \<Rightarrow> js_string \<Rightarrow> int option" where
  "radix_text b s = (if s = [] then None else map_option int (radix_value b 0 s))"

text \<open>\<open>BigInt(text)\<close>, \<open>None\<close> for the \<open>SyntaxError\<close>; a blank text is zero.\<close>

definition js_bigint :: "js_string \<Rightarrow> int option" where
  "js_bigint text =
     (let t = js_trim text
      in if t = [] then Some 0
         else if take 1 t = ''-'' then map_option uminus (radix_text 10 (drop 1 t))
         else if take 1 t = ''+'' then radix_text 10 (drop 1 t)
         else if take 2 t = ''0x'' \<or> take 2 t = ''0X'' then radix_text 16 (drop 2 t)
         else if take 2 t = ''0o'' \<or> take 2 t = ''0O'' then radix_text 8 (drop 2 t)
         else if take 2 t = ''0b'' \<or> take 2 t = ''0B'' then radix_text 2 (drop 2 t)
         else radix_text 10 t)"

section \<open>Proposals and risks\<close>

record CloseScope =
  zs_ruc :: js_string
  zs_period :: js_string
  zs_companyId :: js_string

datatype explanation = Exp_Text js_string | Exp_Draft justification | Exp_Entry CloseEntry

record ReconciliationProposal =
  rp_label :: js_string
  rp_explanation :: explanation
  rp_subject :: js_string
  rp_amountCents :: js_string
  rp_reversibility :: reversibility

datatype engine_group = Group_Depreciation | Group_Provisions | Group_Isr | Group_Closing

datatype wiring_risk =
  Reconciliation_Engine_Error bank_error
| Bank_Row_Rejected Rejection
| Ledger_Row_Rejected Rejection
| Close_Engine_Error engine_group close_error
| Unclassifiable_Kind js_string close_kind

type_synonym wired = "ReconciliationProposal list \<times> wiring_risk list"

fun CLOSE_KIND_REVERSIBILITY :: "close_kind \<Rightarrow> reversibility option" where
  "CLOSE_KIND_REVERSIBILITY K_Depreciation = Some Irreversible"
| "CLOSE_KIND_REVERSIBILITY K_Provision = Some Partially_Reversible"
| "CLOSE_KIND_REVERSIBILITY K_Isr = Some Irreversible"
| "CLOSE_KIND_REVERSIBILITY K_Closing = Some Reversible"

section \<open>Reconciliation\<close>

fun source_text :: "movement_source \<Rightarrow> js_string" where
  "source_text From_Bank = ''bank''"
| "source_text From_Ledger = ''ledger''"

text \<open>An inherited side is a function, which JSON drops, but for the prototype object itself.\<close>

fun side_value :: "movement_side \<Rightarrow> js_value" where
  "side_value Inflow = J_str ''inflow''"
| "side_value Outflow = J_str ''outflow''"
| "side_value (Inherited t) = (if t = ''__proto__'' then J_obj [] else J_undefined)"

definition draft_proposal :: "(rat \<Rightarrow> js_string) \<Rightarrow> AdjustmentDraft \<Rightarrow> ReconciliationProposal" where
  "draft_proposal fr d =
     \<lparr>rp_label = ''adjustment:'' @ dr_draftId d,
      rp_explanation = Exp_Draft (dr_justification d),
      rp_subject = json_stringify fr
        (J_obj [(''kind'', J_str ''reconciliation-adjustment''), (''draftId'', J_str (dr_draftId d)),
                (''reference'', J_str (dr_reference d)), (''source'', J_str (source_text (dr_source d))),
                (''side'', side_value (dr_side d)), (''requireApproval'', J_bool (dr_requireApproval d))]),
      rp_amountCents = dec_int (dr_amountCents d),
      rp_reversibility = (if dr_requireApproval d then Partially_Reversible else Reversible)\<rparr>"

definition reconciliationToProposals ::
    "(rat \<Rightarrow> js_string) \<Rightarrow> (js_string \<Rightarrow> js_string \<Rightarrow> int) \<Rightarrow> CloseScope \<Rightarrow> RawRow list \<Rightarrow> RawRow list \<Rightarrow>
     AdjustOptions \<Rightarrow> wired" where
  "reconciliationToProposals fr cmp scope bankRows ledgerRows opts =
     (let engineScope = \<lparr>bs_ruc = zs_ruc scope, bs_period = zs_period scope\<rparr>
      in case normalizeBankRows engineScope bankRows of
           Inl e \<Rightarrow> ([], [Reconciliation_Engine_Error (INVALID_BANK_SCOPE e)])
         | Inr bank \<Rightarrow>
             (case normalizeLedgerRows engineScope ledgerRows of
                Inl e \<Rightarrow> ([], [Reconciliation_Engine_Error (INVALID_BANK_SCOPE e)])
              | Inr ledger \<Rightarrow>
                  (let risks = map Bank_Row_Rejected (nr_rejected bank) @ map Ledger_Row_Rejected (nr_rejected ledger)
                   in case reconcile_movements cmp engineScope (nr_movements bank) (nr_movements ledger) of
                        Inl e \<Rightarrow> ([], risks @ [Reconciliation_Engine_Error (INVALID_BANK_SCOPE e)])
                      | Inr reconciliation \<Rightarrow>
                          (case buildAdjustments (map Classified (rn_differences reconciliation)) opts of
                             Inl e \<Rightarrow> ([], risks @ [Reconciliation_Engine_Error e])
                           | Inr drafts \<Rightarrow> (map (draft_proposal fr) drafts, risks)))))"

section \<open>Close entries\<close>

record CloseEngineInputs =
  ei_depreciation :: "(FixedAsset list \<times> DepreciationPolicy) option"
  ei_provisions :: "(ProvisionInput list \<times> ProvisionPolicy) option"
  ei_isr :: "(ProvisionalIsrInput \<times> IsrPolicy) option"
  ei_closing :: "(ResultBalance list \<times> js_string set) option"

fun kind_text :: "close_kind \<Rightarrow> js_string" where
  "kind_text K_Depreciation = ''depreciation''"
| "kind_text K_Provision = ''provision''"
| "kind_text K_Isr = ''isr''"
| "kind_text K_Closing = ''closing''"

definition debit_amount :: "CloseEntry \<Rightarrow> int" where
  "debit_amount entry =
     foldl (\<lambda>sum line. if ln_side line = ''debit'' then sum + ln_amountCents line else sum) 0 (en_lines entry)"

definition line_value :: "CloseLine \<Rightarrow> js_value" where
  "line_value line =
     J_obj [(''accountCode'', J_str (ln_accountCode line)), (''side'', J_str (ln_side line)),
            (''amountCents'', J_str (dec_int (ln_amountCents line)))]"

definition mapEntry :: "(rat \<Rightarrow> js_string) \<Rightarrow> CloseEntry \<Rightarrow> wired" where
  "mapEntry fr entry =
     (case CLOSE_KIND_REVERSIBILITY (en_kind entry) of
        None \<Rightarrow> ([], [Unclassifiable_Kind (en_id entry) (en_kind entry)])
      | Some reversibility \<Rightarrow>
          ([\<lparr>rp_label = ''close:'' @ kind_text (en_kind entry) @ '':'' @ en_id entry,
             rp_explanation = Exp_Entry entry,
             rp_subject = json_stringify fr
               (J_obj [(''kind'', J_str ''close-entry''), (''entryId'', J_str (en_id entry)),
                       (''closeKind'', J_str (kind_text (en_kind entry))),
                       (''lines'', J_arr (map line_value (en_lines entry)))]),
             rp_amountCents = dec_int (debit_amount entry),
             rp_reversibility = reversibility\<rparr>], []))"

definition map_group :: "(rat \<Rightarrow> js_string) \<Rightarrow> engine_group \<Rightarrow> close_error + CloseEntry list \<Rightarrow> wired" where
  "map_group fr g result =
     (case result of
        Inl e \<Rightarrow> ([], [Close_Engine_Error g e])
      | Inr entries \<Rightarrow>
          (concat (map (fst \<circ> mapEntry fr) entries), concat (map (snd \<circ> mapEntry fr) entries)))"

definition wire :: "'a option \<Rightarrow> ('a \<Rightarrow> wired) \<Rightarrow> wired \<Rightarrow> wired" where
  "wire input f acc =
     (case input of None \<Rightarrow> acc | Some x \<Rightarrow> (fst acc @ fst (f x), snd acc @ snd (f x)))"

definition closeEntriesToProposals ::
    "(rat \<Rightarrow> js_string) \<Rightarrow> CloseScope \<Rightarrow> CloseEngineInputs \<Rightarrow> wired" where
  "closeEntriesToProposals fr scope inputs =
     (let engineScope = \<lparr>cl_ruc = zs_ruc scope, cl_period = zs_period scope\<rparr>
      in wire (ei_closing inputs)
           (\<lambda>(balances, chart). map_group fr Group_Closing (closeResultAccounts engineScope balances chart))
          (wire (ei_isr inputs)
            (\<lambda>(input, policy). map_group fr Group_Isr
               (case computeProvisionalIsr engineScope input policy of
                  Inl e \<Rightarrow> Inl e | Inr (entry, cedula) \<Rightarrow> Inr [entry]))
            (wire (ei_provisions inputs)
              (\<lambda>(xs, policy). map_group fr Group_Provisions (computeProvisions engineScope xs policy))
              (wire (ei_depreciation inputs)
                (\<lambda>(assets, policy). map_group fr Group_Depreciation (computeDepreciation engineScope assets policy))
                ([], [])))))"

lemmas wiring_defs = radix_digit_def radix_text_def js_bigint_def draft_proposal_def
  reconciliationToProposals_def debit_amount_def line_value_def mapEntry_def map_group_def wire_def
  closeEntriesToProposals_def

declare wiring_defs [code_defs]

section \<open>The amounts are read back\<close>

lemma radix_value_digits:
  "list_all is_digit s \<Longrightarrow> radix_value 10 a s = Some (foldl (\<lambda>a c. 10 * a + digit_val c) a s)"
proof (induction s arbitrary: a)
  case (Cons c s)
  then have "radix_digit 10 c = Some (digit_val c)"
    using digit_val_le [of c] by (simp add: radix_digit_def digit_val_def Let_def)
  with Cons show ?case by simp
qed simp

lemma radix_text_dec_nat: "radix_text 10 (dec_nat n) = Some (int n)"
  using dec_nat_digits [of n] dec_nat_nonempty [of n] undec_dec_nat [of n]
  by (simp add: radix_text_def radix_value_digits undec.simps)

lemma js_trim_no_space: "list_all (\<lambda>c. \<not> is_space c) s \<Longrightarrow> js_trim s = s"
proof -
  assume *: "list_all (\<lambda>c. \<not> is_space c) s"
  have "list_all (\<lambda>c. \<not> is_space c) xs \<Longrightarrow> dropWhile is_space xs = xs" for xs
    by (cases xs) auto
  from this [of s] this [of "rev s"] * show ?thesis by (simp add: js_trim_def)
qed

lemma digit_no_space: "is_digit c \<Longrightarrow> \<not> is_space c"
  by (auto simp: is_digit_def is_space_def)

lemma dec_nat_first:
  obtains c s where "dec_nat n = c # s" and "is_digit c" and "list_all is_digit s"
  using dec_nat_digits [of n] dec_nat_nonempty [of n] by (cases "dec_nat n") auto

lemma js_bigint_dec_int [simp]: "js_bigint (dec_int n) = Some n"
proof (cases "n < 0")
  case True
  have "list_all (\<lambda>c. \<not> is_space c) (dec_int n)"
    using True dec_nat_digits [of "nat (- n)"] digit_no_space
    by (auto simp: dec_int_def list_all_iff is_space_def code_unit_def)
  with True show ?thesis
    by (simp add: js_bigint_def js_trim_no_space dec_int_def radix_text_dec_nat)
next
  case False
  obtain c s where n: "dec_nat (nat n) = c # s" and c: "is_digit c" and s: "list_all is_digit s"
    by (rule dec_nat_first)
  have "list_all (\<lambda>c. \<not> is_space c) (dec_nat (nat n))"
    using dec_nat_digits [of "nat n"] digit_no_space by (auto simp: list_all_iff)
  then have trim: "js_trim (dec_int n) = c # s"
    using False n by (simp add: dec_int_def js_trim_no_space)
  have letter: "\<not> is_digit x" if "x \<in> {CHR ''-'', CHR ''+'', CHR ''x'', CHR ''X'', CHR ''o'', CHR ''O'', CHR ''b'', CHR ''B''}" for x
    using that by (auto simp: is_digit_def code_unit_def)
  have "c \<noteq> CHR ''-''" and "c \<noteq> CHR ''+''"
    using c letter by auto
  moreover have "take (Suc 0) s \<notin> {''x'', ''X'', ''o'', ''O'', ''b'', ''B''}"
    using s letter by (cases s) auto
  ultimately show ?thesis
    using trim n radix_text_dec_nat [of "nat n"] False
    by (simp add: js_bigint_def Let_def)
qed

section \<open>One proposal per draft\<close>

fun open_movement :: "difference \<Rightarrow> Movement list" where
  "open_movement (Bank_Only m) = [m]"
| "open_movement (Ledger_Only m) = [m]"
| "open_movement _ = []"

lemma adjust_loop_amounts:
  "map dr_amountCents (adjust_loop opts ds n) = map mv_amountCents (concat (map open_movement ds))"
proof (induction ds arbitrary: n)
  case (Cons d ds)
  then show ?case by (cases d) (simp_all add: draft_for_def Let_def)
qed simp

lemma all_classified: "traverse classify (map Classified ds) = Inr ds"
  by (induction ds) simp_all

text \<open>
  When both row sets are read, the wiring proposes one adjustment for each movement left without
  counterpart, in order and with exactly its amount (what the close reads back with \<open>BigInt\<close>), and
  raises one risk for each rejected row and no other.
\<close>

theorem open_movements_are_proposed:
  assumes "normalizeBankRows \<lparr>bs_ruc = zs_ruc scope, bs_period = zs_period scope\<rparr> bankRows = Inr nb"
    and "normalizeLedgerRows \<lparr>bs_ruc = zs_ruc scope, bs_period = zs_period scope\<rparr> ledgerRows = Inr nl"
    and "reconciliationToProposals fr cmp scope bankRows ledgerRows opts = (proposals, risks)"
  shows "\<exists>r. reconcile_movements cmp \<lparr>bs_ruc = zs_ruc scope, bs_period = zs_period scope\<rparr>
        (nr_movements nb) (nr_movements nl) = Inr r \<and>
      map (\<lambda>p. js_bigint (rp_amountCents p)) proposals =
        map (\<lambda>m. Some (mv_amountCents m)) (concat (map open_movement (rn_differences r))) \<and>
      risks = map Bank_Row_Rejected (nr_rejected nb) @ map Ledger_Row_Rejected (nr_rejected nl)"
proof -
  let ?s = "\<lparr>bs_ruc = zs_ruc scope, bs_period = zs_period scope\<rparr>"
  have "validateBankScope ?s = None"
    using assms(1) by (auto simp: normalizeBankRows_def split: option.splits)
  then obtain r where r: "reconcile_movements cmp ?s (nr_movements nb) (nr_movements nl) = Inr r"
    by (auto simp: reconcile_movements_def Let_def)
  with assms have "proposals = map (draft_proposal fr) (adjust_loop opts (rn_differences r) 0)"
    and risks: "risks = map Bank_Row_Rejected (nr_rejected nb) @ map Ledger_Row_Rejected (nr_rejected nl)"
    by (simp_all add: reconciliationToProposals_def Let_def buildAdjustments_def all_classified)
  then have "map (\<lambda>p. js_bigint (rp_amountCents p)) proposals =
      map Some (map dr_amountCents (adjust_loop opts (rn_differences r) 0))"
    by (simp add: draft_proposal_def)
  with r risks show ?thesis
    unfolding adjust_loop_amounts by (simp add: comp_def)
qed

definition sample_wiring_scope :: CloseScope where
  "sample_wiring_scope = \<lparr>zs_ruc = ''20100070970'', zs_period = ''202501'', zs_companyId = ''acme''\<rparr>"

theorem open_movements_are_proposed_witness:
  "\<exists>proposals risks.
     reconciliationToProposals (\<lambda>_. []) compare_keys sample_wiring_scope sample_statement sample_books
       default_options = (proposals, risks) \<and>
     length proposals = 2 \<and> length risks = 1 \<and>
     list_all (\<lambda>p. js_bigint (rp_amountCents p) \<noteq> None) proposals"
proof -
  let ?s = "\<lparr>bs_ruc = zs_ruc sample_wiring_scope, bs_period = zs_period sample_wiring_scope\<rparr>"
  obtain proposals risks where w: "reconciliationToProposals (\<lambda>_. []) compare_keys sample_wiring_scope
      sample_statement sample_books default_options = (proposals, risks)" by fastforce
  have "\<not> isl (normalizeBankRows ?s sample_statement)" and "\<not> isl (normalizeLedgerRows ?s sample_books)"
    by code_simp+
  then obtain nb nl where "normalizeBankRows ?s sample_statement = Inr nb" and "normalizeLedgerRows ?s sample_books = Inr nl"
    by (metis sum.collapse(2))
  from open_movements_are_proposed [OF this w]
  obtain r :: Reconciliation where "map (\<lambda>p. js_bigint (rp_amountCents p)) proposals =
      map (\<lambda>m. Some (mv_amountCents m)) (concat (map open_movement (rn_differences r)))"
    by (elim exE conjE) (rule that, assumption)
  then have "list_all (\<lambda>x. x \<noteq> None) (map (\<lambda>p. js_bigint (rp_amountCents p)) proposals)"
    by (simp add: list_all_iff)
  moreover have "length (fst (reconciliationToProposals (\<lambda>_. []) compare_keys sample_wiring_scope
      sample_statement sample_books default_options)) = 2"
    and "length (snd (reconciliationToProposals (\<lambda>_. []) compare_keys sample_wiring_scope
      sample_statement sample_books default_options)) = 1" by code_simp+
  ultimately show ?thesis using w by (auto simp: list_all_iff)
qed

section \<open>One proposal per close entry\<close>

definition group_entries :: "'a option \<Rightarrow> ('a \<Rightarrow> close_error + CloseEntry list) \<Rightarrow> CloseEntry list" where
  "group_entries input engine =
     (case input of None \<Rightarrow> [] | Some x \<Rightarrow> (case engine x of Inl _ \<Rightarrow> [] | Inr es \<Rightarrow> es))"

definition group_faults :: "engine_group \<Rightarrow> 'a option \<Rightarrow> ('a \<Rightarrow> close_error + CloseEntry list) \<Rightarrow> wiring_risk list" where
  "group_faults g input engine =
     (case input of None \<Rightarrow> [] | Some x \<Rightarrow> (case engine x of Inl e \<Rightarrow> [Close_Engine_Error g e] | Inr _ \<Rightarrow> []))"

definition engine_scope :: "CloseScope \<Rightarrow> Scope" where
  "engine_scope scope = \<lparr>cl_ruc = zs_ruc scope, cl_period = zs_period scope\<rparr>"

definition depreciation_engine :: "Scope \<Rightarrow> FixedAsset list \<times> DepreciationPolicy \<Rightarrow> close_error + CloseEntry list" where
  "depreciation_engine s x = computeDepreciation s (fst x) (snd x)"

definition provision_engine :: "Scope \<Rightarrow> ProvisionInput list \<times> ProvisionPolicy \<Rightarrow> close_error + CloseEntry list" where
  "provision_engine s x = computeProvisions s (fst x) (snd x)"

definition closing_engine :: "Scope \<Rightarrow> ResultBalance list \<times> js_string set \<Rightarrow> close_error + CloseEntry list" where
  "closing_engine s x = closeResultAccounts s (fst x) (snd x)"

definition isr_engine :: "Scope \<Rightarrow> ProvisionalIsrInput \<times> IsrPolicy \<Rightarrow> close_error + CloseEntry list" where
  "isr_engine s x =
     (case computeProvisionalIsr s (fst x) (snd x) of Inl e \<Rightarrow> Inl e | Inr (entry, cedula) \<Rightarrow> Inr [entry])"

definition entry_proposal :: "CloseEntry \<Rightarrow> ReconciliationProposal \<Rightarrow> bool" where
  "entry_proposal e p \<longleftrightarrow>
     rp_explanation p = Exp_Entry e \<and> js_bigint (rp_amountCents p) = Some (line_total ''debit'' (en_lines e)) \<and>
     line_total ''debit'' (en_lines e) = line_total ''credit'' (en_lines e) \<and>
     Some (rp_reversibility p) = CLOSE_KIND_REVERSIBILITY (en_kind e)"

lemma debit_amount_total: "debit_amount e = line_total ''debit'' (en_lines e)"
proof -
  have "foldl (\<lambda>sum line. if ln_side line = ''debit'' then sum + ln_amountCents line else sum) a ls =
      a + line_total ''debit'' ls" for a ls
    by (induction ls arbitrary: a) (simp_all add: line_total_def)
  then show ?thesis by (simp add: debit_amount_def)
qed

lemma mapEntry_one:
  obtains p where "mapEntry fr e = ([p], [])" and "assertBalanced e = None \<Longrightarrow> entry_proposal e p"
  by (cases "en_kind e") (auto simp: mapEntry_def entry_proposal_def debit_amount_total assertBalanced_None_iff)

lemma map_group_faults: "snd (map_group fr g (Inr es)) = []" "snd (map_group fr g (Inl e)) = [Close_Engine_Error g e]"
proof -
  have "snd (mapEntry fr e) = []" for e by (rule mapEntry_one [of fr e]) simp
  then show "snd (map_group fr g (Inr es)) = []" by (simp add: map_group_def)
qed (simp add: map_group_def)

lemma map_group_proposals:
  assumes "list_all (\<lambda>e. assertBalanced e = None) es"
  shows "list_all2 entry_proposal es (fst (map_group fr g (Inr es)))"
  using assms
proof (induction es)
  case (Cons e es)
  obtain p where "mapEntry fr e = ([p], [])" and "assertBalanced e = None \<Longrightarrow> entry_proposal e p"
    using mapEntry_one [of fr e] by blast
  with Cons show ?case by (simp add: map_group_def)
qed (simp add: map_group_def)

definition balanced_engine :: "('a \<Rightarrow> close_error + CloseEntry list) \<Rightarrow> bool" where
  "balanced_engine engine \<longleftrightarrow> (\<forall>x es. engine x = Inr es \<longrightarrow> list_all (\<lambda>e. assertBalanced e = None) es)"

lemma wire_group:
  assumes "balanced_engine engine" and "list_all2 entry_proposal es0 (fst acc)"
  shows "list_all2 entry_proposal (es0 @ group_entries input engine)
      (fst (wire input (\<lambda>x. map_group fr g (engine x)) acc)) \<and>
    snd (wire input (\<lambda>x. map_group fr g (engine x)) acc) = snd acc @ group_faults g input engine"
proof (cases input)
  case (Some x)
  show ?thesis
  proof (cases "engine x")
    case (Inl e)
    with Some assms(2) show ?thesis
      by (simp add: wire_def group_entries_def group_faults_def map_group_def)
  next
    case (Inr es)
    then show ?thesis
      using Some assms(2) map_group_proposals [of es fr g] assms(1) Inr
      by (simp add: wire_def group_entries_def group_faults_def map_group_faults list_all2_appendI balanced_engine_def)
  qed
qed (use assms(2) in \<open>simp add: wire_def group_entries_def group_faults_def\<close>)

lemma balanced_of_good: "list_all (entry_ok s chart) es \<Longrightarrow> list_all (\<lambda>e. assertBalanced e = None) es"
  by (auto simp: list_all_iff entry_ok_def)

lemma engines_balanced:
  "balanced_engine (depreciation_engine s)" "balanced_engine (provision_engine s)"
  "balanced_engine (isr_engine s)" "balanced_engine (closing_engine s)"
proof -
  show "balanced_engine (depreciation_engine s)"
    using depreciation.produces_good by (fastforce simp: balanced_engine_def depreciation_engine_def dest: balanced_of_good)
  show "balanced_engine (provision_engine s)"
    using provisions.produces_good by (fastforce simp: balanced_engine_def provision_engine_def dest: balanced_of_good)
  show "balanced_engine (isr_engine s)"
    using isr_good by (fastforce simp: balanced_engine_def isr_engine_def entry_ok_def split: sum.splits)
  show "balanced_engine (closing_engine s)"
    using closing.produces_good by (fastforce simp: balanced_engine_def closing_engine_def dest: balanced_of_good)
qed

text \<open>
  The close wiring proposes each entry of the engines that succeed exactly once, in engine order,
  with an amount that reads back as the entry's debits and its credits, and raises one risk for each
  engine that fails.
\<close>

theorem close_entries_are_proposed:
  "list_all2 entry_proposal
      (group_entries (ei_depreciation inputs) (depreciation_engine (engine_scope scope)) @
       group_entries (ei_provisions inputs) (provision_engine (engine_scope scope)) @
       group_entries (ei_isr inputs) (isr_engine (engine_scope scope)) @
       group_entries (ei_closing inputs) (closing_engine (engine_scope scope)))
      (fst (closeEntriesToProposals fr scope inputs)) \<and>
    snd (closeEntriesToProposals fr scope inputs) =
      group_faults Group_Depreciation (ei_depreciation inputs) (depreciation_engine (engine_scope scope)) @
      group_faults Group_Provisions (ei_provisions inputs) (provision_engine (engine_scope scope)) @
      group_faults Group_Isr (ei_isr inputs) (isr_engine (engine_scope scope)) @
      group_faults Group_Closing (ei_closing inputs) (closing_engine (engine_scope scope))"
proof -
  let ?s = "engine_scope scope"
  let ?d = "wire (ei_depreciation inputs) (\<lambda>x. map_group fr Group_Depreciation (depreciation_engine ?s x)) ([], [])"
  let ?p = "wire (ei_provisions inputs) (\<lambda>x. map_group fr Group_Provisions (provision_engine ?s x)) ?d"
  let ?i = "wire (ei_isr inputs) (\<lambda>x. map_group fr Group_Isr (isr_engine ?s x)) ?p"
  have all: "closeEntriesToProposals fr scope inputs =
      wire (ei_closing inputs) (\<lambda>x. map_group fr Group_Closing (closing_engine ?s x)) ?i"
    by (simp add: closeEntriesToProposals_def depreciation_engine_def provision_engine_def closing_engine_def
        isr_engine_def engine_scope_def split_def Let_def)
  note 1 = wire_group [of "depreciation_engine ?s" "[]" "([], [])" "ei_depreciation inputs" fr Group_Depreciation,
      OF engines_balanced(1), simplified]
  note 2 = wire_group [of "provision_engine ?s" _ ?d "ei_provisions inputs" fr Group_Provisions, 
      OF engines_balanced(2) conjunct1 [OF 1]]
  note 3 = wire_group [of "isr_engine ?s" _ ?p "ei_isr inputs" fr Group_Isr, 
      OF engines_balanced(3) conjunct1 [OF 2]]
  note 4 = wire_group [of "closing_engine ?s" _ ?i "ei_closing inputs" fr Group_Closing, 
      OF engines_balanced(4) conjunct1 [OF 3]]
  show ?thesis
    unfolding all using 1 2 3 4 by simp
qed

end
