(* ===== verification/Guardian.thy ===== *)
theory Guardian
  imports Candidates Authorization
begin

text \<open>
  \<^verbatim>\<open>guardian/guardian.ts\<close>, \<^verbatim>\<open>guardian/refutation.ts\<close> and
  \<^verbatim>\<open>guardian/resolution.ts\<close>. The module-level counter of findings is passed as state.
  \<open>report.findings.includes\<close> compares object identity: a finding carries the identity of its
  object, the counter's value at its creation, and an untyped \<open>finding\<close> field is that identity
  or no object. Descriptions are a datatype; the \<open>continuation\<close> text of a denial is fixed by its
  cause and is not modelled.
\<close>

section \<open>The review\<close>

datatype GuardianSeverity = Blocker | Concern | Info

datatype GuardianCategory = Cat_Scope | Cat_Materiality | Cat_Approval | Cat_Evidence | Cat_Integrity

datatype guardian_description =
  Bad_Ruc js_string | Bad_Period js_string | Bad_Subject_Hash | Unknown_Tier materiality
| Few_Acceptances nat | Single_Reviewer | No_Review_History

record GuardianFinding =
  gf_ref :: nat
  gf_id :: js_string
  gf_severity :: GuardianSeverity
  gf_category :: GuardianCategory
  gf_description :: guardian_description

record GuardianReport =
  gr_candidateHash :: js_string
  gr_findings :: "GuardianFinding list"
  gr_verdict :: js_string
  gr_reviewedAt :: js_string

type_synonym pending = "nat \<times> GuardianFinding list"

text \<open>\<open>findings.push(finding(...))\<close> under the condition of its \<open>if\<close>.\<close>

definition finding :: "nat \<Rightarrow> GuardianSeverity \<Rightarrow> GuardianCategory \<Rightarrow> guardian_description \<Rightarrow> GuardianFinding" where
  "finding n severity category description =
     \<lparr>gf_ref = n, gf_id = ''guardian-'' @ dec_nat n, gf_severity = severity, gf_category = category,
      gf_description = description\<rparr>"

definition push_if ::
    "bool \<Rightarrow> GuardianSeverity \<Rightarrow> GuardianCategory \<Rightarrow> guardian_description \<Rightarrow> pending \<Rightarrow> pending" where
  "push_if c severity category description s =
     (if c then (fst s + 1, snd s @ [finding (fst s + 1) severity category description]) else s)"

definition TIERS :: "materiality list" where
  "TIERS = [R0, R1, R2, R3]"

definition acceptances :: "Candidate \<Rightarrow> CandidateReview list" where
  "acceptances c = filter (\<lambda>r. cr_verdict r = Verdict_Accept) (ca_reviews c)"

definition reviewer_count :: "Candidate \<Rightarrow> nat" where
  "reviewer_count c = length (remdups (map cr_reviewer (acceptances c)))"

definition check_approvals :: "bool \<Rightarrow> Candidate \<Rightarrow> pending \<Rightarrow> pending" where
  "check_approvals r3DualRequired c s =
     (if r3DualRequired \<and> 3 \<le> orderOf (ca_materiality c)
      then (if length (acceptances c) < 2
            then push_if True Blocker Cat_Approval (Few_Acceptances (length (acceptances c))) s
            else push_if (reviewer_count c < 2) Blocker Cat_Approval Single_Reviewer s)
      else s)"

fun severityOrder :: "GuardianSeverity \<Rightarrow> int" where
  "severityOrder Blocker = 0"
| "severityOrder Concern = 1"
| "severityOrder Info = 2"

definition collect_findings :: "bool \<Rightarrow> Candidate \<Rightarrow> nat \<Rightarrow> pending" where
  "collect_findings r3DualRequired c seq =
     push_if (2 \<le> orderOf (ca_materiality c) \<and> length (ca_reviews c) = 0) Concern Cat_Approval No_Review_History
       (check_approvals r3DualRequired c
         (push_if (ca_materiality c \<notin> set TIERS) Blocker Cat_Materiality (Unknown_Tier (ca_materiality c))
           (push_if (ca_subjectHash c = [] \<or> length (ca_subjectHash c) < 32) Blocker Cat_Integrity Bad_Subject_Hash
             (push_if (\<not> isValidPeriod (cs_period (ca_scope c))) Blocker Cat_Scope (Bad_Period (cs_period (ca_scope c)))
               (push_if (\<not> isValidRucChecksummed (cs_ruc (ca_scope c))) Blocker Cat_Scope
                 (Bad_Ruc (cs_ruc (ca_scope c))) (seq, []))))))"

text \<open>The report and the counter after it; \<open>now\<close> is the clock, the option \<open>r3DualRequired\<close>.\<close>

definition runGuardianReview ::
    "js_string \<Rightarrow> bool option \<Rightarrow> Candidate \<Rightarrow> nat \<Rightarrow> GuardianReport \<times> nat" where
  "runGuardianReview now dual c seq =
     (case collect_findings (case dual of None \<Rightarrow> True | Some b \<Rightarrow> b) c seq of
        (seq', findings) \<Rightarrow>
          (\<lparr>gr_candidateHash = ca_subjectHash c,
            gr_findings = js_sort (\<lambda>a b. severityOrder (gf_severity a) - severityOrder (gf_severity b)) findings,
            gr_verdict = ''none'', gr_reviewedAt = now\<rparr>, seq'))"

section \<open>Refutation\<close>

datatype RefutationVerdict = Uphold | Refute | Downgrade

datatype RefutationDenialCode =
  Malformed_Challenge | Unknown_Finding | Invalid_Verdict | Invalid_Independence
| Downgrade_Without_Target | Candidate_Changed

datatype object_slot = No_Object | Object_Ref nat

record RefutationChallenge =
  ch_finding :: object_slot
  ch_challengerId :: js_value
  ch_reason :: js_value
  ch_severityOverride :: "GuardianSeverity option"
  ch_categoryOverride :: "GuardianCategory option"
  ch_candidateHash :: js_value

record RefutationReview =
  rv_reviewerId :: js_value
  rv_verdict :: js_value
  rv_reason :: js_value

datatype challenge_result = Challenge_Accepted | Challenge_Denied RefutationDenialCode js_string

datatype dual_result =
  Consistent RefutationVerdict "GuardianSeverity option"
| Inconsistent
| Dual_Denied RefutationDenialCode js_string

fun verdict_of :: "js_value \<Rightarrow> RefutationVerdict option" where
  "verdict_of (J_str s) =
     (if s = ''uphold'' then Some Uphold else if s = ''refute'' then Some Refute
      else if s = ''downgrade'' then Some Downgrade else None)"
| "verdict_of _ = None"

definition isStrictlyLowerSeverity :: "GuardianSeverity option \<Rightarrow> GuardianSeverity \<Rightarrow> bool" where
  "isStrictlyLowerSeverity override current =
     (case override of None \<Rightarrow> False | Some s \<Rightarrow> severityOrder s > severityOrder current)"

text \<open>\<open>typeof v !== "string" || v.trim() === ""\<close>\<close>

fun blank_or_no_string :: "js_value \<Rightarrow> bool" where
  "blank_or_no_string (J_str s) \<longleftrightarrow> js_trim s = []"
| "blank_or_no_string _ \<longleftrightarrow> True"

definition bound_finding :: "GuardianReport \<Rightarrow> object_slot \<Rightarrow> GuardianFinding option" where
  "bound_finding report slot =
     (case slot of No_Object \<Rightarrow> None | Object_Ref r \<Rightarrow> find (\<lambda>f. gf_ref f = r) (gr_findings report))"

text \<open>The argument \<open>None\<close> is a challenge (a review, a record) that is not an object.\<close>

definition validateChallenge :: "GuardianReport \<Rightarrow> RefutationChallenge option \<Rightarrow> challenge_result" where
  "validateChallenge report challenge =
     (case challenge of
        None \<Rightarrow> Challenge_Denied Malformed_Challenge ''challenge is not an object''
      | Some c \<Rightarrow>
          if ch_finding c = No_Object
          then Challenge_Denied Malformed_Challenge ''challenge.finding is missing or not a finding''
          else if blank_or_no_string (ch_challengerId c)
          then Challenge_Denied Malformed_Challenge ''challenge.challengerId is missing or empty''
          else if blank_or_no_string (ch_reason c)
          then Challenge_Denied Malformed_Challenge ''challenge.reason is missing or empty''
          else if bound_finding report (ch_finding c) = None
          then Challenge_Denied Unknown_Finding ''challenge.finding is not an element of report.findings''
          else if ch_candidateHash c \<noteq> J_undefined \<and> ch_candidateHash c \<noteq> J_str (gr_candidateHash report)
          then Challenge_Denied Candidate_Changed ''challenge.candidateHash does not match report.candidateHash''
          else Challenge_Accepted)"

definition challengeRefutation :: "GuardianReport \<Rightarrow> RefutationChallenge option \<Rightarrow> challenge_result" where
  "challengeRefutation report challenge = validateChallenge report challenge"

definition judge ::
    "RefutationChallenge \<Rightarrow> GuardianFinding \<Rightarrow> RefutationVerdict \<Rightarrow> RefutationVerdict \<Rightarrow> dual_result" where
  "judge c f a b =
     (if (a = Downgrade \<or> b = Downgrade) \<and>
         \<not> isStrictlyLowerSeverity (ch_severityOverride c) (gf_severity f)
      then Dual_Denied Downgrade_Without_Target
             (''downgrade requires a severityOverride strictly lower than the finding'' @ CHR 0x27 # ''s severity'')
      else if a = b
      then (if a = Downgrade then Consistent Downgrade (ch_severityOverride c) else Consistent a None)
      else Inconsistent)"

definition evaluateDualReview ::
    "GuardianReport \<Rightarrow> RefutationChallenge option \<Rightarrow> RefutationReview option \<Rightarrow> RefutationReview option \<Rightarrow> dual_result"
  where
  "evaluateDualReview report challenge reviewA reviewB =
     (case (validateChallenge report challenge, challenge, reviewA, reviewB) of
        (Challenge_Denied code cause, _, _, _) \<Rightarrow> Dual_Denied code cause
      | (Challenge_Accepted, Some c, Some a, Some b) \<Rightarrow>
          if blank_or_no_string (rv_reviewerId a) \<or> blank_or_no_string (rv_reviewerId b)
          then Dual_Denied Invalid_Independence ''each review must carry a non-empty reviewerId''
          else (case (verdict_of (rv_verdict a), verdict_of (rv_verdict b)) of
                  (Some va, Some vb) \<Rightarrow>
                    if rv_reviewerId a = rv_reviewerId b
                    then Dual_Denied Invalid_Independence ''the two reviewerIds must be distinct''
                    else if rv_reviewerId a = ch_challengerId c \<or> rv_reviewerId b = ch_challengerId c
                    then Dual_Denied Invalid_Independence ''a reviewer must not be the challenger''
                    else judge c (the (bound_finding report (ch_finding c))) va vb
                | _ \<Rightarrow> Dual_Denied Invalid_Verdict ''review verdict must be one of uphold, refute, or downgrade'')
      | _ \<Rightarrow> Dual_Denied Invalid_Independence ''exactly two review objects are required'')"

section \<open>Resolution\<close>

datatype ResolutionDisposition = Resolved | Dismissed

datatype ResolutionDenialCode =
  Res_Unknown_Finding | Already_Resolved | Already_Dismissed | Empty_Reason | Missing_Actor
| Missing_Timestamp | Malformed_Record | Res_Candidate_Changed

record ResolutionRecord =
  fx_finding :: object_slot
  fx_actorId :: js_value
  fx_disposition :: js_value
  fx_why :: js_value
  fx_evidence :: js_value
  fx_referenceTime :: js_value
  fx_candidateHash :: js_value

record AppliedRecord =
  al_finding :: GuardianFinding
  al_actorId :: js_value
  al_disposition :: ResolutionDisposition
  al_reason :: js_value
  al_evidence :: js_value
  al_referenceTime :: js_value
  al_candidateHash :: js_value

datatype resolution_result = Applied AppliedRecord | Resolution_Denied ResolutionDenialCode js_string

fun disposition_of :: "js_value \<Rightarrow> ResolutionDisposition option" where
  "disposition_of (J_str s) =
     (if s = ''resolved'' then Some Resolved else if s = ''dismissed'' then Some Dismissed else None)"
| "disposition_of _ = None"

fun disposition_value :: "ResolutionDisposition \<Rightarrow> js_value" where
  "disposition_value Resolved = J_str ''resolved''"
| "disposition_value Dismissed = J_str ''dismissed''"

text \<open>A text of the shape of the picture, in which \<open>d\<close> stands for a digit.\<close>

definition picture :: "js_string \<Rightarrow> js_string \<Rightarrow> bool" where
  "picture p s = list_all2 (\<lambda>c x. if c = CHR ''d'' then is_digit x else x = c) p s"

definition iso_zone :: "js_string \<Rightarrow> bool" where
  "iso_zone s \<longleftrightarrow> s = ''Z'' \<or> picture ''+dd:dd'' s \<or> picture ''-dd:dd'' s"

definition ISO_8601 :: "js_string \<Rightarrow> bool" where
  "ISO_8601 s \<longleftrightarrow>
     picture ''dddd-dd-ddTdd:dd:dd'' (take 19 s) \<and>
     (case drop 19 s of
        [] \<Rightarrow> False
      | c # r \<Rightarrow>
          if c = CHR ''.''
          then 1 \<le> length (takeWhile is_digit r) \<and> length (takeWhile is_digit r) \<le> 9 \<and> iso_zone (dropWhile is_digit r)
          else iso_zone (c # r))"

fun timestamp_value :: "js_value \<Rightarrow> bool" where
  "timestamp_value (J_str s) \<longleftrightarrow> js_trim s \<noteq> [] \<and> ISO_8601 s"
| "timestamp_value _ \<longleftrightarrow> False"

definition undefined_or_string :: "js_value \<Rightarrow> bool" where
  "undefined_or_string v \<longleftrightarrow> v = J_undefined \<or> isString v"

text \<open>\<open>Object.freeze({ ...source.finding })\<close> is a new object: its identity is the argument \<open>fresh\<close>.\<close>

definition freezeRecord :: "nat \<Rightarrow> GuardianFinding \<Rightarrow> ResolutionDisposition \<Rightarrow> ResolutionRecord \<Rightarrow> AppliedRecord" where
  "freezeRecord fresh f d r =
     \<lparr>al_finding = f\<lparr>gf_ref := fresh\<rparr>, al_actorId = fx_actorId r, al_disposition = d, al_reason = fx_why r,
      al_evidence = fx_evidence r, al_referenceTime = fx_referenceTime r, al_candidateHash = fx_candidateHash r\<rparr>"

definition resolveFinding ::
    "nat \<Rightarrow> GuardianReport \<Rightarrow> ResolutionRecord option \<Rightarrow> js_value \<Rightarrow> resolution_result" where
  "resolveFinding fresh report rec currentDisposition =
     (case rec of
        None \<Rightarrow> Resolution_Denied Malformed_Record ''record is not an object''
      | Some r \<Rightarrow>
          if fx_finding r = No_Object
          then Resolution_Denied Malformed_Record ''record.finding is missing or not a finding''
          else if disposition_of (fx_disposition r) = None
          then Resolution_Denied Malformed_Record ''record.disposition must be resolved or dismissed''
          else if \<not> undefined_or_string (fx_evidence r)
          then Resolution_Denied Malformed_Record ''record.evidence must be a string when present''
          else if \<not> undefined_or_string (fx_candidateHash r)
          then Resolution_Denied Malformed_Record ''record.candidateHash must be a string when present''
          else (case bound_finding report (fx_finding r) of
                  None \<Rightarrow> Resolution_Denied Res_Unknown_Finding ''record.finding is not an element of report.findings''
                | Some f \<Rightarrow>
                    if fx_candidateHash r \<noteq> J_undefined \<and> fx_candidateHash r \<noteq> J_str (gr_candidateHash report)
                    then Resolution_Denied Res_Candidate_Changed
                           ''record.candidateHash does not match report.candidateHash''
                    else if blank_or_no_string (fx_why r)
                    then Resolution_Denied Empty_Reason ''record.reason is missing or empty''
                    else if blank_or_no_string (fx_actorId r)
                    then Resolution_Denied Missing_Actor ''record.actorId is missing or empty''
                    else if \<not> timestamp_value (fx_referenceTime r)
                    then Resolution_Denied Missing_Timestamp
                           ''record.referenceTime is missing, empty, or not ISO-8601''
                    else if currentDisposition = J_str ''resolved''
                    then Resolution_Denied Already_Resolved ''finding is already resolved''
                    else if currentDisposition = J_str ''dismissed''
                    then Resolution_Denied Already_Dismissed ''finding is already dismissed''
                    else if currentDisposition \<noteq> J_undefined
                    then Resolution_Denied Malformed_Record ''currentDisposition is not a valid disposition''
                    else Applied (freezeRecord fresh f (the (disposition_of (fx_disposition r))) r)))"

lemmas guardian_defs = finding_def push_if_def TIERS_def acceptances_def reviewer_count_def check_approvals_def
  collect_findings_def runGuardianReview_def isStrictlyLowerSeverity_def bound_finding_def
  validateChallenge_def challengeRefutation_def judge_def evaluateDualReview_def picture_def iso_zone_def
  ISO_8601_def undefined_or_string_def freezeRecord_def resolveFinding_def

declare guardian_defs [code_defs]

section \<open>What a clear review means\<close>

definition clear_report :: "GuardianReport \<Rightarrow> bool" where
  "clear_report report \<longleftrightarrow> list_all (\<lambda>f. gf_severity f \<noteq> Blocker) (gr_findings report)"

lemma push_if_findings:
  "list_all P (snd (push_if c severity category description s)) \<longleftrightarrow>
     list_all P (snd s) \<and> (c \<longrightarrow> P (finding (fst s + 1) severity category description))"
  by (simp add: push_if_def)

lemma finding_severity [simp]: "gf_severity (finding n s cat d) = s" "gf_ref (finding n s cat d) = n"
  by (simp_all add: finding_def)

lemma clear_report_iff:
  "clear_report (fst (runGuardianReview now dual c seq)) \<longleftrightarrow>
     isValidRucChecksummed (cs_ruc (ca_scope c)) \<and> isValidPeriod (cs_period (ca_scope c)) \<and>
     32 \<le> length (ca_subjectHash c) \<and>
     (dual = Some False \<or> ca_materiality c \<noteq> R3 \<or> 2 \<le> length (acceptances c) \<and> 2 \<le> reviewer_count c)"
proof -
  have "clear_report (fst (runGuardianReview now dual c seq)) \<longleftrightarrow>
      list_all (\<lambda>f. gf_severity f \<noteq> Blocker)
        (snd (collect_findings (case dual of None \<Rightarrow> True | Some b \<Rightarrow> b) c seq))"
    by (simp add: clear_report_def runGuardianReview_def list_all_iff split: prod.splits)
  also have "\<dots> \<longleftrightarrow>
     isValidRucChecksummed (cs_ruc (ca_scope c)) \<and> isValidPeriod (cs_period (ca_scope c)) \<and>
     32 \<le> length (ca_subjectHash c) \<and>
     (dual = Some False \<or> ca_materiality c \<noteq> R3 \<or> 2 \<le> length (acceptances c) \<and> 2 \<le> reviewer_count c)"
    by (cases "ca_materiality c")
      (auto simp: collect_findings_def check_approvals_def push_if_findings TIERS_def split: option.splits)
  finally show ?thesis .
qed

lemma acceptances_of_run:
  assumes "propose H t input = Inr p" and "candidate_run H calls p = Inr c"
  shows "length (acceptances c) \<le> 1"
proof -
  from inv_run [OF inv_propose [OF assms(1)] assms(2)] have "review_ok c"
    by (simp add: candidate_inv_def)
  then have "length (ca_reviews c) \<le> 1"
    by (auto simp: review_ok_def split: candidate_status.splits)
  moreover have "length (acceptances c) \<le> length (ca_reviews c)"
    by (simp add: acceptances_def)
  ultimately show ?thesis by linarith
qed

text \<open>The Guardian clears a candidate of the lifecycle exactly when its RUC passes the checksum, its
  hash has 32 characters or more, and its tier is below R3: the lifecycle records one acceptance at
  most, so that no sequence of calls gives an R3 candidate the two acceptances the review demands.
\<close>

theorem guardian_clears_exactly_below_r3:
  assumes "propose H t input = Inr p" and "candidate_run H calls p = Inr c"
  shows "clear_report (fst (runGuardianReview now None c seq)) \<longleftrightarrow>
    isValidRucChecksummed (cs_ruc (pi_scope input)) \<and> 32 \<le> length (ca_subjectHash c) \<and>
    deriveMateriality (pi_materialityInput input) < R3"
proof -
  from inv_run [OF inv_propose [OF assms(1)] assms(2)] proposed [OF assms(1)]
  have "ca_scope c = pi_scope input" and "ca_materiality c = deriveMateriality (pi_materialityInput input)"
    by (simp_all add: candidate_inv_def)
  moreover have "isValidPeriod (cs_period (pi_scope input))"
    using assms(1) by (simp add: propose_def isValidScope_def split: if_splits)
  moreover have "m \<noteq> R3 \<longleftrightarrow> m < R3" for m
    by (cases m) (simp_all add: less_materiality_def)
  ultimately show ?thesis
    using acceptances_of_run [OF assms] by (simp add: clear_report_iff)
qed

definition long_hash :: byte_hash where
  "long_hash b = replicate 64 (CHR ''a'')"

theorem guardian_clears_exactly_below_r3_witness:
  "\<exists>p c. propose long_hash ''t0'' sample_proposal = Inr p \<and>
     candidate_run long_hash [Call_Inspect (Text ''asiento'')] p = Inr c \<and>
     clear_report (fst (runGuardianReview ''now'' None c 0))"
proof -
  have "\<not> isl (propose long_hash ''t0'' sample_proposal)" by code_simp
  then obtain p where p: "propose long_hash ''t0'' sample_proposal = Inr p" by (metis sum.collapse(2))
  have "\<not> isl (candidate_run long_hash [Call_Inspect (Text ''asiento'')]
      (projr (propose long_hash ''t0'' sample_proposal)))" by code_simp
  then obtain c where c: "candidate_run long_hash [Call_Inspect (Text ''asiento'')] p = Inr c"
    unfolding p by (metis sum.collapse(2) sum.sel(2))
  have "ca_subjectHash (projr (candidate_run long_hash [Call_Inspect (Text ''asiento'')]
      (projr (propose long_hash ''t0'' sample_proposal)))) = replicate 64 (CHR ''a'')" by code_simp
  then have "32 \<le> length (ca_subjectHash c)" by (simp add: p c)
  moreover have "isValidRucChecksummed (cs_ruc (pi_scope sample_proposal))"
    and "deriveMateriality (pi_materialityInput sample_proposal) < R3" by code_simp+
  ultimately show ?thesis
    using p c guardian_clears_exactly_below_r3 [OF p c, of "''now''" 0] by blast
qed

section \<open>The dual review\<close>

lemma dual_Consistent:
  "evaluateDualReview report ch ra rb = Consistent v low \<longleftrightarrow>
     (\<exists>c a b f. ch = Some c \<and> ra = Some a \<and> rb = Some b \<and>
        validateChallenge report ch = Challenge_Accepted \<and> bound_finding report (ch_finding c) = Some f \<and>
        \<not> blank_or_no_string (rv_reviewerId a) \<and> \<not> blank_or_no_string (rv_reviewerId b) \<and>
        distinct [rv_reviewerId a, rv_reviewerId b, ch_challengerId c] \<and>
        verdict_of (rv_verdict a) = Some v \<and> verdict_of (rv_verdict b) = Some v \<and>
        low = (if v = Downgrade then ch_severityOverride c else None) \<and>
        (v = Downgrade \<longrightarrow> isStrictlyLowerSeverity (ch_severityOverride c) (gf_severity f)))"
proof (cases "validateChallenge report ch")
  case Challenge_Accepted
  then obtain c f where "ch = Some c" and "bound_finding report (ch_finding c) = Some f"
    by (auto simp: validateChallenge_def split: option.splits if_splits)
  with Challenge_Accepted show ?thesis
    by (auto simp: evaluateDualReview_def judge_def split: option.splits if_splits)
qed (auto simp: evaluateDualReview_def)

text \<open>
  A dual review is consistent only when three distinct people, each named by a text that is not
  blank, take part (the challenger and two reviewers), the finding is one of the report itself, both
  reviewers gave the verdict, and a downgrade lowers the finding's severity to the one proposed.
\<close>

theorem dual_review_needs_three_people:
  assumes "evaluateDualReview report ch ra rb = Consistent v low"
  shows "\<exists>c a b f. ch = Some c \<and> ra = Some a \<and> rb = Some b \<and> f \<in> set (gr_findings report) \<and>
    Object_Ref (gf_ref f) = ch_finding c \<and>
    distinct [rv_reviewerId a, rv_reviewerId b, ch_challengerId c] \<and>
    list_all (\<lambda>x. \<not> blank_or_no_string x) [rv_reviewerId a, rv_reviewerId b, ch_challengerId c, ch_reason c] \<and>
    verdict_of (rv_verdict a) = Some v \<and> verdict_of (rv_verdict b) = Some v \<and>
    (case low of None \<Rightarrow> v \<noteq> Downgrade
     | Some s \<Rightarrow> v = Downgrade \<and> severityOrder (gf_severity f) < severityOrder s)"
proof -
  from assms obtain c a b f where *: "ch = Some c" "ra = Some a" "rb = Some b"
      "validateChallenge report ch = Challenge_Accepted" "bound_finding report (ch_finding c) = Some f"
      "\<not> blank_or_no_string (rv_reviewerId a)" "\<not> blank_or_no_string (rv_reviewerId b)"
      "distinct [rv_reviewerId a, rv_reviewerId b, ch_challengerId c]"
      "verdict_of (rv_verdict a) = Some v" "verdict_of (rv_verdict b) = Some v"
      "low = (if v = Downgrade then ch_severityOverride c else None)"
      "v = Downgrade \<longrightarrow> isStrictlyLowerSeverity (ch_severityOverride c) (gf_severity f)"
    unfolding dual_Consistent by blast
  moreover have "f \<in> set (gr_findings report)" and "Object_Ref (gf_ref f) = ch_finding c"
    using *(5) by (auto simp: bound_finding_def find_Some_iff split: object_slot.splits)
  moreover have "\<not> blank_or_no_string (ch_challengerId c)" and "\<not> blank_or_no_string (ch_reason c)"
    using * by (auto simp: validateChallenge_def split: if_splits)
  moreover have "case low of None \<Rightarrow> v \<noteq> Downgrade
     | Some s \<Rightarrow> v = Downgrade \<and> severityOrder (gf_severity f) < severityOrder s"
    using *(11, 12) by (auto simp: isStrictlyLowerSeverity_def split: option.splits if_splits)
  ultimately show ?thesis by auto
qed

definition sample_guardian_report :: GuardianReport where
  "sample_guardian_report =
     \<lparr>gr_candidateHash = ''h'', gr_findings = [finding 1 Blocker Cat_Approval Single_Reviewer],
      gr_verdict = ''none'', gr_reviewedAt = ''t''\<rparr>"

definition sample_challenge :: RefutationChallenge where
  "sample_challenge =
     \<lparr>ch_finding = Object_Ref 1, ch_challengerId = J_str ''ana'', ch_reason = J_str ''why'',
      ch_severityOverride = Some Info, ch_categoryOverride = None, ch_candidateHash = J_undefined\<rparr>"

definition sample_judgment :: "js_string \<Rightarrow> RefutationReview" where
  "sample_judgment who = \<lparr>rv_reviewerId = J_str who, rv_verdict = J_str ''downgrade'', rv_reason = J_undefined\<rparr>"

theorem dual_review_needs_three_people_witness:
  "\<exists>f. f \<in> set (gr_findings sample_guardian_report) \<and> severityOrder (gf_severity f) < severityOrder Info"
proof -
  have "evaluateDualReview sample_guardian_report (Some sample_challenge) (Some (sample_judgment ''bea''))
      (Some (sample_judgment ''caro'')) = Consistent Downgrade (Some Info)" by code_simp
  from dual_review_needs_three_people [OF this] show ?thesis by auto
qed

section \<open>One resolution\<close>

text \<open>
  A resolution that is applied was made on an open finding of the report itself, under the
  report's candidate, by a named actor with a reason and a timestamp, and it keeps the finding's
  contents; from then on, whatever record is submitted, a finding with this disposition is never
  resolved again.
\<close>

theorem findings_resolve_once:
  assumes "resolveFinding fresh report rec current = Applied r"
  shows "current = J_undefined \<and>
    (\<exists>f \<in> set (gr_findings report). al_finding r = f\<lparr>gf_ref := fresh\<rparr>) \<and>
    al_candidateHash r \<in> {J_undefined, J_str (gr_candidateHash report)} \<and>
    list_all (\<lambda>x. \<not> blank_or_no_string x) [al_actorId r, al_reason r] \<and> timestamp_value (al_referenceTime r) \<and>
    (\<nexists>fresh' report' rec' r'. resolveFinding fresh' report' rec' (disposition_value (al_disposition r)) = Applied r')"
proof -
  obtain s where s: "rec = Some s"
    using assms by (cases rec) (auto simp: resolveFinding_def)
  obtain f where f: "bound_finding report (fx_finding s) = Some f"
    using assms by (auto simp: s resolveFinding_def split: if_splits option.splits)
  then have "f \<in> set (gr_findings report)"
    by (auto simp: bound_finding_def find_Some_iff split: object_slot.splits)
  moreover have "\<not> (\<exists>r'. resolveFinding fresh' report' rec' (disposition_value d) = Applied r')"
    for fresh' report' rec' d
    by (cases d) (auto simp: resolveFinding_def split: option.splits)
  moreover have "r = freezeRecord fresh f (the (disposition_of (fx_disposition s))) s" and "current = J_undefined"
    and "fx_candidateHash s \<in> {J_undefined, J_str (gr_candidateHash report)}"
    and "\<not> blank_or_no_string (fx_why s)" and "\<not> blank_or_no_string (fx_actorId s)"
    and "timestamp_value (fx_referenceTime s)"
    using assms f by (auto simp: s resolveFinding_def split: if_splits)
  ultimately show ?thesis
    by (auto simp: freezeRecord_def)
qed

definition sample_resolution :: ResolutionRecord where
  "sample_resolution =
     \<lparr>fx_finding = Object_Ref 1, fx_actorId = J_str ''ana'', fx_disposition = J_str ''dismissed'',
      fx_why = J_str ''reviewed'', fx_evidence = J_undefined,
      fx_referenceTime = J_str ''2026-07-01T10:00:00.25-05:00'', fx_candidateHash = J_str ''h''\<rparr>"

theorem findings_resolve_once_witness:
  "\<exists>r. resolveFinding 7 sample_guardian_report (Some sample_resolution) J_undefined = Applied r \<and>
     (\<nexists>r'. resolveFinding 8 sample_guardian_report (Some sample_resolution)
        (disposition_value (al_disposition r)) = Applied r')"
proof -
  have "resolveFinding 7 sample_guardian_report (Some sample_resolution) J_undefined =
      Applied (freezeRecord 7 (finding 1 Blocker Cat_Approval Single_Reviewer) Dismissed sample_resolution)"
    by code_simp
  from findings_resolve_once [OF this] this show ?thesis by blast
qed

end
