(* ===== verification/Adapters.thy ===== *)
theory Adapters
  imports Evidence External_Reconciliation
begin

text \<open>
  \<^verbatim>\<open>adapters/registry.ts\<close>, \<^verbatim>\<open>adapters/connector.ts\<close> and
  \<^verbatim>\<open>missions/idempotency.ts\<close>: the evidence adapters and their registry, the validators of
  the connector boundary and the idempotency keys. An adapter's capability is constant; its fetch is
  a function, \<open>None\<close> for a rejected promise. A connector's answer is an untyped value.
\<close>

section \<open>The registry\<close>

record AdapterCapability =
  ap_system :: js_string
  ap_jurisdiction :: js_string
  ap_evidenceTypes :: "js_string list"

record EvidenceFetchInput =
  ef_missionId :: js_string
  ef_ruc :: js_string
  ef_period :: js_string
  ef_requiredTypes :: "js_string list"

record AdapterResult =
  ax_items :: "js_value list"
  ax_missingRequired :: "js_string list"
  ax_complete :: bool

record EvidenceAdapter =
  ad_name :: js_string
  ad_capability :: AdapterCapability
  ad_fetch :: "EvidenceFetchInput \<Rightarrow> AdapterResult option"

type_synonym adapter_registry = "EvidenceAdapter list"

definition serves :: "js_string \<Rightarrow> js_string \<Rightarrow> EvidenceAdapter \<Rightarrow> bool" where
  "serves system jurisdiction a \<longleftrightarrow>
     ap_system (ad_capability a) = system \<and> ap_jurisdiction (ad_capability a) = jurisdiction"

text \<open>\<open>Inl\<close> is the error of a duplicate registration.\<close>

definition register_adapter :: "EvidenceAdapter \<Rightarrow> adapter_registry \<Rightarrow> AdapterCapability + adapter_registry" where
  "register_adapter adapter adapters =
     (let capability = ad_capability adapter
      in if list_ex (serves (ap_system capability) (ap_jurisdiction capability)) adapters then Inl capability
         else Inr (adapters @ [adapter]))"

definition resolve_adapter :: "js_string \<Rightarrow> js_string \<Rightarrow> adapter_registry \<Rightarrow> EvidenceAdapter option" where
  "resolve_adapter system jurisdiction adapters = find (serves system jurisdiction) adapters"

definition evidenceItem :: "js_lib \<Rightarrow> js_string \<Rightarrow> js_string \<Rightarrow> js_string \<Rightarrow> js_string \<Rightarrow> js_value" where
  "evidenceItem L label ty source capturedAt =
     (let content = json_stringify (lib_number L)
            (J_obj [(''label'', J_str label), (''type'', J_str ty), (''source'', J_str source),
                    (''capturedAt'', J_str capturedAt)])
      in J_obj [(''id'', J_str (lib_sha256 L content)), (''label'', J_str label), (''type'', J_str ty)])"

definition evidenceManifestHash :: "js_lib \<Rightarrow> js_value list \<Rightarrow> js_string" where
  "evidenceManifestHash L items = computeEvidenceHash L items"

definition missingTypes :: "js_value list \<Rightarrow> js_string list \<Rightarrow> js_string list" where
  "missingTypes items required =
     filter (\<lambda>ty. J_str ty \<notin> set (map (\<lambda>item. get_field item ''type'') items)) required"

section \<open>Idempotency keys\<close>

record IdempotencyOptions =
  io_scope :: "js_string option"
  io_action :: "js_string option"
  io_suffix :: "js_string option"

definition or_text :: "js_string option \<Rightarrow> js_string \<Rightarrow> js_string" where
  "or_text x d = (case x of None \<Rightarrow> d | Some s \<Rightarrow> s)"

text \<open>\<open>Date.now()\<close> and \<open>crypto.randomUUID()\<close> are the arguments \<open>now\<close> and \<open>uuid\<close>.\<close>

definition defaultIdempotencyKey :: "int \<Rightarrow> js_string \<Rightarrow> IdempotencyOptions option \<Rightarrow> js_string" where
  "defaultIdempotencyKey now uuid options =
     (let get = (\<lambda>f. case options of None \<Rightarrow> None | Some o' \<Rightarrow> f o');
          action = or_text (get io_action) ''op'';
          scope = or_text (get io_scope) ''global'';
          suffix = or_text (get io_suffix) (take 8 uuid)
      in action @ ''-'' @ scope @ ''-'' @ dec_int now @ ''-'' @ suffix)"

definition is_key_char :: "char \<Rightarrow> bool" where
  "is_key_char c \<longleftrightarrow>
     is_digit c \<or> 97 \<le> code_unit c \<and> code_unit c \<le> 122 \<or> 65 \<le> code_unit c \<and> code_unit c \<le> 90 \<or>
     c = CHR ''_'' \<or> c = CHR ''-''"

definition isValidIdempotencyKey :: "js_string \<Rightarrow> bool" where
  "isValidIdempotencyKey key \<longleftrightarrow>
     \<not> (key = [] \<or> length key < 8 \<or> 256 < length key) \<and> list_all is_key_char key"

section \<open>The connector boundary\<close>

datatype connector_error =
  INVALID_IDEMPOTENCY_KEY | ALREADY_EXECUTING | CONNECTOR_SCOPE_MISMATCH | UNDECLARED_SYSTEM
| UNDECLARED_JURISDICTION | UNDECLARED_OPERATION | UNVERIFIABLE_EVIDENCE | INVALID_STABLE_IDENTIFIER
| Connector_Tenant tenant_scope_error

record ConnectorCapability =
  cc_system :: js_string
  cc_jurisdiction :: js_string
  cc_operations :: "js_string list"

record ConnectorTarget =
  ct_system :: js_string
  ct_jurisdiction :: js_string
  ct_operation :: js_string

record 's ConnectorExecute =
  cq_missionId :: js_string
  cq_idempotencyKey :: js_string
  cq_command :: js_value
  cq_target :: ConnectorTarget
  cq_tenantScope :: 's

definition validateConnectorExecuteRequest ::
    "js_value ConnectorExecute \<Rightarrow> connector_error + TenantScope ConnectorExecute" where
  "validateConnectorExecuteRequest request =
     (if length (js_trim (cq_missionId request)) = 0 then Inl INVALID_IDEMPOTENCY_KEY
      else if \<not> isValidIdempotencyKey (cq_idempotencyKey request) then Inl INVALID_IDEMPOTENCY_KEY
      else (case validateTenantScope (cq_tenantScope request) of
              Inl e \<Rightarrow> Inl (Connector_Tenant e)
            | Inr tenantScope \<Rightarrow>
                Inr \<lparr>cq_missionId = cq_missionId request, cq_idempotencyKey = cq_idempotencyKey request,
                     cq_command = cq_command request, cq_target = cq_target request,
                     cq_tenantScope = tenantScope\<rparr>))"

definition assertConnectorAuthority :: "ConnectorCapability \<Rightarrow> ConnectorTarget \<Rightarrow> connector_error option" where
  "assertConnectorAuthority capability target =
     (if cc_system capability \<noteq> ct_system target then Some UNDECLARED_SYSTEM
      else if cc_jurisdiction capability \<noteq> ct_jurisdiction target then Some UNDECLARED_JURISDICTION
      else if ct_operation target \<notin> set (cc_operations capability) then Some UNDECLARED_OPERATION
      else None)"

definition assertSameConnectorScope :: "TenantScope \<Rightarrow> TenantScope \<Rightarrow> connector_error option" where
  "assertSameConnectorScope expected actual =
     (if \<not> sameTenantScope expected actual then Some CONNECTOR_SCOPE_MISMATCH else None)"

definition isExternalEvidenceShape :: "js_value \<Rightarrow> bool" where
  "isExternalEvidenceShape value \<longleftrightarrow>
     isRecord value \<and>
     list_all (\<lambda>k. isString (get_field value k)) [''identifier'', ''state'', ''provenance'', ''moment'', ''responseHash'']"

definition evidence_of_value :: "js_value \<Rightarrow> ExternalEvidence" where
  "evidence_of_value v =
     \<lparr>xe_identifier = str_field v ''identifier'', xe_state = str_field v ''state'',
      xe_provenance = str_field v ''provenance'', xe_moment = str_field v ''moment'',
      xe_responseHash = str_field v ''responseHash''\<rparr>"

text \<open>The answer is an object; a null or undefined answer would throw a \<open>TypeError\<close> at its \<open>kind\<close>.\<close>

definition assertConnectorResult :: "js_value \<Rightarrow> connector_error option" where
  "assertConnectorResult result =
     (if get_field result ''kind'' = J_str ''SUCCESS''
      then (let evidence = get_field result ''evidence''
            in if \<not> isExternalEvidenceShape evidence \<or> \<not> isVerifiableEvidence (evidence_of_value evidence)
               then Some UNVERIFIABLE_EVIDENCE else None)
      else if get_field result ''kind'' \<noteq> J_str ''UNKNOWN'' \<or>
              \<not> isString (get_field result ''stableIdentifier'') \<or>
              length (js_trim (str_field result ''stableIdentifier'')) = 0
      then Some INVALID_STABLE_IDENTIFIER else None)"

lemmas adapter_defs = serves_def register_adapter_def resolve_adapter_def evidenceItem_def
  evidenceManifestHash_def missingTypes_def or_text_def defaultIdempotencyKey_def is_key_char_def
  isValidIdempotencyKey_def validateConnectorExecuteRequest_def assertConnectorAuthority_def
  assertSameConnectorScope_def isExternalEvidenceShape_def evidence_of_value_def assertConnectorResult_def

declare adapter_defs [code_defs]

section \<open>Properties\<close>

text \<open>A registry built by registrations.\<close>

inductive registry :: "adapter_registry \<Rightarrow> bool" where
  empty: "registry []"
| register: "registry adapters \<Longrightarrow> register_adapter a adapters = Inr adapters' \<Longrightarrow> registry adapters'"

definition capability_key :: "EvidenceAdapter \<Rightarrow> js_string \<times> js_string" where
  "capability_key a = (ap_system (ad_capability a), ap_jurisdiction (ad_capability a))"

lemma serves_key: "serves s j a \<longleftrightarrow> capability_key a = (s, j)"
  by (simp add: serves_def capability_key_def)

lemma registry_distinct: "registry adapters \<Longrightarrow> distinct (map capability_key adapters)"
proof (induction rule: registry.induct)
  case (register adapters a adapters')
  then show ?case
    by (fastforce simp: register_adapter_def Let_def list_ex_iff serves_key capability_key_def split: if_splits)
qed simp

text \<open>
  In a registry built by registrations at most one adapter serves a system and jurisdiction, and
  resolving finds an adapter exactly when it is registered for them.
\<close>

theorem registry_resolves_the_one_adapter:
  assumes "registry adapters"
  shows "distinct (map capability_key adapters) \<and>
    (resolve_adapter s j adapters = Some a) = (a \<in> set adapters \<and> capability_key a = (s, j))"
proof -
  have d: "distinct (map capability_key adapters)" using registry_distinct [OF assms] .
  have "resolve_adapter s j adapters = Some a \<longleftrightarrow> a \<in> set adapters \<and> capability_key a = (s, j)"
    using d unfolding resolve_adapter_def by (induction adapters) (force simp: serves_key)+
  with d show ?thesis by blast
qed

definition sample_adapter :: "js_string \<Rightarrow> EvidenceAdapter" where
  "sample_adapter system =
     \<lparr>ad_name = system,
      ad_capability = \<lparr>ap_system = system, ap_jurisdiction = ''PE'', ap_evidenceTypes = [system]\<rparr>,
      ad_fetch = (\<lambda>i. Some \<lparr>ax_items = [J_obj [(''type'', J_str system)]], ax_missingRequired = [], ax_complete = True\<rparr>)\<rparr>"

theorem registry_resolves_the_one_adapter_witness:
  "resolve_adapter ''sire'' ''PE'' [sample_adapter ''bank'', sample_adapter ''sire''] = Some (sample_adapter ''sire'')"
proof -
  have "registry [sample_adapter ''bank'']"
    by (rule registry.register [OF registry.empty]) (simp add: register_adapter_def)
  then have "registry [sample_adapter ''bank'', sample_adapter ''sire'']"
    by (rule registry.register [of _ "sample_adapter ''sire''"])
      (simp add: register_adapter_def serves_def sample_adapter_def)
  from registry_resolves_the_one_adapter [OF this] show ?thesis
    by (simp add: capability_key_def sample_adapter_def)
qed

text \<open>The connector boundary lets through exactly: a request of a named mission under a key of 8 to
  256 letters, digits, dashes and underscores and a valid tenant scope; a target that is declared; and
  an answer that is a success with verifiable evidence or an unknown outcome with an identifier.
\<close>

theorem connector_guards_are_exact:
  "(\<exists>i. validateConnectorExecuteRequest r = Inr i) =
     (js_trim (cq_missionId r) \<noteq> [] \<and> 8 \<le> length (cq_idempotencyKey r) \<and> length (cq_idempotencyKey r) \<le> 256 \<and>
      list_all is_key_char (cq_idempotencyKey r) \<and> (\<exists>s. validateTenantScope (cq_tenantScope r) = Inr s)) \<and>
   (assertConnectorAuthority c t = None) =
     ((cc_system c, cc_jurisdiction c) = (ct_system t, ct_jurisdiction t) \<and> ct_operation t \<in> set (cc_operations c)) \<and>
   (assertConnectorResult v = None) =
     (get_field v ''kind'' = J_str ''SUCCESS'' \<and> isExternalEvidenceShape (get_field v ''evidence'') \<and>
        isVerifiableEvidence (evidence_of_value (get_field v ''evidence'')) \<or>
      get_field v ''kind'' = J_str ''UNKNOWN'' \<and>
        (\<exists>s. get_field v ''stableIdentifier'' = J_str s \<and> js_trim s \<noteq> []))"
proof -
  have "8 \<le> length (cq_idempotencyKey r) \<Longrightarrow> cq_idempotencyKey r \<noteq> []" by auto
  then have "(\<exists>i. validateConnectorExecuteRequest r = Inr i) =
     (js_trim (cq_missionId r) \<noteq> [] \<and> 8 \<le> length (cq_idempotencyKey r) \<and> length (cq_idempotencyKey r) \<le> 256 \<and>
      list_all is_key_char (cq_idempotencyKey r) \<and> (\<exists>s. validateTenantScope (cq_tenantScope r) = Inr s))"
    by (auto simp: validateConnectorExecuteRequest_def isValidIdempotencyKey_def split: sum.splits)
  moreover have "(assertConnectorAuthority c t = None) =
     ((cc_system c, cc_jurisdiction c) = (ct_system t, ct_jurisdiction t) \<and> ct_operation t \<in> set (cc_operations c))"
    by (simp add: assertConnectorAuthority_def)
  moreover have "(assertConnectorResult v = None) =
     (get_field v ''kind'' = J_str ''SUCCESS'' \<and> isExternalEvidenceShape (get_field v ''evidence'') \<and>
        isVerifiableEvidence (evidence_of_value (get_field v ''evidence'')) \<or>
      get_field v ''kind'' = J_str ''UNKNOWN'' \<and>
        (\<exists>s. get_field v ''stableIdentifier'' = J_str s \<and> js_trim s \<noteq> []))"
    by (cases "get_field v ''stableIdentifier''") (auto simp: assertConnectorResult_def Let_def str_field_def)
  ultimately show ?thesis by blast
qed

end
