(* ===== verification/Flow_Close.thy ===== *)
theory Flow_Close
  imports Flow_Wiring Guardian Adapters Receipts Ledger
begin

text \<open>
  \<^verbatim>\<open>flow/close.ts\<close>: the monthly close, from preflight to package. SHA-256 of bytes is
  \<open>H\<close>, the other library calls those of \<open>js_lib\<close>, Ed25519 is \<open>ed\<close>. The clock is a function of the
  number of reads so far; it and the Guardian's counter are threaded through. The close signs a
  content of its own, not a \<open>ReceiptContent\<close> (the code casts it), so a receipt of the close keeps the
  list of its fields. A rejected fetch, a \<open>SyntaxError\<close> and a lifecycle error reject the call.
\<close>

section \<open>Input and package\<close>

definition REQUIRED_EVIDENCE_SYSTEMS :: "js_string list" where
  "REQUIRED_EVIDENCE_SYSTEMS = [''vouchers'', ''registers'', ''sire'', ''bank-statements'']"

record MonthlyCloseInput =
  mo_scope :: CloseScope
  mo_adapters :: adapter_registry
  mo_keyPair :: ReceiptKeyPair
  mo_skillId :: js_string
  mo_skillVersion :: js_string
  mo_ledgerManifest :: LedgerManifest
  mo_ledgerEntries :: "LedgerEntry list"
  mo_proposals :: "ReconciliationProposal list option"
  mo_bankRows :: "RawRow list option"
  mo_ledgerRows :: "RawRow list option"
  mo_closeInputs :: "CloseEngineInputs option"

datatype CloseStatus = Preflight_Failed | Waiting_For_Evidence | Complete

datatype close_risk =
  Invalid_Ruc_Risk js_string | Invalid_Period_Risk js_string | Missing_Evidence_Risk "js_string list"
| Wiring_Risk wiring_risk | Candidate_Blocked js_string "guardian_description list"

record CloseReceipt =
  kr_protocolVersion :: js_string
  kr_receiptType :: receipt_type
  kr_content :: "(js_string \<times> js_value) list"
  kr_receiptHash :: js_string
  kr_signerKeyId :: js_string
  kr_signerPublicKey :: js_string
  kr_signature :: js_string
  kr_issuedAt :: js_string

record ClosePackage =
  pk_status :: CloseStatus
  pk_scope :: CloseScope
  pk_sourcesUsed :: "js_string list"
  pk_sourcesMissing :: "js_string list"
  pk_candidates :: "Candidate list"
  pk_guardianReports :: "GuardianReport list"
  pk_receipts :: "CloseReceipt list"
  pk_ledgerValid :: bool
  pk_risks :: "close_risk list"

datatype close_exn = Fetch_Rejected js_string | Amount_Syntax_Error js_string | Lifecycle_Error candidate_error

section \<open>Evidence\<close>

definition fetch_input :: "CloseScope \<Rightarrow> js_string \<Rightarrow> EvidenceFetchInput" where
  "fetch_input scope system =
     \<lparr>ef_missionId = ''close-'' @ zs_ruc scope @ ''-'' @ zs_period scope, ef_ruc = zs_ruc scope,
      ef_period = zs_period scope, ef_requiredTypes = [system]\<rparr>"

definition fetch_system :: "CloseScope \<Rightarrow> adapter_registry \<Rightarrow> js_string \<Rightarrow> close_exn + bool" where
  "fetch_system scope adapters system =
     (case resolve_adapter system ''PE'' adapters of
        None \<Rightarrow> Inr False
      | Some adapter \<Rightarrow>
          (case ad_fetch adapter (fetch_input scope system) of
             None \<Rightarrow> Inl (Fetch_Rejected system)
           | Some result \<Rightarrow> Inr (ax_complete result \<and> 0 < length (ax_items result))))"

fun collect_evidence ::
    "CloseScope \<Rightarrow> adapter_registry \<Rightarrow> js_string list \<Rightarrow> js_string list \<times> js_string list \<Rightarrow>
     close_exn + js_string list \<times> js_string list" where
  "collect_evidence scope adapters [] acc = Inr acc"
| "collect_evidence scope adapters (system # systems) (sourcesUsed, sourcesMissing) =
     (case fetch_system scope adapters system of
        Inl e \<Rightarrow> Inl e
      | Inr True \<Rightarrow> collect_evidence scope adapters systems (sourcesUsed @ [system], sourcesMissing)
      | Inr False \<Rightarrow> collect_evidence scope adapters systems (sourcesUsed, sourcesMissing @ [system]))"

section \<open>Candidates\<close>

definition generated_proposals :: "js_lib \<Rightarrow> MonthlyCloseInput \<Rightarrow> wired" where
  "generated_proposals L input =
     (let reconciliation =
            (case (mo_bankRows input, mo_ledgerRows input) of
               (Some bankRows, Some ledgerRows) \<Rightarrow>
                 reconciliationToProposals (lib_number L) (lib_compare L) (mo_scope input) bankRows ledgerRows
                   default_options
             | _ \<Rightarrow> ([], []));
          close = (case mo_closeInputs input of
                     None \<Rightarrow> ([], [])
                   | Some inputs \<Rightarrow> closeEntriesToProposals (lib_number L) (mo_scope input) inputs)
      in (fst reconciliation @ fst close, snd reconciliation @ snd close))"

record close_work =
  wk_candidates :: "Candidate list"
  wk_reports :: "GuardianReport list"
  wk_receipts :: "CloseReceipt list"
  wk_risks :: "close_risk list"
  wk_findingSeq :: nat
  wk_reads :: nat

definition close_content :: "MonthlyCloseInput \<Rightarrow> Candidate \<Rightarrow> js_string \<Rightarrow> (js_string \<times> js_value) list" where
  "close_content input candidate timestamp =
     [(''action'', J_str ''approve-candidate''), (''actor'', J_str ''professional''),
      (''ruc'', J_str (zs_ruc (mo_scope input))), (''period'', J_str (zs_period (mo_scope input))),
      (''resource'', J_str (''candidate/'' @ ca_id candidate)), (''beforeState'', J_str ''reviewing''),
      (''afterState'', J_str ''accepted''), (''timestamp'', J_str timestamp), (''version'', J_num (Fin 1)),
      (''skill'', J_obj [(''id'', J_str (mo_skillId input)), (''version'', J_str (mo_skillVersion input))])]"

text \<open>\<open>buildSignedReceipt\<close> of \<^verbatim>\<open>receipts/sign.ts\<close> on such a content.\<close>

definition sign_content ::
    "js_lib \<Rightarrow> ed25519 \<Rightarrow> js_string \<Rightarrow> (js_string \<times> js_value) list \<Rightarrow> ReceiptKeyPair \<Rightarrow> CloseReceipt" where
  "sign_content L ed now content keyPair =
     (let payload = sortedStringify (lib_number L) content
      in \<lparr>kr_protocolVersion = ''1.0'', kr_receiptType = Receipts.APPROVAL, kr_content = content,
          kr_receiptHash = lib_sha256 L payload, kr_signerKeyId = kp_keyId keyPair,
          kr_signerPublicKey = kp_publicKey keyPair,
          kr_signature = ed_sign ed payload (kp_privateKey keyPair), kr_issuedAt = now\<rparr>)"

text \<open>\<open>verifySignedReceipt\<close> of \<^verbatim>\<open>receipts/verify.ts\<close> on the content the close signs.\<close>

definition verifyCloseReceipt :: "js_lib \<Rightarrow> ed25519 \<Rightarrow> CloseReceipt \<Rightarrow> bool" where
  "verifyCloseReceipt L ed r =
     (let payload = sortedStringify (lib_number L) (kr_content r);
          computedBuf = hex_buffer (lib_sha256 L payload);
          assertedBuf = hex_buffer (kr_receiptHash r)
      in (if length computedBuf \<noteq> length assertedBuf then False else computedBuf = assertedBuf) \<and>
         ed_verify ed payload (kr_signerPublicKey r) (kr_signature r))"

definition process_proposal ::
    "js_lib \<Rightarrow> byte_hash \<Rightarrow> ed25519 \<Rightarrow> (nat \<Rightarrow> js_string) \<Rightarrow> MonthlyCloseInput \<Rightarrow> ReconciliationProposal \<Rightarrow>
     close_work \<Rightarrow> close_exn + close_work" where
  "process_proposal L H ed clock input proposal s =
     (case js_bigint (rp_amountCents proposal) of
        None \<Rightarrow> Inl (Amount_Syntax_Error (rp_amountCents proposal))
      | Some value \<Rightarrow>
          (case propose H (clock (wk_reads s))
                  \<lparr>pi_subject = Text (rp_subject proposal),
                   pi_scope = \<lparr>cs_ruc = zs_ruc (mo_scope input), cs_period = zs_period (mo_scope input)\<rparr>,
                   pi_materialityInput = \<lparr>mi_value = value, mi_reversibility = rp_reversibility proposal,
                                          mi_jurisdiction = ''PE''\<rparr>\<rparr> of
             Inl e \<Rightarrow> Inl (Lifecycle_Error e)
           | Inr candidate \<Rightarrow>
               (case runGuardianReview (clock (wk_reads s + 1)) None candidate (wk_findingSeq s) of
                  (report, seq) \<Rightarrow>
                    (let s' = s\<lparr>wk_candidates := wk_candidates s @ [candidate],
                                wk_reports := wk_reports s @ [report],
                                wk_findingSeq := seq, wk_reads := wk_reads s + 2\<rparr>;
                         blockers = filter (\<lambda>f. gf_severity f = Blocker) (gr_findings report)
                     in if 0 < length blockers
                        then Inr (s'\<lparr>wk_risks := wk_risks s' @
                               [Candidate_Blocked (ca_id candidate) (map gf_description blockers)]\<rparr>)
                        else
                          (let receipt = sign_content L ed (clock (wk_reads s + 3))
                                 (close_content input candidate (clock (wk_reads s + 2))) (mo_keyPair input)
                           in Inr (s'\<lparr>wk_receipts := wk_receipts s' @ [receipt], wk_reads := wk_reads s + 4\<rparr>))))))"

fun process_proposals ::
    "js_lib \<Rightarrow> byte_hash \<Rightarrow> ed25519 \<Rightarrow> (nat \<Rightarrow> js_string) \<Rightarrow> MonthlyCloseInput \<Rightarrow> ReconciliationProposal list \<Rightarrow>
     close_work \<Rightarrow> close_exn + close_work" where
  "process_proposals L H ed clock input [] s = Inr s"
| "process_proposals L H ed clock input (p # ps) s =
     (case process_proposal L H ed clock input p s of
        Inl e \<Rightarrow> Inl e | Inr s' \<Rightarrow> process_proposals L H ed clock input ps s')"

section \<open>The close\<close>

definition close_fail :: "close_risk \<Rightarrow> CloseScope \<Rightarrow> ClosePackage" where
  "close_fail reason scope =
     \<lparr>pk_status = Preflight_Failed, pk_scope = scope, pk_sourcesUsed = [], pk_sourcesMissing = [],
      pk_candidates = [], pk_guardianReports = [], pk_receipts = [], pk_ledgerValid = False,
      pk_risks = [reason]\<rparr>"

definition close_start :: "wiring_risk list \<Rightarrow> nat \<Rightarrow> nat \<Rightarrow> close_work" where
  "close_start risks seq reads' =
     \<lparr>wk_candidates = [], wk_reports = [], wk_receipts = [], wk_risks = map Wiring_Risk risks,
      wk_findingSeq = seq, wk_reads = reads'\<rparr>"

definition runMonthlyClose ::
    "js_lib \<Rightarrow> byte_hash \<Rightarrow> ed25519 \<Rightarrow> (nat \<Rightarrow> js_string) \<Rightarrow> MonthlyCloseInput \<Rightarrow> nat \<Rightarrow> close_exn + ClosePackage" where
  "runMonthlyClose L H ed clock input seq =
     (let scope = mo_scope input
      in if \<not> isValidRucChecksummed (zs_ruc scope) then Inr (close_fail (Invalid_Ruc_Risk (zs_ruc scope)) scope)
         else if \<not> isValidPeriod (zs_period scope)
         then Inr (close_fail (Invalid_Period_Risk (zs_period scope)) scope)
         else (case collect_evidence scope (mo_adapters input) REQUIRED_EVIDENCE_SYSTEMS ([], []) of
                 Inl e \<Rightarrow> Inl e
               | Inr (sourcesUsed, sourcesMissing) \<Rightarrow>
                   if 0 < length sourcesMissing
                   then Inr \<lparr>pk_status = Waiting_For_Evidence, pk_scope = scope, pk_sourcesUsed = sourcesUsed,
                             pk_sourcesMissing = sourcesMissing, pk_candidates = [], pk_guardianReports = [],
                             pk_receipts = [], pk_ledgerValid = False,
                             pk_risks = [Missing_Evidence_Risk sourcesMissing]\<rparr>
                   else
                     (let generated = generated_proposals L input;
                          allProposals = (case mo_proposals input of None \<Rightarrow> [] | Some ps \<Rightarrow> ps) @ fst generated
                      in case process_proposals L H ed clock input allProposals (close_start (snd generated) seq 0) of
                           Inl e \<Rightarrow> Inl e
                         | Inr s \<Rightarrow>
                             Inr \<lparr>pk_status = Complete, pk_scope = scope, pk_sourcesUsed = sourcesUsed,
                                  pk_sourcesMissing = sourcesMissing, pk_candidates = wk_candidates s,
                                  pk_guardianReports = wk_reports s, pk_receipts = wk_receipts s,
                                  pk_ledgerValid = lv_valid (validateLedger (mo_ledgerManifest input) (mo_ledgerEntries input)),
                                  pk_risks = wk_risks s\<rparr>)))"

lemmas flow_defs = REQUIRED_EVIDENCE_SYSTEMS_def fetch_input_def fetch_system_def generated_proposals_def
  close_content_def sign_content_def process_proposal_def close_fail_def close_start_def runMonthlyClose_def

declare flow_defs [code_defs]

section \<open>The status of a close\<close>

definition available :: "CloseScope \<Rightarrow> adapter_registry \<Rightarrow> js_string \<Rightarrow> bool" where
  "available scope adapters system \<longleftrightarrow> fetch_system scope adapters system = Inr True"

lemma collect_evidence_Inr:
  "collect_evidence scope adapters systems (u, m) = Inr acc \<Longrightarrow>
     acc = (u @ filter (available scope adapters) systems, m @ filter (\<lambda>s. \<not> available scope adapters s) systems)"
proof (induction systems arbitrary: u m)
  case (Cons system systems)
  show ?case
  proof (cases "fetch_system scope adapters system")
    case (Inr b)
    with Cons.prems Cons.IH [of "u @ [system]" m] Cons.IH [of u "m @ [system]"] show ?thesis
      by (cases b) (simp_all add: available_def)
  qed (use Cons.prems in simp)
qed simp

definition preflight_ok :: "CloseScope \<Rightarrow> bool" where
  "preflight_ok scope \<longleftrightarrow> isValidRucChecksummed (zs_ruc scope) \<and> isValidPeriod (zs_period scope)"

definition missing_systems :: "MonthlyCloseInput \<Rightarrow> js_string list" where
  "missing_systems input =
     filter (\<lambda>s. \<not> available (mo_scope input) (mo_adapters input) s) REQUIRED_EVIDENCE_SYSTEMS"

text \<open>A close that returns has the status its scope and its sources give it: preflight fails exactly on
  a RUC without checksum or a period without six digits, the close waits exactly when one of the four
  required systems did not deliver complete and non-empty evidence, and names those missing; unless it
  is complete it stages no candidate, signs no receipt and claims no valid ledger.
\<close>

theorem close_status_is_exact:
  assumes "runMonthlyClose L H ed clock input seq = Inr package"
  shows "pk_status package =
      (if \<not> preflight_ok (mo_scope input) then Preflight_Failed
       else if missing_systems input = [] then Complete else Waiting_For_Evidence) \<and>
    pk_sourcesMissing package = (if preflight_ok (mo_scope input) then missing_systems input else []) \<and>
    (pk_status package = Complete \<or>
      pk_candidates package = [] \<and> pk_receipts package = [] \<and> \<not> pk_ledgerValid package)"
proof (cases "collect_evidence (mo_scope input) (mo_adapters input) REQUIRED_EVIDENCE_SYSTEMS ([], [])")
  case (Inl e)
  with assms show ?thesis
    by (auto simp: runMonthlyClose_def close_fail_def preflight_ok_def Let_def split: if_splits)
next
  case (Inr acc)
  with collect_evidence_Inr [OF this] assms show ?thesis
    by (auto simp: runMonthlyClose_def close_fail_def preflight_ok_def missing_systems_def Let_def
        split: if_splits sum.splits)
qed

section \<open>Candidates and receipts\<close>

definition digest :: "byte_hash \<Rightarrow> bool" where
  "digest H \<longleftrightarrow> (\<forall>b. length (H b) = 64)"

definition staged_from :: "byte_hash \<Rightarrow> CloseScope \<Rightarrow> ReconciliationProposal \<Rightarrow> Candidate \<Rightarrow> bool" where
  "staged_from H scope p c \<longleftrightarrow>
     ca_status c = Proposed \<and> ca_reviews c = [] \<and>
     ca_scope c = \<lparr>cs_ruc = zs_ruc scope, cs_period = zs_period scope\<rparr> \<and>
     ca_subjectHash c = computeSubjectHash H (Text (rp_subject p)) \<and>
     ca_id c = candidateIdentity (ca_subjectHash c) (ca_scope c) \<and>
     (case js_bigint (rp_amountCents p) of
        None \<Rightarrow> False
      | Some v \<Rightarrow> ca_materiality c = deriveMateriality
          \<lparr>mi_value = v, mi_reversibility = rp_reversibility p, mi_jurisdiction = ''PE''\<rparr>)"

definition resource_of :: "CloseReceipt \<Rightarrow> js_value option" where
  "resource_of r = map_of (kr_content r) ''resource''"

definition claims_acceptance :: "CloseReceipt \<Rightarrow> bool" where
  "claims_acceptance r \<longleftrightarrow>
     map_of (kr_content r) ''beforeState'' = Some (J_str ''reviewing'') \<and>
     map_of (kr_content r) ''afterState'' = Some (J_str ''accepted'') \<and>
     map_of (kr_content r) ''actor'' = Some (J_str ''professional'')"

text \<open>What the close signs with its key.\<close>

definition signed_claim :: "js_lib \<Rightarrow> ed25519 \<Rightarrow> ReceiptKeyPair \<Rightarrow> CloseReceipt \<Rightarrow> bool" where
  "signed_claim L ed keyPair r \<longleftrightarrow>
     claims_acceptance r \<and> r = sign_content L ed (kr_issuedAt r) (kr_content r) keyPair"

lemma signed_claim_verifies:
  assumes "\<And>p. ed_verify ed p (kp_publicKey keyPair) (ed_sign ed p (kp_privateKey keyPair))"
    and "signed_claim L ed keyPair r"
  shows "claims_acceptance r \<and> verifyCloseReceipt L ed r"
proof -
  have "verifyCloseReceipt L ed (sign_content L ed now content keyPair)" for now content
    using assms(1) by (simp add: verifyCloseReceipt_def sign_content_def Let_def)
  with assms(2) show ?thesis unfolding signed_claim_def by metis
qed

definition blocked_risk :: "Candidate \<Rightarrow> close_risk" where
  "blocked_risk c = Candidate_Blocked (ca_id c) [Few_Acceptances 0]"

lemma fresh_blockers:
  assumes "isValidRucChecksummed (cs_ruc (ca_scope c))" and "isValidPeriod (cs_period (ca_scope c))"
    and "length (ca_subjectHash c) = 64" and "ca_reviews c = []"
  shows "map gf_description (filter (\<lambda>f. gf_severity f = Blocker) (gr_findings (fst (runGuardianReview now None c seq)))) =
    (if ca_materiality c < R3 then [] else [Few_Acceptances 0])"
proof -
  have "ca_subjectHash c \<noteq> []" using assms(3) by auto
  with assms show ?thesis
    by (cases "ca_materiality c")
      (simp_all add: runGuardianReview_def collect_findings_def check_approvals_def push_if_def TIERS_def
        acceptances_def finding_def js_sort_def less_materiality_def)
qed

lemma process_proposal_Inr:
  assumes "digest H" and "isValidRucChecksummed (zs_ruc (mo_scope input))"
    and "process_proposal L H ed clock input p s = Inr s'"
  shows "\<exists>c rs. staged_from H (mo_scope input) p c \<and> wk_candidates s' = wk_candidates s @ [c] \<and>
    wk_receipts s' = wk_receipts s @ rs \<and> list_all (signed_claim L ed (mo_keyPair input)) rs \<and>
    map resource_of rs =
      map (\<lambda>c. Some (J_str (''candidate/'' @ ca_id c))) (filter (\<lambda>c. ca_materiality c < R3) [c]) \<and>
    wk_risks s' = wk_risks s @ map blocked_risk (filter (\<lambda>c. \<not> ca_materiality c < R3) [c])"
proof -
  obtain v where v: "js_bigint (rp_amountCents p) = Some v"
    using assms(3) by (auto simp: process_proposal_def split: option.splits)
  obtain c where c: "propose H (clock (wk_reads s))
        \<lparr>pi_subject = Text (rp_subject p),
         pi_scope = \<lparr>cs_ruc = zs_ruc (mo_scope input), cs_period = zs_period (mo_scope input)\<rparr>,
         pi_materialityInput = \<lparr>mi_value = v, mi_reversibility = rp_reversibility p, mi_jurisdiction = ''PE''\<rparr>\<rparr> = Inr c"
    using assms(3) by (auto simp: process_proposal_def v split: sum.splits)
  then have fresh: "staged_from H (mo_scope input) p c" and "isValidPeriod (cs_period (ca_scope c))"
    and "length (ca_subjectHash c) = 64"
    using assms(1) v by (auto simp: propose_def staged_from_def isValidScope_def digest_def computeSubjectHash_def
        Let_def split: if_splits)
  obtain report seq where g: "runGuardianReview (clock (wk_reads s + 1)) None c (wk_findingSeq s) = (report, seq)"
    by fastforce
  let ?b = "filter (\<lambda>f. gf_severity f = Blocker) (gr_findings report)"
  have b: "map gf_description ?b = (if ca_materiality c < R3 then [] else [Few_Acceptances 0])"
    using fresh_blockers [of c "clock (wk_reads s + 1)" "wk_findingSeq s"] fresh assms(2)
      \<open>isValidPeriod (cs_period (ca_scope c))\<close> \<open>length (ca_subjectHash c) = 64\<close> g
    by (simp add: staged_from_def)
  then have e: "?b = [] \<longleftrightarrow> ca_materiality c < R3" by (metis list.map_disc_iff list.distinct(1))
  show ?thesis
  proof (cases "ca_materiality c < R3")
    case True
    with e have "?b = []" by simp
    with assms(3) v c g fresh True show ?thesis
      by (auto simp: process_proposal_def sign_content_def close_content_def resource_of_def signed_claim_def
          claims_acceptance_def Let_def)
  next
    case False
    with e have "0 < length ?b" by simp
    with assms(3) v c g fresh False b show ?thesis
      by (auto simp: process_proposal_def blocked_risk_def Let_def)
  qed
qed

lemma process_proposals_Inr:
  assumes "digest H" and "isValidRucChecksummed (zs_ruc (mo_scope input))"
    and "process_proposals L H ed clock input ps s = Inr s'"
  shows "\<exists>cs rs. list_all2 (staged_from H (mo_scope input)) ps cs \<and> wk_candidates s' = wk_candidates s @ cs \<and>
    wk_receipts s' = wk_receipts s @ rs \<and> list_all (signed_claim L ed (mo_keyPair input)) rs \<and>
    map resource_of rs =
      map (\<lambda>c. Some (J_str (''candidate/'' @ ca_id c))) (filter (\<lambda>c. ca_materiality c < R3) cs) \<and>
    wk_risks s' = wk_risks s @ map blocked_risk (filter (\<lambda>c. \<not> ca_materiality c < R3) cs)"
  using assms(3)
proof (induction ps arbitrary: s)
  case (Cons p ps)
  then obtain t where t: "process_proposal L H ed clock input p s = Inr t"
    and rest: "process_proposals L H ed clock input ps t = Inr s'"
    by (auto split: sum.splits)
  obtain c rs where 1: "staged_from H (mo_scope input) p c" "wk_candidates t = wk_candidates s @ [c]"
    "wk_receipts t = wk_receipts s @ rs" "list_all (signed_claim L ed (mo_keyPair input)) rs"
    "map resource_of rs = map (\<lambda>c. Some (J_str (''candidate/'' @ ca_id c))) (filter (\<lambda>c. ca_materiality c < R3) [c])"
    "wk_risks t = wk_risks s @ map blocked_risk (filter (\<lambda>c. \<not> ca_materiality c < R3) [c])"
    using process_proposal_Inr [OF assms(1, 2) t] by blast
  obtain cs rs' where 2: "list_all2 (staged_from H (mo_scope input)) ps cs" "wk_candidates s' = wk_candidates t @ cs"
    "wk_receipts s' = wk_receipts t @ rs'" "list_all (signed_claim L ed (mo_keyPair input)) rs'"
    "map resource_of rs' = map (\<lambda>c. Some (J_str (''candidate/'' @ ca_id c))) (filter (\<lambda>c. ca_materiality c < R3) cs)"
    "wk_risks s' = wk_risks t @ map blocked_risk (filter (\<lambda>c. \<not> ca_materiality c < R3) cs)"
    using Cons.IH [OF rest] by blast
  show ?case
    by (rule exI [of _ "c # cs"], rule exI [of _ "rs @ rs'"]) (use 1 2 in auto)
qed simp

text \<open>C23: A complete close stages one candidate for each proposal in order, the given ones first and then
  the generated ones, with the exact amount and subject; none of them is inspected or reviewed. It
  signs a receipt for exactly those below R3, and each of these receipts verifies, if its key pair
  verifies what it signs, and states that the professional took the candidate from reviewing to
  accepted; every R3 candidate is reported blocked for want of acceptances, and only these add to the
  risks of the wiring.
\<close>

theorem close_receipts_claim_acceptance:
  assumes "runMonthlyClose L H ed clock input seq = Inr package" and "pk_status package = Complete" and "digest H"
    and "\<And>p. ed_verify ed p (kp_publicKey (mo_keyPair input)) (ed_sign ed p (kp_privateKey (mo_keyPair input)))"
  shows "list_all2 (staged_from H (mo_scope input))
      ((case mo_proposals input of None \<Rightarrow> [] | Some ps \<Rightarrow> ps) @ fst (generated_proposals L input))
      (pk_candidates package) \<and>
    map resource_of (pk_receipts package) =
      map (\<lambda>c. Some (J_str (''candidate/'' @ ca_id c))) (filter (\<lambda>c. ca_materiality c < R3) (pk_candidates package)) \<and>
    list_all claims_acceptance (pk_receipts package) \<and>
    list_all (verifyCloseReceipt L ed) (pk_receipts package) \<and>
    pk_risks package = map Wiring_Risk (snd (generated_proposals L input)) @
      map blocked_risk (filter (\<lambda>c. \<not> ca_materiality c < R3) (pk_candidates package))"
proof -
  let ?ps = "(case mo_proposals input of None \<Rightarrow> [] | Some ps \<Rightarrow> ps) @ fst (generated_proposals L input)"
  have ruc: "isValidRucChecksummed (zs_ruc (mo_scope input))"
    using assms(1, 2) by (auto simp: runMonthlyClose_def close_fail_def Let_def split: if_splits)
  obtain s where s: "process_proposals L H ed clock input ?ps
      (close_start (snd (generated_proposals L input)) seq 0) = Inr s"
    and "pk_candidates package = wk_candidates s" and "pk_receipts package = wk_receipts s"
    and "pk_risks package = wk_risks s"
    using assms(1, 2)
    by (auto simp: runMonthlyClose_def close_fail_def Let_def split: if_splits sum.splits)
  with process_proposals_Inr [OF assms(3) ruc s] signed_claim_verifies [OF assms(4)] show ?thesis
    by (auto simp: close_start_def list_all_iff)
qed

definition sample_manifest' :: LedgerManifest where
  "sample_manifest' =
     \<lparr>lm_ledgerId = [], lm_protocolVersion = [], lm_trustRoot = [], lm_jurisdiction = [], lm_createdAt = [],
      lm_signingRequired = False, lm_signingKeyIds = []\<rparr>"

definition sample_close :: MonthlyCloseInput where
  "sample_close =
     \<lparr>mo_scope = sample_wiring_scope, mo_adapters = map sample_adapter REQUIRED_EVIDENCE_SYSTEMS,
      mo_keyPair = \<lparr>kp_publicKey = [], kp_privateKey = [], kp_keyId = []\<rparr>, mo_skillId = ''igv'',
      mo_skillVersion = ''1'', mo_ledgerManifest = sample_manifest', mo_ledgerEntries = [],
      mo_proposals = Some
        [\<lparr>rp_label = ''a'', rp_explanation = Exp_Text [], rp_subject = ''x'', rp_amountCents = ''500'',
          rp_reversibility = Reversible\<rparr>,
         \<lparr>rp_label = ''b'', rp_explanation = Exp_Text [], rp_subject = ''y'', rp_amountCents = ''500'',
          rp_reversibility = Irreversible\<rparr>],
      mo_bankRows = None, mo_ledgerRows = None, mo_closeInputs = None\<rparr>"

definition sample_ed25519 :: ed25519 where
  "sample_ed25519 = \<lparr>ed_sign = (\<lambda>m k. m), ed_verify = (\<lambda>m k s. s = m)\<rparr>"

definition sample_package :: "close_exn + ClosePackage" where
  "sample_package = runMonthlyClose sample_lib long_hash sample_ed25519 (\<lambda>_. ''now'') sample_close 0"

lemma sample_package_ok: "\<not> isl sample_package"
  by code_simp

theorem close_status_is_exact_witness:
  "\<exists>package. sample_package = Inr package \<and> pk_status package = Complete \<and> pk_sourcesMissing package = []"
proof -
  from sample_package_ok obtain package where p: "sample_package = Inr package" by (metis sum.collapse(2))
  have "preflight_ok (mo_scope sample_close)" and "missing_systems sample_close = []"
    by code_simp+
  with close_status_is_exact [OF p [unfolded sample_package_def]] have "pk_status package = Complete"
    and "pk_sourcesMissing package = []" by simp_all
  with p show ?thesis by blast
qed

lemma sample_keys: "ed_verify sample_ed25519 p k (ed_sign sample_ed25519 p k')"
  by (simp add: sample_ed25519_def)

theorem close_receipts_claim_acceptance_witness:
  "\<exists>package. sample_package = Inr package \<and> length (pk_candidates package) = 2 \<and>
     list_all (\<lambda>c. ca_status c = Proposed) (pk_candidates package) \<and> length (pk_receipts package) = 1 \<and>
     list_all claims_acceptance (pk_receipts package) \<and>
     list_all (verifyCloseReceipt sample_lib sample_ed25519) (pk_receipts package)"
proof -
  from sample_package_ok obtain package where p: "sample_package = Inr package" by (metis sum.collapse(2))
  have "pk_status (projr sample_package) = Complete" and "length (pk_receipts (projr sample_package)) = 1" by code_simp+
  then have "pk_status package = Complete" and one: "length (pk_receipts package) = 1" by (simp_all add: p)
  moreover have "digest long_hash" by (simp add: digest_def long_hash_def)
  ultimately have *: "list_all2 (staged_from long_hash (mo_scope sample_close))
      ((case mo_proposals sample_close of None \<Rightarrow> [] | Some ps \<Rightarrow> ps) @ fst (generated_proposals sample_lib sample_close))
      (pk_candidates package)" and "list_all claims_acceptance (pk_receipts package)"
    and "list_all (verifyCloseReceipt sample_lib sample_ed25519) (pk_receipts package)"
    using sample_keys close_receipts_claim_acceptance [OF p [unfolded sample_package_def]] by blast+
  moreover have "list_all (\<lambda>c. ca_status c = Proposed) (pk_candidates package)"
    using * by (auto simp: list_all2_conv_all_nth list_all_length staged_from_def)
  moreover have "length (pk_candidates package) = 2"
    using list_all2_lengthD [OF *] by (simp add: sample_close_def generated_proposals_def)
  ultimately show ?thesis using p one by blast
qed

end
