(* ===== verification/Router.thy ===== *)
theory Router
  imports Projection
begin

text \<open>
  \<^verbatim>\<open>routing/router.ts\<close> and the route types of \<^verbatim>\<open>routing/types.ts\<close>: the
  preflight router. A request is untyped; every check appends its issues, in the order of the code,
  and a route is proposed only when there are none.
\<close>

section \<open>Data\<close>

datatype issue_code =
  Bad_Id | Bad_Scope | Bad_Hash | Bad_Integer | Bad_Budget | No_Condition | Bad_Stop_Reason
| Bad_Transition | Mission_Mismatch | Ambiguous_Input

record ValidationIssue =
  is_code :: issue_code
  is_path :: js_string

datatype route_kind = Direct_Analysis | Specialized_Agent | Durable_Mission

datatype AuthorityCeiling = No_Mutation | Proposes_Only | Through_Core

record Route =
  ro_kind :: route_kind
  ro_authorityCeiling :: AuthorityCeiling
  ro_request :: js_value

section \<open>The closed shape of a request\<close>

definition REQUESTED_EFFECTS :: "js_string list" where
  "REQUESTED_EFFECTS = [''read-only'', ''proposes-change'', ''core-governed-change'']"

definition EXTERNAL_EVIDENCE :: "js_string list" where
  "EXTERNAL_EVIDENCE = [''none'', ''bounded'', ''material'']"

definition DURATIONS :: "js_string list" where
  "DURATIONS = [''immediate'', ''bounded-interruptible'', ''recoverable'']"

definition SEGREGATION :: "js_string list" where
  "SEGREGATION = [''not-required'', ''required'']"

definition REGULATORY :: "js_string list" where
  "REGULATORY = [''none'', ''applicable'']"

definition APPROVALS :: "js_string list" where
  "APPROVALS = [''not-required'', ''required'']"

definition MATERIALITY_TIERS :: "js_string list" where
  "MATERIALITY_TIERS = [''R0'', ''R1'', ''R2'', ''R3'']"

definition REVERSIBILITIES :: "js_string list" where
  "REVERSIBILITIES = [''reversible'', ''partially-reversible'', ''irreversible'']"

definition REQUIRED_KEYS :: "js_string list" where
  "REQUIRED_KEYS =
     [''scope'', ''requestedEffect'', ''materiality'', ''reversibility'', ''externalEvidence'',
      ''durationAndInterruptibility'', ''systemsInvolved'', ''segregationOfDuties'',
      ''regulatoryObligations'', ''approval'']"

definition SCOPE_KEYS :: "js_string list" where
  "SCOPE_KEYS = [''tenantId'', ''ruc'', ''companyId'', ''companyName'', ''period'', ''intent'']"

definition ambiguous_issue :: "js_string \<Rightarrow> ValidationIssue" where
  "ambiguous_issue path = \<lparr>is_code = Ambiguous_Input, is_path = path\<rparr>"

text \<open>One issue when a condition fails.\<close>

definition ambiguous_unless :: "bool \<Rightarrow> js_string \<Rightarrow> ValidationIssue list" where
  "ambiguous_unless ok path = (if ok then [] else [ambiguous_issue path])"

fun filled :: "js_value \<Rightarrow> bool" where
  "filled (J_str s) = (0 < length s)"
| "filled _ = False"

fun matches :: "(js_string \<Rightarrow> bool) \<Rightarrow> js_value \<Rightarrow> bool" where
  "matches P (J_str s) = P s"
| "matches P _ = False"

definition hasUnknownKeys :: "js_string list \<Rightarrow> js_string list \<Rightarrow> js_string \<Rightarrow> ValidationIssue list" where
  "hasUnknownKeys keys allowed prefix =
     map (\<lambda>key. ambiguous_issue (prefix @ key)) (sort (filter (\<lambda>key. key \<notin> set allowed) keys))"

definition checkScope :: "js_value \<Rightarrow> ValidationIssue list" where
  "checkScope v =
     (if \<not> is_plain_object v then [ambiguous_issue ''scope'']
      else hasUnknownKeys (object_keys v) SCOPE_KEYS ''scope.'' @
        ambiguous_unless (filled (get_field v ''tenantId'')) ''scope.tenantId'' @
        ambiguous_unless (matches (digits_exactly 11) (get_field v ''ruc'')) ''scope.ruc'' @
        ambiguous_unless (filled (get_field v ''companyId'')) ''scope.companyId'' @
        ambiguous_unless (get_field v ''companyName'' = J_undefined \<or> filled (get_field v ''companyName''))
          ''scope.companyName'' @
        ambiguous_unless (matches (digits_exactly 6) (get_field v ''period'')) ''scope.period'' @
        ambiguous_unless (filled (get_field v ''intent'')) ''scope.intent'')"

definition checkLiteral :: "js_value \<Rightarrow> js_string list \<Rightarrow> js_string \<Rightarrow> ValidationIssue list" where
  "checkLiteral value allowed path = ambiguous_unless (matches (\<lambda>s. s \<in> set allowed) value) path"

definition usable_systems :: "js_value \<Rightarrow> bool" where
  "usable_systems v = (case v of J_arr xs \<Rightarrow> xs \<noteq> [] \<and> list_all filled xs \<and> distinct xs | _ \<Rightarrow> False)"

definition checkSystems :: "js_value \<Rightarrow> ValidationIssue list" where
  "checkSystems v = ambiguous_unless (usable_systems v) ''systemsInvolved''"

text \<open>A check of a field that only runs when the request has the field.\<close>

definition when_present :: "js_value \<Rightarrow> js_string \<Rightarrow> (js_value \<Rightarrow> ValidationIssue list) \<Rightarrow> ValidationIssue list" where
  "when_present v key check = (if key \<in> set (object_keys v) then check (get_field v key) else [])"

definition literal_field :: "js_value \<Rightarrow> js_string \<Rightarrow> js_string list \<Rightarrow> ValidationIssue list" where
  "literal_field v key allowed = when_present v key (\<lambda>x. checkLiteral x allowed key)"

definition contradiction :: "js_value \<Rightarrow> js_string \<Rightarrow> js_string \<Rightarrow> ValidationIssue list" where
  "contradiction v key value =
     (if ''requestedEffect'' \<in> set (object_keys v) \<and> get_field v ''requestedEffect'' = J_str ''read-only'' \<and>
         key \<in> set (object_keys v) \<and> get_field v key = J_str value
      then [ambiguous_issue ''requestedEffect'', ambiguous_issue key] else [])"

definition route_issues :: "js_value \<Rightarrow> ValidationIssue list" where
  "route_issues v =
     map ambiguous_issue (filter (\<lambda>key. key \<notin> set (object_keys v)) REQUIRED_KEYS) @
     hasUnknownKeys (object_keys v) REQUIRED_KEYS [] @
     when_present v ''scope'' checkScope @
     literal_field v ''requestedEffect'' REQUESTED_EFFECTS @
     literal_field v ''materiality'' MATERIALITY_TIERS @
     literal_field v ''reversibility'' REVERSIBILITIES @
     literal_field v ''externalEvidence'' EXTERNAL_EVIDENCE @
     literal_field v ''durationAndInterruptibility'' DURATIONS @
     literal_field v ''segregationOfDuties'' SEGREGATION @
     literal_field v ''regulatoryObligations'' REGULATORY @
     literal_field v ''approval'' APPROVALS @
     when_present v ''systemsInvolved'' checkSystems @
     contradiction v ''approval'' ''required'' @
     contradiction v ''reversibility'' ''irreversible''"

section \<open>The decision\<close>

definition route_snapshot :: "js_value \<Rightarrow> js_value" where
  "route_snapshot v =
     (let scope = get_field v ''scope'';
          field = (\<lambda>x k. (k, get_field x k))
      in J_obj
        [(''scope'', J_obj
            ([field scope ''tenantId'', field scope ''ruc'', field scope ''companyId''] @
             (if get_field scope ''companyName'' \<noteq> J_undefined then [field scope ''companyName''] else []) @
             [field scope ''period'', field scope ''intent''])),
         field v ''requestedEffect'', field v ''materiality'', field v ''reversibility'',
         field v ''externalEvidence'', field v ''durationAndInterruptibility'', field v ''systemsInvolved'',
         field v ''segregationOfDuties'', field v ''regulatoryObligations'', field v ''approval''])"

definition several_systems :: "js_value \<Rightarrow> bool" where
  "several_systems v = (case v of J_arr xs \<Rightarrow> 1 < length xs | _ \<Rightarrow> False)"

definition durable :: "js_value \<Rightarrow> bool" where
  "durable v \<longleftrightarrow>
     get_field v ''requestedEffect'' = J_str ''core-governed-change'' \<or>
     get_field v ''materiality'' = J_str ''R2'' \<or> get_field v ''materiality'' = J_str ''R3'' \<or>
     get_field v ''reversibility'' = J_str ''irreversible'' \<or>
     get_field v ''externalEvidence'' = J_str ''material'' \<or>
     get_field v ''durationAndInterruptibility'' = J_str ''recoverable'' \<or>
     several_systems (get_field v ''systemsInvolved'') \<or>
     get_field v ''segregationOfDuties'' = J_str ''required'' \<or>
     get_field v ''regulatoryObligations'' = J_str ''applicable'' \<or>
     get_field v ''approval'' = J_str ''required''"

definition specialized :: "js_value \<Rightarrow> bool" where
  "specialized v \<longleftrightarrow>
     get_field v ''requestedEffect'' = J_str ''proposes-change'' \<or>
     get_field v ''reversibility'' = J_str ''partially-reversible'' \<or>
     get_field v ''externalEvidence'' = J_str ''bounded'' \<or>
     get_field v ''durationAndInterruptibility'' = J_str ''bounded-interruptible''"

definition route :: "js_value \<Rightarrow> ValidationIssue list + Route" where
  "route request =
     (if \<not> is_plain_object request then Inl [ambiguous_issue ''request'']
      else let issues = route_issues request
           in if 0 < length issues then Inl issues
              else if durable request
              then Inr \<lparr>ro_kind = Durable_Mission, ro_authorityCeiling = Through_Core,
                        ro_request = route_snapshot request\<rparr>
              else if specialized request
              then Inr \<lparr>ro_kind = Specialized_Agent, ro_authorityCeiling = Proposes_Only,
                        ro_request = route_snapshot request\<rparr>
              else Inr \<lparr>ro_kind = Direct_Analysis, ro_authorityCeiling = No_Mutation,
                        ro_request = route_snapshot request\<rparr>)"

lemmas router_defs = REQUESTED_EFFECTS_def EXTERNAL_EVIDENCE_def DURATIONS_def SEGREGATION_def REGULATORY_def
  APPROVALS_def MATERIALITY_TIERS_def REVERSIBILITIES_def REQUIRED_KEYS_def SCOPE_KEYS_def ambiguous_issue_def
  ambiguous_unless_def hasUnknownKeys_def checkScope_def checkLiteral_def usable_systems_def checkSystems_def
  when_present_def literal_field_def contradiction_def route_issues_def route_snapshot_def several_systems_def
  durable_def specialized_def route_def

declare router_defs [code_defs]

section \<open>Admissible requests and their level\<close>

definition one_of :: "js_string list \<Rightarrow> js_value \<Rightarrow> bool" where
  "one_of allowed v \<longleftrightarrow> (\<exists>s \<in> set allowed. v = J_str s)"

definition admissible_scope :: "js_value \<Rightarrow> bool" where
  "admissible_scope v \<longleftrightarrow>
     is_plain_object v \<and> set (object_keys v) \<subseteq> set SCOPE_KEYS \<and>
     filled (get_field v ''tenantId'') \<and> matches (digits_exactly 11) (get_field v ''ruc'') \<and>
     filled (get_field v ''companyId'') \<and>
     (get_field v ''companyName'' = J_undefined \<or> filled (get_field v ''companyName'')) \<and>
     matches (digits_exactly 6) (get_field v ''period'') \<and> filled (get_field v ''intent'')"

text \<open>Exactly the ten keys, each with a value of its closed type, and no change asked of a read.\<close>

definition admissible :: "js_value \<Rightarrow> bool" where
  "admissible v \<longleftrightarrow>
     is_plain_object v \<and> set (object_keys v) = set REQUIRED_KEYS \<and>
     admissible_scope (get_field v ''scope'') \<and> usable_systems (get_field v ''systemsInvolved'') \<and>
     one_of REQUESTED_EFFECTS (get_field v ''requestedEffect'') \<and>
     one_of MATERIALITY_TIERS (get_field v ''materiality'') \<and>
     one_of REVERSIBILITIES (get_field v ''reversibility'') \<and>
     one_of EXTERNAL_EVIDENCE (get_field v ''externalEvidence'') \<and>
     one_of DURATIONS (get_field v ''durationAndInterruptibility'') \<and>
     one_of SEGREGATION (get_field v ''segregationOfDuties'') \<and>
     one_of REGULATORY (get_field v ''regulatoryObligations'') \<and>
     one_of APPROVALS (get_field v ''approval'') \<and>
     (if get_field v ''requestedEffect'' = J_str ''read-only''
      then get_field v ''approval'' \<noteq> J_str ''required'' \<and> get_field v ''reversibility'' \<noteq> J_str ''irreversible''
      else True)"

definition position :: "js_string list \<Rightarrow> js_value \<Rightarrow> nat" where
  "position order v = (case v of J_str s \<Rightarrow> (case find_index ((=) s) order of Some i \<Rightarrow> i | None \<Rightarrow> 0) | _ \<Rightarrow> 0)"

text \<open>
  Each axis has a level: its place in its own order of severity, twice that place for the axes of two
  values, and for the tiers R0 and R1 together against R2 and R3.
\<close>

definition axis_levels :: "js_value \<Rightarrow> nat list" where
  "axis_levels v =
     [position REQUESTED_EFFECTS (get_field v ''requestedEffect''),
      2 * (position MATERIALITY_TIERS (get_field v ''materiality'') div 2),
      position REVERSIBILITIES (get_field v ''reversibility''),
      position EXTERNAL_EVIDENCE (get_field v ''externalEvidence''),
      position DURATIONS (get_field v ''durationAndInterruptibility''),
      2 * position SEGREGATION (get_field v ''segregationOfDuties''),
      2 * position REGULATORY (get_field v ''regulatoryObligations''),
      2 * position APPROVALS (get_field v ''approval''),
      (if several_systems (get_field v ''systemsInvolved'') then 2 else 0)]"

definition highest_level :: "js_value \<Rightarrow> nat" where
  "highest_level v = foldr max (axis_levels v) 0"

definition route_level :: "Route \<Rightarrow> nat" where
  "route_level r =
     (case (ro_kind r, ro_authorityCeiling r) of
        (Direct_Analysis, No_Mutation) \<Rightarrow> 0
      | (Specialized_Agent, Proposes_Only) \<Rightarrow> 1
      | (Durable_Mission, Through_Core) \<Rightarrow> 2
      | _ \<Rightarrow> 3)"

lemma unless_Nil [simp]: "ambiguous_unless ok path = [] \<longleftrightarrow> ok"
  by (simp add: ambiguous_unless_def)

lemma unknown_Nil [simp]: "hasUnknownKeys keys allowed prefix = [] \<longleftrightarrow> set keys \<subseteq> set allowed"
proof -
  have "sort xs = [] \<longleftrightarrow> xs = []" for xs :: "js_string list" by (metis length_0_conv length_sort)
  then show ?thesis by (auto simp: hasUnknownKeys_def filter_empty_conv)
qed

lemma checkScope_Nil [simp]: "checkScope v = [] \<longleftrightarrow> admissible_scope v"
  by (auto simp: checkScope_def admissible_scope_def)

lemma literal_Nil [simp]: "checkLiteral v allowed path = [] \<longleftrightarrow> one_of allowed v"
  by (cases v) (auto simp: checkLiteral_def one_of_def)

lemma systems_Nil [simp]: "checkSystems v = [] \<longleftrightarrow> usable_systems v"
  by (simp add: checkSystems_def)

lemma issues_Nil: "is_plain_object v \<Longrightarrow> route_issues v = [] \<longleftrightarrow> admissible v"
proof -
  have present: "set REQUIRED_KEYS \<subseteq> set (object_keys v) \<Longrightarrow> k \<in> set REQUIRED_KEYS \<Longrightarrow>
      when_present v k check = check (get_field v k)" for k check
    by (auto simp: when_present_def)
  have keys: "{''scope'', ''requestedEffect'', ''materiality'', ''reversibility'', ''externalEvidence'',
      ''durationAndInterruptibility'', ''systemsInvolved'', ''segregationOfDuties'',
      ''regulatoryObligations'', ''approval''} = set REQUIRED_KEYS"
    by (simp add: REQUIRED_KEYS_def)
  assume o: "is_plain_object v"
  show ?thesis
  proof (cases "set REQUIRED_KEYS \<subseteq> set (object_keys v)")
    case True
    then have in_keys: "k \<in> set (object_keys v)" if "k \<in> set REQUIRED_KEYS" for k using that by blast
    have "map ambiguous_issue (filter (\<lambda>key. key \<notin> set (object_keys v)) REQUIRED_KEYS) = []"
      using True by (auto simp: filter_empty_conv)
    moreover have "contradiction v k x = [] \<longleftrightarrow>
        \<not> (get_field v ''requestedEffect'' = J_str ''read-only'' \<and> get_field v k = J_str x)"
      if "k \<in> set REQUIRED_KEYS" for k x
      using in_keys that by (simp add: contradiction_def keys [symmetric])
    ultimately show ?thesis
      using o True present [OF True]
      by (simp add: route_issues_def literal_field_def admissible_def keys [symmetric] set_eq_subset) auto
  next
    case False
    then have "filter (\<lambda>key. key \<notin> set (object_keys v)) REQUIRED_KEYS \<noteq> []"
      by (auto simp: filter_empty_conv)
    then have "route_issues v \<noteq> []" by (auto simp: route_issues_def simp del: filter_empty_conv)
    with False show ?thesis by (auto simp: admissible_def)
  qed
qed

text \<open>A literal of a closed list of three: its position names it.\<close>

lemma position_three:
  assumes "one_of [a, b, c] v" and "distinct [a, b, c]"
  shows "position [a, b, c] v = (if v = J_str c then 2 else if v = J_str b then 1 else 0)"
  using assms by (auto simp: one_of_def position_def)

lemma position_two:
  assumes "one_of [a, b] v" and "a \<noteq> b"
  shows "position [a, b] v = (if v = J_str b then 1 else 0)"
  using assms by (auto simp: one_of_def position_def)

lemma highest_at_least: "0 < n \<Longrightarrow> n \<le> highest_level v \<longleftrightarrow> (\<exists>l \<in> set (axis_levels v). n \<le> l)"
proof -
  have "0 < n \<Longrightarrow> n \<le> foldr max ls 0 \<longleftrightarrow> (\<exists>l \<in> set ls. n \<le> l)" for ls
    by (induction ls) (auto simp: le_max_iff_disj)
  then show "0 < n \<Longrightarrow> n \<le> highest_level v \<longleftrightarrow> (\<exists>l \<in> set (axis_levels v). n \<le> l)"
    by (simp add: highest_level_def)
qed

lemma levels_of_axes:
  assumes "admissible v"
  shows "2 \<le> highest_level v \<longleftrightarrow> durable v"
    and "1 \<le> highest_level v \<longleftrightarrow> durable v \<or> specialized v"
    and "highest_level v \<le> 2"
proof -
  have one: "one_of MATERIALITY_TIERS (get_field v ''materiality'')"
    "one_of REQUESTED_EFFECTS (get_field v ''requestedEffect'')"
    "one_of REVERSIBILITIES (get_field v ''reversibility'')"
    "one_of EXTERNAL_EVIDENCE (get_field v ''externalEvidence'')"
    "one_of DURATIONS (get_field v ''durationAndInterruptibility'')"
    "one_of SEGREGATION (get_field v ''segregationOfDuties'')"
    "one_of REGULATORY (get_field v ''regulatoryObligations'')"
    "one_of APPROVALS (get_field v ''approval'')"
    using assms by (simp_all only: admissible_def)
  have tier: "position MATERIALITY_TIERS (get_field v ''materiality'') div 2 =
      (if get_field v ''materiality'' = J_str ''R2'' \<or> get_field v ''materiality'' = J_str ''R3'' then 1 else 0)"
    using one(1) by (auto simp: one_of_def position_def MATERIALITY_TIERS_def)
  have p2: "position REQUESTED_EFFECTS (get_field v ''requestedEffect'') =
      (if get_field v ''requestedEffect'' = J_str ''core-governed-change'' then 2
       else if get_field v ''requestedEffect'' = J_str ''proposes-change'' then 1 else 0)"
    using one(2) unfolding REQUESTED_EFFECTS_def by (rule position_three) simp
  have p3: "position REVERSIBILITIES (get_field v ''reversibility'') =
      (if get_field v ''reversibility'' = J_str ''irreversible'' then 2
       else if get_field v ''reversibility'' = J_str ''partially-reversible'' then 1 else 0)"
    using one(3) unfolding REVERSIBILITIES_def by (rule position_three) simp
  have p4: "position EXTERNAL_EVIDENCE (get_field v ''externalEvidence'') =
      (if get_field v ''externalEvidence'' = J_str ''material'' then 2
       else if get_field v ''externalEvidence'' = J_str ''bounded'' then 1 else 0)"
    using one(4) unfolding EXTERNAL_EVIDENCE_def by (rule position_three) simp
  have p5: "position DURATIONS (get_field v ''durationAndInterruptibility'') =
      (if get_field v ''durationAndInterruptibility'' = J_str ''recoverable'' then 2
       else if get_field v ''durationAndInterruptibility'' = J_str ''bounded-interruptible'' then 1 else 0)"
    using one(5) unfolding DURATIONS_def by (rule position_three) simp
  have p6: "position SEGREGATION (get_field v ''segregationOfDuties'') =
      (if get_field v ''segregationOfDuties'' = J_str ''required'' then 1 else 0)"
    using one(6) unfolding SEGREGATION_def by (rule position_two) simp
  have p7: "position REGULATORY (get_field v ''regulatoryObligations'') =
      (if get_field v ''regulatoryObligations'' = J_str ''applicable'' then 1 else 0)"
    using one(7) unfolding REGULATORY_def by (rule position_two) simp
  have p8: "position APPROVALS (get_field v ''approval'') =
      (if get_field v ''approval'' = J_str ''required'' then 1 else 0)"
    using one(8) unfolding APPROVALS_def by (rule position_two) simp
  note levels = axis_levels_def tier p2 p3 p4 p5 p6 p7 p8
  show "2 \<le> highest_level v \<longleftrightarrow> durable v"
    by (subst highest_at_least) (auto simp: levels durable_def split: if_split_asm)
  show "1 \<le> highest_level v \<longleftrightarrow> durable v \<or> specialized v"
    by (subst highest_at_least) (auto simp: levels durable_def specialized_def split: if_split_asm)
  have "\<not> 3 \<le> highest_level v" by (subst highest_at_least) (auto simp: levels split: if_split_asm)
  then show "highest_level v \<le> 2" by simp
qed

text \<open>
  C26: The router proposes a route exactly for the admissible requests, those that have the ten closed
  fields and no contradiction, and answers at least one issue for all others. The route it proposes
  is the smallest that suffices: its level, of which kind and authority ceiling are inseparable, is
  the highest level any of the nine axes has, no more and no less.
\<close>

theorem route_is_the_highest_signal:
  "case route v of
     Inl issues \<Rightarrow> issues \<noteq> [] \<and> \<not> admissible v
   | Inr r \<Rightarrow> admissible v \<and> route_level r = highest_level v \<and> ro_request r = route_snapshot v"
proof (cases "is_plain_object v \<and> route_issues v = []")
  case True
  then have a: "admissible v" using issues_Nil by blast
  from levels_of_axes [OF this] have
    "highest_level v = (if durable v then 2 else if specialized v then 1 else 0)"
    by (auto split: if_splits)
  with True a show ?thesis by (simp add: route_def Let_def route_level_def)
next
  case False
  then have "\<not> admissible v" using issues_Nil by (auto simp: admissible_def)
  with False show ?thesis by (auto simp: route_def Let_def)
qed

end
