(* ===== verification/Work_Units.thy ===== *)
theory Work_Units
  imports Router Mission_Store Candidates
begin

text \<open>
  \<^verbatim>\<open>routing/helpers.ts\<close> and the work unit types of \<^verbatim>\<open>routing/types.ts\<close>:
  construction and validation of work units and results. The parts that are checked at run time are
  untyped values, a BigInt that is checked is an \<open>int option\<close> (\<open>None\<close>: of another type). A check
  answers its issues, or \<open>None\<close> when the code throws a \<open>TypeError\<close> on reading a property of
  null or undefined. SHA-256 is an argument, the canonical transition function too.
\<close>

section \<open>Data\<close>

record WorkScope =
  ws_tenantId :: js_value
  ws_ruc :: js_value
  ws_companyId :: js_value
  ws_companyName :: js_value
  ws_period :: js_value
  ws_intent :: js_value

record WorkBudgets =
  wb_timeLimitMs :: js_value
  wb_tokenLimit :: js_value
  wb_costLimitCents :: "int option"
  wb_researchAttemptLimit :: js_value
  wb_correctionAttemptLimit :: js_value

record WorkUnit =
  wu_id :: js_value
  wu_missionId :: js_value
  wu_objective :: js_value
  wu_stage :: mission_status
  wu_scope :: WorkScope
  wu_evidenceAllowed :: js_value
  wu_skills :: js_value
  wu_policies :: js_value
  wu_authorizedTools :: js_value
  wu_authorizedDestinations :: js_value
  wu_outputSchema :: js_value
  wu_budgets :: WorkBudgets
  wu_successConditions :: js_value
  wu_stopConditions :: js_value

record MaterialityBasis =
  mb_value :: "int option"
  mb_reversibility :: js_value
  mb_jurisdiction :: js_value

record ProposedCandidateRef =
  pr_id :: js_value
  pr_subjectHash :: js_value
  pr_ruc :: js_value
  pr_period :: js_value
  pr_materiality :: materiality
  pr_materialityBasis :: MaterialityBasis

record CostAndAttempts =
  ca_costIncurredCents :: "int option"
  ca_researchAttempts :: js_value
  ca_correctionAttempts :: js_value

record NextTransition =
  nt_from :: mission_status
  nt_to :: mission_status

record WorkResult =
  wr_workUnitId :: js_value
  wr_missionId :: js_value
  wr_outcome :: js_value
  wr_evidenceRefs :: js_value
  wr_proposedCandidates :: "ProposedCandidateRef list option"
  wr_unresolvedExceptions :: js_value
  wr_policyVersions :: js_value
  wr_toolProvenance :: js_value
  wr_costAndAttempts :: CostAndAttempts
  wr_nextTransition :: NextTransition
  wr_explanation :: js_value

datatype 'a ValidationResult = Valid 'a | Invalid "ValidationIssue list"

section \<open>Checks\<close>

type_synonym check = "ValidationIssue list option"

definition STOP_KINDS :: "js_string list" where
  "STOP_KINDS =
     [''MISSING_EVIDENCE'', ''POLICY_BLOCKED'', ''APPROVAL_REQUIRED'', ''BUDGET_EXHAUSTED'', ''SCOPE_MISMATCH'',
      ''INVALID_TRANSITION'', ''EXTERNAL_SYSTEM_UNAVAILABLE'', ''AMBIGUOUS_INPUT'', ''UNSUPPORTED_WORK'']"

definition DEST_KINDS :: "js_string list" where
  "DEST_KINDS = [''CORE'', ''EVIDENCE_STORE'', ''REVIEW_QUEUE'']"

definition BUDGET_LABELS :: "js_string list" where
  "BUDGET_LABELS = [''TIME'', ''TOKENS'', ''COST'', ''RESEARCH_ATTEMPTS'', ''CORRECTION'']"

definition REVERSIBILITY :: "js_string list" where
  "REVERSIBILITY = [''reversible'', ''partially-reversible'', ''irreversible'']"

definition INITIAL_STAGE :: mission_status where
  "INITIAL_STAGE = DRAFT"

definition issue :: "issue_code \<Rightarrow> js_string \<Rightarrow> check" where
  "issue code path = Some [\<lparr>is_code = code, is_path = path\<rparr>]"

definition require :: "bool \<Rightarrow> issue_code \<Rightarrow> js_string \<Rightarrow> check" where
  "require ok code path = (if ok then Some [] else issue code path)"

text \<open>Checks one after the other; the first that throws ends them all.\<close>

definition all_checks :: "check list \<Rightarrow> check" where
  "all_checks cs = (if None \<in> set cs then None else Some (concat (map the cs)))"

text \<open>Reading a property of null or undefined throws.\<close>

fun reading :: "js_value \<Rightarrow> check \<Rightarrow> check" where
  "reading J_undefined c = None"
| "reading J_null c = None"
| "reading _ c = c"

definition indexed :: "js_string \<Rightarrow> nat \<Rightarrow> js_string" where
  "indexed path i = path @ ''['' @ dec_nat i @ '']''"

definition each_item :: "(js_value \<Rightarrow> js_string \<Rightarrow> check) \<Rightarrow> js_string \<Rightarrow> js_value list \<Rightarrow> check" where
  "each_item f path xs = all_checks (map (\<lambda>(i, x). f x (indexed path i)) (enumerate 0 xs))"

text \<open>The elements of an array, or one issue when the value is no array.\<close>

definition each_of :: "js_value \<Rightarrow> issue_code \<Rightarrow> js_string \<Rightarrow> (js_value \<Rightarrow> js_string \<Rightarrow> check) \<Rightarrow> check" where
  "each_of v code path f = (case v of J_arr xs \<Rightarrow> each_item f path xs | _ \<Rightarrow> issue code path)"

text \<open>The same for an array that must have an element.\<close>

definition each_of_some :: "js_value \<Rightarrow> issue_code \<Rightarrow> js_string \<Rightarrow> (js_value \<Rightarrow> js_string \<Rightarrow> check) \<Rightarrow> check" where
  "each_of_some v code path f =
     (case v of J_arr xs \<Rightarrow> if xs = [] then issue code path else each_item f path xs | _ \<Rightarrow> issue code path)"

fun isValidJsonInteger :: "js_value \<Rightarrow> bool" where
  "isValidJsonInteger (J_num n) = (is_integer n \<and> 0 \<le> to_bigint n \<and> to_bigint n < 2 ^ 53)"
| "isValidJsonInteger _ = False"

fun isNonEmptyStringArray :: "js_value \<Rightarrow> bool" where
  "isNonEmptyStringArray (J_arr xs) = (xs \<noteq> [] \<and> list_all filled xs)"
| "isNonEmptyStringArray _ = False"

definition checkHash :: "js_value \<Rightarrow> js_string \<Rightarrow> check" where
  "checkHash v path = require (matches hex64 v) Bad_Hash path"

definition checkVersionPin :: "js_value \<Rightarrow> js_string \<Rightarrow> check" where
  "checkVersionPin pin path =
     reading pin (all_checks
       [require (filled (get_field pin ''id'') \<and> filled (get_field pin ''version'')) Bad_Id path,
        if get_field pin ''contentHash'' \<noteq> J_undefined
        then checkHash (get_field pin ''contentHash'') (path @ ''.contentHash'') else Some []])"

definition checkEvidenceRef :: "js_value \<Rightarrow> js_string \<Rightarrow> check" where
  "checkEvidenceRef r path =
     reading r (all_checks
       [require (get_field r ''algorithm'' = J_str ''sha256'') Bad_Hash (path @ ''.algorithm''),
        checkHash (get_field r ''hash'') (path @ ''.hash'')])"

definition checkOutputSchema :: "js_value \<Rightarrow> js_string \<Rightarrow> check" where
  "checkOutputSchema schema path =
     reading schema (all_checks
       [require (filled (get_field schema ''id'') \<and> filled (get_field schema ''version'')) Bad_Id path,
        checkHash (get_field schema ''contentHash'') (path @ ''.contentHash'')])"

fun non_negative :: "int option \<Rightarrow> bool" where
  "non_negative (Some n) = (0 \<le> n)"
| "non_negative None = False"

definition whole :: "nat \<Rightarrow> js_value" where
  "whole n = J_num (Fin (of_nat n))"

definition checkBudgets :: "WorkBudgets \<Rightarrow> js_string \<Rightarrow> check" where
  "checkBudgets budgets path = all_checks
     [require (non_negative (wb_costLimitCents budgets)) Bad_Budget (path @ ''.costLimitCents''),
      require (isValidJsonInteger (wb_timeLimitMs budgets)) Bad_Integer (path @ ''.timeLimitMs''),
      require (isValidJsonInteger (wb_tokenLimit budgets)) Bad_Integer (path @ ''.tokenLimit''),
      require (wb_researchAttemptLimit budgets \<in> {whole 1, whole 2, whole 3}) Bad_Budget
        (path @ ''.researchAttemptLimit''),
      require (wb_correctionAttemptLimit budgets = whole 1) Bad_Budget (path @ ''.correctionAttemptLimit'')]"

definition checkSuccessCondition :: "js_value \<Rightarrow> js_string \<Rightarrow> check" where
  "checkSuccessCondition c path =
     (if \<not> isRecord c then issue No_Condition path
      else if get_field c ''kind'' = J_str ''OUTPUT_SCHEMA_VALID''
      then checkOutputSchema (get_field c ''schema'') (path @ ''.schema'')
      else if get_field c ''kind'' = J_str ''EVIDENCE_HASHES_PRESENT''
      then each_of_some (get_field c ''required'') No_Condition (path @ ''.required'') checkHash
      else if get_field c ''kind'' = J_str ''CANDIDATE_SUBJECT_HASH_PRODUCED''
      then require (isValidJsonInteger (get_field c ''minimumCount'')) Bad_Integer (path @ ''.minimumCount'')
      else issue No_Condition (path @ ''.kind''))"

definition checkStopReasonKind :: "js_value \<Rightarrow> js_string \<Rightarrow> check" where
  "checkStopReasonKind k path = require (matches (\<lambda>s. s \<in> set STOP_KINDS) k) Bad_Stop_Reason path"

definition stop_reason_field :: "js_value \<Rightarrow> js_string \<Rightarrow> js_string \<Rightarrow> check" where
  "stop_reason_field r k path =
     (if k = ''MISSING_EVIDENCE''
      then each_of_some (get_field r ''requiredHashes'') Bad_Stop_Reason (path @ ''.requiredHashes'') checkHash
      else if k = ''POLICY_BLOCKED''
      then (if \<not> isRecord (get_field r ''policy'') then issue Bad_Stop_Reason (path @ ''.policy'')
            else checkVersionPin (get_field r ''policy'') (path @ ''.policy''))
      else if k = ''APPROVAL_REQUIRED''
      then require (filled (get_field r ''approvalType'')) Bad_Stop_Reason (path @ ''.approvalType'')
      else if k = ''BUDGET_EXHAUSTED''
      then require (matches (\<lambda>s. s \<in> set BUDGET_LABELS) (get_field r ''budget'')) Bad_Stop_Reason (path @ ''.budget'')
      else if k = ''SCOPE_MISMATCH'' \<or> k = ''AMBIGUOUS_INPUT''
      then require (isNonEmptyStringArray (get_field r ''fields'')) Bad_Stop_Reason (path @ ''.fields'')
      else if k = ''INVALID_TRANSITION''
      then require (filled (get_field r ''from'') \<and> filled (get_field r ''to'')) Bad_Stop_Reason path
      else if k = ''EXTERNAL_SYSTEM_UNAVAILABLE''
      then require (filled (get_field r ''systemId'')) Bad_Stop_Reason (path @ ''.systemId'')
      else if k = ''UNSUPPORTED_WORK''
      then require (filled (get_field r ''intent'')) Bad_Stop_Reason (path @ ''.intent'')
      else issue Bad_Stop_Reason path)"

definition checkStopReason :: "js_value \<Rightarrow> js_string \<Rightarrow> check" where
  "checkStopReason r path =
     (if \<not> isRecord r then issue Bad_Stop_Reason path
      else (case get_field r ''kind'' of
              J_str k \<Rightarrow>
                if k \<notin> set STOP_KINDS then issue Bad_Stop_Reason (path @ ''.kind'')
                else stop_reason_field r k path
            | _ \<Rightarrow> issue Bad_Stop_Reason (path @ ''.kind'')))"

definition checkOutcome :: "js_value \<Rightarrow> js_string \<Rightarrow> check" where
  "checkOutcome v path =
     reading v
       (if get_field v ''kind'' = J_str ''SUCCEEDED''
        then require (''reason'' \<notin> set (object_keys v)) Bad_Stop_Reason (path @ ''.reason'')
        else checkStopReason (get_field v ''reason'') (path @ ''.reason''))"

definition checkToolProvenance :: "js_value \<Rightarrow> js_string \<Rightarrow> check" where
  "checkToolProvenance tool path =
     reading tool (all_checks
       [require (list_all (\<lambda>k. filled (get_field tool k)) [''toolId'', ''version'', ''operation'']) Bad_Id path,
        checkHash (get_field tool ''outputHash'') (path @ ''.outputHash'')])"

fun is_array :: "js_value \<Rightarrow> bool" where
  "is_array (J_arr _) = True"
| "is_array _ = False"

definition checkException :: "js_value \<Rightarrow> js_string \<Rightarrow> check" where
  "checkException x path =
     reading x (require
       (list_all (\<lambda>k. filled (get_field x k))
          [''id'', ''missionId'', ''code'', ''severity'', ''subjectRef'', ''resolutionStatus''] \<and>
        is_array (get_field x ''evidenceRefs'')) Bad_Id path)"

definition checkTool :: "js_value \<Rightarrow> js_string \<Rightarrow> check" where
  "checkTool tool path =
     reading tool (require
       (filled (get_field tool ''id'') \<and> filled (get_field tool ''version'') \<and>
        is_array (get_field tool ''operations'') \<and> get_field tool ''operations'' \<noteq> J_arr []) Bad_Id path)"

definition checkDestination :: "js_value \<Rightarrow> js_string \<Rightarrow> check" where
  "checkDestination dest path =
     reading dest (require
       (matches (\<lambda>s. s \<in> set DEST_KINDS) (get_field dest ''kind'') \<and> filled (get_field dest ''id''))
       Bad_Scope path)"

definition checkWorkScope :: "WorkScope \<Rightarrow> check" where
  "checkWorkScope scope = all_checks
     [require (filled (ws_tenantId scope)) Bad_Scope ''scope.tenantId'',
      require (matches (digits_exactly 11) (ws_ruc scope)) Bad_Scope ''scope.ruc'',
      require (filled (ws_companyId scope)) Bad_Scope ''scope.companyId'',
      require (ws_companyName scope = J_undefined \<or> filled (ws_companyName scope)) Bad_Scope ''scope.companyName'',
      require (matches (digits_exactly 6) (ws_period scope)) Bad_Scope ''scope.period'',
      require (filled (ws_intent scope)) Bad_Scope ''scope.intent'']"

definition checkUnitShape :: "WorkUnit \<Rightarrow> check" where
  "checkUnitShape u = all_checks
     [require (filled (wu_id u)) Bad_Id ''id'',
      require (filled (wu_missionId u)) Bad_Id ''missionId'',
      require (filled (wu_objective u)) Bad_Id ''objective'',
      checkWorkScope (wu_scope u),
      each_of (wu_evidenceAllowed u) Bad_Hash ''evidenceAllowed'' checkEvidenceRef,
      each_of (wu_skills u) Bad_Id ''skills'' checkVersionPin,
      each_of (wu_policies u) Bad_Id ''policies'' checkVersionPin,
      each_of (wu_authorizedTools u) Bad_Id ''authorizedTools'' checkTool,
      each_of (wu_authorizedDestinations u) Bad_Scope ''authorizedDestinations'' checkDestination,
      checkOutputSchema (wu_outputSchema u) ''outputSchema'',
      checkBudgets (wu_budgets u) ''budgets'',
      each_of_some (wu_successConditions u) No_Condition ''successConditions'' checkSuccessCondition,
      each_of_some (wu_stopConditions u) Bad_Stop_Reason ''stopConditions'' checkStopReasonKind]"

section \<open>Construction and validation\<close>

definition assembleScope :: "(mission_intent \<Rightarrow> js_string) \<Rightarrow> MissionSnapshot \<Rightarrow> WorkScope \<Rightarrow> WorkScope" where
  "assembleScope intent mission input =
     \<lparr>ws_tenantId = ws_tenantId input, ws_ruc = ws_ruc input, ws_companyId = J_str (sn_companyId mission),
      ws_companyName = ws_companyName input, ws_period = J_str (sn_fiscalPeriod mission),
      ws_intent = J_str (intent (sn_intent mission))\<rparr>"

definition toJsonInteger :: "js_value \<Rightarrow> js_value ValidationResult" where
  "toJsonInteger v =
     (if isValidJsonInteger v then Valid v else Invalid [\<lparr>is_code = Bad_Integer, is_path = ''value''\<rparr>])"

definition parseSha256Hash :: "js_value \<Rightarrow> js_value ValidationResult" where
  "parseSha256Hash v =
     (if matches hex64 v then Valid v else Invalid [\<lparr>is_code = Bad_Hash, is_path = ''value''\<rparr>])"

definition createEvidenceRef :: "byte_hash \<Rightarrow> 8 word list \<Rightarrow> js_value" where
  "createEvidenceRef sha256 bytes = J_obj [(''algorithm'', J_str ''sha256''), (''hash'', J_str (sha256 bytes))]"

definition concluded :: "check \<Rightarrow> 'a \<Rightarrow> 'a ValidationResult option" where
  "concluded c v =
     (case c of None \<Rightarrow> None | Some issues \<Rightarrow> if 0 < length issues then Some (Invalid issues) else Some (Valid v))"

text \<open>The fields of the input that the mission decides, its id, stage and scope, are overwritten.\<close>

definition createWorkUnit ::
    "(mission_intent \<Rightarrow> js_string) \<Rightarrow> MissionSnapshot \<Rightarrow> WorkUnit \<Rightarrow> WorkUnit ValidationResult option" where
  "createWorkUnit intent mission input =
     (let u = input\<lparr>wu_missionId := J_str (sn_id mission), wu_stage := INITIAL_STAGE,
                    wu_scope := assembleScope intent mission (wu_scope input)\<rparr>
      in concluded (checkUnitShape u) u)"

definition validateWorkUnit ::
    "(mission_intent \<Rightarrow> js_string) \<Rightarrow> WorkUnit \<Rightarrow> MissionSnapshot \<Rightarrow> WorkUnit ValidationResult option" where
  "validateWorkUnit intent u mission =
     concluded (all_checks
       [require (wu_missionId u = J_str (sn_id mission)) Mission_Mismatch ''missionId'',
        require (ws_companyId (wu_scope u) = J_str (sn_companyId mission) \<and>
                 ws_period (wu_scope u) = J_str (sn_fiscalPeriod mission) \<and>
                 ws_intent (wu_scope u) = J_str (intent (sn_intent mission))) Mission_Mismatch ''scope'',
        require (wu_stage u = INITIAL_STAGE) Bad_Transition ''stage'',
        checkUnitShape u]) u"

type_synonym transition_validator = "mission_status \<Rightarrow> mission_status \<Rightarrow> mission_error + unit"

definition advanceWorkUnit ::
    "WorkUnit \<Rightarrow> mission_status \<Rightarrow> transition_validator \<Rightarrow> WorkUnit ValidationResult" where
  "advanceWorkUnit u next validate =
     (if next = wu_stage u then Invalid [\<lparr>is_code = Bad_Transition, is_path = ''stage''\<rparr>]
      else (case validate (wu_stage u) next of
              Inl _ \<Rightarrow> Invalid [\<lparr>is_code = Bad_Transition, is_path = ''stage''\<rparr>]
            | Inr _ \<Rightarrow> Valid (u\<lparr>wu_stage := next\<rparr>)))"

definition basis_checks :: "MaterialityBasis \<Rightarrow> js_string \<Rightarrow> check" where
  "basis_checks basis prefix = all_checks
     [require (non_negative (mb_value basis)) Bad_Budget (prefix @ ''materialityBasis.value''),
      require (matches (\<lambda>s. s \<in> set REVERSIBILITY) (mb_reversibility basis)) Bad_Scope
        (prefix @ ''materialityBasis.reversibility''),
      require (filled (mb_jurisdiction basis)) Bad_Scope (prefix @ ''materialityBasis.jurisdiction'')]"

definition createProposedCandidateRef ::
    "Candidate \<Rightarrow> MaterialityBasis \<Rightarrow> ProposedCandidateRef ValidationResult option" where
  "createProposedCandidateRef candidate basis =
     concluded (all_checks [checkHash (J_str (ca_subjectHash candidate)) ''subjectHash'', basis_checks basis []])
       \<lparr>pr_id = J_str (ca_id candidate), pr_subjectHash = J_str (ca_subjectHash candidate),
        pr_ruc = J_str (cs_ruc (ca_scope candidate)), pr_period = J_str (cs_period (ca_scope candidate)),
        pr_materiality = ca_materiality candidate, pr_materialityBasis = basis\<rparr>"

definition checkProposedCandidateRef :: "ProposedCandidateRef \<Rightarrow> WorkScope \<Rightarrow> js_string \<Rightarrow> check" where
  "checkProposedCandidateRef c scope path = all_checks
     [require (filled (pr_id c)) Bad_Id (path @ ''.id''),
      checkHash (pr_subjectHash c) (path @ ''.subjectHash''),
      require (pr_ruc c = ws_ruc scope \<and> pr_period c = ws_period scope) Bad_Scope (path @ ''.scope''),
      basis_checks (pr_materialityBasis c) (path @ ''.'')]"

definition checkResultFields :: "WorkResult \<Rightarrow> WorkUnit \<Rightarrow> transition_validator \<Rightarrow> check" where
  "checkResultFields r u validate = all_checks
     [require (filled (wr_workUnitId r) \<and> wr_workUnitId r = wu_id u) Mission_Mismatch ''workUnitId'',
      require (filled (wr_missionId r) \<and> wr_missionId r = wu_missionId u) Mission_Mismatch ''missionId'',
      require (nt_from (wr_nextTransition r) = wu_stage u) Bad_Transition ''nextTransition.from'',
      require (\<not> isl (validate (nt_from (wr_nextTransition r)) (nt_to (wr_nextTransition r)))) Bad_Transition
        ''nextTransition.to'',
      checkOutcome (wr_outcome r) ''outcome'',
      each_of (wr_evidenceRefs r) Bad_Hash ''evidenceRefs'' checkEvidenceRef,
      (case wr_proposedCandidates r of
         None \<Rightarrow> issue Bad_Scope ''proposedCandidates''
       | Some cs \<Rightarrow> all_checks (map (\<lambda>(i, c). checkProposedCandidateRef c (wu_scope u)
             (indexed ''proposedCandidates'' i)) (enumerate 0 cs))),
      each_of (wr_unresolvedExceptions r) Bad_Id ''unresolvedExceptions'' checkException,
      each_of (wr_policyVersions r) Bad_Id ''policyVersions'' checkVersionPin,
      each_of (wr_toolProvenance r) Bad_Id ''toolProvenance'' checkToolProvenance,
      require (non_negative (ca_costIncurredCents (wr_costAndAttempts r))) Bad_Budget
        ''costAndAttempts.costIncurredCents'',
      require (isValidJsonInteger (ca_researchAttempts (wr_costAndAttempts r))) Bad_Integer
        ''costAndAttempts.researchAttempts'',
      require (isValidJsonInteger (ca_correctionAttempts (wr_costAndAttempts r))) Bad_Integer
        ''costAndAttempts.correctionAttempts'']"

definition createWorkResult ::
    "WorkUnit \<Rightarrow> WorkResult \<Rightarrow> transition_validator \<Rightarrow> WorkResult ValidationResult option" where
  "createWorkResult u input validate =
     (let r = input\<lparr>wr_workUnitId := wu_id u, wr_missionId := wu_missionId u\<rparr>
      in concluded (checkResultFields r u validate) r)"

definition validateWorkResult ::
    "WorkResult \<Rightarrow> WorkUnit \<Rightarrow> transition_validator \<Rightarrow> WorkResult ValidationResult option" where
  "validateWorkResult r u validate = concluded (checkResultFields r u validate) r"

lemmas work_unit_defs = STOP_KINDS_def DEST_KINDS_def BUDGET_LABELS_def REVERSIBILITY_def INITIAL_STAGE_def
  issue_def require_def all_checks_def indexed_def each_item_def each_of_def each_of_some_def checkHash_def
  checkVersionPin_def checkEvidenceRef_def checkOutputSchema_def whole_def checkBudgets_def
  checkSuccessCondition_def checkStopReasonKind_def stop_reason_field_def checkStopReason_def checkOutcome_def
  checkToolProvenance_def checkException_def checkTool_def checkDestination_def checkWorkScope_def
  checkUnitShape_def assembleScope_def toJsonInteger_def parseSha256Hash_def createEvidenceRef_def concluded_def
  createWorkUnit_def validateWorkUnit_def advanceWorkUnit_def basis_checks_def createProposedCandidateRef_def
  checkProposedCandidateRef_def checkResultFields_def createWorkResult_def validateWorkResult_def

declare work_unit_defs [code_defs]

section \<open>Lemmas\<close>

lemma require_Nil [simp]: "require ok code path = Some [] \<longleftrightarrow> ok"
  by (simp add: require_def issue_def)

lemma issue_Nil [simp]: "issue code path \<noteq> Some []"
  by (simp add: issue_def)

lemma all_checks_Nil [simp]: "all_checks cs = Some [] \<longleftrightarrow> list_all (\<lambda>c. c = Some []) cs"
proof
  assume a: "all_checks cs = Some []"
  then have n: "None \<notin> set cs" and e: "concat (map the cs) = []"
    by (auto simp: all_checks_def split: if_splits)
  have "c = Some []" if "c \<in> set cs" for c
    using n e that by (cases c) auto
  then show "list_all (\<lambda>c. c = Some []) cs" by (simp add: list_all_iff)
qed (auto simp: all_checks_def list_all_iff)

lemma concluded_Valid [simp]: "concluded c v = Some (Valid w) \<longleftrightarrow> c = Some [] \<and> w = v"
  by (auto simp: concluded_def split: option.splits)

text \<open>What a caller may advance: one stage after the other, as long as each is accepted.\<close>

fun advance_all :: "mission_status list \<Rightarrow> WorkUnit \<Rightarrow> WorkUnit ValidationResult" where
  "advance_all [] u = Valid u"
| "advance_all (s # ss) u =
     (case advanceWorkUnit u s validateTransition of Invalid issues \<Rightarrow> Invalid issues | Valid u' \<Rightarrow> advance_all ss u')"

lemma advance_Valid:
  "advanceWorkUnit u s validateTransition = Valid u' \<longleftrightarrow>
     mission_step (wu_stage u) s \<and> s \<noteq> wu_stage u \<and> u' = u\<lparr>wu_stage := s\<rparr>"
  using validateTransition_Inr_iff [of "wu_stage u" s]
  by (auto simp: advanceWorkUnit_def split: sum.splits)

lemma advance_all_Valid:
  "advance_all ss u = Valid u' \<longleftrightarrow>
     successively (\<lambda>a b. mission_step a b \<and> b \<noteq> a) (wu_stage u # ss) \<and>
     u' = u\<lparr>wu_stage := last (wu_stage u # ss)\<rparr>"
proof (induction ss arbitrary: u)
  case (Cons s ss)
  show ?case
  proof (cases "advanceWorkUnit u s validateTransition")
    case (Valid v)
    then have v: "mission_step (wu_stage u) s" "s \<noteq> wu_stage u" "v = u\<lparr>wu_stage := s\<rparr>"
      by (simp_all add: advance_Valid)
    from Valid Cons.IH [of v] v show ?thesis by auto
  next
    case (Invalid issues)
    then have "\<not> (mission_step (wu_stage u) s \<and> s \<noteq> wu_stage u)"
      using advance_Valid by (metis ValidationResult.distinct(1))
    with Invalid show ?thesis by auto
  qed
qed auto

lemma no_step_to_draft: "\<not> mission_step s DRAFT"
  by (cases s) (auto simp: mission_step_code VALID_TRANSITIONS_def)

lemma last_stage:
  assumes "successively (\<lambda>a b. mission_step a b \<and> b \<noteq> a) (s # ss)"
  shows "last (s # ss) = DRAFT \<longleftrightarrow> ss = [] \<and> s = DRAFT"
proof (cases ss rule: rev_cases)
  case (snoc ts t)
  with assms have "mission_step (last (s # ts)) t"
    by (auto simp: successively_append_iff simp flip: append_Cons)
  with snoc no_step_to_draft show ?thesis by auto
qed simp

lemma shape_of_stage: "checkUnitShape (u\<lparr>wu_stage := t\<rparr>) = checkUnitShape u"
  by (simp add: checkUnitShape_def)

section \<open>Properties\<close>

text \<open>
  C27: A work unit that is created is bound to its mission and starts in \<open>DRAFT\<close>; advanced through
  the canonical guard it changes only its stage, along legal moves of the mission's lifecycle. The
  validation accepts it again for exactly the missions of the same id, company, period and intent,
  and only as long as it has not been advanced.
\<close>

theorem work_units_follow_their_mission:
  assumes "createWorkUnit intent mission input = Some (Valid u)" and "advance_all ss u = Valid u'"
  shows "successively (\<lambda>a b. mission_step a b \<and> b \<noteq> a) (DRAFT # ss) \<and>
    u' = u\<lparr>wu_stage := last (DRAFT # ss)\<rparr> \<and>
    (\<forall>mission'. validateWorkUnit intent u' mission' = Some (Valid u') \<longleftrightarrow>
       ss = [] \<and> sn_id mission' = sn_id mission \<and> sn_companyId mission' = sn_companyId mission \<and>
       sn_fiscalPeriod mission' = sn_fiscalPeriod mission \<and>
       intent (sn_intent mission') = intent (sn_intent mission))"
proof -
  from assms(1) have u: "wu_stage u = DRAFT" "wu_missionId u = J_str (sn_id mission)"
    "ws_companyId (wu_scope u) = J_str (sn_companyId mission)"
    "ws_period (wu_scope u) = J_str (sn_fiscalPeriod mission)"
    "ws_intent (wu_scope u) = J_str (intent (sn_intent mission))" "checkUnitShape u = Some []"
    by (auto simp: createWorkUnit_def Let_def assembleScope_def INITIAL_STAGE_def)
  from assms(2) u(1) have s: "successively (\<lambda>a b. mission_step a b \<and> b \<noteq> a) (DRAFT # ss)"
    "u' = u\<lparr>wu_stage := last (DRAFT # ss)\<rparr>"
    by (simp_all only: advance_all_Valid)
  have shape: "checkUnitShape u' = checkUnitShape u" by (simp only: s(2) shape_of_stage)
  have "last (DRAFT # ss) = DRAFT \<longleftrightarrow> ss = []" using last_stage [OF s(1)] by simp
  then have "validateWorkUnit intent u' mission' = Some (Valid u') \<longleftrightarrow>
      ss = [] \<and> sn_id mission' = sn_id mission \<and> sn_companyId mission' = sn_companyId mission \<and>
      sn_fiscalPeriod mission' = sn_fiscalPeriod mission \<and>
      intent (sn_intent mission') = intent (sn_intent mission)" for mission'
    using u shape by (auto simp: validateWorkUnit_def INITIAL_STAGE_def s(2))
  with s show ?thesis by blast
qed

definition bound_candidate :: "WorkScope \<Rightarrow> ProposedCandidateRef \<Rightarrow> bool" where
  "bound_candidate scope c \<longleftrightarrow>
     filled (pr_id c) \<and> matches hex64 (pr_subjectHash c) \<and> pr_ruc c = ws_ruc scope \<and>
     pr_period c = ws_period scope \<and> non_negative (mb_value (pr_materialityBasis c))"

definition typed_outcome :: "js_value \<Rightarrow> bool" where
  "typed_outcome v \<longleftrightarrow>
     (if get_field v ''kind'' = J_str ''SUCCEEDED'' then ''reason'' \<notin> set (object_keys v)
      else matches (\<lambda>s. s \<in> set STOP_KINDS) (get_field (get_field v ''reason'') ''kind''))"

lemma reading_Nil: "reading v c = Some [] \<Longrightarrow> c = Some []"
  by (cases v) auto

lemma outcome_typed: "checkOutcome v path = Some [] \<Longrightarrow> typed_outcome v"
  by (auto simp: checkOutcome_def typed_outcome_def checkStopReason_def dest!: reading_Nil
      split: if_splits js_value.splits)

lemma fields_of_explanation: "checkResultFields (r\<lparr>wr_explanation := e\<rparr>) u v = checkResultFields r u v"
  by (simp add: checkResultFields_def)

lemma candidates_bound:
  assumes "all_checks (map (\<lambda>(i, c). checkProposedCandidateRef c scope (indexed p i)) (enumerate k cs)) = Some []"
  shows "list_all (bound_candidate scope) cs"
  using assms
  by (induction cs arbitrary: k)
    (auto simp: checkProposedCandidateRef_def bound_candidate_def checkHash_def basis_checks_def)

text \<open>
  A work result that is created names its unit and its mission, continues from the unit's stage by
  a legal move of the lifecycle, proposes only candidates of the unit's fiscal scope, each under a
  SHA-256 digest and a value that is not negative, and gives a reason of the closed vocabulary unless it
  succeeded. It validates again, whatever its explanation is replaced with.
\<close>

theorem work_results_are_bound:
  assumes "createWorkResult u input validateTransition = Some (Valid r)"
  shows "wr_workUnitId r = wu_id u \<and> wr_missionId r = wu_missionId u \<and>
    nt_from (wr_nextTransition r) = wu_stage u \<and> mission_step (wu_stage u) (nt_to (wr_nextTransition r)) \<and>
    (\<exists>cs. wr_proposedCandidates r = Some cs \<and> list_all (bound_candidate (wu_scope u)) cs) \<and>
    typed_outcome (wr_outcome r) \<and> non_negative (ca_costIncurredCents (wr_costAndAttempts r)) \<and>
    (\<forall>e. validateWorkResult (r\<lparr>wr_explanation := e\<rparr>) u validateTransition =
       Some (Valid (r\<lparr>wr_explanation := e\<rparr>)))"
proof -
  from assms have c: "checkResultFields r u validateTransition = Some []"
    and ids: "wr_workUnitId r = wu_id u" "wr_missionId r = wu_missionId u"
    by (auto simp: createWorkResult_def Let_def)
  note c' = c [unfolded checkResultFields_def all_checks_Nil list.pred_inject require_Nil]
  have nt: "nt_from (wr_nextTransition r) = wu_stage u" using c' by blast
  have "\<not> isl (validateTransition (nt_from (wr_nextTransition r)) (nt_to (wr_nextTransition r)))"
    using c' by blast
  then have step: "\<not> isl (validateTransition (wu_stage u) (nt_to (wr_nextTransition r)))" unfolding nt .
  have out: "checkOutcome (wr_outcome r) ''outcome'' = Some []"
    and cost: "non_negative (ca_costIncurredCents (wr_costAndAttempts r))"
    and cands: "(case wr_proposedCandidates r of
         None \<Rightarrow> issue Bad_Scope ''proposedCandidates''
       | Some cs \<Rightarrow> all_checks (map (\<lambda>(i, c). checkProposedCandidateRef c (wu_scope u)
             (indexed ''proposedCandidates'' i)) (enumerate 0 cs))) = Some []"
    using c' by blast+
  from cands obtain cs where cs: "wr_proposedCandidates r = Some cs"
    "all_checks (map (\<lambda>(i, c). checkProposedCandidateRef c (wu_scope u)
       (indexed ''proposedCandidates'' i)) (enumerate 0 cs)) = Some []"
    by (cases "wr_proposedCandidates r") (simp_all only: option.simps issue_Nil)
  have "checkResultFields (r\<lparr>wr_explanation := e\<rparr>) u validateTransition = Some []" for e
    using c by (simp only: fields_of_explanation)
  moreover have "mission_step (wu_stage u) (nt_to (wr_nextTransition r))"
    using step validateTransition_Inr_iff by (metis (full_types) old.unit.exhaust sum.collapse(2))
  ultimately show ?thesis
    using ids nt cost outcome_typed [OF out] cs(1) candidates_bound [OF cs(2)]
    by (simp add: validateWorkResult_def)
qed

section \<open>Witnesses\<close>

definition zero_hash :: js_value where
  "zero_hash = J_str (replicate 64 (CHR ''0''))"

definition work_mission :: MissionSnapshot where
  "work_mission =
     \<lparr>sn_id = ''m'', sn_companyId = ''c'', sn_fiscalPeriod = ''202401'', sn_intent = Invoice_Review,
      sn_status = DRAFT, sn_version = 1, sn_progress = 0, sn_steps = [], sn_currentStep = [],
      sn_blockers = [], sn_proposal = None, sn_rejection = None, sn_receiptId = None, sn_receiptHash = None,
      sn_lastEventSequence = 1, sn_createdAt = [], sn_updatedAt = []\<rparr>"

definition work_input :: WorkUnit where
  "work_input =
     \<lparr>wu_id = J_str ''u'', wu_missionId = J_undefined, wu_objective = J_str ''o'', wu_stage = COMPLETED,
      wu_scope = \<lparr>ws_tenantId = J_str ''t'', ws_ruc = J_str ''20100070970'', ws_companyId = J_undefined,
        ws_companyName = J_undefined, ws_period = J_undefined, ws_intent = J_undefined\<rparr>,
      wu_evidenceAllowed = J_arr [], wu_skills = J_arr [], wu_policies = J_arr [], wu_authorizedTools = J_arr [],
      wu_authorizedDestinations = J_arr [],
      wu_outputSchema = J_obj [(''id'', J_str ''s''), (''version'', J_str ''1''), (''contentHash'', zero_hash)],
      wu_budgets = \<lparr>wb_timeLimitMs = whole 5, wb_tokenLimit = whole 5, wb_costLimitCents = Some 0,
        wb_researchAttemptLimit = whole 3, wb_correctionAttemptLimit = whole 1\<rparr>,
      wu_successConditions = J_arr
        [J_obj [(''kind'', J_str ''EVIDENCE_HASHES_PRESENT''), (''required'', J_arr [zero_hash])]],
      wu_stopConditions = J_arr [J_str ''UNSUPPORTED_WORK'']\<rparr>"

definition work_intent :: "mission_intent \<Rightarrow> js_string" where
  "work_intent i = (case i of Invoice_Review \<Rightarrow> ''invoice-review'' | _ \<Rightarrow> ''other'')"

definition work_unit :: WorkUnit where
  "work_unit =
     work_input\<lparr>wu_missionId := J_str ''m'', wu_stage := DRAFT,
       wu_scope := \<lparr>ws_tenantId = J_str ''t'', ws_ruc = J_str ''20100070970'', ws_companyId = J_str ''c'',
         ws_companyName = J_undefined, ws_period = J_str ''202401'', ws_intent = J_str ''invoice-review''\<rparr>\<rparr>"

lemma work_unit_created: "createWorkUnit work_intent work_mission work_input = Some (Valid work_unit)"
proof -
  have u: "work_input\<lparr>wu_missionId := J_str (sn_id work_mission), wu_stage := INITIAL_STAGE,
      wu_scope := assembleScope work_intent work_mission (wu_scope work_input)\<rparr> = work_unit"
    by (simp add: work_unit_def work_input_def assembleScope_def work_mission_def work_intent_def INITIAL_STAGE_def)
  have "checkUnitShape work_unit = Some []" by code_simp
  then show ?thesis unfolding createWorkUnit_def Let_def u by simp
qed

theorem work_units_follow_their_mission_witness:
  "\<exists>u. advance_all [QUEUED, RUNNING] work_unit = Valid u \<and>
     validateWorkUnit work_intent u work_mission \<noteq> Some (Valid u) \<and>
     validateWorkUnit work_intent work_unit work_mission = Some (Valid work_unit)"
proof -
  have s: "wu_stage work_unit = DRAFT" by (simp add: work_unit_def)
  have "advance_all [QUEUED, RUNNING] work_unit = Valid (work_unit\<lparr>wu_stage := RUNNING\<rparr>)"
    unfolding advance_all_Valid s by (simp add: mission_step_code VALID_TRANSITIONS_def)
  moreover have "advance_all [] work_unit = Valid work_unit" by simp
  ultimately show ?thesis
    using work_units_follow_their_mission [OF work_unit_created, of "[QUEUED, RUNNING]"]
      work_units_follow_their_mission [OF work_unit_created, of "[]"] by blast
qed

definition work_result :: WorkResult where
  "work_result =
     \<lparr>wr_workUnitId = J_undefined, wr_missionId = J_undefined,
      wr_outcome = J_obj [(''kind'', J_str ''STOPPED''), (''reason'',
        J_obj [(''kind'', J_str ''AMBIGUOUS_INPUT''), (''fields'', J_arr [J_str ''ruc''])])],
      wr_evidenceRefs = J_arr [J_obj [(''algorithm'', J_str ''sha256''), (''hash'', zero_hash)]],
      wr_proposedCandidates = Some
        [\<lparr>pr_id = J_str ''i'', pr_subjectHash = zero_hash, pr_ruc = J_str ''20100070970'',
          pr_period = J_str ''202401'', pr_materiality = R1,
          pr_materialityBasis = \<lparr>mb_value = Some 5, mb_reversibility = J_str ''reversible'',
            mb_jurisdiction = J_str ''PE''\<rparr>\<rparr>],
      wr_unresolvedExceptions = J_arr [], wr_policyVersions = J_arr [], wr_toolProvenance = J_arr [],
      wr_costAndAttempts = \<lparr>ca_costIncurredCents = Some 0, ca_researchAttempts = whole 0,
        ca_correctionAttempts = whole 0\<rparr>,
      wr_nextTransition = \<lparr>nt_from = DRAFT, nt_to = QUEUED\<rparr>, wr_explanation = J_undefined\<rparr>"

definition work_result_made :: WorkResult where
  "work_result_made = work_result\<lparr>wr_workUnitId := J_str ''u'', wr_missionId := J_str ''m''\<rparr>"

lemma work_result_created: "createWorkResult work_unit work_result validateTransition = Some (Valid work_result_made)"
proof -
  have r: "work_result\<lparr>wr_workUnitId := wu_id work_unit, wr_missionId := wu_missionId work_unit\<rparr> = work_result_made"
    by (simp add: work_result_made_def work_unit_def work_input_def)
  have "checkResultFields work_result_made work_unit validateTransition = Some []" by code_simp
  then show ?thesis unfolding createWorkResult_def Let_def r by simp
qed

theorem work_results_are_bound_witness:
  "typed_outcome (wr_outcome work_result_made) \<and>
   validateWorkResult (work_result_made\<lparr>wr_explanation := J_str ''x''\<rparr>) work_unit validateTransition =
     Some (Valid (work_result_made\<lparr>wr_explanation := J_str ''x''\<rparr>))"
  using work_results_are_bound [OF work_result_created] by blast

end
