(* ===== verification/Skill_Registry.thy ===== *)
theory Skill_Registry
  imports Tenant
begin

text \<open>
  \<^verbatim>\<open>skills/types.ts\<close> and \<^verbatim>\<open>skills/registry.ts\<close>: skill definitions, their
  canonical text and checksum, the versions and the registry. A skill is the object the code
  hashes, undeclared properties included, with the declared types of \<open>SkillDefinition\<close>; no key
  of it is an array index or \<open>__proto__\<close>, which JavaScript enumerates in another order. The
  registry is its list of skills in registration order. \<open>Number\<close> of a text of decimal digits is
  the nearest double; of any other text it is the argument \<open>num\<close>, which no registered version needs.
\<close>

section \<open>Canonical text and checksum\<close>

text \<open>Keys sorted at every level, \<open>undefined\<close> properties left out.\<close>

fun sortSkill :: "js_value \<Rightarrow> js_value" where
  "sortSkill (J_arr vs) = J_arr (map sortSkill vs)"
| "sortSkill (J_obj fs) =
     J_obj (sort_fields (map (\<lambda>(k, v). (k, sortSkill v)) (filter (\<lambda>(k, v). v \<noteq> J_undefined) fs)))"
| "sortSkill v = v"

fun without_checksum :: "js_value \<Rightarrow> js_value" where
  "without_checksum (J_obj fs) = J_obj (filter (\<lambda>(k, v). k \<noteq> ''checksum'') fs)"
| "without_checksum v = v"

definition canonicalSkillJson :: "js_lib \<Rightarrow> js_value \<Rightarrow> js_string" where
  "canonicalSkillJson L skill = json_stringify (lib_number L) (sortSkill (without_checksum skill))"

definition computeSkillChecksum :: "js_lib \<Rightarrow> js_value \<Rightarrow> js_string" where
  "computeSkillChecksum L skill = lib_sha256 L (canonicalSkillJson L skill)"

section \<open>Validation\<close>

datatype skill_error =
  SKILL_INVALID | SKILL_CHECKSUM_MISMATCH | SKILL_NOT_FOUND | SKILL_OUT_OF_VALIDITY
| SKILL_JURISDICTION_MISMATCH

definition VALID_TIERS :: "js_string list" where
  "VALID_TIERS = [''R0'', ''R1'', ''R2'', ''R3'']"

definition VALID_PERMISSIONS :: "js_string list" where
  "VALID_PERMISSIONS =
     [''evidence:read'', ''evidence:write'', ''candidate:propose'', ''gate:inspect'', ''ledger:read'',
      ''receipt:verify'', ''skill:read'']"

definition is_lower :: "char \<Rightarrow> bool" where
  "is_lower c \<longleftrightarrow> 97 \<le> code_unit c \<and> code_unit c \<le> 122"

definition is_upper :: "char \<Rightarrow> bool" where
  "is_upper c \<longleftrightarrow> 65 \<le> code_unit c \<and> code_unit c \<le> 90"

text \<open>\<open>/^[a-z0-9][a-z0-9.-]*$/\<close>\<close>

definition skill_id_pattern :: "js_string \<Rightarrow> bool" where
  "skill_id_pattern s \<longleftrightarrow>
     (case s of
        [] \<Rightarrow> False
      | c # r \<Rightarrow> (is_lower c \<or> is_digit c) \<and>
          list_all (\<lambda>d. is_lower d \<or> is_digit d \<or> d = CHR ''.'' \<or> d = CHR ''-'') r)"

text \<open>\<open>s.split(c)\<close> for one character.\<close>

fun split_on :: "char \<Rightarrow> js_string \<Rightarrow> js_string list" where
  "split_on c [] = [[]]"
| "split_on c (d # s) =
     (if d = c then [] # split_on c s
      else (case split_on c s of [] \<Rightarrow> [[d]] | p # ps \<Rightarrow> (d # p) # ps))"

lemma split_on_nonempty: "split_on c s \<noteq> []"
  by (induction s) (auto split: list.split)

text \<open>\<open>/^\d+\.\d+\.\d+$/\<close>\<close>

definition digits :: "js_string \<Rightarrow> bool" where
  "digits s \<longleftrightarrow> s \<noteq> [] \<and> list_all is_digit s"

definition version_pattern :: "js_string \<Rightarrow> bool" where
  "version_pattern s \<longleftrightarrow> length (split_on CHR ''.'' s) = 3 \<and> list_all digits (split_on CHR ''.'' s)"

definition jurisdiction_pattern :: "js_string \<Rightarrow> bool" where
  "jurisdiction_pattern s \<longleftrightarrow> length s = 2 \<and> list_all is_upper s"

definition isValidIsoDate :: "js_lib \<Rightarrow> js_string \<Rightarrow> bool" where
  "isValidIsoDate L v \<longleftrightarrow> ISO_DATE_PATTERN v \<and> lib_parse L (v @ ''T00:00:00Z'') \<noteq> None"

definition permission_ok :: "js_value \<Rightarrow> bool" where
  "permission_ok p \<longleftrightarrow> (case p of J_str s \<Rightarrow> s \<in> set VALID_PERMISSIONS | _ \<Rightarrow> False)"

fun is_text :: "js_value \<Rightarrow> bool" where
  "is_text (J_str _) = True"
| "is_text _ = False"

fun is_list :: "js_value \<Rightarrow> bool" where
  "is_list (J_arr _) = True"
| "is_list _ = False"

fun elements :: "js_value \<Rightarrow> js_value list" where
  "elements (J_arr vs) = vs"
| "elements _ = []"

definition validateSkill :: "js_lib \<Rightarrow> js_value \<Rightarrow> skill_error + unit" where
  "validateSkill L skill =
     (let validity = get_field skill ''validity''; vto = get_field validity ''to'';
          vfrom = str_field validity ''from''
      in if \<not> skill_id_pattern (str_field skill ''id'') then Inl SKILL_INVALID
         else if \<not> version_pattern (str_field skill ''version'') then Inl SKILL_INVALID
         else if \<not> jurisdiction_pattern (str_field skill ''jurisdiction'') then Inl SKILL_INVALID
         else if \<not> isValidIsoDate L vfrom then Inl SKILL_INVALID
         else if vto \<noteq> J_undefined \<and> \<not> isValidIsoDate L (str_field validity ''to'') then Inl SKILL_INVALID
         else if vto \<noteq> J_undefined \<and> str_field validity ''to'' \<le> vfrom then Inl SKILL_INVALID
         else if str_field skill ''maxAutonomy'' \<notin> set VALID_TIERS then Inl SKILL_INVALID
         else if \<not> list_all permission_ok (elements (get_field skill ''requiredPermissions''))
         then Inl SKILL_INVALID
         else if \<not> hex64 (str_field skill ''checksum'') then Inl SKILL_INVALID
         else Inr ())"

definition isSkillInForce :: "js_lib \<Rightarrow> js_value \<Rightarrow> js_string \<Rightarrow> bool" where
  "isSkillInForce L skill day \<longleftrightarrow>
     (let validity = get_field skill ''validity''
      in if \<not> isValidIsoDate L day then False
         else if day < str_field validity ''from'' then False
         else if get_field validity ''to'' \<noteq> J_undefined \<and> str_field validity ''to'' \<le> day then False
         else True)"

section \<open>Versions\<close>

text \<open>The double nearest to a natural number, ties to even, as \<open>Number\<close> reads digits.\<close>

fun bit_size :: "nat \<Rightarrow> nat" where
  "bit_size n = (if n = 0 then 0 else Suc (bit_size (n div 2)))"

declare bit_size.simps [simp del]

definition double_nat :: "nat \<Rightarrow> js_number" where
  "double_nat n =
     (if n < 2 ^ 53 then Fin (of_nat n)
      else (let e = bit_size n - 53; q = n div 2 ^ e; r = n mod 2 ^ e;
                q' = (if 2 * r > 2 ^ e \<or> 2 * r = 2 ^ e \<and> odd q then q + 1 else q)
            in if q' * 2 ^ e < 2 ^ 1024 then Fin (of_nat (q' * 2 ^ e)) else Infinite False))"

definition js_Number :: "(js_string \<Rightarrow> js_number) \<Rightarrow> js_string \<Rightarrow> js_number" where
  "js_Number num s = (if digits s then double_nat (undec s) else num s)"

fun num_diff :: "js_number \<Rightarrow> js_number \<Rightarrow> js_number" where
  "num_diff (Fin a) (Fin b) = Fin (a - b)"
| "num_diff (Infinite a) (Fin _) = Infinite a"
| "num_diff (Fin _) (Infinite b) = Infinite (\<not> b)"
| "num_diff (Infinite a) (Infinite b) = (if a = b then NaN else Infinite a)"
| "num_diff _ _ = NaN"

text \<open>What \<open>sort\<close> makes of the comparator's number: NaN counts as 0.\<close>

fun order_of :: "js_number \<Rightarrow> int" where
  "order_of (Fin r) = (if r < 0 then -1 else if r > 0 then 1 else 0)"
| "order_of (Infinite negative) = (if negative then -1 else 1)"
| "order_of NaN = 0"

fun first_diff :: "(js_number \<times> js_number) list \<Rightarrow> js_number" where
  "first_diff [] = Fin 0"
| "first_diff ((a, b) # ps) = (let diff = num_diff a b in if diff \<noteq> Fin 0 then diff else first_diff ps)"

definition version_part :: "(js_string \<Rightarrow> js_number) \<Rightarrow> js_string \<Rightarrow> nat \<Rightarrow> js_number" where
  "version_part num v i =
     (let ps = split_on CHR ''.'' v in if i < length ps then js_Number num (ps ! i) else Fin 0)"

definition version_parts :: "(js_string \<Rightarrow> js_number) \<Rightarrow> js_string \<Rightarrow> js_number list" where
  "version_parts num v = map (version_part num v) [0, 1, 2]"

definition compareVersions :: "(js_string \<Rightarrow> js_number) \<Rightarrow> js_string \<Rightarrow> js_string \<Rightarrow> js_number" where
  "compareVersions num a b = first_diff (zip (version_parts num a) (version_parts num b))"

section \<open>Registry\<close>

definition register_skill ::
    "js_lib \<Rightarrow> js_value list \<Rightarrow> js_value \<Rightarrow> (skill_error + js_value) \<times> js_value list" where
  "register_skill L skills skill =
     (case validateSkill L skill of
        Inl e \<Rightarrow> (Inl e, skills)
      | Inr _ \<Rightarrow>
          if str_field skill ''checksum'' \<noteq> computeSkillChecksum L skill
          then (Inl SKILL_CHECKSUM_MISMATCH, skills)
          else (Inr skill, skills @ [skill]))"

definition list_skills :: "js_value list \<Rightarrow> js_string option \<Rightarrow> js_value list" where
  "list_skills skills jurisdiction =
     (case jurisdiction of
        None \<Rightarrow> skills
      | Some j \<Rightarrow> filter (\<lambda>s. str_field s ''jurisdiction'' = j) skills)"

definition resolveVersion :: "js_value list \<Rightarrow> js_string \<Rightarrow> js_string \<Rightarrow> skill_error + js_value" where
  "resolveVersion skills ident version =
     (case find (\<lambda>s. str_field s ''id'' = ident \<and> str_field s ''version'' = version) skills of
        None \<Rightarrow> Inl SKILL_NOT_FOUND
      | Some s \<Rightarrow> Inr s)"

definition skill_candidate ::
    "js_lib \<Rightarrow> js_string \<Rightarrow> js_string \<Rightarrow> js_string option \<Rightarrow> js_value \<Rightarrow> bool" where
  "skill_candidate L ident day jurisdiction s \<longleftrightarrow>
     str_field s ''id'' = ident \<and> isSkillInForce L s day \<and>
     (case jurisdiction of None \<Rightarrow> True | Some j \<Rightarrow> str_field s ''jurisdiction'' = j)"

definition latest_first :: "(js_string \<Rightarrow> js_number) \<Rightarrow> js_value \<Rightarrow> js_value \<Rightarrow> int" where
  "latest_first num a b = order_of (compareVersions num (str_field b ''version'') (str_field a ''version''))"

definition resolveAt ::
    "js_lib \<Rightarrow> (js_string \<Rightarrow> js_number) \<Rightarrow> js_value list \<Rightarrow> js_string \<Rightarrow> js_string \<Rightarrow> js_string option \<Rightarrow>
     skill_error + js_value" where
  "resolveAt L num skills ident day jurisdiction =
     (let candidates = filter (skill_candidate L ident day jurisdiction) skills
      in if length candidates = 0 then
           (case find (\<lambda>s. str_field s ''id'' = ident) skills of
              None \<Rightarrow> Inl SKILL_NOT_FOUND
            | Some base \<Rightarrow>
                if (case jurisdiction of None \<Rightarrow> False | Some j \<Rightarrow> str_field base ''jurisdiction'' \<noteq> j)
                then Inl SKILL_JURISDICTION_MISMATCH
                else Inl SKILL_OUT_OF_VALIDITY)
         else Inr (js_sort (latest_first num) candidates ! 0))"

section \<open>The canonical text determines the definition\<close>

text \<open>The value the text shows: absent properties dropped, and null in place of an absent element.\<close>

fun shown :: "js_value \<Rightarrow> js_value" where
  "shown J_undefined = J_null"
| "shown (J_arr vs) = J_arr (map shown vs)"
| "shown (J_obj fs) = J_obj (map (\<lambda>(k, v). (k, shown v)) (filter (\<lambda>(k, v). v \<noteq> J_undefined) fs))"
| "shown v = v"

definition skill_content :: "js_value \<Rightarrow> js_value" where
  "skill_content skill = normal (shown (without_checksum skill))"

lemma sortSkill_undefined [simp]: "sortSkill v = J_undefined \<longleftrightarrow> v = J_undefined"
  by (cases v) auto

lemma filter_defined_id: "list_all (\<lambda>(k, v). v \<noteq> J_undefined) fs \<Longrightarrow> filter (\<lambda>(k, v). v \<noteq> J_undefined) fs = fs"
  by (induction fs) auto

lemma shown_defined [simp]: "shown v \<noteq> J_undefined"
  by (cases v) auto

lemma stringify_sorted: "json_stringify fr (sortSkill v) = canonical_text fr (shown v)"
proof (induction v)
  case (J_arr vs)
  then have "map (json_stringify fr) (map sortSkill vs) = map (canonical_text fr) (map shown vs)" by simp
  moreover have "map (\<lambda>v. if v = J_undefined then [] else canonical_text fr v) (map shown vs) =
      map (canonical_text fr) (map shown vs)" by simp
  ultimately show ?case by (simp only: sortSkill.simps json_stringify.simps shown.simps canonical_text.simps)
next
  case (J_obj fs)
  let ?gs = "filter (\<lambda>(k, v). v \<noteq> J_undefined) fs"
  have d: "list_all (\<lambda>(k, v). v \<noteq> J_undefined) (map (\<lambda>(k, v). (k, sortSkill v)) (sort_fields ?gs))"
    by (auto simp: list_all_iff)
  have "map (\<lambda>(k, v). json_field (k, json_stringify fr v)) (map (\<lambda>(k, v). (k, sortSkill v)) (sort_fields ?gs)) =
      map (\<lambda>(k, v). json_field (k, canonical_text fr v)) (map (\<lambda>(k, v). (k, shown v)) (sort_fields ?gs))"
    using J_obj by auto
  then show ?case
    by (simp only: sortSkill.simps shown.simps json_stringify.simps canonical_obj sort_fields_map
        filter_defined_id [OF d])
qed simp_all

lemma protocol_shown: "protocol_value v \<Longrightarrow> protocol_value (shown v)"
  by (induction v) (auto simp: list_all_iff)

lemma protocol_without_checksum: "protocol_value v \<Longrightarrow> protocol_value (without_checksum v)"
  by (cases v) (auto simp: list_all_iff)

lemma canonical_skill_text: "canonicalSkillJson L s = canonical_text (lib_number L) (shown (without_checksum s))"
  by (simp add: canonicalSkillJson_def stringify_sorted)

lemma canonical_skill_iff:
  assumes "protocol_value a" "protocol_value b"
  shows "canonicalSkillJson L a = canonicalSkillJson L b \<longleftrightarrow> skill_content a = skill_content b"
proof -
  have p: "protocol_value (shown (without_checksum a))" "protocol_value (shown (without_checksum b))"
    using assms by (simp_all add: protocol_shown protocol_without_checksum)
  have c: "closes []" by (simp add: closes_def)
  from canonical_text_prefix [OF p c c, of "lib_number L"] text_normal [OF p(1), of "lib_number L"]
    text_normal [OF p(2), of "lib_number L"]
  show ?thesis by (auto simp: canonical_skill_text skill_content_def)
qed

section \<open>Versions are totally preordered\<close>

lemma double_nat_cases: "(\<exists>r. double_nat n = Fin r) \<or> double_nat n = Infinite False"
  by (simp add: double_nat_def Let_def)

lemma first_diff_swap:
  "length p = length q \<Longrightarrow> NaN \<notin> set p \<Longrightarrow> NaN \<notin> set q \<Longrightarrow>
     order_of (first_diff (zip q p)) = - order_of (first_diff (zip p q))"
proof (induction p q rule: list_induct2)
  case (Cons x xs y ys)
  then show ?case by (cases x; cases y) (auto simp: Let_def)
qed simp

lemma first_diff_trans:
  "length p = length q \<Longrightarrow> length q = length r \<Longrightarrow> NaN \<notin> set p \<Longrightarrow> NaN \<notin> set q \<Longrightarrow> NaN \<notin> set r \<Longrightarrow>
     order_of (first_diff (zip p q)) \<le> 0 \<Longrightarrow> order_of (first_diff (zip q r)) \<le> 0 \<Longrightarrow>
     order_of (first_diff (zip p r)) \<le> 0"
proof (induction p q r rule: list_induct3)
  case (Cons x xs y ys z zs)
  then show ?case
    by (cases x; cases y; cases z) (auto simp: Let_def split: if_splits)
qed simp

lemma version_parts_length [simp]: "length (version_parts num v) = 3"
  by (simp add: version_parts_def)

definition zero_number :: "js_string \<Rightarrow> js_number" where
  "zero_number s = Fin 0"

lemma version_parts_finite: "NaN \<notin> set (version_parts zero_number v)"
proof -
  have "version_part zero_number v i \<noteq> NaN" for i
    using double_nat_cases by (auto simp: version_part_def js_Number_def zero_number_def Let_def)
       (metis js_number.distinct(1) js_number.distinct(5))
  then show ?thesis by (auto simp: version_parts_def) metis+
qed

lemma version_order: "total_preorder (latest_first zero_number)"
  unfolding total_preorder_def
proof (intro conjI allI impI)
  let ?p = "\<lambda>v. version_parts zero_number (str_field v ''version'')"
  fix x y z
  show "latest_first zero_number x y \<le> 0 \<or> latest_first zero_number y x \<le> 0"
    using first_diff_swap [of "?p x" "?p y"] version_parts_finite
    by (auto simp: latest_first_def compareVersions_def)
  assume "latest_first zero_number x y \<le> 0" "latest_first zero_number y z \<le> 0"
  then show "latest_first zero_number x z \<le> 0"
    using first_diff_trans [of "?p z" "?p y" "?p x"] version_parts_finite
    by (auto simp: latest_first_def compareVersions_def)
qed

section \<open>What a registry holds and resolves\<close>

definition register_all :: "js_lib \<Rightarrow> js_value list \<Rightarrow> js_value list" where
  "register_all L skills = foldl (\<lambda>held s. snd (register_skill L held s)) [] skills"

definition registrable :: "js_lib \<Rightarrow> js_value \<Rightarrow> bool" where
  "registrable L s \<longleftrightarrow> validateSkill L s = Inr () \<and> str_field s ''checksum'' = computeSkillChecksum L s"

lemma register_skill_iff:
  "register_skill L held s =
     (if registrable L s then (Inr s, held @ [s])
      else (Inl (if isl (validateSkill L s) then SKILL_INVALID else SKILL_CHECKSUM_MISMATCH), held))"
  by (auto simp: register_skill_def registrable_def validateSkill_def Let_def split: sum.splits if_splits)

lemma register_all_filter: "register_all L skills = filter (registrable L) skills"
proof -
  have "foldl (\<lambda>held s. snd (register_skill L held s)) h skills = h @ filter (registrable L) skills" for h
    by (induction skills arbitrary: h) (auto simp: register_skill_iff)
  then show ?thesis by (simp add: register_all_def)
qed

lemma registrable_version: "registrable L s \<Longrightarrow> version_pattern (str_field s ''version'')"
  by (auto simp: registrable_def validateSkill_def Let_def split: if_splits)

lemma version_parts_registered:
  assumes "version_pattern v"
  shows "version_parts num v = map (\<lambda>p. double_nat (undec p)) (split_on CHR ''.'' v)"
proof -
  obtain a b c where s: "split_on CHR ''.'' v = [a, b, c]"
    using assms by (auto simp: version_pattern_def numeral_3_eq_3 length_Suc_conv)
  with assms have "digits a" "digits b" "digits c" by (simp_all add: version_pattern_def)
  with s show ?thesis by (simp add: version_parts_def version_part_def js_Number_def)
qed

lemma latest_first_registered:
  "registrable L s \<Longrightarrow> registrable L t \<Longrightarrow> latest_first num s t = latest_first zero_number s t"
  using registrable_version
  by (simp add: latest_first_def compareVersions_def version_parts_registered)

lemma resolve_nonempty:
  assumes "list_all (registrable L) S" and "filter (skill_candidate L i day j) S \<noteq> []"
  shows "resolveAt L num S i day j = Inr (hd (js_sort (latest_first zero_number) (filter (skill_candidate L i day j) S)))"
proof -
  let ?c = "filter (skill_candidate L i day j) S"
  have "js_sort (latest_first num) ?c = js_sort (latest_first zero_number) ?c"
    using assms(1) by (intro js_sort_cong latest_first_registered) (auto simp: list_all_iff)
  moreover have "js_sort (latest_first zero_number) ?c \<noteq> []" using assms(2) by simp
  ultimately show ?thesis using assms(2) by (simp add: resolveAt_def hd_conv_nth del: js_sort_eq_Nil)
qed

definition version_of :: "js_value \<Rightarrow> js_string" where
  "version_of s = str_field s ''version''"

definition newer :: "(js_string \<Rightarrow> js_number) \<Rightarrow> js_value \<Rightarrow> js_value \<Rightarrow> bool" where
  "newer num a b \<longleftrightarrow> order_of (compareVersions num (version_of a) (version_of b)) > 0"

lemma latest_first_newer: "latest_first num a b \<le> 0 \<longleftrightarrow> \<not> newer num b a"
  by (auto simp: latest_first_def newer_def version_of_def)

lemma newer_registered:
  "registrable L s \<Longrightarrow> registrable L t \<Longrightarrow> newer num s t = newer zero_number s t"
  using latest_first_newer latest_first_registered by metis

lemma resolve_first_latest:
  assumes S: "list_all (registrable L) S" and c: "filter (skill_candidate L i day j) S \<noteq> []"
  shows "\<exists>s pre post. resolveAt L num S i day j = Inr s \<and> filter (skill_candidate L i day j) S = pre @ s # post \<and>
    list_all (newer num s) pre \<and> list_all (\<lambda>t. \<not> newer num t s) post"
proof -
  define s where "s = hd (js_sort (latest_first zero_number) (filter (skill_candidate L i day j) S))"
  obtain pre post where s: "filter (skill_candidate L i day j) S = pre @ s # post"
    "list_all (newer zero_number s) pre" "list_all (\<lambda>t. \<not> newer zero_number t s) post"
    using hd_js_sort_split [OF version_order c] unfolding latest_first_newer not_not s_def by blast
  have r: "resolveAt L num S i day j = Inr s" using resolve_nonempty [OF S c] by (simp add: s_def)
  have "registrable L t" if "t \<in> set (pre @ s # post)" for t
    using S that unfolding s(1) [symmetric] by (auto simp: list_all_iff)
  with s(2,3) have "list_all (newer num s) pre" "list_all (\<lambda>t. \<not> newer num t s) post"
    by (auto simp: list_all_iff newer_registered [of L _ _ num])
  with s r show ?thesis by blast
qed

text \<open>Below 2^53 the versions compare as lists of numbers.\<close>

definition version_numbers :: "js_value \<Rightarrow> nat list" where
  "version_numbers s = map undec (split_on CHR ''.'' (version_of s))"

lemma newer_numbers:
  assumes "registrable L s" "registrable L t"
    and "list_all (\<lambda>n. n < 2 ^ 53) (version_numbers s)" "list_all (\<lambda>n. n < 2 ^ 53) (version_numbers t)"
  shows "newer num s t \<longleftrightarrow> version_numbers t < version_numbers s"
proof -
  have fd: "order_of (first_diff (zip (map double_nat a) (map double_nat b))) > 0 \<longleftrightarrow> b < a"
    if "length a = length b" "list_all (\<lambda>n. n < 2 ^ 53) a" "list_all (\<lambda>n. n < 2 ^ 53) b" for a b :: "nat list"
    using that by (induction a b rule: list_induct2) (auto simp: double_nat_def Let_def)
  have v: "version_pattern (version_of s)" "version_pattern (version_of t)"
    using assms(1,2) registrable_version by (simp_all add: version_of_def)
  have "version_parts num (version_of x) = map double_nat (version_numbers x)"
    if "version_pattern (version_of x)" for x
    using version_parts_registered [OF that] by (simp add: version_numbers_def comp_def)
  moreover have "length (version_numbers s) = length (version_numbers t)"
    using v by (simp add: version_numbers_def version_pattern_def)
  ultimately show ?thesis
    using fd [of "version_numbers s" "version_numbers t"] assms(3,4) v
    by (simp add: newer_def compareVersions_def)
qed

lemma register_all_registrable: "list_all (registrable L) (register_all L skills)"
  by (simp add: register_all_filter list_all_iff)

text \<open>C28: A registry holds exactly the valid skills with a matching checksum, in registration order; a
  resolution at a date answers the first registered of the newest candidates (same identifier, in
  force, asked jurisdiction) and fails exactly when there is none, saying that the identifier is
  unknown exactly when it is.
\<close>

theorem resolution_is_the_latest_in_force:
  "register_all L skills = filter (registrable L) skills \<and>
   (case resolveAt L num (register_all L skills) ident day j of
      Inr s \<Rightarrow> (\<exists>pre post.
        filter (skill_candidate L ident day j) (register_all L skills) = pre @ s # post \<and>
        list_all (newer num s) pre \<and> list_all (\<lambda>t. \<not> newer num t s) post)
    | Inl e \<Rightarrow>
        filter (skill_candidate L ident day j) (register_all L skills) = [] \<and>
        (e = SKILL_NOT_FOUND) = list_all (\<lambda>s. str_field s ''id'' \<noteq> ident) (register_all L skills) \<and>
        e \<in> {SKILL_NOT_FOUND, SKILL_JURISDICTION_MISMATCH, SKILL_OUT_OF_VALIDITY})"
proof (cases "filter (skill_candidate L ident day j) (register_all L skills) = []")
  case True
  let ?S = "register_all L skills"
  show ?thesis
  proof (cases "find (\<lambda>s. str_field s ''id'' = ident) ?S")
    case None
    then have "list_all (\<lambda>s. str_field s ''id'' \<noteq> ident) ?S" by (auto simp: find_None_iff list_all_iff)
    with True None show ?thesis by (simp add: resolveAt_def register_all_filter)
  next
    case (Some base)
    then have "\<not> list_all (\<lambda>s. str_field s ''id'' \<noteq> ident) ?S"
      by (auto simp: find_Some_iff list_all_iff)
    with True Some show ?thesis by (simp add: resolveAt_def register_all_filter)
  qed
next
  case False
  from resolve_first_latest [OF register_all_registrable this, of num] obtain s pre post
    where r: "resolveAt L num (register_all L skills) ident day j = Inr s"
      "filter (skill_candidate L ident day j) (register_all L skills) = pre @ s # post"
      "list_all (newer num s) pre" "list_all (\<lambda>t. \<not> newer num t s) post" by blast
  show ?thesis unfolding r(1) sum.case using r(2-4) register_all_filter by blast
qed

text \<open>Registering one more skill changes what is resolved at a date only when it is itself a
  candidate at that date and newer than the skill resolved before; an update that comes into
  force later never does.
\<close>

theorem only_newer_candidates_change_history:
  assumes "resolveAt L num (register_all L skills) ident day j = Inr s" and "registrable L t"
  shows "resolveAt L num (register_all L (skills @ [t])) ident day j =
    Inr (if day < str_field (get_field t ''validity'') ''from'' then s
         else if skill_candidate L ident day j t \<and> newer num t s then t else s)"
proof -
  let ?C = "filter (skill_candidate L ident day j)" and ?S = "register_all L skills"
  have S': "register_all L (skills @ [t]) = ?S @ [t]" using assms(2) by (simp add: register_all_filter)
  have reg: "list_all (registrable L) (?S @ [t])"
    using register_all_registrable [of L skills] assms(2) by simp
  have c: "?C ?S \<noteq> []" using assms(1) by (auto simp: resolveAt_def Let_def split: option.splits if_splits)
  then have s: "s = hd (js_sort (latest_first zero_number) (?C ?S))"
    using resolve_nonempty [OF register_all_registrable c, of num] assms(1) by simp
  have "s \<in> set (?C ?S)" unfolding s using c js_sort_eq_Nil set_js_sort by (metis list.set_sel(1))
  then have rs: "registrable L s" using register_all_registrable [of L skills] by (auto simp: list_all_iff)
  have late: "\<not> skill_candidate L ident day j t" if "day < str_field (get_field t ''validity'') ''from''"
    using that by (auto simp: skill_candidate_def isSkillInForce_def Let_def)
  have "resolveAt L num (?S @ [t]) ident day j = Inr (hd (js_sort (latest_first zero_number) (?C (?S @ [t]))))"
    using resolve_nonempty [OF reg] c by simp
  then show ?thesis
    using late hd_js_sort_snoc [OF version_order c, of t] newer_registered [OF assms(2) rs, of num]
    by (auto simp: S' s [symmetric] latest_first_newer)
qed

definition skill_lib :: js_lib where
  "skill_lib =
     \<lparr>lib_sha256 = (\<lambda>_. replicate 64 CHR ''a''), lib_compare = (\<lambda>a b. 0), lib_parse = (\<lambda>_. Some 0),
      lib_number = (\<lambda>_. [])\<rparr>"

definition sample_skill :: "js_string \<Rightarrow> js_string \<Rightarrow> js_value" where
  "sample_skill version from_date =
     J_obj [(''id'', J_str ''pe.igv''), (''version'', J_str version), (''jurisdiction'', J_str ''PE''),
       (''validity'', J_obj [(''from'', J_str from_date)]), (''normativeSources'', J_arr []),
       (''inputs'', J_arr []), (''outputs'', J_arr []),
       (''requiredPermissions'', J_arr [J_str ''evidence:read'']), (''maxAutonomy'', J_str ''R2''),
       (''contractCompatibility'', J_arr []), (''checksum'', J_str (replicate 64 CHR ''a'')),
       (''retirementPolicy'', J_str [])]"

lemma sample_registrable: "registrable skill_lib (sample_skill ''1.9.0'' ''2024-01-01'')"
  "registrable skill_lib (sample_skill ''1.10.0'' ''2023-01-01'')"
  by code_simp+

lemma sample_resolved:
  "resolveAt skill_lib zero_number (register_all skill_lib [sample_skill ''1.9.0'' ''2024-01-01''])
     ''pe.igv'' ''2024-06-01'' None = Inr (sample_skill ''1.9.0'' ''2024-01-01'')"
  unfolding register_all_filter using sample_registrable(1)
  by (simp add: sample_registrable) code_simp

text \<open>An update registered later, and in force from an earlier date, replaces the skill of the past.\<close>

theorem only_newer_candidates_change_history_witness:
  "resolveAt skill_lib zero_number
     (register_all skill_lib ([sample_skill ''1.9.0'' ''2024-01-01''] @ [sample_skill ''1.10.0'' ''2023-01-01'']))
     ''pe.igv'' ''2024-06-01'' None = Inr (sample_skill ''1.10.0'' ''2023-01-01'')"
proof -
  have "\<not> ''2024-06-01'' < str_field (get_field (sample_skill ''1.10.0'' ''2023-01-01'') ''validity'') ''from''"
    by code_simp
  moreover have "skill_candidate skill_lib ''pe.igv'' ''2024-06-01'' None (sample_skill ''1.10.0'' ''2023-01-01'')"
    by code_simp
  moreover have n: "version_numbers (sample_skill ''1.10.0'' ''2023-01-01'') = [1, 10, 0]"
    "version_numbers (sample_skill ''1.9.0'' ''2024-01-01'') = [1, 9, 0]" by code_simp+
  moreover have "newer zero_number (sample_skill ''1.10.0'' ''2023-01-01'') (sample_skill ''1.9.0'' ''2024-01-01'')"
    using newer_numbers [OF sample_registrable(2,1), of zero_number] n by simp
  ultimately show ?thesis
    using only_newer_candidates_change_history [OF sample_resolved sample_registrable(2)] by simp
qed

text \<open>Two skills have the same checksum exactly when they are the same definition up to the order of
  the keys, absent properties and the checksum itself.
\<close>

theorem skill_checksum_binds_the_definition:
  assumes "protocol_value a" "protocol_value b"
    and "lib_sha256 L (canonicalSkillJson L a) = lib_sha256 L (canonicalSkillJson L b) \<Longrightarrow>
      canonicalSkillJson L a = canonicalSkillJson L b"
  shows "computeSkillChecksum L a = computeSkillChecksum L b \<longleftrightarrow> skill_content a = skill_content b"
  using canonical_skill_iff [OF assms(1,2), of L] assms(3) by (auto simp: computeSkillChecksum_def)

theorem skill_checksum_binds_the_definition_witness:
  "computeSkillChecksum (skill_lib\<lparr>lib_sha256 := \<lambda>s. s\<rparr>) (sample_skill ''1.9.0'' ''2024-01-01'') \<noteq>
     computeSkillChecksum (skill_lib\<lparr>lib_sha256 := \<lambda>s. s\<rparr>) (sample_skill ''1.10.0'' ''2024-01-01'')"
proof -
  have "skill_content (sample_skill ''1.9.0'' ''2024-01-01'') \<noteq> skill_content (sample_skill ''1.10.0'' ''2024-01-01'')"
    by code_simp
  moreover have "protocol_value (sample_skill v f)" for v f by (simp add: sample_skill_def)
  ultimately show ?thesis
    using skill_checksum_binds_the_definition [of "sample_skill ''1.9.0'' ''2024-01-01''"
        "sample_skill ''1.10.0'' ''2024-01-01''" "skill_lib\<lparr>lib_sha256 := \<lambda>s. s\<rparr>"] by simp
qed

end
