(* ===== verification/Skill_Signature.thy ===== *)
theory Skill_Signature
  imports Skill_Registry Receipts "HOL-Library.Word"
begin

text \<open>
  \<^verbatim>\<open>skills/signature.ts\<close>: strict base64, and the signing and verification of skill
  packs. A signed pack is an untyped object, since verification consumes untrusted artifacts;
  signing takes a definition of the declared types. The keys and signatures of
  \<^verbatim>\<open>node:crypto\<close> are the record \<open>pack_crypto\<close>: \<open>None\<close> where the call throws. A value
  that \<open>JSON.stringify\<close> throws on is not a \<open>js_value\<close>, so the code's outer \<open>catch\<close> has no case.
\<close>

type_synonym bytes = "8 word list"

section \<open>Base64\<close>

definition base64_alphabet :: js_string where
  "base64_alphabet = ''ABCDEFGHIJKLMNOPQRSTUVWXYZabcdefghijklmnopqrstuvwxyz0123456789+/''"

definition base64_char :: "nat \<Rightarrow> char" where
  "base64_char n = base64_alphabet ! (n mod 64)"

definition base64_digit :: "char \<Rightarrow> bool" where
  "base64_digit c \<longleftrightarrow> c \<in> set base64_alphabet"

definition base64_val :: "char \<Rightarrow> nat" where
  "base64_val c = (case find_index (\<lambda>d. d = c) base64_alphabet of None \<Rightarrow> 0 | Some i \<Rightarrow> i)"

text \<open>\<open>buffer.toString("base64")\<close>\<close>

fun base64_encode :: "bytes \<Rightarrow> js_string" where
  "base64_encode (a # b # c # bs) =
     (let n = unat a * 65536 + unat b * 256 + unat c
      in [base64_char (n div 262144), base64_char (n div 4096), base64_char (n div 64), base64_char n] @
         base64_encode bs)"
| "base64_encode [a, b] =
     (let n = unat a * 65536 + unat b * 256
      in [base64_char (n div 262144), base64_char (n div 4096), base64_char (n div 64), CHR ''=''])"
| "base64_encode [a] =
     (let n = unat a * 65536 in [base64_char (n div 262144), base64_char (n div 4096), CHR ''='', CHR ''=''])"
| "base64_encode [] = []"

text \<open>
  \<open>Buffer.from(value, "base64")\<close> of a text of groups of four digits, the last one possibly
  padded; other texts are refused before.
\<close>

fun base64_decode :: "js_string \<Rightarrow> bytes" where
  "base64_decode (a # b # c # d # s) =
     (let n = base64_val a * 262144 + base64_val b * 4096 + base64_val c * 64 + base64_val d
      in if c = CHR ''='' then [word_of_nat (n div 65536)]
         else if d = CHR ''='' then [word_of_nat (n div 65536), word_of_nat (n div 256)]
         else [word_of_nat (n div 65536), word_of_nat (n div 256), word_of_nat n] @ base64_decode s)"
| "base64_decode _ = []"

text \<open>\<open>/^[A-Za-z0-9+/]*={0,2}$/\<close>\<close>

definition BASE64_ALPHABET :: "js_string \<Rightarrow> bool" where
  "BASE64_ALPHABET s \<longleftrightarrow>
     (let padding = dropWhile base64_digit s in padding \<in> {[], ''='', ''==''})"

definition decodeStrictBase64 :: "js_string \<Rightarrow> bytes option" where
  "decodeStrictBase64 v =
     (if length v = 0 then None
      else if length v mod 4 \<noteq> 0 then None
      else if \<not> BASE64_ALPHABET v then None
      else (let decoded = base64_decode v
            in if base64_encode decoded \<noteq> v then None else Some decoded))"

section \<open>Keys and data\<close>

record key_object =
  ko_type :: js_string
  ko_bytes :: bytes

record pack_crypto =
  pc_private :: "bytes \<Rightarrow> key_object option"
  pc_public :: "bytes \<Rightarrow> key_object option"
  pc_sign :: "js_string \<Rightarrow> key_object \<Rightarrow> bytes option"
  pc_verify :: "js_string \<Rightarrow> key_object \<Rightarrow> bytes \<Rightarrow> bool option"

datatype signing_error =
  Sign_invalid_skill_definition | Sign_checksum_mismatch | Sign_malformed_private_key
| Sign_malformed_public_key | Sign_key_pair_mismatch

datatype pack_reason =
  Malformed_signed_pack | Checksum_mismatch | Malformed_public_key | Public_key_mismatch
| Malformed_signature | Signature_invalid

datatype SkillPackVerification =
    Pack_valid js_value
  | Pack_invalid (pv_checksumValid: bool) (pv_signatureValid: bool) (pv_reasons: "pack_reason list")

definition SIGNATURE_BYTE_LENGTH :: nat where
  "SIGNATURE_BYTE_LENGTH = 64"

text \<open>\<open>{ ...o }\<close> and \<open>[ ...a ]\<close> copy; freezing has no effect on values.\<close>

definition cloneSkillDefinition :: "js_value \<Rightarrow> js_value" where
  "cloneSkillDefinition skill =
     J_obj (map (\<lambda>k. (k, get_field skill k))
       [''id'', ''version'', ''jurisdiction'', ''validity'', ''normativeSources'', ''inputs'', ''outputs'',
        ''requiredPermissions'', ''maxAutonomy'', ''contractCompatibility'', ''checksum'',
        ''retirementPolicy''])"

definition cloneSignedSkillPack :: "js_value \<Rightarrow> js_value" where
  "cloneSignedSkillPack spack =
     J_obj ([(''pack'', cloneSkillDefinition (get_field spack ''pack'')),
             (''signerKeyId'', get_field spack ''signerKeyId''),
             (''signerPublicKey'', get_field spack ''signerPublicKey''),
             (''signature'', get_field spack ''signature'')] @
            (if get_field spack ''signedAt'' = J_undefined then []
             else [(''signedAt'', get_field spack ''signedAt'')]))"

section \<open>Signing\<close>

definition ed25519_key :: "(bytes \<Rightarrow> key_object option) \<Rightarrow> js_string \<Rightarrow> key_object option" where
  "ed25519_key create v =
     (case decodeStrictBase64 v of
        None \<Rightarrow> None
      | Some der \<Rightarrow>
          (case create der of
             None \<Rightarrow> None
           | Some key \<Rightarrow> if ko_type key \<noteq> ''ed25519'' then None else Some key))"

definition signSkillPack ::
    "js_lib \<Rightarrow> pack_crypto \<Rightarrow> js_value \<Rightarrow> ReceiptKeyPair \<Rightarrow> signing_error + js_value" where
  "signSkillPack L C pack keyPair =
     (case validateSkill L pack of
        Inl _ \<Rightarrow> Inl Sign_invalid_skill_definition
      | Inr _ \<Rightarrow>
          (let canonical = canonicalSkillJson L pack
           in if str_field pack ''checksum'' \<noteq> computeSkillChecksum L pack then Inl Sign_checksum_mismatch
              else (case ed25519_key (pc_private C) (kp_privateKey keyPair) of
                 None \<Rightarrow> Inl Sign_malformed_private_key
               | Some privateKey \<Rightarrow>
                   (case ed25519_key (pc_public C) (kp_publicKey keyPair) of
                      None \<Rightarrow> Inl Sign_malformed_public_key
                    | Some publicKey \<Rightarrow>
                        (case pc_sign C canonical privateKey of
                           None \<Rightarrow> Inl Sign_malformed_private_key
                         | Some signature \<Rightarrow>
                             (case pc_verify C canonical publicKey signature of
                                None \<Rightarrow> Inl Sign_key_pair_mismatch
                              | Some matched \<Rightarrow>
                                  if \<not> matched then Inl Sign_key_pair_mismatch
                                  else Inr (J_obj
                                    [(''pack'', cloneSkillDefinition pack),
                                     (''signerKeyId'', J_str (kp_keyId keyPair)),
                                     (''signerPublicKey'', J_str (kp_publicKey keyPair)),
                                     (''signature'', J_str (base64_encode signature))])))))))"

section \<open>Verification\<close>

definition isSkillDefinitionShape :: "js_value \<Rightarrow> bool" where
  "isSkillDefinitionShape skill \<longleftrightarrow>
     (let validity = get_field skill ''validity''
      in if \<not> isRecord skill then False
         else if \<not> is_text (get_field skill ''id'') then False
         else if \<not> is_text (get_field skill ''version'') then False
         else if \<not> is_text (get_field skill ''jurisdiction'') then False
         else if \<not> isRecord validity then False
         else if \<not> is_text (get_field validity ''from'') then False
         else if get_field validity ''to'' \<noteq> J_undefined \<and> \<not> is_text (get_field validity ''to'') then False
         else if \<not> list_all (\<lambda>k. is_list (get_field skill k))
           [''normativeSources'', ''inputs'', ''outputs'', ''requiredPermissions'', ''contractCompatibility'']
         then False
         else if \<not> is_text (get_field skill ''maxAutonomy'') then False
         else if \<not> is_text (get_field skill ''checksum'') then False
         else if \<not> is_text (get_field skill ''retirementPolicy'') then False
         else True)"

definition isSignedSkillPackShape :: "js_value \<Rightarrow> bool" where
  "isSignedSkillPackShape wrapper \<longleftrightarrow>
     (if \<not> isRecord wrapper then False
      else if \<not> isSkillDefinitionShape (get_field wrapper ''pack'') then False
      else if \<not> is_text (get_field wrapper ''signerKeyId'') then False
      else if \<not> is_text (get_field wrapper ''signerPublicKey'') then False
      else if \<not> is_text (get_field wrapper ''signature'') then False
      else if get_field wrapper ''signedAt'' \<noteq> J_undefined \<and> \<not> is_text (get_field wrapper ''signedAt'')
      then False
      else True)"

definition decodeEd25519Spki :: "pack_crypto \<Rightarrow> js_string \<Rightarrow> key_object option" where
  "decodeEd25519Spki C v = ed25519_key (pc_public C) v"

text \<open>\<open>None\<close> is \<open>"malformed"\<close>; a verification that throws answers false.\<close>

definition verifyEd25519Signature ::
    "pack_crypto \<Rightarrow> js_string \<Rightarrow> js_string \<Rightarrow> key_object \<Rightarrow> bool option" where
  "verifyEd25519Signature C payload signatureBase64 publicKey =
     (case decodeStrictBase64 signatureBase64 of
        None \<Rightarrow> None
      | Some signature \<Rightarrow>
          if length signature \<noteq> SIGNATURE_BYTE_LENGTH then None
          else (case pc_verify C payload publicKey signature of None \<Rightarrow> Some False | Some b \<Rightarrow> Some b))"

definition signature_outcome ::
    "pack_crypto \<Rightarrow> js_string \<Rightarrow> js_value \<Rightarrow> js_string \<Rightarrow> bool \<times> pack_reason list" where
  "signature_outcome C canonical spack publicKey =
     (case decodeEd25519Spki C (str_field spack ''signerPublicKey'') of
        None \<Rightarrow> (False, [Malformed_public_key])
      | Some embeddedKey \<Rightarrow>
          if str_field spack ''signerPublicKey'' \<noteq> publicKey then (False, [Public_key_mismatch])
          else (case verifyEd25519Signature C canonical (str_field spack ''signature'') embeddedKey of
                  None \<Rightarrow> (False, [Malformed_signature])
                | Some signatureValid \<Rightarrow> (signatureValid, if \<not> signatureValid then [Signature_invalid] else [])))"

definition verifySkillPack ::
    "js_lib \<Rightarrow> pack_crypto \<Rightarrow> js_value \<Rightarrow> js_string \<Rightarrow> SkillPackVerification" where
  "verifySkillPack L C spack publicKey =
     (if \<not> isSignedSkillPackShape spack then Pack_invalid False False [Malformed_signed_pack]
      else (let pack = get_field spack ''pack'';
                canonical = canonicalSkillJson L pack;
                checksumValid = (computeSkillChecksum L pack = str_field pack ''checksum'');
                outcome = signature_outcome C canonical spack publicKey;
                reasons = (if checksumValid then [] else [Checksum_mismatch]) @ snd outcome
            in if length reasons = 0 \<and> checksumValid \<and> fst outcome
               then Pack_valid (cloneSignedSkillPack spack)
               else Pack_invalid checksumValid (fst outcome) reasons))"

section \<open>Strict base64 is canonical\<close>

lemma base64_val_char [simp]: "base64_val (base64_char n) = n mod 64"
proof -
  have d: "distinct base64_alphabet" "length base64_alphabet = 64" by code_simp+
  have m: "n mod 64 < 64" by simp
  obtain i where i: "find_index (\<lambda>d. d = base64_alphabet ! (n mod 64)) base64_alphabet = Some i"
    using m d(2) by (metis (mono_tags, lifting) find_index_None_iff not_Some_eq nth_mem)
  from find_index_Some [OF i] have "i < 64" "base64_alphabet ! i = base64_alphabet ! (n mod 64)"
    using d(2) by simp_all
  with d m have "i = n mod 64" by (simp add: nth_eq_iff_index_eq)
  with i show ?thesis by (simp add: base64_val_def base64_char_def)
qed

lemma base64_char_digit [simp]: "base64_digit (base64_char n)"
proof -
  have "length base64_alphabet = 64" by code_simp
  then have "n mod 64 < length base64_alphabet" by simp
  then show ?thesis unfolding base64_digit_def base64_char_def by (rule nth_mem)
qed

lemma base64_padding: "\<not> base64_digit CHR ''=''" "base64_char n \<noteq> CHR ''=''"
proof -
  show p: "\<not> base64_digit CHR ''=''" by code_simp
  show "base64_char n \<noteq> CHR ''=''" using p base64_char_digit [of n] by metis
qed

lemma base64_val_padding [simp]: "base64_val CHR ''='' = 0"
  by code_simp

lemma sextets:
  assumes "(n :: nat) < 16777216"
  shows "n div 262144 mod 64 * 262144 + n div 4096 mod 64 * 4096 + n div 64 mod 64 * 64 + n mod 64 = n"
proof -
  have d: "n div 4096 = n div 64 div 64" "n div 262144 = n div 64 div 64 div 64"
    by (simp_all add: div_mult2_eq [symmetric])
  have "n div 262144 < 64" using assms by (simp add: less_mult_imp_div_less)
  then have m: "n div 262144 mod 64 = n div 262144" by simp
  have "n div 64 div 64 = n div 64 div 64 div 64 * 64 + n div 64 div 64 mod 64"
    and "n div 64 = n div 64 div 64 * 64 + n div 64 mod 64" and "n = n div 64 * 64 + n mod 64"
    by (simp_all only: div_mult_mod_eq)
  then show ?thesis unfolding m unfolding d by linarith
qed

lemma byte_less: "unat (a :: 8 word) < 256"
  using unsigned_less [of a, where 'a = nat] by simp

lemma byte_parts:
  fixes a b c :: "8 word"
  shows "(unat a * 65536 + unat b * 256 + unat c) div 65536 = unat a"
    and "(unat a * 65536 + unat b * 256 + unat c) div 256 mod 256 = unat b"
    and "(unat a * 65536 + unat b * 256 + unat c) mod 256 = unat c"
    and "unat a * 65536 + unat b * 256 + unat c < 16777216"
proof -
  have l: "unat a < 256" "unat b < 256" "unat c < 256" by (simp_all add: byte_less)
  have e: "unat a * 65536 + unat b * 256 + unat c = (unat a * 256 + unat b) * 256 + unat c" by simp
  have s: "(unat a * 65536 + unat b * 256 + unat c) div 256 = unat a * 256 + unat b"
    unfolding e using l by simp
  show "(unat a * 65536 + unat b * 256 + unat c) mod 256 = unat c"
    unfolding e mod_mult_self3 using l(3) by (rule mod_less)
  show "(unat a * 65536 + unat b * 256 + unat c) div 256 mod 256 = unat b" unfolding s using l by simp
  have "(unat a * 65536 + unat b * 256 + unat c) div 65536 = (unat a * 256 + unat b) div 256"
    unfolding s [symmetric] by (simp add: div_mult2_eq [symmetric])
  then show "(unat a * 65536 + unat b * 256 + unat c) div 65536 = unat a" using l by simp
  show "unat a * 65536 + unat b * 256 + unat c < 16777216" using l by linarith
qed

lemma word_of_byte: "word_of_nat n = (b :: 8 word)" if "n mod 256 = unat b"
proof -
  have "unat (word_of_nat n :: 8 word) = n mod 256" by (simp add: unat_of_nat)
  with that show ?thesis by (simp add: word_unat_eq_iff)
qed

lemma byte_words:
  "word_of_nat ((unat a * 65536 + unat b * 256 + unat c) div 65536) = (a :: 8 word)"
  "word_of_nat ((unat a * 65536 + unat b * 256 + unat c) div 256) = (b :: 8 word)"
  "word_of_nat (unat a * 65536 + unat b * 256 + unat c) = (c :: 8 word)"
proof -
  show "word_of_nat ((unat a * 65536 + unat b * 256 + unat c) div 65536) = (a :: 8 word)"
    by (rule word_of_byte) (simp add: byte_parts(1) byte_less)
qed (rule word_of_byte, simp only: byte_parts)+

lemma decode_encode [simp]: "base64_decode (base64_encode bs) = bs"
proof (induction bs rule: base64_encode.induct)
  case (1 a b c bs)
  have p: "CHR ''='' \<noteq> base64_char n" "base64_char n \<noteq> CHR ''=''" for n
    using base64_padding(2) by metis+
  show ?case
    using 1 p byte_words [of a b c] sextets [OF byte_parts(4), of a b c]
    by (simp only: base64_encode.simps Let_def append.simps base64_decode.simps base64_val_char if_False)
next
  case (2 a b)
  let ?n = "unat a * 65536 + unat b * 256"
  have s: "?n div 262144 mod 64 * 262144 + ?n div 4096 mod 64 * 4096 + ?n div 64 mod 64 * 64 = ?n"
  proof -
    have "?n = (unat a * 1024 + unat b * 4) * 64" by simp
    then have "?n mod 64 = 0" by (metis mod_mult_self2_is_0)
    with sextets [of ?n] byte_parts(4) [of a b 0] show ?thesis by simp
  qed
  show ?case
    using s base64_padding(2) byte_words [of a b 0]
    by (simp only: base64_encode.simps Let_def base64_decode.simps base64_val_char base64_val_padding
        if_False if_True unsigned_0 add_0_right simp_thms)
next
  case (3 a)
  let ?n = "unat a * 65536"
  have s: "?n div 262144 mod 64 * 262144 + ?n div 4096 mod 64 * 4096 = ?n"
  proof -
    have "?n = (unat a * 1024) * 64" and d: "?n div 64 = (unat a * 16) * 64" by simp_all
    then have "?n mod 64 = 0" by (metis mod_mult_self2_is_0)
    moreover have "?n div 64 mod 64 = 0" unfolding d by simp
    ultimately show ?thesis using sextets [of ?n] byte_parts(4) [of a 0 0] by simp
  qed
  show ?case
    using s base64_padding(2) byte_words [of a 0 0]
    by (simp only: base64_encode.simps Let_def base64_decode.simps base64_val_char base64_val_padding
        if_False if_True unsigned_0 add_0_right mult_0 simp_thms)
qed simp

lemma length_encode: "length (base64_encode bs) mod 4 = 0"
  by (induction bs rule: base64_encode.induct) (auto simp: Let_def)

lemma encode_alphabet: "BASE64_ALPHABET (base64_encode bs)"
proof (induction bs rule: base64_encode.induct)
  case (1 a b c bs)
  then show ?case by (simp add: BASE64_ALPHABET_def Let_def)
qed (simp_all add: BASE64_ALPHABET_def Let_def base64_padding)

lemma encode_eq_Nil [simp]: "base64_encode bs = [] \<longleftrightarrow> bs = []"
  by (cases bs rule: base64_encode.cases) (simp_all add: Let_def)

text \<open>Strict decoding accepts exactly the base64 texts the encoder prints for a non-empty buffer,
  and reads that buffer back.
\<close>

theorem strict_base64_is_canonical:
  "decodeStrictBase64 s = Some bs \<longleftrightarrow> bs \<noteq> [] \<and> s = base64_encode bs"
proof
  assume "decodeStrictBase64 s = Some bs"
  then have "s \<noteq> []" "base64_encode bs = s"
    by (auto simp: decodeStrictBase64_def Let_def split: if_splits)
  then show "bs \<noteq> [] \<and> s = base64_encode bs" by auto
next
  assume "bs \<noteq> [] \<and> s = base64_encode bs"
  then show "decodeStrictBase64 s = Some bs"
    using length_encode [of bs] encode_alphabet [of bs] by (simp add: decodeStrictBase64_def)
qed

lemma decodeStrict_encode: "bs \<noteq> [] \<Longrightarrow> decodeStrictBase64 (base64_encode bs) = Some bs"
  using length_encode [of bs] encode_alphabet [of bs] by (simp add: decodeStrictBase64_def)

section \<open>Copies keep the checksum of declared definitions\<close>

lemma sort_fields_unique:
  assumes "distinct (map fst xs)" "distinct (map fst ys)" "set xs = set ys"
  shows "sort_fields xs = sort_fields ys"
proof (rule map_sorted_distinct_set_unique [where f = fst])
  show "inj_on fst (set (sort_fields xs) \<union> set (sort_fields ys))"
    using assms by (simp add: distinct_map)
  have "distinct (map fst (sort_fields zs))" if "distinct (map fst zs)" for zs :: "(js_string \<times> 'a) list"
    using that by (simp add: distinct_map sort_fields_def)
  with assms show "distinct (map fst (sort_fields xs))" "distinct (map fst (sort_fields ys))" by blast+
qed (simp_all add: assms(3) sort_fields_def)

definition hashed_fields :: "(js_string \<times> js_value) list \<Rightarrow> (js_string \<times> js_value) list" where
  "hashed_fields fs = filter (\<lambda>(k, v). k \<noteq> ''checksum'' \<and> v \<noteq> J_undefined) fs"

lemma skill_content_obj:
  "skill_content (J_obj fs) = J_obj (map (\<lambda>(k, v). (k, normal (shown v))) (sort_fields (hashed_fields fs)))"
proof -
  have h: "filter (\<lambda>(k, v). v \<noteq> J_undefined) (filter (\<lambda>(k, v). k \<noteq> ''checksum'') fs) = hashed_fields fs"
    by (auto simp: hashed_fields_def filter_filter intro: filter_cong)
  show ?thesis
    unfolding skill_content_def without_checksum.simps shown.simps h normal_obj sort_fields_map
    by (simp add: comp_def case_prod_beta)
qed

definition declared_keys :: "js_string list" where
  "declared_keys = [''id'', ''version'', ''jurisdiction'', ''validity'', ''normativeSources'', ''inputs'', ''outputs'',
     ''requiredPermissions'', ''maxAutonomy'', ''contractCompatibility'', ''checksum'', ''retirementPolicy'']"

fun only_declared :: "js_value \<Rightarrow> bool" where
  "only_declared (J_obj fs) = list_all (\<lambda>(k, v). k \<in> set declared_keys \<or> v = J_undefined) fs"
| "only_declared _ = False"

lemma clone_fields: "cloneSkillDefinition skill = J_obj (map (\<lambda>k. (k, get_field skill k)) declared_keys)"
  by (simp add: cloneSkillDefinition_def declared_keys_def)

lemma get_field_clone [simp]:
  "k \<in> set declared_keys \<Longrightarrow> get_field (cloneSkillDefinition skill) k = get_field skill k"
proof -
  have "map_of (map (\<lambda>k. (k, f k)) ks) k = (if k \<in> set ks then Some (f k) else None)" for f :: "js_string \<Rightarrow> js_value" and ks
    by (induction ks) auto
  then show "k \<in> set declared_keys \<Longrightarrow> get_field (cloneSkillDefinition skill) k = get_field skill k"
    by (simp add: clone_fields)
qed

lemma clone_idem [simp]: "cloneSkillDefinition (cloneSkillDefinition skill) = cloneSkillDefinition skill"
proof -
  have "map (\<lambda>k. (k, get_field (cloneSkillDefinition skill) k)) declared_keys =
      map (\<lambda>k. (k, get_field skill k)) declared_keys"
    by (rule map_cong) simp_all
  then have "J_obj (map (\<lambda>k. (k, get_field (cloneSkillDefinition skill) k)) declared_keys) =
      J_obj (map (\<lambda>k. (k, get_field skill k)) declared_keys)" by (rule arg_cong)
  then show ?thesis unfolding clone_fields [symmetric] .
qed

lemma get_field_mem:
  assumes "distinct (map fst fs)" "v \<noteq> J_undefined"
  shows "get_field (J_obj fs) k = v \<longleftrightarrow> (k, v) \<in> set fs"
proof (cases "map_of fs k")
  case None
  then have "(k, v) \<notin> set fs" by (force simp: map_of_eq_None_iff)
  with None assms(2) show ?thesis by simp
next
  case (Some w)
  then show ?thesis using map_of_eq_Some_iff [OF assms(1), of k v] by simp
qed

lemma clone_content:
  assumes "distinct (map fst fs)"
  shows "skill_content (cloneSkillDefinition (J_obj fs)) = skill_content (J_obj fs) \<longleftrightarrow> only_declared (J_obj fs)"
proof -
  let ?cs = "map (\<lambda>k. (k, get_field (J_obj fs) k)) declared_keys"
  have dk: "distinct declared_keys" by code_simp
  have m: "set (hashed_fields ?cs) = {(k, v) \<in> set (hashed_fields fs). k \<in> set declared_keys}"
    using get_field_mem [OF assms] by (force simp: hashed_fields_def simp del: get_field.simps)
  have d: "distinct (map fst (hashed_fields ?cs))" "distinct (map fst (hashed_fields fs))"
    using dk assms by (auto simp: hashed_fields_def distinct_map inj_on_def distinct_map_filter)
  have c: "''checksum'' \<in> set declared_keys" by code_simp
  show ?thesis
  proof
    assume "only_declared (J_obj fs)"
    then have "set (hashed_fields ?cs) = set (hashed_fields fs)"
      unfolding m by (auto simp: hashed_fields_def list_all_iff)
    from sort_fields_unique [OF d this]
    show "skill_content (cloneSkillDefinition (J_obj fs)) = skill_content (J_obj fs)"
      unfolding clone_fields skill_content_obj by simp
  next
    assume "skill_content (cloneSkillDefinition (J_obj fs)) = skill_content (J_obj fs)"
    then have "map fst (map (\<lambda>(k, v). (k, normal (shown v))) (sort_fields (hashed_fields ?cs))) =
        map fst (map (\<lambda>(k, v). (k, normal (shown v))) (sort_fields (hashed_fields fs)))"
      unfolding clone_fields skill_content_obj by simp
    then have "map fst (sort_fields (hashed_fields ?cs)) = map fst (sort_fields (hashed_fields fs))"
      by (simp add: comp_def case_prod_beta)
    then have "fst ` set (hashed_fields ?cs) = fst ` set (hashed_fields fs)"
      by (metis list.set_map set_sort_fields)
    then have "fst ` set (hashed_fields fs) \<subseteq> set declared_keys"
      unfolding m by (metis (no_types, lifting) case_prodD image_subsetI mem_Collect_eq prod.collapse)
    with c show "only_declared (J_obj fs)"
      by (force simp: hashed_fields_def list_all_iff)
  qed
qed

section \<open>Signed packs verify\<close>

lemma clone_shape: "isSkillDefinitionShape pack \<Longrightarrow> isSkillDefinitionShape (cloneSkillDefinition pack)"
  by (simp add: isSkillDefinitionShape_def Let_def declared_keys_def split: if_splits)
    (simp add: cloneSkillDefinition_def)

lemma protocol_clone:
  assumes "protocol_value (J_obj fs)"
  shows "protocol_value (cloneSkillDefinition (J_obj fs))"
proof -
  have "protocol_value (get_field (J_obj fs) k)" for k
    using assms map_of_SomeD [of fs k] by (fastforce simp: list_all_iff split: option.split)
  then show ?thesis by (simp add: clone_fields list_all_iff del: get_field.simps)
qed

lemma clone_canonical:
  assumes "protocol_value (J_obj fs)" "distinct (map fst fs)"
  shows "canonicalSkillJson L (cloneSkillDefinition (J_obj fs)) = canonicalSkillJson L (J_obj fs) \<longleftrightarrow>
    only_declared (J_obj fs)"
  using canonical_skill_iff [OF protocol_clone [OF assms(1)] assms(1)] clone_content [OF assms(2)] by blast

lemma signSkillPack_Inr:
  assumes "signSkillPack L C pack keyPair = Inr spack"
  obtains publicKey signature where
    "registrable L pack"
    "decodeEd25519Spki C (kp_publicKey keyPair) = Some publicKey"
    "\<exists>k. pc_sign C (canonicalSkillJson L pack) k = Some signature"
    "pc_verify C (canonicalSkillJson L pack) publicKey signature = Some True"
    "spack = J_obj [(''pack'', cloneSkillDefinition pack), (''signerKeyId'', J_str (kp_keyId keyPair)),
       (''signerPublicKey'', J_str (kp_publicKey keyPair)), (''signature'', J_str (base64_encode signature))]"
  using assms
  by (auto simp: signSkillPack_def registrable_def decodeEd25519Spki_def Let_def
      split: sum.splits option.splits if_splits)

lemma pack_fields [simp]:
  assumes "spack = J_obj [(''pack'', p), (''signerKeyId'', J_str i), (''signerPublicKey'', J_str k), (''signature'', J_str s)]"
  shows "get_field spack ''pack'' = p" "str_field spack ''signerPublicKey'' = k" "str_field spack ''signature'' = s"
    and "isSignedSkillPackShape spack = isSkillDefinitionShape p"
    and "cloneSignedSkillPack spack = (if cloneSkillDefinition p = p then spack else
      J_obj [(''pack'', cloneSkillDefinition p), (''signerKeyId'', J_str i), (''signerPublicKey'', J_str k), (''signature'', J_str s)])"
  by (simp_all add: assms str_field_def isSignedSkillPackShape_def cloneSignedSkillPack_def)

text \<open>What signing returns verifies under the signer's public key, and is returned unchanged, exactly
  when the definition has no property outside the declared ones; otherwise the signed copy,
  which drops them, is denied for its checksum.
\<close>

theorem signed_pack_roundtrip:
  assumes "signSkillPack L C pack keyPair = Inr spack"
    and "isSkillDefinitionShape pack" "protocol_value pack" "pack = J_obj fs" "distinct (map fst fs)"
    and "\<And>m k s. pc_sign C m k = Some s \<Longrightarrow> length s = SIGNATURE_BYTE_LENGTH"
    and "lib_sha256 L (canonicalSkillJson L (cloneSkillDefinition pack)) = lib_sha256 L (canonicalSkillJson L pack) \<Longrightarrow>
      canonicalSkillJson L (cloneSkillDefinition pack) = canonicalSkillJson L pack"
  shows "if only_declared pack then verifySkillPack L C spack (kp_publicKey keyPair) = Pack_valid spack
    else Checksum_mismatch \<in> set (pv_reasons (verifySkillPack L C spack (kp_publicKey keyPair)))"
proof -
  obtain publicKey signature where s: "registrable L pack"
    "decodeEd25519Spki C (kp_publicKey keyPair) = Some publicKey"
    "\<exists>k. pc_sign C (canonicalSkillJson L pack) k = Some signature"
    "pc_verify C (canonicalSkillJson L pack) publicKey signature = Some True"
    "spack = J_obj [(''pack'', cloneSkillDefinition pack), (''signerKeyId'', J_str (kp_keyId keyPair)),
       (''signerPublicKey'', J_str (kp_publicKey keyPair)), (''signature'', J_str (base64_encode signature))]"
    using signSkillPack_Inr [OF assms(1)] .
  have len: "length signature = SIGNATURE_BYTE_LENGTH" using s(3) assms(6) by blast
  then have "signature \<noteq> []" by (auto simp: SIGNATURE_BYTE_LENGTH_def)
  then have out: "signature_outcome C (canonicalSkillJson L pack) spack (kp_publicKey keyPair) = (True, [])"
    using len s(2,4) by (simp add: signature_outcome_def verifyEd25519Signature_def decodeStrict_encode
        pack_fields(2,3) [OF s(5)])
  have chk: "str_field (cloneSkillDefinition pack) ''checksum'' = computeSkillChecksum L pack"
    using s(1) by (simp add: str_field_def registrable_def declared_keys_def)
  have can: "canonicalSkillJson L (cloneSkillDefinition pack) = canonicalSkillJson L pack \<longleftrightarrow> only_declared pack"
    using clone_canonical assms(3-5) by blast
  have shape: "isSignedSkillPackShape spack"
    using clone_shape [OF assms(2)] by (simp only: pack_fields(4) [OF s(5)])
  have same: "cloneSignedSkillPack spack = spack"
    by (simp only: pack_fields(5) [OF s(5)] clone_idem simp_thms if_True)
  show ?thesis
  proof (cases "only_declared pack")
    case True
    with can out shape same chk show ?thesis
      by (simp add: verifySkillPack_def Let_def pack_fields(1) [OF s(5)] computeSkillChecksum_def)
  next
    case False
    with can assms(7) have "lib_sha256 L (canonicalSkillJson L (cloneSkillDefinition pack)) \<noteq>
        lib_sha256 L (canonicalSkillJson L pack)" by blast
    with False shape chk show ?thesis
      by (simp add: verifySkillPack_def Let_def pack_fields(1) [OF s(5)] computeSkillChecksum_def)
  qed
qed

definition sample_crypto :: pack_crypto where
  "sample_crypto =
     \<lparr>pc_private = (\<lambda>b. Some \<lparr>ko_type = ''ed25519'', ko_bytes = b\<rparr>),
      pc_public = (\<lambda>b. Some \<lparr>ko_type = ''ed25519'', ko_bytes = b\<rparr>),
      pc_sign = (\<lambda>m k. Some (replicate SIGNATURE_BYTE_LENGTH 1)),
      pc_verify = (\<lambda>m k s. Some (s = replicate SIGNATURE_BYTE_LENGTH 1))\<rparr>"

definition skill_keys :: ReceiptKeyPair where
  "skill_keys = \<lparr>kp_publicKey = base64_encode [1, 2], kp_privateKey = base64_encode [3, 4, 5], kp_keyId = ''k''\<rparr>"

definition signed_sample :: js_value where
  "signed_sample =
     J_obj [(''pack'', cloneSkillDefinition (sample_skill ''1.9.0'' ''2024-01-01'')),
       (''signerKeyId'', J_str ''k''), (''signerPublicKey'', J_str (base64_encode [1, 2])),
       (''signature'', J_str (base64_encode (replicate SIGNATURE_BYTE_LENGTH 1)))]"

lemma sample_signed:
  "signSkillPack skill_lib sample_crypto (sample_skill ''1.9.0'' ''2024-01-01'') skill_keys = Inr signed_sample"
  using sample_registrable(1)
  by (simp add: signSkillPack_def registrable_def ed25519_key_def skill_keys_def decodeStrict_encode
      sample_crypto_def signed_sample_def del: base64_encode.simps)

lemma signed_sample_verifies:
  "verifySkillPack skill_lib sample_crypto signed_sample (kp_publicKey skill_keys) = Pack_valid signed_sample"
proof -
  have s: "isSkillDefinitionShape (sample_skill ''1.9.0'' ''2024-01-01'')" by code_simp
  have c: "str_field (cloneSkillDefinition (sample_skill ''1.9.0'' ''2024-01-01'')) ''checksum'' = replicate 64 CHR ''a''"
    by (simp add: str_field_def declared_keys_def) (simp add: sample_skill_def)
  have n: "replicate SIGNATURE_BYTE_LENGTH (1 :: 8 word) \<noteq> []" by (simp add: SIGNATURE_BYTE_LENGTH_def)
  have o: "signature_outcome sample_crypto m signed_sample (kp_publicKey skill_keys) = (True, [])" for m
    using n by (simp add: signature_outcome_def decodeEd25519Spki_def ed25519_key_def verifyEd25519Signature_def
        decodeStrict_encode sample_crypto_def skill_keys_def pack_fields(2,3) [OF signed_sample_def]
        del: base64_encode.simps)
  show ?thesis
    using clone_shape [OF s] c o
    by (simp add: verifySkillPack_def pack_fields(1,4,5) [OF signed_sample_def] computeSkillChecksum_def
        skill_lib_def)
qed

theorem signed_pack_roundtrip_witness:
  "verifySkillPack skill_lib sample_crypto signed_sample (kp_publicKey skill_keys) = Pack_valid signed_sample"
proof -
  let ?p = "sample_skill ''1.9.0'' ''2024-01-01''"
  obtain fs where fs: "?p = J_obj fs" by (simp add: sample_skill_def)
  have p: "protocol_value ?p" by (simp add: sample_skill_def)
  have d: "only_declared ?p" and s: "isSkillDefinitionShape ?p" by code_simp+
  have k: "distinct (map fst fs)"
    using fs by (auto simp: sample_skill_def)
  have len: "length x = SIGNATURE_BYTE_LENGTH" if "pc_sign sample_crypto m y = Some x" for m y x
    using that by (auto simp: sample_crypto_def)
  have c: "canonicalSkillJson skill_lib (cloneSkillDefinition ?p) = canonicalSkillJson skill_lib ?p"
    using clone_canonical [of fs skill_lib] p d k unfolding fs by simp
  show ?thesis
    using signed_pack_roundtrip [OF sample_signed s p fs k len c] d by simp
qed

end
