(* ===== verification/Skill_Pinning.thy ===== *)
theory Skill_Pinning
  imports Skill_Signature
begin

text \<open>
  \<^verbatim>\<open>skills/pinning.ts\<close>: the pin of the exact skill set of a mission, its creation from
  verified packs and its verification against a candidate set. Pins and packs are untyped values.
  The reasons of a denial are collected in the order of the code's loops and then put in their
  closed order. \<open>Number\<close> is the one of \<open>Skill_Registry\<close>.
\<close>

section \<open>Denials\<close>

datatype pin_denial_code =
  Malformed_pin | Malformed_candidate_set | Invalid_reference_date | Duplicate_pin_identity
| Duplicate_candidate_identity | Missing_skill | Additional_skill | Id_mismatch | Version_mismatch
| Pin_checksum_mismatch | Jurisdiction_mismatch | Vigencia_mismatch | Skill_out_of_force
| Candidate_malformed | Candidate_public_key_invalid | Candidate_signature_invalid

type_synonym denial_item = "pin_denial_code \<times> js_string option"

definition DENIAL_CODE_ORDER :: "pin_denial_code list" where
  "DENIAL_CODE_ORDER =
     [Malformed_pin, Malformed_candidate_set, Invalid_reference_date, Duplicate_pin_identity,
      Duplicate_candidate_identity, Missing_skill, Additional_skill, Id_mismatch, Version_mismatch,
      Pin_checksum_mismatch, Jurisdiction_mismatch, Vigencia_mismatch, Skill_out_of_force,
      Candidate_malformed, Candidate_public_key_invalid, Candidate_signature_invalid]"

definition code_rank :: "pin_denial_code \<Rightarrow> nat" where
  "code_rank c = (case find_index (\<lambda>d. d = c) DENIAL_CODE_ORDER of None \<Rightarrow> 0 | Some i \<Rightarrow> i)"

definition item_key :: "denial_item \<Rightarrow> pin_denial_code \<times> js_string" where
  "item_key item = (fst item, case snd item of None \<Rightarrow> [] | Some i \<Rightarrow> i)"

fun unique_items :: "(pin_denial_code \<times> js_string) list \<Rightarrow> denial_item list \<Rightarrow> denial_item list" where
  "unique_items seen [] = []"
| "unique_items seen (item # items) =
     (if item_key item \<in> set seen then unique_items seen items
      else item # unique_items (item_key item # seen) items)"

definition compare_items :: "denial_item \<Rightarrow> denial_item \<Rightarrow> int" where
  "compare_items a b =
     (let orderA = code_rank (fst a); orderB = code_rank (fst b);
          identityA = snd (item_key a); identityB = snd (item_key b)
      in if orderA \<noteq> orderB then int orderA - int orderB
         else if identityA < identityB then - 1 else if identityA > identityB then 1 else 0)"

definition assembleDenial :: "denial_item list \<Rightarrow> denial_item list" where
  "assembleDenial items = js_sort compare_items (unique_items [] items)"

section \<open>Identities and shapes\<close>

definition identityKey :: "js_string \<Rightarrow> js_string \<Rightarrow> js_string" where
  "identityKey i version = i @ ''@'' @ version"

definition extractIdentity :: "js_value \<Rightarrow> js_string option" where
  "extractIdentity v =
     (let skill = get_field v ''pack''
      in if \<not> isRecord v then None
         else if \<not> isRecord skill then None
         else if \<not> is_text (get_field skill ''id'') \<or> \<not> is_text (get_field skill ''version'') then None
         else Some (identityKey (str_field skill ''id'') (str_field skill ''version'')))"

definition pin_entry_shape :: "js_value \<Rightarrow> bool" where
  "pin_entry_shape item \<longleftrightarrow>
     (let vigencia = get_field item ''vigencia''
      in if \<not> isRecord item then False
         else if \<not> is_text (get_field item ''id'') then False
         else if \<not> is_text (get_field item ''version'') then False
         else if \<not> is_text (get_field item ''checksum'') then False
         else if \<not> is_text (get_field item ''jurisdiction'') then False
         else if \<not> isRecord vigencia then False
         else if \<not> is_text (get_field vigencia ''from'') then False
         else if get_field vigencia ''to'' \<noteq> J_undefined \<and> \<not> is_text (get_field vigencia ''to'') then False
         else True)"

definition pin_entries :: "js_value \<Rightarrow> js_value list" where
  "pin_entries pin = elements (get_field pin ''entries'')"

definition isMissionSkillPinShape :: "js_value \<Rightarrow> bool" where
  "isMissionSkillPinShape pin \<longleftrightarrow>
     (if \<not> isRecord pin then False
      else if \<not> is_list (get_field pin ''entries'') then False
      else list_all pin_entry_shape (pin_entries pin))"

section \<open>The order of the entries\<close>

definition finite_part :: "(js_string \<Rightarrow> js_number) \<Rightarrow> js_string list \<Rightarrow> nat \<Rightarrow> rat" where
  "finite_part num parts i =
     (if i < length parts then (case js_Number num (parts ! i) of Fin r \<Rightarrow> r | _ \<Rightarrow> 0) else 0)"

definition parseSemver :: "(js_string \<Rightarrow> js_number) \<Rightarrow> js_string \<Rightarrow> rat list" where
  "parseSemver num version =
     (let parts = split_on CHR ''.'' version in map (finite_part num parts) [0, 1, 2])"

definition compareSemver :: "(js_string \<Rightarrow> js_number) \<Rightarrow> js_string \<Rightarrow> js_string \<Rightarrow> js_number" where
  "compareSemver num a b =
     first_diff (zip (map Fin (parseSemver num a)) (map Fin (parseSemver num b)))"

definition compareEntries :: "(js_string \<Rightarrow> js_number) \<Rightarrow> js_value \<Rightarrow> js_value \<Rightarrow> int" where
  "compareEntries num a b =
     (let i = str_field a ''id''; j = str_field b ''id''
      in if i \<noteq> j then if i < j then - 1 else 1
         else order_of (compareSemver num (str_field a ''version'') (str_field b ''version'')))"

section \<open>Collecting the reasons\<close>

fun mapVerificationReason :: "pack_reason \<Rightarrow> pin_denial_code" where
  "mapVerificationReason Malformed_signed_pack = Candidate_malformed"
| "mapVerificationReason Checksum_mismatch = Pin_checksum_mismatch"
| "mapVerificationReason Malformed_public_key = Candidate_public_key_invalid"
| "mapVerificationReason Public_key_mismatch = Candidate_public_key_invalid"
| "mapVerificationReason Malformed_signature = Candidate_signature_invalid"
| "mapVerificationReason Signature_invalid = Candidate_signature_invalid"

text \<open>\<open>{ ...validity }\<close> copies.\<close>

definition projectEntry :: "js_value \<Rightarrow> js_value" where
  "projectEntry p =
     (let pack = get_field p ''pack''
      in J_obj [(''id'', get_field pack ''id''), (''version'', get_field pack ''version''),
                (''checksum'', get_field pack ''checksum''), (''jurisdiction'', get_field pack ''jurisdiction''),
                (''vigencia'', get_field pack ''validity'')])"

definition nullish :: "js_value \<Rightarrow> js_value" where
  "nullish v = (if v = J_null then J_undefined else v)"

definition sameVigencia :: "js_value \<Rightarrow> js_value \<Rightarrow> bool" where
  "sameVigencia a b \<longleftrightarrow>
     (if \<not> isRecord a then False
      else get_field a ''from'' = get_field b ''from'' \<and>
        nullish (get_field a ''to'') = nullish (get_field b ''to''))"

fun candidate_issues :: "js_string list \<Rightarrow> js_value list \<Rightarrow> denial_item list" where
  "candidate_issues seen [] = []"
| "candidate_issues seen (p # ps) =
     (case extractIdentity p of
        None \<Rightarrow> (Candidate_malformed, None) # candidate_issues seen ps
      | Some i \<Rightarrow>
          (if i \<in> set seen then [(Duplicate_candidate_identity, Some i)] else []) @
          candidate_issues (i # seen) ps)"

fun pin_issues :: "js_string list \<Rightarrow> js_value list \<Rightarrow> denial_item list" where
  "pin_issues seen [] = []"
| "pin_issues seen (e # es) =
     (let i = identityKey (str_field e ''id'') (str_field e ''version'')
      in (if i \<in> set seen then [(Duplicate_pin_identity, Some i)] else []) @ pin_issues (i # seen) es)"

definition pack_issues ::
    "js_lib \<Rightarrow> pack_crypto \<Rightarrow> js_string \<Rightarrow> js_value \<Rightarrow> denial_item list" where
  "pack_issues L C referenceDate p =
     (if \<not> isRecord p then []
      else (case verifySkillPack L C p (str_field p ''signerPublicKey'') of
              Pack_invalid _ _ reasons \<Rightarrow>
                map (\<lambda>r. (mapVerificationReason r, extractIdentity p)) reasons
            | Pack_valid _ \<Rightarrow>
                (case extractIdentity p of
                   None \<Rightarrow> []
                 | Some i \<Rightarrow>
                     if \<not> isSkillInForce L (get_field p ''pack'') referenceDate
                     then [(Skill_out_of_force, Some i)] else [])))"

section \<open>Creation\<close>

definition createMissionSkillPin ::
    "js_lib \<Rightarrow> pack_crypto \<Rightarrow> (js_string \<Rightarrow> js_number) \<Rightarrow> js_value \<Rightarrow> js_string \<Rightarrow>
     denial_item list + js_value" where
  "createMissionSkillPin L C num signedPacks referenceDate =
     (if \<not> isValidIsoDate L referenceDate then Inl (assembleDenial [(Invalid_reference_date, None)])
      else if \<not> is_list signedPacks then Inl (assembleDenial [(Malformed_candidate_set, None)])
      else (let packs = elements signedPacks;
                reasons = candidate_issues [] packs @ concat (map (pack_issues L C referenceDate) packs)
            in if 0 < length reasons then Inl (assembleDenial reasons)
               else Inr (J_obj [(''entries'', J_arr (js_sort (compareEntries num) (map projectEntry packs)))])))"

section \<open>Verification\<close>

fun first_per_identity :: "(js_string \<times> 'a) list \<Rightarrow> (js_string \<times> 'a) list" where
  "first_per_identity [] = []"
| "first_per_identity ((i, x) # xs) = (i, x) # filter (\<lambda>(j, y). j \<noteq> i) (first_per_identity xs)"

definition bound_by_identity :: "js_value list \<Rightarrow> (js_string \<times> js_value) list" where
  "bound_by_identity entries =
     first_per_identity (map (\<lambda>e. (identityKey (str_field e ''id'') (str_field e ''version''), e)) entries)"

definition identified :: "js_value list \<Rightarrow> (js_string \<times> js_value) list" where
  "identified packs =
     concat (map (\<lambda>p. case extractIdentity p of None \<Rightarrow> [] | Some i \<Rightarrow> [(i, p)]) packs)"

definition candidate_by_identity :: "js_value list \<Rightarrow> (js_string \<times> js_value) list" where
  "candidate_by_identity packs = first_per_identity (identified packs)"

text \<open>\<open>identity.slice(0, identity.lastIndexOf("@"))\<close>\<close>

definition before_last_at :: "js_string \<Rightarrow> js_string" where
  "before_last_at s = rev (drop 1 (dropWhile (\<lambda>c. c \<noteq> CHR ''@'') (rev s)))"

definition missing_issues :: "js_value list \<Rightarrow> js_value list \<Rightarrow> denial_item list" where
  "missing_issues entries packs =
     concat (map (\<lambda>(i, _). if i \<notin> fst ` set (candidate_by_identity packs) then [(Missing_skill, Some i)] else [])
       (bound_by_identity entries)) @
     concat (map (\<lambda>(i, _). if i \<notin> fst ` set (bound_by_identity entries) then [(Additional_skill, Some i)] else [])
       (candidate_by_identity packs))"

definition version_issues :: "js_value list \<Rightarrow> js_value list \<Rightarrow> denial_item list" where
  "version_issues entries packs =
     (let boundIds = map (\<lambda>e. str_field e ''id'') entries;
          candidateIds = map (\<lambda>(i, _). before_last_at i) (identified packs)
      in concat (map (\<lambda>e.
           let i = identityKey (str_field e ''id'') (str_field e ''version'')
           in if count_list boundIds (str_field e ''id'') \<noteq> 1 then []
              else if count_list candidateIds (str_field e ''id'') \<noteq> 1 then []
              else if i \<in> fst ` set (candidate_by_identity packs) then []
              else [(Version_mismatch, Some i)]) entries))"

definition binding_issues :: "js_value list \<Rightarrow> js_value list \<Rightarrow> denial_item list" where
  "binding_issues entries packs =
     concat (map (\<lambda>(i, entry).
       case map_of (candidate_by_identity packs) i of
         None \<Rightarrow> []
       | Some candidate \<Rightarrow>
           (let pack = get_field candidate ''pack''
            in (if get_field pack ''checksum'' \<noteq> get_field entry ''checksum''
                then [(Pin_checksum_mismatch, Some i)] else []) @
               (if get_field pack ''jurisdiction'' \<noteq> get_field entry ''jurisdiction''
                then [(Jurisdiction_mismatch, Some i)] else []) @
               (if \<not> sameVigencia (get_field pack ''validity'') (get_field entry ''vigencia'')
                then [(Vigencia_mismatch, Some i)] else [])))
       (bound_by_identity entries))"

text \<open>\<open>None\<close> is the valid result.\<close>

definition verifyMissionSkillPin ::
    "js_lib \<Rightarrow> pack_crypto \<Rightarrow> js_value \<Rightarrow> js_value \<Rightarrow> js_string \<Rightarrow> denial_item list option" where
  "verifyMissionSkillPin L C pin candidates referenceDate =
     (if \<not> isValidIsoDate L referenceDate then Some (assembleDenial [(Invalid_reference_date, None)])
      else if \<not> isMissionSkillPinShape pin then Some (assembleDenial [(Malformed_pin, None)])
      else if \<not> is_list candidates then Some (assembleDenial [(Malformed_candidate_set, None)])
      else (let entries = pin_entries pin; packs = elements candidates;
                reasons = pin_issues [] entries @ candidate_issues [] packs @
                  concat (map (pack_issues L C referenceDate) packs) @ missing_issues entries packs @
                  version_issues entries packs @ binding_issues entries packs
            in if length reasons = 0 then None else Some (assembleDenial reasons)))"

section \<open>When there is no reason to deny\<close>

lemma verify_invalid_reasons: "verifySkillPack L C p k = Pack_invalid c s rs \<Longrightarrow> rs \<noteq> []"
  by (auto simp: verifySkillPack_def signature_outcome_def Let_def split: if_splits option.splits)

lemma verify_valid_shape: "verifySkillPack L C p k = Pack_valid v \<Longrightarrow> isSignedSkillPackShape p"
  by (auto simp: verifySkillPack_def split: if_splits)

definition entry_identity :: "js_value \<Rightarrow> js_string" where
  "entry_identity e = identityKey (str_field e ''id'') (str_field e ''version'')"

definition pack_identity :: "js_value \<Rightarrow> js_string" where
  "pack_identity p = (case extractIdentity p of None \<Rightarrow> [] | Some i \<Rightarrow> i)"

text \<open>A candidate that verifies under the key it embeds and is in force.\<close>

definition accepted_pack :: "js_lib \<Rightarrow> pack_crypto \<Rightarrow> js_string \<Rightarrow> js_value \<Rightarrow> bool" where
  "accepted_pack L C referenceDate p \<longleftrightarrow>
     (case verifySkillPack L C p (str_field p ''signerPublicKey'') of
        Pack_invalid _ _ _ \<Rightarrow> False
      | Pack_valid _ \<Rightarrow> isSkillInForce L (get_field p ''pack'') referenceDate)"

lemma accepted_shape: "accepted_pack L C d p \<Longrightarrow> isSignedSkillPackShape p"
  using verify_valid_shape by (auto simp: accepted_pack_def split: SkillPackVerification.splits)

lemma shape_identity: "isSignedSkillPackShape p \<Longrightarrow> extractIdentity p = Some (pack_identity p)"
  by (auto simp: isSignedSkillPackShape_def isSkillDefinitionShape_def extractIdentity_def pack_identity_def
      Let_def split: if_splits)

lemma candidate_issues_Nil:
  "candidate_issues seen ps = [] \<longleftrightarrow>
     list_all (\<lambda>p. extractIdentity p \<noteq> None) ps \<and> distinct (map pack_identity ps) \<and>
     pack_identity ` set ps \<inter> set seen = {}"
  by (induction seen ps rule: candidate_issues.induct) (auto simp: pack_identity_def split: option.split)

lemma pin_issues_Nil:
  "pin_issues seen es = [] \<longleftrightarrow> distinct (map entry_identity es) \<and> entry_identity ` set es \<inter> set seen = {}"
  by (induction seen es rule: pin_issues.induct) (auto simp: entry_identity_def Let_def)

lemma pack_issues_Nil:
  "extractIdentity p \<noteq> None \<Longrightarrow> pack_issues L C d p = [] \<longleftrightarrow> accepted_pack L C d p"
  using verify_invalid_reasons
  by (fastforce simp: pack_issues_def accepted_pack_def extractIdentity_def Let_def
      split: SkillPackVerification.splits option.splits if_splits)

lemma collected_Nil:
  "candidate_issues [] ps @ concat (map (pack_issues L C d) ps) = [] \<longleftrightarrow>
     list_all (accepted_pack L C d) ps \<and> distinct (map pack_identity ps)"
proof -
  have "list_all (accepted_pack L C d) ps \<Longrightarrow> list_all (\<lambda>p. extractIdentity p \<noteq> None) ps"
    using accepted_shape shape_identity by (fastforce simp: list_all_iff)
  then show ?thesis
    using pack_issues_Nil by (auto simp: candidate_issues_Nil list_all_iff)
qed

lemma first_per_identity_distinct: "distinct (map fst xs) \<Longrightarrow> first_per_identity xs = xs"
proof (induction xs rule: first_per_identity.induct)
  case (2 i x xs)
  then have "\<forall>y \<in> set xs. fst y \<noteq> i" by (metis fst_conv distinct.simps(2) image_eqI list.simps(9) list.set_map)
  then have "filter (\<lambda>(j, y). j \<noteq> i) xs = xs" by (auto simp: filter_id_conv)
  with 2 show ?case by simp
qed simp

lemma bound_distinct:
  "distinct (map entry_identity es) \<Longrightarrow> bound_by_identity es = map (\<lambda>e. (entry_identity e, e)) es"
  unfolding bound_by_identity_def entry_identity_def [symmetric]
  by (rule first_per_identity_distinct) (simp add: comp_def)

lemma identified_all:
  "list_all isSignedSkillPackShape ps \<Longrightarrow> identified ps = map (\<lambda>p. (pack_identity p, p)) ps"
  by (induction ps) (auto simp: identified_def shape_identity)

lemma candidates_distinct:
  "list_all isSignedSkillPackShape ps \<Longrightarrow> distinct (map pack_identity ps) \<Longrightarrow>
     candidate_by_identity ps = map (\<lambda>p. (pack_identity p, p)) ps"
  by (simp add: candidate_by_identity_def identified_all first_per_identity_distinct comp_def)

section \<open>The bindings of a pin\<close>

type_synonym binding = "js_string \<times> js_value \<times> js_value \<times> js_value \<times> js_value"

definition entry_binding :: "js_value \<Rightarrow> binding" where
  "entry_binding e =
     (entry_identity e, get_field e ''checksum'', get_field e ''jurisdiction'',
      get_field (get_field e ''vigencia'') ''from'', nullish (get_field (get_field e ''vigencia'') ''to''))"

definition pack_binding :: "js_value \<Rightarrow> binding" where
  "pack_binding p =
     (let pack = get_field p ''pack''; validity = get_field pack ''validity''
      in (pack_identity p, get_field pack ''checksum'', get_field pack ''jurisdiction'',
          get_field validity ''from'', nullish (get_field validity ''to'')))"

lemma binding_identity [simp]: "fst (entry_binding e) = entry_identity e" "fst (pack_binding p) = pack_identity p"
  by (simp_all add: entry_binding_def pack_binding_def Let_def)

lemma shape_validity: "isSignedSkillPackShape p \<Longrightarrow> isRecord (get_field (get_field p ''pack'') ''validity'')"
  by (auto simp: isSignedSkillPackShape_def isSkillDefinitionShape_def Let_def split: if_splits)

lemma binding_issues_Nil:
  assumes "list_all isSignedSkillPackShape ps" "distinct (map pack_identity ps)" "distinct (map entry_identity es)"
  shows "binding_issues es ps = [] \<longleftrightarrow>
    (\<forall>e \<in> set es. \<forall>p \<in> set ps. pack_identity p = entry_identity e \<longrightarrow> pack_binding p = entry_binding e)"
proof -
  have look: "map_of (map (\<lambda>p. (pack_identity p, p)) ps) i = Some p \<longleftrightarrow> p \<in> set ps \<and> pack_identity p = i" for i p
    using assms(2) by (subst map_of_eq_Some_iff) (auto simp: comp_def)
  let ?i = "\<lambda>e p. (if get_field (get_field p ''pack'') ''checksum'' \<noteq> get_field e ''checksum''
                then [(Pin_checksum_mismatch, Some (entry_identity e))] else []) @
               (if get_field (get_field p ''pack'') ''jurisdiction'' \<noteq> get_field e ''jurisdiction''
                then [(Jurisdiction_mismatch, Some (entry_identity e))] else []) @
               (if \<not> sameVigencia (get_field (get_field p ''pack'') ''validity'') (get_field e ''vigencia'')
                then [(Vigencia_mismatch, Some (entry_identity e))] else [])"
  have one: "?i e p = [] \<longleftrightarrow> pack_binding p = entry_binding e"
    if "p \<in> set ps" "pack_identity p = entry_identity e" for e p
  proof -
    have "isRecord (get_field (get_field p ''pack'') ''validity'')"
      using that assms(1) shape_validity by (simp add: list_all_iff)
    with that(2) show ?thesis by (auto simp: pack_binding_def entry_binding_def sameVigencia_def Let_def)
  qed
  have "binding_issues es ps = concat (map (\<lambda>e. case map_of (map (\<lambda>p. (pack_identity p, p)) ps) (entry_identity e) of
      None \<Rightarrow> [] | Some p \<Rightarrow> ?i e p) es)"
    unfolding binding_issues_def bound_distinct [OF assms(3)] candidates_distinct [OF assms(1,2)] Let_def
    by (simp add: comp_def)
  then have "binding_issues es ps = [] \<longleftrightarrow>
      (\<forall>e \<in> set es. \<forall>p. map_of (map (\<lambda>p. (pack_identity p, p)) ps) (entry_identity e) = Some p \<longrightarrow> ?i e p = [])"
    by (simp only: concat_eq_Nil_conv set_map ball_simps) (auto split: option.splits simp del: append_is_Nil_conv)
  then have "binding_issues es ps = [] \<longleftrightarrow>
      (\<forall>e \<in> set es. \<forall>p. map_of (map (\<lambda>p. (pack_identity p, p)) ps) (entry_identity e) = Some p \<longrightarrow>
        pack_binding p = entry_binding e)"
    using one look by blast
  then show ?thesis by (auto simp: look)
qed

lemma missing_issues_Nil:
  assumes "list_all isSignedSkillPackShape ps" "distinct (map pack_identity ps)" "distinct (map entry_identity es)"
  shows "missing_issues es ps = [] \<longleftrightarrow> entry_identity ` set es = pack_identity ` set ps"
proof -
  have "missing_issues es ps = [] \<longleftrightarrow>
      (\<forall>e \<in> set es. entry_identity e \<in> pack_identity ` set ps) \<and> (\<forall>p \<in> set ps. pack_identity p \<in> entry_identity ` set es)"
    by (auto simp: missing_issues_def bound_distinct [OF assms(3)] candidates_distinct [OF assms(1,2)] image_image)
  then show ?thesis by auto
qed

lemma version_issues_Nil:
  assumes "list_all isSignedSkillPackShape ps" "distinct (map pack_identity ps)"
    and "entry_identity ` set es = pack_identity ` set ps"
  shows "version_issues es ps = []"
  using assms(3) by (auto simp: version_issues_def candidates_distinct [OF assms(1,2)] image_image Let_def
      simp flip: entry_identity_def)

text \<open>Two keyed lists agree on every key exactly when their bindings are the same multiset.\<close>

lemma keyed_subset:
  assumes "l ` set es \<subseteq> k ` set ps" "\<forall>e \<in> set es. \<forall>p \<in> set ps. k p = l e \<longrightarrow> b p = c e"
  shows "c ` set es \<subseteq> b ` set ps"
proof
  fix x assume "x \<in> c ` set es"
  then obtain e where e: "e \<in> set es" "x = c e" by auto
  then obtain p where "p \<in> set ps" "k p = l e" using assms(1) by force
  with e assms(2) show "x \<in> b ` set ps" by force
qed

lemma keyed_bindings:
  assumes dp: "distinct (map k ps)" and b: "\<And>p. fst (b p) = k p" and c: "\<And>e. fst (c e) = l e"
  shows "distinct (map l es) \<and> l ` set es = k ` set ps \<and>
      (\<forall>e \<in> set es. \<forall>p \<in> set ps. k p = l e \<longrightarrow> b p = c e) \<longleftrightarrow> mset (map b ps) = mset (map c es)"
proof
  assume l: "distinct (map l es) \<and> l ` set es = k ` set ps \<and> (\<forall>e \<in> set es. \<forall>p \<in> set ps. k p = l e \<longrightarrow> b p = c e)"
  then have de: "distinct (map l es)" and i: "l ` set es = k ` set ps"
    and e: "\<forall>e \<in> set es. \<forall>p \<in> set ps. k p = l e \<longrightarrow> b p = c e" by blast+
  have keys: "map k ps = map fst (map b ps)" "map l es = map fst (map c es)" by (simp_all add: b c)
  have "distinct (map b ps)" using dp unfolding keys(1) distinct_map [of fst] by (rule conjunct1)
  moreover have "distinct (map c es)" using de unfolding keys(2) distinct_map [of fst] by (rule conjunct1)
  moreover have "c ` set es \<subseteq> b ` set ps"
    by (rule keyed_subset [where l = l and k = k]) (use i e in blast)+
  moreover have "b ` set ps \<subseteq> c ` set es"
    by (rule keyed_subset [where l = k and k = l]) (use i e in \<open>blast, metis\<close>)
  ultimately show "mset (map b ps) = mset (map c es)"
    using set_eq_iff_mset_eq_distinct [of "map b ps" "map c es"] by simp
next
  assume m: "mset (map b ps) = mset (map c es)"
  have "mset (map fst (map b ps)) = mset (map fst (map c es))" using m by (simp only: mset_map)
  then have mi: "mset (map k ps) = mset (map l es)" by (simp add: b c comp_def del: mset_map)
  then have "distinct (map l es)" using dp mset_eq_imp_distinct_iff by blast
  moreover have "l ` set es = k ` set ps" using mset_eq_setD [OF mi] by simp
  moreover have "b p = c e" if "e \<in> set es" "p \<in> set ps" "k p = l e" for e p
  proof -
    have "c e \<in> set (map b ps)" using that(1) mset_eq_setD [OF m] by simp
    then obtain q where q: "q \<in> set ps" "c e = b q" by auto
    then have "k q = k p" using that(3) b c by metis
    then have "q = p" using dp q(1) that(2) by (auto simp: distinct_map inj_on_def)
    with q(2) show ?thesis by simp
  qed
  ultimately show "distinct (map l es) \<and> l ` set es = k ` set ps \<and>
      (\<forall>e \<in> set es. \<forall>p \<in> set ps. k p = l e \<longrightarrow> b p = c e)" by blast
qed

lemma bindings_Nil:
  assumes "list_all isSignedSkillPackShape ps" "distinct (map pack_identity ps)"
  shows "missing_issues es ps @ version_issues es ps @ binding_issues es ps = [] \<and> distinct (map entry_identity es) \<longleftrightarrow>
      mset (map pack_binding ps) = mset (map entry_binding es)"
  using keyed_bindings [where k = pack_identity and b = pack_binding and l = entry_identity and c = entry_binding, OF assms(2), of es]
    missing_issues_Nil [OF assms] binding_issues_Nil [OF assms] version_issues_Nil [OF assms]
  by (auto simp del: mset_map)

lemma verified_iff:
  "verifyMissionSkillPin L C pin (J_arr ps) d = None \<longleftrightarrow>
     isValidIsoDate L d \<and> isMissionSkillPinShape pin \<and> list_all (accepted_pack L C d) ps \<and>
     distinct (map pack_identity ps) \<and> mset (map pack_binding ps) = mset (map entry_binding (pin_entries pin))"
proof -
  let ?es = "pin_entries pin"
  have sh: "list_all (accepted_pack L C d) ps \<Longrightarrow> list_all isSignedSkillPackShape ps"
    using accepted_shape by (auto simp: list_all_iff)
  have "verifyMissionSkillPin L C pin (J_arr ps) d = None \<longleftrightarrow>
      isValidIsoDate L d \<and> isMissionSkillPinShape pin \<and>
      (candidate_issues [] ps @ concat (map (pack_issues L C d) ps) = []) \<and>
      (missing_issues ?es ps @ version_issues ?es ps @ binding_issues ?es ps = [] \<and> distinct (map entry_identity ?es))"
    using pin_issues_Nil [of "[]" ?es] by (auto simp: verifyMissionSkillPin_def Let_def)
  then show ?thesis unfolding collected_Nil using bindings_Nil sh by blast
qed

section \<open>Pins of verified packs\<close>

lemma project_binding: "isSignedSkillPackShape p \<Longrightarrow> entry_binding (projectEntry p) = pack_binding p"
  using shape_identity [of p]
  by (auto simp: entry_binding_def pack_binding_def projectEntry_def entry_identity_def str_field_def Let_def
      extractIdentity_def split: if_splits)

lemma project_shape: "isSignedSkillPackShape p \<Longrightarrow> pin_entry_shape (projectEntry p)"
  by (auto simp: isSignedSkillPackShape_def isSkillDefinitionShape_def pin_entry_shape_def projectEntry_def
      Let_def split: if_splits)

lemma created_pin:
  assumes "createMissionSkillPin L C num packs d = Inr pin"
  shows "list_all (accepted_pack L C d) (elements packs)" "distinct (map pack_identity (elements packs))"
    "pin_entries pin = js_sort (compareEntries num) (map projectEntry (elements packs))"
    "isMissionSkillPinShape pin" "is_list packs" "isValidIsoDate L d"
proof -
  show a: "list_all (accepted_pack L C d) (elements packs)" and "distinct (map pack_identity (elements packs))"
    and e: "pin_entries pin = js_sort (compareEntries num) (map projectEntry (elements packs))"
    and "is_list packs" "isValidIsoDate L d"
    using assms collected_Nil [of "elements packs" L C d]
    by (auto simp: createMissionSkillPin_def pin_entries_def Let_def split: if_splits)
  have "list_all pin_entry_shape (pin_entries pin)"
    unfolding e using a accepted_shape project_shape by (fastforce simp: list_all_iff)
  then show "isMissionSkillPinShape pin"
    using assms by (auto simp: createMissionSkillPin_def isMissionSkillPinShape_def Let_def split: if_splits)
qed

text \<open>C29: A pin made from a set of packs is verified, at any date, by exactly the candidate sets with the
  same bindings (identity, checksum, jurisdiction and validity), in any order, all of whose packs
  verify under the key they embed and are in force at that date; every other set is denied.
\<close>

theorem pin_accepts_exactly_its_bindings:
  assumes "createMissionSkillPin L C num packs d = Inr pin"
  shows "verifyMissionSkillPin L C pin (J_arr candidates) day = None \<longleftrightarrow>
    isValidIsoDate L day \<and> list_all (accepted_pack L C day) candidates \<and>
    mset (map pack_binding candidates) = mset (map pack_binding (elements packs))"
proof -
  note c = created_pin [OF assms]
  have "list_all isSignedSkillPackShape (elements packs)"
    using c(1) accepted_shape by (auto simp: list_all_iff)
  then have "map entry_binding (map projectEntry (elements packs)) = map pack_binding (elements packs)"
    by (auto simp: list_all_iff project_binding)
  moreover have "mset (map entry_binding (pin_entries pin)) = mset (map entry_binding (map projectEntry (elements packs)))"
    unfolding c(3) by (simp del: map_map)
  ultimately have m: "mset (map entry_binding (pin_entries pin)) = mset (map pack_binding (elements packs))"
    by (simp only:)
  have "distinct (map pack_identity candidates)"
    if "mset (map pack_binding candidates) = mset (map pack_binding (elements packs))"
  proof -
    have "mset (map fst (map pack_binding candidates)) = mset (map fst (map pack_binding (elements packs)))"
      using that by (simp only: mset_map)
    then have "mset (map pack_identity candidates) = mset (map pack_identity (elements packs))"
      by (simp add: comp_def del: mset_map)
    with c(2) show ?thesis using mset_eq_imp_distinct_iff by blast
  qed
  then show ?thesis unfolding verified_iff m using c(4) by blast
qed

definition sample_pin :: js_value where
  "sample_pin = J_obj [(''entries'', J_arr [projectEntry signed_sample])]"

lemma pinned_sample_accepted: "accepted_pack skill_lib sample_crypto ''2024-06-01'' signed_sample"
proof -
  have "isSkillInForce skill_lib (sample_skill ''1.9.0'' ''2024-01-01'') ''2024-06-01''" by code_simp
  then have "isSkillInForce skill_lib (get_field signed_sample ''pack'') ''2024-06-01''"
    by (simp add: pack_fields(1) [OF signed_sample_def] isSkillInForce_def declared_keys_def)
  moreover have "str_field signed_sample ''signerPublicKey'' = kp_publicKey skill_keys"
    by (simp add: pack_fields(2) [OF signed_sample_def] skill_keys_def del: base64_encode.simps)
  moreover have "verifySkillPack skill_lib sample_crypto signed_sample (kp_publicKey skill_keys) = Pack_valid signed_sample"
    using signed_sample_verifies .
  ultimately show ?thesis by (simp add: accepted_pack_def)
qed

lemma sample_pin_created:
  "createMissionSkillPin skill_lib sample_crypto zero_number (J_arr [signed_sample]) ''2024-06-01'' = Inr sample_pin"
proof -
  have "isValidIsoDate skill_lib ''2024-06-01''" by code_simp
  moreover have "candidate_issues [] [signed_sample] @ concat (map (pack_issues skill_lib sample_crypto ''2024-06-01'') [signed_sample]) = []"
    unfolding collected_Nil by (simp add: pinned_sample_accepted)
  ultimately show ?thesis by (simp add: createMissionSkillPin_def sample_pin_def js_sort_def del: append_is_Nil_conv)
qed

theorem pin_accepts_exactly_its_bindings_witness:
  "verifyMissionSkillPin skill_lib sample_crypto sample_pin (J_arr [signed_sample]) ''2024-06-01'' = None \<and>
   verifyMissionSkillPin skill_lib sample_crypto sample_pin (J_arr []) ''2024-06-01'' \<noteq> None"
proof -
  have "isValidIsoDate skill_lib ''2024-06-01''" by code_simp
  then show ?thesis
    unfolding pin_accepts_exactly_its_bindings [OF sample_pin_created] by (simp add: pinned_sample_accepted)
qed

section \<open>Denials and pins do not depend on the order of the packs\<close>

lemma code_rank_inject: "code_rank c = code_rank d \<longleftrightarrow> c = d"
  by (cases c; cases d; simp add: code_rank_def DENIAL_CODE_ORDER_def)

lemma compare_items_le:
  "compare_items a b \<le> 0 \<longleftrightarrow>
     code_rank (fst a) < code_rank (fst b) \<or>
     code_rank (fst a) = code_rank (fst b) \<and> snd (item_key a) \<le> snd (item_key b)"
  by (auto simp: compare_items_def Let_def)

lemma compare_items_preorder: "total_preorder compare_items"
  unfolding total_preorder_def compare_items_le
proof (intro conjI allI impI)
  fix x y z :: denial_item
  let ?r = "\<lambda>x. code_rank (fst x)" and ?k = "\<lambda>x. snd (item_key x)"
  show "(?r x < ?r y \<or> ?r x = ?r y \<and> ?k x \<le> ?k y) \<or> (?r y < ?r x \<or> ?r y = ?r x \<and> ?k y \<le> ?k x)"
    using linorder_less_linear [of "?r x" "?r y"] linorder_linear [of "?k x" "?k y"] by auto
  assume "?r x < ?r y \<or> ?r x = ?r y \<and> ?k x \<le> ?k y" "?r y < ?r z \<or> ?r y = ?r z \<and> ?k y \<le> ?k z"
  then show "?r x < ?r z \<or> ?r x = ?r z \<and> ?k x \<le> ?k z" using order_trans [of "?k x" "?k y" "?k z"] by auto
qed

text \<open>No item has the empty identity, which the deduplication would confuse with an absent one.\<close>

definition keyed :: "denial_item list \<Rightarrow> bool" where
  "keyed items \<longleftrightarrow> list_all (\<lambda>item. snd item \<noteq> Some []) items"

lemma item_key_inject:
  "snd a \<noteq> Some [] \<Longrightarrow> snd b \<noteq> Some [] \<Longrightarrow> item_key a = item_key b \<longleftrightarrow> a = b"
  by (cases a; cases b) (auto simp: item_key_def split: option.splits)

lemma unique_items_props:
  "keyed items \<Longrightarrow> distinct (unique_items seen items) \<and>
     set (unique_items seen items) = {x \<in> set items. item_key x \<notin> set seen}"
proof (induction seen items rule: unique_items.induct)
  case (2 seen item items)
  have k: "keyed items" "snd item \<noteq> Some []" using 2(3) by (simp_all add: keyed_def)
  have inj: "item_key x = item_key item \<longleftrightarrow> x = item" if "x \<in> set items" for x
    using that 2(3) by (intro item_key_inject) (auto simp: keyed_def list_all_iff)
  show ?case
  proof (cases "item_key item \<in> set seen")
    case True
    with 2(1) k(1) show ?thesis by auto
  next
    case False
    with 2(2) k(1) inj show ?thesis by auto
  qed
qed simp

lemma assembleDenial_cong:
  assumes "keyed a" "set a = set b"
  shows "assembleDenial a = assembleDenial b"
  unfolding assembleDenial_def
proof (rule js_sort_unique [OF compare_items_preorder])
  have b: "keyed b" using assms by (simp add: keyed_def list_all_iff)
  show "mset (unique_items [] a) = mset (unique_items [] b)"
    using unique_items_props [OF assms(1), of "[]"] unique_items_props [OF b, of "[]"] assms(2)
    by (simp add: set_eq_iff_mset_eq_distinct [symmetric])
  fix x y assume xy: "x \<in> set (unique_items [] a)" "y \<in> set (unique_items [] a)"
    "compare_items x y \<le> 0" "compare_items y x \<le> 0"
  then have "snd x \<noteq> Some []" "snd y \<noteq> Some []"
    using unique_items_props [OF assms(1), of "[]"] assms(1) by (auto simp: keyed_def list_all_iff)
  moreover have "code_rank (fst x) = code_rank (fst y)" and k: "snd (item_key x) = snd (item_key y)"
    using xy(3,4) unfolding compare_items_le by auto
  then have "fst (item_key x) = fst (item_key y)"
    using code_rank_inject [of "fst x" "fst y"] by (simp add: item_key_def)
  with k have "item_key x = item_key y" by (rule prod_eqI [rotated])
  ultimately show "x = y" by (metis item_key_inject)
qed

lemma identity_nonempty: "extractIdentity p \<noteq> Some []"
  by (auto simp: extractIdentity_def identityKey_def Let_def)

lemma duplicate_issue:
  "(Duplicate_candidate_identity, Some i) \<in> set (candidate_issues seen ps) \<longleftrightarrow>
     i \<in> set seen \<and> i \<in> set (map fst (identified ps)) \<or> 2 \<le> count_list (map fst (identified ps)) i"
proof (induction seen ps rule: candidate_issues.induct)
  case (2 seen p ps)
  show ?case
  proof (cases "extractIdentity p")
    case None
    then have "identified (p # ps) = identified ps" by (simp add: identified_def)
    with None 2(1) show ?thesis by simp
  next
    case (Some j)
    then have i: "map fst (identified (p # ps)) = j # map fst (identified ps)" by (simp add: identified_def)
    have c: "count_list (map fst (identified ps)) j = 0 \<longleftrightarrow> j \<notin> set (map fst (identified ps))"
      by (rule count_list_0_iff)
    show ?thesis unfolding i using Some 2(2) [OF Some] c by (cases "i = j") auto
  qed
qed (simp add: identified_def)

lemma candidate_issue_kinds:
  "x \<in> set (candidate_issues seen ps) \<Longrightarrow> x = (Candidate_malformed, None) \<or> (\<exists>i. x = (Duplicate_candidate_identity, Some i))"
  by (induction seen ps rule: candidate_issues.induct) (auto split: option.splits if_splits)

lemma malformed_issue:
  "(Candidate_malformed, None) \<in> set (candidate_issues seen ps) \<longleftrightarrow> (\<exists>p \<in> set ps. extractIdentity p = None)"
  by (induction seen ps rule: candidate_issues.induct) (auto split: option.splits)

lemma candidate_issues_mset:
  assumes "mset ps = mset qs"
  shows "set (candidate_issues [] ps) = set (candidate_issues [] qs)"
proof -
  have "mset (map fst (identified ps)) = mset (map fst (identified qs))"
  proof -
    have "mset (map fst (identified xs)) = image_mset (\<lambda>p. the (extractIdentity p)) (filter_mset (\<lambda>p. extractIdentity p \<noteq> None) (mset xs))"
      for xs by (induction xs) (auto simp: identified_def)
    with assms show ?thesis by simp
  qed
  then have "count_list (map fst (identified ps)) = count_list (map fst (identified qs))"
    by (metis count_mset ext)
  moreover have "set ps = set qs" using assms by (rule mset_eq_setD)
  ultimately have "x \<in> set (candidate_issues [] ps) \<longleftrightarrow> x \<in> set (candidate_issues [] qs)" for x
    using candidate_issue_kinds [of x "[]" ps] candidate_issue_kinds [of x "[]" qs] duplicate_issue malformed_issue
    by (metis empty_iff list.set(1))
  then show ?thesis by blast
qed

lemma keyed_reasons: "keyed (candidate_issues seen ps @ concat (map (pack_issues L C d) ps))"
proof -
  have "snd x \<noteq> Some []" if "x \<in> set (candidate_issues seen ps)" for x
    using that identity_nonempty
    by (induction seen ps rule: candidate_issues.induct) (auto split: option.splits if_splits)
  moreover have "snd x \<noteq> Some []" if "x \<in> set (pack_issues L C d p)" for x p
    using that identity_nonempty [of p]
    by (auto simp: pack_issues_def split: if_splits SkillPackVerification.splits option.splits)
  ultimately show ?thesis by (auto simp: keyed_def list_all_iff)
qed

lemma project_fields [simp]:
  "str_field (projectEntry p) ''id'' = str_field (get_field p ''pack'') ''id''"
  "str_field (projectEntry p) ''version'' = str_field (get_field p ''pack'') ''version''"
  by (simp_all add: projectEntry_def str_field_def Let_def)

lemma entries_preorder: "total_preorder (compareEntries num)"
  unfolding total_preorder_def
proof (intro conjI allI impI)
  fix x y z
  let ?p = "\<lambda>v. map Fin (parseSemver num (str_field v ''version''))"
  have nan: "NaN \<notin> set (?p v)" and len: "length (?p v) = length (?p w)" for v w
    by (auto simp: parseSemver_def Let_def)
  have sw: "order_of (first_diff (zip (?p y) (?p x))) = - order_of (first_diff (zip (?p x) (?p y)))"
    using first_diff_swap [OF len nan nan] .
  then show "compareEntries num x y \<le> 0 \<or> compareEntries num y x \<le> 0"
    by (auto simp: compareEntries_def compareSemver_def Let_def)
  assume "compareEntries num x y \<le> 0" "compareEntries num y z \<le> 0"
  then show "compareEntries num x z \<le> 0"
    using first_diff_trans [OF len len nan nan nan, of x y z]
    by (auto simp: compareEntries_def compareSemver_def Let_def split: if_splits)
qed

lemma compareEntries_antisym:
  assumes "compareEntries num a b \<le> 0" "compareEntries num b a \<le> 0"
  shows "str_field a ''id'' = str_field b ''id'' \<and>
    order_of (compareSemver num (str_field a ''version'') (str_field b ''version'')) = 0"
proof -
  have n: "NaN \<notin> set (map Fin (parseSemver num v))" and l: "length (map Fin (parseSemver num v)) = length (map Fin (parseSemver num w))"
    for v w by (auto simp: parseSemver_def Let_def)
  have "order_of (compareSemver num w v) = - order_of (compareSemver num v w)" for v w
    unfolding compareSemver_def by (rule first_diff_swap [OF l n n])
  from this [of "str_field b ''version''" "str_field a ''version''"] assms show ?thesis
    by (auto simp: compareEntries_def Let_def split: if_splits)
qed

text \<open>The creation of a pin does not depend on the order in which the packs are given: the same
  denial, reason for reason, or the same pin, as long as no two packs of the same skill have
  different version texts that compare as equal.
\<close>

theorem pin_creation_ignores_order:
  assumes "mset ps = mset qs"
    and "\<And>p q. p \<in> set ps \<Longrightarrow> q \<in> set ps \<Longrightarrow>
      str_field (get_field p ''pack'') ''id'' = str_field (get_field q ''pack'') ''id'' \<Longrightarrow>
      order_of (compareSemver num (str_field (get_field p ''pack'') ''version'')
        (str_field (get_field q ''pack'') ''version'')) = 0 \<Longrightarrow>
      str_field (get_field p ''pack'') ''version'' = str_field (get_field q ''pack'') ''version''"
  shows "createMissionSkillPin L C num (J_arr ps) d = createMissionSkillPin L C num (J_arr qs) d"
proof -
  let ?r = "\<lambda>xs. candidate_issues [] xs @ concat (map (pack_issues L C d) xs)"
  have s: "set ps = set qs" using assms(1) by (rule mset_eq_setD)
  have r: "set (?r ps) = set (?r qs)" using candidate_issues_mset [OF assms(1)] s by simp
  then have e: "?r ps = [] \<longleftrightarrow> ?r qs = []" by (metis set_empty)
  have d: "assembleDenial (?r ps) = assembleDenial (?r qs)" using keyed_reasons r by (rule assembleDenial_cong)
  have p: "js_sort (compareEntries num) (map projectEntry ps) = js_sort (compareEntries num) (map projectEntry qs)"
    if "?r ps = []"
  proof (rule js_sort_unique [OF entries_preorder])
    show "mset (map projectEntry ps) = mset (map projectEntry qs)" using assms(1) by simp
    fix x y assume xy: "x \<in> set (map projectEntry ps)" "y \<in> set (map projectEntry ps)"
      "compareEntries num x y \<le> 0" "compareEntries num y x \<le> 0"
    then obtain p q where pq: "p \<in> set ps" "x = projectEntry p" "q \<in> set ps" "y = projectEntry q" by auto
    have a: "list_all (accepted_pack L C d) ps" and di: "distinct (map pack_identity ps)"
      using that unfolding collected_Nil by blast+
    have i: "extractIdentity v = Some (pack_identity v)" if "v \<in> set ps" for v
      using a that accepted_shape shape_identity by (auto simp: list_all_iff)
    have "str_field (get_field p ''pack'') ''id'' = str_field (get_field q ''pack'') ''id''"
      and "str_field (get_field p ''pack'') ''version'' = str_field (get_field q ''pack'') ''version''"
      using compareEntries_antisym [OF xy(3,4)] assms(2) [OF pq(1,3)] by (simp_all add: pq(2,4))
    then have "pack_identity p = pack_identity q"
      using i [OF pq(1)] i [OF pq(3)] by (auto simp: extractIdentity_def Let_def split: if_splits)
    with di pq(1,3) have "p = q" by (auto simp: distinct_map inj_on_def)
    then show "x = y" by (simp add: pq(2,4))
  qed
  show ?thesis
    unfolding createMissionSkillPin_def Let_def elements.simps is_list.simps
    using e d p by (simp only: length_greater_0_conv) (simp add: if_split)
qed

theorem pin_creation_ignores_order_witness:
  "createMissionSkillPin skill_lib sample_crypto zero_number (J_arr [J_null, signed_sample]) ''2024-06-01'' =
     createMissionSkillPin skill_lib sample_crypto zero_number (J_arr [signed_sample, J_null]) ''2024-06-01''"
proof (rule pin_creation_ignores_order)
  fix p q assume pq: "p \<in> set [J_null, signed_sample]" "q \<in> set [J_null, signed_sample]"
    "str_field (get_field p ''pack'') ''id'' = str_field (get_field q ''pack'') ''id''"
  have "str_field (get_field signed_sample ''pack'') ''id'' = ''pe.igv''"
    by (simp add: pack_fields(1) [OF signed_sample_def] str_field_def declared_keys_def)
      (simp add: sample_skill_def)
  with pq show "str_field (get_field p ''pack'') ''version'' = str_field (get_field q ''pack'') ''version''"
    by (auto simp: str_field_def)
qed simp

end
