(* ===== verification/Host_Files.thy ===== *)
theory Host_Files
  imports Skill_Registry
begin

text \<open>
  What the configurator uses of \<^verbatim>\<open>node:path\<close> (posix), \<^verbatim>\<open>node:fs\<close> and
  \<open>JSON.stringify(v, null, 2)\<close>. A file system is a map from paths to entries. A world adds the
  faults still to come: every call that may throw takes the next one. A fault makes the call
  throw, possibly after a partial write (\<open>Throws (Some left)\<close>), or kills the process, after which nothing has any effect.
\<close>

section \<open>Paths\<close>

text \<open>\<open>normalizeString\<close> of \<^verbatim>\<open>path.posix\<close>: the segments kept, the last one first.\<close>

fun normal_segments :: "bool \<Rightarrow> js_string list \<Rightarrow> js_string list \<Rightarrow> js_string list" where
  "normal_segments aboveRoot kept [] = kept"
| "normal_segments aboveRoot kept (s # ss) =
     (if s = [] \<or> s = ''.'' then normal_segments aboveRoot kept ss
      else if s = ''..'' then
        (case kept of
           [] \<Rightarrow> normal_segments aboveRoot (if aboveRoot then [s] else []) ss
         | k # ks \<Rightarrow> normal_segments aboveRoot (if k = ''..'' then s # kept else ks) ss)
      else normal_segments aboveRoot (s # kept) ss)"

fun join_slash :: "js_string list \<Rightarrow> js_string" where
  "join_slash [] = []"
| "join_slash [s] = s"
| "join_slash (s # t # ss) = s @ CHR ''/'' # join_slash (t # ss)"

definition path_normalize :: "js_string \<Rightarrow> js_string" where
  "path_normalize p =
     (if p = [] then ''.''
      else (let absolute = (hd p = CHR ''/''); trailing = (last p = CHR ''/'');
                body = join_slash (rev (normal_segments (\<not> absolute) [] (split_on CHR ''/'' p)))
            in if body = [] then (if absolute then ''/'' else if trailing then ''./'' else ''.'')
               else (if absolute then ''/'' else []) @ body @ (if trailing then ''/'' else [])))"

definition path_join :: "js_string \<Rightarrow> js_string \<Rightarrow> js_string" where
  "path_join a b =
     (let joined = (if a = [] then b else if b = [] then a else a @ CHR ''/'' # b)
      in path_normalize joined)"

text \<open>Of a path without a trailing slash.\<close>

definition path_basename :: "js_string \<Rightarrow> js_string" where
  "path_basename p = rev (takeWhile (\<lambda>c. c \<noteq> CHR ''/'') (rev p))"

definition path_dirname :: "js_string \<Rightarrow> js_string" where
  "path_dirname p =
     (case dropWhile (\<lambda>c. c \<noteq> CHR ''/'') (rev p) of
        [] \<Rightarrow> ''.''
      | slash # r \<Rightarrow> if dropWhile (\<lambda>c. c = CHR ''/'') r = [] then ''/'' else rev r)"

section \<open>Files\<close>

datatype fs_entry = File js_string | Unreadable_file | Directory

type_synonym file_map = "js_string \<Rightarrow> fs_entry option"

definition existsSync :: "file_map \<Rightarrow> js_string \<Rightarrow> bool" where
  "existsSync files p \<longleftrightarrow> files p \<noteq> None"

text \<open>\<open>None\<close> where the read throws.\<close>

definition readFileSync :: "file_map \<Rightarrow> js_string \<Rightarrow> js_string option" where
  "readFileSync files p = (case files p of Some (File s) \<Rightarrow> Some s | _ \<Rightarrow> None)"

datatype fault = Works | Throws "js_string option" | Dies

record world =
  wd_files :: file_map
  wd_faults :: "fault list"
  wd_dead :: bool
  wd_fresh :: nat

text \<open>The fate of the next call; the calls of a dead process have none.\<close>

definition next_fault :: "world \<Rightarrow> fault \<times> world" where
  "next_fault w =
     (if wd_dead w then (Dies, w)
      else (case wd_faults w of
              [] \<Rightarrow> (Works, w)
            | f # fs \<Rightarrow> (f, w\<lparr>wd_faults := fs, wd_dead := (f = Dies)\<rparr>)))"

text \<open>
  A call that changes the files: \<open>act\<close> is its effect, \<open>None\<close> where the system refuses it, and
  \<open>partial\<close> what a throwing call may leave behind. The answer says whether it returned.
\<close>

definition fs_call ::
    "(file_map \<Rightarrow> file_map option) \<Rightarrow> (js_string \<Rightarrow> file_map \<Rightarrow> file_map) \<Rightarrow> world \<Rightarrow> bool \<times> world" where
  "fs_call act partial w =
     (case next_fault w of
        (Works, w') \<Rightarrow>
          (case act (wd_files w') of
             None \<Rightarrow> (False, w')
           | Some files \<Rightarrow> (True, w'\<lparr>wd_files := files\<rparr>))
      | (Throws left, w') \<Rightarrow>
          (False, (case left of None \<Rightarrow> w' | Some s \<Rightarrow> w'\<lparr>wd_files := partial s (wd_files w')\<rparr>))
      | (Dies, w') \<Rightarrow> (False, w'))"

definition no_partial :: "js_string \<Rightarrow> file_map \<Rightarrow> file_map" where
  "no_partial left files = files"

text \<open>\<open>openSync(p, "w")\<close> creates or truncates; writing goes through the descriptor.\<close>

definition open_write :: "js_string \<Rightarrow> world \<Rightarrow> bool \<times> world" where
  "open_write p =
     fs_call (\<lambda>files. case files p of
                Some (File _) \<Rightarrow> Some (files(p \<mapsto> File []))
              | Some _ \<Rightarrow> None
              | None \<Rightarrow> if files (path_dirname p) = Some Directory then Some (files(p \<mapsto> File [])) else None)
       no_partial"

definition write_open :: "js_string \<Rightarrow> js_string \<Rightarrow> world \<Rightarrow> bool \<times> world" where
  "write_open p data = fs_call (\<lambda>files. Some (files(p \<mapsto> File data))) (\<lambda>left files. files(p \<mapsto> File left))"

definition sync_or_close :: "world \<Rightarrow> bool \<times> world" where
  "sync_or_close = fs_call Some no_partial"

text \<open>\<open>writeFileSync(p, data)\<close>: an existing file is truncated and rewritten.\<close>

definition write_path :: "js_string \<Rightarrow> js_string \<Rightarrow> world \<Rightarrow> bool \<times> world" where
  "write_path p data =
     fs_call (\<lambda>files. case files p of
                Some (File _) \<Rightarrow> Some (files(p \<mapsto> File data))
              | Some _ \<Rightarrow> None
              | None \<Rightarrow> if files (path_dirname p) = Some Directory then Some (files(p \<mapsto> File data)) else None)
       (\<lambda>left files. case files p of
          Some (File _) \<Rightarrow> files(p \<mapsto> File left)
        | Some _ \<Rightarrow> files
        | None \<Rightarrow> if files (path_dirname p) = Some Directory then files(p \<mapsto> File left) else files)"

definition unlinkSync :: "js_string \<Rightarrow> world \<Rightarrow> bool \<times> world" where
  "unlinkSync p =
     fs_call (\<lambda>files. case files p of
                None \<Rightarrow> None | Some Directory \<Rightarrow> None | Some _ \<Rightarrow> Some (files(p := None)))
       no_partial"

definition renameSync :: "js_string \<Rightarrow> js_string \<Rightarrow> world \<Rightarrow> bool \<times> world" where
  "renameSync source target =
     fs_call (\<lambda>files. case files source of
                None \<Rightarrow> None
              | Some e \<Rightarrow> if files target = Some Directory then None
                          else Some (files(target \<mapsto> e, source := None)))
       no_partial"

text \<open>\<open>readFileSync\<close> as a call that may also throw.\<close>

definition read_call :: "js_string \<Rightarrow> world \<Rightarrow> js_string option \<times> world" where
  "read_call p w =
     (case next_fault w of
        (Works, w') \<Rightarrow> (readFileSync (wd_files w') p, w')
      | (_, w') \<Rightarrow> (None, w'))"

text \<open>\<open>mkdirSync(p, { recursive: true })\<close> creates the missing directories above \<open>p\<close> too.\<close>

fun ancestors :: "nat \<Rightarrow> js_string \<Rightarrow> js_string list" where
  "ancestors 0 p = []"
| "ancestors (Suc n) p = p # (if path_dirname p = p then [] else ancestors n (path_dirname p))"

definition mkdir_recursive :: "js_string \<Rightarrow> world \<Rightarrow> bool \<times> world" where
  "mkdir_recursive p =
     fs_call (\<lambda>files.
         let dirs = ancestors (length p) p
         in if files p = Some Directory then Some files
            else if list_all (\<lambda>q. files q = None \<or> files q = Some Directory) dirs
            then Some (fold (\<lambda>q fs. fs(q \<mapsto> Directory)) dirs files)
            else None)
       no_partial"

section \<open>Indented JSON\<close>

definition indent :: "nat \<Rightarrow> js_string" where
  "indent n = CHR 0x0A # replicate (2 * n) CHR '' ''"

fun join_lines :: "js_string \<Rightarrow> js_string list \<Rightarrow> js_string" where
  "join_lines sep [] = []"
| "join_lines sep [s] = s"
| "join_lines sep (s # t # ss) = s @ CHR '','' # sep @ join_lines sep (t # ss)"

fun json_pretty :: "(rat \<Rightarrow> js_string) \<Rightarrow> nat \<Rightarrow> js_value \<Rightarrow> js_string" where
  "json_pretty fr n J_undefined = ''null''"
| "json_pretty fr n J_null = ''null''"
| "json_pretty fr n (J_bool b) = (if b then ''true'' else ''false'')"
| "json_pretty fr n (J_num x) = json_number fr x"
| "json_pretty fr n (J_str s) = json_quote s"
| "json_pretty fr n (J_arr vs) =
     (if vs = [] then ''[]''
      else ''['' @ indent (Suc n) @ join_lines (indent (Suc n)) (map (json_pretty fr (Suc n)) vs) @
           indent n @ '']'')"
| "json_pretty fr n (J_obj fs) =
     (let shown_fields = map (\<lambda>(k, v). json_quote k @ '': '' @ json_pretty fr (Suc n) v)
            (filter (\<lambda>(k, v). v \<noteq> J_undefined) fs)
      in if shown_fields = [] then ''{}''
         else ''{'' @ indent (Suc n) @ join_lines (indent (Suc n)) shown_fields @ indent n @ ''}'')"

section \<open>Joined paths are told apart by their last segments\<close>

definition absolute :: "js_string \<Rightarrow> bool" where
  "absolute p \<longleftrightarrow> p \<noteq> [] \<and> hd p = CHR ''/''"

definition segments :: "js_string \<Rightarrow> js_string list" where
  "segments p = rev (normal_segments (\<not> absolute p) [] (split_on CHR ''/'' p))"

text \<open>A segment that normalization keeps as it is.\<close>

definition proper :: "js_string \<Rightarrow> bool" where
  "proper s \<longleftrightarrow> s \<noteq> [] \<and> s \<noteq> ''.'' \<and> s \<noteq> ''..'' \<and> CHR ''/'' \<notin> set s"

fun normal_list :: "bool \<Rightarrow> js_string list \<Rightarrow> bool" where
  "normal_list up [] = True"
| "normal_list up (s # ss) = ((proper s \<or> up \<and> s = ''..'' \<and> list_all (\<lambda>r. r = ''..'') ss) \<and> normal_list up ss)"

lemma split_on_no_sep: "c \<notin> set s \<Longrightarrow> split_on c s = [s]"
  by (induction s) auto

lemma split_on_append: "split_on c (a @ c # b) = split_on c a @ split_on c b"
proof (induction a)
  case (Cons d a)
  then show ?case
    using split_on_nonempty [of c a] by (cases "split_on c a") auto
qed simp

lemma split_on_elements: "s \<in> set (split_on c p) \<Longrightarrow> c \<notin> set s"
proof (induction p arbitrary: s)
  case (Cons d p)
  then show ?case
    using split_on_nonempty [of c p] by (cases "split_on c p") (auto split: if_splits)
qed simp

lemma normal_segments_append:
  "normal_segments up kept (as @ bs) = normal_segments up (normal_segments up kept as) bs"
  by (induction up kept as rule: normal_segments.induct) (auto split: list.split)

lemma normal_segments_proper: "proper s \<Longrightarrow> normal_segments up kept [s] = s # kept"
  by (simp add: proper_def)

lemma normal_segments_normal:
  "normal_list up kept \<Longrightarrow> list_all (\<lambda>s. CHR ''/'' \<notin> set s) ss \<Longrightarrow> normal_list up (normal_segments up kept ss)"
proof (induction up kept ss rule: normal_segments.induct)
  case (2 up kept s ss)
  show ?case
  proof (cases "s = [] \<or> s = ''.''")
    case True
    with 2 show ?thesis by simp
  next
    case False
    show ?thesis
    proof (cases "s = ''..''")
      case dots: True
      show ?thesis
      proof (cases kept)
        case Nil
        with 2 False \<open>s = ''..''\<close> show ?thesis by (cases up) simp_all
      next
        case (Cons k ks)
        with 2 False dots show ?thesis by (auto simp: proper_def)
      qed
    next
      case proper: False
      with 2 False show ?thesis by (simp add: proper_def)
    qed
  qed
qed simp

lemma segments_normal: "normal_list (\<not> absolute p) (rev (segments p))"
  unfolding segments_def rev_rev_ident
  by (rule normal_segments_normal) (auto simp: list_all_iff split_on_elements)

lemma join_slash_snoc: "ss \<noteq> [] \<Longrightarrow> join_slash (ss @ [s]) = join_slash ss @ CHR ''/'' # s"
  by (induction ss rule: join_slash.induct) auto

lemma split_join: "list_all (\<lambda>s. CHR ''/'' \<notin> set s) ss \<Longrightarrow> ss \<noteq> [] \<Longrightarrow> split_on CHR ''/'' (join_slash ss) = ss"
proof (induction ss rule: join_slash.induct)
  case (3 s t ss)
  then have "split_on CHR ''/'' (s @ CHR ''/'' # join_slash (t # ss)) = [s] @ (t # ss)"
    unfolding split_on_append by (simp add: split_on_no_sep)
  then show ?case by simp
qed (simp_all add: split_on_no_sep)

lemma normal_list_no_slash: "normal_list up ss \<Longrightarrow> list_all (\<lambda>s. CHR ''/'' \<notin> set s) ss"
  by (induction up ss rule: normal_list.induct) (auto simp: proper_def)

lemma normal_list_suffix: "normal_list up (xs @ ys) \<Longrightarrow> normal_list up ys"
  by (induction xs) auto

lemma normal_list_kept: "normal_list up (rev ss @ kept) \<Longrightarrow> normal_segments up kept ss = rev ss @ kept"
proof (induction ss arbitrary: kept)
  case (Cons s ss)
  have n: "normal_list up (s # kept)"
    using Cons.prems normal_list_suffix [of up "rev ss" "s # kept"] by simp
  then have "normal_segments up kept (s # ss) = normal_segments up (s # kept) ss"
    by (cases kept) (auto simp: proper_def)
  with Cons show ?case by simp
qed simp

definition render_path :: "bool \<Rightarrow> js_string list \<Rightarrow> js_string" where
  "render_path rooted ss = (if rooted then ''/'' else []) @ join_slash ss"

lemma join_slash_last: "ss \<noteq> [] \<Longrightarrow> s \<noteq> [] \<Longrightarrow> last (join_slash (ss @ [s])) = last s"
  by (simp add: join_slash_snoc)

lemma normal_segments_all_proper:
  "list_all proper bs \<Longrightarrow> normal_segments up kept bs = rev bs @ kept"
  by (induction bs arbitrary: kept) (auto simp: proper_def)

text \<open>Joining a relative path of proper segments appends them.\<close>

lemma path_join_render:
  assumes bs: "split_on CHR ''/'' s = bs" "list_all proper bs"
  shows "path_join p s = render_path (absolute p) (segments p @ bs)"
proof -
  let ?j = "if p = [] then s else p @ CHR ''/'' # s"
  have ne: "x \<in> set bs \<Longrightarrow> x \<noteq> []" for x using bs(2) by (auto simp: list_all_iff proper_def)
  have s: "s \<noteq> []" using bs(1) ne by auto
  have "last s \<noteq> CHR ''/''"
  proof
    assume "last s = CHR ''/''"
    with s obtain r where "s = r @ [CHR ''/'']" by (metis append_butlast_last_id)
    with bs(1) split_on_append [of "CHR ''/''" r "[]"] have "[] \<in> set bs" by auto
    with ne show False by blast
  qed
  moreover have "hd s \<noteq> CHR ''/''"
  proof
    assume "hd s = CHR ''/''"
    with s obtain r where "s = CHR ''/'' # r" by (cases s) auto
    with bs(1) have "[] \<in> set bs" by auto
    with ne show False by blast
  qed
  ultimately have ends: "last ?j \<noteq> CHR ''/''" "?j \<noteq> []" "absolute ?j = absolute p"
    using s by (auto simp: absolute_def)
  have "split_on CHR ''/'' ?j = (if p = [] then bs else split_on CHR ''/'' p @ bs)"
    using bs(1) by (simp add: split_on_append)
  with ends(3) have g: "segments ?j = segments p @ bs"
    using normal_segments_all_proper [OF bs(2)]
    by (auto simp: segments_def normal_segments_append absolute_def)
  have "join_slash (segments p @ bs) \<noteq> []"
  proof -
    obtain z zs where z: "bs = zs @ [z]" using split_on_nonempty [of "CHR ''/''" s] bs(1) by (metis rev_exhaust)
    then have "z \<noteq> []" using ne by simp
    with z show ?thesis using join_slash_snoc [of "segments p @ zs" z] by (cases "segments p @ zs = []") auto
  qed
  with g ends s show ?thesis
    unfolding path_join_def Let_def path_normalize_def render_path_def
    by (auto simp: segments_def absolute_def)
qed

lemma normal_list_nonempty: "normal_list up ss \<Longrightarrow> s \<in> set ss \<Longrightarrow> s \<noteq> []"
  by (induction up ss rule: normal_list.induct) (auto simp: proper_def)

lemma segments_render:
  assumes "normal_list (\<not> rooted) (rev ss)" "ss \<noteq> []"
  shows "absolute (render_path rooted ss) = rooted" "segments (render_path rooted ss) = ss"
proof -
  have ns: "list_all (\<lambda>s. CHR ''/'' \<notin> set s) ss"
    using normal_list_no_slash [OF assms(1)] by simp
  have "hd ss \<noteq> []" using normal_list_nonempty [OF assms(1), of "hd ss"] assms(2) by simp
  then have h: "\<not> absolute (join_slash ss)"
  proof (cases ss rule: join_slash.cases)
    case (2 s)
    with ns \<open>hd ss \<noteq> []\<close> show ?thesis by (cases s) (auto simp: absolute_def)
  next
    case (3 s t ts)
    with ns \<open>hd ss \<noteq> []\<close> show ?thesis by (cases s) (auto simp: absolute_def)
  qed (use assms(2) in simp)
  then show a: "absolute (render_path rooted ss) = rooted" by (auto simp: render_path_def absolute_def)
  have "split_on CHR ''/'' (render_path rooted ss) = (if rooted then [[]] else []) @ ss"
    using split_join [OF ns assms(2)] by (simp add: render_path_def)
  moreover have "normal_segments (\<not> rooted) [] ss = rev ss"
    using normal_list_kept [of "\<not> rooted" ss "[]"] assms(1) by simp
  ultimately show "segments (render_path rooted ss) = ss"
    using a by (cases rooted) (simp_all add: segments_def)
qed

lemma normal_list_append_proper:
  "list_all proper bs \<Longrightarrow> normal_list up kept \<Longrightarrow> normal_list up (rev bs @ kept)"
  by (induction bs arbitrary: kept) auto

lemma path_join_segments:
  assumes "split_on CHR ''/'' s = bs" "list_all proper bs"
  shows "absolute (path_join p s) = absolute p" "segments (path_join p s) = segments p @ bs"
proof -
  have "normal_list (\<not> absolute p) (rev (segments p @ bs))"
    using normal_list_append_proper [OF assms(2) segments_normal [of p]] by simp
  moreover have "segments p @ bs \<noteq> []" using split_on_nonempty assms(1) by auto
  ultimately show "absolute (path_join p s) = absolute p" "segments (path_join p s) = segments p @ bs"
    unfolding path_join_render [OF assms] by (rule segments_render)+
qed

end
