(* ===== verification/Managed_Config.thy ===== *)
theory Managed_Config
  imports Host_Files
begin

text \<open>
  \<^verbatim>\<open>configurator/managed-config.ts\<close>, first part: the managed manifest, its strict
  classification, the rendering of the managed assets, hydration, and the planning of upgrades and
  rollbacks. The snapshots of a composition are kept as the untyped objects the code keeps.
  \<open>JSON.parse\<close> is the argument \<open>parse\<close>. Messages are constructors. A sequence number is exact below 2^53.
\<close>

section \<open>Hosts and assets\<close>

datatype HostName = Codex | Claude_code | Opencode | Drenyra_pi

fun host_text :: "HostName \<Rightarrow> js_string" where
  "host_text Codex = ''codex''"
| "host_text Claude_code = ''claude-code''"
| "host_text Opencode = ''opencode''"
| "host_text Drenyra_pi = ''drenyra-pi''"

definition all_hosts :: "HostName list" where
  "all_hosts = [Codex, Claude_code, Opencode, Drenyra_pi]"

fun HOST_DIR_MAP :: "HostName \<Rightarrow> js_string" where
  "HOST_DIR_MAP Codex = ''.codex''"
| "HOST_DIR_MAP Claude_code = ''.claude''"
| "HOST_DIR_MAP Opencode = ''.config/opencode''"
| "HOST_DIR_MAP Drenyra_pi = ''.drenyra''"

datatype ManagedAssetName = Marker | Skills | Pin

fun ASSET_FILENAMES :: "ManagedAssetName \<Rightarrow> js_string" where
  "ASSET_FILENAMES Marker = ''.drenyra-managed''"
| "ASSET_FILENAMES Skills = ''.drenyra-skills.json''"
| "ASSET_FILENAMES Pin = ''.drenyra-pinned-ai-runtime.json''"

fun asset_key :: "ManagedAssetName \<Rightarrow> js_string" where
  "asset_key Marker = ''marker''"
| "asset_key Skills = ''skills''"
| "asset_key Pin = ''pin''"

definition MANAGED_DIR :: js_string where
  "MANAGED_DIR = ''.drenyra''"

definition MANAGED_FILE :: js_string where
  "MANAGED_FILE = ''managed.json''"

definition COMPOSITION_SCHEMA_VERSION :: js_value where
  "COMPOSITION_SCHEMA_VERSION = J_num (Fin 2)"

definition reDeriveHostConfigDir :: "js_string \<Rightarrow> HostName \<Rightarrow> js_string" where
  "reDeriveHostConfigDir homeDir name = path_join homeDir (HOST_DIR_MAP name)"

definition managedManifestPath :: "js_string \<Rightarrow> js_string" where
  "managedManifestPath homeDir = path_join (path_join homeDir MANAGED_DIR) MANAGED_FILE"

definition asset_path :: "js_string \<Rightarrow> HostName \<Rightarrow> ManagedAssetName \<Rightarrow> js_string" where
  "asset_path homeDir name asset = path_join (reDeriveHostConfigDir homeDir name) (ASSET_FILENAMES asset)"

record DetectedHost =
  dh_name :: HostName
  dh_configDir :: js_string
  dh_present :: bool

definition detectHosts :: "file_map \<Rightarrow> js_string \<Rightarrow> DetectedHost list" where
  "detectHosts files homeDir =
     map (\<lambda>name. let configDir = reDeriveHostConfigDir homeDir name
            in \<lparr>dh_name = name, dh_configDir = configDir, dh_present = existsSync files configDir\<rparr>) all_hosts"

section \<open>Manifest and composition\<close>

record ManagedComposition =
  mc_schemaVersion :: js_value
  mc_current :: js_value
  mc_previous :: js_value

record InstallManifest =
  im_version :: js_string
  im_installedAt :: js_string
  im_hosts :: "DetectedHost list"
  im_assets :: "js_value list"
  im_composition :: "ManagedComposition option"

datatype invalid_reason =
  Manifest_not_an_object | Bad_manager | Bad_version | Bad_installedAt | Hosts_not_an_array
| Host_not_an_object | Unknown_host_name | Bad_configDir | Bad_present | Redirected_host_path HostName
| Bad_assets | Composition_not_an_object | Bad_schemaVersion | Bad_current | Bad_previous | Unreadable_manifest

datatype managed_state =
  State_absent | State_invalid invalid_reason | State_legacy InstallManifest | State_current InstallManifest

datatype ManagedConfigError = MANAGED_STATE_UNKNOWN | ROLLBACK_UNAVAILABLE | COMPOSITION_NOT_PACKAGED

definition host_value :: "DetectedHost \<Rightarrow> js_value" where
  "host_value h =
     J_obj [(''name'', J_str (host_text (dh_name h))), (''configDir'', J_str (dh_configDir h)),
            (''present'', J_bool (dh_present h))]"

definition composition_value :: "ManagedComposition \<Rightarrow> js_value" where
  "composition_value c =
     J_obj [(''schemaVersion'', mc_schemaVersion c), (''current'', mc_current c), (''previous'', mc_previous c)]"

definition manifest_value :: "InstallManifest \<Rightarrow> js_value" where
  "manifest_value m =
     J_obj ([(''manager'', J_str ''drenyra-ai''), (''version'', J_str (im_version m)),
             (''installedAt'', J_str (im_installedAt m)), (''hosts'', J_arr (map host_value (im_hosts m))),
             (''assets'', J_arr (im_assets m))] @
            (case im_composition m of None \<Rightarrow> [] | Some c \<Rightarrow> [(''composition'', composition_value c)]))"

section \<open>Versions, pins and rendered assets\<close>

text \<open>\<open>/^\d+\.\d+\.\d+(?:[-+][0-9A-Za-z.-]+)?$/\<close>\<close>

definition suffix_char :: "char \<Rightarrow> bool" where
  "suffix_char c \<longleftrightarrow> is_digit c \<or> is_lower c \<or> is_upper c \<or> c = CHR ''.'' \<or> c = CHR ''-''"

definition dotted :: "js_string \<Rightarrow> js_string option" where
  "dotted s =
     (case dropWhile is_digit s of
        c # r \<Rightarrow> if takeWhile is_digit s \<noteq> [] \<and> c = CHR ''.'' then Some r else None
      | [] \<Rightarrow> None)"

definition isSemver :: "js_string \<Rightarrow> bool" where
  "isSemver s \<longleftrightarrow>
     (case dotted s of
        None \<Rightarrow> False
      | Some r \<Rightarrow>
          (case dotted r of
             None \<Rightarrow> False
           | Some q \<Rightarrow>
               takeWhile is_digit q \<noteq> [] \<and>
               (case dropWhile is_digit q of
                  [] \<Rightarrow> True
                | c # suffix \<Rightarrow> (c = CHR ''-'' \<or> c = CHR ''+'') \<and> suffix \<noteq> [] \<and> list_all suffix_char suffix)))"

fun non_negative_integer :: "js_number \<Rightarrow> bool" where
  "non_negative_integer (Fin r) = (is_integer (Fin r) \<and> 0 \<le> r)"
| "non_negative_integer _ = False"

fun isPinVersion :: "js_value \<Rightarrow> bool" where
  "isPinVersion (J_num n) = non_negative_integer n"
| "isPinVersion (J_str s) = isSemver s"
| "isPinVersion _ = False"

definition component_pin :: "js_string \<Rightarrow> js_value" where
  "component_pin i = J_obj [(''id'', J_str i), (''version'', J_num (Fin 1))]"

text \<open>The identifiers of runtime, model and tool.\<close>

fun PINNED_AI_COMPOSITION :: "HostName \<Rightarrow> js_string \<times> js_string \<times> js_string" where
  "PINNED_AI_COMPOSITION Codex = (''codex'', ''codex-package-default'', ''drenyra-ai-host-tools'')"
| "PINNED_AI_COMPOSITION Claude_code =
     (''claude-code'', ''claude-code-package-default'', ''drenyra-ai-host-tools'')"
| "PINNED_AI_COMPOSITION Opencode = (''opencode'', ''opencode-package-default'', ''drenyra-ai-host-tools'')"
| "PINNED_AI_COMPOSITION Drenyra_pi =
     (''drenyra-pi'', ''drenyra-pi-package-default'', ''drenyra-ai-host-tools'')"

definition pinnedAiRuntimeRecord :: "HostName \<Rightarrow> js_value" where
  "pinnedAiRuntimeRecord host =
     (case PINNED_AI_COMPOSITION host of
        (runtime, model, tool) \<Rightarrow>
          J_obj [(''kind'', J_str ''pinned-ai-runtime''), (''schemaVersion'', J_num (Fin 1)),
                 (''host'', J_str (host_text host)), (''runtime'', component_pin runtime),
                 (''model'', component_pin model), (''tool'', component_pin tool)])"

definition renderPinnedAiRuntime :: "js_lib \<Rightarrow> HostName \<Rightarrow> js_string" where
  "renderPinnedAiRuntime L host = json_pretty (lib_number L) 0 (pinnedAiRuntimeRecord host)"

definition hashManagedAsset :: "js_lib \<Rightarrow> js_string \<Rightarrow> js_value" where
  "hashManagedAsset L content =
     J_obj [(''sha256'', J_str (lib_sha256 L content)), (''content'', J_str content)]"

definition managedHostPin :: "js_lib \<Rightarrow> HostName \<Rightarrow> js_value" where
  "managedHostPin L host =
     J_obj [(''record'', pinnedAiRuntimeRecord host),
            (''managedAsset'', hashManagedAsset L (renderPinnedAiRuntime L host))]"

definition renderManagedMarker :: "js_lib \<Rightarrow> js_string \<Rightarrow> js_string" where
  "renderManagedMarker L installedAt =
     json_pretty (lib_number L) 0 (J_obj [(''manager'', J_str ''drenyra-ai''), (''installedAt'', J_str installedAt)])"

text \<open>The identifier and tier of the base skills; all have version 1.0.0 and jurisdiction PE.\<close>

definition BASE_PE_SKILLS :: "(js_string \<times> js_string) list" where
  "BASE_PE_SKILLS =
     [(''pe.igv-validate'', ''R1''), (''pe.sire-compare'', ''R1''), (''pe.detraction-check'', ''R1''),
      (''pe.retention-check'', ''R1''), (''pe.perception-check'', ''R1''), (''pe.sire-filing'', ''R2''),
      (''pe.conciliacion-bancaria'', ''R1''), (''pe.depreciacion-activo-fijo'', ''R1''),
      (''pe.provision-cartera'', ''R1''), (''pe.isr-mensual'', ''R1''), (''pe.cierre-resultados'', ''R1''),
      (''pe.renta-anual'', ''R1''), (''pe.legacy-ingest'', ''R0''), (''pe.tax-shield'', ''R1''),
      (''pe.sire-adversarial'', ''R1''), (''pe.itf-justification'', ''R1''), (''pe.bancarizacion-gate'', ''R1''),
      (''pe.sbs-exchange-rates'', ''R0''), (''pe.ple-export'', ''R1''), (''pe.plame-provision'', ''R1'')]"

definition renderManagedSkills :: "js_lib \<Rightarrow> js_string" where
  "renderManagedSkills L =
     json_pretty (lib_number L) 0
       (J_arr (map (\<lambda>(i, tier). J_obj [(''id'', J_str i), (''version'', J_str ''1.0.0''),
                 (''jurisdiction'', J_str ''PE''), (''maxAutonomy'', J_str tier)]) BASE_PE_SKILLS))"

section \<open>Classification\<close>

fun host_of :: "js_value \<Rightarrow> HostName option" where
  "host_of (J_str s) = find (\<lambda>h. host_text h = s) all_hosts"
| "host_of _ = None"

definition isHostName :: "js_value \<Rightarrow> bool" where
  "isHostName v \<longleftrightarrow> host_of v \<noteq> None"

fun array_elements :: "js_value \<Rightarrow> js_value list option" where
  "array_elements (J_arr vs) = Some vs"
| "array_elements _ = None"

definition isComponentPin :: "js_value \<Rightarrow> bool" where
  "isComponentPin raw \<longleftrightarrow>
     isRecord raw \<and> is_text (get_field raw ''id'') \<and> isPinVersion (get_field raw ''version'')"

definition isAssetBytes :: "js_lib \<Rightarrow> js_value \<Rightarrow> bool" where
  "isAssetBytes L raw \<longleftrightarrow>
     (if \<not> isRecord raw then False
      else if \<not> is_text (get_field raw ''sha256'') \<or> \<not> hex64 (str_field raw ''sha256'') then False
      else if \<not> is_text (get_field raw ''content'') then False
      else lib_sha256 L (str_field raw ''content'') = str_field raw ''sha256'')"

definition pin_entry_ok :: "js_lib \<Rightarrow> js_string \<Rightarrow> js_value \<Rightarrow> bool" where
  "pin_entry_ok L key entry \<longleftrightarrow>
     (case host_of (J_str key) of
        None \<Rightarrow> False
      | Some host \<Rightarrow>
          (let rec = get_field entry ''record'' in
           if \<not> isRecord entry then False
           else if \<not> isRecord rec then False
           else if get_field rec ''kind'' \<noteq> J_str ''pinned-ai-runtime'' then False
           else if get_field rec ''schemaVersion'' \<noteq> J_num (Fin 1) then False
           else if get_field rec ''host'' \<noteq> J_str key then False
           else if \<not> isComponentPin (get_field rec ''runtime'') \<or> \<not> isComponentPin (get_field rec ''model'') \<or>
             \<not> isComponentPin (get_field rec ''tool'') then False
           else if \<not> isAssetBytes L (get_field entry ''managedAsset'') then False
           else str_field (get_field entry ''managedAsset'') ''content'' = renderPinnedAiRuntime L host))"

fun isPinnedComposition :: "js_lib \<Rightarrow> js_value \<Rightarrow> bool" where
  "isPinnedComposition L (J_obj fs) = list_all (\<lambda>(key, entry). pin_entry_ok L key entry) fs"
| "isPinnedComposition L _ = False"

fun is_sequence :: "js_value \<Rightarrow> bool" where
  "is_sequence (J_num n) = non_negative_integer n"
| "is_sequence _ = False"

definition isSnapshot :: "js_lib \<Rightarrow> js_value \<Rightarrow> bool" where
  "isSnapshot L s \<longleftrightarrow>
     (let managed = get_field s ''managedAssets'' in
      if \<not> isRecord s then False
      else if \<not> is_text (get_field s ''packageVersion'') \<or> \<not> isSemver (str_field s ''packageVersion'')
      then False
      else if \<not> is_sequence (get_field s ''sequence'') then False
      else if \<not> is_text (get_field s ''activatedAt'') then False
      else if \<not> isRecord managed then False
      else if \<not> isAssetBytes L (get_field managed ''marker'') \<or> \<not> isAssetBytes L (get_field managed ''skills'')
      then False
      else if get_field s ''pinnedComposition'' \<noteq> J_undefined \<and>
        \<not> isPinnedComposition L (get_field s ''pinnedComposition'') then False
      else True)"

definition validateComposition :: "js_lib \<Rightarrow> js_value \<Rightarrow> invalid_reason + ManagedComposition" where
  "validateComposition L c =
     (if \<not> isRecord c then Inl Composition_not_an_object
      else if \<not> is_sequence (get_field c ''schemaVersion'') then Inl Bad_schemaVersion
      else if \<not> isSnapshot L (get_field c ''current'') then Inl Bad_current
      else if get_field c ''previous'' \<noteq> J_null \<and> \<not> isSnapshot L (get_field c ''previous'') then Inl Bad_previous
      else Inr \<lparr>mc_schemaVersion = get_field c ''schemaVersion'', mc_current = get_field c ''current'',
                mc_previous = get_field c ''previous''\<rparr>)"

definition classify_host :: "js_string \<Rightarrow> js_value \<Rightarrow> invalid_reason + DetectedHost" where
  "classify_host homeDir h =
     (if \<not> isRecord h then Inl Host_not_an_object
      else (case host_of (get_field h ''name'') of
              None \<Rightarrow> Inl Unknown_host_name
            | Some name \<Rightarrow>
                if \<not> is_text (get_field h ''configDir'') then Inl Bad_configDir
                else (case get_field h ''present'' of
                        J_bool present \<Rightarrow>
                          if path_normalize (str_field h ''configDir'') \<noteq>
                             path_normalize (reDeriveHostConfigDir homeDir name)
                          then Inl (Redirected_host_path name)
                          else Inr \<lparr>dh_name = name, dh_configDir = str_field h ''configDir'', dh_present = present\<rparr>
                      | _ \<Rightarrow> Inl Bad_present)))"

definition classifyManifest :: "js_lib \<Rightarrow> js_value \<Rightarrow> js_string \<Rightarrow> managed_state" where
  "classifyManifest L m homeDir =
     (if \<not> isRecord m then State_invalid Manifest_not_an_object
      else if get_field m ''manager'' \<noteq> J_str ''drenyra-ai'' then State_invalid Bad_manager
      else if \<not> is_text (get_field m ''version'') \<or> \<not> isSemver (str_field m ''version'')
      then State_invalid Bad_version
      else if \<not> is_text (get_field m ''installedAt'') then State_invalid Bad_installedAt
      else (case array_elements (get_field m ''hosts'') of
              None \<Rightarrow> State_invalid Hosts_not_an_array
            | Some hs \<Rightarrow>
          (case traverse (classify_host homeDir) hs of
             Inl e \<Rightarrow> State_invalid e
           | Inr hosts \<Rightarrow>
          (case array_elements (get_field m ''assets'') of
             None \<Rightarrow> State_invalid Bad_assets
           | Some assets \<Rightarrow>
               if \<not> list_all is_text assets then State_invalid Bad_assets
               else (let manifest = \<lparr>im_version = str_field m ''version'', im_installedAt = str_field m ''installedAt'',
                       im_hosts = hosts, im_assets = assets, im_composition = None\<rparr>
                     in if get_field m ''composition'' = J_undefined then State_legacy manifest
                        else (case validateComposition L (get_field m ''composition'') of
                                Inl e \<Rightarrow> State_invalid e
                              | Inr c \<Rightarrow> State_current (manifest\<lparr>im_composition := Some c\<rparr>)))))))"

definition readManagedState ::
    "js_lib \<Rightarrow> (js_string \<Rightarrow> js_value option) \<Rightarrow> file_map \<Rightarrow> js_string \<Rightarrow> managed_state" where
  "readManagedState L parse files homeDir =
     (let path = managedManifestPath homeDir
      in if \<not> existsSync files path then State_absent
         else (case readFileSync files path of
                 None \<Rightarrow> State_invalid Unreadable_manifest
               | Some text \<Rightarrow>
                   (case parse text of
                      None \<Rightarrow> State_invalid Unreadable_manifest
                    | Some raw \<Rightarrow> classifyManifest L raw homeDir)))"

fun manifest_of :: "managed_state \<Rightarrow> InstallManifest option" where
  "manifest_of (State_legacy m) = Some m"
| "manifest_of (State_current m) = Some m"
| "manifest_of _ = None"

definition readInstallManifest ::
    "js_lib \<Rightarrow> (js_string \<Rightarrow> js_value option) \<Rightarrow> file_map \<Rightarrow> js_string \<Rightarrow> InstallManifest option" where
  "readInstallManifest L parse files homeDir = manifest_of (readManagedState L parse files homeDir)"

section \<open>Snapshots\<close>

definition asset_content :: "js_value \<Rightarrow> ManagedAssetName \<Rightarrow> js_string" where
  "asset_content snapshot asset =
     str_field (get_field (get_field snapshot ''managedAssets'') (asset_key asset)) ''content''"

definition pin_of :: "js_value \<Rightarrow> HostName \<Rightarrow> js_value" where
  "pin_of snapshot host = get_field (get_field snapshot ''pinnedComposition'') (host_text host)"

definition pin_content :: "js_value \<Rightarrow> HostName \<Rightarrow> js_string" where
  "pin_content snapshot host = str_field (get_field (pin_of snapshot host) ''managedAsset'') ''content''"

definition version_text :: "js_value \<Rightarrow> js_string" where
  "version_text snapshot = str_field snapshot ''packageVersion''"

definition expectedMarkerContent :: "js_lib \<Rightarrow> InstallManifest \<Rightarrow> js_string" where
  "expectedMarkerContent L manifest =
     (case im_composition manifest of
        Some c \<Rightarrow> asset_content (mc_current c) Marker
      | None \<Rightarrow> renderManagedMarker L (im_installedAt manifest))"

fun readLegacySkillsContent :: "file_map \<Rightarrow> js_string \<Rightarrow> DetectedHost list \<Rightarrow> js_string option" where
  "readLegacySkillsContent files homeDir [] = None"
| "readLegacySkillsContent files homeDir (host # hosts) =
     (let skillsPath = asset_path homeDir (dh_name host) Skills
      in if \<not> dh_present host then readLegacySkillsContent files homeDir hosts
         else if \<not> existsSync files skillsPath then readLegacySkillsContent files homeDir hosts
         else (case readFileSync files skillsPath of
                 Some s \<Rightarrow> Some s
               | None \<Rightarrow> readLegacySkillsContent files homeDir hosts))"

definition pinsComplete :: "InstallManifest \<Rightarrow> js_value \<Rightarrow> bool" where
  "pinsComplete manifest snapshot \<longleftrightarrow>
     (if get_field snapshot ''pinnedComposition'' = J_undefined then False
      else list_all (\<lambda>h. \<not> dh_present h \<or> pin_of snapshot (dh_name h) \<noteq> J_undefined) (im_hosts manifest))"

text \<open>\<open>entries[name] = pin\<close>: a second assignment keeps the place of the first.\<close>

definition packagePinnedComposition :: "js_lib \<Rightarrow> InstallManifest \<Rightarrow> js_value" where
  "packagePinnedComposition L manifest =
     J_obj (fold (\<lambda>h entries. if dh_present h
                    then AList.update (host_text (dh_name h)) (managedHostPin L (dh_name h)) entries else entries)
       (im_hosts manifest) [])"

record HydratedSnapshot =
  hy_snapshot :: js_value
  hy_skillsAvailable :: bool
  hy_pinsAvailable :: bool

definition snapshot_value :: "js_string \<Rightarrow> js_value \<Rightarrow> js_string \<Rightarrow> js_value \<Rightarrow> js_value \<Rightarrow> js_value \<Rightarrow> js_value" where
  "snapshot_value packageVersion sequence activatedAt marker skills pinned =
     J_obj ([(''packageVersion'', J_str packageVersion), (''sequence'', sequence), (''activatedAt'', J_str activatedAt),
             (''managedAssets'', J_obj [(''marker'', marker), (''skills'', skills)])] @
            (if pinned = J_undefined then [] else [(''pinnedComposition'', pinned)]))"

definition hydrateCurrentSnapshot ::
    "js_lib \<Rightarrow> file_map \<Rightarrow> InstallManifest \<Rightarrow> js_string \<Rightarrow> bool \<Rightarrow> ManagedConfigError + HydratedSnapshot" where
  "hydrateCurrentSnapshot L files manifest homeDir requireSkills =
     (case im_composition manifest of
        Some c \<Rightarrow>
          Inr \<lparr>hy_snapshot = mc_current c, hy_skillsAvailable = True,
               hy_pinsAvailable = pinsComplete manifest (mc_current c)\<rparr>
      | None \<Rightarrow>
          (let marker = hashManagedAsset L (renderManagedMarker L (im_installedAt manifest));
               skillsContent = readLegacySkillsContent files homeDir (im_hosts manifest);
               skills = (case skillsContent of
                           None \<Rightarrow> J_obj [(''sha256'', J_str []), (''content'', J_str [])]
                         | Some s \<Rightarrow> hashManagedAsset L s)
           in if skillsContent = None \<and> requireSkills then Inl MANAGED_STATE_UNKNOWN
              else Inr \<lparr>hy_snapshot = snapshot_value (im_version manifest) (J_num (Fin 0)) (im_installedAt manifest)
                          marker skills J_undefined,
                        hy_skillsAvailable = (skillsContent \<noteq> None), hy_pinsAvailable = False\<rparr>))"

section \<open>Planning\<close>

datatype AssetAction = Updated | Created | Preserved | Missing

record AssetResult =
  ar_host :: HostName
  ar_asset :: ManagedAssetName
  ar_action :: AssetAction

record AssetWrite =
  aw_path :: js_string
  aw_data :: js_string

datatype transition_status = Upgraded | Rolled_back | Unchanged

record TransitionPlan =
  tp_status :: transition_status
  tp_from :: js_string
  tp_to :: js_string
  tp_results :: "AssetResult list"
  tp_writes :: "AssetWrite list"
  tp_candidate :: InstallManifest

text \<open>One managed file: created when absent, updated only when it holds the expected bytes.\<close>

definition plan_file ::
    "file_map \<Rightarrow> HostName \<Rightarrow> ManagedAssetName \<Rightarrow> js_string \<Rightarrow> js_string \<Rightarrow> js_string \<Rightarrow>
     AssetWrite list \<times> AssetResult list" where
  "plan_file files host asset path expected target =
     (let result = \<lambda>action. [\<lparr>ar_host = host, ar_asset = asset, ar_action = action\<rparr>];
          update = [\<lparr>aw_path = path, aw_data = target\<rparr>]
      in if \<not> existsSync files path then (update, result Created)
         else (case readFileSync files path of
                 None \<Rightarrow> ([], result Preserved)
               | Some disk \<Rightarrow> if disk = expected then (update, result Updated) else ([], result Preserved)))"

definition both :: "'a list \<times> 'b list \<Rightarrow> 'a list \<times> 'b list \<Rightarrow> 'a list \<times> 'b list" where
  "both a b = (fst a @ fst b, snd a @ snd b)"

definition plan_host ::
    "file_map \<Rightarrow> js_string \<Rightarrow> js_value \<Rightarrow> js_value \<Rightarrow> DetectedHost \<Rightarrow>
     ManagedConfigError + AssetWrite list \<times> AssetResult list" where
  "plan_host files homeDir current target host =
     (let name = dh_name host; configDir = reDeriveHostConfigDir homeDir name;
          file = \<lambda>asset. plan_file files name asset (path_join configDir (ASSET_FILENAMES asset))
      in if \<not> dh_present host then Inr ([], [])
         else if path_normalize (dh_configDir host) \<noteq> path_normalize configDir then Inl MANAGED_STATE_UNKNOWN
         else if \<not> existsSync files configDir then
           Inr ([], map (\<lambda>asset. \<lparr>ar_host = name, ar_asset = asset, ar_action = Missing\<rparr>) [Marker, Skills, Pin])
         else (let assets = both (file Marker (asset_content current Marker) (asset_content target Marker))
                                 (file Skills (asset_content current Skills) (asset_content target Skills))
               in if pin_of current name = J_undefined \<or> pin_of target name = J_undefined then Inr assets
                  else Inr (both assets (file Pin (pin_content current name) (pin_content target name)))))"

definition planAssetTransitions ::
    "file_map \<Rightarrow> InstallManifest \<Rightarrow> js_string \<Rightarrow> js_value \<Rightarrow> js_value \<Rightarrow>
     ManagedConfigError + AssetWrite list \<times> AssetResult list" where
  "planAssetTransitions files manifest homeDir current target =
     (case traverse (plan_host files homeDir current target) (im_hosts manifest) of
        Inl e \<Rightarrow> Inl e
      | Inr parts \<Rightarrow> Inr (concat (map fst parts), concat (map snd parts)))"

definition samePinnedComposition :: "js_value \<Rightarrow> js_value \<Rightarrow> bool" where
  "samePinnedComposition a b \<longleftrightarrow>
     (let pa = get_field a ''pinnedComposition''; pb = get_field b ''pinnedComposition'';
          keys = (case pa of J_obj fs \<Rightarrow> map fst fs | _ \<Rightarrow> []) @ (case pb of J_obj fs \<Rightarrow> map fst fs | _ \<Rightarrow> [])
      in if pa = J_undefined \<or> pb = J_undefined then pa = pb
         else list_all (\<lambda>key.
           let ea = get_field pa key; eb = get_field pb key
           in if \<not> isHostName (J_str key) then False
              else if (ea = J_undefined) \<noteq> (eb = J_undefined) then False
              else if ea \<noteq> J_undefined \<and> eb \<noteq> J_undefined \<and>
                str_field (get_field ea ''managedAsset'') ''content'' \<noteq> str_field (get_field eb ''managedAsset'') ''content''
              then False else True) keys)"

definition sameManagedAssets :: "js_value \<Rightarrow> js_value \<Rightarrow> bool" where
  "sameManagedAssets a b \<longleftrightarrow>
     asset_content a Marker = asset_content b Marker \<and> asset_content a Skills = asset_content b Skills \<and>
     samePinnedComposition a b"

fun next_sequence :: "js_value \<Rightarrow> js_value" where
  "next_sequence (J_num (Fin r)) = J_num (Fin (r + 1))"
| "next_sequence v = v"

definition upgrade_target :: "js_lib \<Rightarrow> InstallManifest \<Rightarrow> js_value \<Rightarrow> js_string \<Rightarrow> js_string \<Rightarrow> js_value" where
  "upgrade_target L manifest current requestedVersion activatedAt =
     snapshot_value requestedVersion (next_sequence (get_field current ''sequence'')) activatedAt
       (hashManagedAsset L (renderManagedMarker L activatedAt)) (hashManagedAsset L (renderManagedSkills L))
       (packagePinnedComposition L manifest)"

definition unchanged_plan :: "js_string \<Rightarrow> js_string \<Rightarrow> InstallManifest \<Rightarrow> TransitionPlan" where
  "unchanged_plan from_version to_version manifest =
     \<lparr>tp_status = Unchanged, tp_from = from_version, tp_to = to_version, tp_results = [], tp_writes = [],
      tp_candidate = manifest\<rparr>"

definition real_plan ::
    "transition_status \<Rightarrow> file_map \<Rightarrow> js_string \<Rightarrow> InstallManifest \<Rightarrow> js_value \<Rightarrow> js_value \<Rightarrow> js_value \<Rightarrow>
     ManagedConfigError + TransitionPlan" where
  "real_plan status files homeDir manifest current target previous =
     (case planAssetTransitions files manifest homeDir current target of
        Inl e \<Rightarrow> Inl e
      | Inr (writes, results) \<Rightarrow>
          Inr \<lparr>tp_status = status, tp_from = version_text current, tp_to = version_text target,
               tp_results = results, tp_writes = writes,
               tp_candidate = manifest\<lparr>im_version := version_text target,
                 im_composition := Some \<lparr>mc_schemaVersion = COMPOSITION_SCHEMA_VERSION, mc_current = target,
                   mc_previous = previous\<rparr>\<rparr>\<rparr>)"

definition planUpgrade ::
    "js_lib \<Rightarrow> (js_string \<Rightarrow> js_value option) \<Rightarrow> file_map \<Rightarrow> js_string \<Rightarrow> js_string \<Rightarrow> js_string \<Rightarrow> js_string \<Rightarrow>
     ManagedConfigError + TransitionPlan" where
  "planUpgrade L parse files homeDir requestedVersion packagedVersion now =
     (case manifest_of (readManagedState L parse files homeDir) of
        None \<Rightarrow> Inl MANAGED_STATE_UNKNOWN
      | Some manifest \<Rightarrow>
          (case hydrateCurrentSnapshot L files manifest homeDir False of
             Inl e \<Rightarrow> Inl e
           | Inr hydrated \<Rightarrow>
               (let current = hy_snapshot hydrated
                in if requestedVersion = version_text current
                   then Inr (unchanged_plan (version_text current) requestedVersion manifest)
                   else if requestedVersion \<noteq> packagedVersion then Inl COMPOSITION_NOT_PACKAGED
                   else if \<not> hy_skillsAvailable hydrated then Inl MANAGED_STATE_UNKNOWN
                   else if \<not> hy_pinsAvailable hydrated then Inl MANAGED_STATE_UNKNOWN
                   else real_plan Upgraded files homeDir manifest current
                          (upgrade_target L manifest current requestedVersion now) current)))"

definition planRollback ::
    "js_lib \<Rightarrow> (js_string \<Rightarrow> js_value option) \<Rightarrow> file_map \<Rightarrow> js_string \<Rightarrow> ManagedConfigError + TransitionPlan" where
  "planRollback L parse files homeDir =
     (case manifest_of (readManagedState L parse files homeDir) of
        None \<Rightarrow> Inl MANAGED_STATE_UNKNOWN
      | Some manifest \<Rightarrow>
          (case im_composition manifest of
             None \<Rightarrow> Inl ROLLBACK_UNAVAILABLE
           | Some c \<Rightarrow>
               (let current = mc_current c; previous = mc_previous c
                in if previous = J_null then Inl ROLLBACK_UNAVAILABLE
                   else if \<not> pinsComplete manifest current \<or> \<not> pinsComplete manifest previous
                   then Inl MANAGED_STATE_UNKNOWN
                   else if version_text current = version_text previous \<and> sameManagedAssets current previous
                   then Inr (unchanged_plan (version_text current) (version_text previous) manifest)
                   else real_plan Rolled_back files homeDir manifest current previous previous)))"

section \<open>The managed paths are distinct\<close>

definition host_segments :: "HostName \<Rightarrow> js_string list" where
  "host_segments h = (case h of Opencode \<Rightarrow> [''.config'', ''opencode''] | _ \<Rightarrow> [HOST_DIR_MAP h])"

lemma host_dir_split: "split_on CHR ''/'' (HOST_DIR_MAP h) = host_segments h" "list_all proper (host_segments h)"
  by (cases h; simp add: host_segments_def proper_def)+

lemma asset_file_split: "split_on CHR ''/'' (ASSET_FILENAMES a) = [ASSET_FILENAMES a]" "proper (ASSET_FILENAMES a)"
  by (cases a; simp add: proper_def)+

lemma asset_path_segments: "segments (asset_path home h a) = segments home @ host_segments h @ [ASSET_FILENAMES a]"
  using path_join_segments [OF host_dir_split, of home h]
    path_join_segments [OF asset_file_split(1), of a "reDeriveHostConfigDir home h"] asset_file_split(2)
  by (simp add: asset_path_def reDeriveHostConfigDir_def)

lemma manifest_path_segments: "segments (managedManifestPath home) = segments home @ [MANAGED_DIR, MANAGED_FILE]"
proof -
  have d: "split_on CHR ''/'' MANAGED_DIR = [MANAGED_DIR]" "list_all proper [MANAGED_DIR]"
    and f: "split_on CHR ''/'' MANAGED_FILE = [MANAGED_FILE]" "list_all proper [MANAGED_FILE]"
    by (simp_all add: MANAGED_DIR_def MANAGED_FILE_def proper_def)
  show ?thesis
    using path_join_segments [OF d, of home] path_join_segments [OF f, of "path_join home MANAGED_DIR"]
    by (simp add: managedManifestPath_def)
qed

lemma asset_path_inject: "asset_path home h a = asset_path home g b \<longleftrightarrow> h = g \<and> a = b"
proof
  assume "asset_path home h a = asset_path home g b"
  then have "host_segments h @ [ASSET_FILENAMES a] = host_segments g @ [ASSET_FILENAMES b]"
    using asset_path_segments by (metis same_append_eq)
  then show "h = g \<and> a = b" by (cases h; cases g; cases a; cases b; simp add: host_segments_def)
qed simp

lemma asset_not_manifest: "asset_path home h a \<noteq> managedManifestPath home"
proof
  assume "asset_path home h a = managedManifestPath home"
  then have "host_segments h @ [ASSET_FILENAMES a] = [MANAGED_DIR, MANAGED_FILE]"
    using asset_path_segments manifest_path_segments by (metis same_append_eq)
  then show False by (cases h; cases a; simp add: host_segments_def MANAGED_DIR_def MANAGED_FILE_def)
qed

lemma asset_not_host_dir: "asset_path home h a \<noteq> reDeriveHostConfigDir home g" "managedManifestPath home \<noteq> reDeriveHostConfigDir home g"
proof -
  have g: "segments (reDeriveHostConfigDir home g) = segments home @ host_segments g"
    using path_join_segments(2) [OF host_dir_split, of home g] by (simp add: reDeriveHostConfigDir_def)
  show "asset_path home h a \<noteq> reDeriveHostConfigDir home g"
  proof
    assume "asset_path home h a = reDeriveHostConfigDir home g"
    then have "host_segments h @ [ASSET_FILENAMES a] = host_segments g"
      using asset_path_segments g by (metis same_append_eq)
    then show False by (cases h; cases g; cases a; simp add: host_segments_def)
  qed
  show "managedManifestPath home \<noteq> reDeriveHostConfigDir home g"
  proof
    assume "managedManifestPath home = reDeriveHostConfigDir home g"
    then have "[MANAGED_DIR, MANAGED_FILE] = host_segments g"
      using manifest_path_segments g by (metis same_append_eq)
    then show False by (cases g; simp add: host_segments_def MANAGED_DIR_def MANAGED_FILE_def)
  qed
qed

end
