(* ===== verification/Managed_Commit.thy ===== *)
theory Managed_Commit
  imports Managed_Config
begin

text \<open>
  \<^verbatim>\<open>configurator/managed-config.ts\<close>, second part: staging, the commit of a planned
  transition and the restoration after a failure. The commit works on a world with faults;
  \<open>uuid\<close> gives the process and random identifier of the next temporary file. The code's test hook
  is one more call that may throw.
\<close>

section \<open>Staging, replacing, restoring\<close>

record StagedWrite =
  st_target :: js_string
  st_tmp :: js_string
  st_original :: "js_string option"
  st_existed :: bool
  st_replaced :: bool

definition temp_path :: "js_string \<Rightarrow> js_string \<Rightarrow> js_string" where
  "temp_path unique target = path_join (path_dirname target) (path_basename target @ ''.tmp.'' @ unique)"

text \<open>The first failing call of a list of calls, and the world it leaves.\<close>

fun do_calls :: "(world \<Rightarrow> bool \<times> world) list \<Rightarrow> world \<Rightarrow> bool \<times> world" where
  "do_calls [] w = (True, w)"
| "do_calls (c # cs) w = (case c w of (False, w') \<Rightarrow> (False, w') | (True, w') \<Rightarrow> do_calls cs w')"

text \<open>\<open>try { call } catch { }\<close>\<close>

definition attempt :: "(world \<Rightarrow> bool \<times> world) \<Rightarrow> world \<Rightarrow> world" where
  "attempt call w = snd (call w)"

definition stageWrite ::
    "(nat \<Rightarrow> js_string) \<Rightarrow> js_string \<Rightarrow> js_string \<Rightarrow> world \<Rightarrow> StagedWrite option \<times> world" where
  "stageWrite uuid target data w =
     (let tmp = temp_path (uuid (wd_fresh w)) target; w0 = w\<lparr>wd_fresh := Suc (wd_fresh w)\<rparr>
      in (case open_write tmp w0 of
            (False, w1) \<Rightarrow> (None, attempt (unlinkSync tmp) w1)
          | (True, w1) \<Rightarrow>
              (case do_calls [write_open tmp data, sync_or_close, sync_or_close] w1 of
                 (False, w2) \<Rightarrow> (None, attempt (unlinkSync tmp) (attempt sync_or_close w2))
               | (True, w2) \<Rightarrow>
                   (let staged = \<lambda>original existed. \<lparr>st_target = target, st_tmp = tmp, st_original = original,
                          st_existed = existed, st_replaced = False\<rparr>
                    in if existsSync (wd_files w2) target then
                         (case read_call target w2 of
                            (None, w3) \<Rightarrow> (None, w3)
                          | (Some s, w3) \<Rightarrow> (Some (staged (Some s) True), w3))
                       else (Some (staged None False), w2)))))"

fun stage_all ::
    "(nat \<Rightarrow> js_string) \<Rightarrow> AssetWrite list \<Rightarrow> world \<Rightarrow> (StagedWrite list \<times> bool) \<times> world" where
  "stage_all uuid [] w = (([], True), w)"
| "stage_all uuid (a # as) w =
     (case stageWrite uuid (aw_path a) (aw_data a) w of
        (None, w1) \<Rightarrow> (([], False), w1)
      | (Some s, w1) \<Rightarrow> (case stage_all uuid as w1 of ((ss, ok), w2) \<Rightarrow> ((s # ss, ok), w2)))"

fun replace_all :: "StagedWrite list \<Rightarrow> world \<Rightarrow> (StagedWrite list \<times> bool) \<times> world" where
  "replace_all [] w = (([], True), w)"
| "replace_all (s # ss) w =
     (case renameSync (st_tmp s) (st_target s) w of
        (False, w1) \<Rightarrow> ((s # ss, False), w1)
      | (True, w1) \<Rightarrow>
          (case sync_or_close w1 of
             (False, w2) \<Rightarrow> ((s\<lparr>st_replaced := True\<rparr> # ss, False), w2)
           | (True, w2) \<Rightarrow>
               (case replace_all ss w2 of ((ss', ok), w3) \<Rightarrow> ((s\<lparr>st_replaced := True\<rparr> # ss', ok), w3))))"

definition restore_one :: "StagedWrite \<Rightarrow> world \<Rightarrow> world" where
  "restore_one s w =
     (if st_replaced s then
        (case (st_existed s, st_original s) of
           (True, Some original) \<Rightarrow> attempt (write_path (st_target s) original) w
         | (False, _) \<Rightarrow> attempt (unlinkSync (st_target s)) w
         | (True, None) \<Rightarrow> w)
      else attempt (unlinkSync (st_tmp s)) w)"

text \<open>The manifest is replaced by the last call, so that its own restoration never has to write.\<close>

definition restore_manifest :: "StagedWrite \<Rightarrow> world \<Rightarrow> world" where
  "restore_manifest s w =
     (if st_replaced s then
        (case (st_existed s, st_original s) of
           (True, Some original) \<Rightarrow> attempt (write_path (st_target s) original) w
         | _ \<Rightarrow> w)
      else attempt (unlinkSync (st_tmp s)) w)"

definition restoreAfterFailure :: "StagedWrite list \<Rightarrow> StagedWrite option \<Rightarrow> world \<Rightarrow> world" where
  "restoreAfterFailure staged manifestStaged w =
     (let w' = fold restore_one staged w
      in case manifestStaged of None \<Rightarrow> w' | Some s \<Rightarrow> restore_manifest s w')"

section \<open>The commit\<close>

definition commit_writes ::
    "(nat \<Rightarrow> js_string) \<Rightarrow> AssetWrite list \<Rightarrow> AssetWrite \<Rightarrow> world \<Rightarrow> bool \<times> world" where
  "commit_writes uuid writes manifest w =
     (case stage_all uuid writes w of
        ((staged, False), w1) \<Rightarrow> (False, restoreAfterFailure staged None w1)
      | ((staged, True), w1) \<Rightarrow>
          (case stageWrite uuid (aw_path manifest) (aw_data manifest) w1 of
             (None, w2) \<Rightarrow> (False, restoreAfterFailure staged None w2)
           | (Some m, w2) \<Rightarrow>
               (case replace_all staged w2 of
                  ((staged', False), w3) \<Rightarrow> (False, restoreAfterFailure staged' (Some m) w3)
                | ((staged', True), w3) \<Rightarrow>
                    (case renameSync (st_tmp m) (st_target m) w3 of
                       (False, w4) \<Rightarrow> (False, restoreAfterFailure staged' (Some m) w4)
                     | (True, w4) \<Rightarrow> (True, w4)))))"

datatype commit_result = Committed | Refused | Io_error

definition manifest_write :: "js_lib \<Rightarrow> js_string \<Rightarrow> InstallManifest \<Rightarrow> AssetWrite" where
  "manifest_write L homeDir candidate =
     \<lparr>aw_path = managedManifestPath homeDir, aw_data = json_pretty (lib_number L) 0 (manifest_value candidate)\<rparr>"

definition candidate_ok :: "js_lib \<Rightarrow> js_string \<Rightarrow> InstallManifest \<Rightarrow> bool" where
  "candidate_ok L homeDir candidate \<longleftrightarrow>
     (case classifyManifest L (manifest_value candidate) homeDir of
        State_current m \<Rightarrow>
          (case im_composition m of
             None \<Rightarrow> False
           | Some c \<Rightarrow> im_version m = version_text (mc_current c))
      | _ \<Rightarrow> False)"

definition commitTransition ::
    "js_lib \<Rightarrow> (nat \<Rightarrow> js_string) \<Rightarrow> js_string \<Rightarrow> TransitionPlan \<Rightarrow> world \<Rightarrow> commit_result \<times> world" where
  "commitTransition L uuid homeDir plan w =
     (if tp_status plan = Unchanged then (Committed, w)
      else if \<not> candidate_ok L homeDir (tp_candidate plan) then (Refused, w)
      else (case commit_writes uuid (tp_writes plan) (manifest_write L homeDir (tp_candidate plan)) w of
              (ok, w') \<Rightarrow> (if ok then Committed else Io_error, w')))"

section \<open>Calls touch only their own paths\<close>

definition agree :: "js_string set \<Rightarrow> file_map \<Rightarrow> file_map \<Rightarrow> bool" where
  "agree T f g \<longleftrightarrow> (\<forall>p. p \<notin> T \<longrightarrow> f p = g p)"

lemma agree_refl [simp]: "agree T f f"
  by (simp add: agree_def)

lemma agree_trans: "agree T f g \<Longrightarrow> agree T g h \<Longrightarrow> agree T f h"
  by (simp add: agree_def)

lemma agree_mono: "agree S f g \<Longrightarrow> S \<subseteq> T \<Longrightarrow> agree T f g"
  by (auto simp: agree_def)

lemma agree_upd [simp]: "p \<in> T \<Longrightarrow> agree T f (g(p := e)) = agree T f g"
  by (auto simp: agree_def)

lemma next_fault_files: "next_fault w = (f, w') \<Longrightarrow> wd_files w' = wd_files w \<and> wd_fresh w' = wd_fresh w"
  by (auto simp: next_fault_def split: if_splits list.splits)

lemma fs_call_agree:
  assumes "\<And>f g. act f = Some g \<Longrightarrow> agree T f g" and "\<And>left f. agree T f (partial left f)"
  shows "agree T (wd_files w) (wd_files (snd (fs_call act partial w)))"
proof -
  obtain f w' where n: "next_fault w = (f, w')" by (cases "next_fault w")
  with next_fault_files [OF n] assms show ?thesis
    by (auto simp: fs_call_def split: fault.split option.split)
qed

lemma call_agree [simp]:
  "p \<in> T \<Longrightarrow> agree T (wd_files w) (wd_files (snd (open_write p w)))"
  "p \<in> T \<Longrightarrow> agree T (wd_files w) (wd_files (snd (write_open p d w)))"
  "agree T (wd_files w) (wd_files (snd (sync_or_close w)))"
  "p \<in> T \<Longrightarrow> agree T (wd_files w) (wd_files (snd (write_path p d w)))"
  "p \<in> T \<Longrightarrow> agree T (wd_files w) (wd_files (snd (unlinkSync p w)))"
  "p \<in> T \<Longrightarrow> q \<in> T \<Longrightarrow> agree T (wd_files w) (wd_files (snd (renameSync p q w)))"
  unfolding open_write_def write_open_def sync_or_close_def write_path_def unlinkSync_def renameSync_def
  by (rule fs_call_agree; auto simp: no_partial_def split: option.splits fs_entry.splits if_splits)+

section \<open>Worlds with at most one fault to come\<close>

definition quiet :: "world \<Rightarrow> bool" where
  "quiet w \<longleftrightarrow> \<not> wd_dead w \<and> wd_faults w = []"

definition one_fault :: "world \<Rightarrow> bool" where
  "one_fault w \<longleftrightarrow>
     \<not> wd_dead w \<and> (wd_faults w = [] \<or> (\<exists>n left. wd_faults w = replicate n Works @ [Throws left]))"

lemma quiet_one_fault: "quiet w \<Longrightarrow> one_fault w"
  by (simp add: quiet_def one_fault_def)

lemma next_fault_one:
  assumes o: "one_fault w" and n: "next_fault w = (f, w')"
  shows "f = Works \<and> one_fault w' \<or> (\<exists>left. f = Throws left) \<and> quiet w'"
proof (cases "wd_faults w")
  case Nil
  moreover have "\<not> wd_dead w" using o by (simp add: one_fault_def)
  ultimately have "f = Works" "w' = w" using n by (simp_all add: next_fault_def)
  with o show ?thesis by simp
next
  case (Cons g gs)
  with o obtain n left where r: "g # gs = replicate n Works @ [Throws left]" and d: "\<not> wd_dead w"
    unfolding one_fault_def by auto
  have w': "f = g" "w' = w\<lparr>wd_faults := gs, wd_dead := (g = Dies)\<rparr>"
    using n d Cons by (auto simp: next_fault_def)
  show ?thesis
  proof (cases n)
    case 0
    with r w' show ?thesis by (simp add: quiet_def)
  next
    case (Suc m)
    with r have "g = Works" "gs = replicate m Works @ [Throws left]" by simp_all
    with w' show ?thesis unfolding one_fault_def by auto
  qed
qed

lemma fs_call_True: "fs_call act partial w = (True, w') \<Longrightarrow> act (wd_files w) = Some (wd_files w') \<and> wd_fresh w' = wd_fresh w"
  by (cases "next_fault w") (auto simp: fs_call_def split: fault.splits option.splits dest: next_fault_files)

lemma fs_call_fresh: "fs_call act partial w = (ok, w') \<Longrightarrow> wd_fresh w' = wd_fresh w"
  by (cases "next_fault w") (auto simp: fs_call_def split: fault.splits option.splits dest: next_fault_files)

lemma fs_call_one:
  assumes "fs_call act partial w = (ok, w')" "one_fault w" "act (wd_files w) \<noteq> None"
  shows "if ok then one_fault w' else quiet w'"
proof -
  obtain f v where n: "next_fault w = (f, v)" by (cases "next_fault w")
  from next_fault_one [OF assms(2) n] next_fault_files [OF n] assms(1,3) n show ?thesis
    by (auto simp: fs_call_def one_fault_def quiet_def split: option.splits)
qed

lemma fs_call_quiet:
  assumes "quiet w"
  shows "\<exists>w'. fs_call act partial w = (act (wd_files w) \<noteq> None, w') \<and> quiet w' \<and> wd_fresh w' = wd_fresh w \<and>
    wd_files w' = (case act (wd_files w) of None \<Rightarrow> wd_files w | Some g \<Rightarrow> g)"
proof -
  have n: "next_fault w = (Works, w)" using assms by (simp add: next_fault_def quiet_def)
  show ?thesis
  proof (cases "act (wd_files w)")
    case None
    with n assms show ?thesis by (intro exI [of _ w]) (simp add: fs_call_def)
  next
    case (Some g)
    with n assms show ?thesis by (intro exI [of _ "w\<lparr>wd_files := g\<rparr>"]) (simp add: fs_call_def quiet_def)
  qed
qed

text \<open>What every call does when it returns.\<close>

definition plain :: "fs_entry option \<Rightarrow> bool" where
  "plain e \<longleftrightarrow> (case e of None \<Rightarrow> True | Some (File _) \<Rightarrow> True | _ \<Rightarrow> False)"

lemma open_write_call:
  assumes "open_write p w = (ok, w')"
  shows "ok \<Longrightarrow> wd_files w' = (wd_files w)(p \<mapsto> File [])" "wd_fresh w' = wd_fresh w"
    and "one_fault w \<Longrightarrow> wd_files w p = None \<Longrightarrow> wd_files w (path_dirname p) = Some Directory \<Longrightarrow>
      if ok then one_fault w' else quiet w'"
proof -
  note c = assms [unfolded open_write_def]
  show "ok \<Longrightarrow> wd_files w' = (wd_files w)(p \<mapsto> File [])"
    using c by (auto dest!: fs_call_True split: option.splits fs_entry.splits if_splits)
  show "wd_fresh w' = wd_fresh w" using fs_call_fresh [OF c] .
  show "if ok then one_fault w' else quiet w'"
    if "one_fault w" "wd_files w p = None" "wd_files w (path_dirname p) = Some Directory"
    by (rule fs_call_one [OF c that(1)]) (simp add: that)
qed

lemma write_open_call:
  assumes "write_open p d w = (ok, w')"
  shows "ok \<Longrightarrow> wd_files w' = (wd_files w)(p \<mapsto> File d)" "wd_fresh w' = wd_fresh w"
    and "one_fault w \<Longrightarrow> if ok then one_fault w' else quiet w'"
proof -
  note c = assms [unfolded write_open_def]
  show "ok \<Longrightarrow> wd_files w' = (wd_files w)(p \<mapsto> File d)" using c by (auto dest!: fs_call_True)
  show "wd_fresh w' = wd_fresh w" using fs_call_fresh [OF c] .
  show "one_fault w \<Longrightarrow> if ok then one_fault w' else quiet w'" by (rule fs_call_one [OF c]) simp_all
qed

lemma sync_call:
  assumes "sync_or_close w = (ok, w')"
  shows "ok \<Longrightarrow> wd_files w' = wd_files w" "wd_fresh w' = wd_fresh w"
    and "one_fault w \<Longrightarrow> if ok then one_fault w' else quiet w'"
proof -
  note c = assms [unfolded sync_or_close_def]
  show "ok \<Longrightarrow> wd_files w' = wd_files w" using c by (auto dest!: fs_call_True)
  show "wd_fresh w' = wd_fresh w" using fs_call_fresh [OF c] .
  show "one_fault w \<Longrightarrow> if ok then one_fault w' else quiet w'" by (rule fs_call_one [OF c]) simp_all
qed

lemma rename_call:
  assumes "renameSync p q w = (ok, w')" and e: "wd_files w p = Some e"
  shows "ok \<Longrightarrow> wd_files w' = (wd_files w)(q \<mapsto> e, p := None)" "wd_fresh w' = wd_fresh w"
    and "one_fault w \<Longrightarrow> plain (wd_files w q) \<Longrightarrow> if ok then one_fault w' else quiet w'"
proof -
  note c = assms(1) [unfolded renameSync_def]
  show "ok \<Longrightarrow> wd_files w' = (wd_files w)(q \<mapsto> e, p := None)"
    using c e by (auto dest!: fs_call_True split: if_splits)
  show "wd_fresh w' = wd_fresh w" using fs_call_fresh [OF c] .
  show "if ok then one_fault w' else quiet w'" if "one_fault w" "plain (wd_files w q)"
    by (rule fs_call_one [OF c that(1)]) (use e that(2) in \<open>auto simp: plain_def\<close>)
qed

lemma unlink_quiet:
  assumes "quiet w"
  shows "quiet (snd (unlinkSync p w))" "agree {p} (wd_files w) (wd_files (snd (unlinkSync p w)))"
    and "\<exists>x. wd_files w p = Some (File x) \<Longrightarrow> wd_files (snd (unlinkSync p w)) p = None"
    and "wd_files w p = None \<Longrightarrow> wd_files (snd (unlinkSync p w)) = wd_files w"
proof -
  let ?act = "\<lambda>files. case files p of None \<Rightarrow> None | Some Directory \<Rightarrow> None | Some _ \<Rightarrow> Some (files(p := None))"
  obtain w' where w': "unlinkSync p w = (?act (wd_files w) \<noteq> None, w')" "quiet w'"
    "wd_files w' = (case ?act (wd_files w) of None \<Rightarrow> wd_files w | Some g \<Rightarrow> g)"
    using fs_call_quiet [OF assms, of ?act no_partial] unfolding unlinkSync_def by blast
  show "quiet (snd (unlinkSync p w))" using w' by simp
  show "agree {p} (wd_files w) (wd_files (snd (unlinkSync p w)))" by simp
  show "\<exists>x. wd_files w p = Some (File x) \<Longrightarrow> wd_files (snd (unlinkSync p w)) p = None"
    using w' by auto
  show "wd_files w p = None \<Longrightarrow> wd_files (snd (unlinkSync p w)) = wd_files w" using w' by simp
qed

section \<open>Staging\<close>

fun temps :: "(nat \<Rightarrow> js_string) \<Rightarrow> nat \<Rightarrow> AssetWrite list \<Rightarrow> js_string list" where
  "temps uuid k [] = []"
| "temps uuid k (a # as) = temp_path (uuid k) (aw_path a) # temps uuid (Suc k) as"

lemma length_temps [simp]: "length (temps uuid k as) = length as"
  by (induction as arbitrary: k) auto

lemma temps_append: "temps uuid k (as @ bs) = temps uuid k as @ temps uuid (k + length as) bs"
  by (induction as arbitrary: k) auto

text \<open>
  The targets are files or absent, and the temporary files are new, in existing directories,
  distinct and none of the targets: what random identifiers and the planned paths give.
\<close>

definition ready :: "file_map \<Rightarrow> js_string list \<Rightarrow> AssetWrite list \<Rightarrow> bool" where
  "ready f ts as \<longleftrightarrow>
     distinct ts \<and> set ts \<inter> aw_path ` set as = {} \<and> list_all (\<lambda>a. plain (f (aw_path a))) as \<and>
     list_all (\<lambda>p. f p = None \<and> f (path_dirname p) = Some Directory) ts"

definition staged_of :: "file_map \<Rightarrow> js_string \<Rightarrow> AssetWrite \<Rightarrow> StagedWrite" where
  "staged_of f tmp a =
     \<lparr>st_target = aw_path a, st_tmp = tmp, st_original = readFileSync f (aw_path a),
      st_existed = existsSync f (aw_path a), st_replaced = False\<rparr>"

lemma attempt_agree: "(\<And>w. agree T (wd_files w) (wd_files (snd (c w)))) \<Longrightarrow> agree T (wd_files w) (wd_files (attempt c w))"
  by (simp add: attempt_def)

lemma stageWrite_agree:
  assumes "stageWrite uuid t d w = (r, w')"
  shows "agree {temp_path (uuid (wd_fresh w)) t} (wd_files w) (wd_files w')"
proof -
  let ?p = "temp_path (uuid (wd_fresh w)) t"
  define w0 where "w0 = w\<lparr>wd_fresh := Suc (wd_fresh w)\<rparr>"
  obtain ok1 w1 where o1: "open_write ?p w0 = (ok1, w1)" by (cases "open_write ?p w0")
  obtain ok2 w2 where o2: "do_calls [write_open ?p d, sync_or_close, sync_or_close] w1 = (ok2, w2)"
    by (cases "do_calls [write_open ?p d, sync_or_close, sync_or_close] w1")
  have a1: "agree {?p} (wd_files w) (wd_files w1)"
    using call_agree(1) [of ?p "{?p}" w0] o1 by (simp add: w0_def)
  have a2: "agree {?p} (wd_files w1) (wd_files w2)"
  proof -
    obtain b3 w3 where c3: "write_open ?p d w1 = (b3, w3)" by (cases "write_open ?p d w1")
    obtain b4 w4 where c4: "sync_or_close w3 = (b4, w4)" by (cases "sync_or_close w3")
    obtain b5 w5 where c5: "sync_or_close w4 = (b5, w5)" by (cases "sync_or_close w4")
    have "agree {?p} (wd_files w1) (wd_files w3)" using call_agree(2) [of ?p "{?p}" w1 d] c3 by simp
    moreover have "agree {?p} (wd_files w3) (wd_files w4)" using call_agree(3) [of "{?p}" w3] c4 by simp
    moreover have "agree {?p} (wd_files w4) (wd_files w5)" using call_agree(3) [of "{?p}" w4] c5 by simp
    ultimately show ?thesis using o2 c3 c4 c5 by (auto split: bool.splits prod.splits intro: agree_trans)
  qed
  have un: "agree {?p} (wd_files v) (wd_files (attempt (unlinkSync ?p) v))"
    and cl: "agree {?p} (wd_files v) (wd_files (attempt sync_or_close v))" for v
    by (simp_all add: attempt_def)
  have rd: "agree {?p} (wd_files v) (wd_files (snd (read_call t v)))" for v
    by (cases "next_fault v"; cases "fst (next_fault v)") (auto simp: read_call_def dest: next_fault_files)
  have u2: "agree {?p} (wd_files w) (wd_files (attempt (unlinkSync ?p) (attempt sync_or_close w2)))"
    by (rule agree_trans [OF agree_trans [OF agree_trans [OF a1 a2] cl] un])
  have u1: "agree {?p} (wd_files w) (wd_files (attempt (unlinkSync ?p) w1))"
    by (rule agree_trans [OF a1 un])
  have r2: "agree {?p} (wd_files w) (wd_files (snd (read_call t w2)))" "agree {?p} (wd_files w) (wd_files w2)"
    by (rule agree_trans [OF agree_trans [OF a1 a2] rd]) (rule agree_trans [OF a1 a2])
  show ?thesis
    using assms o1 o2 u1 u2 r2
    by (cases ok1; cases ok2)
      (auto simp: stageWrite_def Let_def w0_def [symmetric] simp del: do_calls.simps
        split: if_splits prod.splits option.splits)
qed

lemma read_call_outcome:
  assumes "read_call p w = (r, w')"
  shows "wd_files w' = wd_files w" "wd_fresh w' = wd_fresh w"
    and "r = Some s \<Longrightarrow> readFileSync (wd_files w) p = Some s"
    and "one_fault w \<Longrightarrow> readFileSync (wd_files w) p \<noteq> None \<Longrightarrow> if r = None then quiet w' else one_fault w'"
proof -
  obtain f v where n: "next_fault w = (f, v)" by (cases "next_fault w")
  note nf = next_fault_files [OF n]
  show "wd_files w' = wd_files w" "wd_fresh w' = wd_fresh w"
    using assms n nf by (auto simp: read_call_def split: fault.splits)
  show "r = Some s \<Longrightarrow> readFileSync (wd_files w) p = Some s"
    using assms n nf by (auto simp: read_call_def split: fault.splits)
  show "if r = None then quiet w' else one_fault w'" if "one_fault w" "readFileSync (wd_files w) p \<noteq> None"
    using next_fault_one [OF that(1) n] assms n nf that(2)
    by (auto simp: read_call_def split: fault.splits)
qed

lemma attempt_quiet:
  "quiet w \<Longrightarrow> quiet (attempt (unlinkSync p) w)" "quiet w \<Longrightarrow> quiet (attempt sync_or_close w)"
proof -
  show "quiet w \<Longrightarrow> quiet (attempt (unlinkSync p) w)" using unlink_quiet(1) by (simp add: attempt_def)
  show "quiet w \<Longrightarrow> quiet (attempt sync_or_close w)"
    using fs_call_quiet [of w Some no_partial] by (auto simp: attempt_def sync_or_close_def)
qed

lemma write_calls_outcome:
  assumes "do_calls [write_open p d, sync_or_close, sync_or_close] w = (ok, w')"
  shows "ok \<Longrightarrow> wd_files w' = (wd_files w)(p \<mapsto> File d)" "wd_fresh w' = wd_fresh w"
    and "one_fault w \<Longrightarrow> if ok then one_fault w' else quiet w'"
proof -
  obtain b1 w1 where c1: "write_open p d w = (b1, w1)" by (cases "write_open p d w")
  obtain b2 w2 where c2: "sync_or_close w1 = (b2, w2)" by (cases "sync_or_close w1")
  obtain b3 w3 where c3: "sync_or_close w2 = (b3, w3)" by (cases "sync_or_close w2")
  note l = write_open_call [OF c1] sync_call [OF c2] sync_call [OF c3]
  have r: "(ok, w') = (if \<not> b1 then (False, w1) else if \<not> b2 then (False, w2) else (b3, w3))"
    using assms c1 c2 c3 by (cases b1; cases b2; cases b3) simp_all
  show "ok \<Longrightarrow> wd_files w' = (wd_files w)(p \<mapsto> File d)" "wd_fresh w' = wd_fresh w"
    using l r by (auto split: if_splits)
  show "one_fault w \<Longrightarrow> if ok then one_fault w' else quiet w'"
    using l(3,6,9) r by (cases b1; cases b2; cases b3) auto
qed

lemma stageWrite_outcome:
  assumes "stageWrite uuid (aw_path a) (aw_data a) w = (r, w')"
    and tmp: "tmp = temp_path (uuid (wd_fresh w)) (aw_path a)" "tmp \<noteq> aw_path a"
    and f: "f = wd_files w" "plain (f (aw_path a))" "f tmp = None" "f (path_dirname tmp) = Some Directory"
  shows "case r of
      Some s \<Rightarrow> s = staged_of f tmp a \<and> wd_files w' = f(tmp \<mapsto> File (aw_data a)) \<and>
        wd_fresh w' = Suc (wd_fresh w) \<and> (one_fault w \<longrightarrow> one_fault w')
    | None \<Rightarrow> one_fault w \<longrightarrow> quiet w'"
proof -
  define w0 where "w0 = w\<lparr>wd_fresh := Suc (wd_fresh w)\<rparr>"
  have o0: "one_fault w0 = one_fault w" "wd_files w0 = f" by (simp_all add: w0_def one_fault_def f(1))
  obtain ok1 w1 where c1: "open_write tmp w0 = (ok1, w1)" by (cases "open_write tmp w0")
  obtain ok2 w2 where c2: "do_calls [write_open tmp (aw_data a), sync_or_close, sync_or_close] w1 = (ok2, w2)"
    by (cases "do_calls [write_open tmp (aw_data a), sync_or_close, sync_or_close] w1")
  obtain x w3 where c3: "read_call (aw_path a) w2 = (x, w3)" by (cases "read_call (aw_path a) w2")
  note l1 = open_write_call [OF c1] and l2 = write_calls_outcome [OF c2] and l3 = read_call_outcome [OF c3]
  have s: "(r, w') = (if \<not> ok1 then (None, attempt (unlinkSync tmp) w1)
      else if \<not> ok2 then (None, attempt (unlinkSync tmp) (attempt sync_or_close w2))
      else if existsSync (wd_files w2) (aw_path a)
      then (map_option (\<lambda>s. \<lparr>st_target = aw_path a, st_tmp = tmp, st_original = Some s, st_existed = True, st_replaced = False\<rparr>) x, w3)
      else (Some \<lparr>st_target = aw_path a, st_tmp = tmp, st_original = None, st_existed = False, st_replaced = False\<rparr>, w2))"
    using assms(1) c1 c2 c3
    by (cases ok1; cases ok2; cases x; cases "existsSync (wd_files w2) (aw_path a)")
      (auto simp add: stageWrite_def Let_def w0_def tmp(1) simp del: do_calls.simps)
  have one1: "one_fault w \<Longrightarrow> if ok1 then one_fault w1 else quiet w1"
    using l1(3) o0 f(3,4) by simp
  show ?thesis
  proof (cases "ok1 \<and> ok2")
    case False
    with s one1 l2(3) show ?thesis by (cases ok1) (auto simp: attempt_quiet)
  next
    case True
    then have w2: "wd_files w2 = f(tmp \<mapsto> File (aw_data a))" "wd_fresh w2 = Suc (wd_fresh w)"
      "one_fault w \<Longrightarrow> one_fault w2"
      using l1 l2 one1 o0 by (auto simp: w0_def)
    have e: "wd_files w2 (aw_path a) = f (aw_path a)" using w2(1) tmp(2) by simp
    then have rd: "readFileSync (wd_files w2) (aw_path a) = readFileSync f (aw_path a)"
      by (simp add: readFileSync_def)
    have full: "existsSync f (aw_path a) \<Longrightarrow> readFileSync f (aw_path a) \<noteq> None"
      and none: "\<not> existsSync f (aw_path a) \<Longrightarrow> readFileSync f (aw_path a) = None"
      using f(2) by (auto simp: existsSync_def readFileSync_def plain_def split: option.splits fs_entry.splits)
    have ex: "existsSync (wd_files w2) (aw_path a) = existsSync f (aw_path a)" by (simp add: existsSync_def e)
    show ?thesis
    proof (cases "existsSync f (aw_path a)")
      case False
      with s True ex w2 none show ?thesis by (auto simp: staged_of_def)
    next
      case ex': True
      with s True ex have r: "r = map_option (\<lambda>s. \<lparr>st_target = aw_path a, st_tmp = tmp, st_original = Some s, st_existed = True, st_replaced = False\<rparr>) x"
        "w' = w3" by simp_all
      show ?thesis
      proof (cases x)
        case None
        with r l3(4) w2(3) full [OF ex'] rd show ?thesis by auto
      next
        case (Some z)
        with r l3 w2 full [OF ex'] rd ex' show ?thesis by (auto simp: staged_of_def)
      qed
    qed
  qed
qed

lemma ready_Cons:
  assumes "ready f (t # ts) (a # as)"
  shows "t \<noteq> aw_path a" "plain (f (aw_path a))" "f t = None" "f (path_dirname t) = Some Directory"
    and "ready (f(t \<mapsto> File d)) ts as" "t \<notin> set ts" "t \<notin> aw_path ` set as" "aw_path a \<notin> set ts"
proof -
  have "p \<noteq> t \<and> path_dirname p \<noteq> t" if "p \<in> set ts" for p
    using assms that by (auto simp: ready_def list_all_iff)
  moreover have "aw_path b \<noteq> t" if "b \<in> set as" for b
    using assms that by (auto simp: ready_def)
  ultimately show "ready (f(t \<mapsto> File d)) ts as"
    using assms by (auto simp: ready_def list_all_iff)
qed (use assms in \<open>auto simp: ready_def\<close>)

lemma staged_of_upd: "t \<noteq> aw_path a \<Longrightarrow> staged_of (f(t := e)) p a = staged_of f p a"
  by (simp add: staged_of_def readFileSync_def existsSync_def)

lemma stage_all_outcome:
  assumes "stage_all uuid as w = ((ss, ok), w')"
    and "ts = temps uuid (wd_fresh w) as" "f = wd_files w" "ready f ts as"
  shows "if ok then ss = map2 (staged_of f) ts as \<and> wd_files w' = f(ts [\<mapsto>] map (\<lambda>a. File (aw_data a)) as) \<and>
        wd_fresh w' = wd_fresh w + length as \<and> (one_fault w \<longrightarrow> one_fault w')
    else (one_fault w \<longrightarrow> quiet w') \<and> agree (set ts) f (wd_files w') \<and>
        list_all (\<lambda>s. \<not> st_replaced s \<and> st_tmp s \<in> set ts) ss"
  using assms
proof (induction as arbitrary: w f ts ss)
  case Nil
  then show ?case by simp
next
  case (Cons a as)
  obtain t ts' where ts: "ts = t # ts'" "t = temp_path (uuid (wd_fresh w)) (aw_path a)"
    "ts' = temps uuid (Suc (wd_fresh w)) as" using Cons.prems(2) by simp
  note r = ready_Cons [OF Cons.prems(4) [unfolded ts(1)]]
  obtain x w1 where c: "stageWrite uuid (aw_path a) (aw_data a) w = (x, w1)"
    by (cases "stageWrite uuid (aw_path a) (aw_data a) w")
  note o = stageWrite_outcome [OF c ts(2) r(1) Cons.prems(3) r(2-4)]
  show ?case
  proof (cases x)
    case None
    then have "ok = False" "ss = []" "w' = w1" using Cons.prems(1) c by auto
    moreover have "agree (set ts) f (wd_files w1)"
      using stageWrite_agree [OF c] Cons.prems(3) by (auto simp: ts(1,2) intro: agree_mono)
    ultimately show ?thesis using o None by simp
  next
    case (Some s)
    then obtain ss' where c2: "stage_all uuid as w1 = ((ss', ok), w')" "ss = s # ss'"
      using Cons.prems(1) c by (auto split: prod.splits)
    have s: "s = staged_of f t a" "wd_files w1 = f(t \<mapsto> File (aw_data a))" "wd_fresh w1 = Suc (wd_fresh w)"
      "one_fault w \<Longrightarrow> one_fault w1" using o Some by auto
    have IH: "if ok then ss' = map2 (staged_of (f(t \<mapsto> File (aw_data a)))) ts' as \<and>
          wd_files w' = (f(t \<mapsto> File (aw_data a)))(ts' [\<mapsto>] map (\<lambda>a. File (aw_data a)) as) \<and>
          wd_fresh w' = wd_fresh w1 + length as \<and> (one_fault w1 \<longrightarrow> one_fault w')
      else (one_fault w1 \<longrightarrow> quiet w') \<and> agree (set ts') (f(t \<mapsto> File (aw_data a))) (wd_files w') \<and>
          list_all (\<lambda>s. \<not> st_replaced s \<and> st_tmp s \<in> set ts') ss'"
      by (rule Cons.IH [OF c2(1) _ _ r(5)]) (simp_all only: ts(3) s(2,3))
    have "map2 (staged_of (f(t \<mapsto> File (aw_data a)))) ts' as = map2 (staged_of f) ts' as"
      using r(7) by (auto intro!: map_cong staged_of_upd dest: set_zip_rightD)
    moreover have "agree (set ts) f (wd_files w')" if "agree (set ts') (f(t \<mapsto> File (aw_data a))) (wd_files w')"
      using that by (auto simp: agree_def ts(1))
    ultimately show ?thesis
      using IH s c2(2) by (cases ok) (auto simp: ts(1) staged_of_def list_all_iff)
  qed
qed

section \<open>Replacing and restoring\<close>

definition put :: "AssetWrite \<Rightarrow> file_map \<Rightarrow> file_map" where
  "put a f = f(aw_path a \<mapsto> File (aw_data a))"

lemma put_agree: "agree T f g \<Longrightarrow> agree T (put a f) (put a g)"
  by (simp add: agree_def put_def)

lemma fold_put_agree: "agree T f g \<Longrightarrow> agree T (fold put as f) (fold put as g)"
  by (induction as arbitrary: f g) (simp_all add: put_agree)

lemma fold_put_other: "p \<notin> aw_path ` set as \<Longrightarrow> fold put as f p = f p"
  by (induction as arbitrary: f) (simp_all add: put_def)

text \<open>The staged files of the writes \<open>as\<close>, in a file map that started as \<open>f\<close>.\<close>

definition holds_temps :: "file_map \<Rightarrow> js_string list \<Rightarrow> AssetWrite list \<Rightarrow> bool" where
  "holds_temps g ts as \<longleftrightarrow>
     length ts = length as \<and> distinct ts \<and> list_all2 (\<lambda>t a. g t = Some (File (aw_data a))) ts as \<and>
     set ts \<inter> aw_path ` set as = {} \<and> list_all (\<lambda>a. plain (g (aw_path a))) as"

text \<open>
  Outside the temporary files, only replaced targets may differ from the original files, and
  those are files.
\<close>

definition restorable :: "js_string set \<Rightarrow> file_map \<Rightarrow> StagedWrite list \<Rightarrow> file_map \<Rightarrow> bool" where
  "restorable T f ss g \<longleftrightarrow>
     (\<forall>p. p \<notin> T \<longrightarrow> g p = f p \<or>
        (\<exists>s \<in> set ss. st_replaced s \<and> st_target s = p) \<and> (\<exists>x. g p = Some (File x)))"

definition faithful :: "js_string set \<Rightarrow> file_map \<Rightarrow> StagedWrite \<Rightarrow> bool" where
  "faithful T f s \<longleftrightarrow>
     st_tmp s \<in> T \<and> st_target s \<notin> T \<and> plain (f (st_target s)) \<and> st_existed s = existsSync f (st_target s) \<and>
     st_original s = readFileSync f (st_target s)"

lemma write_path_quiet:
  assumes "quiet w" "plain (wd_files w p)" "wd_files w p \<noteq> None"
  shows "quiet (attempt (write_path p d) w)" "wd_files (attempt (write_path p d) w) = (wd_files w)(p \<mapsto> File d)"
proof -
  obtain x where x: "wd_files w p = Some (File x)"
    using assms(2,3) by (auto simp: plain_def split: option.splits fs_entry.splits)
  let ?act = "\<lambda>files. case files p of
                Some (File _) \<Rightarrow> Some (files(p \<mapsto> File d))
              | Some _ \<Rightarrow> None
              | None \<Rightarrow> if files (path_dirname p) = Some Directory then Some (files(p \<mapsto> File d)) else None"
  have "?act (wd_files w) = Some ((wd_files w)(p \<mapsto> File d))" using x by simp
  then show "quiet (attempt (write_path p d) w)" "wd_files (attempt (write_path p d) w) = (wd_files w)(p \<mapsto> File d)"
    using fs_call_quiet [OF assms(1), of ?act] unfolding attempt_def write_path_def
    by (smt (verit) option.simps(5) snd_conv)+
qed

lemma restorable_step:
  assumes "restorable T f (s # ss) g" "agree {st_target s} g g'" "g' (st_target s) = f (st_target s)"
  shows "restorable T f ss g'"
  unfolding restorable_def
proof (intro allI impI)
  fix p assume p: "p \<notin> T"
  show "g' p = f p \<or> (\<exists>s \<in> set ss. st_replaced s \<and> st_target s = p) \<and> (\<exists>x. g' p = Some (File x))"
  proof (cases "p = st_target s")
    case False
    then have "g' p = g p" using assms(2) by (simp add: agree_def)
    with assms(1) p False show ?thesis by (auto simp: restorable_def)
  qed (use assms(3) in simp)
qed

lemma restore_one_restorable:
  assumes q: "quiet w" and fa: "faithful T f s" and r: "restorable T f (s # ss) (wd_files w)"
  shows "quiet (restore_one s w) \<and> restorable T f ss (wd_files (restore_one s w))"
proof -
  let ?g = "wd_files w" and ?t = "st_target s"
  have t: "?t \<notin> T" "st_tmp s \<in> T" using fa by (simp_all add: faithful_def)
  show ?thesis
  proof (cases "st_replaced s")
    case False
    have "agree T ?g (wd_files (attempt (unlinkSync (st_tmp s)) w))" using t(2) by (simp add: attempt_def)
    with r False have "restorable T f ss (wd_files (attempt (unlinkSync (st_tmp s)) w))"
      by (auto simp: restorable_def agree_def)
    with q False show ?thesis by (simp add: restore_one_def attempt_quiet)
  next
    case replaced: True
    show ?thesis
  proof (cases "f ?t")
    case None
    then have n: "restore_one s w = attempt (unlinkSync ?t) w"
      using fa replaced by (simp add: restore_one_def faithful_def existsSync_def)
    have "?g ?t = None \<or> (\<exists>x. ?g ?t = Some (File x))" using r t(1) None by (auto simp: restorable_def)
    then have "wd_files (attempt (unlinkSync ?t) w) ?t = None"
      using unlink_quiet(3,4) [OF q, of ?t] by (auto simp: attempt_def)
    moreover have "agree {?t} ?g (wd_files (attempt (unlinkSync ?t) w))" by (simp add: attempt_def)
    ultimately have "restorable T f ss (wd_files (attempt (unlinkSync ?t) w))"
      using restorable_step [OF r] None by simp
    with n q show ?thesis by (simp add: attempt_quiet)
  next
    case (Some e)
    then obtain x where x: "f ?t = Some (File x)"
      using fa by (auto simp: faithful_def plain_def split: fs_entry.splits)
    then have n: "restore_one s w = attempt (write_path ?t x) w"
      using fa replaced by (simp add: restore_one_def faithful_def existsSync_def readFileSync_def)
    have "?g ?t = f ?t \<or> (\<exists>x. ?g ?t = Some (File x))" using r t(1) by (auto simp: restorable_def)
    then have "plain (?g ?t)" "?g ?t \<noteq> None" using x by (auto simp: plain_def)
    note w = write_path_quiet [OF q this, of x]
    have "restorable T f ss (wd_files (attempt (write_path ?t x) w))"
      by (rule restorable_step [OF r]) (simp_all add: w(2) x)
    with w(1) show ?thesis using n by simp
  qed
  qed
qed

lemma restore_all:
  "quiet w \<Longrightarrow> list_all (faithful T f) ss \<Longrightarrow> restorable T f ss (wd_files w) \<Longrightarrow>
     quiet (fold restore_one ss w) \<and> agree T f (wd_files (fold restore_one ss w))"
proof (induction ss arbitrary: w)
  case Nil
  then show ?case by (auto simp: restorable_def agree_def)
next
  case (Cons s ss)
  with restore_one_restorable [of w T f s ss] show ?case by simp
qed

lemma restore_agree:
  assumes "quiet w" "list_all (faithful T f) ss" "restorable T f ss (wd_files w)"
    and "case m of None \<Rightarrow> True | Some s \<Rightarrow> \<not> st_replaced s \<and> st_tmp s \<in> T"
  shows "agree T f (wd_files (restoreAfterFailure ss m w))"
proof -
  have a: "agree T f (wd_files (fold restore_one ss w))" using restore_all [OF assms(1-3)] by simp
  have "agree T (wd_files v) (wd_files (restore_manifest s v))" if "\<not> st_replaced s" "st_tmp s \<in> T" for s v
    using that by (simp add: restore_manifest_def attempt_def)
  with a assms(4) show ?thesis
    by (cases m) (auto simp: restoreAfterFailure_def Let_def intro: agree_trans)
qed

definition replaced :: "StagedWrite \<Rightarrow> StagedWrite" where
  "replaced s = s\<lparr>st_replaced := True\<rparr>"

lemma replaced_fields [simp]:
  "st_target (replaced s) = st_target s" "st_tmp (replaced s) = st_tmp s" "st_replaced (replaced s)"
  "st_existed (replaced s) = st_existed s" "st_original (replaced s) = st_original s"
  by (simp_all add: replaced_def)

lemma faithful_replaced [simp]: "faithful T f (replaced s) = faithful T f s"
  by (simp add: faithful_def)

lemma restorable_mono:
  "restorable T f ss g \<Longrightarrow> (\<And>s. s \<in> set ss \<Longrightarrow> st_replaced s \<Longrightarrow> \<exists>r \<in> set rs. st_replaced r \<and> st_target r = st_target s) \<Longrightarrow>
     restorable T f rs g"
  unfolding restorable_def by metis

lemma failed_call_files:
  "renameSync p q w = (False, w') \<Longrightarrow> wd_files w' = wd_files w"
  "sync_or_close w = (ok, w') \<Longrightarrow> wd_files w' = wd_files w"
  unfolding renameSync_def sync_or_close_def fs_call_def no_partial_def
  by (cases "next_fault w"; auto dest!: next_fault_files split: fault.splits option.splits if_splits)+

text \<open>Replacing: either every staged file is in place, or what is replaced can be restored.\<close>

lemma replace_all_outcome:
  assumes "replace_all ss w = ((ss', ok), w')"
    and "holds_temps (wd_files w) ts as" "map st_tmp ss = ts" "map st_target ss = map aw_path as"
    and "list_all (\<lambda>s. \<not> st_replaced s) ss" "set ts \<subseteq> T" "T \<inter> aw_path ` set as = {}"
  shows "if ok then ss' = map replaced ss \<and> agree T (fold put as (wd_files w)) (wd_files w') \<and>
        (\<forall>p \<in> T - set ts. wd_files w' p = wd_files w p) \<and> (one_fault w \<longrightarrow> one_fault w')
    else (one_fault w \<longrightarrow> quiet w' \<and> restorable T (wd_files w) ss' (wd_files w')) \<and>
        (\<forall>S. list_all (faithful T S) ss \<longrightarrow> list_all (faithful T S) ss') \<and>
        (\<forall>p. p \<notin> T \<longrightarrow> p \<notin> aw_path ` set as \<longrightarrow> wd_files w' p = wd_files w p)"
  using assms
proof (induction ss arbitrary: w ts as ss')
  case Nil
  then show ?case by simp
next
  case (Cons s ss)
  obtain t ts2 a as2 where ts: "ts = t # ts2" "as = a # as2" "st_tmp s = t" "st_target s = aw_path a"
    "map st_tmp ss = ts2" "map st_target ss = map aw_path as2"
    using Cons.prems(3,4) by (cases ts; cases as) auto
  note h = Cons.prems(2) [unfolded holds_temps_def ts]
  have ht: "wd_files w t = Some (File (aw_data a))" and pl: "plain (wd_files w (aw_path a))"
    and tn: "t \<notin> set ts2" "t \<noteq> aw_path a" "aw_path a \<notin> set ts2" "t \<notin> aw_path ` set as2"
    using h by auto
  have tT: "t \<in> T" and aT: "aw_path a \<notin> T" using Cons.prems(6,7) by (auto simp: ts)
  obtain b1 w1 where c1: "renameSync t (aw_path a) w = (b1, w1)" by (cases "renameSync t (aw_path a) w")
  obtain b2 w2 where c2: "sync_or_close w1 = (b2, w2)" by (cases "sync_or_close w1")
  note r1 = rename_call [OF c1 ht] and r2 = sync_call [OF c2]
  show ?case
  proof (cases "b1 \<and> b2")
    case False
    show ?thesis
    proof (cases b1)
      case b1: False
      then have "ss' = s # ss" "ok = False" "w' = w1" "wd_files w1 = wd_files w"
        using Cons.prems(1) c1 failed_call_files(1) by (auto simp: ts(3,4))
      with r1(3) pl b1 show ?thesis by (simp add: restorable_def)
    next
      case b1: True
      with False have e: "ss' = replaced s # ss" "ok = False" "w' = w2" "wd_files w2 = wd_files w1"
        using Cons.prems(1) c1 c2 failed_call_files(2) by (auto simp: ts(3,4) replaced_def)
      have f: "wd_files w1 = (wd_files w)(aw_path a \<mapsto> File (aw_data a), t := None)" using r1(1) b1 by simp
      have "one_fault w \<longrightarrow> quiet w2" using r1(3) r2(3) pl b1 False by auto
      moreover have "restorable T (wd_files w) (replaced s # ss) (wd_files w2)"
        using tT by (auto simp: restorable_def e(4) f ts(4))
      ultimately show ?thesis using e tT by (auto simp: f ts(2))
    qed
  next
    case True
    define g where "g = (wd_files w)(aw_path a \<mapsto> File (aw_data a), t := None)"
    have f2: "wd_files w2 = g" using r1(1) failed_call_files(2) [OF c2] True by (simp add: g_def)
    obtain ss2 where c3: "replace_all ss w2 = ((ss2, ok), w')" "ss' = replaced s # ss2"
      using Cons.prems(1) c1 c2 True by (auto simp: ts(3,4) replaced_def split: prod.splits)
    have "list_all2 (\<lambda>t a. g t = Some (File (aw_data a))) ts2 as2"
      using h tn by (auto simp: g_def elim!: list.rel_mono_strong)
    moreover have "list_all (\<lambda>b. plain (g (aw_path b))) as2"
      using h tn by (auto simp: g_def list_all_iff plain_def)
    ultimately have hg: "holds_temps (wd_files w2) ts2 as2" using h unfolding f2 by (auto simp: holds_temps_def)
    have one: "one_fault w \<longrightarrow> one_fault w2" using r1(3) r2(3) pl True by auto
    have "set ts2 \<subseteq> T" "T \<inter> aw_path ` set as2 = {}" "list_all (\<lambda>s. \<not> st_replaced s) ss"
      using Cons.prems(5-7) by (auto simp: ts(1,2))
    note IH = Cons.IH [OF c3(1) hg ts(5,6) this(3,1,2), unfolded f2]
    have same: "g p = wd_files w p" if "p \<noteq> t" "p \<noteq> aw_path a" for p using that by (simp add: g_def)
    show ?thesis
    proof (cases ok)
      case True
      have "agree T (fold put as2 (put a (wd_files w))) (fold put as2 g)"
        using tT by (intro fold_put_agree) (simp add: agree_def put_def g_def)
      with IH True one c3(2) same aT show ?thesis
        by (auto simp: ts(1,2) intro: agree_trans)
    next
      case False
      have "restorable T (wd_files w) (replaced s # ss2) (wd_files w')" if r: "restorable T g ss2 (wd_files w')"
        unfolding restorable_def
      proof (intro allI impI)
        fix p assume "p \<notin> T"
        with r consider "wd_files w' p = g p"
          | "(\<exists>s \<in> set ss2. st_replaced s \<and> st_target s = p) \<and> (\<exists>x. wd_files w' p = Some (File x))"
          unfolding restorable_def by blast
        then show "wd_files w' p = wd_files w p \<or>
            (\<exists>s \<in> set (replaced s # ss2). st_replaced s \<and> st_target s = p) \<and> (\<exists>x. wd_files w' p = Some (File x))"
        proof cases
          case 1
          with \<open>p \<notin> T\<close> tT same show ?thesis by (cases "p = aw_path a") (auto simp: ts(4) g_def)
        qed auto
      qed
      moreover have "wd_files w' p = wd_files w p" if "p \<notin> T" "p \<notin> aw_path ` set as" for p
      proof -
        have "p \<noteq> t" "p \<noteq> aw_path a" "p \<notin> aw_path ` set as2" using that tT by (auto simp: ts(2))
        with IH False same that(1) show ?thesis by simp
      qed
      ultimately show ?thesis using IH False one c3(2) by auto
    qed
  qed
qed

section \<open>The commit as a whole\<close>

lemma fold_put_file: "p \<in> aw_path ` set as \<Longrightarrow> \<exists>x. fold put as f p = Some (File x)"
proof (induction as arbitrary: f)
  case (Cons a as)
  show ?case
  proof (cases "p \<in> aw_path ` set as")
    case True
    with Cons.IH show ?thesis by simp
  next
    case False
    then have "fold put (a # as) f p = put a f p" using fold_put_other [OF False, of "put a f"] by simp
    moreover have "put a f p = Some (File (aw_data a))" using False Cons.prems by (auto simp: put_def)
    ultimately show ?thesis by (intro exI) (rule trans)
  qed
qed simp

lemma fold_put_plain: "plain (f p) \<Longrightarrow> plain (fold put as f p)"
  by (induction as arbitrary: f) (simp_all add: put_def plain_def)

lemma map_upds_all2:
  "distinct ts \<Longrightarrow> length ts = length xs \<Longrightarrow> list_all2 (\<lambda>t x. (f(ts [\<mapsto>] xs)) t = Some x) ts xs"
proof (induction ts arbitrary: f xs)
  case (Cons t ts)
  then obtain x ys where xs: "xs = x # ys" by (cases xs) auto
  have "list_all2 (\<lambda>q y. ((f(t \<mapsto> x))(ts [\<mapsto>] ys)) q = Some y) ts ys"
    by (rule Cons.IH) (use Cons.prems xs in simp_all)
  moreover have "((f(t \<mapsto> x))(ts [\<mapsto>] ys)) t = Some x"
    using Cons.prems(1) map_upds_apply_nontin [of t ts "f(t \<mapsto> x)" ys] by simp
  ultimately show ?case unfolding xs map_upds_Cons list.rel_inject by blast
qed simp

lemma map_upds_other: "p \<notin> set ts \<Longrightarrow> (f(ts [\<mapsto>] xs)) p = f p"
  by (rule map_upds_apply_nontin)

lemma restorable_agree: "agree T f g \<Longrightarrow> restorable T f ss h = restorable T g ss h"
  by (auto simp: restorable_def agree_def)

lemma faithful_unreplaced: "restorable T f ss g" if "agree T f g" for ss
  using that by (auto simp: restorable_def agree_def)

lemma restore_one_agree:
  "agree (insert (st_tmp s) (insert (st_target s) T)) (wd_files w) (wd_files (restore_one s w))"
  by (auto simp: restore_one_def attempt_def split: bool.split option.split)

lemma restore_touches:
  assumes "p \<notin> st_tmp ` set ss" "p \<notin> st_target ` set ss"
    and "case m of None \<Rightarrow> True | Some s \<Rightarrow> \<not> st_replaced s \<and> p \<noteq> st_tmp s"
  shows "wd_files (restoreAfterFailure ss m w) p = wd_files w p"
proof -
  have "p \<notin> st_tmp ` set ss \<Longrightarrow> p \<notin> st_target ` set ss \<Longrightarrow> wd_files (fold restore_one ss w) p = wd_files w p"
    for w
  proof (induction ss arbitrary: w)
    case (Cons s ss)
    moreover have "wd_files (restore_one s w) p = wd_files w p"
      using restore_one_agree [of s "{}" w] Cons.prems by (simp add: agree_def)
    ultimately show ?case by simp
  qed simp
  moreover have "wd_files (restore_manifest s v) p = wd_files v p" if "\<not> st_replaced s" "p \<noteq> st_tmp s" for s v
    using that call_agree(5) [of "st_tmp s" "{st_tmp s}" v] by (simp add: restore_manifest_def attempt_def agree_def)
  ultimately show ?thesis using assms by (cases m) (auto simp: restoreAfterFailure_def Let_def)
qed

lemma ready_append:
  assumes "ready f (ts @ [u]) (as @ [m])" "length ts = length as"
  shows "ready f ts as" "u \<notin> set ts" "u \<noteq> aw_path m" "plain (f (aw_path m))" "aw_path m \<notin> set ts"
    "u \<notin> aw_path ` set as" "set ts \<inter> aw_path ` set as = {}"
    and "(f(ts [\<mapsto>] xs)) u = None" "(f(ts [\<mapsto>] xs)) (path_dirname u) = Some Directory"
proof -
  have "path_dirname u \<notin> set ts" using assms(1) by (auto simp: ready_def list_all_iff)
  then show "(f(ts [\<mapsto>] xs)) (path_dirname u) = Some Directory"
    using assms(1) by (simp add: map_upds_other ready_def)
  have "u \<notin> set ts" using assms(1) by (simp add: ready_def)
  then show "(f(ts [\<mapsto>] xs)) u = None" using assms(1) by (simp add: map_upds_other ready_def)
qed (use assms in \<open>auto simp: ready_def\<close>)

lemma staged_map2:
  assumes "length ts = length as"
  shows "map st_tmp (map2 (staged_of f) ts as) = ts" "map st_target (map2 (staged_of f) ts as) = map aw_path as"
    "list_all (\<lambda>s. \<not> st_replaced s) (map2 (staged_of f) ts as)"
  using assms by (induction ts as rule: list_induct2) (simp_all add: staged_of_def)

lemma staged_faithful:
  assumes "length ts = length as" "set ts \<subseteq> T" "T \<inter> aw_path ` set as = {}" "list_all (\<lambda>a. plain (f (aw_path a))) as"
  shows "list_all (faithful T f) (map2 (staged_of f) ts as)"
  using assms by (induction ts as rule: list_induct2) (auto simp: staged_of_def faithful_def)

lemma replace_all_fields:
  "replace_all ss w = ((ss', ok), w') \<Longrightarrow> map st_tmp ss' = map st_tmp ss \<and> map st_target ss' = map st_target ss"
  by (induction ss arbitrary: w ss') (auto split: prod.splits bool.splits)

text \<open>The files once everything is staged.\<close>

lemma staged_files:
  assumes g: "g = f(ts [\<mapsto>] map (\<lambda>a. File (aw_data a)) as, u \<mapsto> File (aw_data m))"
    and r: "ready f (ts @ [u]) (as @ [m])" and l: "length ts = length as"
  shows "agree (insert u (set ts)) f g" and "p \<in> aw_path ` set (as @ [m]) \<Longrightarrow> g p = f p"
    and "holds_temps g ts as"
proof -
  note ra = ready_append [OF r l]
  show ag: "agree (insert u (set ts)) f g" unfolding g by (auto simp: agree_def map_upds_other)
  show tgt: "g p = f p" if "p \<in> aw_path ` set (as @ [m])" for p
  proof -
    have "p \<notin> insert u (set ts)" using that ra(3,5-7) by auto
    with ag show ?thesis by (simp add: agree_def)
  qed
  have "list_all2 (\<lambda>t a. g t = Some (File (aw_data a))) ts as"
    using map_upds_all2 [of ts "map (\<lambda>a. File (aw_data a)) as" f] ra(1,2) l
    by (auto simp: g ready_def list.rel_map elim!: list.rel_mono_strong)
  moreover have "list_all (\<lambda>a. plain (g (aw_path a))) as"
    using ra(1) tgt by (auto simp: ready_def list_all_iff)
  ultimately show "holds_temps g ts as" using ra(1,7) l by (simp add: holds_temps_def ready_def)
qed

lemma commit_staged:
  assumes "replace_all (map2 (staged_of f) ts as) w = ((ss', ok), w')" and "sm = staged_of g u m"
    and w: "wd_files w = f(ts [\<mapsto>] map (\<lambda>a. File (aw_data a)) as, u \<mapsto> File (aw_data m))"
    and r: "ready f (ts @ [u]) (as @ [m])" and l: "length ts = length as" and m: "aw_path m \<notin> aw_path ` set as"
    and res: "(b, v) = (if \<not> ok then (False, restoreAfterFailure ss' (Some sm) w')
      else (case renameSync u (aw_path m) w' of
              (False, w4) \<Rightarrow> (False, restoreAfterFailure ss' (Some sm) w4) | (True, w4) \<Rightarrow> (True, w4)))"
  shows "if b then agree (insert u (set ts)) (fold put (as @ [m]) f) (wd_files v)
    else wd_files v (aw_path m) = f (aw_path m) \<and> (one_fault w \<longrightarrow> agree (insert u (set ts)) f (wd_files v))"
proof -
  let ?T = "insert u (set ts)" and ?ss = "map2 (staged_of f) ts as"
  note ra = ready_append [OF r l]
  note sm = staged_map2 [OF l, of f]
  note sf = staged_files [OF w r l]
  have fa: "list_all (faithful ?T f) ?ss"
    using ra(1,6,7) by (intro staged_faithful l) (auto simp: ready_def)
  have "set ts \<subseteq> ?T" "?T \<inter> aw_path ` set as = {}" using ra(6,7) by auto
  note R = replace_all_outcome [OF assms(1) sf(3) sm(1,2,3) this]
  have smf: "\<not> st_replaced sm" "st_tmp sm = u" by (simp_all add: assms(2) staged_of_def)
  have mT: "aw_path m \<notin> ?T" using ra(3,5) by simp
  have keep: "wd_files (restoreAfterFailure ss2 (Some sm) v2) (aw_path m) = wd_files v2 (aw_path m)"
    if "map st_tmp ss2 = ts" "map st_target ss2 = map aw_path as" for ss2 v2
  proof (rule restore_touches)
    have "set (map st_tmp ss2) = set ts" "set (map st_target ss2) = aw_path ` set as"
      using that by simp_all
    then have "st_tmp ` set ss2 = set ts" "st_target ` set ss2 = aw_path ` set as" by simp_all
    then show "aw_path m \<notin> st_tmp ` set ss2" "aw_path m \<notin> st_target ` set ss2" using mT m by simp_all
    show "case Some sm of None \<Rightarrow> True | Some s \<Rightarrow> \<not> st_replaced s \<and> aw_path m \<noteq> st_tmp s"
      using mT smf by simp
  qed
  have fields: "map st_tmp ss' = ts" "map st_target ss' = map aw_path as"
    using replace_all_fields [OF assms(1)] sm by simp_all
  show ?thesis
  proof (cases ok)
    case False
    then have v: "b = False" "v = restoreAfterFailure ss' (Some sm) w'" using res by simp_all
    have "wd_files w' (aw_path m) = f (aw_path m)"
      using R False mT m sf(2) [of "aw_path m"] by simp
    moreover have "agree ?T f (wd_files v)" if "one_fault w"
      unfolding v(2)
    proof (rule restore_agree)
      show "quiet w'" "restorable ?T f ss' (wd_files w')" "list_all (faithful ?T f) ss'"
        using R False that fa restorable_agree [OF sf(1)] by auto
    qed (simp add: smf)
    ultimately show ?thesis using v keep [OF fields] by simp
  next
    case True
    then have o: "ss' = map replaced ?ss" "agree ?T (fold put as (wd_files w)) (wd_files w')"
      "wd_files w' u = Some (File (aw_data m))" "one_fault w \<longrightarrow> one_fault w'"
      using R ra(2) by (auto simp: w)
    have put_f: "agree ?T (fold put as f) (wd_files w')"
      using agree_trans [OF fold_put_agree [OF sf(1)] o(2)] .
    have wm: "wd_files w' (aw_path m) = f (aw_path m)"
    proof -
      have "fold put as f (aw_path m) = wd_files w' (aw_path m)" using put_f mT by (simp add: agree_def)
      with fold_put_other [OF m, of f] show ?thesis by simp
    qed
    obtain c w4 where c: "renameSync u (aw_path m) w' = (c, w4)" by (cases "renameSync u (aw_path m) w'")
    note rc = rename_call [OF c o(3)]
    show ?thesis
    proof (cases c)
      case True
      then have "b = True" "v = w4" using res \<open>ok\<close> c by simp_all
      moreover have "agree ?T (put m (fold put as f)) (wd_files w4)"
        using put_f rc(1) True by (auto simp: agree_def put_def)
      ultimately show ?thesis by simp
    next
      case False
      then have v: "b = False" "v = restoreAfterFailure ss' (Some sm) w4" and w4: "wd_files w4 = wd_files w'"
        using res \<open>ok\<close> c failed_call_files(1) by auto
      have "restorable ?T f ss' (wd_files w4)"
        unfolding restorable_def
      proof (intro allI impI)
        fix p assume p: "p \<notin> ?T"
        then have e: "wd_files w4 p = fold put as f p" using put_f w4 by (simp add: agree_def)
        show "wd_files w4 p = f p \<or> (\<exists>s \<in> set ss'. st_replaced s \<and> st_target s = p) \<and> (\<exists>x. wd_files w4 p = Some (File x))"
        proof (cases "p \<in> aw_path ` set as")
          case True
          then have "p \<in> st_target ` set ss'" using fields(2) by (metis list.set_map)
          moreover have "st_replaced s" if "s \<in> set ss'" for s using that o(1) by auto
          ultimately have "\<exists>s \<in> set ss'. st_replaced s \<and> st_target s = p" by blast
          with fold_put_file [OF True, of f] e show ?thesis by simp
        next
          case False
          with e show ?thesis by (simp add: fold_put_other)
        qed
      qed
      moreover have "list_all (faithful ?T f) ss'" using fa o(1) by (simp add: list_all_iff)
      moreover have "quiet w4" if "one_fault w"
        using rc(3) that o(4) ra(4) False by (simp add: wm)
      ultimately have "one_fault w \<longrightarrow> agree ?T f (wd_files v)"
        unfolding v(2) using restore_agree [of w4 ?T f ss' "Some sm"] smf by auto
      then show ?thesis using v keep [OF fields] w4 wm by simp
    qed
  qed
qed

lemma unreplaced_restore:
  assumes "list_all (\<lambda>s. \<not> st_replaced s \<and> st_tmp s \<in> T) ss"
  shows "agree T (wd_files w) (wd_files (restoreAfterFailure ss None w))"
proof -
  have "list_all (\<lambda>s. \<not> st_replaced s \<and> st_tmp s \<in> T) ss \<Longrightarrow> agree T (wd_files w) (wd_files (fold restore_one ss w))" for w
  proof (induction ss arbitrary: w)
    case (Cons s ss)
    then have "agree T (wd_files w) (wd_files (restore_one s w))" by (simp add: restore_one_def attempt_def)
    with Cons show ?case by (auto intro: agree_trans)
  qed simp
  with assms show ?thesis by (simp add: restoreAfterFailure_def)
qed

lemma commit_outcome:
  assumes c: "commit_writes uuid as m w = (b, v)" and f: "f = wd_files w"
    and ts: "ts @ [u] = temps uuid (wd_fresh w) (as @ [m])"
    and r: "ready f (ts @ [u]) (as @ [m])" and m: "aw_path m \<notin> aw_path ` set as"
  shows "if b then agree (insert u (set ts)) (fold put (as @ [m]) f) (wd_files v)
    else wd_files v (aw_path m) = f (aw_path m) \<and> (one_fault w \<longrightarrow> agree (insert u (set ts)) f (wd_files v))"
proof -
  have tsu: "ts = temps uuid (wd_fresh w) as" "u = temp_path (uuid (wd_fresh w + length as)) (aw_path m)"
    using ts by (simp_all add: temps_append)
  have l: "length ts = length as" by (simp add: tsu)
  note ra = ready_append [OF r l]
  obtain ss ok w1 where s: "stage_all uuid as w = ((ss, ok), w1)" by (metis prod.exhaust)
  note S = stage_all_outcome [OF s tsu(1) f ra(1)]
  let ?T = "insert u (set ts)"
  have mT: "aw_path m \<notin> ?T" using ra(3,5) by simp
  have fin: ?thesis if "b = False" "agree ?T f (wd_files v)"
    using that mT by (simp add: agree_def)
  show ?thesis
  proof (cases ok)
    case False
    then have v: "b = False" "v = restoreAfterFailure ss None w1" using c s by (simp_all add: commit_writes_def)
    have "agree (set ts) f (wd_files w1)" "list_all (\<lambda>s. \<not> st_replaced s \<and> st_tmp s \<in> set ts) ss"
      using S False by simp_all
    then have "agree (set ts) f (wd_files v)"
      unfolding v(2) using unreplaced_restore agree_trans by blast
    with v(1) show ?thesis by (intro fin) (auto intro: agree_mono)
  next
    case True
    then have S': "ss = map2 (staged_of f) ts as" "wd_files w1 = f(ts [\<mapsto>] map (\<lambda>a. File (aw_data a)) as)"
      "wd_fresh w1 = wd_fresh w + length as" "one_fault w \<longrightarrow> one_fault w1" using S by simp_all
    obtain x w2 where c2: "stageWrite uuid (aw_path m) (aw_data m) w1 = (x, w2)"
      by (cases "stageWrite uuid (aw_path m) (aw_data m) w1")
    have u: "u = temp_path (uuid (wd_fresh w1)) (aw_path m)" by (simp add: tsu S'(3))
    have "plain (wd_files w1 (aw_path m))" using ra(4,5) by (simp add: S'(2) map_upds_other)
    note O = stageWrite_outcome [OF c2 u ra(3) refl this ra(8,9) [of "map (\<lambda>a. File (aw_data a)) as", folded S'(2)]]
    show ?thesis
    proof (cases x)
      case None
      then have v: "b = False" "v = restoreAfterFailure ss None w2"
        using c s \<open>ok\<close> c2 by (simp_all add: commit_writes_def)
      have "agree ?T f (wd_files w1)" unfolding S'(2) by (auto simp: agree_def map_upds_other)
      moreover have "agree ?T (wd_files w1) (wd_files w2)"
        using stageWrite_agree [OF c2] by (auto simp flip: u intro: agree_mono)
      moreover have "list_all (\<lambda>s. \<not> st_replaced s \<and> st_tmp s \<in> ?T) ss"
        unfolding S'(1) using l by (induction ts as rule: list_induct2) (auto simp: staged_of_def list_all_iff)
      ultimately have "agree ?T f (wd_files v)" unfolding v(2) using unreplaced_restore agree_trans by metis
      with v(1) show ?thesis by (rule fin)
    next
      case (Some sm)
      then have sm: "sm = staged_of (wd_files w1) u m" "wd_files w2 = (wd_files w1)(u \<mapsto> File (aw_data m))"
        "one_fault w1 \<longrightarrow> one_fault w2" using O by simp_all
      obtain ss' ok' w3 where R: "replace_all ss w2 = ((ss', ok'), w3)" by (metis prod.exhaust)
      have res: "(b, v) = (if \<not> ok' then (False, restoreAfterFailure ss' (Some sm) w3)
          else (case renameSync u (aw_path m) w3 of
              (False, w4) \<Rightarrow> (False, restoreAfterFailure ss' (Some sm) w4) | (True, w4) \<Rightarrow> (True, w4)))"
        using c s \<open>ok\<close> c2 Some R sm(1) by (auto simp: commit_writes_def staged_of_def split: prod.splits bool.splits)
      show ?thesis
        using commit_staged [OF R [unfolded S'(1)] sm(1) sm(2) [unfolded S'(2)] r l m res] S'(4) sm(3) by auto
    qed
  qed
qed

end
