(* ===== verification/Managed_Transitions.thy ===== *)
theory Managed_Transitions
  imports Managed_Commit
begin

text \<open>
  What a commit of \<^verbatim>\<open>configurator/managed-config.ts\<close> leaves on disk: everything or
  nothing, and a rollback after an upgrade.
\<close>

section \<open>A commit that returns leaves no temporary file\<close>

lemma rename_effect:
  assumes "renameSync p q w = (True, w')"
  shows "\<exists>e. wd_files w' = (wd_files w)(q \<mapsto> e, p := None)"
proof -
  have "\<exists>e. (wd_files w)(q \<mapsto> e, p := None) = wd_files w'"
    using fs_call_True [OF assms [unfolded renameSync_def]] by (auto split: option.splits if_splits)
  then show ?thesis by (metis (no_types))
qed

lemma replace_all_frame:
  "replace_all ss w = ((ss', ok), w') \<Longrightarrow> p \<notin> st_tmp ` set ss \<Longrightarrow> p \<notin> st_target ` set ss \<Longrightarrow> wd_files w' p = wd_files w p"
proof (induction ss arbitrary: w ss')
  case (Cons s ss)
  obtain b1 w1 where c1: "renameSync (st_tmp s) (st_target s) w = (b1, w1)" by (metis prod.exhaust)
  obtain b2 w2 where c2: "sync_or_close w1 = (b2, w2)" by (metis prod.exhaust)
  have "wd_files w1 p = wd_files w p"
    using call_agree(6) [of "st_tmp s" "{st_tmp s, st_target s}" "st_target s" w] c1 Cons.prems(2,3)
    by (simp add: agree_def)
  moreover have "wd_files w2 = wd_files w1" using failed_call_files(2) [OF c2] .
  ultimately show ?case
    using Cons c1 c2 by (auto split: bool.splits prod.splits)
qed simp

lemma replace_all_removes:
  assumes "replace_all ss w = ((ss', True), w')" "st_tmp ` set ss \<inter> st_target ` set ss = {}" "t \<in> st_tmp ` set ss"
  shows "wd_files w' t = None"
  using assms
proof (induction ss arbitrary: w ss')
  case (Cons s ss)
  obtain w1 w2 ss2 where c: "renameSync (st_tmp s) (st_target s) w = (True, w1)"
    "sync_or_close w1 = (True, w2)" "replace_all ss w2 = ((ss2, True), w')"
    using Cons.prems(1) by (auto split: prod.splits bool.splits)
  show ?case
  proof (cases "t \<in> st_tmp ` set ss")
    case True
    moreover have "st_tmp ` set ss \<inter> st_target ` set ss = {}" using Cons.prems(2) by auto
    ultimately show ?thesis using Cons.IH [OF c(3)] by simp
  next
    case False
    then have "t = st_tmp s" using Cons.prems(3) by simp
    then have "wd_files w1 t = None" using rename_effect [OF c(1)] by auto
    moreover have "t \<notin> st_target ` set ss" using Cons.prems(2) \<open>t = st_tmp s\<close> by force
    ultimately show ?thesis
      using replace_all_frame [OF c(3) False] failed_call_files(2) [OF c(2)] by simp
  qed
qed simp

section \<open>Without faults every call returns\<close>

lemma quiet_call:
  assumes "quiet w" "act (wd_files w) = Some g"
  shows "fs_call act partial w = (True, w\<lparr>wd_files := g\<rparr>)"
  using assms by (simp add: fs_call_def next_fault_def quiet_def)

lemma quiet_update [simp]: "quiet (w\<lparr>wd_files := g\<rparr>) = quiet w" "quiet (w\<lparr>wd_fresh := n\<rparr>) = quiet w"
  by (simp_all add: quiet_def)

lemma stageWrite_quiet:
  assumes q: "quiet w" and t: "tmp = temp_path (uuid (wd_fresh w)) p" "tmp \<noteq> p"
    and f: "wd_files w tmp = None" "wd_files w (path_dirname tmp) = Some Directory" "plain (wd_files w p)"
  shows "\<exists>s. stageWrite uuid p d w =
    (Some s, w\<lparr>wd_fresh := Suc (wd_fresh w), wd_files := (wd_files w)(tmp \<mapsto> File d)\<rparr>) \<and> \<not> st_replaced s"
proof -
  let ?w0 = "w\<lparr>wd_fresh := Suc (wd_fresh w)\<rparr>" and ?f1 = "(wd_files w)(tmp \<mapsto> File [])"
  let ?w1 = "?w0\<lparr>wd_files := ?f1\<rparr>" and ?w2 = "?w0\<lparr>wd_files := (wd_files w)(tmp \<mapsto> File d)\<rparr>"
  have "open_write tmp ?w0 = (True, ?w1)"
    unfolding open_write_def by (rule quiet_call) (use q f in simp_all)
  moreover have "write_open tmp d ?w1 = (True, ?w2)"
    unfolding write_open_def by (subst quiet_call [where g = "?f1(tmp \<mapsto> File d)"]) (use q in simp_all)
  moreover have "sync_or_close ?w2 = (True, ?w2)"
    unfolding sync_or_close_def by (subst quiet_call [where g = "wd_files ?w2"]) (use q in simp_all)
  moreover have "read_call p ?w2 = (readFileSync (wd_files w) p, ?w2)"
    using q t(2) by (simp add: read_call_def next_fault_def quiet_def readFileSync_def)
  ultimately show ?thesis
    using t f(3) by (auto simp: stageWrite_def Let_def existsSync_def readFileSync_def plain_def
      split: option.splits fs_entry.splits)
qed

lemma stage_all_quiet:
  assumes "quiet w" "ready (wd_files w) (temps uuid (wd_fresh w) as) as"
  shows "\<exists>ss w'. stage_all uuid as w = ((ss, True), w') \<and> quiet w'"
  using assms
proof (induction as arbitrary: w)
  case (Cons a as)
  let ?t = "temp_path (uuid (wd_fresh w)) (aw_path a)"
  define g where "g = (wd_files w)(?t \<mapsto> File (aw_data a))"
  let ?w1 = "w\<lparr>wd_fresh := Suc (wd_fresh w), wd_files := g\<rparr>"
  have r: "ready (wd_files w) (?t # temps uuid (Suc (wd_fresh w)) as) (a # as)" using Cons.prems(2) by simp
  obtain s where s: "stageWrite uuid (aw_path a) (aw_data a) w = (Some s, ?w1)"
    using stageWrite_quiet [OF Cons.prems(1) refl, where p = "aw_path a" and d = "aw_data a" and uuid = uuid] r
    by (auto simp: ready_def g_def)
  have "ready g (temps uuid (Suc (wd_fresh w)) as) as" using ready_Cons [OF r] by (simp only: g_def)
  then have "\<exists>ss w'. stage_all uuid as ?w1 = ((ss, True), w') \<and> quiet w'"
    by (intro Cons.IH) (use Cons.prems(1) in simp_all)
  with s show ?case by auto
qed simp

lemma rename_quiet:
  assumes "quiet w" "wd_files w p = Some e" "plain (wd_files w q)"
  shows "renameSync p q w = (True, w\<lparr>wd_files := (wd_files w)(q \<mapsto> e, p := None)\<rparr>)"
  unfolding renameSync_def by (rule quiet_call) (use assms in \<open>auto simp: plain_def\<close>)

lemma replace_all_quiet:
  assumes "quiet w" "holds_temps (wd_files w) ts as" "map st_tmp ss = ts" "map st_target ss = map aw_path as"
  shows "\<exists>ss' w'. replace_all ss w = ((ss', True), w') \<and> quiet w'"
  using assms
proof (induction ss arbitrary: w ts as)
  case (Cons s ss)
  obtain t ts2 a as2 where e: "ts = t # ts2" "as = a # as2" "st_tmp s = t" "st_target s = aw_path a"
    "map st_tmp ss = ts2" "map st_target ss = map aw_path as2"
    using Cons.prems(3,4) by (cases ts; cases as) auto
  define g where "g = (wd_files w)(aw_path a \<mapsto> File (aw_data a), t := None)"
  let ?w1 = "w\<lparr>wd_files := g\<rparr>"
  note h = Cons.prems(2) [unfolded holds_temps_def e]
  have "renameSync t (aw_path a) w = (True, ?w1)"
    unfolding g_def by (rule rename_quiet) (use Cons.prems(1) h in auto)
  moreover have "sync_or_close ?w1 = (True, ?w1)"
    unfolding sync_or_close_def by (subst quiet_call [where g = g]) (use Cons.prems(1) in simp_all)
  moreover have "holds_temps g ts2 as2"
    using h by (auto simp: g_def holds_temps_def list_all_iff plain_def elim!: list.rel_mono_strong)
  then have "\<exists>ss' w'. replace_all ss ?w1 = ((ss', True), w') \<and> quiet w'"
    using Cons.IH [of ?w1 ts2 as2] Cons.prems(1) e by simp
  ultimately show ?case using e by auto
qed simp

lemma commit_quiet:
  assumes q: "quiet w" and r: "ready (wd_files w) (temps uuid (wd_fresh w) (as @ [m])) (as @ [m])"
    and m: "aw_path m \<notin> aw_path ` set as"
  shows "\<exists>v. commit_writes uuid as m w = (True, v) \<and> quiet v"
proof -
  define f where "f = wd_files w"
  define ts where "ts = temps uuid (wd_fresh w) as"
  define u where "u = temp_path (uuid (wd_fresh w + length as)) (aw_path m)"
  have tu: "temps uuid (wd_fresh w) (as @ [m]) = ts @ [u]" by (simp add: temps_append ts_def u_def)
  have l: "length ts = length as" by (simp add: ts_def)
  note r' = r [unfolded tu, folded f_def]
  note ra = ready_append [OF r' l]
  obtain ss w1 where s: "stage_all uuid as w = ((ss, True), w1)" "quiet w1"
    using stage_all_quiet [OF q, of uuid as] ra(1) by (auto simp: f_def ts_def)
  note S = stage_all_outcome [OF s(1) ts_def f_def ra(1), simplified]
  have wd: "wd_files w1 = f(ts [\<mapsto>] map (\<lambda>a. File (aw_data a)) as)" using S by simp
  have ut: "u = temp_path (uuid (wd_fresh w1)) (aw_path m)" using S by (simp add: u_def)
  have um: "wd_files w1 u = None" "wd_files w1 (path_dirname u) = Some Directory" "plain (wd_files w1 (aw_path m))"
    using ra(4,5,8,9) by (simp_all add: wd map_upds_other)
  obtain sm w2 where c2: "stageWrite uuid (aw_path m) (aw_data m) w1 = (Some sm, w2)" "quiet w2"
    using stageWrite_quiet [of w1 u uuid "aw_path m" "aw_data m", OF s(2) ut ra(3) um] s(2) by auto
  note O = stageWrite_outcome [OF c2(1) ut ra(3) refl um(3,1,2), simplified]
  have w2: "wd_files w2 = f(ts [\<mapsto>] map (\<lambda>a. File (aw_data a)) as, u \<mapsto> File (aw_data m))"
    using O by (simp add: wd)
  note sf = staged_files [OF w2 r' l]
  obtain ss' w3 where c3: "replace_all ss w2 = ((ss', True), w3)" "quiet w3"
    using replace_all_quiet [OF c2(2) sf(3), of ss] staged_map2 [OF l, of f] S by auto
  have fr: "wd_files w3 p = wd_files w2 p" if "p \<notin> set ts" "p \<notin> aw_path ` set as" for p
  proof (rule replace_all_frame [OF c3(1)])
    have "set (map st_tmp ss) = set ts" "set (map st_target ss) = aw_path ` set as"
      using staged_map2 [OF l, of f] S by simp_all
    with that show "p \<notin> st_tmp ` set ss" "p \<notin> st_target ` set ss" by simp_all
  qed
  have "wd_files w3 u = Some (File (aw_data m))" using fr [of u] ra(2,6) by (simp add: w2)
  moreover have "plain (wd_files w3 (aw_path m))"
    using fr [OF ra(5) m] um(3) ra(3) by (simp add: w2 wd)
  ultimately show ?thesis
    using s c2 c3 O rename_quiet [OF c3(2)] by (simp add: commit_writes_def staged_of_def)
qed

lemma replace_all_fresh: "replace_all ss w = ((ss', ok), w') \<Longrightarrow> wd_fresh w' = wd_fresh w"
proof (induction ss arbitrary: w ss')
  case (Cons s ss)
  obtain b1 w1 where c1: "renameSync (st_tmp s) (st_target s) w = (b1, w1)" by (metis prod.exhaust)
  obtain b2 w2 where c2: "sync_or_close w1 = (b2, w2)" by (metis prod.exhaust)
  have "wd_fresh w1 = wd_fresh w" "wd_fresh w2 = wd_fresh w1"
    using fs_call_fresh [OF c1 [unfolded renameSync_def]] fs_call_fresh [OF c2 [unfolded sync_or_close_def]] by simp_all
  with Cons c1 c2 show ?case by (auto split: bool.splits prod.splits)
qed simp

lemma commit_exact:
  assumes c: "commit_writes uuid as m w = (True, v)" and ts: "ts = temps uuid (wd_fresh w) (as @ [m])"
    and r: "ready (wd_files w) ts (as @ [m])" and m: "aw_path m \<notin> aw_path ` set as"
  shows "wd_files v = fold put (as @ [m]) (wd_files w)" "wd_fresh v = wd_fresh w + Suc (length as)"
proof -
  define us where "us = temps uuid (wd_fresh w) as"
  define u where "u = temp_path (uuid (wd_fresh w + length as)) (aw_path m)"
  have us: "ts = us @ [u]" "us = temps uuid (wd_fresh w) as" by (simp_all add: ts temps_append us_def u_def)
  have l: "length us = length as" by (simp add: us)
  note r' = r [unfolded us(1)]
  note ra = ready_append [OF r' l]
  have ag: "agree (insert u (set us)) (fold put (as @ [m]) (wd_files w)) (wd_files v)"
    using commit_outcome [OF c refl _ r' m] by (simp add: us(1) flip: ts)
  obtain ss w1 where s: "stage_all uuid as w = ((ss, True), w1)"
    using c by (auto simp: commit_writes_def split: prod.splits bool.splits)
  note S = stage_all_outcome [OF s us(2) refl ra(1), simplified]
  have ss: "ss = map2 (staged_of (wd_files w)) us as"
    and wd: "wd_files w1 = (wd_files w)(us [\<mapsto>] map (\<lambda>a. File (aw_data a)) as)"
    and ut: "u = temp_path (uuid (wd_fresh w1)) (aw_path m)" using S by (simp_all add: u_def)
  have um: "plain (wd_files w1 (aw_path m))" "wd_files w1 u = None" "wd_files w1 (path_dirname u) = Some Directory"
    using ra(4,5,8,9) by (simp_all add: wd map_upds_other)
  obtain sm w2 where c2: "stageWrite uuid (aw_path m) (aw_data m) w1 = (Some sm, w2)"
    using c s by (auto simp: commit_writes_def split: prod.splits bool.splits option.splits)
  have sm: "st_tmp sm = u \<and> st_target sm = aw_path m"
    using stageWrite_outcome [OF c2 ut ra(3) refl um] by (simp add: staged_of_def)
  obtain ss' w3 where c3: "replace_all ss w2 = ((ss', True), w3)"
    using c s c2 by (auto simp: commit_writes_def split: prod.splits bool.splits option.splits)
  have c4: "renameSync u (aw_path m) w3 = (True, v)"
    using c s c2 c3 sm by (auto simp: commit_writes_def split: prod.splits bool.splits option.splits)
  obtain e where v: "wd_files v = (wd_files w3)(aw_path m \<mapsto> e, u := None)"
    using rename_effect [OF c4] by auto
  have gone: "wd_files v t = None" if "t \<in> insert u (set us)" for t
  proof (cases "t = u")
    case False
    have "set (map st_tmp ss) = set us" "set (map st_target ss) = aw_path ` set as"
      using staged_map2 [OF l, of "wd_files w"] ss by simp_all
    then have "wd_files w3 t = None"
      using that False ra(7) by (intro replace_all_removes [OF c3]) auto
    moreover have "t \<noteq> aw_path m" using that False ra(5) by auto
    ultimately show ?thesis using False v by simp
  qed (simp add: v)
  have "fold put (as @ [m]) (wd_files w) t = None" if "t \<in> insert u (set us)" for t
  proof -
    have "t \<notin> aw_path ` set (as @ [m])" using that ra(3,5-7) by auto
    moreover have "wd_files w t = None" using that r' by (auto simp: ready_def list_all_iff)
    ultimately show ?thesis by (metis fold_put_other)
  qed
  with gone ag show "wd_files v = fold put (as @ [m]) (wd_files w)" by (intro ext) (metis agree_def)
  have "wd_fresh w2 = wd_fresh w + Suc (length as)"
    using S stageWrite_outcome [OF c2 ut ra(3) refl um] by simp
  then show "wd_fresh v = wd_fresh w + Suc (length as)"
    using replace_all_fresh [OF c3] fs_call_fresh [OF c4 [unfolded renameSync_def]] by simp
qed

section \<open>The transition\<close>

text \<open>Everything a transition writes, the manifest last.\<close>

definition transition_writes :: "js_lib \<Rightarrow> js_string \<Rightarrow> TransitionPlan \<Rightarrow> AssetWrite list" where
  "transition_writes L homeDir plan = tp_writes plan @ [manifest_write L homeDir (tp_candidate plan)]"

end
