(* ===== verification/Managed_Rollback.thy ===== *)
theory Managed_Rollback
  imports Managed_Transitions
begin

text \<open>
  An upgrade followed by a rollback (\<^verbatim>\<open>configurator/managed-config.ts\<close>): what the
  committed manifest is read back as, and which managed files hold which bytes afterwards.
\<close>

section \<open>A committed manifest is read back\<close>

definition composition_ok :: "js_lib \<Rightarrow> ManagedComposition \<Rightarrow> bool" where
  "composition_ok L c \<longleftrightarrow>
     is_sequence (mc_schemaVersion c) \<and> isSnapshot L (mc_current c) \<and>
     (mc_previous c = J_null \<or> isSnapshot L (mc_previous c))"

definition host_ok :: "js_string \<Rightarrow> DetectedHost \<Rightarrow> bool" where
  "host_ok homeDir h \<longleftrightarrow> path_normalize (dh_configDir h) = path_normalize (reDeriveHostConfigDir homeDir (dh_name h))"

definition manifest_ok :: "js_lib \<Rightarrow> js_string \<Rightarrow> InstallManifest \<Rightarrow> bool" where
  "manifest_ok L homeDir m \<longleftrightarrow>
     isSemver (im_version m) \<and> list_all (host_ok homeDir) (im_hosts m) \<and> list_all is_text (im_assets m) \<and>
     (case im_composition m of None \<Rightarrow> False | Some c \<Rightarrow> composition_ok L c)"

lemma host_of_text [simp]: "host_of (J_str (host_text h)) = Some h"
  by (cases h) (simp_all add: all_hosts_def)

lemma find_host [simp]: "find (\<lambda>g. host_text g = host_text h) all_hosts = Some h"
  by (cases h) (simp_all add: all_hosts_def)

lemma classify_host_value: "host_ok homeDir h \<Longrightarrow> classify_host homeDir (host_value h) = Inr h"
  by (simp add: classify_host_def host_value_def host_ok_def str_field_def)

lemma classify_host_ok: "classify_host homeDir v = Inr h \<Longrightarrow> host_ok homeDir h"
  by (auto simp: classify_host_def host_ok_def split: if_splits option.splits js_value.splits)

lemma validateComposition_ok: "validateComposition L v = Inr c \<Longrightarrow> composition_ok L c"
  by (auto simp: validateComposition_def composition_ok_def split: if_splits)

lemma validateComposition_value: "composition_ok L c \<Longrightarrow> validateComposition L (composition_value c) = Inr c"
  by (simp add: validateComposition_def composition_ok_def composition_value_def)

lemma array_elements_Some: "array_elements v = Some vs \<longleftrightarrow> v = J_arr vs"
  by (cases v) auto

lemma classify_shape:
  assumes "classifyManifest L v homeDir = State_current m"
  shows "\<exists>hs c. get_field v ''hosts'' = J_arr hs \<and> traverse (classify_host homeDir) hs = Inr (im_hosts m) \<and>
    get_field v ''assets'' = J_arr (im_assets m) \<and> list_all is_text (im_assets m) \<and>
    validateComposition L (get_field v ''composition'') = Inr c \<and> im_composition m = Some c \<and>
    isSemver (im_version m) \<and> im_version m = str_field v ''version'' \<and> im_installedAt m = str_field v ''installedAt''"
  using assms unfolding classifyManifest_def Let_def
  by (auto simp: array_elements_Some split: if_splits option.splits sum.splits)

lemma classify_ok: "classifyManifest L v homeDir = State_current m \<Longrightarrow> manifest_ok L homeDir m"
  using classify_shape [of L v homeDir m] validateComposition_ok traverse_mem classify_host_ok
  by (fastforce simp: manifest_ok_def list_all_iff)

lemma classify_manifest_value:
  assumes "manifest_ok L homeDir m"
  shows "classifyManifest L (manifest_value m) homeDir = State_current m"
proof -
  obtain c where c: "im_composition m = Some c" "composition_ok L c"
    using assms by (auto simp: manifest_ok_def split: option.splits)
  have "traverse (classify_host homeDir) (map host_value (im_hosts m)) = Inr (im_hosts m)"
    using assms by (auto simp: traverse_Inr_iff list.rel_map manifest_ok_def list_all_iff classify_host_value
      intro!: list.rel_refl_strong)
  moreover have "composition_value c \<noteq> J_undefined" by (simp add: composition_value_def)
  ultimately show ?thesis
    using assms c by (simp add: classifyManifest_def manifest_value_def manifest_ok_def str_field_def
      validateComposition_value)
qed

lemma classify_host_value_eq: "classify_host homeDir (host_value h) = Inr h' \<Longrightarrow> h' = h"
  by (auto simp: classify_host_def host_value_def str_field_def split: if_splits)

lemma classify_manifest_value_eq:
  assumes "classifyManifest L (manifest_value m) homeDir = State_current m'"
  shows "m' = m"
proof -
  obtain hs c where s: "get_field (manifest_value m) ''hosts'' = J_arr hs"
    "traverse (classify_host homeDir) hs = Inr (im_hosts m')"
    "get_field (manifest_value m) ''assets'' = J_arr (im_assets m')"
    "validateComposition L (get_field (manifest_value m) ''composition'') = Inr c" "im_composition m' = Some c"
    "im_version m' = str_field (manifest_value m) ''version''"
    "im_installedAt m' = str_field (manifest_value m) ''installedAt''"
    using classify_shape [OF assms] by blast
  have "im_hosts m' = im_hosts m"
  proof -
    have "list_all2 (\<lambda>h h'. classify_host homeDir (host_value h) = Inr h') (im_hosts m) (im_hosts m')"
      using s(1,2) by (auto simp: traverse_Inr_iff manifest_value_def list.rel_map)
    then have "list_all2 (=) (im_hosts m) (im_hosts m')"
      by (rule list.rel_mono_strong) (use classify_host_value_eq in metis)
    then show ?thesis by (simp add: list.rel_eq)
  qed
  moreover have "im_composition m = Some c"
  proof (cases "im_composition m")
    case None
    with s(4) show ?thesis by (simp add: manifest_value_def validateComposition_def)
  next
    case (Some d)
    with s(4) show ?thesis
      by (auto simp: manifest_value_def validateComposition_def composition_value_def split: if_splits)
  qed
  ultimately show ?thesis using s by (simp add: manifest_value_def str_field_def)
qed

lemma candidate_ok_iff:
  "candidate_ok L homeDir m \<longleftrightarrow> manifest_ok L homeDir m \<and>
     (case im_composition m of None \<Rightarrow> False | Some c \<Rightarrow> im_version m = version_text (mc_current c))"
proof
  assume a: "candidate_ok L homeDir m"
  then obtain m' where c: "classifyManifest L (manifest_value m) homeDir = State_current m'"
    by (auto simp: candidate_ok_def split: managed_state.splits)
  moreover have "m' = m" using classify_manifest_value_eq [OF c] .
  ultimately show "manifest_ok L homeDir m \<and>
     (case im_composition m of None \<Rightarrow> False | Some c \<Rightarrow> im_version m = version_text (mc_current c))"
    using a classify_ok [OF c] by (simp add: candidate_ok_def)
qed (simp add: candidate_ok_def classify_manifest_value)

section \<open>What a plan writes\<close>

definition content_of :: "js_value \<Rightarrow> HostName \<Rightarrow> ManagedAssetName \<Rightarrow> js_string" where
  "content_of snapshot h a = (if a = Pin then pin_content snapshot h else asset_content snapshot a)"

text \<open>The managed files a transition considers.\<close>

definition host_files :: "file_map \<Rightarrow> js_string \<Rightarrow> js_value \<Rightarrow> js_value \<Rightarrow> DetectedHost \<Rightarrow> (HostName \<times> ManagedAssetName) list" where
  "host_files files homeDir current target h =
     (if \<not> dh_present h \<or> \<not> existsSync files (reDeriveHostConfigDir homeDir (dh_name h)) then []
      else [(dh_name h, Marker), (dh_name h, Skills)] @
        (if pin_of current (dh_name h) = J_undefined \<or> pin_of target (dh_name h) = J_undefined then []
         else [(dh_name h, Pin)]))"

definition managed_files ::
    "file_map \<Rightarrow> js_string \<Rightarrow> InstallManifest \<Rightarrow> js_value \<Rightarrow> js_value \<Rightarrow> (HostName \<times> ManagedAssetName) list" where
  "managed_files files homeDir m current target = concat (map (host_files files homeDir current target) (im_hosts m))"

definition changes :: "file_map \<Rightarrow> js_string \<Rightarrow> js_value \<Rightarrow> HostName \<times> ManagedAssetName \<Rightarrow> bool" where
  "changes files homeDir current = (\<lambda>(h, a).
     files (asset_path homeDir h a) = None \<or> files (asset_path homeDir h a) = Some (File (content_of current h a)))"

definition asset_write :: "js_string \<Rightarrow> js_value \<Rightarrow> HostName \<times> ManagedAssetName \<Rightarrow> AssetWrite" where
  "asset_write homeDir target = (\<lambda>(h, a). \<lparr>aw_path = asset_path homeDir h a, aw_data = content_of target h a\<rparr>)"

lemma plan_file_writes:
  "fst (plan_file files h a (asset_path homeDir h a) (content_of current h a) (content_of target h a)) =
     map (asset_write homeDir target) (filter (changes files homeDir current) [(h, a)])"
  by (auto simp: plan_file_def changes_def asset_write_def existsSync_def readFileSync_def Let_def
    split: option.splits fs_entry.splits)

lemma plan_host_writes:
  assumes "host_ok homeDir h"
  shows "\<exists>rs. plan_host files homeDir current target h =
    Inr (map (asset_write homeDir target) (filter (changes files homeDir current) (host_files files homeDir current target h)), rs)"
proof -
  note w = plan_file_writes [of files "dh_name h" _ homeDir current target]
  have c: "asset_content s Marker = content_of s (dh_name h) Marker" "asset_content s Skills = content_of s (dh_name h) Skills"
    "pin_content s (dh_name h) = content_of s (dh_name h) Pin" for s by (simp_all add: content_of_def)
  show ?thesis
    using assms w [of Marker] w [of Skills] w [of Pin]
    by (auto simp: plan_host_def host_ok_def host_files_def Let_def both_def c simp flip: asset_path_def
      simp del: ASSET_FILENAMES.simps)
qed

lemma plan_writes:
  assumes "list_all (host_ok homeDir) (im_hosts m)"
  shows "\<exists>rs. planAssetTransitions files m homeDir current target =
    Inr (map (asset_write homeDir target) (filter (changes files homeDir current)
      (managed_files files homeDir m current target)), rs)"
proof -
  have "\<exists>parts. traverse (plan_host files homeDir current target) hs = Inr parts \<and>
      concat (map fst parts) = map (asset_write homeDir target) (filter (changes files homeDir current)
        (concat (map (host_files files homeDir current target) hs)))"
    if "list_all (host_ok homeDir) hs" for hs
    using that
  proof (induction hs)
    case (Cons h hs)
    then show ?case using plan_host_writes [of homeDir h files current target] by force
  qed simp
  from this [OF assms] show ?thesis by (auto simp: planAssetTransitions_def managed_files_def)
qed

section \<open>What a transition does to the managed files\<close>

text \<open>The managed file a path is, among those considered.\<close>

definition slot :: "js_string \<Rightarrow> (HostName \<times> ManagedAssetName) list \<Rightarrow> js_string \<Rightarrow> (HostName \<times> ManagedAssetName) option" where
  "slot homeDir M p = find (\<lambda>(h, a). asset_path homeDir h a = p) M"

definition moved ::
    "(HostName \<times> ManagedAssetName) list \<Rightarrow> js_string \<Rightarrow> js_value \<Rightarrow> js_value \<Rightarrow> file_map \<Rightarrow> file_map" where
  "moved M homeDir current target files p =
     (case slot homeDir M p of
        None \<Rightarrow> files p
      | Some (h, a) \<Rightarrow>
          if changes files homeDir current (h, a) then Some (File (content_of target h a)) else files p)"

lemma slot_asset [simp]: "slot homeDir M (asset_path homeDir h a) = (if (h, a) \<in> set M then Some (h, a) else None)"
  by (induction M) (auto simp: slot_def asset_path_inject)

lemma slot_other: "(\<And>h a. p \<noteq> asset_path homeDir h a) \<Longrightarrow> slot homeDir M p = None"
  by (induction M) (auto simp: slot_def)

lemma slot_filter:
  "slot homeDir (filter P M) p = (case slot homeDir M p of None \<Rightarrow> None | Some x \<Rightarrow> if P x then Some x else None)"
proof (cases "\<exists>h a. p = asset_path homeDir h a")
  case True
  then obtain h a where "p = asset_path homeDir h a" by auto
  then show ?thesis by simp
next
  case False
  then have "slot homeDir N p = None" for N by (intro slot_other) auto
  then show ?thesis by simp
qed

lemma fold_put_assets:
  "fold put (map (asset_write homeDir target) xs) files p =
     (case slot homeDir xs p of None \<Rightarrow> files p | Some (h, a) \<Rightarrow> Some (File (content_of target h a)))"
proof (cases "\<exists>h a. p = asset_path homeDir h a")
  case True
  then obtain h a where p: "p = asset_path homeDir h a" by auto
  show ?thesis unfolding p
    by (induction xs arbitrary: files) (auto simp: asset_write_def put_def asset_path_inject)
next
  case False
  then have "p \<notin> aw_path ` set (map (asset_write homeDir target) xs)" by (fastforce simp: asset_write_def)
  moreover have "slot homeDir xs p = None" using False by (intro slot_other) auto
  ultimately show ?thesis by (simp add: fold_put_other)
qed

lemma plan_effect:
  "fold put (map (asset_write homeDir target) (filter (changes files homeDir current) M)) files =
     moved M homeDir current target files"
  by (intro ext) (auto simp: fold_put_assets slot_filter moved_def split: option.splits)

lemma moved_dir [simp]:
  "moved M homeDir current target files (reDeriveHostConfigDir homeDir h) = files (reDeriveHostConfigDir homeDir h)"
proof -
  have "slot homeDir M (reDeriveHostConfigDir homeDir h) = None"
    by (rule slot_other) (use asset_not_host_dir(1) in metis)
  then show ?thesis by (simp add: moved_def)
qed

lemma managed_files_after:
  assumes "g = (moved M homeDir current target files)(managedManifestPath homeDir \<mapsto> e)" "im_hosts m' = im_hosts m"
  shows "managed_files g homeDir m' target current = managed_files files homeDir m current target"
proof -
  have "g (reDeriveHostConfigDir homeDir h) = files (reDeriveHostConfigDir homeDir h)" for h
    using asset_not_host_dir(2) [of homeDir h] by (simp add: assms(1))
  then have "host_files g homeDir target current = host_files files homeDir current target"
    by (intro ext) (auto simp: host_files_def existsSync_def)
  then show ?thesis by (simp add: managed_files_def assms(2))
qed

text \<open>A managed file after a transition and its way back.\<close>

definition round_trip ::
    "(HostName \<times> ManagedAssetName) list \<Rightarrow> js_string \<Rightarrow> js_value \<Rightarrow> js_value \<Rightarrow> file_map \<Rightarrow> file_map" where
  "round_trip M homeDir current target files p =
     (case slot homeDir M p of
        None \<Rightarrow> files p
      | Some (h, a) \<Rightarrow>
          if files p = None \<or> files p = Some (File (content_of current h a)) \<or> files p = Some (File (content_of target h a))
          then Some (File (content_of current h a)) else files p)"

lemma moved_back:
  assumes "g = (moved M homeDir current target files)(managedManifestPath homeDir \<mapsto> e)"
  shows "(moved M homeDir target current g)(managedManifestPath homeDir \<mapsto> e') =
    (round_trip M homeDir current target files)(managedManifestPath homeDir \<mapsto> e')"
proof
  fix p
  show "((moved M homeDir target current g)(managedManifestPath homeDir \<mapsto> e')) p =
    ((round_trip M homeDir current target files)(managedManifestPath homeDir \<mapsto> e')) p"
  proof (cases "\<exists>h a. p = asset_path homeDir h a")
    case True
    then obtain h a where "p = asset_path homeDir h a" by auto
    then show ?thesis using asset_not_manifest [of homeDir h a]
      by (auto simp: assms moved_def round_trip_def changes_def)
  next
    case False
    then have "slot homeDir M p = None" by (intro slot_other) auto
    then show ?thesis by (simp add: assms moved_def round_trip_def)
  qed
qed

section \<open>Committed plans\<close>

definition parse_law :: "js_lib \<Rightarrow> (js_string \<Rightarrow> js_value option) \<Rightarrow> InstallManifest \<Rightarrow> bool" where
  "parse_law L parse m \<longleftrightarrow> parse (json_pretty (lib_number L) 0 (manifest_value m)) = Some (manifest_value m)"

definition manifest_file :: "js_lib \<Rightarrow> InstallManifest \<Rightarrow> fs_entry" where
  "manifest_file L m = File (json_pretty (lib_number L) 0 (manifest_value m))"

lemma read_committed:
  assumes "files (managedManifestPath homeDir) = Some (manifest_file L m)" "parse_law L parse m" "manifest_ok L homeDir m"
  shows "readManagedState L parse files homeDir = State_current m"
  using assms by (simp add: readManagedState_def existsSync_def readFileSync_def manifest_file_def parse_law_def
    classify_manifest_value)

text \<open>The plan between two snapshots.\<close>

lemma real_plan_shape:
  assumes "real_plan status files homeDir m current target previous = Inr p" "list_all (host_ok homeDir) (im_hosts m)"
  shows "tp_status p = status \<and>
    tp_writes p = map (asset_write homeDir target) (filter (changes files homeDir current)
      (managed_files files homeDir m current target)) \<and>
    tp_candidate p = m\<lparr>im_version := version_text target, im_composition := Some \<lparr>mc_schemaVersion =
      COMPOSITION_SCHEMA_VERSION, mc_current = target, mc_previous = previous\<rparr>\<rparr>"
  using assms(1) plan_writes [OF assms(2), of files current target] by (auto simp: real_plan_def)

lemma real_plan_exists:
  "list_all (host_ok homeDir) (im_hosts m) \<Longrightarrow> \<exists>p. real_plan status files homeDir m current target previous = Inr p"
  using plan_writes [of homeDir m files current target] by (auto simp: real_plan_def)

lemma planned_not_manifest:
  "managedManifestPath homeDir \<notin> aw_path ` set (map (asset_write homeDir target) xs)"
  using asset_not_manifest [of homeDir] by (fastforce simp: asset_write_def)

lemma commit_real_plan:
  assumes p: "real_plan status (wd_files w) homeDir m current target previous = Inr p" "status \<noteq> Unchanged"
    and h: "list_all (host_ok homeDir) (im_hosts m)"
    and r: "as = transition_writes L homeDir p" "ready (wd_files w) (temps uuid (wd_fresh w) as) as"
  shows "commitTransition L uuid homeDir p w = (Committed, v) \<Longrightarrow>
      candidate_ok L homeDir (tp_candidate p) \<and>
      wd_files v = (moved (managed_files (wd_files w) homeDir m current target) homeDir current target (wd_files w))
        (managedManifestPath homeDir \<mapsto> manifest_file L (tp_candidate p)) \<and>
      wd_fresh v = wd_fresh w + length as"
    and "quiet w \<Longrightarrow> candidate_ok L homeDir (tp_candidate p) \<Longrightarrow>
      \<exists>v. commitTransition L uuid homeDir p w = (Committed, v) \<and> quiet v"
proof -
  note s = real_plan_shape [OF p(1) h]
  let ?m = "manifest_write L homeDir (tp_candidate p)"
  have as: "as = tp_writes p @ [?m]" by (simp add: r transition_writes_def)
  have mp: "aw_path ?m \<notin> aw_path ` set (tp_writes p)"
    using s planned_not_manifest by (simp add: manifest_write_def del: list.set_map set_filter)
  obtain b x where c: "commit_writes uuid (tp_writes p) ?m w = (b, x)" by (metis prod.exhaust)
  have e: "commitTransition L uuid homeDir p w =
      (if \<not> candidate_ok L homeDir (tp_candidate p) then (Refused, w) else (if b then Committed else Io_error, x))"
    using s p(2) c by (simp add: commitTransition_def)
  show "candidate_ok L homeDir (tp_candidate p) \<and>
      wd_files v = (moved (managed_files (wd_files w) homeDir m current target) homeDir current target (wd_files w))
        (managedManifestPath homeDir \<mapsto> manifest_file L (tp_candidate p)) \<and>
      wd_fresh v = wd_fresh w + length as"
    if "commitTransition L uuid homeDir p w = (Committed, v)"
  proof -
    have b: "b" "x = v" "candidate_ok L homeDir (tp_candidate p)" using that e by (auto split: if_splits)
    have cb: "commit_writes uuid (tp_writes p) ?m w = (True, v)" using c b by simp
    note ce = commit_exact [OF cb refl r(2) [unfolded as] mp]
    have "wd_files v = fold put as (wd_files w)" unfolding as by (rule ce(1))
    also have "\<dots> = put ?m (fold put (tp_writes p) (wd_files w))" by (simp add: as)
    finally show ?thesis using b(3) s ce(2) by (simp add: as plan_effect put_def manifest_write_def manifest_file_def)
  qed
  show "\<exists>v. commitTransition L uuid homeDir p w = (Committed, v) \<and> quiet v"
    if "quiet w" "candidate_ok L homeDir (tp_candidate p)"
    using commit_quiet [OF that(1) r(2) [unfolded as] mp] c e that(2) by auto
qed

section \<open>An upgrade and its rollback\<close>

lemma classify_legacy: "classifyManifest L v homeDir = State_legacy m \<Longrightarrow> im_composition m = None"
  by (auto simp: classifyManifest_def Let_def split: if_splits option.splits sum.splits)

lemma read_cases:
  assumes "readManagedState L parse files homeDir = s"
  shows "case s of State_current m \<Rightarrow> manifest_ok L homeDir m | State_legacy m \<Rightarrow> im_composition m = None | _ \<Rightarrow> True"
  using assms by (auto simp: readManagedState_def Let_def classify_ok classify_legacy
    split: if_splits option.splits managed_state.splits)

lemma upgrade_cases:
  assumes "planUpgrade L parse files homeDir version packaged now = Inr p" "tp_status p \<noteq> Unchanged"
  shows "\<exists>m c. readManagedState L parse files homeDir = State_current m \<and> im_composition m = Some c \<and>
    manifest_ok L homeDir m \<and> pinsComplete m (mc_current c) \<and> version_text (mc_current c) \<noteq> version \<and>
    real_plan Upgraded files homeDir m (mc_current c) (upgrade_target L m (mc_current c) version now) (mc_current c) = Inr p"
proof -
  obtain m where m: "manifest_of (readManagedState L parse files homeDir) = Some m"
    using assms(1) by (auto simp: planUpgrade_def split: option.splits)
  obtain h where h: "hydrateCurrentSnapshot L files m homeDir False = Inr h" "hy_pinsAvailable h"
    "version_text (hy_snapshot h) \<noteq> version"
    "real_plan Upgraded files homeDir m (hy_snapshot h) (upgrade_target L m (hy_snapshot h) version now) (hy_snapshot h) = Inr p"
    using assms m by (auto simp: planUpgrade_def Let_def unchanged_plan_def split: sum.splits if_splits)
  obtain c where c: "im_composition m = Some c" "hy_snapshot h = mc_current c" "pinsComplete m (mc_current c)"
    using h(1,2) by (auto simp: hydrateCurrentSnapshot_def Let_def split: option.splits if_splits)
  have "readManagedState L parse files homeDir = State_current m"
    using m read_cases [of L parse files homeDir, OF refl] c(1)
    by (cases "readManagedState L parse files homeDir") auto
  with h c read_cases [of L parse files homeDir, OF refl] show ?thesis by auto
qed

lemma get_field_update [simp]:
  "get_field (J_obj (AList.update k v fs)) k' = (if k = k' then v else get_field (J_obj fs) k')"
  by (simp add: update_conv')

lemma host_text_inject [simp]: "host_text g = host_text h \<longleftrightarrow> g = h"
  by (cases g; cases h) auto

lemma packaged_pins_complete:
  "pinsComplete m (snapshot_value version sequence activatedAt marker skills (packagePinnedComposition L m))"
proof -
  let ?step = "\<lambda>h entries. if dh_present h then AList.update (host_text (dh_name h)) (managedHostPin L (dh_name h)) entries else entries"
  have "get_field (J_obj (fold ?step hs es)) (host_text n) \<noteq> J_undefined"
    if "(\<exists>h \<in> set hs. dh_present h \<and> dh_name h = n) \<or> get_field (J_obj es) (host_text n) \<noteq> J_undefined" for hs es n
    using that
  proof (induction hs arbitrary: es)
    case (Cons h hs)
    have "managedHostPin L (dh_name h) \<noteq> J_undefined" by (simp add: managedHostPin_def)
    with Cons.prems show ?case
      unfolding fold.simps o_apply by (intro Cons.IH) (auto simp del: get_field.simps)
  qed simp
  then show ?thesis
    by (auto simp: pinsComplete_def pin_of_def snapshot_value_def packagePinnedComposition_def list_all_iff
      simp del: fold_simps)
qed

lemma same_assets_refl:
  assumes "isSnapshot L s"
  shows "sameManagedAssets s s"
proof (cases "get_field s ''pinnedComposition'' = J_undefined")
  case True
  then show ?thesis by (simp add: sameManagedAssets_def samePinnedComposition_def)
next
  case False
  then have "isPinnedComposition L (get_field s ''pinnedComposition'')" using assms by (simp add: isSnapshot_def Let_def split: if_splits)
  then obtain fs where "get_field s ''pinnedComposition'' = J_obj fs" "list_all (\<lambda>(k, e). pin_entry_ok L k e) fs"
    by (cases "get_field s ''pinnedComposition''") auto
  moreover have "isHostName (J_str k)" if "pin_entry_ok L k e" for k e
    using that by (auto simp: pin_entry_ok_def isHostName_def split: option.splits)
  ultimately show ?thesis
    by (auto simp: sameManagedAssets_def samePinnedComposition_def Let_def list_all_iff)
qed

definition rolled_back :: "InstallManifest \<Rightarrow> js_value \<Rightarrow> InstallManifest" where
  "rolled_back m snapshot =
     m\<lparr>im_version := version_text snapshot, im_composition := Some \<lparr>mc_schemaVersion = COMPOSITION_SCHEMA_VERSION,
       mc_current = snapshot, mc_previous = snapshot\<rparr>\<rparr>"

lemma pinsComplete_hosts: "im_hosts m' = im_hosts m \<Longrightarrow> pinsComplete m' s = pinsComplete m s"
  by (simp add: pinsComplete_def)

lemma rollback_again:
  assumes "readManagedState L parse files homeDir = State_current (rolled_back m s)" "isSnapshot L s" "pinsComplete m s"
  shows "planRollback L parse files homeDir =
    Inr (unchanged_plan (version_text s) (version_text s) (rolled_back m s))"
proof -
  have "pinsComplete (rolled_back m s) s" using assms(3) pinsComplete_hosts [of "rolled_back m s" m] by (simp add: rolled_back_def)
  moreover have "s \<noteq> J_null" using assms(2) by (auto simp: isSnapshot_def)
  ultimately show ?thesis
    using assms(1) same_assets_refl [OF assms(2)] by (simp add: planRollback_def rolled_back_def Let_def)
qed

lemma rollback_after_upgrade:
  assumes "readManagedState L parse files homeDir = State_current m'" "im_composition m' = Some c"
    and "mc_previous c = s" "isSnapshot L s" "version_text (mc_current c) \<noteq> version_text s"
    and "pinsComplete m' (mc_current c)" "pinsComplete m' s"
  shows "planRollback L parse files homeDir = real_plan Rolled_back files homeDir m' (mc_current c) s s"
proof -
  have "s \<noteq> J_null" using assms(4) by (auto simp: isSnapshot_def)
  with assms show ?thesis by (simp add: planRollback_def Let_def)
qed

lemma snapshot_version: "isSnapshot L s \<Longrightarrow> isSemver (version_text s)"
  by (auto simp: isSnapshot_def Let_def version_text_def split: if_splits)

text \<open>The plan of a rollback after a committed upgrade, and what its commit gives.\<close>

lemma upgrade_committed:
  assumes up: "planUpgrade L parse (wd_files w) homeDir version packaged now = Inr up" "tp_status up \<noteq> Unchanged"
    and m: "readManagedState L parse (wd_files w) homeDir = State_current m" "im_composition m = Some c"
    and s: "s = mc_current c" "t = upgrade_target L m s version now"
    and c1: "quiet w" "commitTransition L uuid homeDir up w = (Committed, w1)"
    and r1: "ready (wd_files w) (temps uuid (wd_fresh w) as) as" "as = transition_writes L homeDir up"
    and law: "parse_law L parse (tp_candidate up)"
  shows "quiet w1 \<and> list_all (host_ok homeDir) (im_hosts m) \<and> pinsComplete m s \<and> isSnapshot L s \<and>
      manifest_ok L homeDir (rolled_back m s)"
    and "\<exists>e. wd_files w1 = (moved (managed_files (wd_files w) homeDir m s t) homeDir s t (wd_files w))
      (managedManifestPath homeDir \<mapsto> e)"
    and "\<exists>m1. planRollback L parse (wd_files w1) homeDir = real_plan Rolled_back (wd_files w1) homeDir m1 t s s \<and>
      im_hosts m1 = im_hosts m \<and> m1\<lparr>im_version := version_text s, im_composition := Some \<lparr>mc_schemaVersion =
        COMPOSITION_SCHEMA_VERSION, mc_current = s, mc_previous = s\<rparr>\<rparr> = rolled_back m s"
proof -
  have ok: "manifest_ok L homeDir m" and pins: "pinsComplete m s" and v: "version_text s \<noteq> version"
    and plan: "real_plan Upgraded (wd_files w) homeDir m s t s = Inr up"
    using upgrade_cases [OF up] m s by auto
  have h: "list_all (host_ok homeDir) (im_hosts m)" and sn: "isSnapshot L s"
    using ok m(2) s by (simp_all add: manifest_ok_def composition_ok_def)
  have tv: "version_text t = version" by (simp add: s upgrade_target_def snapshot_value_def version_text_def str_field_def)
  let ?m1 = "tp_candidate up"
  have st: "Upgraded \<noteq> Unchanged" by simp
  note cp = commit_real_plan [OF plan st h r1(2,1)]
  have f1: "candidate_ok L homeDir ?m1" "wd_files w1 = (moved (managed_files (wd_files w) homeDir m s t) homeDir s t (wd_files w))
      (managedManifestPath homeDir \<mapsto> manifest_file L ?m1)"
    using cp(1) [OF c1(2)] by auto
  then show "\<exists>e. wd_files w1 = (moved (managed_files (wd_files w) homeDir m s t) homeDir s t (wd_files w))
      (managedManifestPath homeDir \<mapsto> e)" by metis
  have m1: "?m1 = m\<lparr>im_version := version, im_composition := Some \<lparr>mc_schemaVersion = COMPOSITION_SCHEMA_VERSION,
      mc_current = t, mc_previous = s\<rparr>\<rparr>"
    using real_plan_shape [OF plan h] tv by simp
  have ok1: "manifest_ok L homeDir ?m1" using f1(1) by (simp add: candidate_ok_iff)
  then have "manifest_ok L homeDir (rolled_back m s)"
    using sn snapshot_version [OF sn] by (simp add: manifest_ok_def m1 rolled_back_def composition_ok_def)
  with cp(2) [OF c1(1) f1(1)] c1(2) h pins sn
  show "quiet w1 \<and> list_all (host_ok homeDir) (im_hosts m) \<and> pinsComplete m s \<and> isSnapshot L s \<and>
      manifest_ok L homeDir (rolled_back m s)" by auto
  have "readManagedState L parse (wd_files w1) homeDir = State_current ?m1"
    by (rule read_committed [OF _ law ok1]) (simp add: f1(2))
  then have "planRollback L parse (wd_files w1) homeDir = real_plan Rolled_back (wd_files w1) homeDir ?m1 t s s"
    using rollback_after_upgrade [of L parse "wd_files w1" homeDir ?m1] m1 sn pins tv v
      packaged_pins_complete [of m] pinsComplete_hosts [of ?m1 m] by (simp add: s(2) upgrade_target_def)
  then show "\<exists>m1. planRollback L parse (wd_files w1) homeDir = real_plan Rolled_back (wd_files w1) homeDir m1 t s s \<and>
      im_hosts m1 = im_hosts m \<and> m1\<lparr>im_version := version_text s, im_composition := Some \<lparr>mc_schemaVersion =
        COMPOSITION_SCHEMA_VERSION, mc_current = s, mc_previous = s\<rparr>\<rparr> = rolled_back m s"
    by (intro exI [of _ ?m1]) (simp add: m1 rolled_back_def)
qed

text \<open>C31:
  After a committed upgrade the rollback is always planned; its commit succeeds, gives every managed
  file its previous bytes (a missing file is created; a file with other bytes than the two recorded
  versions is kept), and records the previous snapshot. A further rollback is an unchanged plan.
\<close>

theorem rollback_undoes_the_upgrade:
  assumes up: "planUpgrade L parse (wd_files w) homeDir version packaged now = Inr up" "tp_status up \<noteq> Unchanged"
    and m: "readManagedState L parse (wd_files w) homeDir = State_current m" "im_composition m = Some c"
    and s: "s = mc_current c" "t = upgrade_target L m s version now"
    and c1: "quiet w" "commitTransition L uuid homeDir up w = (Committed, w1)"
    and r1: "ready (wd_files w) (temps uuid (wd_fresh w) as) as" "as = transition_writes L homeDir up"
    and law: "parse_law L parse (tp_candidate up)" "parse_law L parse (rolled_back m s)"
  shows "\<exists>down. planRollback L parse (wd_files w1) homeDir = Inr down \<and> tp_status down = Rolled_back \<and>
    (let bs = transition_writes L homeDir down
     in ready (wd_files w1) (temps uuid (wd_fresh w1) bs) bs \<longrightarrow>
        (\<exists>w2. commitTransition L uuid homeDir down w1 = (Committed, w2) \<and>
          wd_files w2 = (round_trip (managed_files (wd_files w) homeDir m s t) homeDir s t (wd_files w))
            (managedManifestPath homeDir \<mapsto> manifest_file L (rolled_back m s)) \<and>
          readManagedState L parse (wd_files w2) homeDir = State_current (rolled_back m s) \<and>
          planRollback L parse (wd_files w2) homeDir =
            Inr (unchanged_plan (version_text s) (version_text s) (rolled_back m s))))"
proof -
  let ?M = "managed_files (wd_files w) homeDir m s t"
  note U = upgrade_committed [OF up m s c1 r1 law(1)]
  obtain e where f1: "wd_files w1 = (moved ?M homeDir s t (wd_files w))(managedManifestPath homeDir \<mapsto> e)" using U(2) by auto
  obtain m1 where m1: "planRollback L parse (wd_files w1) homeDir = real_plan Rolled_back (wd_files w1) homeDir m1 t s s"
    "im_hosts m1 = im_hosts m" "m1\<lparr>im_version := version_text s, im_composition := Some \<lparr>mc_schemaVersion =
        COMPOSITION_SCHEMA_VERSION, mc_current = s, mc_previous = s\<rparr>\<rparr> = rolled_back m s" using U(3) by auto
  have h1: "list_all (host_ok homeDir) (im_hosts m1)" using U(1) m1(2) by simp
  obtain down where down: "real_plan Rolled_back (wd_files w1) homeDir m1 t s s = Inr down"
    using real_plan_exists [OF h1] by metis
  have d: "tp_status down = Rolled_back" "tp_candidate down = rolled_back m s"
    using real_plan_shape [OF down h1] m1(3) by simp_all
  have st: "Rolled_back \<noteq> Unchanged" by simp
  show ?thesis
  proof (unfold Let_def, intro exI [of _ down] conjI impI)
    show "planRollback L parse (wd_files w1) homeDir = Inr down" using m1(1) down by simp
    show "tp_status down = Rolled_back" by (rule d(1))
    assume r2: "ready (wd_files w1) (temps uuid (wd_fresh w1) (transition_writes L homeDir down))
      (transition_writes L homeDir down)"
    note cq = commit_real_plan [OF down st h1 refl r2]
    have "candidate_ok L homeDir (tp_candidate down)"
      using U(1) by (simp add: candidate_ok_iff d rolled_back_def)
    then obtain w2 where w2: "commitTransition L uuid homeDir down w1 = (Committed, w2)" using cq(2) U(1) by auto
    have f2: "wd_files w2 = (round_trip ?M homeDir s t (wd_files w))
        (managedManifestPath homeDir \<mapsto> manifest_file L (rolled_back m s))"
      using cq(1) [OF w2] moved_back [OF f1] managed_files_after [OF f1 m1(2)] by (simp add: d(2))
    have read: "readManagedState L parse (wd_files w2) homeDir = State_current (rolled_back m s)"
      using U(1) by (intro read_committed [OF _ law(2)]) (simp_all add: f2)
    with w2 f2 U(1) rollback_again [OF read] show "\<exists>w2. commitTransition L uuid homeDir down w1 = (Committed, w2) \<and>
        wd_files w2 = (round_trip ?M homeDir s t (wd_files w))
          (managedManifestPath homeDir \<mapsto> manifest_file L (rolled_back m s)) \<and>
        readManagedState L parse (wd_files w2) homeDir = State_current (rolled_back m s) \<and>
        planRollback L parse (wd_files w2) homeDir = Inr (unchanged_plan (version_text s) (version_text s) (rolled_back m s))"
      by blast
  qed
qed

text \<open>C30:
  A transition is refused exactly when its candidate manifest is invalid, and then changes nothing.
  Without faults it commits. A commit that returns has written its files and the manifest and left no
  temporary file. One that fails keeps the manifest, whatever fails, and with at most one fault it
  keeps every file outside its temporary files.
\<close>

theorem transition_commits_all_or_nothing:
  assumes "tp_status plan \<noteq> Unchanged" "as = transition_writes L homeDir plan"
    and "ready (wd_files w) (temps uuid (wd_fresh w) as) as"
    and "managedManifestPath homeDir \<notin> aw_path ` set (tp_writes plan)"
  shows "(fst (commitTransition L uuid homeDir plan w) = Refused) = (\<not> candidate_ok L homeDir (tp_candidate plan)) \<and>
    (quiet w \<and> candidate_ok L homeDir (tp_candidate plan) \<longrightarrow> fst (commitTransition L uuid homeDir plan w) = Committed) \<and>
    (case commitTransition L uuid homeDir plan w of
       (Committed, v) \<Rightarrow> wd_files v = fold put as (wd_files w)
     | (Refused, v) \<Rightarrow> v = w
     | (Io_error, v) \<Rightarrow>
         wd_files v (managedManifestPath homeDir) = wd_files w (managedManifestPath homeDir) \<and>
         (one_fault w \<longrightarrow> agree (set (temps uuid (wd_fresh w) as)) (wd_files w) (wd_files v)))"
proof -
  let ?m = "manifest_write L homeDir (tp_candidate plan)" and ?ws = "tp_writes plan"
  have as: "as = ?ws @ [?m]" and mp: "aw_path ?m = managedManifestPath homeDir"
    by (simp_all add: assms(2) transition_writes_def manifest_write_def)
  have m: "aw_path ?m \<notin> aw_path ` set ?ws" using assms(4) mp by simp
  obtain b v where c: "commit_writes uuid ?ws ?m w = (b, v)" by (metis prod.exhaust)
  obtain us u where us: "us @ [u] = temps uuid (wd_fresh w) (?ws @ [?m])" by (simp add: temps_append)
  note r = assms(3) [unfolded as]
  have "wd_files v = fold put as (wd_files w)" if b
    using commit_exact [OF _ refl r m, of v] c that by (simp add: as)
  moreover have "if b then True else wd_files v (managedManifestPath homeDir) = wd_files w (managedManifestPath homeDir) \<and>
      (one_fault w \<longrightarrow> agree (set (temps uuid (wd_fresh w) as)) (wd_files w) (wd_files v))"
    using commit_outcome [OF c refl us r [folded us] m] mp by (auto simp: as simp flip: us)
  moreover have "quiet w \<longrightarrow> b" using commit_quiet [OF _ r m] c by auto
  ultimately show ?thesis using assms(1) c by (auto simp: commitTransition_def)
qed

section \<open>A home with one host\<close>

definition host_lib :: js_lib where
  "host_lib = \<lparr>lib_sha256 = (\<lambda>_. replicate 64 (CHR ''0'')), lib_compare = (\<lambda>_ _. 0), lib_parse = (\<lambda>_. None),
     lib_number = (\<lambda>_. [])\<rparr>"

definition home_snapshot :: js_value where
  "home_snapshot = snapshot_value ''1.0.0'' (J_num (Fin 0)) ''t'' (hashManagedAsset host_lib ''m'')
     (hashManagedAsset host_lib ''s'') (J_obj [(''codex'', managedHostPin host_lib Codex)])"

definition home_manifest :: InstallManifest where
  "home_manifest = \<lparr>im_version = ''1.0.0'', im_installedAt = ''t'',
     im_hosts = [\<lparr>dh_name = Codex, dh_configDir = ''/h/.codex'', dh_present = True\<rparr>], im_assets = [J_str ''skills''],
     im_composition = Some \<lparr>mc_schemaVersion = COMPOSITION_SCHEMA_VERSION, mc_current = home_snapshot, mc_previous = J_null\<rparr>\<rparr>"

definition home_target :: js_value where
  "home_target = upgrade_target host_lib home_manifest home_snapshot ''1.1.0'' ''u''"

definition home_upgraded :: InstallManifest where
  "home_upgraded = home_manifest\<lparr>im_version := ''1.1.0'', im_composition := Some \<lparr>mc_schemaVersion =
     COMPOSITION_SCHEMA_VERSION, mc_current = home_target, mc_previous = home_snapshot\<rparr>\<rparr>"

definition home_parse :: "js_string \<Rightarrow> js_value option" where
  "home_parse s =
     (if s = ''m'' then Some (manifest_value home_manifest)
      else if s = json_pretty (lib_number host_lib) 0 (manifest_value home_upgraded)
      then Some (manifest_value home_upgraded)
      else Some (manifest_value (rolled_back home_manifest home_snapshot)))"

definition home_world :: world where
  "home_world = \<lparr>wd_files = (\<lambda>_. None)(''/h/.drenyra'' \<mapsto> Directory, ''/h/.drenyra/managed.json'' \<mapsto> File ''m'',
     ''/h/.codex'' \<mapsto> Directory, ''/h/.codex/.drenyra-skills.json'' \<mapsto> File ''s'',
     ''/h/.codex/.drenyra-pinned-ai-runtime.json'' \<mapsto> File ''mine''), wd_faults = [], wd_dead = False, wd_fresh = 0\<rparr>"

definition home_uuid :: "nat \<Rightarrow> js_string" where
  "home_uuid n = replicate n (CHR ''x'')"

lemma home_paths:
  "managedManifestPath ''/h'' = ''/h/.drenyra/managed.json''"
  "asset_path ''/h'' Codex Marker = ''/h/.codex/.drenyra-managed''"
  "asset_path ''/h'' Codex Skills = ''/h/.codex/.drenyra-skills.json''"
  "asset_path ''/h'' Codex Pin = ''/h/.codex/.drenyra-pinned-ai-runtime.json''"
  "reDeriveHostConfigDir ''/h'' Codex = ''/h/.codex''"
  by code_simp+

lemma home_hosts: "im_hosts home_manifest = [\<lparr>dh_name = Codex, dh_configDir = ''/h/.codex'', dh_present = True\<rparr>]"
  by (simp add: home_manifest_def)

lemma home_package: "packagePinnedComposition host_lib home_manifest = J_obj [(''codex'', managedHostPin host_lib Codex)]"
  by (simp add: packagePinnedComposition_def home_hosts)

lemma home_ok: "manifest_ok host_lib ''/h'' home_manifest" "manifest_ok host_lib ''/h'' home_upgraded"
  "manifest_ok host_lib ''/h'' (rolled_back home_manifest home_snapshot)"
proof -
  have sha: "hex64 (replicate 64 (CHR ''0''))" by code_simp
  have bytes: "isAssetBytes host_lib (hashManagedAsset host_lib s)" for s
    using sha by (simp add: isAssetBytes_def hashManagedAsset_def str_field_def host_lib_def)
  have semver: "isSemver ''1.0.0''" "isSemver ''1.1.0''" by code_simp+
  have seq: "is_sequence (J_num (Fin 0))" "is_sequence (J_num (Fin (0 + 1)))" "is_sequence (J_num (Fin 2))"
    by code_simp+
  have pin: "isPinnedComposition host_lib (J_obj [(''codex'', managedHostPin host_lib Codex)])"
  proof -
    have "host_of (J_str ''codex'') = Some Codex" by code_simp
    moreover have "isPinVersion (J_num (Fin 1))" by code_simp
    ultimately show ?thesis
      using bytes by (simp add: pin_entry_ok_def managedHostPin_def pinnedAiRuntimeRecord_def isComponentPin_def
        component_pin_def Let_def str_field_def hashManagedAsset_def)
  qed
  have "isSnapshot host_lib home_snapshot" "isSnapshot host_lib home_target"
    using bytes semver seq pin
    by (simp_all add: isSnapshot_def home_snapshot_def home_target_def upgrade_target_def snapshot_value_def Let_def
      str_field_def home_package)
  moreover have "host_ok ''/h'' \<lparr>dh_name = Codex, dh_configDir = ''/h/.codex'', dh_present = True\<rparr>" by code_simp
  ultimately show "manifest_ok host_lib ''/h'' home_manifest" "manifest_ok host_lib ''/h'' home_upgraded"
    "manifest_ok host_lib ''/h'' (rolled_back home_manifest home_snapshot)"
    using semver seq by (simp_all add: manifest_ok_def home_manifest_def home_upgraded_def rolled_back_def
      composition_ok_def COMPOSITION_SCHEMA_VERSION_def version_text_def str_field_def home_snapshot_def snapshot_value_def)
qed

lemma json_head: "\<exists>rest. json_pretty fr 0 (manifest_value m) =
   (''{'' @ indent 1 @ json_quote ''manager'' @ '': '' @ json_quote ''drenyra-ai'' @ '','' @ indent 1 @
      json_quote ''version'' @ '': '') @ json_quote (im_version m) @ rest"
  by (auto simp: manifest_value_def Let_def simp del: json_quote_def)

lemma home_laws: "parse_law host_lib home_parse home_upgraded"
  "parse_law host_lib home_parse (rolled_back home_manifest home_snapshot)"
proof -
  have m: "json_pretty (lib_number host_lib) 0 (manifest_value x) \<noteq> ''m''" for x
    by (simp add: manifest_value_def Let_def)
  have "json_pretty (lib_number host_lib) 0 (manifest_value home_upgraded) \<noteq>
    json_pretty (lib_number host_lib) 0 (manifest_value (rolled_back home_manifest home_snapshot))"
  proof
    assume a: "json_pretty (lib_number host_lib) 0 (manifest_value home_upgraded) =
      json_pretty (lib_number host_lib) 0 (manifest_value (rolled_back home_manifest home_snapshot))"
    have "json_quote ''1.1.0'' @ x \<noteq> json_quote ''1.0.0'' @ y" for x y
    proof -
      have "json_char CHR ''1'' = ''1''" "json_char CHR ''0'' = ''0''" "json_char CHR ''.'' = ''.''" by code_simp+
      then show ?thesis by (simp add: json_quote_def)
    qed
    moreover have "im_version home_upgraded = ''1.1.0''" "im_version (rolled_back home_manifest home_snapshot) = ''1.0.0''"
      by (simp_all add: home_upgraded_def rolled_back_def home_snapshot_def snapshot_value_def version_text_def str_field_def)
    ultimately show False
      using json_head [of "lib_number host_lib" home_upgraded]
        json_head [of "lib_number host_lib" "rolled_back home_manifest home_snapshot"] a
      by (metis same_append_eq)
  qed
  with m show "parse_law host_lib home_parse home_upgraded"
    "parse_law host_lib home_parse (rolled_back home_manifest home_snapshot)"
    by (simp_all add: parse_law_def home_parse_def)
qed

lemma home_temps:
  "temp_path (home_uuid 0) ''/h/.codex/.drenyra-managed'' = ''/h/.codex/.drenyra-managed.tmp.''"
  "temp_path (home_uuid (Suc 0)) ''/h/.codex/.drenyra-skills.json'' = ''/h/.codex/.drenyra-skills.json.tmp.x''"
  "temp_path (home_uuid (Suc (Suc 0))) ''/h/.drenyra/managed.json'' = ''/h/.drenyra/managed.json.tmp.xx''"
  "temp_path (home_uuid (Suc (Suc (Suc 0)))) ''/h/.codex/.drenyra-managed'' = ''/h/.codex/.drenyra-managed.tmp.xxx''"
  "temp_path (home_uuid (Suc (Suc (Suc (Suc 0))))) ''/h/.codex/.drenyra-skills.json'' = ''/h/.codex/.drenyra-skills.json.tmp.xxxx''"
  "temp_path (home_uuid (Suc (Suc (Suc (Suc (Suc 0)))))) ''/h/.drenyra/managed.json'' = ''/h/.drenyra/managed.json.tmp.xxxxx''"
  by code_simp+

lemma home_dirs:
  "path_dirname ''/h/.codex/.drenyra-managed.tmp.'' = ''/h/.codex''"
  "path_dirname ''/h/.codex/.drenyra-skills.json.tmp.x'' = ''/h/.codex''"
  "path_dirname ''/h/.drenyra/managed.json.tmp.xx'' = ''/h/.drenyra''"
  "path_dirname ''/h/.codex/.drenyra-managed.tmp.xxx'' = ''/h/.codex''"
  "path_dirname ''/h/.codex/.drenyra-skills.json.tmp.xxxx'' = ''/h/.codex''"
  "path_dirname ''/h/.drenyra/managed.json.tmp.xxxxx'' = ''/h/.drenyra''"
  by code_simp+

definition home_writes :: "js_value \<Rightarrow> InstallManifest \<Rightarrow> AssetWrite list" where
  "home_writes target m =
     [asset_write ''/h'' target (Codex, Marker), asset_write ''/h'' target (Codex, Skills), manifest_write host_lib ''/h'' m]"

lemma home_temps_lists:
  "temps home_uuid 0 (home_writes t m) = [''/h/.codex/.drenyra-managed.tmp.'',
     ''/h/.codex/.drenyra-skills.json.tmp.x'', ''/h/.drenyra/managed.json.tmp.xx'']"
  "temps home_uuid (Suc (Suc (Suc 0))) (home_writes t m) = [''/h/.codex/.drenyra-managed.tmp.xxx'',
     ''/h/.codex/.drenyra-skills.json.tmp.xxxx'', ''/h/.drenyra/managed.json.tmp.xxxxx'']"
  by (simp_all add: home_writes_def asset_write_def manifest_write_def home_paths home_temps)

lemma home_ready:
  assumes "plain (f ''/h/.codex/.drenyra-managed'')" "plain (f ''/h/.codex/.drenyra-skills.json'')"
    "plain (f ''/h/.drenyra/managed.json'')" "f ''/h/.codex'' = Some Directory" "f ''/h/.drenyra'' = Some Directory"
    and "n = 0 \<or> n = Suc (Suc (Suc 0))" "list_all (\<lambda>p. f p = None) (temps home_uuid n (home_writes t m))"
  shows "ready f (temps home_uuid n (home_writes t m)) (home_writes t m)"
proof -
  have "aw_path ` set (home_writes t m) =
      {''/h/.codex/.drenyra-managed'', ''/h/.codex/.drenyra-skills.json'', ''/h/.drenyra/managed.json''}"
    by (simp add: home_writes_def asset_write_def manifest_write_def home_paths)
  moreover have "list_all (\<lambda>a. plain (f (aw_path a))) (home_writes t m)"
    using assms by (simp add: home_writes_def asset_write_def manifest_write_def home_paths)
  ultimately show ?thesis
    using assms by (elim disjE) (simp_all add: ready_def home_temps_lists home_dirs)
qed

lemma home_read: "readManagedState host_lib home_parse (wd_files home_world) ''/h'' = State_current home_manifest"
  using classify_manifest_value [OF home_ok(1)]
  by (simp add: readManagedState_def home_paths home_world_def existsSync_def readFileSync_def home_parse_def)

lemma home_pins: "pinsComplete home_manifest home_snapshot" "pin_of home_snapshot Codex \<noteq> J_undefined"
  "pin_of home_target Codex \<noteq> J_undefined" "pin_content home_snapshot Codex \<noteq> ''mine''"
  "pin_content home_target Codex \<noteq> ''mine''"
proof -
  show s: "pin_of home_snapshot Codex \<noteq> J_undefined"
    by (simp add: pin_of_def home_snapshot_def snapshot_value_def managedHostPin_def)
  then show "pinsComplete home_manifest home_snapshot"
    by (simp add: pinsComplete_def home_manifest_def home_snapshot_def snapshot_value_def)
  show "pin_of home_target Codex \<noteq> J_undefined"
    by (simp add: pin_of_def home_target_def upgrade_target_def snapshot_value_def home_package managedHostPin_def)
  show "pin_content home_snapshot Codex \<noteq> ''mine''" "pin_content home_target Codex \<noteq> ''mine''"
    by (simp_all add: pin_content_def pin_of_def home_snapshot_def home_target_def upgrade_target_def snapshot_value_def
      managedHostPin_def str_field_def hashManagedAsset_def renderPinnedAiRuntime_def pinnedAiRuntimeRecord_def home_package
      Let_def)
qed

lemma home_contents: "asset_content home_snapshot Marker = ''m''" "asset_content home_snapshot Skills = ''s''"
  by (simp_all add: asset_content_def home_snapshot_def snapshot_value_def hashManagedAsset_def str_field_def)

lemma home_managed: "managed_files (wd_files home_world) ''/h'' home_manifest home_snapshot home_target =
  [(Codex, Marker), (Codex, Skills), (Codex, Pin)]"
  by (simp add: managed_files_def host_files_def home_hosts home_paths home_world_def existsSync_def home_pins)

lemma home_upgrade: "planUpgrade host_lib home_parse (wd_files home_world) ''/h'' ''1.1.0'' ''1.1.0'' ''u'' =
  real_plan Upgraded (wd_files home_world) ''/h'' home_manifest home_snapshot home_target home_snapshot"
proof -
  have "version_text home_snapshot = ''1.0.0''"
    by (simp add: home_snapshot_def snapshot_value_def version_text_def str_field_def)
  moreover have "hydrateCurrentSnapshot host_lib (wd_files home_world) home_manifest ''/h'' False =
      Inr \<lparr>hy_snapshot = home_snapshot, hy_skillsAvailable = True, hy_pinsAvailable = True\<rparr>"
    using home_pins(1) by (simp add: hydrateCurrentSnapshot_def home_manifest_def)
  ultimately show ?thesis by (simp add: planUpgrade_def home_read home_target_def Let_def)
qed

lemma home_plan:
  assumes "real_plan Upgraded (wd_files home_world) ''/h'' home_manifest home_snapshot home_target home_snapshot = Inr up"
  shows "tp_status up = Upgraded" "tp_candidate up = home_upgraded"
    and "transition_writes host_lib ''/h'' up = home_writes home_target home_upgraded"
proof -
  have h: "list_all (host_ok ''/h'') (im_hosts home_manifest)" using home_ok(1) by (simp add: manifest_ok_def)
  have v: "version_text home_target = ''1.1.0''"
    by (simp add: home_target_def upgrade_target_def snapshot_value_def version_text_def str_field_def)
  have "filter (changes (wd_files home_world) ''/h'' home_snapshot) [(Codex, Marker), (Codex, Skills), (Codex, Pin)] =
      [(Codex, Marker), (Codex, Skills)]"
    using home_pins(4) by (auto simp: changes_def home_paths home_world_def content_of_def home_contents)
  with real_plan_shape [OF assms h] v show "tp_status up = Upgraded" "tp_candidate up = home_upgraded"
    "transition_writes host_lib ''/h'' up = home_writes home_target home_upgraded"
    by (simp_all add: home_managed home_upgraded_def transition_writes_def home_writes_def)
qed

lemma home_first_ready: "ready (wd_files home_world) (temps home_uuid 0 (home_writes t m)) (home_writes t m)"
  by (rule home_ready) (simp_all add: home_world_def plain_def home_temps_lists)

lemma home_files: "wd_files home_world p =
  (if p = ''/h/.drenyra'' \<or> p = ''/h/.codex'' then Some Directory
   else if p = ''/h/.drenyra/managed.json'' then Some (File ''m'')
   else if p = ''/h/.codex/.drenyra-skills.json'' then Some (File ''s'')
   else if p = ''/h/.codex/.drenyra-pinned-ai-runtime.json'' then Some (File ''mine'') else None)"
  by (simp add: home_world_def)

lemma home_moved: "moved [(Codex, Marker), (Codex, Skills), (Codex, Pin)] ''/h'' home_snapshot home_target (wd_files home_world) p =
  (if p = ''/h/.codex/.drenyra-managed'' then Some (File (asset_content home_target Marker))
   else if p = ''/h/.codex/.drenyra-skills.json'' then Some (File (asset_content home_target Skills))
   else wd_files home_world p)"
  using home_pins(4) by (simp add: moved_def slot_def home_paths changes_def content_of_def home_world_def home_contents)

lemma home_target_skills: "asset_content home_target Skills = renderManagedSkills host_lib"
  by (simp add: asset_content_def home_target_def upgrade_target_def snapshot_value_def hashManagedAsset_def str_field_def)

lemma home_rollback_plan:
  assumes "readManagedState host_lib home_parse files ''/h'' = State_current home_upgraded"
    and "im_composition home_upgraded = Some \<lparr>mc_schemaVersion = COMPOSITION_SCHEMA_VERSION,
      mc_current = home_target, mc_previous = home_snapshot\<rparr>"
  shows "planRollback host_lib home_parse files ''/h'' =
    real_plan Rolled_back files ''/h'' home_upgraded home_target home_snapshot home_snapshot"
proof -
  have "isSnapshot host_lib home_snapshot" using home_ok(1) by (simp add: manifest_ok_def composition_ok_def home_manifest_def)
  moreover have "version_text home_target \<noteq> version_text home_snapshot"
    by (simp add: home_target_def upgrade_target_def home_snapshot_def snapshot_value_def version_text_def str_field_def)
  moreover have "pinsComplete home_upgraded home_target" "pinsComplete home_upgraded home_snapshot"
    using packaged_pins_complete [of home_manifest] home_pins(1) pinsComplete_hosts [of home_upgraded home_manifest]
    by (simp_all add: home_target_def upgrade_target_def home_upgraded_def)
  ultimately show ?thesis using rollback_after_upgrade [OF assms] by simp
qed

theorem rollback_undoes_the_upgrade_witness:
  "\<exists>up w1 down w2.
     planUpgrade host_lib home_parse (wd_files home_world) ''/h'' ''1.1.0'' ''1.1.0'' ''u'' = Inr up \<and>
     commitTransition host_lib home_uuid ''/h'' up home_world = (Committed, w1) \<and>
     planRollback host_lib home_parse (wd_files w1) ''/h'' = Inr down \<and>
     commitTransition host_lib home_uuid ''/h'' down w1 = (Committed, w2) \<and>
     wd_files w1 ''/h/.codex/.drenyra-skills.json'' = Some (File (renderManagedSkills host_lib)) \<and>
     wd_files w2 ''/h/.codex/.drenyra-skills.json'' = Some (File ''s'') \<and>
     wd_files w2 ''/h/.codex/.drenyra-managed'' = Some (File ''m'') \<and>
     wd_files w2 ''/h/.codex/.drenyra-pinned-ai-runtime.json'' = Some (File ''mine'')"
proof -
  let ?M = "[(Codex, Marker), (Codex, Skills), (Codex, Pin)]"
  have h: "list_all (host_ok ''/h'') (im_hosts home_manifest)" "list_all (host_ok ''/h'') (im_hosts home_upgraded)"
    using home_ok by (simp_all add: manifest_ok_def)
  obtain up where up: "real_plan Upgraded (wd_files home_world) ''/h'' home_manifest home_snapshot home_target home_snapshot = Inr up"
    using real_plan_exists [OF h(1)] by metis
  note p = home_plan [OF up]
  have fresh: "wd_fresh home_world = 0" and q: "quiet home_world" by (simp_all add: home_world_def quiet_def)
  have ne: "Upgraded \<noteq> Unchanged" by simp
  have r1: "ready (wd_files home_world) (temps home_uuid (wd_fresh home_world) (transition_writes host_lib ''/h'' up))
      (transition_writes host_lib ''/h'' up)" unfolding p(3) fresh by (rule home_first_ready)
  note c = commit_real_plan [OF up ne h(1) refl r1]
  have "candidate_ok host_lib ''/h'' (tp_candidate up)"
    using home_ok(2) by (simp add: p(2) candidate_ok_iff home_upgraded_def home_target_def upgrade_target_def
      snapshot_value_def version_text_def str_field_def)
  then obtain w1 where w1: "commitTransition host_lib home_uuid ''/h'' up home_world = (Committed, w1)"
    using c(2) [OF q] by auto
  have f1: "wd_files w1 = (moved ?M ''/h'' home_snapshot home_target (wd_files home_world))
      (managedManifestPath ''/h'' \<mapsto> manifest_file host_lib home_upgraded)"
    and n1: "wd_fresh w1 = Suc (Suc (Suc 0))"
    using c(1) [OF w1] by (simp_all add: p home_managed fresh home_writes_def)
  have m: "im_composition home_manifest = Some \<lparr>mc_schemaVersion = COMPOSITION_SCHEMA_VERSION,
      mc_current = home_snapshot, mc_previous = J_null\<rparr>" by (simp add: home_manifest_def)
  have law: "parse_law host_lib home_parse (tp_candidate up)" using home_laws(1) by (simp add: p(2))
  have st: "tp_status up \<noteq> Unchanged" by (simp add: p(1))
  have s: "home_snapshot = mc_current \<lparr>mc_schemaVersion = COMPOSITION_SCHEMA_VERSION, mc_current = home_snapshot,
      mc_previous = J_null\<rparr>" by simp
  note T = rollback_undoes_the_upgrade [OF home_upgrade [unfolded up] st home_read m s home_target_def q w1 r1 refl law
    home_laws(2), unfolded Let_def]
  have m1: "im_composition home_upgraded = Some \<lparr>mc_schemaVersion = COMPOSITION_SCHEMA_VERSION,
      mc_current = home_target, mc_previous = home_snapshot\<rparr>" by (simp add: home_upgraded_def)
  have "readManagedState host_lib home_parse (wd_files w1) ''/h'' = State_current home_upgraded"
    by (rule read_committed [OF _ home_laws(1) home_ok(2)]) (simp add: f1)
  then have rb: "planRollback host_lib home_parse (wd_files w1) ''/h'' =
      real_plan Rolled_back (wd_files w1) ''/h'' home_upgraded home_target home_snapshot home_snapshot"
    using home_rollback_plan [OF _ m1] by simp
  then obtain down where down: "planRollback host_lib home_parse (wd_files w1) ''/h'' = Inr down"
    "real_plan Rolled_back (wd_files w1) ''/h'' home_upgraded home_target home_snapshot home_snapshot = Inr down"
    using real_plan_exists [OF h(2)] by metis
  have f: "wd_files w1 ''/h/.codex/.drenyra-managed'' = Some (File (asset_content home_target Marker))"
    "wd_files w1 ''/h/.codex/.drenyra-skills.json'' = Some (File (asset_content home_target Skills))"
    "wd_files w1 ''/h/.codex/.drenyra-pinned-ai-runtime.json'' = Some (File ''mine'')"
    by (simp_all add: f1 home_moved home_paths home_files)
  have "managed_files (wd_files w1) ''/h'' home_upgraded home_target home_snapshot = ?M"
    using managed_files_after [OF f1, of home_upgraded home_manifest] home_managed by (simp add: home_upgraded_def)
  moreover have "filter (changes (wd_files w1) ''/h'' home_target) ?M = [(Codex, Marker), (Codex, Skills)]"
    using home_pins(5) by (auto simp: changes_def home_paths f content_of_def)
  ultimately have ws: "transition_writes host_lib ''/h'' down = home_writes home_snapshot (rolled_back home_manifest home_snapshot)"
    using real_plan_shape [OF down(2) h(2)]
    by (simp add: transition_writes_def home_writes_def home_upgraded_def rolled_back_def)
  have "ready (wd_files w1) (temps home_uuid (Suc (Suc (Suc 0))) (home_writes t x)) (home_writes t x)" for t x
    by (rule home_ready) (simp_all add: f plain_def f1 home_moved home_paths home_files home_temps_lists manifest_file_def)
  with T down(1) obtain w2 where "commitTransition host_lib home_uuid ''/h'' down w1 = (Committed, w2)"
    "wd_files w2 = (round_trip ?M ''/h'' home_snapshot home_target (wd_files home_world))
       (managedManifestPath ''/h'' \<mapsto> manifest_file host_lib (rolled_back home_manifest home_snapshot))"
    by (auto simp: n1 ws home_managed)
  with home_upgrade up w1 down(1) f show ?thesis
    by (simp add: round_trip_def slot_def home_paths home_files home_contents content_of_def home_target_skills
      home_pins(4,5) [THEN not_sym])
qed

theorem transition_commits_all_or_nothing_witness:
  "\<exists>up v. planUpgrade host_lib home_parse (wd_files home_world) ''/h'' ''1.1.0'' ''1.1.0'' ''u'' = Inr up \<and>
     commitTransition host_lib home_uuid ''/h'' up home_world = (Committed, v) \<and>
     wd_files v = fold put (home_writes home_target home_upgraded) (wd_files home_world)"
proof -
  have h: "list_all (host_ok ''/h'') (im_hosts home_manifest)" using home_ok by (simp add: manifest_ok_def)
  obtain up where up: "real_plan Upgraded (wd_files home_world) ''/h'' home_manifest home_snapshot home_target home_snapshot = Inr up"
    using real_plan_exists [OF h] by metis
  note p = home_plan [OF up]
  have q: "quiet home_world" by (simp add: home_world_def quiet_def)
  have ok: "candidate_ok host_lib ''/h'' (tp_candidate up)"
    using home_ok(2) by (simp add: p(2) candidate_ok_iff home_upgraded_def home_target_def upgrade_target_def
      snapshot_value_def version_text_def str_field_def)
  have st: "tp_status up \<noteq> Unchanged" by (simp add: p(1))
  have mp: "managedManifestPath ''/h'' \<notin> aw_path ` set (tp_writes up)"
    using real_plan_shape [OF up h] planned_not_manifest by (simp del: list.set_map set_filter)
  have r: "ready (wd_files home_world) (temps home_uuid (wd_fresh home_world) (home_writes home_target home_upgraded))
      (home_writes home_target home_upgraded)" using home_first_ready by (simp add: home_world_def)
  note T = transition_commits_all_or_nothing [OF st p(3) [symmetric] r mp]
  then obtain v where "commitTransition host_lib home_uuid ''/h'' up home_world = (Committed, v)"
    using q ok by (metis prod.collapse)
  with T q ok home_upgrade up show ?thesis by auto
qed

end
