(* ===== verification/Managed_Install.thy ===== *)
theory Managed_Install
  imports Managed_Rollback
begin

text \<open>
  \<^verbatim>\<open>cmd/commands/install.ts\<close> and \<^verbatim>\<open>sync.ts\<close> on the world of files, and
  the read-only diagnostics of \<^verbatim>\<open>configurator/managed-config.ts\<close>. The version of the
  package and the time are arguments; texts of reasons and details are constructors. A call that throws
  ends the command.
\<close>

section \<open>Install\<close>

text \<open>A managed file is written only where none exists.\<close>

definition install_file :: "js_string \<Rightarrow> js_string \<Rightarrow> world \<Rightarrow> bool \<times> world" where
  "install_file path content w = (if existsSync (wd_files w) path then (True, w) else write_path path content w)"

text \<open>Only a host whose pin file is created here gets an entry.\<close>

fun install_pins ::
    "js_lib \<Rightarrow> DetectedHost list \<Rightarrow> world \<Rightarrow> (js_string \<times> js_value) list option \<times> world" where
  "install_pins L [] w = (Some [], w)"
| "install_pins L (h # hs) w =
     (let pinPath = path_join (dh_configDir h) (ASSET_FILENAMES Pin)
      in if existsSync (wd_files w) pinPath then install_pins L hs w
         else (case write_path pinPath (renderPinnedAiRuntime L (dh_name h)) w of
                 (False, w1) \<Rightarrow> (None, w1)
               | (True, w1) \<Rightarrow>
                   (case install_pins L hs w1 of
                      (None, w2) \<Rightarrow> (None, w2)
                    | (Some entries, w2) \<Rightarrow>
                        (Some ((host_text (dh_name h), managedHostPin L (dh_name h)) # entries), w2))))"

definition install_assets :: "js_lib \<Rightarrow> js_string \<Rightarrow> DetectedHost list \<Rightarrow> (world \<Rightarrow> bool \<times> world) list" where
  "install_assets L now hs =
     concat (map (\<lambda>h. [install_file (path_join (dh_configDir h) (ASSET_FILENAMES Marker)) (renderManagedMarker L now),
                       install_file (path_join (dh_configDir h) (ASSET_FILENAMES Skills)) (renderManagedSkills L)]) hs)"

definition installed_snapshot :: "js_lib \<Rightarrow> js_string \<Rightarrow> js_string \<Rightarrow> (js_string \<times> js_value) list \<Rightarrow> js_value" where
  "installed_snapshot L version now entries =
     snapshot_value version (J_num (Fin 0)) now (hashManagedAsset L (renderManagedMarker L now))
       (hashManagedAsset L (renderManagedSkills L)) (J_obj entries)"

text \<open>An existing composition is kept.\<close>

definition installed_composition :: "managed_state \<Rightarrow> js_value \<Rightarrow> ManagedComposition" where
  "installed_composition existing current =
     (let fresh = \<lparr>mc_schemaVersion = COMPOSITION_SCHEMA_VERSION, mc_current = current, mc_previous = J_null\<rparr>
      in case existing of
           State_current m \<Rightarrow> (case im_composition m of Some c \<Rightarrow> c | None \<Rightarrow> fresh)
         | _ \<Rightarrow> fresh)"

definition installed_manifest ::
    "js_string \<Rightarrow> js_string \<Rightarrow> DetectedHost list \<Rightarrow> ManagedComposition \<Rightarrow> InstallManifest" where
  "installed_manifest version now hosts composition =
     \<lparr>im_version = version, im_installedAt = now, im_hosts = hosts, im_assets = [J_str ''skills''],
      im_composition = Some composition\<rparr>"

definition installIntegrations ::
    "js_lib \<Rightarrow> (js_string \<Rightarrow> js_value option) \<Rightarrow> js_string \<Rightarrow> js_string \<Rightarrow> js_string \<Rightarrow> world \<Rightarrow>
     InstallManifest option \<times> world" where
  "installIntegrations L parse version homeDir now w =
     (let hosts = detectHosts (wd_files w) homeDir; present = filter dh_present hosts;
          managedDir = path_join homeDir MANAGED_DIR
      in case install_pins L present w of
           (None, w1) \<Rightarrow> (None, w1)
         | (Some entries, w1) \<Rightarrow>
             (case do_calls (mkdir_recursive managedDir # install_assets L now present) w1 of
                (False, w2) \<Rightarrow> (None, w2)
              | (True, w2) \<Rightarrow>
                  (let current = installed_snapshot L version now entries;
                       manifest = installed_manifest version now hosts
                         (installed_composition (readManagedState L parse (wd_files w2) homeDir) current)
                   in case write_path (path_join managedDir MANAGED_FILE)
                             (json_pretty (lib_number L) 0 (manifest_value manifest)) w2 of
                        (True, w3) \<Rightarrow> (Some manifest, w3)
                      | (False, w3) \<Rightarrow> (None, w3))))"

section \<open>Sync\<close>

datatype sync_action = Synced | Sync_preserved | Sync_missing | Not_installed

datatype sync_reason =
  No_manifest | Host_absent | Marker_current | Marker_differs | Marker_recreated
| Pin_unmanaged | Pin_recreated | Pin_unreadable | Pin_current | Pin_differs

text \<open>\<open>None\<close> is the host \<open>*\<close>.\<close>

record SyncResult =
  sy_host :: "HostName option"
  sy_asset :: ManagedAssetName
  sy_action :: sync_action
  sy_reason :: sync_reason

definition sync_result :: "HostName \<Rightarrow> ManagedAssetName \<Rightarrow> sync_action \<Rightarrow> sync_reason \<Rightarrow> SyncResult" where
  "sync_result host asset action reason =
     \<lparr>sy_host = Some host, sy_asset = asset, sy_action = action, sy_reason = reason\<rparr>"

definition sync_marker :: "js_string \<Rightarrow> DetectedHost \<Rightarrow> world \<Rightarrow> SyncResult option \<times> world" where
  "sync_marker expected h w =
     (let path = path_join (dh_configDir h) (ASSET_FILENAMES Marker); result = sync_result (dh_name h) Marker
      in if existsSync (wd_files w) path then
           (case read_call path w of
              (None, w1) \<Rightarrow> (None, w1)
            | (Some disk, w1) \<Rightarrow>
                (Some (if disk = expected then result Synced Marker_current
                       else result Sync_preserved Marker_differs), w1))
         else (case write_path path expected w of
                 (False, w1) \<Rightarrow> (None, w1)
               | (True, w1) \<Rightarrow> (Some (result Synced Marker_recreated), w1)))"

text \<open>\<open>entry\<close> is undefined where the composition records no pin of the host.\<close>

definition sync_pin :: "js_value \<Rightarrow> DetectedHost \<Rightarrow> world \<Rightarrow> SyncResult list option \<times> world" where
  "sync_pin entry h w =
     (let path = path_join (dh_configDir h) (ASSET_FILENAMES Pin); result = sync_result (dh_name h) Pin;
          content = str_field (get_field entry ''managedAsset'') ''content''
      in if entry = J_undefined then
           (Some (if existsSync (wd_files w) path then [result Sync_preserved Pin_unmanaged] else []), w)
         else if \<not> existsSync (wd_files w) path then
           (case write_path path content w of
              (False, w1) \<Rightarrow> (None, w1)
            | (True, w1) \<Rightarrow> (Some [result Synced Pin_recreated], w1))
         else (case read_call path w of
                 (None, w1) \<Rightarrow> (Some [result Sync_preserved Pin_unreadable], w1)
               | (Some disk, w1) \<Rightarrow>
                   (Some [if disk = content then result Synced Pin_current
                          else result Sync_preserved Pin_differs], w1)))"

fun sync_hosts ::
    "js_string \<Rightarrow> (HostName \<Rightarrow> js_value) \<Rightarrow> DetectedHost list \<Rightarrow> world \<Rightarrow> SyncResult list option \<times> world" where
  "sync_hosts expected pins [] w = (Some [], w)"
| "sync_hosts expected pins (h # hs) w =
     (if \<not> dh_present h then
        (case sync_hosts expected pins hs w of
           (None, w1) \<Rightarrow> (None, w1)
         | (Some rs, w1) \<Rightarrow> (Some (sync_result (dh_name h) Marker Sync_missing Host_absent # rs), w1))
      else (case sync_marker expected h w of
              (None, w1) \<Rightarrow> (None, w1)
            | (Some r, w1) \<Rightarrow>
                (case sync_pin (pins (dh_name h)) h w1 of
                   (None, w2) \<Rightarrow> (None, w2)
                 | (Some ps, w2) \<Rightarrow>
                     (case sync_hosts expected pins hs w2 of
                        (None, w3) \<Rightarrow> (None, w3)
                      | (Some rs, w3) \<Rightarrow> (Some (r # ps @ rs), w3)))))"

definition recorded_pin :: "InstallManifest \<Rightarrow> HostName \<Rightarrow> js_value" where
  "recorded_pin manifest host =
     (case im_composition manifest of None \<Rightarrow> J_undefined | Some c \<Rightarrow> pin_of (mc_current c) host)"

definition syncManaged ::
    "js_lib \<Rightarrow> (js_string \<Rightarrow> js_value option) \<Rightarrow> js_string \<Rightarrow> world \<Rightarrow> SyncResult list option \<times> world" where
  "syncManaged L parse homeDir w =
     (case manifest_of (readManagedState L parse (wd_files w) homeDir) of
        None \<Rightarrow>
          (Some [\<lparr>sy_host = None, sy_asset = Marker, sy_action = Not_installed, sy_reason = No_manifest\<rparr>], w)
      | Some manifest \<Rightarrow>
          sync_hosts (expectedMarkerContent L manifest) (recorded_pin manifest)
            (detectHosts (wd_files w) homeDir) w)"

section \<open>Diagnostics\<close>

datatype HostPinState = Pin_managed | Pin_drift | Pin_foreign | Pin_absent

datatype pin_detail =
  Unmanaged_not_adopted | Missing_pin | Unreadable_pin | Matches_record | Differs_from_record

record HostPinDiagnostic =
  hp_host :: HostName
  hp_state :: HostPinState
  hp_detail :: pin_detail

datatype missing_item = Missing_dir HostName | Missing_asset HostName ManagedAssetName

datatype diagnostic_detail =
  No_managed_manifest | Invalid_manifest invalid_reason | Cannot_evaluate
| Valid_legacy_manifest | Valid_manifest
| No_drift | Drift "(HostName \<times> ManagedAssetName) list"
| Version_matches js_string | Version_differs js_string js_string
| Prerequisites_present | Missing_prerequisites "missing_item list"
| Pre_pin_composition | No_pin_to_evaluate | Pins_match | Pins_failing "HostName list"

datatype diagnostic_name = Managed_state | Managed_drift | Package_pin | Host_prerequisites | Pinned_ai_runtime

record ConfigDiagnostic =
  cd_name :: diagnostic_name
  cd_ok :: bool
  cd_detail :: diagnostic_detail

datatype applicability = Applicable | Not_applicable | Unverifiable

record PinnedAiRuntimeDiagnostic = ConfigDiagnostic +
  pd_applicability :: applicability
  pd_hosts :: "HostPinDiagnostic list"

definition pin_diagnostic :: "file_map \<Rightarrow> js_string \<Rightarrow> js_value \<Rightarrow> HostName \<Rightarrow> HostPinDiagnostic list" where
  "pin_diagnostic files homeDir pinned host =
     (let entry = get_field pinned (host_text host); path = asset_path homeDir host Pin;
          result = \<lambda>state detail. [\<lparr>hp_host = host, hp_state = state, hp_detail = detail\<rparr>]
      in if entry = J_undefined then
           (if existsSync files path then result Pin_foreign Unmanaged_not_adopted else [])
         else if \<not> existsSync files path then result Pin_absent Missing_pin
         else (case readFileSync files path of
                 None \<Rightarrow> result Pin_drift Unreadable_pin
               | Some disk \<Rightarrow>
                   if disk = str_field (get_field entry ''managedAsset'') ''content'' then result Pin_managed Matches_record
                   else result Pin_drift Differs_from_record))"

definition pinned_diagnostic ::
    "bool \<Rightarrow> diagnostic_detail \<Rightarrow> applicability \<Rightarrow> HostPinDiagnostic list \<Rightarrow> PinnedAiRuntimeDiagnostic" where
  "pinned_diagnostic ok detail applicability hosts =
     \<lparr>cd_name = Pinned_ai_runtime, cd_ok = ok, cd_detail = detail, pd_applicability = applicability, pd_hosts = hosts\<rparr>"

definition classifyPinnedRuntime :: "file_map \<Rightarrow> InstallManifest \<Rightarrow> js_string \<Rightarrow> PinnedAiRuntimeDiagnostic" where
  "classifyPinnedRuntime files manifest homeDir =
     (let pinned = (case im_composition manifest of
                      None \<Rightarrow> J_undefined | Some c \<Rightarrow> get_field (mc_current c) ''pinnedComposition'')
      in if pinned = J_undefined then pinned_diagnostic True Pre_pin_composition Not_applicable []
         else (let hosts = concat (map (\<lambda>h. pin_diagnostic files homeDir pinned (dh_name h))
                                    (filter dh_present (im_hosts manifest)));
                   healthy = list_all (\<lambda>d. hp_state d = Pin_managed) hosts
               in pinned_diagnostic healthy
                    (if hosts = [] then No_pin_to_evaluate
                     else if healthy then Pins_match
                     else Pins_failing (map hp_host (filter (\<lambda>d. hp_state d \<noteq> Pin_managed) hosts)))
                    Applicable hosts))"

definition drift_of :: "file_map \<Rightarrow> js_string \<Rightarrow> js_value \<Rightarrow> bool \<Rightarrow> HostName \<Rightarrow> (HostName \<times> ManagedAssetName) list" where
  "drift_of files homeDir expected skillsAvailable host =
     filter (\<lambda>(h, asset).
       let path = asset_path homeDir h asset
       in if asset = Skills \<and> \<not> skillsAvailable then False
          else if \<not> existsSync files path then False
          else (case readFileSync files path of None \<Rightarrow> True | Some disk \<Rightarrow> disk \<noteq> asset_content expected asset))
       [(host, Marker), (host, Skills)]"

definition missing_of :: "file_map \<Rightarrow> js_string \<Rightarrow> HostName \<Rightarrow> missing_item list" where
  "missing_of files homeDir host =
     (if \<not> existsSync files (reDeriveHostConfigDir homeDir host) then [Missing_dir host]
      else map (Missing_asset host)
             (filter (\<lambda>asset. \<not> existsSync files (asset_path homeDir host asset)) [Marker, Skills]))"

definition diagnostic :: "diagnostic_name \<Rightarrow> bool \<Rightarrow> diagnostic_detail \<Rightarrow> ConfigDiagnostic" where
  "diagnostic name ok detail = \<lparr>cd_name = name, cd_ok = ok, cd_detail = detail\<rparr>"

text \<open>The checks of a readable manifest.\<close>

definition manifest_diagnostics ::
    "file_map \<Rightarrow> js_string \<Rightarrow> js_string \<Rightarrow> bool \<Rightarrow> InstallManifest \<Rightarrow> HydratedSnapshot \<Rightarrow>
     ConfigDiagnostic list \<times> PinnedAiRuntimeDiagnostic" where
  "manifest_diagnostics files homeDir packagedVersion is_legacy manifest hydrated =
     (let expected = hy_snapshot hydrated; present = map dh_name (filter dh_present (im_hosts manifest));
          drift = concat (map (drift_of files homeDir expected (hy_skillsAvailable hydrated)) present);
          recorded = version_text expected; missing = concat (map (missing_of files homeDir) present)
      in ([diagnostic Managed_state True (if is_legacy then Valid_legacy_manifest else Valid_manifest),
           diagnostic Managed_drift (drift = []) (if drift = [] then No_drift else Drift drift),
           if recorded = packagedVersion then diagnostic Package_pin True (Version_matches recorded)
           else diagnostic Package_pin False (Version_differs recorded packagedVersion),
           diagnostic Host_prerequisites (missing = [])
             (if missing = [] then Prerequisites_present else Missing_prerequisites missing)],
          classifyPinnedRuntime files manifest homeDir))"

definition runConfigDiagnostics ::
    "js_lib \<Rightarrow> (js_string \<Rightarrow> js_value option) \<Rightarrow> file_map \<Rightarrow> js_string \<Rightarrow> js_string \<Rightarrow>
     ManagedConfigError + ConfigDiagnostic list \<times> PinnedAiRuntimeDiagnostic" where
  "runConfigDiagnostics L parse files homeDir packagedVersion =
     (case readManagedState L parse files homeDir of
        State_absent \<Rightarrow>
          Inr (map (\<lambda>name. diagnostic name True No_managed_manifest)
                 [Managed_state, Managed_drift, Package_pin, Host_prerequisites],
               pinned_diagnostic True No_managed_manifest Not_applicable [])
      | State_invalid reason \<Rightarrow>
          Inr (diagnostic Managed_state False (Invalid_manifest reason) #
               map (\<lambda>name. diagnostic name False Cannot_evaluate) [Managed_drift, Package_pin, Host_prerequisites],
               pinned_diagnostic False Cannot_evaluate Unverifiable [])
      | State_legacy manifest \<Rightarrow>
          (case hydrateCurrentSnapshot L files manifest homeDir False of
             Inl e \<Rightarrow> Inl e
           | Inr hydrated \<Rightarrow> Inr (manifest_diagnostics files homeDir packagedVersion True manifest hydrated))
      | State_current manifest \<Rightarrow>
          (case hydrateCurrentSnapshot L files manifest homeDir False of
             Inl e \<Rightarrow> Inl e
           | Inr hydrated \<Rightarrow> Inr (manifest_diagnostics files homeDir packagedVersion False manifest hydrated)))"

definition homeFromArgs :: "js_string option \<Rightarrow> js_string \<Rightarrow> js_string list \<Rightarrow> js_string" where
  "homeFromArgs HOME cwd args =
     (case dropWhile (\<lambda>a. a \<noteq> ''--home'') args of
        flag # value # _ \<Rightarrow> value
      | _ \<Rightarrow> (case HOME of Some h \<Rightarrow> h | None \<Rightarrow> cwd))"

section \<open>Existing files are kept\<close>

text \<open>Outside \<open>S\<close> nothing that exists is changed.\<close>

definition kept :: "js_string set \<Rightarrow> file_map \<Rightarrow> file_map \<Rightarrow> bool" where
  "kept S f g \<longleftrightarrow> (\<forall>p. p \<in> S \<or> f p = None \<or> g p = f p)"

lemma kept_refl [simp]: "kept S f f"
  by (simp add: kept_def)

lemma kept_trans: "kept S f g \<Longrightarrow> kept S g h \<Longrightarrow> kept S f h"
  unfolding kept_def by metis

lemma keptD: "kept S f g \<Longrightarrow> f p = Some e \<Longrightarrow> p \<notin> S \<Longrightarrow> g p = Some e"
  unfolding kept_def by (metis option.distinct(1))

lemma kept_agree: "agree {p} f g \<Longrightarrow> p \<in> S \<or> f p = None \<Longrightarrow> kept S f g"
  unfolding kept_def agree_def by (metis singletonD)

lemma kept_write: "p \<in> S \<or> wd_files w p = None \<Longrightarrow> kept S (wd_files w) (wd_files (snd (write_path p d w)))"
  by (rule kept_agree [of p]) simp_all

lemma kept_install_file: "kept S (wd_files w) (wd_files (snd (install_file p d w)))"
  using kept_write [of p S w d] by (auto simp: install_file_def existsSync_def)

lemma fold_directories: "fold (\<lambda>q fs. fs(q \<mapsto> Directory)) qs f p = (if p \<in> set qs then Some Directory else f p)"
  by (induction qs arbitrary: f) auto

lemma kept_mkdir: "kept S (wd_files w) (wd_files (snd (mkdir_recursive p w)))"
proof -
  obtain f w' where n: "next_fault w = (f, w')" by (cases "next_fault w")
  with next_fault_files [OF n] show ?thesis
    by (auto simp: mkdir_recursive_def fs_call_def Let_def no_partial_def kept_def fold_directories list_all_iff
      split: fault.split option.split)
qed

lemma kept_written: "write_path p d w = (ok, w') \<Longrightarrow> wd_files w p = None \<Longrightarrow> kept S (wd_files w) (wd_files w')"
  using kept_write [of p S w d] by simp

lemma read_call_files: "read_call p w = (x, w') \<Longrightarrow> wd_files w' = wd_files w"
  by (cases "next_fault w") (auto simp: read_call_def dest: next_fault_files split: fault.splits)

lemma kept_do_calls:
  assumes "\<And>c w. c \<in> set cs \<Longrightarrow> kept S (wd_files w) (wd_files (snd (c w)))"
  shows "kept S (wd_files w) (wd_files (snd (do_calls cs w)))"
  using assms
proof (induction cs arbitrary: w)
  case (Cons c cs)
  obtain ok w1 where c: "c w = (ok, w1)" by (cases "c w")
  have "kept S (wd_files w) (wd_files w1)" using Cons.prems [of c w] c by simp
  moreover have "kept S (wd_files w1) (wd_files (snd (do_calls cs w1)))" using Cons by simp
  ultimately show ?case using c kept_trans by (cases ok) auto
qed simp

lemma kept_pins: "kept S (wd_files w) (wd_files (snd (install_pins L hs w)))"
proof (induction hs arbitrary: w)
  case (Cons h hs)
  let ?p = "path_join (dh_configDir h) (ASSET_FILENAMES Pin)"
  obtain ok w1 where c: "write_path ?p (renderPinnedAiRuntime L (dh_name h)) w = (ok, w1)" by (metis prod.exhaust)
  obtain x w2 where c2: "install_pins L hs w1 = (x, w2)" by (metis prod.exhaust)
  show ?case
  proof (cases "wd_files w ?p")
    case None
    have "kept S (wd_files w1) (wd_files w2)" using Cons.IH [of w1] c2 by simp
    with kept_written [OF c None] have "kept S (wd_files w) (wd_files w2)" by (rule kept_trans)
    with kept_written [OF c None] c c2 None show ?thesis
      by (simp add: Let_def existsSync_def del: ASSET_FILENAMES.simps split: bool.split option.split)
  qed (use Cons.IH [of w] in \<open>simp add: Let_def existsSync_def\<close>)
qed simp

lemma kept_sync_marker: "sync_marker e h w = (x, w') \<Longrightarrow> kept S (wd_files w) (wd_files w')"
  unfolding sync_marker_def Let_def existsSync_def
  by (auto dest: kept_written read_call_files simp del: ASSET_FILENAMES.simps
    split: prod.splits bool.splits option.splits if_splits)

lemma kept_sync_pin: "sync_pin e h w = (x, w') \<Longrightarrow> kept S (wd_files w) (wd_files w')"
  unfolding sync_pin_def Let_def existsSync_def
  by (auto dest: kept_written read_call_files simp del: ASSET_FILENAMES.simps
    split: prod.splits bool.splits option.splits if_splits)

lemma kept_sync_hosts: "kept S (wd_files w) (wd_files (snd (sync_hosts e pins hs w)))"
proof (induction hs arbitrary: w)
  case (Cons h hs)
  obtain x w1 where c1: "sync_marker e h w = (x, w1)" by (metis prod.exhaust)
  obtain y w2 where c2: "sync_pin (pins (dh_name h)) h w1 = (y, w2)" by (metis prod.exhaust)
  have "kept S (wd_files w) (wd_files w1)" "kept S (wd_files w1) (wd_files w2)"
    using kept_sync_marker [OF c1] kept_sync_pin [OF c2] by simp_all
  moreover from this have "kept S (wd_files w) (wd_files w2)" by (rule kept_trans)
  ultimately show ?case
    using c1 c2 Cons.IH [of w] Cons.IH [of w2] by (auto split: prod.split option.split intro: kept_trans)
qed simp

text \<open>C32:
  Neither install nor sync changes an existing file, whatever call fails, even in the middle of a
  write: install may replace only the manifest.
\<close>

theorem install_and_sync_keep_files:
  "kept {managedManifestPath homeDir} (wd_files w)
     (wd_files (snd (installIntegrations L parse version homeDir now w))) \<and>
   kept {} (wd_files w) (wd_files (snd (syncManaged L parse homeDir w)))"
proof
  let ?S = "{managedManifestPath homeDir}" and ?hs = "filter dh_present (detectHosts (wd_files w) homeDir)"
  let ?calls = "mkdir_recursive (path_join homeDir MANAGED_DIR) # install_assets L now ?hs"
  obtain x w1 where p: "install_pins L ?hs w = (x, w1)" by (metis prod.exhaust)
  obtain ok w2 where d: "do_calls ?calls w1 = (ok, w2)" by (metis prod.exhaust)
  have k1: "kept ?S (wd_files w) (wd_files w1)" using kept_pins [of ?S w L ?hs] p by simp
  have "kept ?S (wd_files w1) (wd_files (snd (do_calls ?calls w1)))"
    by (rule kept_do_calls) (auto simp: install_assets_def kept_mkdir kept_install_file simp del: ASSET_FILENAMES.simps)
  then have k2: "kept ?S (wd_files w) (wd_files w2)" using kept_trans [OF k1] d by simp
  have "kept ?S (wd_files w2) (wd_files (snd (write_path (managedManifestPath homeDir) m w2)))" for m
    by (rule kept_write) simp
  note k3 = kept_trans [OF k2 this, unfolded managedManifestPath_def]
  have "snd (installIntegrations L parse version homeDir now w) = w1 \<or>
      snd (installIntegrations L parse version homeDir now w) = w2 \<or>
      (\<exists>m. snd (installIntegrations L parse version homeDir now w) =
        snd (write_path (path_join (path_join homeDir MANAGED_DIR) MANAGED_FILE) m w2))"
    using p d by (auto simp: installIntegrations_def Let_def simp del: do_calls.simps
      split: prod.split option.split bool.split) (metis snd_conv)+
  with k1 k2 k3
  show "kept ?S (wd_files w) (wd_files (snd (installIntegrations L parse version homeDir now w)))"
    unfolding managedManifestPath_def by metis
  show "kept {} (wd_files w) (wd_files (snd (syncManaged L parse homeDir w)))"
    by (auto simp: syncManaged_def kept_sync_hosts split: option.split)
qed

section \<open>What an install leaves\<close>

lemma write_path_written: "write_path p d w = (True, w') \<Longrightarrow> wd_files w' = (wd_files w)(p \<mapsto> File d)"
  unfolding write_path_def by (drule fs_call_True) (auto split: option.splits fs_entry.splits if_splits)

definition created_pins :: "js_lib \<Rightarrow> file_map \<Rightarrow> DetectedHost list \<Rightarrow> (js_string \<times> js_value) list" where
  "created_pins L files hs =
     map (\<lambda>h. (host_text (dh_name h), managedHostPin L (dh_name h)))
       (filter (\<lambda>h. files (path_join (dh_configDir h) (ASSET_FILENAMES Pin)) = None) hs)"

lemma install_pins_entries:
  assumes "install_pins L hs w = (Some es, w')" "distinct (map (\<lambda>h. path_join (dh_configDir h) (ASSET_FILENAMES Pin)) hs)"
  shows "es = created_pins L (wd_files w) hs"
  using assms
proof (induction hs arbitrary: w es)
  case (Cons h hs)
  let ?p = "\<lambda>h. path_join (dh_configDir h) (ASSET_FILENAMES Pin)"
  show ?case
  proof (cases "wd_files w (?p h)")
    case None
    then obtain w1 es1 where c: "write_path (?p h) (renderPinnedAiRuntime L (dh_name h)) w = (True, w1)"
      "install_pins L hs w1 = (Some es1, w')" "es = (host_text (dh_name h), managedHostPin L (dh_name h)) # es1"
      using Cons.prems(1) by (auto simp: Let_def existsSync_def split: prod.splits bool.splits option.splits)
    have "es1 = created_pins L (wd_files w1) hs" using Cons.IH [OF c(2)] Cons.prems(2) by simp
    also have "\<dots> = created_pins L (wd_files w) hs"
    proof -
      have ne: "?p x \<noteq> ?p h" if "x \<in> set hs" for x
      proof -
        have "?p h \<notin> ?p ` set hs" using Cons.prems(2) by simp
        with that show ?thesis by (metis image_eqI)
      qed
      have "filter (\<lambda>x. wd_files w1 (?p x) = None) hs = filter (\<lambda>x. wd_files w (?p x) = None) hs"
        unfolding write_path_written [OF c(1)]
        by (rule filter_cong [OF refl]) (simp only: fun_upd_other [OF ne])
      then show ?thesis by (simp add: created_pins_def del: ASSET_FILENAMES.simps)
    qed
    finally show ?thesis using c(3) None by (simp add: created_pins_def)
  qed (use Cons in \<open>simp add: Let_def existsSync_def created_pins_def\<close>)
qed (simp add: created_pins_def)

lemma install_pins_exist:
  assumes "install_pins L hs w = (Some es, w')" "h \<in> set hs"
  shows "wd_files w' (path_join (dh_configDir h) (ASSET_FILENAMES Pin)) \<noteq> None"
  using assms
proof (induction hs arbitrary: w es)
  case (Cons g hs)
  let ?p = "\<lambda>h. path_join (dh_configDir h) (ASSET_FILENAMES Pin)"
  obtain w1 es1 where c: "install_pins L hs w1 = (Some es1, w')" "wd_files w1 (?p g) \<noteq> None"
  proof (cases "wd_files w (?p g)")
    case None
    with Cons.prems(1) show thesis
      using that write_path_written
      by (fastforce simp: Let_def existsSync_def simp del: ASSET_FILENAMES.simps split: prod.splits bool.splits option.splits)
  next
    case (Some e)
    with Cons.prems(1) show thesis using that [of w es] by (simp add: Let_def existsSync_def)
  qed
  have "kept {} (wd_files w1) (wd_files w')" using kept_pins [of "{}" w1 L hs] c(1) by simp
  show ?case
  proof (cases "h = g")
    case True
    with \<open>kept {} (wd_files w1) (wd_files w')\<close> c(2) show ?thesis using keptD by fastforce
  next
    case False
    with Cons.IH [OF c(1)] Cons.prems(2) show ?thesis by simp
  qed
qed simp

lemma mkdir_done: "mkdir_recursive p w = (True, w') \<Longrightarrow> p \<noteq> [] \<Longrightarrow> wd_files w' p = Some Directory"
proof -
  assume m: "mkdir_recursive p w = (True, w')" and "p \<noteq> []"
  then have a: "p \<in> set (ancestors (length p) p)" by (cases p) auto
  have "wd_files w p = Some Directory \<and> wd_files w' = wd_files w \<or>
      wd_files w' = fold (\<lambda>q fs. fs(q \<mapsto> Directory)) (ancestors (length p) p) (wd_files w)"
    using fs_call_True [OF m [unfolded mkdir_recursive_def]] by (simp add: Let_def split: if_splits)
  with a show ?thesis by (auto simp: fold_directories)
qed

lemma write_other: "q \<noteq> p \<Longrightarrow> wd_files (snd (write_path p d w)) q = wd_files w q"
  using call_agree(4) [of p "{p}" w d] by (simp add: agree_def)

text \<open>Until its last call an install does not touch the manifest.\<close>

lemma install_pins_frame:
  assumes "q \<notin> (\<lambda>h. path_join (dh_configDir h) (ASSET_FILENAMES Pin)) ` set hs"
  shows "wd_files (snd (install_pins L hs w)) q = wd_files w q"
  using assms
proof (induction hs arbitrary: w)
  case (Cons h hs)
  let ?p = "path_join (dh_configDir h) (ASSET_FILENAMES Pin)"
  obtain ok w1 where c: "write_path ?p (renderPinnedAiRuntime L (dh_name h)) w = (ok, w1)" by (metis prod.exhaust)
  have "wd_files w1 q = wd_files w q"
    using write_other [of q ?p "renderPinnedAiRuntime L (dh_name h)" w] c Cons.prems
    by (simp del: ASSET_FILENAMES.simps)
  with Cons.IH [of w] Cons.IH [of w1] Cons.prems c show ?case
    by (auto simp: Let_def simp del: ASSET_FILENAMES.simps split: bool.split option.split prod.split)
qed simp

lemma length_ancestors: "q \<in> set (ancestors n p) \<Longrightarrow> length q \<le> max 1 (length p)"
proof (induction n p rule: ancestors.induct)
  case (2 n p)
  have "length (path_dirname p) \<le> max 1 (length p)"
  proof (cases "dropWhile (\<lambda>c. c \<noteq> CHR ''/'') (rev p)")
    case (Cons c r)
    have "length (c # r) \<le> length p"
      using length_dropWhile_le [of "\<lambda>c. c \<noteq> CHR ''/''" "rev p"] Cons by simp
    with Cons show ?thesis by (simp add: path_dirname_def)
  next
    case Nil
    then show ?thesis unfolding path_dirname_def by (simp del: dropWhile_eq_Nil_conv)
  qed
  with 2 show ?case by (auto split: if_splits)
qed simp

lemma do_calls_frame:
  assumes "\<And>c w. c \<in> set cs \<Longrightarrow> wd_files (snd (c w)) q = wd_files w q"
  shows "wd_files (snd (do_calls cs w)) q = wd_files w q"
  using assms
proof (induction cs arbitrary: w)
  case (Cons c cs)
  obtain ok w1 where c: "c w = (ok, w1)" by (cases "c w")
  have "wd_files w1 q = wd_files w q" using Cons.prems [of c w] c by simp
  with c Cons show ?case by (cases ok) auto
qed simp

lemma managed_dir_path: "managedManifestPath homeDir = path_join homeDir MANAGED_DIR @ CHR ''/'' # MANAGED_FILE"
proof -
  have d: "split_on CHR ''/'' MANAGED_DIR = [MANAGED_DIR]" "list_all proper [MANAGED_DIR]"
    and f: "split_on CHR ''/'' MANAGED_FILE = [MANAGED_FILE]" "list_all proper [MANAGED_FILE]"
    by (simp_all add: MANAGED_DIR_def MANAGED_FILE_def proper_def)
  have a: "path_join (path_join homeDir MANAGED_DIR) MANAGED_FILE =
      render_path (absolute homeDir) ((segments homeDir @ [MANAGED_DIR]) @ [MANAGED_FILE])"
    using path_join_render [OF f, of "path_join homeDir MANAGED_DIR"] by (simp only: path_join_segments [OF d])
  show ?thesis
    unfolding managedManifestPath_def a
    by (subst path_join_render [OF d]) (simp add: render_path_def join_slash_snoc [of "segments homeDir @ [MANAGED_DIR]", simplified])
qed

lemma install_assets_files:
  "c \<in> set (install_assets L now hs) \<Longrightarrow>
     \<exists>h a d. h \<in> set hs \<and> c = install_file (path_join (dh_configDir h) (ASSET_FILENAMES a)) d"
  unfolding install_assets_def by (auto simp del: ASSET_FILENAMES.simps)

lemma manifest_frame:
  assumes "install_pins L (filter dh_present (detectHosts files homeDir)) w = (x, w1)"
    and "do_calls (mkdir_recursive (path_join homeDir MANAGED_DIR) # install_assets L now
      (filter dh_present (detectHosts files homeDir))) w1 = (ok, w2)"
  shows "wd_files w2 (managedManifestPath homeDir) = wd_files w (managedManifestPath homeDir)"
proof -
  let ?hs = "filter dh_present (detectHosts files homeDir)" and ?mp = "managedManifestPath homeDir"
  have hs: "path_join (dh_configDir h) (ASSET_FILENAMES a) \<noteq> ?mp" if "h \<in> set ?hs" for h a
    using that asset_not_manifest [of homeDir "dh_name h" a] by (auto simp: detectHosts_def asset_path_def Let_def)
  have "?mp \<notin> (\<lambda>h. path_join (dh_configDir h) (ASSET_FILENAMES Pin)) ` set ?hs"
  proof (rule notI, erule imageE)
    fix h assume "?mp = path_join (dh_configDir h) (ASSET_FILENAMES Pin)" "h \<in> set ?hs"
    with hs [of h Pin] show False by metis
  qed
  from install_pins_frame [OF this, of L w] have w1: "wd_files w1 ?mp = wd_files w ?mp" unfolding assms(1) by simp
  have asset: "wd_files (snd (install_file (path_join (dh_configDir h) (ASSET_FILENAMES a)) d w)) ?mp = wd_files w ?mp"
    if "h \<in> set ?hs" for h a d w
    using write_other [of ?mp "path_join (dh_configDir h) (ASSET_FILENAMES a)" d w] hs [OF that, of a]
    by (simp add: install_file_def)
  have mk: "wd_files (snd (mkdir_recursive (path_join homeDir MANAGED_DIR) w)) ?mp = wd_files w ?mp" for w
  proof -
    have "?mp \<notin> set (ancestors n (path_join homeDir MANAGED_DIR))" for n
      using length_ancestors [of ?mp n "path_join homeDir MANAGED_DIR"] by (auto simp: managed_dir_path MANAGED_FILE_def)
    moreover obtain f w' where n: "next_fault w = (f, w')" by (cases "next_fault w")
    ultimately show ?thesis using next_fault_files [OF n]
      by (auto simp: mkdir_recursive_def fs_call_def Let_def no_partial_def fold_directories split: fault.split option.split)
  qed
  have "wd_files (snd (do_calls (mkdir_recursive (path_join homeDir MANAGED_DIR) # install_assets L now ?hs) w1)) ?mp =
      wd_files w1 ?mp"
  proof (rule do_calls_frame)
    fix c w assume "c \<in> set (mkdir_recursive (path_join homeDir MANAGED_DIR) # install_assets L now ?hs)"
    then consider "c = mkdir_recursive (path_join homeDir MANAGED_DIR)" | "c \<in> set (install_assets L now ?hs)"
      by (metis set_ConsD)
    then show "wd_files (snd (c w)) ?mp = wd_files w ?mp"
    proof cases
      case 2
      then obtain h a d where "h \<in> set ?hs" "c = install_file (path_join (dh_configDir h) (ASSET_FILENAMES a)) d"
        using install_assets_files by blast
      then show ?thesis using asset by simp
    qed (simp add: mk)
  qed
  then show ?thesis unfolding assms(2) w1 by simp
qed

lemma installed:
  assumes "installIntegrations L parse version homeDir now w = (Some m, v)"
  shows "\<exists>es w1 (w2 :: world). install_pins L (filter dh_present (detectHosts (wd_files w) homeDir)) w = (Some es, w1) \<and>
    kept {} (wd_files w) (wd_files w2) \<and> kept {} (wd_files w1) (wd_files w2) \<and>
    wd_files w2 (managedManifestPath homeDir) = wd_files w (managedManifestPath homeDir) \<and>
    wd_files w2 (path_join homeDir MANAGED_DIR) = Some Directory \<and>
    m = installed_manifest version now (detectHosts (wd_files w) homeDir)
      (installed_composition (readManagedState L parse (wd_files w2) homeDir) (installed_snapshot L version now es)) \<and>
    wd_files v = (wd_files w2)(managedManifestPath homeDir \<mapsto> manifest_file L m)"
proof -
  let ?hs = "filter dh_present (detectHosts (wd_files w) homeDir)" and ?dir = "path_join homeDir MANAGED_DIR"
  obtain es w1 where p: "install_pins L ?hs w = (Some es, w1)"
    using assms by (auto simp: installIntegrations_def Let_def split: prod.splits option.splits)
  obtain w2 where d: "do_calls (mkdir_recursive ?dir # install_assets L now ?hs) w1 = (True, w2)"
    using assms p by (auto simp: installIntegrations_def Let_def simp del: do_calls.simps split: prod.splits bool.splits)
  obtain w0 where d0: "mkdir_recursive ?dir w1 = (True, w0)" "do_calls (install_assets L now ?hs) w0 = (True, w2)"
    using d by (auto split: prod.splits bool.splits)
  have "kept {} (wd_files w0) (wd_files (snd (do_calls (install_assets L now ?hs) w0)))"
    by (rule kept_do_calls) (auto simp: install_assets_def kept_install_file simp del: ASSET_FILENAMES.simps)
  then have k2: "kept {} (wd_files w0) (wd_files w2)" using d0 by simp
  have k1: "kept {} (wd_files w1) (wd_files w0)" using kept_mkdir [of "{}" w1 ?dir] d0 by simp
  have k0: "kept {} (wd_files w) (wd_files w1)" using kept_pins [of "{}" w L ?hs] p by simp
  have "split_on CHR ''/'' MANAGED_DIR = [MANAGED_DIR]" "list_all proper [MANAGED_DIR]"
    by (simp_all add: MANAGED_DIR_def proper_def)
  from path_join_render [OF this, of homeDir] have "?dir \<noteq> []"
    by (cases "segments homeDir = []") (auto simp: render_path_def join_slash_snoc MANAGED_DIR_def)
  then have "wd_files w0 ?dir = Some Directory" using mkdir_done [OF d0(1)] by simp
  then have dir: "wd_files w2 ?dir = Some Directory" using keptD [OF k2] by simp
  obtain m' where m': "m' = installed_manifest version now (detectHosts (wd_files w) homeDir)
      (installed_composition (readManagedState L parse (wd_files w2) homeDir) (installed_snapshot L version now es))" by simp
  have "write_path (managedManifestPath homeDir) (json_pretty (lib_number L) 0 (manifest_value m')) w2 = (True, v) \<and> m = m'"
    using assms p d unfolding m' installIntegrations_def Let_def managedManifestPath_def
    by (auto simp del: do_calls.simps split: prod.splits bool.splits)
  then have fv: "wd_files v = (wd_files w2)(managedManifestPath homeDir \<mapsto> manifest_file L m)" and eq: "m = m'"
    using write_path_written by (auto simp: manifest_file_def)
  show ?thesis
    by (intro exI conjI, rule p, rule kept_trans [OF kept_trans [OF k0 k1] k2], rule kept_trans [OF k1 k2],
      rule manifest_frame [OF p d], rule dir,
      rule trans [OF eq m'], rule fv)
qed

section \<open>A second install\<close>

lemma managed_pin_ok:
  assumes "\<And>s. hex64 (lib_sha256 L s)"
  shows "pin_entry_ok L (host_text h) (managedHostPin L h)"
proof -
  have "isPinVersion (J_num (Fin 1))" by code_simp
  then show ?thesis
    using assms by (cases h) (simp_all add: pin_entry_ok_def managedHostPin_def pinnedAiRuntimeRecord_def isComponentPin_def
      component_pin_def Let_def str_field_def isAssetBytes_def hashManagedAsset_def all_hosts_def)
qed

lemma installed_snapshot_ok:
  assumes sha: "\<And>s. hex64 (lib_sha256 L s)" and "isSemver version"
  shows "isSnapshot L (installed_snapshot L version now (created_pins L files hs))"
proof -
  have "isAssetBytes L (hashManagedAsset L s)" for s
    using sha by (simp add: isAssetBytes_def hashManagedAsset_def str_field_def)
  moreover have "is_sequence (J_num (Fin 0))" by code_simp
  moreover have "isPinnedComposition L (J_obj (created_pins L files hs))"
    by (auto simp: created_pins_def list_all_iff managed_pin_ok [OF sha])
  ultimately show ?thesis
    using assms(2) by (simp add: isSnapshot_def installed_snapshot_def snapshot_value_def Let_def str_field_def)
qed

lemma installed_manifest_ok:
  "isSemver version \<Longrightarrow> composition_ok L c \<Longrightarrow> manifest_ok L homeDir (installed_manifest version now (detectHosts files homeDir) c)"
  by (simp add: manifest_ok_def installed_manifest_def host_ok_def list_all_iff detectHosts_def Let_def)

lemma detected_paths:
  "distinct (map (\<lambda>h. path_join (dh_configDir h) (ASSET_FILENAMES Pin)) (filter dh_present (detectHosts files homeDir)))"
proof (rule distinct_map_filter)
  have "map (\<lambda>h. path_join (dh_configDir h) (ASSET_FILENAMES Pin)) (detectHosts files homeDir) =
      map (\<lambda>n. asset_path homeDir n Pin) all_hosts"
    by (simp add: detectHosts_def Let_def asset_path_def)
  moreover have "distinct (map (\<lambda>n. asset_path homeDir n Pin) all_hosts)"
    by (auto simp: distinct_map inj_on_def asset_path_inject all_hosts_def)
  ultimately show "distinct (map (\<lambda>h. path_join (dh_configDir h) (ASSET_FILENAMES Pin)) (detectHosts files homeDir))" by simp
qed

lemma get_pin_entries:
  "get_field (J_obj (created_pins L files hs)) (host_text n) =
     (if \<exists>h \<in> set hs. dh_name h = n \<and> files (path_join (dh_configDir h) (ASSET_FILENAMES Pin)) = None
      then managedHostPin L n else J_undefined)"
  by (induction hs) (auto simp: created_pins_def simp del: ASSET_FILENAMES.simps)

lemma detected_present: "h \<in> set (detectHosts files homeDir) \<Longrightarrow>
    dh_configDir h = reDeriveHostConfigDir homeDir (dh_name h) \<and>
    dh_present h = (files (reDeriveHostConfigDir homeDir (dh_name h)) \<noteq> None)"
  by (auto simp: detectHosts_def Let_def existsSync_def)

lemma detected_all: "\<exists>h \<in> set (detectHosts files homeDir). dh_name h = n"
  by (cases n) (simp_all add: detectHosts_def Let_def all_hosts_def)

text \<open>The first install of a home without manifest.\<close>

lemma first_install:
  assumes i: "installIntegrations L parse version homeDir now w = (Some m, v)"
    and "\<And>s. hex64 (lib_sha256 L s)" "isSemver version" "wd_files w (managedManifestPath homeDir) = None"
    and law: "parse_law L parse m"
  shows "m = installed_manifest version now (detectHosts (wd_files w) homeDir) \<lparr>mc_schemaVersion = COMPOSITION_SCHEMA_VERSION,
      mc_current = installed_snapshot L version now (created_pins L (wd_files w) (filter dh_present (detectHosts (wd_files w) homeDir))),
      mc_previous = J_null\<rparr>"
    and "manifest_ok L homeDir m" "readManagedState L parse (wd_files v) homeDir = State_current m"
    and "wd_files v (path_join homeDir MANAGED_DIR) = Some Directory"
    and "wd_files v (managedManifestPath homeDir) = Some (manifest_file L m)"
proof -
  let ?hs = "filter dh_present (detectHosts (wd_files w) homeDir)"
  obtain es w1 and w2 :: world where d: "install_pins L ?hs w = (Some es, w1)"
    "wd_files w2 (managedManifestPath homeDir) = wd_files w (managedManifestPath homeDir)"
    "wd_files w2 (path_join homeDir MANAGED_DIR) = Some Directory"
    "m = installed_manifest version now (detectHosts (wd_files w) homeDir)
      (installed_composition (readManagedState L parse (wd_files w2) homeDir) (installed_snapshot L version now es))"
    "wd_files v = (wd_files w2)(managedManifestPath homeDir \<mapsto> manifest_file L m)"
    using installed [OF i] by blast
  have es: "es = created_pins L (wd_files w) ?hs" by (rule install_pins_entries [OF d(1) detected_paths])
  have "readManagedState L parse (wd_files w2) homeDir = State_absent"
    using d(2) assms(4) by (simp add: readManagedState_def existsSync_def)
  then show m: "m = installed_manifest version now (detectHosts (wd_files w) homeDir) \<lparr>mc_schemaVersion = COMPOSITION_SCHEMA_VERSION,
      mc_current = installed_snapshot L version now (created_pins L (wd_files w) ?hs), mc_previous = J_null\<rparr>"
    using d(4) es by (simp add: installed_composition_def)
  have "is_sequence (J_num (Fin 2))" by code_simp
  then show ok: "manifest_ok L homeDir m"
    unfolding m by (intro installed_manifest_ok assms(3))
      (simp add: composition_ok_def COMPOSITION_SCHEMA_VERSION_def installed_snapshot_ok assms(2,3))
  show "readManagedState L parse (wd_files v) homeDir = State_current m"
    by (rule read_committed [OF _ law ok]) (simp add: d(5))
  show "wd_files v (managedManifestPath homeDir) = Some (manifest_file L m)" using d(5) by simp
  show "wd_files v (path_join homeDir MANAGED_DIR) = Some Directory"
    using d(3,5) asset_not_host_dir(2) [of homeDir Drenyra_pi]
    by (simp add: reDeriveHostConfigDir_def MANAGED_DIR_def)
qed

definition pins_free :: "file_map \<Rightarrow> js_string \<Rightarrow> bool" where
  "pins_free files homeDir = list_all (\<lambda>n. files (asset_path homeDir n Pin) = None) all_hosts"

lemma installed_pins_complete:
  assumes "pins_free files homeDir"
  shows "pinsComplete (installed_manifest version now (detectHosts files homeDir) c)
    (installed_snapshot L version now (created_pins L files (filter dh_present (detectHosts files homeDir))))"
proof -
  let ?hs = "filter dh_present (detectHosts files homeDir)"
  have "\<exists>g \<in> set ?hs. dh_name g = dh_name h \<and> files (path_join (dh_configDir g) (ASSET_FILENAMES Pin)) = None"
    if "h \<in> set ?hs" for h
  proof (intro bexI [of _ h] conjI refl that)
    have "dh_configDir h = reDeriveHostConfigDir homeDir (dh_name h)" using that detected_present [of h files homeDir] by simp
    moreover have "files (asset_path homeDir (dh_name h) Pin) = None"
      using assms by (cases "dh_name h") (simp_all add: pins_free_def all_hosts_def)
    ultimately show "files (path_join (dh_configDir h) (ASSET_FILENAMES Pin)) = None" by (simp only: asset_path_def)
  qed
  then have e: "get_field (J_obj (created_pins L files ?hs)) (host_text (dh_name h)) = managedHostPin L (dh_name h)"
    if "h \<in> set ?hs" for h using that unfolding get_pin_entries by presburger
  have "managedHostPin L n \<noteq> J_undefined" for n by (simp add: managedHostPin_def)
  with e have "get_field (J_obj (created_pins L files ?hs)) (host_text (dh_name h)) \<noteq> J_undefined"
    if "h \<in> set (detectHosts files homeDir)" "dh_present h" for h using that by simp
  then show ?thesis
    by (auto simp: pinsComplete_def installed_manifest_def installed_snapshot_def snapshot_value_def pin_of_def list_all_iff
      simp del: get_field.simps(1)) (simp_all add: list_all_iff)
qed

lemma upgrade_of_current:
  assumes "readManagedState L parse files homeDir = State_current m" "im_composition m = Some c"
    and "version_text (mc_current c) \<noteq> version"
  shows "planUpgrade L parse files homeDir version version now =
    (if pinsComplete m (mc_current c)
     then real_plan Upgraded files homeDir m (mc_current c) (upgrade_target L m (mc_current c) version now) (mc_current c)
     else Inl MANAGED_STATE_UNKNOWN)"
  using assms by (simp add: planUpgrade_def hydrateCurrentSnapshot_def Let_def)

text \<open>A later install keeps the composition.\<close>

lemma later_install:
  assumes i: "installIntegrations L parse version homeDir now w = (Some m', v)" and "isSemver version"
    and m: "wd_files w (managedManifestPath homeDir) = Some (manifest_file L m)" "manifest_ok L homeDir m"
      "parse_law L parse m" "im_composition m = Some c"
    and law: "parse_law L parse m'"
  shows "m' = installed_manifest version now (detectHosts (wd_files w) homeDir) c"
    and "readManagedState L parse (wd_files v) homeDir = State_current m'"
    and "h \<in> set (detectHosts (wd_files w) homeDir) \<Longrightarrow> dh_present h \<Longrightarrow> wd_files v (asset_path homeDir (dh_name h) Pin) \<noteq> None"
proof -
  let ?hs = "filter dh_present (detectHosts (wd_files w) homeDir)"
  obtain es w1 and w2 :: world where d: "install_pins L ?hs w = (Some es, w1)" "kept {} (wd_files w1) (wd_files w2)"
    "wd_files w2 (managedManifestPath homeDir) = wd_files w (managedManifestPath homeDir)"
    "m' = installed_manifest version now (detectHosts (wd_files w) homeDir)
      (installed_composition (readManagedState L parse (wd_files w2) homeDir) (installed_snapshot L version now es))"
    "wd_files v = (wd_files w2)(managedManifestPath homeDir \<mapsto> manifest_file L m')"
    using installed [OF i] by blast
  have "readManagedState L parse (wd_files w2) homeDir = State_current m"
    by (rule read_committed) (use d(3) m in simp_all)
  then show m': "m' = installed_manifest version now (detectHosts (wd_files w) homeDir) c"
    using d(4) m(4) by (simp add: installed_composition_def)
  have "manifest_ok L homeDir m'"
    unfolding m' by (rule installed_manifest_ok [OF assms(2)]) (use m(2,4) in \<open>simp add: manifest_ok_def\<close>)
  then show "readManagedState L parse (wd_files v) homeDir = State_current m'"
    by (intro read_committed [OF _ law]) (simp_all add: d(5))
  assume h: "h \<in> set (detectHosts (wd_files w) homeDir)" "dh_present h"
  then have p: "path_join (dh_configDir h) (ASSET_FILENAMES Pin) = asset_path homeDir (dh_name h) Pin"
    using detected_present [OF h(1)] by (simp only: asset_path_def)
  have "wd_files w1 (asset_path homeDir (dh_name h) Pin) \<noteq> None"
    using install_pins_exist [OF d(1), of h] h unfolding p by simp
  then show "wd_files v (asset_path homeDir (dh_name h) Pin) \<noteq> None"
    using keptD [OF d(2)] asset_not_manifest by (auto simp: d(5))
qed

lemma foreign_pin_fails:
  assumes "im_composition m = Some c" "get_field (mc_current c) ''pinnedComposition'' = J_obj fs"
    and h: "h \<in> set (im_hosts m)" "dh_present h" "get_field (J_obj fs) (host_text (dh_name h)) = J_undefined"
      "files (asset_path homeDir (dh_name h) Pin) \<noteq> None"
  shows "\<not> cd_ok (classifyPinnedRuntime files m homeDir)"
proof -
  let ?ds = "concat (map (\<lambda>h. pin_diagnostic files homeDir (J_obj fs) (dh_name h)) (filter dh_present (im_hosts m)))"
  have "\<lparr>hp_host = dh_name h, hp_state = Pin_foreign, hp_detail = Unmanaged_not_adopted\<rparr> \<in>
      set (pin_diagnostic files homeDir (J_obj fs) (dh_name h))"
    unfolding pin_diagnostic_def h(3) using h(4) by (simp add: existsSync_def)
  with h(1,2) have "\<lparr>hp_host = dh_name h, hp_state = Pin_foreign, hp_detail = Unmanaged_not_adopted\<rparr> \<in> set ?ds" by auto
  then have "\<not> list_all (\<lambda>d. hp_state d = Pin_managed) ?ds" by (fastforce simp: list_all_iff)
  then show ?thesis by (simp add: classifyPinnedRuntime_def assms(1,2) pinned_diagnostic_def Let_def)
qed

text \<open>On a home without the managed directory the first install records a composition from which an
  upgrade can be planned. The install itself creates that directory, which is also the configuration
  directory of a host, so a second install records this host as present and keeps the composition
  without its pin: from then on no upgrade is possible and the diagnostics fail.
\<close>

theorem second_install_blocks_upgrades:
  assumes sha: "\<forall>s. hex64 (lib_sha256 L s)" and "isSemver v1" "isSemver v2" "version \<noteq> v1"
    and w: "wd_files w (managedManifestPath homeDir) = None" "wd_files w (path_join homeDir MANAGED_DIR) = None"
    and i1: "installIntegrations L parse v1 homeDir now1 w = (Some m1, w1)"
    and i2: "installIntegrations L parse v2 homeDir now2 w1 = (Some m2, w2)"
    and law: "parse_law L parse m1" "parse_law L parse m2"
  shows "(pins_free (wd_files w) homeDir \<longrightarrow> (\<exists>p. planUpgrade L parse (wd_files w1) homeDir version version now3 = Inr p)) \<and>
    planUpgrade L parse (wd_files w2) homeDir version version now3 = Inl MANAGED_STATE_UNKNOWN \<and>
    (case runConfigDiagnostics L parse (wd_files w2) homeDir v2 of
       Inl e \<Rightarrow> False
     | Inr (ds, pinned) \<Rightarrow> \<not> cd_ok pinned)"
proof -
  let ?es = "created_pins L (wd_files w) (filter dh_present (detectHosts (wd_files w) homeDir))"
  let ?s = "installed_snapshot L v1 now1 ?es"
  have sha': "hex64 (lib_sha256 L s)" for s using sha by simp
  note F = first_install [OF i1 sha' assms(2) w(1) law(1)]
  define c where "c = \<lparr>mc_schemaVersion = COMPOSITION_SCHEMA_VERSION, mc_current = ?s, mc_previous = J_null\<rparr>"
  have c1: "im_composition m1 = Some c" and cs: "mc_current c = ?s" using F(1) by (simp_all add: installed_manifest_def c_def)
  note S = later_install [OF i2 assms(3) F(5,2) law(1) c1 law(2)]
  have c2: "im_composition m2 = Some c" using S(1) by (simp add: installed_manifest_def)
  have dir: "reDeriveHostConfigDir homeDir Drenyra_pi = path_join homeDir MANAGED_DIR"
    by (simp add: reDeriveHostConfigDir_def MANAGED_DIR_def)
  obtain h where h: "h \<in> set (detectHosts (wd_files w1) homeDir)" "dh_name h = Drenyra_pi" using detected_all by metis
  then have present: "dh_present h" using detected_present [OF h(1)] F(4) by (simp add: dir)
  have pin: "wd_files w2 (asset_path homeDir (dh_name h) Pin) \<noteq> None" by (rule S(3) [OF h(1) present])
  have "dh_name g \<noteq> Drenyra_pi" if "g \<in> set (filter dh_present (detectHosts (wd_files w) homeDir))" for g
    using that detected_present [of g "wd_files w" homeDir] w(2) dir by auto
  then have none: "get_field (J_obj ?es) (host_text Drenyra_pi) = J_undefined" unfolding get_pin_entries by auto
  have pc: "get_field ?s ''pinnedComposition'' = J_obj ?es" by (simp add: installed_snapshot_def snapshot_value_def)
  have v: "version_text ?s \<noteq> version"
    using assms(4) by (simp add: installed_snapshot_def snapshot_value_def version_text_def str_field_def)
  have pc': "get_field (mc_current c) ''pinnedComposition'' = J_obj ?es" by (simp only: cs pc)
  have none': "get_field (J_obj ?es) (host_text (dh_name h)) = J_undefined" by (simp only: h(2) none)
  have hm: "h \<in> set (im_hosts m2)" using h(1) S(1) by (simp add: installed_manifest_def)
  then have "\<not> pinsComplete m2 ?s"
    using present none h(2) unfolding pinsComplete_def pin_of_def pc list_all_iff by (auto simp del: get_field.simps)
  then have "planUpgrade L parse (wd_files w2) homeDir version version now3 = Inl MANAGED_STATE_UNKNOWN"
    using upgrade_of_current [OF S(2) c2] v by (simp add: cs)
  moreover have "\<exists>p. planUpgrade L parse (wd_files w1) homeDir version version now3 = Inr p" if "pins_free (wd_files w) homeDir"
    using upgrade_of_current [OF F(3) c1] v installed_pins_complete [OF that, of v1 now1 c L] F(1,2)
      real_plan_exists [of homeDir m1] by (simp add: cs c_def manifest_ok_def)
  moreover have "\<not> cd_ok (classifyPinnedRuntime (wd_files w2) m2 homeDir)"
    by (rule foreign_pin_fails [where files = "wd_files w2", OF c2 pc' hm present none' pin])
  ultimately show ?thesis
    by (simp add: runConfigDiagnostics_def S(2) hydrateCurrentSnapshot_def c2 manifest_diagnostics_def Let_def)
qed

section \<open>Installing twice into an empty home\<close>

definition bare_files :: file_map where
  "bare_files = (\<lambda>_. None)(''/'' \<mapsto> Directory, ''/h'' \<mapsto> Directory)"

definition bare_world :: world where
  "bare_world = \<lparr>wd_files = bare_files, wd_faults = [], wd_dead = False, wd_fresh = 0\<rparr>"

definition bare_hosts :: "bool \<Rightarrow> DetectedHost list" where
  "bare_hosts present =
     [\<lparr>dh_name = Codex, dh_configDir = ''/h/.codex'', dh_present = False\<rparr>,
      \<lparr>dh_name = Claude_code, dh_configDir = ''/h/.claude'', dh_present = False\<rparr>,
      \<lparr>dh_name = Opencode, dh_configDir = ''/h/.config/opencode'', dh_present = False\<rparr>,
      \<lparr>dh_name = Drenyra_pi, dh_configDir = ''/h/.drenyra'', dh_present = present\<rparr>]"

definition bare_composition :: ManagedComposition where
  "bare_composition = \<lparr>mc_schemaVersion = COMPOSITION_SCHEMA_VERSION,
     mc_current = installed_snapshot host_lib ''1.0.0'' ''t'' [], mc_previous = J_null\<rparr>"

definition bare_first :: InstallManifest where
  "bare_first = installed_manifest ''1.0.0'' ''t'' (bare_hosts False) bare_composition"

definition bare_second :: InstallManifest where
  "bare_second = installed_manifest ''1.1.0'' ''u'' (bare_hosts True) bare_composition"

definition bare_parse :: "js_string \<Rightarrow> js_value option" where
  "bare_parse s =
     (if s = json_pretty (lib_number host_lib) 0 (manifest_value bare_first) then Some (manifest_value bare_first)
      else Some (manifest_value bare_second))"

lemma bare_laws: "parse_law host_lib bare_parse bare_first" "parse_law host_lib bare_parse bare_second"
proof -
  have ne: "json_quote ''1.1.0'' @ x \<noteq> json_quote ''1.0.0'' @ y" for x y
  proof -
    have "json_char CHR ''1'' = ''1''" "json_char CHR ''0'' = ''0''" "json_char CHR ''.'' = ''.''" by code_simp+
    then show ?thesis by (simp add: json_quote_def)
  qed
  have "im_version bare_first = ''1.0.0''" "im_version bare_second = ''1.1.0''"
    by (simp_all add: bare_first_def bare_second_def installed_manifest_def)
  with ne have "json_pretty (lib_number host_lib) 0 (manifest_value bare_second) \<noteq>
      json_pretty (lib_number host_lib) 0 (manifest_value bare_first)"
    using json_head [of "lib_number host_lib" bare_first] json_head [of "lib_number host_lib" bare_second]
    by (metis same_append_eq)
  then show "parse_law host_lib bare_parse bare_first" "parse_law host_lib bare_parse bare_second"
    by (simp_all add: parse_law_def bare_parse_def)
qed

lemma bare_paths:
  "path_join ''/h'' MANAGED_DIR = ''/h/.drenyra''" "path_join ''/h/.drenyra'' MANAGED_FILE = ''/h/.drenyra/managed.json''"
  "managedManifestPath ''/h'' = ''/h/.drenyra/managed.json''"
  "path_join ''/h/.drenyra'' ''.drenyra-managed'' = ''/h/.drenyra/.drenyra-managed''"
  "path_join ''/h/.drenyra'' ''.drenyra-skills.json'' = ''/h/.drenyra/.drenyra-skills.json''"
  "path_join ''/h/.drenyra'' ''.drenyra-pinned-ai-runtime.json'' = ''/h/.drenyra/.drenyra-pinned-ai-runtime.json''"
  "ancestors (length ''/h/.drenyra'') ''/h/.drenyra'' = [''/h/.drenyra'', ''/h'', ''/'']"
  "path_dirname ''/h/.drenyra/managed.json'' = ''/h/.drenyra''"
  "path_dirname ''/h/.drenyra/.drenyra-managed'' = ''/h/.drenyra''"
  "path_dirname ''/h/.drenyra/.drenyra-skills.json'' = ''/h/.drenyra''"
  "path_dirname ''/h/.drenyra/.drenyra-pinned-ai-runtime.json'' = ''/h/.drenyra''"
  by code_simp+

lemma bare_derived: "reDeriveHostConfigDir ''/h'' Codex = ''/h/.codex''" "reDeriveHostConfigDir ''/h'' Claude_code = ''/h/.claude''"
  "reDeriveHostConfigDir ''/h'' Opencode = ''/h/.config/opencode''" "reDeriveHostConfigDir ''/h'' Drenyra_pi = ''/h/.drenyra''"
  by code_simp+

lemma write_path_new:
  assumes "quiet w" "wd_files w p = None" "wd_files w (path_dirname p) = Some Directory"
  shows "write_path p d w = (True, w\<lparr>wd_files := (wd_files w)(p \<mapsto> File d)\<rparr>)"
  unfolding write_path_def by (rule quiet_call) (use assms in simp_all)

lemma bare_sha: "hex64 (lib_sha256 host_lib s)"
proof -
  have "hex64 (replicate 64 (CHR ''0''))" by code_simp
  then show ?thesis by (simp add: host_lib_def)
qed

lemma bare_semver: "isSemver ''1.0.0''" "isSemver ''1.1.0''"
  by code_simp+

lemma install_returns:
  assumes "install_pins L (filter dh_present (detectHosts (wd_files w) homeDir)) w = (Some es, w1)"
    and "do_calls (mkdir_recursive (path_join homeDir MANAGED_DIR) # install_assets L now
      (filter dh_present (detectHosts (wd_files w) homeDir))) w1 = (True, w2)"
    and "m = installed_manifest version now (detectHosts (wd_files w) homeDir)
      (installed_composition (readManagedState L parse (wd_files w2) homeDir) (installed_snapshot L version now es))"
    and "write_path (managedManifestPath homeDir) (json_pretty (lib_number L) 0 (manifest_value m)) w2 = (True, v)"
  shows "installIntegrations L parse version homeDir now w = (Some m, v)"
  using assms by (simp add: installIntegrations_def Let_def managedManifestPath_def del: do_calls.simps)

definition bare_once :: world where
  "bare_once = bare_world\<lparr>wd_files := bare_files(''/h/.drenyra'' \<mapsto> Directory, ''/h'' \<mapsto> Directory, ''/'' \<mapsto> Directory,
     ''/h/.drenyra/managed.json'' \<mapsto> manifest_file host_lib bare_first)\<rparr>"

lemma bare_first_install: "installIntegrations host_lib bare_parse ''1.0.0'' ''/h'' ''t'' bare_world = (Some bare_first, bare_once)"
proof -
  have hosts: "detectHosts (wd_files bare_world) ''/h'' = bare_hosts False"
    by (simp add: detectHosts_def all_hosts_def bare_derived bare_hosts_def bare_world_def bare_files_def existsSync_def)
  let ?w1 = "bare_world\<lparr>wd_files := bare_files(''/h/.drenyra'' \<mapsto> Directory, ''/h'' \<mapsto> Directory, ''/'' \<mapsto> Directory)\<rparr>"
  have q: "quiet bare_world" by (simp add: quiet_def bare_world_def)
  have mk: "mkdir_recursive ''/h/.drenyra'' bare_world = (True, ?w1)"
    unfolding mkdir_recursive_def bare_paths(7) by (rule quiet_call [OF q]) (simp add: bare_world_def bare_files_def Let_def)
  have "readManagedState host_lib bare_parse (wd_files ?w1) ''/h'' = State_absent"
    by (simp add: readManagedState_def bare_paths existsSync_def bare_files_def)
  then have m: "bare_first = installed_manifest ''1.0.0'' ''t'' (detectHosts (wd_files bare_world) ''/h'')
      (installed_composition (readManagedState host_lib bare_parse (wd_files ?w1) ''/h'') (installed_snapshot host_lib ''1.0.0'' ''t'' []))"
    by (simp add: hosts bare_first_def bare_composition_def installed_composition_def)
  have none: "filter dh_present (detectHosts (wd_files bare_world) ''/h'') = []" by (simp add: hosts bare_hosts_def)
  show ?thesis
  proof (rule install_returns [OF _ _ m])
    show "install_pins host_lib (filter dh_present (detectHosts (wd_files bare_world) ''/h'')) bare_world = (Some [], bare_world)"
      by (simp add: none)
    show "do_calls (mkdir_recursive (path_join ''/h'' MANAGED_DIR) # install_assets host_lib ''t''
        (filter dh_present (detectHosts (wd_files bare_world) ''/h''))) bare_world = (True, ?w1)"
      unfolding none by (simp add: bare_paths mk install_assets_def)
    show "write_path (managedManifestPath ''/h'') (json_pretty (lib_number host_lib) 0 (manifest_value bare_first)) ?w1 =
        (True, bare_once)"
      unfolding bare_paths by (subst write_path_new) (simp_all add: q bare_paths bare_files_def bare_once_def manifest_file_def)
  qed
qed

definition bare_pinned :: file_map where
  "bare_pinned = (wd_files bare_once)(''/h/.drenyra/.drenyra-pinned-ai-runtime.json'' \<mapsto> File (renderPinnedAiRuntime host_lib Drenyra_pi))"

definition bare_marked :: file_map where
  "bare_marked = bare_pinned(''/h/.drenyra/.drenyra-managed'' \<mapsto> File (renderManagedMarker host_lib ''u''))"

definition bare_skilled :: file_map where
  "bare_skilled = bare_marked(''/h/.drenyra/.drenyra-skills.json'' \<mapsto> File (renderManagedSkills host_lib))"

lemma bare_second_install:
  "\<exists>v. installIntegrations host_lib bare_parse ''1.1.0'' ''/h'' ''u'' bare_once = (Some bare_second, v)"
proof -
  have f: "wd_files bare_once ''/h/.drenyra'' = Some Directory" "wd_files bare_once ''/h/.codex'' = None"
    "wd_files bare_once ''/h/.claude'' = None" "wd_files bare_once ''/h/.config/opencode'' = None"
    "wd_files bare_once ''/h/.drenyra/.drenyra-pinned-ai-runtime.json'' = None"
    "wd_files bare_once ''/h/.drenyra/.drenyra-managed'' = None" "wd_files bare_once ''/h/.drenyra/.drenyra-skills.json'' = None"
    "wd_files bare_once ''/h/.drenyra/managed.json'' = Some (manifest_file host_lib bare_first)"
    by (simp_all add: bare_once_def bare_files_def)
  have hosts: "detectHosts (wd_files bare_once) ''/h'' = bare_hosts True"
    by (simp add: detectHosts_def all_hosts_def bare_derived bare_hosts_def f existsSync_def)
  have present: "filter dh_present (detectHosts (wd_files bare_once) ''/h'') =
      [\<lparr>dh_name = Drenyra_pi, dh_configDir = ''/h/.drenyra'', dh_present = True\<rparr>]" by (simp add: hosts bare_hosts_def)
  have q: "quiet bare_once" by (simp add: quiet_def bare_once_def bare_world_def)
  let ?w = "\<lambda>g. bare_once\<lparr>wd_files := g\<rparr>"
  have pins: "install_pins host_lib (filter dh_present (detectHosts (wd_files bare_once) ''/h'')) bare_once =
      (Some [(''drenyra-pi'', managedHostPin host_lib Drenyra_pi)], ?w bare_pinned)"
    unfolding present by (simp add: bare_paths existsSync_def f write_path_new [OF q] bare_pinned_def Let_def)
  have mk: "mkdir_recursive ''/h/.drenyra'' (?w bare_pinned) = (True, ?w bare_pinned)"
    unfolding mkdir_recursive_def by (subst quiet_call [where g = bare_pinned]) (simp_all add: q bare_pinned_def f)
  have i1: "install_file ''/h/.drenyra/.drenyra-managed'' (renderManagedMarker host_lib ''u'') (?w bare_pinned) = (True, ?w bare_marked)"
    by (simp add: install_file_def existsSync_def bare_pinned_def f write_path_new q bare_paths bare_marked_def)
  have i2: "install_file ''/h/.drenyra/.drenyra-skills.json'' (renderManagedSkills host_lib) (?w bare_marked) = (True, ?w bare_skilled)"
    by (simp add: install_file_def existsSync_def bare_pinned_def f write_path_new q bare_paths bare_marked_def bare_skilled_def)
  have same: "bare_skilled ''/h/.drenyra/managed.json'' = Some (manifest_file host_lib bare_first)"
    by (simp add: bare_skilled_def bare_marked_def bare_pinned_def f)
  have ok: "manifest_ok host_lib ''/h'' bare_first"
    using first_install(2) [OF bare_first_install bare_sha _ _ bare_laws(1)]
    by (simp add: bare_semver bare_paths bare_world_def bare_files_def)
  have "readManagedState host_lib bare_parse bare_skilled ''/h'' = State_current bare_first"
    by (rule read_committed [OF _ bare_laws(1) ok]) (simp add: same bare_paths)
  then have m: "bare_second = installed_manifest ''1.1.0'' ''u'' (detectHosts (wd_files bare_once) ''/h'')
      (installed_composition (readManagedState host_lib bare_parse (wd_files (?w bare_skilled)) ''/h'')
        (installed_snapshot host_lib ''1.1.0'' ''u'' [(''drenyra-pi'', managedHostPin host_lib Drenyra_pi)]))"
    by (simp add: hosts bare_second_def bare_first_def installed_composition_def) (simp add: installed_manifest_def)
  have "\<exists>v. write_path (managedManifestPath ''/h'') d (?w bare_skilled) = (True, v)" for d
    unfolding bare_paths write_path_def
    by (subst quiet_call) (simp_all add: q same manifest_file_def)
  then obtain v where v: "write_path (managedManifestPath ''/h'') (json_pretty (lib_number host_lib) 0 (manifest_value bare_second))
      (?w bare_skilled) = (True, v)" by blast
  have "do_calls (mkdir_recursive (path_join ''/h'' MANAGED_DIR) # install_assets host_lib ''u''
      (filter dh_present (detectHosts (wd_files bare_once) ''/h''))) (?w bare_pinned) = (True, ?w bare_skilled)"
    unfolding present by (simp add: bare_paths mk i1 i2 install_assets_def)
  from install_returns [OF pins this m v] show ?thesis by blast
qed

theorem second_install_blocks_upgrades_witness:
  "\<exists>v p. installIntegrations host_lib bare_parse ''1.0.0'' ''/h'' ''t'' bare_world = (Some bare_first, bare_once) \<and>
     installIntegrations host_lib bare_parse ''1.1.0'' ''/h'' ''u'' bare_once = (Some bare_second, v) \<and>
     planUpgrade host_lib bare_parse (wd_files bare_once) ''/h'' ''1.1.0'' ''1.1.0'' ''u'' = Inr p \<and>
     planUpgrade host_lib bare_parse (wd_files v) ''/h'' ''1.1.0'' ''1.1.0'' ''u'' = Inl MANAGED_STATE_UNKNOWN"
proof -
  obtain v where v: "installIntegrations host_lib bare_parse ''1.1.0'' ''/h'' ''u'' bare_once = (Some bare_second, v)"
    using bare_second_install by blast
  have sha: "\<forall>s. hex64 (lib_sha256 host_lib s)" using bare_sha by simp
  have ne: "''1.1.0'' \<noteq> ''1.0.0''" by simp
  have w: "wd_files bare_world (managedManifestPath ''/h'') = None" "wd_files bare_world (path_join ''/h'' MANAGED_DIR) = None"
    by (simp_all add: bare_paths bare_world_def bare_files_def)
  have "pins_free (wd_files bare_world) ''/h''"
    unfolding pins_free_def all_hosts_def bare_world_def bare_files_def by code_simp
  with second_install_blocks_upgrades [OF sha bare_semver ne w bare_first_install v bare_laws, of "''u''"] bare_first_install v
  show ?thesis by blast
qed

end
