(* ===== verification/Mcp_Server.thy ===== *)
theory Mcp_Server
  imports Host_Files
begin

text \<open>
  \<^verbatim>\<open>mcp/protocol.ts\<close>, \<^verbatim>\<open>server.ts\<close> and \<^verbatim>\<open>stdio.ts\<close>: the JSON-RPC server over
  untyped messages, its loop over the lines of a transport and the adapter of Node's line events. \<open>JSON.parse\<close>
  is an argument. Handlers are functions of their input; a rejected promise is the text of its error.
\<close>

section \<open>Values a tool may return\<close>

text \<open>A value that may hold a BigInt, on which \<open>JSON.stringify\<close> throws.\<close>

datatype tool_value =
  T_json js_value | T_big int | T_arr "tool_value list" | T_obj "(js_string \<times> tool_value) list"

fun to_json :: "tool_value \<Rightarrow> js_value option" where
  "to_json (T_json v) = Some v"
| "to_json (T_big n) = None"
| "to_json (T_arr vs) = map_option J_arr (those (map to_json vs))"
| "to_json (T_obj fs) = map_option J_obj (those (map (\<lambda>(k, v). map_option (Pair k) (to_json v)) fs))"

section \<open>Messages\<close>

datatype RpcErrorCode = PARSE_ERROR | INVALID_RPC_REQUEST | METHOD_NOT_FOUND | INVALID_PARAMS | INTERNAL_RPC_ERROR

fun rpc_code :: "RpcErrorCode \<Rightarrow> int" where
  "rpc_code PARSE_ERROR = - 32700"
| "rpc_code INVALID_RPC_REQUEST = - 32600"
| "rpc_code METHOD_NOT_FOUND = - 32601"
| "rpc_code INVALID_PARAMS = - 32602"
| "rpc_code INTERNAL_RPC_ERROR = - 32603"

text \<open>\<open>k in value\<close>, for a key that no prototype has.\<close>

fun has_key :: "js_value \<Rightarrow> js_string \<Rightarrow> bool" where
  "has_key (J_obj fs) k = (map_of fs k \<noteq> None)"
| "has_key _ k = False"

fun is_string_value :: "js_value \<Rightarrow> bool" where
  "is_string_value (J_str _) = True"
| "is_string_value _ = False"

fun is_integer_value :: "js_value \<Rightarrow> bool" where
  "is_integer_value (J_num n) = is_integer n"
| "is_integer_value _ = False"

definition isRequest :: "js_value \<Rightarrow> bool" where
  "isRequest v \<longleftrightarrow>
     isRecord v \<and> get_field v ''jsonrpc'' = J_str ''2.0'' \<and> is_string_value (get_field v ''method'') \<and> has_key v ''id'' \<and>
     (is_integer_value (get_field v ''id'') \<or> is_string_value (get_field v ''id''))"

definition isNotification :: "js_value \<Rightarrow> bool" where
  "isNotification v \<longleftrightarrow>
     isRecord v \<and> get_field v ''jsonrpc'' = J_str ''2.0'' \<and> is_string_value (get_field v ''method'') \<and> \<not> has_key v ''id''"

definition rpc_result :: "js_value \<Rightarrow> js_value \<Rightarrow> js_value" where
  "rpc_result ident result = J_obj [(''jsonrpc'', J_str ''2.0''), (''id'', ident), (''result'', result)]"

definition rpc_error :: "js_value \<Rightarrow> RpcErrorCode \<Rightarrow> js_string \<Rightarrow> js_value" where
  "rpc_error ident code message =
     J_obj [(''jsonrpc'', J_str ''2.0''), (''id'', ident),
            (''error'', J_obj [(''code'', J_num (Fin (of_int (rpc_code code)))), (''message'', J_str message)])]"

section \<open>The server\<close>

record McpTool =
  tl_name :: js_string
  tl_description :: js_string
  tl_inputSchema :: js_value
  tl_handler :: "js_value \<Rightarrow> js_string + tool_value"

record McpServerInfo =
  si_name :: js_string
  si_version :: js_string

text \<open>The tools by name, in the order of a \<open>Map\<close>.\<close>

record McpServer =
  sv_tools :: "(js_string, McpTool) js_map"
  sv_info :: McpServerInfo

definition new_server :: "McpServerInfo \<Rightarrow> McpServer" where
  "new_server info = \<lparr>sv_tools = [], sv_info = info\<rparr>"

definition registerTool :: "McpTool \<Rightarrow> McpServer \<Rightarrow> McpServer" where
  "registerTool tool s = s\<lparr>sv_tools := AList.update (tl_name tool) tool (sv_tools s)\<rparr>"

definition listTools :: "McpServer \<Rightarrow> McpTool list" where
  "listTools s = map snd (sv_tools s)"

definition MCP_PROTOCOL_VERSION :: js_string where
  "MCP_PROTOCOL_VERSION = ''2025-03-26''"

definition tool_entry :: "McpTool \<Rightarrow> js_value" where
  "tool_entry t =
     J_obj [(''name'', J_str (tl_name t)), (''description'', J_str (tl_description t)),
            (''inputSchema'', tl_inputSchema t)]"

text \<open>The text of an \<open>undefined\<close> result is undefined.\<close>

definition content_text :: "js_lib \<Rightarrow> js_value \<Rightarrow> js_value" where
  "content_text L v = (if v = J_undefined then J_undefined else J_str (json_pretty (lib_number L) 0 v))"

definition callTool :: "js_lib \<Rightarrow> McpServer \<Rightarrow> js_value \<Rightarrow> js_value" where
  "callTool L s request =
     (let ident = get_field request ''id''; params = get_field request ''params''
      in case get_field params ''name'' of
           J_str name \<Rightarrow>
             (case map_of (sv_tools s) name of
                None \<Rightarrow> rpc_error ident METHOD_NOT_FOUND (''unknown tool: '' @ name)
              | Some tool \<Rightarrow>
                  (case tl_handler tool (get_field params ''arguments'') of
                     Inl message \<Rightarrow> rpc_error ident INTERNAL_RPC_ERROR message
                   | Inr result \<Rightarrow>
                       (case to_json result of
                          None \<Rightarrow> rpc_error ident INTERNAL_RPC_ERROR ''Do not know how to serialize a BigInt''
                        | Some v \<Rightarrow>
                            rpc_result ident
                              (J_obj [(''content'', J_arr [J_obj [(''type'', J_str ''text''), (''text'', content_text L v)]])]))))
         | _ \<Rightarrow> rpc_error ident INVALID_PARAMS ''missing tool name'')"

definition handleRequest :: "js_lib \<Rightarrow> McpServer \<Rightarrow> js_value \<Rightarrow> js_value" where
  "handleRequest L s request =
     (let ident = get_field request ''id''
      in case get_field request ''method'' of
           J_str name \<Rightarrow>
             (if name = ''initialize'' then
                rpc_result ident
                  (J_obj [(''protocolVersion'', J_str MCP_PROTOCOL_VERSION),
                          (''capabilities'', J_obj [(''tools'', J_obj [])]),
                          (''serverInfo'', J_obj [(''name'', J_str (si_name (sv_info s))),
                                                  (''version'', J_str (si_version (sv_info s)))])])
              else if name = ''ping'' then rpc_result ident (J_obj [])
              else if name = ''tools/list'' then
                rpc_result ident (J_obj [(''tools'', J_arr (map tool_entry (listTools s)))])
              else if name = ''tools/call'' then callTool L s request
              else rpc_error ident METHOD_NOT_FOUND (''method not found: '' @ name))
         | _ \<Rightarrow> rpc_error ident METHOD_NOT_FOUND [])"

text \<open>\<open>None\<close> where no response is sent.\<close>

definition handleMessage :: "js_lib \<Rightarrow> (js_string \<Rightarrow> js_value option) \<Rightarrow> McpServer \<Rightarrow> js_string \<Rightarrow> js_string option" where
  "handleMessage L parse s raw =
     (let serialize = json_stringify (lib_number L)
      in case parse raw of
           None \<Rightarrow> Some (serialize (rpc_error J_null PARSE_ERROR ''parse error''))
         | Some message \<Rightarrow>
             if \<not> isRequest message \<and> \<not> isNotification message
             then Some (serialize (rpc_error J_null INVALID_RPC_REQUEST ''invalid request''))
             else if isNotification message then None
             else Some (serialize (handleRequest L s message)))"

section \<open>The loop\<close>

text \<open>What is read and written until the end of the input: the count and the lines written.\<close>

fun stdio_loop :: "(js_string \<Rightarrow> js_string option) \<Rightarrow> int \<Rightarrow> int \<Rightarrow> js_string list \<Rightarrow> int \<times> js_string list" where
  "stdio_loop handle cap handled [] = (handled, [])"
| "stdio_loop handle cap handled (raw # lines) =
     (if 0 < cap \<and> cap \<le> handled then (handled, [])
      else (case stdio_loop handle cap (handled + 1) lines of
              (n, out) \<Rightarrow> (n, (case handle raw of None \<Rightarrow> out | Some response \<Rightarrow> response # out))))"

definition runMcpStdio ::
    "js_lib \<Rightarrow> (js_string \<Rightarrow> js_value option) \<Rightarrow> McpServer \<Rightarrow> int option \<Rightarrow> js_string list \<Rightarrow> int \<times> js_string list" where
  "runMcpStdio L parse s maxMessages lines =
     stdio_loop (handleMessage L parse s) (case maxMessages of None \<Rightarrow> 0 | Some n \<Rightarrow> n) 0 lines"

lemma stdio_loop_eq:
  assumes "n = (if 0 < cap then min (nat (cap - handled)) (length lines) else length lines)"
  shows "stdio_loop handle cap handled lines = (handled + int n, List.map_filter handle (take n lines))"
  using assms
proof (induction lines arbitrary: handled n)
  case (Cons raw lines)
  show ?case
  proof (cases "0 < cap \<and> cap \<le> handled")
    case False
    then obtain m where m: "n = Suc m"
      and m': "m = (if 0 < cap then min (nat (cap - (handled + 1))) (length lines) else length lines)"
      using Cons.prems by (cases n) (auto split: if_splits)
    from Cons.IH [OF m'] False m show ?thesis
      by (auto simp: List.map_filter_def split: option.split)
  qed (use Cons.prems in simp)
qed (simp add: List.map_filter_def)

section \<open>What a message is answered\<close>

text \<open>The response to a message that gets one.\<close>

definition response_of :: "js_lib \<Rightarrow> (js_string \<Rightarrow> js_value option) \<Rightarrow> McpServer \<Rightarrow> js_string \<Rightarrow> js_value" where
  "response_of L parse s raw =
     (case parse raw of
        None \<Rightarrow> rpc_error J_null PARSE_ERROR ''parse error''
      | Some message \<Rightarrow>
          if isRequest message then handleRequest L s message
          else rpc_error J_null INVALID_RPC_REQUEST ''invalid request'')"

definition expected_ident :: "(js_string \<Rightarrow> js_value option) \<Rightarrow> js_string \<Rightarrow> js_value" where
  "expected_ident parse raw =
     (case parse raw of
        None \<Rightarrow> J_null
      | Some message \<Rightarrow> if isRequest message then get_field message ''id'' else J_null)"

text \<open>Exactly one of a result and an error, under the given identifier.\<close>

definition answers :: "js_value \<Rightarrow> js_value \<Rightarrow> bool" where
  "answers ident response \<longleftrightarrow>
     get_field response ''jsonrpc'' = J_str ''2.0'' \<and> get_field response ''id'' = ident \<and>
     (get_field response ''result'' = J_undefined) \<noteq> (get_field response ''error'' = J_undefined)"

lemma answers_result [simp]: "v \<noteq> J_undefined \<Longrightarrow> answers ident (rpc_result ident v)"
  by (simp add: answers_def rpc_result_def)

lemma answers_error [simp]: "answers ident (rpc_error ident code message)"
  by (simp add: answers_def rpc_error_def)

lemma callTool_answers: "answers (get_field request ''id'') (callTool L s request)"
  by (simp add: callTool_def Let_def split: js_value.split option.split sum.split)

lemma handleRequest_answers: "answers (get_field request ''id'') (handleRequest L s request)"
  by (simp add: handleRequest_def Let_def callTool_answers split: js_value.split)

lemma request_or_notification: "isRequest v \<Longrightarrow> \<not> isNotification v"
  by (simp add: isRequest_def isNotification_def)

definition message_answered :: "js_lib \<Rightarrow> (js_string \<Rightarrow> js_value option) \<Rightarrow> McpServer \<Rightarrow> js_string \<Rightarrow> bool" where
  "message_answered L parse s raw \<longleftrightarrow>
     (case handleMessage L parse s raw of
        None \<Rightarrow> (case parse raw of None \<Rightarrow> False | Some message \<Rightarrow> isNotification message)
      | Some text \<Rightarrow>
          (\<exists>response. text = json_stringify (lib_number L) response \<and> answers (expected_ident parse raw) response))"

lemma every_message_answered: "message_answered L parse s raw"
proof (cases "parse raw")
  case (Some m)
  show ?thesis
  proof (cases "isRequest m")
    case True
    with request_or_notification [OF True] Some handleRequest_answers [of m L s] show ?thesis
      by (auto simp: message_answered_def handleMessage_def expected_ident_def Let_def)
  next
    case False
    with Some answers_error [of J_null INVALID_RPC_REQUEST "''invalid request''"] show ?thesis
      unfolding message_answered_def handleMessage_def expected_ident_def Let_def
      by (cases "isNotification m") auto
  qed
next
  case None
  with answers_error [of J_null PARSE_ERROR "''parse error''"] show ?thesis
    unfolding message_answered_def handleMessage_def expected_ident_def Let_def by auto
qed

text \<open>C33:
  The loop reads the lines up to its limit and writes, in their order, one response to every message
  that is not a notification, carrying the identifier of the request and either a result or an
  error; the number it returns is the number of lines read.
\<close>

theorem mcp_loop_answers_in_order:
  "runMcpStdio L parse s limit lines =
     (let n = (case limit of
                 None \<Rightarrow> length lines
               | Some k \<Rightarrow> if 0 < k then min (nat k) (length lines) else length lines)
      in (int n, List.map_filter (handleMessage L parse s) (take n lines))) \<and>
   list_all (message_answered L parse s) lines"
proof
  let ?cap = "case limit of None \<Rightarrow> 0 | Some n \<Rightarrow> n"
  let ?n = "if 0 < ?cap then min (nat (?cap - 0)) (length lines) else length lines"
  have "runMcpStdio L parse s limit lines = (int ?n, List.map_filter (handleMessage L parse s) (take ?n lines))"
    unfolding runMcpStdio_def by (subst stdio_loop_eq [OF refl]) simp
  also have "?n = (case limit of
      None \<Rightarrow> length lines | Some k \<Rightarrow> if 0 < k then min (nat k) (length lines) else length lines)"
    by (cases limit) simp_all
  finally show "runMcpStdio L parse s limit lines =
     (let n = (case limit of
                 None \<Rightarrow> length lines
               | Some k \<Rightarrow> if 0 < k then min (nat k) (length lines) else length lines)
      in (int n, List.map_filter (handleMessage L parse s) (take n lines)))"
    unfolding Let_def .
  show "list_all (message_answered L parse s) lines"
    by (simp add: list_all_iff every_message_answered)
qed

section \<open>Lines from events\<close>

text \<open>
  \<open>nodeStdioLines\<close>: lines queue up until they are read, a read without a line waits for the
  next event. A promise is the number of its \<open>readLine\<close> call; the lines received and the promises
  resolved, in order, are kept besides.
\<close>

record line_reader =
  lr_pending :: "js_string list"
  lr_waiting :: "nat option"
  lr_done :: bool
  lr_reads :: nat
  lr_received :: "js_string list"
  lr_resolved :: "(nat \<times> js_string option) list"

definition nodeStdioLines :: line_reader where
  "nodeStdioLines =
     \<lparr>lr_pending = [], lr_waiting = None, lr_done = False, lr_reads = 0, lr_received = [], lr_resolved = []\<rparr>"

definition resolve :: "nat \<Rightarrow> js_string option \<Rightarrow> line_reader \<Rightarrow> line_reader" where
  "resolve n v r = r\<lparr>lr_resolved := lr_resolved r @ [(n, v)]\<rparr>"

definition on_line :: "js_string \<Rightarrow> line_reader \<Rightarrow> line_reader" where
  "on_line l r =
     (let r1 = r\<lparr>lr_received := lr_received r @ [l]\<rparr>
      in case lr_waiting r of
           Some n \<Rightarrow> resolve n (Some l) (r1\<lparr>lr_waiting := None\<rparr>)
         | None \<Rightarrow> r1\<lparr>lr_pending := lr_pending r @ [l]\<rparr>)"

definition on_close :: "line_reader \<Rightarrow> line_reader" where
  "on_close r =
     (case lr_waiting r of
        Some n \<Rightarrow> resolve n None (r\<lparr>lr_done := True, lr_waiting := None\<rparr>)
      | None \<Rightarrow> r\<lparr>lr_done := True\<rparr>)"

definition readLine :: "line_reader \<Rightarrow> line_reader" where
  "readLine r =
     (let n = lr_reads r; r1 = r\<lparr>lr_reads := n + 1\<rparr>
      in case lr_pending r of
           l # ls \<Rightarrow> resolve n (Some l) (r1\<lparr>lr_pending := ls\<rparr>)
         | [] \<Rightarrow> if lr_done r then resolve n None r1 else r1\<lparr>lr_waiting := Some n\<rparr>)"

text \<open>The loop awaits each line, so that it never reads while a read waits.\<close>

inductive line_reachable :: "line_reader \<Rightarrow> bool" where
  start: "line_reachable nodeStdioLines"
| line: "line_reachable r \<Longrightarrow> line_reachable (on_line l r)"
| close: "line_reachable r \<Longrightarrow> line_reachable (on_close r)"
| read: "line_reachable r \<Longrightarrow> lr_waiting r = None \<Longrightarrow> line_reachable (readLine r)"

text \<open>The number of reads resolved so far.\<close>

definition answered_reads :: "line_reader \<Rightarrow> nat" where
  "answered_reads r = (case lr_waiting r of None \<Rightarrow> lr_reads r | Some n \<Rightarrow> n)"

definition line_invariant :: "line_reader \<Rightarrow> bool" where
  "line_invariant r \<longleftrightarrow>
     lr_received r = List.map_filter snd (lr_resolved r) @ lr_pending r \<and>
     map fst (lr_resolved r) = [0..<answered_reads r] \<and>
     (case lr_waiting r of
        None \<Rightarrow> True
      | Some n \<Rightarrow> lr_reads r = Suc n \<and> lr_pending r = [] \<and> \<not> lr_done r) \<and>
     (None \<in> snd ` set (lr_resolved r) \<longrightarrow> lr_done r)"

lemma map_filter_snoc: "List.map_filter f (xs @ [x]) = List.map_filter f xs @ (case f x of None \<Rightarrow> [] | Some y \<Rightarrow> [y])"
  by (simp add: List.map_filter_def split: option.split)

lemmas line_defs = line_invariant_def answered_reads_def resolve_def map_filter_snoc

text \<open>C34:
  As long as the loop waits for each line, every read is resolved once and in order, the lines read
  and those pending are exactly the lines received, and the end is reported only after the close.
\<close>

theorem lines_are_read_in_order:
  assumes "line_reachable r"
  shows "line_invariant r"
  using assms
proof induction
  case start
  show ?case by (simp add: nodeStdioLines_def line_defs List.map_filter_def)
next
  case (line r l)
  then show ?case by (cases "lr_waiting r") (auto simp: on_line_def line_defs Let_def)
next
  case (close r)
  then show ?case by (cases "lr_waiting r") (auto simp: on_close_def line_defs)
next
  case (read r)
  then show ?case by (cases "lr_pending r") (auto simp: readLine_def line_defs Let_def)
qed

theorem lines_are_read_in_order_witness:
  "line_invariant (readLine (on_close (on_line ''b'' (on_line ''a'' (readLine nodeStdioLines))))) \<and>
   lr_resolved (readLine (on_close (on_line ''b'' (on_line ''a'' (readLine nodeStdioLines))))) =
     [(0, Some ''a''), (1, Some ''b'')]"
proof
  show "line_invariant (readLine (on_close (on_line ''b'' (on_line ''a'' (readLine nodeStdioLines)))))"
    by (rule lines_are_read_in_order, intro line_reachable.intros) code_simp+
qed code_simp

end
