(* ===== verification/Mcp_Tools.thy ===== *)
theory Mcp_Tools
  imports Mcp_Server Bank_Reconciliation
begin

text \<open>
  \<^verbatim>\<open>mcp/tools.ts\<close>: the tools of the server over untyped inputs. \<open>bank.reconcile\<close> checks
  the shape of its input, then runs the engine of \<^verbatim>\<open>Bank_Reconciliation\<close>; all texts are those of the code.
\<close>

section \<open>Texts\<close>

definition in_quotes :: "js_string \<Rightarrow> js_string" where
  "in_quotes s = quote # s @ [quote]"

fun comma_list :: "js_string list \<Rightarrow> js_string" where
  "comma_list [] = []"
| "comma_list [s] = s"
| "comma_list (s # t # ss) = s @ '', '' @ comma_list (t # ss)"

section \<open>The declared capabilities\<close>

record DeclaredContract =
  dc_name :: js_string
  dc_version :: js_string
  dc_status :: js_string

record DeclaredCapabilities =
  cp_version :: js_string
  cp_contracts :: "DeclaredContract list"
  cp_jurisdictions :: "js_string list"
  cp_adapters :: "js_string list"

definition DECLARED_CONTRACTS :: "DeclaredContract list" where
  "DECLARED_CONTRACTS =
     map (\<lambda>name. \<lparr>dc_name = name, dc_version = ''0.1'', dc_status = ''FROZEN''\<rparr>)
       [''mission-protocol'', ''candidate'', ''receipt'', ''gate'', ''ledger'', ''recovery'']"

definition getDeclaredCapabilities :: "js_string \<Rightarrow> DeclaredCapabilities" where
  "getDeclaredCapabilities version =
     \<lparr>cp_version = version, cp_contracts = DECLARED_CONTRACTS, cp_jurisdictions = [''PE''], cp_adapters = []\<rparr>"

definition declared_value :: "DeclaredCapabilities \<Rightarrow> js_value" where
  "declared_value d =
     J_obj [(''version'', J_str (cp_version d)),
       (''contracts'', J_arr (map (\<lambda>c. J_obj [(''name'', J_str (dc_name c)), (''version'', J_str (dc_version c)),
                                              (''status'', J_str (dc_status c))]) (cp_contracts d))),
       (''jurisdictions'', J_arr (map J_str (cp_jurisdictions d))),
       (''adapters'', J_arr (map J_str (cp_adapters d)))]"

definition capabilitiesTool :: "DeclaredCapabilities \<Rightarrow> McpTool" where
  "capabilitiesTool declared =
     \<lparr>tl_name = ''capabilities'',
      tl_description = ''Declare available contracts, jurisdictions, skills, and adapters'',
      tl_inputSchema = J_obj [(''type'', J_str ''object''), (''properties'', J_obj []),
                              (''additionalProperties'', J_bool False)],
      tl_handler = (\<lambda>input. Inr (T_json (declared_value declared)))\<rparr>"

section \<open>The shape of the input\<close>

definition SCOPE_FIELDS :: "js_string list" where
  "SCOPE_FIELDS = [''ruc'', ''period'']"

definition TOP_LEVEL_FIELDS :: "js_string list" where
  "TOP_LEVEL_FIELDS = [''scope'', ''bank'', ''ledger'']"

definition BANK_ROW_FIELDS :: "js_string list" where
  "BANK_ROW_FIELDS = [''ruc'', ''date'', ''reference'', ''amount'', ''side'', ''sourceKey'']"

definition BANK_SIDE_TOKENS :: "js_string list" where
  "BANK_SIDE_TOKENS = [''deposit'', ''withdrawal'']"

definition LEDGER_SIDE_TOKENS :: "js_string list" where
  "LEDGER_SIDE_TOKENS = [''debit'', ''credit'']"

fun own_keys :: "js_value \<Rightarrow> js_string list" where
  "own_keys (J_obj fs) = map fst fs"
| "own_keys _ = []"

fun is_bare_object :: "js_value \<Rightarrow> bool" where
  "is_bare_object (J_obj _) = True"
| "is_bare_object _ = False"

text \<open>The first error of a list of checks.\<close>

fun first_fault :: "js_string option list \<Rightarrow> js_string option" where
  "first_fault [] = None"
| "first_fault (None # es) = first_fault es"
| "first_fault (Some e # es) = Some e"

text \<open>Exactly the given fields, the missing ones first.\<close>

definition fields_error :: "js_string \<Rightarrow> js_string list \<Rightarrow> js_value \<Rightarrow> js_string option" where
  "fields_error name wanted v =
     (case filter (\<lambda>f. \<not> has_key v f) wanted of
        f # _ \<Rightarrow> Some (name @ '' is missing required property '' @ in_quotes f)
      | [] \<Rightarrow>
          (let extra = filter (\<lambda>k. k \<notin> set wanted) (own_keys v)
           in if 0 < length extra then Some (name @ '' has extra properties: '' @ comma_list extra) else None))"

definition text_error :: "js_string \<Rightarrow> js_value \<Rightarrow> js_string \<Rightarrow> js_string option" where
  "text_error name v field =
     (if is_string_value (get_field v field) then None else Some (name @ ''.'' @ field @ '' must be a string''))"

definition scopeShapeError :: "js_value \<Rightarrow> js_string option" where
  "scopeShapeError scope =
     (if \<not> is_bare_object scope then Some ''scope must be an object''
      else first_fault [fields_error ''scope'' SCOPE_FIELDS scope, text_error ''scope'' scope ''ruc'',
                        text_error ''scope'' scope ''period''])"

definition amount_error :: "js_string \<Rightarrow> js_value \<Rightarrow> js_string option" where
  "amount_error path row =
     (if is_string_value (get_field row ''amount'') then None
      else Some (path @ ''.amount must be a decimal string, never a JSON number''))"

definition side_error :: "js_string \<Rightarrow> js_string list \<Rightarrow> js_value \<Rightarrow> js_string option" where
  "side_error path tokens row =
     (if \<exists>t \<in> set tokens. get_field row ''side'' = J_str t then None
      else Some (path @ ''.side must be one of '' @ comma_list (map in_quotes tokens)))"

definition rowShapeError :: "js_value \<Rightarrow> nat \<Rightarrow> js_string \<Rightarrow> js_string list \<Rightarrow> js_string option" where
  "rowShapeError row index label tokens =
     (let path = label @ ''['' @ dec_nat index @ '']''
      in if \<not> is_bare_object row then Some (path @ '' must be an object'')
         else first_fault
           [fields_error path BANK_ROW_FIELDS row, text_error path row ''ruc'', text_error path row ''date'',
            text_error path row ''reference'', amount_error path row, side_error path tokens row,
            text_error path row ''sourceKey''])"

fun rows_error :: "js_string \<Rightarrow> js_string list \<Rightarrow> nat \<Rightarrow> js_value list \<Rightarrow> js_string option" where
  "rows_error label tokens index [] = None"
| "rows_error label tokens index (row # rows) =
     (case rowShapeError row index label tokens of
        Some e \<Rightarrow> Some e
      | None \<Rightarrow> rows_error label tokens (index + 1) rows)"

fun items :: "js_value \<Rightarrow> js_value list" where
  "items (J_arr vs) = vs"
| "items _ = []"

definition array_error :: "js_string \<Rightarrow> js_value \<Rightarrow> js_string option" where
  "array_error name v = (case v of J_arr _ \<Rightarrow> None | _ \<Rightarrow> Some (name @ '' must be an array''))"

definition inputShapeError :: "js_value \<Rightarrow> js_string option" where
  "inputShapeError input =
     (if \<not> is_bare_object input then Some ''input must be an object''
      else first_fault
        [fields_error ''input'' TOP_LEVEL_FIELDS input, scopeShapeError (get_field input ''scope''),
         array_error ''bank'' (get_field input ''bank''), array_error ''ledger'' (get_field input ''ledger''),
         rows_error ''bank'' BANK_SIDE_TOKENS 0 (items (get_field input ''bank'')),
         rows_error ''ledger'' LEDGER_SIDE_TOKENS 0 (items (get_field input ''ledger''))])"

section \<open>The result\<close>

definition scope_of_input :: "js_value \<Rightarrow> BankScope" where
  "scope_of_input input =
     \<lparr>bs_ruc = str_field (get_field input ''scope'') ''ruc'', bs_period = str_field (get_field input ''scope'') ''period''\<rparr>"

definition row_of_value :: "js_value \<Rightarrow> RawRow" where
  "row_of_value v =
     \<lparr>rw_ruc = str_field v ''ruc'', rw_date = str_field v ''date'', rw_reference = str_field v ''reference'',
      rw_amount = str_field v ''amount'', rw_side = str_field v ''side'', rw_sourceKey = str_field v ''sourceKey''\<rparr>"

fun scope_message :: "scope_fault \<Rightarrow> js_string" where
  "scope_message (Bad_Ruc ruc) = ''invalid RUC '' @ in_quotes ruc @ '': expected exactly 11 digits''"
| "scope_message (Bad_Period period) = ''invalid fiscal period '' @ in_quotes period @ '': expected YYYYMM''"
| "scope_message (Bad_Month period) = ''invalid fiscal period '' @ in_quotes period @ '': month must be 01-12''"

fun rejection_text :: "rejection_detail \<Rightarrow> js_string" where
  "rejection_text (Foreign_Ruc ruc scope) = ''row RUC '' @ in_quotes ruc @ '' is outside scope RUC '' @ in_quotes scope"
| "rejection_text (Bad_Date_Format v) = ''date '' @ in_quotes v @ '' is not YYYY-MM-DD''"
| "rejection_text (No_Calendar_Date v) = ''date '' @ in_quotes v @ '' is not a real calendar date''"
| "rejection_text Empty_Reference = ''reference is empty after normalization''"
| "rejection_text (Not_Decimal a) = ''amount '' @ in_quotes a @ '' is not a decimal string of cents''"
| "rejection_text (Negative a) = ''amount '' @ in_quotes a @ '' is negative; direction must live in side''"
| "rejection_text (Fractional a) = ''amount '' @ in_quotes a @ '' has fractional cents; only integer cents are allowed''"
| "rejection_text (Not_Positive a) = ''amount '' @ in_quotes a @ '' must be a positive integer of cents''"
| "rejection_text (Unknown_Side t) = ''unknown side token '' @ in_quotes t"
| "rejection_text Empty_Key = ''sourceKey is empty; every row needs a unique id within its source set''"
| "rejection_text (Duplicate_Key k) = ''duplicate sourceKey '' @ in_quotes k @ '' within the same source set''"

fun rejection_code_text :: "rejection_code \<Rightarrow> js_string" where
  "rejection_code_text NORMALIZATION_REJECTED = ''NORMALIZATION_REJECTED''"
| "rejection_code_text CROSS_RUC_ACCESS = ''CROSS_RUC_ACCESS''"
| "rejection_code_text NEGATIVE_AMOUNT = ''NEGATIVE_AMOUNT''"
| "rejection_code_text FRACTIONAL_CENTS = ''FRACTIONAL_CENTS''"

definition rejection_value :: "Rejection \<Rightarrow> tool_value" where
  "rejection_value r =
     T_obj [(''sourceKey'', T_json (J_str (rj_sourceKey r))),
            (''code'', T_json (J_str (rejection_code_text (rj_code r)))),
            (''detail'', T_json (J_str (rejection_text (rj_detail r))))]"

text \<open>An inherited member of a side table: a function, but for the prototype itself.\<close>

fun wire_side :: "movement_side \<Rightarrow> tool_value" where
  "wire_side Inflow = T_json (J_str ''inflow'')"
| "wire_side Outflow = T_json (J_str ''outflow'')"
| "wire_side (Inherited token) = (if token = ''__proto__'' then T_obj [] else T_json J_undefined)"

fun source_value :: "movement_source \<Rightarrow> tool_value" where
  "source_value From_Bank = T_json (J_str ''bank'')"
| "source_value From_Ledger = T_json (J_str ''ledger'')"

definition movement_value :: "Movement \<Rightarrow> tool_value" where
  "movement_value m =
     T_obj [(''date'', T_json (J_str (mv_date m))), (''reference'', T_json (J_str (mv_reference m))),
            (''amountCents'', T_big (mv_amountCents m)), (''side'', wire_side (mv_side m)),
            (''source'', source_value (mv_source m)), (''sourceKey'', T_json (J_str (mv_sourceKey m)))]"

fun difference_value :: "difference \<Rightarrow> tool_value" where
  "difference_value (Matched b l) =
     T_obj [(''classification'', T_json (J_str ''matched'')), (''bank'', movement_value b), (''ledger'', movement_value l)]"
| "difference_value (Bank_Only b) =
     T_obj [(''classification'', T_json (J_str ''bankOnly'')), (''bank'', movement_value b)]"
| "difference_value (Ledger_Only l) =
     T_obj [(''classification'', T_json (J_str ''ledgerOnly'')), (''ledger'', movement_value l)]"
| "difference_value (Conflict r bs ls) =
     T_obj [(''classification'', T_json (J_str ''conflict'')), (''reference'', T_json (J_str r)),
            (''bank'', T_arr (map movement_value bs)), (''ledger'', T_arr (map movement_value ls))]"

fun toJsonSafe :: "tool_value \<Rightarrow> tool_value" where
  "toJsonSafe (T_big n) = T_json (J_str (dec_int n))"
| "toJsonSafe (T_arr vs) = T_arr (map toJsonSafe vs)"
| "toJsonSafe (T_obj fs) = T_obj (map (\<lambda>(k, v). (k, toJsonSafe v)) fs)"
| "toJsonSafe (T_json v) = T_json v"

definition refusal :: "js_string \<Rightarrow> js_string \<Rightarrow> (js_string \<times> tool_value) list \<Rightarrow> tool_value" where
  "refusal code message rest =
     T_obj ([(''ok'', T_json (J_bool False)), (''code'', T_json (J_str code)), (''message'', T_json (J_str message))] @ rest)"

text \<open>The scope is the object of the input.\<close>

definition reconciled_value :: "js_value \<Rightarrow> Reconciliation \<Rightarrow> tool_value" where
  "reconciled_value scope r =
     T_obj [(''ok'', T_json (J_bool True)),
            (''scope'', T_json scope),
            (''differences'', T_arr (map difference_value (rn_differences r))),
            (''fullyMatched'', T_json (J_bool (rn_fullyMatched r)))]"

definition rejected_message :: "nat \<Rightarrow> js_string" where
  "rejected_message n =
     dec_nat n @ '' row(s) rejected during normalization; reconcile is blocked until every row normalizes''"

definition bank_reconcile :: "(js_string \<Rightarrow> js_string \<Rightarrow> int) \<Rightarrow> js_value \<Rightarrow> tool_value" where
  "bank_reconcile cmp input =
     (case inputShapeError input of
        Some message \<Rightarrow> refusal ''INVALID_INPUT'' message []
      | None \<Rightarrow>
          (let scope = scope_of_input input;
               bank = map row_of_value (items (get_field input ''bank''));
               ledger = map row_of_value (items (get_field input ''ledger''))
           in case validateBankScope scope of
                Some e \<Rightarrow> refusal ''INVALID_SCOPE'' (scope_message e) []
              | None \<Rightarrow>
                  (case normalizeBankRows scope bank of
                     Inl e \<Rightarrow> refusal ''INVALID_SCOPE'' (scope_message e) []
                   | Inr bankResult \<Rightarrow>
                       (case normalizeLedgerRows scope ledger of
                          Inl e \<Rightarrow> refusal ''INVALID_SCOPE'' (scope_message e) []
                        | Inr ledgerResult \<Rightarrow>
                            (let rejections = nr_rejected bankResult @ nr_rejected ledgerResult
                             in if 0 < length rejections then
                                  refusal ''NORMALIZATION_REJECTED'' (rejected_message (length rejections))
                                    [(''rejections'', T_arr (map rejection_value rejections))]
                                else (case reconcile_movements cmp scope (nr_movements bankResult)
                                             (nr_movements ledgerResult) of
                                        Inl e \<Rightarrow> refusal ''INVALID_SCOPE'' (scope_message e) []
                                      | Inr r \<Rightarrow> toJsonSafe (reconciled_value (get_field input ''scope'') r)))))))"

text \<open>The schema the tool declares.\<close>

definition type_schema :: "js_string \<Rightarrow> js_value" where
  "type_schema t = J_obj [(''type'', J_str t)]"

definition object_schema :: "(js_string \<times> js_value) list \<Rightarrow> js_string list \<Rightarrow> js_value" where
  "object_schema properties names =
     J_obj [(''type'', J_str ''object''), (''properties'', J_obj properties), (''required'', J_arr (map J_str names)),
            (''additionalProperties'', J_bool False)]"

definition row_schema :: "js_string list \<Rightarrow> js_value" where
  "row_schema tokens =
     object_schema
       [(''ruc'', type_schema ''string''), (''date'', type_schema ''string''), (''reference'', type_schema ''string''),
        (''amount'', J_obj [(''type'', J_str ''string''),
           (''description'', J_str ''Decimal string of integer cents; never a JSON number'')]),
        (''side'', J_obj [(''enum'', J_arr (map J_str tokens))]), (''sourceKey'', type_schema ''string'')]
       BANK_ROW_FIELDS"

definition rows_schema :: "js_string \<Rightarrow> js_value" where
  "rows_schema definition_name =
     J_obj [(''type'', J_str ''array''), (''items'', J_obj [(''$ref'', J_str (''#/definitions/'' @ definition_name))])]"

definition BANK_RECONCILE_INPUT_SCHEMA :: js_value where
  "BANK_RECONCILE_INPUT_SCHEMA =
     J_obj [(''type'', J_str ''object''),
       (''properties'', J_obj
          [(''scope'', object_schema
              [(''ruc'', J_obj [(''type'', J_str ''string''), (''minLength'', J_num (Fin 11)), (''maxLength'', J_num (Fin 11))]),
               (''period'', J_obj [(''type'', J_str ''string''), (''pattern'', J_str (''^'' @ CHR 0x5C # ''d{6}$''))])]
              SCOPE_FIELDS),
           (''bank'', rows_schema ''bankRow''), (''ledger'', rows_schema ''ledgerRow'')]),
       (''required'', J_arr (map J_str TOP_LEVEL_FIELDS)), (''additionalProperties'', J_bool False),
       (''definitions'', J_obj [(''bankRow'', row_schema BANK_SIDE_TOKENS), (''ledgerRow'', row_schema LEDGER_SIDE_TOKENS)])]"

definition bankReconcileTool :: "(js_string \<Rightarrow> js_string \<Rightarrow> int) \<Rightarrow> McpTool" where
  "bankReconcileTool cmp =
     \<lparr>tl_name = ''bank.reconcile'',
      tl_description = ''Reconcile bank statement rows against ledger movements within one RUC + fiscal period '' @
        ''(read-only, advisory). Validates the scope, normalizes every row fail-closed, and delegates to the '' @
        ''deterministic bank-reconciliation engine; returns matched/bankOnly/ledgerOnly/conflict classifications '' @
        ''and the fullyMatched flag. Money travels as decimal strings; amounts are never JSON numbers.'',
      tl_inputSchema = BANK_RECONCILE_INPUT_SCHEMA,
      tl_handler = (\<lambda>input. Inr (bank_reconcile cmp input))\<rparr>"

section \<open>Which inputs are well shaped\<close>

definition exact_object :: "js_string list \<Rightarrow> js_value \<Rightarrow> bool" where
  "exact_object names v \<longleftrightarrow> is_bare_object v \<and> set (own_keys v) = set names"

definition texts :: "js_string list \<Rightarrow> js_value \<Rightarrow> bool" where
  "texts names v \<longleftrightarrow> list_all (\<lambda>f. is_string_value (get_field v f)) names"

definition well_shaped_row :: "js_string list \<Rightarrow> js_value \<Rightarrow> bool" where
  "well_shaped_row tokens v \<longleftrightarrow>
     exact_object BANK_ROW_FIELDS v \<and> texts BANK_ROW_FIELDS v \<and> str_field v ''side'' \<in> set tokens"

definition well_shaped_rows :: "js_string list \<Rightarrow> js_value \<Rightarrow> bool" where
  "well_shaped_rows tokens v \<longleftrightarrow> (\<exists>rows. v = J_arr rows \<and> list_all (well_shaped_row tokens) rows)"

definition well_shaped :: "js_value \<Rightarrow> bool" where
  "well_shaped input \<longleftrightarrow>
     exact_object TOP_LEVEL_FIELDS input \<and>
     exact_object SCOPE_FIELDS (get_field input ''scope'') \<and> texts SCOPE_FIELDS (get_field input ''scope'') \<and>
     well_shaped_rows BANK_SIDE_TOKENS (get_field input ''bank'') \<and>
     well_shaped_rows LEDGER_SIDE_TOKENS (get_field input ''ledger'')"

lemma first_error_None: "first_fault es = None \<longleftrightarrow> list_all (\<lambda>e. e = None) es"
  by (induction es rule: first_fault.induct) auto

lemma has_key_own: "is_bare_object v \<Longrightarrow> has_key v k \<longleftrightarrow> k \<in> set (own_keys v)"
  by (cases v) (auto simp: map_of_eq_None_iff image_iff)

lemma fields_error_None:
  "is_bare_object v \<Longrightarrow> fields_error name names v = None \<longleftrightarrow> set (own_keys v) = set names"
  by (auto simp: fields_error_def has_key_own filter_empty_conv Let_def split: list.splits if_splits)

lemma text_error_None [simp]: "text_error name v f = None \<longleftrightarrow> is_string_value (get_field v f)"
  by (simp add: text_error_def)

lemma is_text_str: "is_string_value v \<longleftrightarrow> (\<exists>s. v = J_str s)"
  by (cases v) auto

lemma side_error_None: "side_error path tokens v = None \<longleftrightarrow> is_string_value (get_field v ''side'') \<and> str_field v ''side'' \<in> set tokens"
  by (auto simp: side_error_def str_field_def is_text_str)

lemma scopeShapeError_None:
  "scopeShapeError v = None \<longleftrightarrow> exact_object SCOPE_FIELDS v \<and> texts SCOPE_FIELDS v"
  by (auto simp: scopeShapeError_def first_error_None fields_error_None exact_object_def texts_def SCOPE_FIELDS_def)

lemma rowShapeError_None: "rowShapeError v index label tokens = None \<longleftrightarrow> well_shaped_row tokens v"
  by (auto simp: rowShapeError_def first_error_None fields_error_None exact_object_def texts_def well_shaped_row_def
    amount_error_def side_error_None BANK_ROW_FIELDS_def Let_def)

lemma rows_error_None: "rows_error label tokens index rows = None \<longleftrightarrow> list_all (well_shaped_row tokens) rows"
proof (induction rows arbitrary: index)
  case (Cons row rows)
  then show ?case using rowShapeError_None [of row index label tokens] by (auto split: option.split)
qed simp

lemma array_error_None: "array_error name v = None \<longleftrightarrow> (\<exists>vs. v = J_arr vs)"
  by (cases v) (auto simp: array_error_def)

lemma inputShapeError_None: "inputShapeError input = None \<longleftrightarrow> well_shaped input"
  by (auto simp: inputShapeError_def first_error_None fields_error_None scopeShapeError_None array_error_None
    rows_error_None well_shaped_def exact_object_def well_shaped_rows_def)

section \<open>What reaches the wire\<close>

text \<open>The JSON of a value whose BigInts are written as decimal texts.\<close>

fun safe_json :: "tool_value \<Rightarrow> js_value" where
  "safe_json (T_big n) = J_str (dec_int n)"
| "safe_json (T_arr vs) = J_arr (map safe_json vs)"
| "safe_json (T_obj fs) = J_obj (map (\<lambda>(k, v). (k, safe_json v)) fs)"
| "safe_json (T_json v) = v"

fun no_number :: "js_value \<Rightarrow> bool" where
  "no_number (J_num n) = False"
| "no_number (J_arr vs) = list_all no_number vs"
| "no_number (J_obj fs) = list_all (\<lambda>(k, v). no_number v) fs"
| "no_number v = True"

fun numberless :: "tool_value \<Rightarrow> bool" where
  "numberless (T_json v) = no_number v"
| "numberless (T_big n) = True"
| "numberless (T_arr vs) = list_all numberless vs"
| "numberless (T_obj fs) = list_all (\<lambda>(k, v). numberless v) fs"

lemma those_Some: "(\<And>x. x \<in> set xs \<Longrightarrow> f x = Some (g x)) \<Longrightarrow> those (map f xs) = Some (map g xs)"
  by (induction xs) auto

lemma to_json_safe: "to_json (toJsonSafe v) = Some (safe_json v)"
proof (induction v)
  case (T_arr vs)
  then show ?case by (simp add: comp_def those_Some [of vs _ safe_json])
next
  case (T_obj fs)
  have "those (map (\<lambda>p. map_option (Pair (fst p)) (to_json (toJsonSafe (snd p)))) fs) =
      Some (map (\<lambda>p. (fst p, safe_json (snd p))) fs)"
    using T_obj by (intro those_Some) (auto simp: snds.simps)
  then show ?case by (simp add: comp_def case_prod_beta)
qed simp_all

lemma numberless_safe: "numberless v \<Longrightarrow> no_number (safe_json v)"
proof (induction v)
  case (T_obj fs)
  then show ?case by (fastforce simp: list_all_iff snds.simps)
qed (auto simp: list_all_iff)

lemma numberless_movement: "numberless (movement_value m)"
  by (cases "mv_side m"; cases "mv_source m") (simp_all add: movement_value_def)

lemma numberless_difference: "numberless (difference_value d)"
  by (cases d) (simp_all add: numberless_movement list_all_iff)

text \<open>Refusals hold no BigInt.\<close>

definition refusal_json :: "js_string \<Rightarrow> js_string \<Rightarrow> (js_string \<times> js_value) list \<Rightarrow> js_value" where
  "refusal_json code message rest = J_obj ([(''ok'', J_bool False), (''code'', J_str code), (''message'', J_str message)] @ rest)"

definition rejections_json :: "Rejection list \<Rightarrow> js_value" where
  "rejections_json rs = J_arr (map (\<lambda>r. safe_json (rejection_value r)) rs)"

lemma to_json_rejection: "to_json (rejection_value r) = Some (safe_json (rejection_value r))"
  by (simp add: rejection_value_def)

lemma to_json_refusal: "to_json (refusal code message []) = Some (refusal_json code message [])"
  by (simp add: refusal_def refusal_json_def)

lemma to_json_rejections:
  "to_json (refusal code message [(''rejections'', T_arr (map rejection_value rs))]) =
     Some (refusal_json code message [(''rejections'', rejections_json rs)])"
  using those_Some [of rs "\<lambda>r. to_json (rejection_value r)" "\<lambda>r. safe_json (rejection_value r)"] to_json_rejection
  by (simp add: refusal_def refusal_json_def rejections_json_def comp_def)

section \<open>The answer of the tool\<close>

definition tool_request :: "js_value \<Rightarrow> js_string \<Rightarrow> js_value \<Rightarrow> js_value" where
  "tool_request ident name input =
     J_obj [(''jsonrpc'', J_str ''2.0''), (''id'', ident), (''method'', J_str ''tools/call''),
            (''params'', J_obj [(''name'', J_str name), (''arguments'', input)])]"

definition bank_rows :: "js_value \<Rightarrow> RawRow list" where
  "bank_rows input = map row_of_value (items (get_field input ''bank''))"

definition ledger_rows :: "js_value \<Rightarrow> RawRow list" where
  "ledger_rows input = map row_of_value (items (get_field input ''ledger''))"

definition refused_rows :: "js_value \<Rightarrow> Rejection list" where
  "refused_rows input =
     nr_rejected (normalize_loop (scope_of_input input) From_Bank BANK_SIDE (bank_rows input) []) @
     nr_rejected (normalize_loop (scope_of_input input) From_Ledger LEDGER_SIDE (ledger_rows input) [])"

definition all_accounted :: "js_value \<Rightarrow> js_value \<Rightarrow> bool" where
  "all_accounted input answer \<longleftrightarrow>
     (\<exists>ds. get_field answer ''differences'' = J_arr (map (\<lambda>d. safe_json (difference_value d)) ds) \<and>
        get_field answer ''fullyMatched'' = J_bool (list_all is_matched ds) \<and>
        mset (map mv_sourceKey (concat (map bank_of ds))) = mset (map rw_sourceKey (bank_rows input)) \<and>
        mset (map mv_sourceKey (concat (map ledger_of ds))) = mset (map rw_sourceKey (ledger_rows input))) \<and>
     no_number (get_field answer ''differences'')"

text \<open>What the answer must be, for each kind of input.\<close>

definition bank_answer :: "js_value \<Rightarrow> js_value \<Rightarrow> bool" where
  "bank_answer input answer \<longleftrightarrow>
     (if \<not> well_shaped input then get_field answer ''code'' = J_str ''INVALID_INPUT''
      else if validateBankScope (scope_of_input input) \<noteq> None then get_field answer ''code'' = J_str ''INVALID_SCOPE''
      else if refused_rows input \<noteq> []
      then get_field answer ''code'' = J_str ''NORMALIZATION_REJECTED'' \<and>
        get_field answer ''rejections'' = rejections_json (refused_rows input)
      else get_field answer ''ok'' = J_bool True \<and> all_accounted input answer)"

lemma differences_numberless: "no_number (J_arr (map (\<lambda>d. safe_json (difference_value d)) ds))"
  by (simp add: list_all_iff numberless_safe numberless_difference)

lemma bank_accepts:
  assumes "well_shaped input" and "validateBankScope (scope_of_input input) = None" and "refused_rows input = []"
  shows "\<exists>j. to_json (bank_reconcile cmp input) = Some j \<and> get_field j ''ok'' = J_bool True \<and> all_accounted input j"
proof -
  let ?scope = "scope_of_input input"
  define nb where "nb = normalize_loop ?scope From_Bank BANK_SIDE (bank_rows input) []"
  define nl where "nl = normalize_loop ?scope From_Ledger LEDGER_SIDE (ledger_rows input) []"
  have n: "normalizeBankRows ?scope (bank_rows input) = Inr nb" "normalizeLedgerRows ?scope (ledger_rows input) = Inr nl"
    by (simp_all add: normalizeBankRows_def normalizeLedgerRows_def nb_def nl_def assms(2))
  have none: "nr_rejected nb = []" "nr_rejected nl = []" using assms(3) by (simp_all add: refused_rows_def nb_def nl_def)
  obtain r where r: "reconcile_movements cmp ?scope (nr_movements nb) (nr_movements nl) = Inr r"
    and full: "rn_fullyMatched r = list_all is_matched (rn_differences r)"
    by (simp add: reconcile_movements_def assms(2) Let_def)
  let ?v = "reconciled_value (get_field input ''scope'') r"
  have v: "bank_reconcile cmp input = toJsonSafe ?v"
    using n none r unfolding bank_rows_def ledger_rows_def
    by (simp add: bank_reconcile_def inputShapeError_None [THEN iffD2, OF assms(1)] assms(2) Let_def)
  have "distinct (map mv_sourceKey (nr_movements nb))" "distinct (map mv_sourceKey (nr_movements nl))"
    using normalize_loop_accepts [of From_Bank ?scope BANK_SIDE "bank_rows input" "[]"]
      normalize_loop_accepts [of From_Ledger ?scope LEDGER_SIDE "ledger_rows input" "[]"] by (simp_all add: nb_def nl_def)
  note E = every_movement_is_classified_once [OF this r]
  have "mset (map mv_sourceKey (concat (map bank_of (rn_differences r)))) = mset (map rw_sourceKey (bank_rows input))"
    "mset (map mv_sourceKey (concat (map ledger_of (rn_differences r)))) = mset (map rw_sourceKey (ledger_rows input))"
    using E none normalize_loop_keys [of "bank_rows input" ?scope From_Bank BANK_SIDE "[]"]
      normalize_loop_keys [of "ledger_rows input" ?scope From_Ledger LEDGER_SIDE "[]"]
    unfolding nb_def [symmetric] nl_def [symmetric] by (metis mset_map add.right_neutral list.simps(8) mset.simps(1))+
  moreover have "safe_json ?v = J_obj [(''ok'', J_bool True), (''scope'', get_field input ''scope''),
      (''differences'', J_arr (map (\<lambda>d. safe_json (difference_value d)) (rn_differences r))),
      (''fullyMatched'', J_bool (rn_fullyMatched r))]"
    by (simp add: reconciled_value_def comp_def)
  ultimately show ?thesis
    unfolding v to_json_safe all_accounted_def using full differences_numberless by auto
qed

lemma bank_answers:
  "\<exists>j. to_json (bank_reconcile cmp input) = Some j \<and> bank_answer input j \<and> is_bare_object j"
proof (cases "well_shaped input \<and> validateBankScope (scope_of_input input) = None \<and> refused_rows input = []")
  case True
  then obtain j where "to_json (bank_reconcile cmp input) = Some j" "get_field j ''ok'' = J_bool True" "all_accounted input j"
    using bank_accepts by blast
  moreover from this have "is_bare_object j" by (cases j) auto
  ultimately show ?thesis using True by (auto simp: bank_answer_def)
next
  case False
  note refusals = to_json_refusal to_json_rejections refusal_json_def bank_answer_def
  show ?thesis
  proof (cases "well_shaped input")
    case shaped: True
    then have shape: "inputShapeError input = None" by (simp add: inputShapeError_None)
    show ?thesis
    proof (cases "validateBankScope (scope_of_input input)")
      case None
      have "refused_rows input \<noteq> []" using False shaped None by simp
      with shape None shaped show ?thesis
        by (simp add: bank_reconcile_def normalizeBankRows_def normalizeLedgerRows_def Let_def
          refused_rows_def [unfolded bank_rows_def ledger_rows_def, symmetric] refusals)
    qed (use shape shaped in \<open>simp add: bank_reconcile_def Let_def refusals\<close>)
  next
    case bad: False
    then obtain e where "inputShapeError input = Some e" using inputShapeError_None by (metis not_Some_eq)
    with bad show ?thesis by (simp add: bank_reconcile_def refusals)
  qed
qed

text \<open>C35:
  The tool \<open>bank.reconcile\<close> answers every call with a result, never with a protocol error: it names
  the first fault of an ill-shaped input, an invalid scope or every rejected row, and otherwise
  reports differences that account for each row of the input exactly once and hold no JSON number.
\<close>

theorem bank_tool_answers_exactly:
  "\<exists>j. handleRequest L (registerTool (bankReconcileTool cmp) s) (tool_request ident ''bank.reconcile'' input) =
       rpc_result ident (J_obj [(''content'', J_arr [J_obj [(''type'', J_str ''text''),
         (''text'', J_str (json_pretty (lib_number L) 0 j))]])]) \<and>
     bank_answer input j"
proof -
  obtain j where j: "to_json (bank_reconcile cmp input) = Some j" "bank_answer input j" "is_bare_object j"
    using bank_answers by blast
  have "map_of (sv_tools (registerTool (bankReconcileTool cmp) s)) ''bank.reconcile'' = Some (bankReconcileTool cmp)"
    by (simp add: registerTool_def bankReconcileTool_def update_conv)
  moreover have "tl_handler (bankReconcileTool cmp) input = Inr (bank_reconcile cmp input)"
    by (simp add: bankReconcileTool_def)
  moreover have "content_text L j = J_str (json_pretty (lib_number L) 0 j)"
    using j(3) by (cases j) (simp_all add: content_text_def)
  ultimately show ?thesis
    using j by (intro exI [of _ j]) (simp add: handleRequest_def callTool_def tool_request_def Let_def)
qed

end
