(* ===== verification/Promoted.thy ===== *)
theory Promoted
  imports Managed_Install Mcp_Tools
begin

text \<open>
  \<^verbatim>\<open>configurator/package-metadata.ts\<close>, \<^verbatim>\<open>configurator/promoted-composition.ts\<close>, the
  report of \<^verbatim>\<open>cmd/commands/install.ts\<close> and \<^verbatim>\<open>cmd/commands/doctor.ts\<close>. \<open>JSON.parse\<close>,
  the version of Node and the directories of the process are arguments; texts of details are constructors. The caches of
  the package metadata are not modelled: they return what the first successful read returned.
\<close>

section \<open>The package root\<close>

text \<open>
  \<open>findPackageRoot\<close> on an absolute path without trailing slashes. \<open>Some None\<close> is the error of the
  code, \<open>None\<close> a walk without an end.
\<close>

partial_function (option) findPackageRoot :: "file_map \<Rightarrow> js_string \<Rightarrow> js_string option option" where
  "findPackageRoot files dir =
     (if existsSync files (path_join dir ''package.json'') then Some (Some dir)
      else (let parent = path_dirname dir
            in if parent = dir then Some None else findPackageRoot files parent))"

record PackageMetadata =
  pm_version :: js_string
  pm_node :: "js_string option"
  pm_packageRoot :: js_string

text \<open>The last is the \<open>TypeError\<close> of a manifest that is null.\<close>

datatype metadata_error = Root_not_found | Unreadable_manifest | Bad_package_version | Null_manifest

text \<open>A byte order mark is not a code unit below 256.\<close>

definition getPackageMetadata ::
    "(js_string \<Rightarrow> js_value option) \<Rightarrow> file_map \<Rightarrow> js_string option \<Rightarrow> metadata_error + PackageMetadata" where
  "getPackageMetadata parse files rootDir =
     (case rootDir of
        None \<Rightarrow> Inl Root_not_found
      | Some packageRoot \<Rightarrow>
          (case (case readFileSync files (path_join packageRoot ''package.json'') of
                   None \<Rightarrow> None | Some text \<Rightarrow> parse text) of
             None \<Rightarrow> Inl Unreadable_manifest
           | Some manifest \<Rightarrow>
               if manifest = J_null then Inl Null_manifest
               else (case get_field manifest ''version'' of
                  J_str v \<Rightarrow>
                    if length v = 0 then Inl Bad_package_version
                    else Inr \<lparr>pm_version = v,
                              pm_node = (case get_field (get_field manifest ''engines'') ''node'' of
                                           J_str n \<Rightarrow> Some n | _ \<Rightarrow> None),
                              pm_packageRoot = packageRoot\<rparr>
                | _ \<Rightarrow> Inl Bad_package_version)))"

section \<open>The promoted composition\<close>

record PromotedComposition =
  pc_version :: js_string
  pc_verifiedRevision :: js_string
  pc_hostArtifactSha256 :: js_string
  pc_setSha256 :: js_string
  pc_attestationTag :: js_string

datatype promoted_fault =
  Root_failed | Cannot_stat | Not_regular | Not_json | Not_an_object | Wrong_fields | Bad_version | Bad_revision
| Bad_artifact_hash | Bad_set_hash | Bad_tag

datatype PromotedCompositionRead =
  Promoted_valid PromotedComposition | Promoted_absent | Promoted_invalid promoted_fault

definition hex40 :: "js_string \<Rightarrow> bool" where
  "hex40 s \<longleftrightarrow> length s = 40 \<and> list_all is_hex_lower s"

text \<open>The strict semantic version: a core, a pre-release after the first hyphen, a build after the first plus.\<close>

definition ident_char :: "char \<Rightarrow> bool" where
  "ident_char c \<longleftrightarrow> is_digit c \<or> is_lower c \<or> is_upper c \<or> c = CHR ''-''"

definition numeric_ident :: "js_string \<Rightarrow> bool" where
  "numeric_ident s \<longleftrightarrow> digits s \<and> (s = ''0'' \<or> hd s \<noteq> CHR ''0'')"

definition pre_ident :: "js_string \<Rightarrow> bool" where
  "pre_ident s \<longleftrightarrow> numeric_ident s \<or> list_all ident_char s \<and> \<not> list_all is_digit s"

definition build_ident :: "js_string \<Rightarrow> bool" where
  "build_ident s \<longleftrightarrow> s \<noteq> [] \<and> list_all ident_char s"

text \<open>The text before the first \<open>c\<close>, and the text after it if there is one.\<close>

definition cut_at :: "char \<Rightarrow> js_string \<Rightarrow> js_string \<times> js_string option" where
  "cut_at c s =
     (takeWhile (\<lambda>d. d \<noteq> c) s, (case dropWhile (\<lambda>d. d \<noteq> c) s of [] \<Rightarrow> None | _ # r \<Rightarrow> Some r))"

definition idents :: "(js_string \<Rightarrow> bool) \<Rightarrow> js_string option \<Rightarrow> bool" where
  "idents P t = (case t of None \<Rightarrow> True | Some s \<Rightarrow> list_all P (split_on CHR ''.'' s))"

definition strict_semver :: "js_string \<Rightarrow> bool" where
  "strict_semver s \<longleftrightarrow>
     (case cut_at CHR ''+'' s of
        (a, build) \<Rightarrow>
          (case cut_at CHR ''-'' a of
             (core, pre) \<Rightarrow>
               length (split_on CHR ''.'' core) = 3 \<and> list_all numeric_ident (split_on CHR ''.'' core) \<and>
               idents pre_ident pre \<and> idents build_ident build))"

definition ALLOWED_KEYS :: "js_string list" where
  "ALLOWED_KEYS = [''version'', ''verifiedRevision'', ''hostArtifactSha256'', ''setSha256'', ''attestationTag'']"

text \<open>What \<open>lstat\<close> and the read of the manifest give.\<close>

datatype lstat_entry = Lstat_enoent | Lstat_error | Lstat_irregular | Lstat_file "js_string option"

definition text_where :: "(js_string \<Rightarrow> bool) \<Rightarrow> js_value \<Rightarrow> bool" where
  "text_where P v = (case v of J_str s \<Rightarrow> P s | _ \<Rightarrow> False)"

definition classifyPromoted :: "js_value \<Rightarrow> PromotedCompositionRead" where
  "classifyPromoted raw =
     (if \<not> is_bare_object raw then Promoted_invalid Not_an_object
      else (let keys = own_keys raw
            in if length keys \<noteq> length ALLOWED_KEYS \<or> \<not> list_all (\<lambda>k. k \<in> set keys) ALLOWED_KEYS
               then Promoted_invalid Wrong_fields
               else if \<not> text_where strict_semver (get_field raw ''version'') then Promoted_invalid Bad_version
               else if \<not> text_where hex40 (get_field raw ''verifiedRevision'') then Promoted_invalid Bad_revision
               else if \<not> text_where hex64 (get_field raw ''hostArtifactSha256'') then Promoted_invalid Bad_artifact_hash
               else if \<not> text_where hex64 (get_field raw ''setSha256'') then Promoted_invalid Bad_set_hash
               else if \<not> text_where (\<lambda>s. length (js_trim s) \<noteq> 0) (get_field raw ''attestationTag'')
               then Promoted_invalid Bad_tag
               else Promoted_valid
                 \<lparr>pc_version = str_field raw ''version'', pc_verifiedRevision = str_field raw ''verifiedRevision'',
                  pc_hostArtifactSha256 = str_field raw ''hostArtifactSha256'', pc_setSha256 = str_field raw ''setSha256'',
                  pc_attestationTag = str_field raw ''attestationTag''\<rparr>))"

definition readPromotedComposition ::
    "(js_string \<Rightarrow> js_value option) \<Rightarrow> (js_string \<Rightarrow> lstat_entry) \<Rightarrow> js_string option \<Rightarrow> PromotedCompositionRead" where
  "readPromotedComposition parse lstat rootDir =
     (case rootDir of
        None \<Rightarrow> Promoted_invalid Root_failed
      | Some packageRoot \<Rightarrow>
          (case lstat (path_join (path_join packageRoot ''dist'') ''promoted-composition.json'') of
             Lstat_enoent \<Rightarrow> Promoted_absent
           | Lstat_error \<Rightarrow> Promoted_invalid Cannot_stat
           | Lstat_irregular \<Rightarrow> Promoted_invalid Not_regular
           | Lstat_file content \<Rightarrow>
               (case (case content of None \<Rightarrow> None | Some text \<Rightarrow> parse text) of
                  None \<Rightarrow> Promoted_invalid Not_json
                | Some raw \<Rightarrow> classifyPromoted raw)))"

datatype VersionRelationship = Matches | Differs

definition relationship :: "PromotedComposition \<Rightarrow> js_string \<Rightarrow> VersionRelationship" where
  "relationship composition packageVersion = (if pc_version composition = packageVersion then Matches else Differs)"

datatype lock_detail =
  No_promoted_manifest | Promoted_manifest_invalid promoted_fault | Packaged_version_unknown js_string
| Promoted_matches js_string | Promoted_differs js_string js_string

record ProgramLockAwarenessDiagnostic =
  pl_ok :: bool
  pl_detail :: lock_detail
  pl_applicability :: applicability
  pl_packageVersion :: js_string
  pl_versionRelationship :: "VersionRelationship option"
  pl_promotedComposition :: "PromotedComposition option"

definition programLockAwarenessDiagnostic :: "PromotedCompositionRead \<Rightarrow> js_string \<Rightarrow> ProgramLockAwarenessDiagnostic" where
  "programLockAwarenessDiagnostic r packageVersion =
     (case r of
        Promoted_absent \<Rightarrow>
          \<lparr>pl_ok = True, pl_detail = No_promoted_manifest, pl_applicability = Not_applicable,
           pl_packageVersion = packageVersion, pl_versionRelationship = None, pl_promotedComposition = None\<rparr>
      | Promoted_invalid reason \<Rightarrow>
          \<lparr>pl_ok = False, pl_detail = Promoted_manifest_invalid reason, pl_applicability = Unverifiable,
           pl_packageVersion = packageVersion, pl_versionRelationship = None, pl_promotedComposition = None\<rparr>
      | Promoted_valid composition \<Rightarrow>
          if packageVersion = ''unknown'' then
            \<lparr>pl_ok = True, pl_detail = Packaged_version_unknown (pc_version composition), pl_applicability = Applicable,
             pl_packageVersion = packageVersion, pl_versionRelationship = None, pl_promotedComposition = Some composition\<rparr>
          else
            \<lparr>pl_ok = True,
             pl_detail = (if relationship composition packageVersion = Matches then Promoted_matches packageVersion
                          else Promoted_differs (pc_version composition) packageVersion),
             pl_applicability = Applicable, pl_packageVersion = packageVersion,
             pl_versionRelationship = Some (relationship composition packageVersion),
             pl_promotedComposition = Some composition\<rparr>)"

datatype PromotedCompositionReport =
  Report_available VersionRelationship PromotedComposition | Report_absent | Report_invalid promoted_fault

definition promotedCompositionReport :: "PromotedCompositionRead \<Rightarrow> js_string \<Rightarrow> PromotedCompositionReport" where
  "promotedCompositionReport r packageVersion =
     (case r of
        Promoted_absent \<Rightarrow> Report_absent
      | Promoted_invalid reason \<Rightarrow> Report_invalid reason
      | Promoted_valid composition \<Rightarrow> Report_available (relationship composition packageVersion) composition)"

section \<open>The doctor command\<close>

definition DECLARED_CONTRACT_FILES :: "js_string list" where
  "DECLARED_CONTRACT_FILES =
     [''mission-protocol.md'', ''candidate.md'', ''receipt.md'', ''gate.md'', ''ledger.md'', ''recovery.md'']"

definition DOCTOR_CLI_COMMANDS :: "js_string list" where
  "DOCTOR_CLI_COMMANDS =
     [''receipt verify'', ''ledger validate'', ''mission start'', ''mission apply'', ''mission status'', ''mission recover'',
      ''project'', ''candidate inspect'', ''candidate verify'', ''gate check'', ''capabilities'', ''doctor'']"

datatype HealthCheck =
  Check_node bool js_string js_string
| Check_version "js_string option"
| Check_contracts "js_string list"
| Check_cli nat
| Check_store bool
| Check_config ConfigDiagnostic
| Check_pins PinnedAiRuntimeDiagnostic
| Check_lock ProgramLockAwarenessDiagnostic

fun check_ok :: "HealthCheck \<Rightarrow> bool" where
  "check_ok (Check_node ok v required) = ok"
| "check_ok (Check_version v) = (v \<noteq> None)"
| "check_ok (Check_contracts missing) = (missing = [])"
| "check_ok (Check_cli n) = True"
| "check_ok (Check_store present) = True"
| "check_ok (Check_config d) = cd_ok d"
| "check_ok (Check_pins d) = cd_ok d"
| "check_ok (Check_lock d) = pl_ok d"

text \<open>The process the command runs in.\<close>

record process =
  ps_node :: js_string
  ps_cwd :: js_string
  ps_HOME :: "js_string option"

fun at_least_22 :: "js_number \<Rightarrow> bool" where
  "at_least_22 (Fin r) = (22 \<le> r)"
| "at_least_22 (Infinite negative) = (\<not> negative)"
| "at_least_22 NaN = False"

definition node_check :: "(js_string \<Rightarrow> js_number) \<Rightarrow> process \<Rightarrow> PackageMetadata option \<Rightarrow> HealthCheck" where
  "node_check num process metadata =
     Check_node (at_least_22 (js_Number num (hd (split_on CHR ''.'' (ps_node process))))) (ps_node process)
       (case metadata of None \<Rightarrow> ''>=22'' | Some m \<Rightarrow> (case pm_node m of None \<Rightarrow> ''>=22'' | Some r \<Rightarrow> r))"

definition missing_contracts :: "file_map \<Rightarrow> PackageMetadata option \<Rightarrow> js_string list" where
  "missing_contracts files metadata =
     (case metadata of
        None \<Rightarrow> DECLARED_CONTRACT_FILES
      | Some m \<Rightarrow>
          filter (\<lambda>file. \<not> existsSync files (path_join (path_join (pm_packageRoot m) ''contracts'') file)) DECLARED_CONTRACT_FILES)"

text \<open>The checks and the exit code; an error of the diagnostics ends the command.\<close>

definition doctorCommand ::
    "js_lib \<Rightarrow> (js_string \<Rightarrow> js_number) \<Rightarrow> (js_string \<Rightarrow> js_value option) \<Rightarrow> file_map \<Rightarrow> process \<Rightarrow>
     PackageMetadata option \<Rightarrow> js_string option \<Rightarrow> PromotedCompositionRead \<Rightarrow> js_string list \<Rightarrow>
     ManagedConfigError + HealthCheck list \<times> int" where
  "doctorCommand L num parse files process metadata packaged promoted args =
     (let packagedVersion = (case packaged of
                               Some v \<Rightarrow> v
                             | None \<Rightarrow> (case metadata of None \<Rightarrow> ''unknown'' | Some m \<Rightarrow> pm_version m));
          home = homeFromArgs (ps_HOME process) (ps_cwd process) args
      in case runConfigDiagnostics L parse files home packagedVersion of
           Inl e \<Rightarrow> Inl e
         | Inr (diagnostics, pins) \<Rightarrow>
             (let checks =
                [node_check num process metadata, Check_version (map_option pm_version metadata),
                 Check_contracts (missing_contracts files metadata), Check_cli (length DOCTOR_CLI_COMMANDS),
                 Check_store (existsSync files (path_join (ps_cwd process) ''drenyra-missions.json''))] @
                map Check_config diagnostics @ [Check_pins pins] @
                [Check_lock (programLockAwarenessDiagnostic promoted packagedVersion)];
                failed = filter (\<lambda>c. \<not> check_ok c) checks
              in Inr (checks, if 0 < length failed then 1 else 0)))"

section \<open>The walk to the package root ends\<close>

definition walk_measure :: "js_string \<Rightarrow> nat" where
  "walk_measure p = (if p = ''.'' then 0 else Suc (length p))"

lemma dirname_shrinks: "path_dirname p \<noteq> p \<Longrightarrow> walk_measure (path_dirname p) < walk_measure p"
proof -
  assume ne: "path_dirname p \<noteq> p"
  show ?thesis
  proof (cases "dropWhile (\<lambda>c. c \<noteq> CHR ''/'') (rev p)")
    case Nil
    have "path_dirname p = ''.''" unfolding path_dirname_def Nil by simp
    with ne show ?thesis by (auto simp: walk_measure_def)
  next
      case (Cons d r)
    define t where "t = rev (takeWhile (\<lambda>c. c \<noteq> CHR ''/'') (rev p))"
    have "rev p = rev t @ d # r" unfolding t_def rev_rev_ident Cons [symmetric] by (rule takeWhile_dropWhile_id [symmetric])
    moreover have "d = CHR ''/''" using hd_dropWhile [of "\<lambda>c. c \<noteq> CHR ''/''" "rev p"] Cons by simp
    ultimately have p: "p = rev r @ CHR ''/'' # t" by (metis append.assoc append_Cons append_Nil rev.simps(2) rev_append rev_rev_ident)
    then have dot: "p \<noteq> ''.''" by (cases "rev r") auto
    show ?thesis
    proof (cases "dropWhile (\<lambda>c. c = CHR ''/'') r = []")
      case True
      then have d: "path_dirname p = ''/''" unfolding path_dirname_def Cons by simp
      then have "r \<noteq> [] \<or> t \<noteq> []" using ne p by auto
      then have "Suc 0 < length p" by (auto simp: p)
      with d dot show ?thesis by (simp add: walk_measure_def)
    next
      case False
      then have "path_dirname p = rev r" by (simp only: path_dirname_def Cons list.case if_False)
      then show ?thesis using dot p by (simp add: walk_measure_def)
    qed
  qed
qed

text \<open>C38:
  The walk to the package root always ends, after at most two more steps than the path has
  characters: with the nearest directory above that holds a manifest, or with the code's error when
  there is none.
\<close>

theorem package_root_walk_terminates:
  "findPackageRoot files dir =
     Some (find (\<lambda>d. existsSync files (path_join d ''package.json'')) (ancestors (length dir + 2) dir))"
proof -
  have "walk_measure p < n \<Longrightarrow>
      findPackageRoot files p = Some (find (\<lambda>d. existsSync files (path_join d ''package.json'')) (ancestors n p))" for n p
  proof (induction n arbitrary: p)
    case (Suc n)
    show ?case
    proof (cases "existsSync files (path_join p ''package.json'') \<or> path_dirname p = p")
      case True
      then show ?thesis by (subst findPackageRoot.simps) auto
    next
      case False
      with dirname_shrinks [of p] Suc.prems have "walk_measure (path_dirname p) < n" by simp
      from Suc.IH [OF this] False show ?thesis by (subst findPackageRoot.simps) (simp add: Let_def)
    qed
  qed simp
  moreover have "walk_measure dir < length dir + 2" by (simp add: walk_measure_def)
  ultimately show ?thesis by blast
qed

section \<open>What the doctor's exit code means\<close>

definition asset_healthy :: "file_map \<Rightarrow> js_string \<Rightarrow> HydratedSnapshot \<Rightarrow> HostName \<Rightarrow> ManagedAssetName \<Rightarrow> bool" where
  "asset_healthy files home hydrated h a \<longleftrightarrow>
     existsSync files (asset_path home h a) \<and>
     (a = Skills \<and> \<not> hy_skillsAvailable hydrated \<or>
      readFileSync files (asset_path home h a) = Some (asset_content (hy_snapshot hydrated) a))"

definition pin_healthy :: "file_map \<Rightarrow> js_string \<Rightarrow> js_value \<Rightarrow> HostName \<Rightarrow> bool" where
  "pin_healthy files home pinned h \<longleftrightarrow>
     (let entry = get_field pinned (host_text h)
      in if entry = J_undefined then \<not> existsSync files (asset_path home h Pin)
         else readFileSync files (asset_path home h Pin) =
           Some (str_field (get_field entry ''managedAsset'') ''content''))"

definition recorded_pins :: "InstallManifest \<Rightarrow> js_value" where
  "recorded_pins m =
     (case im_composition m of None \<Rightarrow> J_undefined | Some c \<Rightarrow> get_field (mc_current c) ''pinnedComposition'')"

definition manifest_healthy :: "file_map \<Rightarrow> js_string \<Rightarrow> js_string \<Rightarrow> InstallManifest \<Rightarrow> HydratedSnapshot \<Rightarrow> bool" where
  "manifest_healthy files home packagedVersion m hydrated \<longleftrightarrow>
     version_text (hy_snapshot hydrated) = packagedVersion \<and>
     list_all (\<lambda>h. existsSync files (reDeriveHostConfigDir home (dh_name h)) \<and>
         asset_healthy files home hydrated (dh_name h) Marker \<and> asset_healthy files home hydrated (dh_name h) Skills)
       (filter dh_present (im_hosts m)) \<and>
     (recorded_pins m = J_undefined \<or>
      list_all (\<lambda>h. pin_healthy files home (recorded_pins m) (dh_name h)) (filter dh_present (im_hosts m)))"

lemma pin_diagnostic_ok:
  "list_all (\<lambda>d. hp_state d = Pin_managed) (pin_diagnostic files home pinned h) \<longleftrightarrow> pin_healthy files home pinned h"
  by (auto simp: pin_diagnostic_def pin_healthy_def Let_def existsSync_def readFileSync_def split: option.split fs_entry.split)

lemma list_all_concat: "list_all P (concat (map f xs)) \<longleftrightarrow> list_all (\<lambda>x. list_all P (f x)) xs"
  by (induction xs) simp_all

lemma pins_check_ok:
  "cd_ok (classifyPinnedRuntime files m home) \<longleftrightarrow>
     recorded_pins m = J_undefined \<or>
     list_all (\<lambda>h. pin_healthy files home (recorded_pins m) (dh_name h)) (filter dh_present (im_hosts m))"
  unfolding classifyPinnedRuntime_def recorded_pins_def [symmetric] Let_def
  by (simp add: pinned_diagnostic_def list_all_concat pin_diagnostic_ok)

lemma host_clean:
  "drift_of files home (hy_snapshot hy) (hy_skillsAvailable hy) h = [] \<and> missing_of files home h = [] \<longleftrightarrow>
     existsSync files (reDeriveHostConfigDir home h) \<and> asset_healthy files home hy h Marker \<and> asset_healthy files home hy h Skills"
  by (auto simp: drift_of_def missing_of_def asset_healthy_def Let_def simp del: ASSET_FILENAMES.simps
    split: option.splits if_splits)

lemma manifest_diagnostics_ok:
  assumes "manifest_diagnostics files home v legacy m hy = (ds, pins)"
  shows "list_all cd_ok ds \<and> cd_ok pins \<longleftrightarrow> manifest_healthy files home v m hy"
proof -
  let ?present = "filter dh_present (im_hosts m)"
  have "list_all cd_ok ds \<longleftrightarrow> version_text (hy_snapshot hy) = v \<and>
      list_all (\<lambda>h. drift_of files home (hy_snapshot hy) (hy_skillsAvailable hy) (dh_name h) = []) ?present \<and>
      list_all (\<lambda>h. missing_of files home (dh_name h) = []) ?present"
    using assms by (cases "version_text (hy_snapshot hy) = v")
      (auto simp: manifest_diagnostics_def diagnostic_def Let_def list_all_iff)
  also have "\<dots> \<longleftrightarrow> version_text (hy_snapshot hy) = v \<and>
      list_all (\<lambda>h. existsSync files (reDeriveHostConfigDir home (dh_name h)) \<and>
        asset_healthy files home hy (dh_name h) Marker \<and> asset_healthy files home hy (dh_name h) Skills) ?present"
    unfolding host_clean [symmetric] by (auto simp: list_all_iff)
  finally have ds: "list_all cd_ok ds \<longleftrightarrow> \<dots>" .
  have "pins = classifyPinnedRuntime files m home" using assms by (simp add: manifest_diagnostics_def Let_def)
  with ds pins_check_ok [of files m home] show ?thesis by (simp add: manifest_healthy_def)
qed

text \<open>What the exit code 0 stands for.\<close>

definition package_healthy :: "(js_string \<Rightarrow> js_number) \<Rightarrow> file_map \<Rightarrow> process \<Rightarrow> PackageMetadata option \<Rightarrow> bool" where
  "package_healthy num files process metadata \<longleftrightarrow>
     at_least_22 (js_Number num (hd (split_on CHR ''.'' (ps_node process)))) \<and>
     (case metadata of
        None \<Rightarrow> False
      | Some m \<Rightarrow>
          list_all (\<lambda>file. existsSync files (path_join (path_join (pm_packageRoot m) ''contracts'') file)) DECLARED_CONTRACT_FILES)"

definition state_healthy ::
    "js_lib \<Rightarrow> (js_string \<Rightarrow> js_value option) \<Rightarrow> file_map \<Rightarrow> js_string \<Rightarrow> js_string \<Rightarrow> bool" where
  "state_healthy L parse files home v \<longleftrightarrow>
     (case readManagedState L parse files home of
        State_absent \<Rightarrow> True
      | State_invalid _ \<Rightarrow> False
      | State_legacy m \<Rightarrow>
          (case hydrateCurrentSnapshot L files m home False of Inl _ \<Rightarrow> False | Inr hy \<Rightarrow> manifest_healthy files home v m hy)
      | State_current m \<Rightarrow>
          (case hydrateCurrentSnapshot L files m home False of Inl _ \<Rightarrow> False | Inr hy \<Rightarrow> manifest_healthy files home v m hy))"

lemma run_diagnostics_ok:
  "runConfigDiagnostics L parse files home v = Inr (ds, pins) \<Longrightarrow>
     list_all cd_ok ds \<and> cd_ok pins \<longleftrightarrow> state_healthy L parse files home v"
  by (auto simp: runConfigDiagnostics_def state_healthy_def diagnostic_def pinned_diagnostic_def manifest_diagnostics_ok
    split: managed_state.splits sum.splits)

lemma missing_contracts_nil:
  "metadata = Some m \<Longrightarrow> missing_contracts files metadata = [] \<longleftrightarrow>
     list_all (\<lambda>file. existsSync files (path_join (path_join (pm_packageRoot m) ''contracts'') file)) DECLARED_CONTRACT_FILES"
  by (simp add: missing_contracts_def filter_empty_conv list_all_iff)

text \<open>The doctor's exit code is 0 exactly on a healthy installation: a Node of at least version 22, a
  readable package with its six contracts, no invalid promoted composition, and either no managed
  state or, on every host recorded as present, exactly the recorded bytes and version.
\<close>

theorem doctor_reports_health:
  "case doctorCommand L num parse files process metadata packaged promoted args of
     Inl e \<Rightarrow> True
   | Inr (checks, code) \<Rightarrow>
       code = (if package_healthy num files process metadata \<and>
           (case promoted of Promoted_invalid _ \<Rightarrow> False | _ \<Rightarrow> True) \<and>
           state_healthy L parse files (homeFromArgs (ps_HOME process) (ps_cwd process) args)
             (case packaged of Some v \<Rightarrow> v | None \<Rightarrow> (case metadata of None \<Rightarrow> ''unknown'' | Some m \<Rightarrow> pm_version m))
         then 0 else 1)"
proof -
  let ?v = "case packaged of Some v \<Rightarrow> v | None \<Rightarrow> (case metadata of None \<Rightarrow> ''unknown'' | Some m \<Rightarrow> pm_version m)"
  let ?home = "homeFromArgs (ps_HOME process) (ps_cwd process) args"
  show ?thesis
  proof (cases "runConfigDiagnostics L parse files ?home ?v")
    case (Inl e)
    then show ?thesis by (simp add: doctorCommand_def Let_def)
  next
    case (Inr r)
    obtain ds pins where r: "r = (ds, pins)" by (cases r)
    note ok = run_diagnostics_ok [OF Inr [unfolded r]]
    have lock: "pl_ok (programLockAwarenessDiagnostic promoted ?v) = (case promoted of Promoted_invalid _ \<Rightarrow> False | _ \<Rightarrow> True)"
      by (simp add: programLockAwarenessDiagnostic_def split: PromotedCompositionRead.split)
    have package: "package_healthy num files process metadata \<longleftrightarrow>
        check_ok (node_check num process metadata) \<and> metadata \<noteq> None \<and> missing_contracts files metadata = []"
      by (cases metadata) (simp_all add: package_healthy_def node_check_def missing_contracts_nil)
    define checks where "checks =
      [node_check num process metadata, Check_version (map_option pm_version metadata),
       Check_contracts (missing_contracts files metadata), Check_cli (length DOCTOR_CLI_COMMANDS),
       Check_store (existsSync files (path_join (ps_cwd process) ''drenyra-missions.json''))] @
      map Check_config ds @ [Check_pins pins] @ [Check_lock (programLockAwarenessDiagnostic promoted ?v)]"
    have "doctorCommand L num parse files process metadata packaged promoted args =
        Inr (checks, if 0 < length (filter (\<lambda>c. \<not> check_ok c) checks) then 1 else 0)"
      by (simp only: doctorCommand_def Let_def Inr r sum.case prod.case checks_def)
    moreover have "0 < length (filter (\<lambda>c. \<not> check_ok c) checks) \<longleftrightarrow> \<not> list_all check_ok checks"
      by (simp add: filter_empty_conv list_all_iff)
    ultimately have c: "doctorCommand L num parse files process metadata packaged promoted args =
        Inr (checks, if list_all check_ok checks then 0 else 1)" by simp
    have checks: "list_all check_ok checks \<longleftrightarrow> check_ok (node_check num process metadata) \<and> metadata \<noteq> None \<and>
        missing_contracts files metadata = [] \<and> (list_all cd_ok ds \<and> cd_ok pins) \<and>
        pl_ok (programLockAwarenessDiagnostic promoted ?v)"
      by (simp add: checks_def list_all_iff) blast
    show ?thesis unfolding c checks ok lock package by simp
  qed
qed

end
