(* ===== verification/Postgres_Store.thy ===== *)
theory Postgres_Store
  imports Mission_Runtime Outbox Fencing
begin

text \<open>
  \<^verbatim>\<open>missions/store.postgres.ts\<close>: the five production stores. A table is the list of its rows in
  insertion order, under their primary key; a statement either has its documented effect or fails with
  the error of a constraint or of a type. \<open>tz\<close> reads a time stamp; rows that an \<open>ORDER BY\<close> leaves equal
  keep their insertion order here, of which PostgreSQL promises nothing and no theorem makes use. A
  lost connection is not modelled. A JSONB column gives back the value written to it; a TIMESTAMPTZ
  column holds an instant, which the driver hands over as a \<open>Date\<close>, and NULL as null: \<open>rowToOutbox\<close> only
  casts them, so a message read from the table has other values than the one that was enqueued.
\<close>

datatype pg_error = Unique_violation | Numeric_value_out_of_range | Invalid_datetime_format

definition pg_integer :: "int \<Rightarrow> bool" where
  "pg_integer n \<longleftrightarrow> - (2 ^ 31) \<le> n \<and> n < 2 ^ 31"

definition pg_bigint :: "int \<Rightarrow> bool" where
  "pg_bigint n \<longleftrightarrow> - (2 ^ 63) \<le> n \<and> n < 2 ^ 63"

section \<open>Missions\<close>

record mission_row =
  mr_snapshot :: MissionSnapshot
  mr_version :: int
  mr_created :: int
  mr_updated :: int

type_synonym mission_rows = "(js_string, mission_row) js_map"

text \<open>\<open>ON CONFLICT (id) DO UPDATE\<close> keeps the time of creation of the first insertion.\<close>

definition pg_upsert_mission :: "int \<Rightarrow> int \<Rightarrow> MissionSnapshot \<Rightarrow> mission_rows \<Rightarrow> mission_rows" where
  "pg_upsert_mission created updated snapshot rows =
     AList.update (sn_id snapshot)
       (case map_of rows (sn_id snapshot) of
          None \<Rightarrow> \<lparr>mr_snapshot = snapshot, mr_version = sn_version snapshot, mr_created = created, mr_updated = updated\<rparr>
        | Some r \<Rightarrow> r\<lparr>mr_snapshot := snapshot, mr_version := sn_version snapshot, mr_updated := updated\<rparr>) rows"

definition pg_save :: "(js_string \<Rightarrow> int option) \<Rightarrow> MissionSnapshot \<Rightarrow> mission_rows \<Rightarrow> pg_error + mission_rows" where
  "pg_save tz snapshot rows =
     (if \<not> pg_integer (sn_version snapshot) then Inl Numeric_value_out_of_range
      else (case (tz (sn_createdAt snapshot), tz (sn_updatedAt snapshot)) of
              (Some created, Some updated) \<Rightarrow> Inr (pg_upsert_mission created updated snapshot rows)
            | _ \<Rightarrow> Inl Invalid_datetime_format))"

definition pg_findById :: "js_string \<Rightarrow> mission_rows \<Rightarrow> MissionSnapshot option" where
  "pg_findById i rows = map_option mr_snapshot (map_of rows i)"

definition pg_findByStatus :: "mission_status list \<Rightarrow> mission_rows \<Rightarrow> MissionSnapshot list" where
  "pg_findByStatus statuses rows =
     map mr_snapshot (sort_key (\<lambda>r. - mr_updated r)
       (filter (\<lambda>r. sn_status (mr_snapshot r) \<in> set statuses) (map snd rows)))"

definition pg_list :: "mission_rows \<Rightarrow> MissionSnapshot list" where
  "pg_list rows = map mr_snapshot (sort_key mr_created (map snd rows))"

section \<open>Events\<close>

type_synonym event_rows = "MissionEvent list"

definition pg_insert_event :: "MissionEvent \<Rightarrow> event_rows \<Rightarrow> event_rows" where
  "pg_insert_event e rows = rows @ [e]"

definition pg_append :: "(js_string \<Rightarrow> int option) \<Rightarrow> MissionEvent \<Rightarrow> event_rows \<Rightarrow> pg_error + event_rows" where
  "pg_append tz e rows =
     (if \<not> pg_integer (ev_sequence e) then Inl Numeric_value_out_of_range
      else if tz (ev_createdAt e) = None then Inl Invalid_datetime_format
      else if list_ex (\<lambda>r. ev_id r = ev_id e \<or> ev_missionId r = ev_missionId e \<and> ev_sequence r = ev_sequence e) rows
      then Inl Unique_violation
      else Inr (pg_insert_event e rows))"

definition pg_events :: "js_string \<Rightarrow> event_rows \<Rightarrow> MissionEvent list" where
  "pg_events missionId rows = sort_key ev_sequence (filter (\<lambda>r. ev_missionId r = missionId) rows)"

section \<open>Idempotency records\<close>

definition pg_get :: "int \<Rightarrow> js_string \<Rightarrow> idempotency_records \<Rightarrow> IdempotencyRecord option" where
  "pg_get now key rows =
     (case map_of rows key of
        None \<Rightarrow> None
      | Some r \<Rightarrow> if now < id_expiresAt r then Some r else None)"

text \<open>The update of an existing row sets status, result and expiry, but not the hash of the payload.\<close>

definition pg_put :: "IdempotencyRecord \<Rightarrow> idempotency_records \<Rightarrow> pg_error + idempotency_records" where
  "pg_put record rows =
     (if \<not> pg_bigint (id_expiresAt record) then Inl Numeric_value_out_of_range
      else Inr (AList.update (id_key record)
             (case map_of rows (id_key record) of
                None \<Rightarrow> record
              | Some r \<Rightarrow> r\<lparr>id_status := id_status record, id_result := id_result record,
                            id_expiresAt := id_expiresAt record\<rparr>) rows))"

section \<open>Fences\<close>

definition pg_getToken :: "js_string \<Rightarrow> fence_tokens \<Rightarrow> int" where
  "pg_getToken missionId rows = (case map_of rows missionId of None \<Rightarrow> 0 | Some t \<Rightarrow> t)"

definition pg_upsert_token :: "js_string \<Rightarrow> int \<Rightarrow> fence_tokens \<Rightarrow> fence_tokens" where
  "pg_upsert_token missionId token rows = AList.update missionId token rows"

definition pg_setToken :: "js_string \<Rightarrow> int \<Rightarrow> fence_tokens \<Rightarrow> pg_error + fence_tokens" where
  "pg_setToken missionId token rows =
     (if pg_bigint token then Inr (pg_upsert_token missionId token rows) else Inl Numeric_value_out_of_range)"

section \<open>Outbox\<close>

record OutboxRow =
  or_aggregateId :: js_string
  or_type :: js_string
  or_payloadHash :: js_string
  or_status :: outbox_status
  or_attempts :: int
  or_createdAt :: int
  or_deliveredAt :: "int option"

type_synonym outbox_rows = "(js_string, OutboxRow) js_map"

text \<open>
  What a property declared \<open>string\<close> or \<open>string | undefined\<close> holds at run time: a text in a message the
  program built, a \<open>Date\<close> or null in one read from the table.
\<close>

datatype pg_time = T_text js_string | T_undefined | T_date int | T_null

record PgMessage =
  pm_id :: js_string
  pm_aggregateId :: js_string
  pm_type :: js_string
  pm_payloadHash :: js_string
  pm_status :: outbox_status
  pm_attempts :: int
  pm_createdAt :: pg_time
  pm_deliveredAt :: pg_time

definition rowToOutbox :: "js_string \<Rightarrow> OutboxRow \<Rightarrow> PgMessage" where
  "rowToOutbox i row =
     \<lparr>pm_id = i, pm_aggregateId = or_aggregateId row, pm_type = or_type row, pm_payloadHash = or_payloadHash row,
      pm_status = or_status row, pm_attempts = or_attempts row, pm_createdAt = T_date (or_createdAt row),
      pm_deliveredAt = (case or_deliveredAt row of None \<Rightarrow> T_null | Some t \<Rightarrow> T_date t)\<rparr>"

text \<open>The message the program built itself, as the caller of \<open>enqueueMessage\<close> gets it.\<close>

definition built_message :: "OutboxMessage \<Rightarrow> PgMessage" where
  "built_message x =
     \<lparr>pm_id = om_id x, pm_aggregateId = om_aggregateId x, pm_type = om_type x, pm_payloadHash = om_payloadHash x,
      pm_status = om_status x, pm_attempts = om_attempts x, pm_createdAt = T_text (om_createdAt x),
      pm_deliveredAt = (case om_deliveredAt x of None \<Rightarrow> T_undefined | Some t \<Rightarrow> T_text t)\<rparr>"

text \<open>The statement does not name \<open>delivered_at\<close>, which stays NULL.\<close>

definition pg_enqueue :: "(js_string \<Rightarrow> int option) \<Rightarrow> OutboxMessage \<Rightarrow> outbox_rows \<Rightarrow> pg_error + outbox_rows" where
  "pg_enqueue tz x rows =
     (if \<not> pg_integer (om_attempts x) then Inl Numeric_value_out_of_range
      else (case tz (om_createdAt x) of
              None \<Rightarrow> Inl Invalid_datetime_format
            | Some created \<Rightarrow>
                if map_of rows (om_id x) \<noteq> None \<or>
                  list_ex (\<lambda>(i, r). or_aggregateId r = om_aggregateId x \<and> or_payloadHash r = om_payloadHash x) rows
                then Inl Unique_violation
                else Inr (rows @ [(om_id x,
                       \<lparr>or_aggregateId = om_aggregateId x, or_type = om_type x, or_payloadHash = om_payloadHash x,
                        or_status = om_status x, or_attempts = om_attempts x, or_createdAt = created,
                        or_deliveredAt = None\<rparr>)])))"

definition pg_markDelivered ::
    "(js_string \<Rightarrow> int option) \<Rightarrow> js_string \<Rightarrow> js_string \<Rightarrow> outbox_rows \<Rightarrow> pg_error + outbox_rows" where
  "pg_markDelivered tz now i rows =
     (case tz now of
        None \<Rightarrow> Inl Invalid_datetime_format
      | Some t \<Rightarrow>
          Inr (map (\<lambda>(k, r). (k, if k = i then r\<lparr>or_status := O_delivered, or_deliveredAt := Some t\<rparr> else r)) rows))"

definition pg_markFailed :: "js_string \<Rightarrow> outbox_rows \<Rightarrow> pg_error + outbox_rows" where
  "pg_markFailed i rows =
     (if list_ex (\<lambda>(k, r). k = i \<and> \<not> pg_integer (or_attempts r + 1)) rows then Inl Numeric_value_out_of_range
      else Inr (map (\<lambda>(k, r). (k, if k = i then r\<lparr>or_status := O_failed, or_attempts := or_attempts r + 1\<rparr> else r)) rows))"

definition pg_findPending :: "js_string \<Rightarrow> js_string \<Rightarrow> outbox_rows \<Rightarrow> PgMessage option" where
  "pg_findPending aggregateId payloadHash rows =
     (case filter (\<lambda>(i, r). or_aggregateId r = aggregateId \<and> or_payloadHash r = payloadHash) rows of
        [] \<Rightarrow> None
      | (i, r) # _ \<Rightarrow> Some (rowToOutbox i r))"

definition pg_findMessage :: "js_string \<Rightarrow> outbox_rows \<Rightarrow> PgMessage option" where
  "pg_findMessage i rows = map_option (rowToOutbox i) (map_of rows i)"

definition pg_wasDelivered :: "js_string \<Rightarrow> js_string \<Rightarrow> outbox_rows \<Rightarrow> bool" where
  "pg_wasDelivered aggregateId payloadHash rows =
     (case pg_findPending aggregateId payloadHash rows of None \<Rightarrow> False | Some x \<Rightarrow> pm_status x = O_delivered)"

text \<open>The clients of \<^verbatim>\<open>missions/outbox.ts\<close> on this store; an error of the database is rethrown.\<close>

definition pg_enqueueMessage ::
    "(js_string \<Rightarrow> int option) \<Rightarrow> js_string \<Rightarrow> js_string \<Rightarrow> js_string \<Rightarrow> js_string \<Rightarrow> js_string \<Rightarrow> outbox_rows \<Rightarrow>
     ((pg_error + DuplicateDeliveryError) + PgMessage) \<times> outbox_rows" where
  "pg_enqueueMessage tz uuid now aggregateId type payloadHash rows =
     (case pg_findPending aggregateId payloadHash rows of
        Some existing \<Rightarrow>
          if pm_status existing = O_delivered
          then (Inl (Inr \<lparr>dd_aggregateId = aggregateId, dd_payloadHash = payloadHash\<rparr>), rows)
          else (Inr existing, rows)
      | None \<Rightarrow>
          (let x = pending_message uuid now aggregateId type payloadHash
           in (case pg_enqueue tz x rows of
                 Inl e \<Rightarrow> (Inl (Inl e), rows)
               | Inr rows' \<Rightarrow> (Inr (built_message x), rows'))))"

definition pg_deliverMessage ::
    "(js_string \<Rightarrow> int option) \<Rightarrow> js_string \<Rightarrow> js_string \<Rightarrow> outbox_rows \<Rightarrow> (pg_error + bool) \<times> outbox_rows" where
  "pg_deliverMessage tz now i rows =
     (case pg_findMessage i rows of
        None \<Rightarrow> (Inr False, rows)
      | Some x \<Rightarrow>
          if pm_status x = O_delivered then (Inr False, rows)
          else (case pg_markDelivered tz now i rows of
                  Inl e \<Rightarrow> (Inl e, rows)
                | Inr rows' \<Rightarrow> (Inr True, rows')))"

section \<open>The tables meet the contracts of the stores\<close>

interpretation pg_fs: fence_store pg_getToken pg_upsert_token
  by unfold_locales (simp add: pg_getToken_def pg_upsert_token_def)

definition mission_rows_ok :: "mission_rows \<Rightarrow> bool" where
  "mission_rows_ok rows \<longleftrightarrow> distinct (map fst rows) \<and> list_all (\<lambda>(i, r). sn_id (mr_snapshot r) = i) rows"

lemma upserted_snapshot:
  "map_of (pg_upsert_mission created updated x rows) i =
     (if i = sn_id x then Some (case map_of rows (sn_id x) of
          None \<Rightarrow> \<lparr>mr_snapshot = x, mr_version = sn_version x, mr_created = created, mr_updated = updated\<rparr>
        | Some r \<Rightarrow> r\<lparr>mr_snapshot := x, mr_version := sn_version x, mr_updated := updated\<rparr>)
      else map_of rows i)"
  by (simp add: pg_upsert_mission_def update_conv')

lemma rows_ok_upsert: "mission_rows_ok rows \<Longrightarrow> mission_rows_ok (pg_upsert_mission created updated x rows)"
  by (auto simp: mission_rows_ok_def pg_upsert_mission_def list_all_iff distinct_update
    dest!: in_set_update split: option.splits)

lemma listed_rows:
  assumes "mission_rows_ok rows"
  shows "x \<in> set (pg_list rows) \<longleftrightarrow> pg_findById (sn_id x) rows = Some x"
    and "distinct (map sn_id (pg_list rows))"
proof -
  from assms have d: "distinct (map fst rows)" and i: "\<And>i r. (i, r) \<in> set rows \<Longrightarrow> sn_id (mr_snapshot r) = i"
    by (auto simp: mission_rows_ok_def list_all_iff)
  have "x \<in> mr_snapshot ` snd ` set rows \<longleftrightarrow> (\<exists>i r. (i, r) \<in> set rows \<and> mr_snapshot r = x)"
  proof (induction rows)
    case (Cons p rows)
    then show ?case by (cases p) (simp, blast)
  qed simp
  then have "x \<in> set (pg_list rows) \<longleftrightarrow> (\<exists>i r. (i, r) \<in> set rows \<and> mr_snapshot r = x)"
    by (simp add: pg_list_def)
  also have "\<dots> \<longleftrightarrow> (\<exists>r. (sn_id x, r) \<in> set rows \<and> mr_snapshot r = x)" using i by blast
  also have "\<dots> \<longleftrightarrow> pg_findById (sn_id x) rows = Some x" using d by (auto simp: pg_findById_def)
  finally show "x \<in> set (pg_list rows) \<longleftrightarrow> pg_findById (sn_id x) rows = Some x" .
  have "map (sn_id \<circ> mr_snapshot) (map snd rows) = map fst rows" using i by (auto intro!: map_cong)
  then have "image_mset (sn_id \<circ> mr_snapshot) (mset (map snd rows)) = mset (map fst rows)" by (metis mset_map)
  then have "mset (map sn_id (pg_list rows)) = mset (map fst rows)"
    by (simp add: pg_list_def image_mset.compositionality)
  with d show "distinct (map sn_id (pg_list rows))" using mset_eq_imp_distinct_iff by blast
qed

interpretation pg_ms: mission_store "pg_upsert_mission created updated" pg_findById pg_list pg_findByStatus mission_rows_ok
  for created updated :: int
proof (unfold_locales, goal_cases)
  case (1 i x s)
  then show ?case by (simp add: pg_findById_def upserted_snapshot split: option.split)
next
  case (2 s x)
  then show ?case by (rule rows_ok_upsert)
next
  case (3 s i x)
  then show ?case by (auto simp: pg_findById_def mission_rows_ok_def list_all_iff dest!: map_of_SomeD)
next
  case (4 s x)
  then show ?case by (rule listed_rows(1))
next
  case (5 s)
  then show ?case by (rule listed_rows(2))
next
  case (6 ts s)
  have "mset (pg_findByStatus ts s) =
      mset (map mr_snapshot (filter (\<lambda>r. sn_status (mr_snapshot r) \<in> set ts) (map snd s)))"
    by (simp only: pg_findByStatus_def mset_map mset_sort)
  also have "\<dots> = mset (filter (\<lambda>x. sn_status x \<in> set ts) (map mr_snapshot (map snd s)))"
    by (simp only: filter_map comp_def)
  also have "\<dots> = mset (filter (\<lambda>x. sn_status x \<in> set ts) (pg_list s))"
    by (simp only: pg_list_def mset_filter mset_map mset_sort)
  finally show ?case by simp
qed

lemma sort_key_snoc: "(\<And>y. y \<in> set xs \<Longrightarrow> f y \<le> f x) \<Longrightarrow> sort_key f (xs @ [x]) = sort_key f xs @ [x]"
proof (induction xs)
  case (Cons y ys)
  have "insort_key f y (zs @ [x]) = insort_key f y zs @ [x]" for zs
    using Cons.prems [of y] by (induction zs) auto
  with Cons show ?case by simp
qed simp

interpretation pg_es: mission_event_store pg_insert_event pg_events
proof (unfold_locales, goal_cases)
  case (1 i e s)
  then show ?case by (simp add: pg_events_def pg_insert_event_def)
next
  case (2 e s)
  then show ?case by (simp add: pg_events_def pg_insert_event_def)
next
  case (3 i s)
  then show ?case using sorted_sort_key [of ev_sequence] by (simp add: pg_events_def sorted_map)
next
  case (4 e s)
  then show ?case
    using sort_key_snoc [of "filter (\<lambda>r. ev_missionId r = ev_missionId e) s" ev_sequence e]
    by (simp add: pg_events_def pg_insert_event_def)
qed

section \<open>The outbox of the database runs as the one in memory\<close>

text \<open>As \<open>outbox_step\<close>; a failing statement changes nothing.\<close>

definition pm_identity :: "PgMessage \<Rightarrow> js_string \<times> js_string" where
  "pm_identity x = (pm_aggregateId x, pm_payloadHash x)"

fun pg_outbox_step ::
    "(js_string \<Rightarrow> int option) \<Rightarrow> outbox_action \<Rightarrow> outbox_rows \<Rightarrow> (js_string \<times> js_string) list \<times> outbox_rows" where
  "pg_outbox_step tz (Enqueue uuid now agg type hash) m = ([], snd (pg_enqueueMessage tz uuid now agg type hash m))"
| "pg_outbox_step tz (Deliver now i) m =
     (case pg_deliverMessage tz now i m of
        (answer, m') \<Rightarrow>
          ((if answer = Inr True then map pm_identity (case pg_findMessage i m of None \<Rightarrow> [] | Some x \<Rightarrow> [x]) else []), m'))"
| "pg_outbox_step tz (Fail i) m = ([], (case pg_markFailed i m of Inl e \<Rightarrow> m | Inr m' \<Rightarrow> m'))"

fun pg_outbox_run ::
    "(js_string \<Rightarrow> int option) \<Rightarrow> outbox_action list \<Rightarrow> outbox_rows \<Rightarrow> (js_string \<times> js_string) list \<times> outbox_rows" where
  "pg_outbox_run tz [] m = ([], m)"
| "pg_outbox_run tz (a # as) m =
     (case pg_outbox_step tz a m of
        (ds, m') \<Rightarrow> (case pg_outbox_run tz as m' of (es, m'') \<Rightarrow> (ds @ es, m'')))"

text \<open>Fresh identifiers, readable time stamps and counters within the column: no statement fails.\<close>

fun pg_fits :: "(js_string \<Rightarrow> int option) \<Rightarrow> outbox_action \<Rightarrow> outbox \<Rightarrow> bool" where
  "pg_fits tz (Enqueue uuid now agg type hash) m = (om_findById (''outbox_'' @ uuid) m = None \<and> tz now \<noteq> None)"
| "pg_fits tz (Deliver now i) m = (tz now \<noteq> None)"
| "pg_fits tz (Fail i) m = (case om_findById i m of None \<Rightarrow> True | Some x \<Rightarrow> pg_integer (om_attempts x + 1))"

fun pg_fitting :: "(js_string \<Rightarrow> int option) \<Rightarrow> outbox_action list \<Rightarrow> outbox \<Rightarrow> bool" where
  "pg_fitting tz [] m = True"
| "pg_fitting tz (a # as) m = (pg_fits tz a m \<and> pg_fitting tz as (snd (outbox_step a m)))"

text \<open>The table that holds the messages of an outbox in memory: instants in the place of texts.\<close>

definition instant :: "(js_string \<Rightarrow> int option) \<Rightarrow> js_string \<Rightarrow> int" where
  "instant tz s = (case tz s of None \<Rightarrow> 0 | Some t \<Rightarrow> t)"

definition row_of :: "(js_string \<Rightarrow> int option) \<Rightarrow> OutboxMessage \<Rightarrow> OutboxRow" where
  "row_of tz x =
     \<lparr>or_aggregateId = om_aggregateId x, or_type = om_type x, or_payloadHash = om_payloadHash x,
      or_status = om_status x, or_attempts = om_attempts x, or_createdAt = instant tz (om_createdAt x),
      or_deliveredAt = map_option (instant tz) (om_deliveredAt x)\<rparr>"

definition rows_of :: "(js_string \<Rightarrow> int option) \<Rightarrow> outbox \<Rightarrow> outbox_rows" where
  "rows_of tz m = map (\<lambda>(k, x). (k, row_of tz x)) m"

lemma row_of_fields [simp]:
  "or_aggregateId (row_of tz x) = om_aggregateId x" "or_payloadHash (row_of tz x) = om_payloadHash x"
  "or_status (row_of tz x) = om_status x" "or_attempts (row_of tz x) = om_attempts x"
  by (simp_all add: row_of_def)

lemma read_fields [simp]:
  "pm_status (rowToOutbox i r) = or_status r" "pm_identity (rowToOutbox i (row_of tz x)) = om_identity x"
  by (simp_all add: rowToOutbox_def pm_identity_def om_identity_def row_of_def)

lemma rows_of_map: "map_of (rows_of tz m) i = map_option (row_of tz) (map_of m i)"
  by (simp add: rows_of_def map_of_map)

lemma find_row: "pg_findMessage i (rows_of tz m) = map_option (\<lambda>x. rowToOutbox i (row_of tz x)) (om_findById i m)"
  by (simp add: pg_findMessage_def rows_of_map om_findById_def option.map_comp comp_def)

lemma pending_row:
  "map_option pm_status (pg_findPending a h (rows_of tz m)) = map_option om_status (om_findPending a h m)"
  by (induction m) (auto simp: pg_findPending_def om_findPending_def rows_of_def)

lemma pg_enqueue_new:
  assumes "map_of m (om_id x) = None" and "tz (om_createdAt x) \<noteq> None" and "pg_integer (om_attempts x)"
    and "om_findPending (om_aggregateId x) (om_payloadHash x) m = None" and "om_deliveredAt x = None"
  shows "pg_enqueue tz x (rows_of tz m) = Inr (rows_of tz (m @ [(om_id x, x)])) \<and>
    om_enqueue x m = Inr (m @ [(om_id x, x)])"
proof -
  have "\<not> list_ex (\<lambda>(i, r). or_aggregateId r = om_aggregateId x \<and> or_payloadHash r = om_payloadHash x) (rows_of tz m)"
    using assms(4) by (auto simp: om_findPending_def find_None_iff list_ex_iff rows_of_def)
  moreover have "AList.update (om_id x) x m = m @ [(om_id x, x)]"
    using assms(1) by (induction m) (auto split: if_splits)
  ultimately show ?thesis
    using assms by (auto simp: pg_enqueue_def om_enqueue_def om_wasDelivered_def rows_of_map row_of_def instant_def)
      (simp_all add: rows_of_def row_of_def instant_def)
qed

lemma map_row_update:
  assumes "distinct (map fst m)" and "map_of m i = Some x"
  shows "map (\<lambda>(k, r). (k, if k = i then f r else r)) m = AList.update i (f x) m"
  using assms
proof (induction m)
  case (Cons p m)
  have "i \<notin> fst ` set m \<Longrightarrow> map (\<lambda>(k, r). (k, if k = i then f r else r)) m = m"
    by (induction m) auto
  with Cons show ?case by (cases p) (auto split: if_splits)
qed simp

lemma map_row_absent: "map_of m i = None \<Longrightarrow> map (\<lambda>(k, r). (k, if k = i then f r else r)) m = m"
  by (induction m) (auto split: if_splits)

text \<open>An update of the rows follows an update of the messages.\<close>

lemma rows_follow:
  assumes "distinct (map fst m)" and "\<And>x. row_of tz (f x) = g (row_of tz x)"
  shows "map (\<lambda>(k, r). (k, if k = i then g r else r)) (rows_of tz m) =
    rows_of tz (case map_of m i of None \<Rightarrow> m | Some x \<Rightarrow> AList.update i (f x) m)"
proof -
  have "map (\<lambda>(k, r). (k, if k = i then g r else r)) (rows_of tz m) =
      rows_of tz (map (\<lambda>(k, r). (k, if k = i then f r else r)) m)"
    using assms(2) by (auto simp: rows_of_def)
  with map_row_update [OF assms(1), of i _ f] map_row_absent [of m i f] show ?thesis
    by (auto split: option.split)
qed

lemma markDelivered_follows:
  assumes "distinct (map fst m)" and "tz now \<noteq> None"
  shows "pg_markDelivered tz now i (rows_of tz m) = Inr (rows_of tz (om_markDelivered now i m))"
proof -
  obtain t where t: "tz now = Some t" using assms(2) by blast
  show ?thesis
    using rows_follow [OF assms(1), of tz "\<lambda>x. x\<lparr>om_status := O_delivered, om_deliveredAt := Some now\<rparr>"
        "\<lambda>r. r\<lparr>or_status := O_delivered, or_deliveredAt := Some t\<rparr>" i]
    by (simp add: pg_markDelivered_def om_markDelivered_def t row_of_def instant_def)
qed

lemma markFailed_follows:
  assumes "distinct (map fst m)" and "pg_fits tz (Fail i) m"
  shows "pg_markFailed i (rows_of tz m) = Inr (rows_of tz (om_markFailed i m))"
proof -
  have "\<not> list_ex (\<lambda>(k, r). k = i \<and> \<not> pg_integer (or_attempts r + 1)) (rows_of tz m)"
    using assms(2)
    by (auto simp: list_ex_iff om_findById_def rows_of_def map_of_is_SomeI [OF assms(1)] split: option.splits)
  then show ?thesis
    using rows_follow [OF assms(1), of tz "\<lambda>x. x\<lparr>om_status := O_failed, om_attempts := om_attempts x + 1\<rparr>"
        "\<lambda>r. r\<lparr>or_status := O_failed, or_attempts := or_attempts r + 1\<rparr>" i]
    by (simp add: pg_markFailed_def om_markFailed_def row_of_def)
qed

lemma pg_step_follows:
  assumes "distinct (map fst m)" and "pg_fits tz a m"
  shows "pg_outbox_step tz a (rows_of tz m) = (fst (outbox_step a m), rows_of tz (snd (outbox_step a m)))"
proof (cases a)
  case (Enqueue uuid now agg type hash)
  let ?x = "pending_message uuid now agg type hash"
  have new: "om_findPending agg hash m = None \<Longrightarrow>
      pg_enqueue tz ?x (rows_of tz m) = Inr (rows_of tz (m @ [(om_id ?x, ?x)])) \<and>
      om_enqueue ?x m = Inr (m @ [(om_id ?x, ?x)])"
    using pg_enqueue_new [of m ?x tz] assms(2) Enqueue
    by (simp add: pending_message_def om_findById_def pg_integer_def)
  then show ?thesis
    using Enqueue pending_row [of agg hash tz m]
    by (auto simp: pg_enqueueMessage_def enqueueMessage_def Let_def split: option.splits)
next
  case (Deliver now i)
  then show ?thesis
    using assms by (simp add: pg_deliverMessage_def deliverMessage_def find_row markDelivered_follows
      split: option.split)
next
  case (Fail i)
  then show ?thesis using markFailed_follows assms by simp
qed

lemma step_keys: "distinct (map fst m) \<Longrightarrow> distinct (map fst (snd (outbox_step a m)))"
  by (cases a) (auto simp: outbox_defs distinct_update Let_def split: option.splits sum.splits if_splits)

text \<open>C39:
  As long as no statement fails on a type or a key, the outbox kept in the database performs the same
  deliveries as the one in memory, and its table holds the messages in memory with instants in the
  place of the time stamps' texts. What is read from it has these instants, or null: never a text.
\<close>

theorem postgres_outbox_runs_as_memory:
  assumes "distinct (map fst m)" and "pg_fitting tz as m"
  shows "pg_outbox_run tz as (rows_of tz m) = (fst (outbox_run as m), rows_of tz (snd (outbox_run as m))) \<and>
    pg_findMessage i (snd (pg_outbox_run tz as (rows_of tz m))) =
      (case om_findById i (snd (outbox_run as m)) of
         None \<Rightarrow> None
       | Some x \<Rightarrow>
           Some \<lparr>pm_id = i, pm_aggregateId = om_aggregateId x, pm_type = om_type x,
                 pm_payloadHash = om_payloadHash x, pm_status = om_status x, pm_attempts = om_attempts x,
                 pm_createdAt = T_date (instant tz (om_createdAt x)),
                 pm_deliveredAt =
                   (case om_deliveredAt x of None \<Rightarrow> T_null | Some t \<Rightarrow> T_date (instant tz t))\<rparr>)"
proof -
  have run: "pg_outbox_run tz as (rows_of tz m) = (fst (outbox_run as m), rows_of tz (snd (outbox_run as m)))"
    using assms
  proof (induction as arbitrary: m)
    case (Cons a as)
    then have "pg_outbox_step tz a (rows_of tz m) = (fst (outbox_step a m), rows_of tz (snd (outbox_step a m)))"
      by (simp add: pg_step_follows)
    moreover have "pg_outbox_run tz as (rows_of tz (snd (outbox_step a m))) =
        (fst (outbox_run as (snd (outbox_step a m))), rows_of tz (snd (outbox_run as (snd (outbox_step a m)))))"
      using Cons step_keys by simp
    ultimately show ?case by (auto split: prod.split)
  qed simp
  then show ?thesis
    by (simp add: find_row rowToOutbox_def row_of_def split: option.split)
qed

theorem postgres_outbox_runs_as_memory_witness:
  "pg_outbox_run (\<lambda>s. Some (int (length s)))
     [Enqueue ''1'' ''tt'' ''m'' ''note'' ''h'', Fail ''outbox_1'', Deliver ''uuu'' ''outbox_1'', Deliver ''u'' ''outbox_1''] [] =
     ([(''m'', ''h'')],
      [(''outbox_1'', \<lparr>or_aggregateId = ''m'', or_type = ''note'', or_payloadHash = ''h'', or_status = O_delivered,
         or_attempts = 1, or_createdAt = 2, or_deliveredAt = Some 3\<rparr>)])"
proof -
  let ?as = "[Enqueue ''1'' ''tt'' ''m'' ''note'' ''h'', Fail ''outbox_1'', Deliver ''uuu'' ''outbox_1'', Deliver ''u'' ''outbox_1'']"
  let ?tz = "\<lambda>s::js_string. Some (int (length s))"
  have "pg_fitting ?tz ?as []" by (simp add: outbox_defs pg_integer_def Let_def)
  then have "pg_outbox_run ?tz ?as (rows_of ?tz []) =
      (fst (outbox_run ?as []), rows_of ?tz (snd (outbox_run ?as [])))"
    by (intro postgres_outbox_runs_as_memory [THEN conjunct1]) simp_all
  moreover have "outbox_run ?as [] = ([(''m'', ''h'')],
      [(''outbox_1'', \<lparr>om_id = ''outbox_1'', om_aggregateId = ''m'', om_type = ''note'', om_payloadHash = ''h'',
         om_status = O_delivered, om_attempts = 1, om_createdAt = ''tt'', om_deliveredAt = Some ''uuu''\<rparr>)])"
    by (simp add: outbox_defs om_identity_def Let_def)
  ultimately show ?thesis by (simp add: rows_of_def row_of_def instant_def)
qed

section \<open>A reused idempotency key keeps its first payload hash\<close>

lemma pg_get_put:
  assumes "pg_put r rows = Inr rows'"
  shows "pg_get now k rows' =
     (if k = id_key r then
        if now < id_expiresAt r then
          Some (r\<lparr>id_key := (case map_of rows k of None \<Rightarrow> id_key r | Some q \<Rightarrow> id_key q),
                  id_payloadHash := (case map_of rows k of None \<Rightarrow> id_payloadHash r | Some q \<Rightarrow> id_payloadHash q)\<rparr>)
        else None
      else pg_get now k rows)"
  using assms by (auto simp: pg_put_def pg_get_def update_conv' split: if_splits option.split)

text \<open>C40:
  When a key is used again after its record has expired, the row in the database keeps the hash of
  the first command: a retry of the second command is refused as a conflict, and the first command is
  answered with the result of the second. The store in memory answers the retry.
\<close>

theorem reused_key_keeps_the_first_hash:
  assumes "map_of rows (id_key r) = Some old" and "id_expiresAt old \<le> now" and "id_payloadHash old \<noteq> id_payloadHash r"
    and "pg_put r rows = Inr rows'" and "later < id_expiresAt r"
    and "replay_record r = Inr (Some result)" and "command_hash = id_payloadHash r"
  shows "pg_get now (id_key r) rows = None \<and>
    (\<exists>stored. pg_get later (id_key r) rows' = Some stored \<and>
       answer_from_record v stored (id_key r) command_hash c st =
         Inl (X_idempotency (id_key r) (id_payloadHash old) command_hash (createdAtOf v stored)) \<and>
       answer_from_record v stored (id_key r) (id_payloadHash old) c st = Inr result) \<and>
    (case fst (get_record later (id_key r) (put_record r rows)) of
       None \<Rightarrow> False
     | Some kept \<Rightarrow> answer_from_record v kept (id_key r) command_hash c st = Inr result)"
proof -
  let ?s = "r\<lparr>id_key := id_key old, id_payloadHash := id_payloadHash old\<rparr>"
  have "pg_get later (id_key r) rows' = Some ?s" using pg_get_put [OF assms(4)] assms(1,5) by simp
  moreover have "replay_record ?s = replay_record r"
    by (simp add: replay_record_def split: option.split cached_result.split)
  moreover have "fst (get_record later (id_key r) (put_record r rows)) = Some r"
    using assms(5) by (simp add: ids.read_own)
  moreover have "pg_get now (id_key r) rows = None" using assms(1,2) by (simp add: pg_get_def)
  ultimately show ?thesis using assms(3,6,7) by (simp add: answer_from_record_def)
qed

definition reuse_hash_old :: IdempotencyRecord where
  "reuse_hash_old = \<lparr>id_key = ''k'', id_payloadHash = ''h1'', id_status = I_COMPLETED, id_result = None, id_expiresAt = 100\<rparr>"

definition reuse_hash_new :: "MissionSnapshot \<Rightarrow> MissionEvent \<Rightarrow> IdempotencyRecord" where
  "reuse_hash_new s e =
     \<lparr>id_key = ''k'', id_payloadHash = ''h2'', id_status = I_COMPLETED, id_result = Some (R_applied s e ''t''), id_expiresAt = 300\<rparr>"

theorem reused_key_keeps_the_first_hash_witness:
  "\<forall>s e v c st. \<exists>stored.
     pg_get 250 ''k'' [(''k'', (reuse_hash_new s e)\<lparr>id_payloadHash := ''h1''\<rparr>)] = Some stored \<and>
     answer_from_record v stored ''k'' ''h2'' c st = Inl (X_idempotency ''k'' ''h1'' ''h2'' (createdAtOf v stored)) \<and>
     answer_from_record v stored ''k'' ''h1'' c st = Inr \<lparr>ar_snapshot = s, ar_event = e, ar_replayed = True\<rparr>"
proof (intro allI)
  fix s e v c st
  have "pg_put (reuse_hash_new s e) [(''k'', reuse_hash_old)] = Inr [(''k'', (reuse_hash_new s e)\<lparr>id_payloadHash := ''h1''\<rparr>)]"
    by (simp add: pg_put_def pg_bigint_def reuse_hash_new_def reuse_hash_old_def)
  moreover have "replay_record (reuse_hash_new s e) = Inr (Some \<lparr>ar_snapshot = s, ar_event = e, ar_replayed = True\<rparr>)"
    by (simp add: reuse_hash_new_def replay_record_def)
  ultimately have "\<exists>stored.
       pg_get 250 (id_key (reuse_hash_new s e)) [(''k'', (reuse_hash_new s e)\<lparr>id_payloadHash := ''h1''\<rparr>)] = Some stored \<and>
       answer_from_record v stored (id_key (reuse_hash_new s e)) ''h2'' c st =
         Inl (X_idempotency (id_key (reuse_hash_new s e)) (id_payloadHash reuse_hash_old) ''h2'' (createdAtOf v stored)) \<and>
       answer_from_record v stored (id_key (reuse_hash_new s e)) (id_payloadHash reuse_hash_old) c st =
         Inr \<lparr>ar_snapshot = s, ar_event = e, ar_replayed = True\<rparr>"
    by (intro reused_key_keeps_the_first_hash [of "[(''k'', reuse_hash_old)]" _ _ 200, THEN conjunct2, THEN conjunct1])
      (simp_all add: reuse_hash_old_def reuse_hash_new_def)
  then show "\<exists>stored.
     pg_get 250 ''k'' [(''k'', (reuse_hash_new s e)\<lparr>id_payloadHash := ''h1''\<rparr>)] = Some stored \<and>
     answer_from_record v stored ''k'' ''h2'' c st = Inl (X_idempotency ''k'' ''h1'' ''h2'' (createdAtOf v stored)) \<and>
     answer_from_record v stored ''k'' ''h1'' c st = Inr \<lparr>ar_snapshot = s, ar_event = e, ar_replayed = True\<rparr>"
    by (simp only: reuse_hash_old_def reuse_hash_new_def IdempotencyRecord.select_convs)
qed

end
