(* ===== verification/File_Store.thy ===== *)
theory File_Store
  imports Managed_Commit Mission_Store
begin

text \<open>
  \<^verbatim>\<open>cmd/adapters/file-mission-store.ts\<close>: the development adapter that keeps the three
  in-memory stores of \<^verbatim>\<open>missions/store.ts\<close> in one JSON file, on the file system with faults of
  \<^verbatim>\<open>Host_Files\<close>. What is read from the file is cast without a check, so the stores hold untyped values
  here; their identifiers are primitive. \<open>JSON.parse\<close> is an argument.
\<close>

section \<open>The atomic write\<close>

text \<open>\<open>openSync(p, "r")\<close> and the calls on its descriptor leave the files as they are.\<close>

definition open_read :: "js_string \<Rightarrow> world \<Rightarrow> bool \<times> world" where
  "open_read p = fs_call (\<lambda>files. if existsSync files p then Some files else None) no_partial"

text \<open>
  The parent directory is synchronised when possible; a failure to close it, in the \<open>finally\<close>,
  reaches the handler of the write although the file is in place.
\<close>

definition sync_parent :: "js_string \<Rightarrow> world \<Rightarrow> bool \<times> world" where
  "sync_parent filePath w =
     (case open_read (path_dirname filePath) w of
        (False, w1) \<Rightarrow> (True, w1)
      | (True, w1) \<Rightarrow> sync_or_close (attempt sync_or_close w1))"

definition writeFileAtomic :: "(nat \<Rightarrow> js_string) \<Rightarrow> js_string \<Rightarrow> js_string \<Rightarrow> world \<Rightarrow> bool \<times> world" where
  "writeFileAtomic uuid filePath data w =
     (let tmpPath = temp_path (uuid (wd_fresh w)) filePath; w0 = w\<lparr>wd_fresh := Suc (wd_fresh w)\<rparr>;
          failed = \<lambda>v. (False, attempt (unlinkSync tmpPath) v)
      in case open_write tmpPath w0 of
           (False, w1) \<Rightarrow> failed w1
         | (True, w1) \<Rightarrow>
             (case do_calls [write_open tmpPath data, sync_or_close, sync_or_close] w1 of
                (False, w2) \<Rightarrow> failed (attempt sync_or_close w2)
              | (True, w2) \<Rightarrow>
                  (case renameSync tmpPath filePath w2 of
                     (False, w3) \<Rightarrow> failed w3
                   | (True, w3) \<Rightarrow>
                       (case sync_parent filePath w3 of
                          (False, w4) \<Rightarrow> failed w4
                        | (True, w4) \<Rightarrow> (True, w4)))))"

section \<open>The stores and their file\<close>

record MissionRuntimeStores =
  rs_missions :: "(js_value, js_value) js_map"
  rs_events :: "(js_value, js_value list) js_map"
  rs_idempotency :: "(js_value, js_value) js_map"

definition buildEmptyStores :: MissionRuntimeStores where
  "buildEmptyStores = \<lparr>rs_missions = [], rs_events = [], rs_idempotency = []\<rparr>"

definition STORE_SCHEMA_VERSION :: int where
  "STORE_SCHEMA_VERSION = 1"

record MissionStoreFile =
  sf_storeSchemaVersion :: js_number
  sf_missions :: "js_value list"
  sf_events :: "js_value list"
  sf_idempotency :: "js_value list"

text \<open>The error of a property access on null or undefined is the last.\<close>

datatype store_file_error = Cannot_parse_store | Store_not_object | Store_not_arrays | Element_type_error

text \<open>The file system's own \<open>ENOENT\<close> is \<open>None\<close>.\<close>

definition loadStoreFile ::
    "(js_string \<Rightarrow> js_value option) \<Rightarrow> file_map \<Rightarrow> js_string \<Rightarrow> store_file_error + MissionStoreFile option" where
  "loadStoreFile parse files filePath =
     (if \<not> existsSync files filePath then Inr None
      else (case (case readFileSync files filePath of None \<Rightarrow> None | Some text \<Rightarrow> parse text) of
              None \<Rightarrow> Inl Cannot_parse_store
            | Some raw \<Rightarrow>
                if \<not> isRecord raw then Inl Store_not_object
                else (case (get_field raw ''missions'', get_field raw ''events'', get_field raw ''idempotency'') of
                        (J_arr missions, J_arr events, J_arr idempotency) \<Rightarrow>
                          Inr (Some \<lparr>sf_storeSchemaVersion =
                                       (case get_field raw ''storeSchemaVersion'' of J_num n \<Rightarrow> n | _ \<Rightarrow> Fin 0),
                                     sf_missions = missions, sf_events = events, sf_idempotency = idempotency\<rparr>)
                      | _ \<Rightarrow> Inl Store_not_arrays)))"

text \<open>\<open>v.k\<close>, which throws on null and undefined.\<close>

definition read_member :: "js_value \<Rightarrow> js_string \<Rightarrow> js_value option" where
  "read_member v k = (if v = J_null \<or> v = J_undefined then None else Some (get_field v k))"

fun insert_all ::
    "js_string \<Rightarrow> (js_value \<Rightarrow> js_value \<Rightarrow> 's \<Rightarrow> 's) \<Rightarrow> js_value list \<Rightarrow> 's \<Rightarrow> store_file_error + 's" where
  "insert_all k insert_one [] s = Inr s"
| "insert_all k insert_one (v # vs) s =
     (case read_member v k of
        None \<Rightarrow> Inl Element_type_error
      | Some key \<Rightarrow> insert_all k insert_one vs (insert_one key v s))"

definition append_value :: "js_value \<Rightarrow> js_value \<Rightarrow> (js_value, js_value list) js_map \<Rightarrow> (js_value, js_value list) js_map" where
  "append_value key event m =
     AList.update key ((case map_of m key of None \<Rightarrow> [] | Some es \<Rightarrow> es) @ [event]) m"

definition hydrate ::
    "(js_string \<Rightarrow> js_value option) \<Rightarrow> file_map \<Rightarrow> js_string \<Rightarrow> store_file_error + MissionRuntimeStores" where
  "hydrate parse files filePath =
     (case loadStoreFile parse files filePath of
        Inl e \<Rightarrow> Inl e
      | Inr loaded \<Rightarrow>
          (let file = (case loaded of
                         Some f \<Rightarrow> f
                       | None \<Rightarrow> \<lparr>sf_storeSchemaVersion = Fin (of_int STORE_SCHEMA_VERSION),
                                  sf_missions = [], sf_events = [], sf_idempotency = []\<rparr>);
               stores = buildEmptyStores
           in case insert_all ''id'' AList.update (sf_missions file) (rs_missions stores) of
                Inl e \<Rightarrow> Inl e
              | Inr missions \<Rightarrow>
                  (case insert_all ''missionId'' append_value (sf_events file) (rs_events stores) of
                     Inl e \<Rightarrow> Inl e
                   | Inr events \<Rightarrow>
                       (case insert_all ''key'' AList.update (sf_idempotency file) (rs_idempotency stores) of
                          Inl e \<Rightarrow> Inl e
                        | Inr idempotency \<Rightarrow>
                            Inr \<lparr>rs_missions = missions, rs_events = events, rs_idempotency = idempotency\<rparr>))))"

definition store_value :: "MissionRuntimeStores \<Rightarrow> js_value" where
  "store_value stores =
     J_obj [(''storeSchemaVersion'', J_num (Fin (of_int STORE_SCHEMA_VERSION))),
            (''missions'', J_arr (map snd (rs_missions stores))),
            (''events'', J_arr (concat (map snd (rs_events stores)))),
            (''idempotency'', J_arr (map snd (rs_idempotency stores)))]"

definition store_text :: "js_lib \<Rightarrow> MissionRuntimeStores \<Rightarrow> js_string" where
  "store_text L stores = json_pretty (lib_number L) 0 (store_value stores) @ [CHR 0x0A]"

definition persist ::
    "js_lib \<Rightarrow> (nat \<Rightarrow> js_string) \<Rightarrow> js_string \<Rightarrow> MissionRuntimeStores \<Rightarrow> world \<Rightarrow> bool \<times> world" where
  "persist L uuid filePath stores = writeFileAtomic uuid filePath (store_text L stores)"

section \<open>The write changes the file in one step\<close>

lemma open_read_files: "open_read p w = (ok, w') \<Longrightarrow> wd_files w' = wd_files w"
  by (cases "next_fault w")
    (auto simp: open_read_def fs_call_def no_partial_def split: fault.splits option.splits if_splits dest: next_fault_files)

lemma sync_or_close_files: "wd_files (snd (sync_or_close w)) = wd_files w"
  by (cases "next_fault w")
    (auto simp: sync_or_close_def fs_call_def no_partial_def split: fault.splits option.splits dest: next_fault_files)

lemma sync_parent_files: "sync_parent p w = (ok, w') \<Longrightarrow> wd_files w' = wd_files w"
  by (auto simp: sync_parent_def attempt_def sync_or_close_files split: prod.splits bool.splits dest!: open_read_files)
    (metis snd_conv sync_or_close_files)

lemma fs_call_plain:
  assumes "\<And>f g. act f = Some g \<Longrightarrow> plain (f p) \<Longrightarrow> plain (g p)" and "\<And>left f. plain (f p) \<Longrightarrow> plain (partial left f p)"
    and "plain (wd_files w p)"
  shows "plain (wd_files (snd (fs_call act partial w)) p)"
proof -
  obtain f w' where n: "next_fault w = (f, w')" by (cases "next_fault w")
  with next_fault_files [OF n] assms show ?thesis
    by (auto simp: fs_call_def split: fault.split option.split)
qed

lemma plain_open: "plain (wd_files w p) \<Longrightarrow> plain (wd_files (snd (open_write p w)) p)"
  unfolding open_write_def by (rule fs_call_plain) (auto simp: plain_def no_partial_def split: option.splits fs_entry.splits if_splits)

lemma plain_write: "plain (wd_files w p) \<Longrightarrow> plain (wd_files (snd (write_open p d w)) p)"
  unfolding write_open_def by (rule fs_call_plain) (auto simp: plain_def)

lemma write_calls_files:
  assumes "do_calls [write_open p d, sync_or_close, sync_or_close] w = (ok, w')"
  shows "agree {p} (wd_files w) (wd_files w')" "plain (wd_files w p) \<Longrightarrow> plain (wd_files w' p)"
proof -
  obtain b1 w1 where c1: "write_open p d w = (b1, w1)" by (cases "write_open p d w")
  obtain b2 w2 where c2: "sync_or_close w1 = (b2, w2)" by (cases "sync_or_close w1")
  obtain b3 w3 where c3: "sync_or_close w2 = (b3, w3)" by (cases "sync_or_close w2")
  have "wd_files w2 = wd_files w1" "wd_files w3 = wd_files w1"
    using sync_or_close_files [of w1] sync_or_close_files [of w2] c2 c3 by simp_all
  moreover have "wd_files w' = wd_files w1 \<or> wd_files w' = wd_files w2 \<or> wd_files w' = wd_files w3"
    using assms c1 c2 c3 by (cases b1; cases b2; cases b3) simp_all
  ultimately have "wd_files w' = wd_files w1" by auto
  then show "agree {p} (wd_files w) (wd_files w')" "plain (wd_files w p) \<Longrightarrow> plain (wd_files w' p)"
    using call_agree(2) [of p "{p}" w d] plain_write [of w p d] c1 by simp_all
qed

lemma unlink_absent: "wd_files w p = None \<Longrightarrow> wd_files (attempt (unlinkSync p) w) = wd_files w"
proof -
  assume a: "wd_files w p = None"
  obtain f w' where n: "next_fault w = (f, w')" by (cases "next_fault w")
  with next_fault_files [OF n] a show ?thesis
    by (auto simp: attempt_def unlinkSync_def fs_call_def no_partial_def split: fault.split option.split)
qed

lemma unlink_plain: "quiet w \<Longrightarrow> plain (wd_files w p) \<Longrightarrow> wd_files (attempt (unlinkSync p) w) p = None"
  using unlink_quiet(3,4) [of w p] by (auto simp: attempt_def plain_def split: option.splits fs_entry.splits)

text \<open>How a write ends: nothing happened but to the temporary file, or the file was replaced.\<close>

definition calm_write :: "js_string \<Rightarrow> js_string \<Rightarrow> world \<Rightarrow> bool" where
  "calm_write tmp t w \<longleftrightarrow>
     one_fault w \<and> wd_files w tmp = None \<and> wd_files w (path_dirname tmp) = Some Directory \<and> plain (wd_files w t)"

lemma write_ends:
  assumes "writeFileAtomic uuid t d w = (ok, w')" and tmp: "tmp = temp_path (uuid (wd_fresh w)) t" "tmp \<noteq> t"
  shows "\<not> ok \<and> agree {tmp} (wd_files w) (wd_files w') \<and> (calm_write tmp t w \<longrightarrow> wd_files w' tmp = None) \<or>
    wd_files w' = (wd_files w)(t \<mapsto> File d, tmp := None)"
proof -
  define w0 where "w0 = w\<lparr>wd_fresh := Suc (wd_fresh w)\<rparr>"
  have o0: "one_fault w0 = one_fault w" "wd_files w0 = wd_files w" by (simp_all add: w0_def one_fault_def)
  obtain ok1 w1 where c1: "open_write tmp w0 = (ok1, w1)" by (cases "open_write tmp w0")
  obtain ok2 w2 where c2: "do_calls [write_open tmp d, sync_or_close, sync_or_close] w1 = (ok2, w2)"
    by (cases "do_calls [write_open tmp d, sync_or_close, sync_or_close] w1")
  obtain ok3 w3 where c3: "renameSync tmp t w2 = (ok3, w3)" by (cases "renameSync tmp t w2")
  obtain ok4 w4 where c4: "sync_parent t w3 = (ok4, w4)" by (cases "sync_parent t w3")
  note r = assms(1) [unfolded writeFileAtomic_def Let_def, folded tmp(1) w0_def]
  have a1: "agree {tmp} (wd_files w) (wd_files w1)" using call_agree(1) [of tmp "{tmp}" w0] c1 o0 by simp
  have p1: "calm_write tmp t w \<Longrightarrow> plain (wd_files w1 tmp) \<and> (if ok1 then one_fault w1 else quiet w1)"
    using plain_open [of w0 tmp] open_write_call(3) [OF c1] c1 o0 by (simp add: calm_write_def plain_def)
  have a2: "agree {tmp} (wd_files w) (wd_files w2)" using agree_trans [OF a1 write_calls_files(1) [OF c2]] .
  have p2: "calm_write tmp t w \<Longrightarrow> ok1 \<Longrightarrow> plain (wd_files w2 tmp) \<and> (if ok2 then one_fault w2 else quiet w2)"
    using p1 write_calls_files(2) [OF c2] write_calls_outcome(3) [OF c2] by simp
  have un: "agree {tmp} (wd_files v) (wd_files (attempt (unlinkSync tmp) v))" for v by (simp add: attempt_def)
  have cl: "wd_files (attempt sync_or_close v) = wd_files v" for v by (simp add: attempt_def sync_or_close_files)
  consider "\<not> ok1" | "ok1" "\<not> ok2" | "ok1" "ok2" "\<not> ok3" | "ok1" "ok2" "ok3" by blast
  then show ?thesis
  proof cases
    case 1
    then have "w' = attempt (unlinkSync tmp) w1" "\<not> ok" using r c1 by auto
    with agree_trans [OF a1 un] p1 1 unlink_plain show ?thesis by auto
  next
    case 2
    then have w': "w' = attempt (unlinkSync tmp) (attempt sync_or_close w2)" "\<not> ok"
      using r c1 c2 by (auto simp del: do_calls.simps)
    have "agree {tmp} (wd_files w) (wd_files (attempt sync_or_close w2))" using a2 cl by simp
    from agree_trans [OF this un] p2 2 unlink_plain attempt_quiet(2) cl w' show ?thesis by auto
  next
    case 3
    then have w': "w' = attempt (unlinkSync tmp) w3" "\<not> ok" using r c1 c2 c3 by (auto simp del: do_calls.simps)
    have f2: "wd_files w2 tmp = Some (File d)" using write_calls_outcome(1) [OF c2] 3 by simp
    have f3: "wd_files w3 = wd_files w2" using c3 3
      by (cases "next_fault w2")
        (auto simp: renameSync_def fs_call_def no_partial_def split: fault.splits option.splits dest: next_fault_files)
    have "plain (wd_files w2 t)" if "calm_write tmp t w" using a2 tmp(2) that by (simp add: agree_def calm_write_def)
    then have "quiet w3" if "calm_write tmp t w" using rename_call(3) [OF c3 f2] p2 3 that by simp
    moreover have "plain (wd_files w3 tmp)" using f2 f3 by (simp add: plain_def)
    ultimately have "wd_files w' tmp = None" if "calm_write tmp t w" using w'(1) unlink_plain that by simp
    moreover have "agree {tmp} (wd_files w) (wd_files w')" using agree_trans [OF a2 [folded f3] un] w'(1) by simp
    ultimately show ?thesis using w'(2) by blast
  next
    case 4
    have f2: "wd_files w2 tmp = Some (File d)" using write_calls_outcome(1) [OF c2] 4 by simp
    have "wd_files w3 = (wd_files w2)(t \<mapsto> File d, tmp := None)" using rename_call(1) [OF c3 f2] 4 by simp
    also have "\<dots> = (wd_files w)(t \<mapsto> File d, tmp := None)" using a2 by (auto simp: agree_def)
    finally have f3: "wd_files w3 = (wd_files w)(t \<mapsto> File d, tmp := None)" .
    have "wd_files w4 = wd_files w3" by (rule sync_parent_files [OF c4])
    moreover have "w' = (if ok4 then w4 else attempt (unlinkSync tmp) w4)"
      using r c1 c2 c3 c4 4 by (auto simp del: do_calls.simps split: bool.splits)
    ultimately show ?thesis using f3 unlink_absent [of w4 tmp] by auto
  qed
qed

section \<open>What is read back\<close>

text \<open>
  Stores as they are built: entries under their own identifiers, once each, and no mission with an
  empty list of events.
\<close>

definition keyed_by :: "js_string \<Rightarrow> (js_value, js_value) js_map \<Rightarrow> bool" where
  "keyed_by k m \<longleftrightarrow> distinct (map fst m) \<and> list_all (\<lambda>(i, v). read_member v k = Some i) m"

definition grouped :: "(js_value, js_value list) js_map \<Rightarrow> bool" where
  "grouped m \<longleftrightarrow>
     distinct (map fst m) \<and> list_all (\<lambda>(i, es). es \<noteq> [] \<and> list_all (\<lambda>e. read_member e ''missionId'' = Some i) es) m"

definition stores_ok :: "MissionRuntimeStores \<Rightarrow> bool" where
  "stores_ok s \<longleftrightarrow> keyed_by ''id'' (rs_missions s) \<and> grouped (rs_events s) \<and> keyed_by ''key'' (rs_idempotency s)"

lemma keyed_update: "keyed_by k m \<Longrightarrow> read_member v k = Some i \<Longrightarrow> keyed_by k (AList.update i v m)"
  by (auto simp: keyed_by_def list_all_iff distinct_update dest!: in_set_update)

lemma grouped_append:
  assumes "grouped m" and "read_member e ''missionId'' = Some i"
  shows "grouped (append_value i e m)"
proof -
  have "list_all (\<lambda>e. read_member e ''missionId'' = Some i) (case map_of m i of None \<Rightarrow> [] | Some es \<Rightarrow> es)"
    using assms(1) by (fastforce simp: grouped_def list_all_iff dest!: map_of_SomeD split: option.split)
  with assms show ?thesis
    by (fastforce simp: append_value_def grouped_def list_all_iff distinct_update dest!: in_set_update)
qed

lemma insert_all_keeps:
  assumes "insert_all k f vs s = Inr s'" and "P s" and "\<And>key v s. read_member v k = Some key \<Longrightarrow> P s \<Longrightarrow> P (f key v s)"
  shows "P s'"
  using assms(1,2) by (induction vs arbitrary: s) (auto intro: assms(3) split: option.splits)

lemma hydrate_ok: "hydrate parse files path = Inr s \<Longrightarrow> stores_ok s"
proof -
  assume h: "hydrate parse files path = Inr s"
  have nil: "keyed_by ''id'' []" "keyed_by ''key'' []" "grouped []" by (simp_all add: keyed_by_def grouped_def)
  from h obtain ms es rs where
    i: "insert_all ''id'' AList.update ms (rs_missions buildEmptyStores) = Inr (rs_missions s)"
       "insert_all ''missionId'' append_value es (rs_events buildEmptyStores) = Inr (rs_events s)"
       "insert_all ''key'' AList.update rs (rs_idempotency buildEmptyStores) = Inr (rs_idempotency s)"
    by (fastforce simp: hydrate_def Let_def split: sum.splits)
  have "keyed_by ''id'' (rs_missions s)"
    by (rule insert_all_keeps [OF i(1)]) (simp_all add: buildEmptyStores_def nil keyed_update)
  moreover have "grouped (rs_events s)"
    by (rule insert_all_keeps [OF i(2)]) (simp_all add: buildEmptyStores_def nil grouped_append)
  moreover have "keyed_by ''key'' (rs_idempotency s)"
    by (rule insert_all_keeps [OF i(3)]) (simp_all add: buildEmptyStores_def nil keyed_update)
  ultimately show ?thesis by (simp add: stores_ok_def)
qed

lemma update_new: "i \<notin> fst ` set m \<Longrightarrow> AList.update i v m = m @ [(i, v)]"
  by (induction m) auto

lemma insert_all_append:
  "insert_all k f (us @ vs) s = (case insert_all k f us s of Inl e \<Rightarrow> Inl e | Inr s' \<Rightarrow> insert_all k f vs s')"
  by (induction us arbitrary: s) (auto split: option.split)

lemma insert_keyed:
  "keyed_by k (m @ r) \<Longrightarrow> insert_all k AList.update (map snd r) m = Inr (m @ r)"
proof (induction r arbitrary: m)
  case (Cons p r)
  obtain i v where p: "p = (i, v)" by (cases p)
  have "keyed_by k ((m @ [(i, v)]) @ r)" using Cons.prems p by simp
  from Cons.IH [OF this] have "insert_all k AList.update (map snd r) (m @ [(i, v)]) = Inr (m @ p # r)" by (simp add: p)
  moreover have "read_member v k = Some i" "i \<notin> fst ` set m" using Cons.prems p by (auto simp: keyed_by_def)
  ultimately show ?case by (simp add: p update_new)
qed simp

lemma append_new: "i \<notin> fst ` set m \<Longrightarrow> append_value i e m = m @ [(i, [e])]"
  by (simp add: append_value_def update_new map_of_eq_None_iff [THEN iffD2])

lemma append_last: "i \<notin> fst ` set m \<Longrightarrow> append_value i e (m @ [(i, es)]) = m @ [(i, es @ [e])]"
proof -
  assume i: "i \<notin> fst ` set m"
  then have "map_of m i = None" by (simp add: map_of_eq_None_iff)
  moreover have "AList.update i v (m @ [(i, es)]) = m @ [(i, v)]" for v using i by (induction m) auto
  ultimately show ?thesis by (simp add: append_value_def map_add_def)
qed

lemma insert_group:
  assumes "i \<notin> fst ` set m" and "list_all (\<lambda>e. read_member e ''missionId'' = Some i) es"
  shows "insert_all ''missionId'' append_value es (m @ [(i, ds)]) = Inr (m @ [(i, ds @ es)])"
  using assms(2) by (induction es arbitrary: ds) (simp_all add: append_last [OF assms(1)])

lemma insert_grouped:
  "grouped (m @ r) \<Longrightarrow> insert_all ''missionId'' append_value (concat (map snd r)) m = Inr (m @ r)"
proof (induction r arbitrary: m)
  case (Cons p r)
  obtain i es where p: "p = (i, es)" by (cases p)
  obtain e es' where es: "es = e # es'" using Cons.prems p by (cases es) (auto simp: grouped_def)
  have i: "i \<notin> fst ` set m" "list_all (\<lambda>e. read_member e ''missionId'' = Some i) es"
    using Cons.prems p by (auto simp: grouped_def)
  have "insert_all ''missionId'' append_value es m = Inr (m @ [(i, es)])"
    using insert_group [OF i(1), of es' "[e]"] i es by (simp add: append_new)
  moreover have "grouped ((m @ [p]) @ r)" using Cons.prems by simp
  ultimately show ?case using Cons.IH by (simp add: p insert_all_append)
qed simp

lemma hydrate_file:
  assumes "files path = Some (File (store_text L s))" and "parse (store_text L s) = Some (store_value s)" and "stores_ok s"
  shows "hydrate parse files path = Inr s"
proof -
  have "loadStoreFile parse files path = Inr (Some \<lparr>sf_storeSchemaVersion = Fin (of_int STORE_SCHEMA_VERSION),
      sf_missions = map snd (rs_missions s), sf_events = concat (map snd (rs_events s)),
      sf_idempotency = map snd (rs_idempotency s)\<rparr>)"
    by (simp add: loadStoreFile_def existsSync_def readFileSync_def assms(1,2)) (simp add: store_value_def)
  with assms(3) insert_keyed [of "''id''" "[]" "rs_missions s"] insert_grouped [of "[]" "rs_events s"]
    insert_keyed [of "''key''" "[]" "rs_idempotency s"]
  show ?thesis by (simp add: hydrate_def buildEmptyStores_def stores_ok_def)
qed

lemma hydrate_same: "files path = files' path \<Longrightarrow> hydrate parse files path = hydrate parse files' path"
  by (simp add: hydrate_def loadStoreFile_def existsSync_def readFileSync_def)

text \<open>C36:
  Whatever calls fail and wherever the process dies, persisting leaves a file from which either the
  stores of before or exactly the persisted stores are read back, the latter when it returns; no
  other file changes but the temporary one, which one failing call does not leave behind.
\<close>

theorem persisted_stores_are_read_back:
  assumes "stores_ok s" and "parse (store_text L s) = Some (store_value s)"
    and tmp: "tmp = temp_path (uuid (wd_fresh w)) path" "tmp \<noteq> path"
    and run: "persist L uuid path s w = (ok, w')"
  shows "hydrate parse (wd_files w') path \<in> (if ok then {Inr s} else {hydrate parse (wd_files w) path, Inr s}) \<and>
    agree {path, tmp} (wd_files w) (wd_files w') \<and>
    (calm_write tmp path w \<longrightarrow> wd_files w' tmp = None)"
  using write_ends [OF run [unfolded persist_def] tmp]
proof
  assume a: "\<not> ok \<and> agree {tmp} (wd_files w) (wd_files w') \<and> (calm_write tmp path w \<longrightarrow> wd_files w' tmp = None)"
  then have "wd_files w path = wd_files w' path" using tmp(2) by (simp add: agree_def)
  from hydrate_same [of "wd_files w" path "wd_files w'" parse] this a show ?thesis by (auto simp: agree_def)
next
  assume f: "wd_files w' = (wd_files w)(path \<mapsto> File (store_text L s), tmp := None)"
  then have "wd_files w' path = Some (File (store_text L s))" using tmp(2) by simp
  from hydrate_file [of "wd_files w'" path L s parse] assms(1,2) this f show ?thesis by (simp add: agree_def)
qed

definition sample_stores :: MissionRuntimeStores where
  "sample_stores =
     \<lparr>rs_missions = [(J_str ''m'', J_obj [(''id'', J_str ''m'')])],
      rs_events = [(J_str ''m'', [J_obj [(''missionId'', J_str ''m'')]])], rs_idempotency = []\<rparr>"

text \<open>The rename fails: the old file, here none, is kept.\<close>

definition failing_world :: world where
  "failing_world =
     \<lparr>wd_files = [''/d'' \<mapsto> Directory], wd_faults = [Works, Works, Works, Works, Throws None], wd_dead = False, wd_fresh = 0\<rparr>"

theorem persisted_stores_are_read_back_witness:
  "\<exists>parse w'. persist skill_lib (\<lambda>n. ''u'') ''/d/s'' sample_stores failing_world = (False, w') \<and>
     wd_files w' ''/d/s.tmp.u'' = None \<and>
     hydrate parse (wd_files w') ''/d/s'' \<in> {hydrate parse (wd_files failing_world) ''/d/s'', Inr sample_stores}"
proof -
  define parse where "parse = (\<lambda>t. if t = store_text skill_lib sample_stores then Some (store_value sample_stores) else None)"
  have tmp: "''/d/s.tmp.u'' = temp_path ((\<lambda>n. ''u'') (wd_fresh failing_world)) ''/d/s''" by code_simp
  have dir: "path_dirname ''/d/s.tmp.u'' = ''/d''" by code_simp
  have ok: "stores_ok sample_stores" by code_simp
  obtain w' where run: "persist skill_lib (\<lambda>n. ''u'') ''/d/s'' sample_stores failing_world = (False, w')"
    unfolding persist_def writeFileAtomic_def tmp [symmetric]
    by (simp add: failing_world_def open_write_def write_open_def sync_or_close_def renameSync_def fs_call_def
      next_fault_def Let_def dir)
  have "calm_write ''/d/s.tmp.u'' ''/d/s'' failing_world"
    unfolding calm_write_def one_fault_def dir
    by (auto simp: failing_world_def plain_def intro!: exI [of _ 4] exI [of _ None] simp: eval_nat_numeral)
  moreover have "parse (store_text skill_lib sample_stores) = Some (store_value sample_stores)" by (simp add: parse_def)
  ultimately show ?thesis
    using persisted_stores_are_read_back [OF ok _ tmp _ run, of parse] run by auto
qed

end
