(* ===== verification/Sanitize.thy ===== *)
theory Sanitize
  imports Prelude
begin

text \<open>
  \<^verbatim>\<open>security/sanitize.ts\<close>: detection and quoting of directives in untrusted documents. The
  regular expressions are terms of a small datatype, run by a backtracking matcher with the choices
  of ECMAScript; a position is the text still to come and the character before it. The ellipsis of
  a cut snippet is a flag.
\<close>

section \<open>Regular expressions\<close>

datatype regex =
  Rx_empty
| Rx_class "char \<Rightarrow> bool"
| Rx_boundary
| Rx_repeat "nat option" "char \<Rightarrow> bool"
| Rx_seq regex regex
| Rx_alt regex regex

definition word_char :: "char \<Rightarrow> bool" where
  "word_char c \<longleftrightarrow>
     is_digit c \<or> 65 \<le> code_unit c \<and> code_unit c \<le> 90 \<or> 97 \<le> code_unit c \<and> code_unit c \<le> 122 \<or> c = CHR ''_''"

definition word_at :: "char option \<Rightarrow> bool" where
  "word_at c = (case c of None \<Rightarrow> False | Some c \<Rightarrow> word_char c)"

definition next_char :: "js_string \<Rightarrow> char option" where
  "next_char s = (case s of [] \<Rightarrow> None | c # _ \<Rightarrow> Some c)"

type_synonym rx_rest = "char option \<Rightarrow> js_string \<Rightarrow> js_string option"

definition limit_left :: "nat option \<Rightarrow> bool" where
  "limit_left n \<longleftrightarrow> n \<noteq> Some 0"

text \<open>The longest repetition is tried first.\<close>

fun repeat_match :: "nat option \<Rightarrow> (char \<Rightarrow> bool) \<Rightarrow> char option \<Rightarrow> js_string \<Rightarrow> rx_rest \<Rightarrow> js_string option" where
  "repeat_match n P p [] k = k p []"
| "repeat_match n P p (c # s) k =
     (if P c \<and> limit_left n then
        (case repeat_match (map_option (\<lambda>m. m - 1) n) P (Some c) s k of
           Some t \<Rightarrow> Some t
         | None \<Rightarrow> k p (c # s))
      else k p (c # s))"

primrec rx_match :: "regex \<Rightarrow> char option \<Rightarrow> js_string \<Rightarrow> rx_rest \<Rightarrow> js_string option" where
  "rx_match Rx_empty p s k = k p s"
| "rx_match (Rx_class P) p s k = (case s of [] \<Rightarrow> None | c # t \<Rightarrow> if P c then k (Some c) t else None)"
| "rx_match Rx_boundary p s k = (if word_at p \<noteq> word_at (next_char s) then k p s else None)"
| "rx_match (Rx_repeat n P) p s k = repeat_match n P p s k"
| "rx_match (Rx_seq a b) p s k = rx_match a p s (\<lambda>p' t. rx_match b p' t k)"
| "rx_match (Rx_alt a b) p s k = (case rx_match a p s k of Some t \<Rightarrow> Some t | None \<Rightarrow> rx_match b p s k)"

text \<open>The first position with a match: the text before it, the match and the text after it.\<close>

fun rx_search :: "regex \<Rightarrow> char option \<Rightarrow> js_string \<Rightarrow> (js_string \<times> js_string \<times> js_string) option" where
  "rx_search r p s =
     (case rx_match r p s (\<lambda>p' t. Some t) of
        Some t \<Rightarrow> Some ([], take (length s - length t) s, t)
      | None \<Rightarrow>
          (case s of
             [] \<Rightarrow> None
           | c # s' \<Rightarrow>
               (case rx_search r (Some c) s' of
                  None \<Rightarrow> None
                | Some (a, m, b) \<Rightarrow> Some (c # a, m, b))))"

declare rx_search.simps [simp del]

section \<open>The patterns\<close>

text \<open>All patterns ignore the case of letters.\<close>

definition rx_char :: "char \<Rightarrow> regex" where
  "rx_char c = Rx_class (\<lambda>d. lower_char d = lower_char c)"

primrec rx_text :: "js_string \<Rightarrow> regex" where
  "rx_text [] = Rx_empty"
| "rx_text (c # s) = Rx_seq (rx_char c) (rx_text s)"

fun rx_any :: "regex list \<Rightarrow> regex" where
  "rx_any [] = Rx_class (\<lambda>c. False)"
| "rx_any [r] = r"
| "rx_any (r # rs) = Rx_alt r (rx_any rs)"

fun rx_cat :: "regex list \<Rightarrow> regex" where
  "rx_cat [] = Rx_empty"
| "rx_cat [r] = r"
| "rx_cat (r # rs) = Rx_seq r (rx_cat rs)"

definition rx_words :: "js_string list \<Rightarrow> regex" where
  "rx_words ws = rx_any (map rx_text ws)"

definition rx_opt :: "regex \<Rightarrow> regex" where
  "rx_opt r = Rx_alt r Rx_empty"

definition rx_maybe_s :: "js_string \<Rightarrow> regex" where
  "rx_maybe_s w = rx_cat [rx_text w, rx_opt (rx_text ''s'')]"

definition rx_spaces :: regex where
  "rx_spaces = Rx_repeat None is_space"

definition not_line_end :: "char \<Rightarrow> bool" where
  "not_line_end c \<longleftrightarrow> c \<noteq> CHR 0x0A \<and> c \<noteq> CHR 0x0D"

datatype risk_kind =
  Ignore_prior_instructions | System_prompt_redefinition | Role_redefinition | Xml_instruction_block
| Tool_or_permission_request | Authority_escalation

definition PATTERNS :: "(risk_kind \<times> regex) list" where
  "PATTERNS =
     [(Ignore_prior_instructions,
       rx_cat [Rx_boundary, rx_text ''ignore '', rx_opt (rx_words [''all '', ''any '']),
         rx_words [''previous'', ''prior'', ''earlier''], rx_text '' '',
         rx_any [rx_maybe_s ''instruction'', rx_maybe_s ''directive'', rx_maybe_s ''prompt''], Rx_boundary]),
      (Ignore_prior_instructions,
       rx_cat [Rx_boundary, rx_text ''forget '', rx_words [''everything'', ''all previous'', ''your instructions''], Rx_boundary]),
      (System_prompt_redefinition,
       rx_cat [Rx_boundary, rx_words [''system prompt'', ''system message''], rx_spaces,
         Rx_class (\<lambda>c. c = CHR ''='' \<or> c = CHR '':''), rx_spaces, Rx_repeat (Some 40) not_line_end]),
      (System_prompt_redefinition, rx_cat [Rx_boundary, rx_text ''you are now'', Rx_boundary]),
      (Role_redefinition,
       rx_cat [Rx_boundary, rx_words [''disregard'', ''ignore''], rx_text '' '', rx_opt (rx_text ''your ''),
         rx_any [rx_text ''role'', rx_text ''instructions'', rx_cat [rx_text ''config'', rx_opt (rx_text ''uration'')]], Rx_boundary]),
      (Role_redefinition,
       rx_cat [Rx_boundary, rx_text ''act as '', rx_opt (rx_cat [rx_text ''a'', rx_opt (rx_text ''n''), rx_text '' '']),
         rx_words [''administrator'', ''root'', ''system'', ''unrestricted'', ''omniscient''], Rx_boundary]),
      (Xml_instruction_block,
       rx_cat [rx_text ''<'', rx_spaces,
         rx_any [rx_maybe_s ''instruction'', rx_text ''system'', rx_text ''config'', rx_text ''tool'', rx_text ''permission'',
           rx_text ''prompt''],
         Rx_boundary, Rx_repeat None (\<lambda>c. c \<noteq> CHR ''>''), rx_text ''>'', Rx_repeat (Some 200) (\<lambda>c. True)]),
      (Tool_or_permission_request,
       rx_cat [Rx_boundary, rx_words [''grant'', ''give'', ''allow''], rx_text '' '',
         rx_words [''me'', ''the agent'', ''yourself''], rx_text '' '',
         rx_any [rx_text ''access'', rx_maybe_s ''permission'', rx_maybe_s ''tool'', rx_text ''the ability''], Rx_boundary]),
      (Authority_escalation,
       rx_cat [Rx_boundary, rx_words [''skip'', ''bypass'', ''override''], rx_text '' '', rx_opt (rx_text ''the ''),
         rx_any [rx_maybe_s ''gate'', rx_maybe_s ''approval'', rx_maybe_s ''control'', rx_text ''review''], Rx_boundary]),
      (Authority_escalation,
       rx_cat [Rx_boundary, rx_words [''mark'', ''treat'', ''report''], rx_text '' '', rx_opt (rx_words [''this '', ''it '']),
         rx_text ''as '', rx_words [''approved'', ''verified'', ''accepted''], Rx_boundary])]"

section \<open>Detection and quoting\<close>

definition SNIPPET_LIMIT :: nat where
  "SNIPPET_LIMIT = 80"

text \<open>The flag says that an ellipsis follows.\<close>

definition snippetOf :: "js_string \<Rightarrow> js_string \<times> bool" where
  "snippetOf m =
     (let trimmed = js_trim m
      in if SNIPPET_LIMIT < length trimmed then (take SNIPPET_LIMIT trimmed, True) else (trimmed, False))"

record InjectionRisk =
  ir_kind :: risk_kind
  ir_snippet :: "js_string \<times> bool"

record SanitizationResult =
  sz_safeText :: js_string
  sz_risks :: "InjectionRisk list"
  sz_neutralized :: bool

definition risk_of :: "js_string \<Rightarrow> risk_kind \<times> regex \<Rightarrow> InjectionRisk list" where
  "risk_of s pat =
     (case rx_search (snd pat) None s of
        None \<Rightarrow> []
      | Some (a, m, b) \<Rightarrow> [\<lparr>ir_kind = fst pat, ir_snippet = snippetOf m\<rparr>])"

definition detectInjectionRisks :: "js_string \<Rightarrow> InjectionRisk list" where
  "detectInjectionRisks s = concat (map (risk_of s) PATTERNS)"

definition inert_char :: "char \<Rightarrow> char" where
  "inert_char c = (if c = CHR ''<'' then CHR ''['' else if c = CHR ''>'' then CHR '']'' else c)"

definition quoted_match :: "js_string \<Rightarrow> js_string" where
  "quoted_match m = ''[UNTRUSTED: '' @ map inert_char (js_trim m) @ '']''"

text \<open>\<open>replace\<close> without the flag \<open>g\<close>: only the first match.\<close>

definition neutralize_step :: "risk_kind \<times> regex \<Rightarrow> js_string \<times> bool \<Rightarrow> js_string \<times> bool" where
  "neutralize_step pat out =
     (case rx_search (snd pat) None (fst out) of
        None \<Rightarrow> out
      | Some (a, m, b) \<Rightarrow> (a @ quoted_match m @ b, True))"

definition neutralizeInstructions :: "js_string \<Rightarrow> js_string \<times> bool" where
  "neutralizeInstructions s = fold neutralize_step PATTERNS (s, False)"

definition sanitizeDocumentText :: "js_string \<Rightarrow> SanitizationResult" where
  "sanitizeDocumentText s =
     (let risks = detectInjectionRisks s
      in case neutralizeInstructions s of
           (safeText, neutralized) \<Rightarrow> \<lparr>sz_safeText = safeText, sz_risks = risks, sz_neutralized = neutralized\<rparr>)"

section \<open>The matcher and the language of a pattern\<close>

text \<open>\<open>rx_lang r p s q t\<close>: from the position \<open>(p, s)\<close> a match of \<open>r\<close> may end at \<open>(q, t)\<close>.\<close>

definition last_char :: "char option \<Rightarrow> js_string \<Rightarrow> char option" where
  "last_char p x = (if x = [] then p else Some (last x))"

primrec rx_lang :: "regex \<Rightarrow> char option \<Rightarrow> js_string \<Rightarrow> char option \<Rightarrow> js_string \<Rightarrow> bool" where
  "rx_lang Rx_empty p s q t \<longleftrightarrow> q = p \<and> t = s"
| "rx_lang (Rx_class P) p s q t \<longleftrightarrow> (\<exists>c. s = c # t \<and> P c \<and> q = Some c)"
| "rx_lang Rx_boundary p s q t \<longleftrightarrow> q = p \<and> t = s \<and> word_at p \<noteq> word_at (next_char s)"
| "rx_lang (Rx_repeat n P) p s q t \<longleftrightarrow>
     (\<exists>x. s = x @ t \<and> list_all P x \<and> q = last_char p x \<and> (case n of None \<Rightarrow> True | Some m \<Rightarrow> length x \<le> m))"
| "rx_lang (Rx_seq a b) p s q t \<longleftrightarrow> (\<exists>q' t'. rx_lang a p s q' t' \<and> rx_lang b q' t' q t)"
| "rx_lang (Rx_alt a b) p s q t \<longleftrightarrow> rx_lang a p s q t \<or> rx_lang b p s q t"

lemma rx_lang_suffix: "rx_lang r p s q t \<Longrightarrow> \<exists>x. s = x @ t \<and> q = last_char p x"
proof (induction r arbitrary: p s q t)
  case (Rx_seq a b)
  then obtain q' t' where "rx_lang a p s q' t'" "rx_lang b q' t' q t" by auto
  with Rx_seq.IH obtain x y where "s = x @ t'" "q' = last_char p x" "t' = y @ t" "q = last_char q' y" by blast
  then show ?case by (intro exI [of _ "x @ y"]) (simp add: last_char_def)
next
  case (Rx_alt a b)
  then show ?case by (simp only: rx_lang.simps) blast
next
  case (Rx_class P)
  then obtain c where "s = c # t" "q = Some c" by auto
  then show ?case by (intro exI [of _ "[c]"]) (simp add: last_char_def)
next
  case (Rx_repeat n P)
  then show ?case by (simp only: rx_lang.simps) blast
qed (simp_all add: last_char_def)

lemma repeat_lang_Cons:
  "rx_lang (Rx_repeat n P) p (c # s) q t \<longleftrightarrow>
     (q = p \<and> t = c # s) \<or> P c \<and> limit_left n \<and> rx_lang (Rx_repeat (map_option (\<lambda>m. m - 1) n) P) (Some c) s q t"
proof
  assume "rx_lang (Rx_repeat n P) p (c # s) q t"
  then obtain x where x: "c # s = x @ t" "list_all P x" "q = last_char p x" "case n of None \<Rightarrow> True | Some m \<Rightarrow> length x \<le> m"
    by auto
  show "(q = p \<and> t = c # s) \<or> P c \<and> limit_left n \<and> rx_lang (Rx_repeat (map_option (\<lambda>m. m - 1) n) P) (Some c) s q t"
  proof (cases x)
    case (Cons d y)
    with x have "s = y @ t" "list_all P y" "q = last_char (Some c) y" "P c" "d = c" by (auto simp: last_char_def)
    moreover have "limit_left n" using x(4) Cons by (auto simp: limit_left_def)
    moreover have "case map_option (\<lambda>m. m - 1) n of None \<Rightarrow> True | Some m \<Rightarrow> length y \<le> m"
      using x(4) Cons by (cases n) auto
    ultimately show ?thesis by auto
  qed (use x in \<open>auto simp: last_char_def\<close>)
next
  assume r: "(q = p \<and> t = c # s) \<or> P c \<and> limit_left n \<and> rx_lang (Rx_repeat (map_option (\<lambda>m. m - 1) n) P) (Some c) s q t"
  show "rx_lang (Rx_repeat n P) p (c # s) q t"
  proof (cases "q = p \<and> t = c # s")
    case True
    then show ?thesis by (auto simp: last_char_def intro!: exI [of _ "[]"] split: option.split)
  next
    case False
    with r obtain y where "s = y @ t" "list_all P y" "q = last_char (Some c) y" "P c" "limit_left n"
      "case map_option (\<lambda>m. m - 1) n of None \<Rightarrow> True | Some m \<Rightarrow> length y \<le> m" by auto
    then show ?thesis
      by (cases n) (auto simp: last_char_def limit_left_def intro!: exI [of _ "c # y"])
  qed
qed

lemma repeat_lang_Nil: "rx_lang (Rx_repeat n P) p [] q t \<longleftrightarrow> q = p \<and> t = []"
  by (auto simp: last_char_def split: option.split)

lemma repeat_match_iff:
  "(\<exists>u. repeat_match n P p s k = Some u) \<longleftrightarrow> (\<exists>q t u. rx_lang (Rx_repeat n P) p s q t \<and> k q t = Some u)"
proof (induction n P p s k rule: repeat_match.induct)
  case (1 n P p k)
  then show ?case using repeat_lang_Nil by (metis repeat_match.simps(1))
next
  case (2 n P p c s k)
  show ?case
  proof (cases "P c \<and> limit_left n")
    case True
    let ?n = "map_option (\<lambda>m. m - 1) n"
    have "(\<exists>u. repeat_match n P p (c # s) k = Some u) \<longleftrightarrow>
        (\<exists>u. repeat_match ?n P (Some c) s k = Some u) \<or> (\<exists>u. k p (c # s) = Some u)"
      using True by (auto split: option.split)
    with 2 [OF True] True show ?thesis
      unfolding repeat_lang_Cons by (simp del: rx_lang.simps repeat_match.simps) blast
  next
    case False
    then show ?thesis unfolding repeat_lang_Cons by (simp del: rx_lang.simps) blast
  qed
qed

lemma rx_match_iff: "(\<exists>u. rx_match r p s k = Some u) \<longleftrightarrow> (\<exists>q t u. rx_lang r p s q t \<and> k q t = Some u)"
proof (induction r arbitrary: p s k)
  case (Rx_repeat n P)
  show ?case using repeat_match_iff by (simp del: rx_lang.simps)
next
  case (Rx_seq a b)
  show ?case by (simp add: Rx_seq.IH) blast
next
  case (Rx_alt a b)
  show ?case using Rx_alt.IH [of p s k] by (auto split: option.split)
next
  case (Rx_class P)
  show ?case by (cases s) auto
qed auto

lemma repeat_match_sound:
  "repeat_match n P p s k = Some u \<Longrightarrow> \<exists>q t. rx_lang (Rx_repeat n P) p s q t \<and> k q t = Some u"
proof (induction n P p s k rule: repeat_match.induct)
  case (1 n P p k)
  then show ?case using repeat_lang_Nil by (metis repeat_match.simps(1))
next
  case (2 n P p c s k)
  show ?case
  proof (cases "P c \<and> limit_left n \<and> repeat_match (map_option (\<lambda>m. m - 1) n) P (Some c) s k \<noteq> None")
    case True
    with 2 show ?thesis unfolding repeat_lang_Cons by (simp del: rx_lang.simps split: option.splits) blast
  next
    case False
    with 2(2) have "k p (c # s) = Some u" by (auto split: if_splits option.splits)
    then show ?thesis unfolding repeat_lang_Cons by blast
  qed
qed

lemma rx_match_sound: "rx_match r p s k = Some u \<Longrightarrow> \<exists>q t. rx_lang r p s q t \<and> k q t = Some u"
proof (induction r arbitrary: p s k)
  case (Rx_repeat n P)
  then show ?case using repeat_match_sound by (simp del: rx_lang.simps)
next
  case (Rx_seq a b)
  from Rx_seq.prems obtain q t where "rx_lang a p s q t" "rx_match b q t k = Some u"
    using Rx_seq.IH(1) [of p s "\<lambda>p' t. rx_match b p' t k"] by auto
  with Rx_seq.IH(2) [of q t k] show ?case by auto
next
  case (Rx_alt a b)
  then show ?case by (fastforce split: option.splits)
qed (auto split: list.splits if_splits)

text \<open>A pattern occurs where some part of the text, in its context, is in its language.\<close>

definition occurs_from :: "char option \<Rightarrow> regex \<Rightarrow> js_string \<Rightarrow> bool" where
  "occurs_from p r s \<longleftrightarrow> (\<exists>a m b q. s = a @ m @ b \<and> rx_lang r (last_char p a) (m @ b) q b)"

definition occurs :: "regex \<Rightarrow> js_string \<Rightarrow> bool" where
  "occurs r s \<longleftrightarrow> occurs_from None r s"

lemma occurs_Nil: "occurs_from p r [] \<longleftrightarrow> (\<exists>q t. rx_lang r p [] q t)"
  by (auto simp: occurs_from_def last_char_def dest: rx_lang_suffix)

lemma occurs_Cons: "occurs_from p r (c # s) \<longleftrightarrow> (\<exists>q t. rx_lang r p (c # s) q t) \<or> occurs_from (Some c) r s"
proof
  assume "occurs_from p r (c # s)"
  then obtain a m b q where o: "c # s = a @ m @ b" "rx_lang r (last_char p a) (m @ b) q b" by (auto simp: occurs_from_def)
  show "(\<exists>q t. rx_lang r p (c # s) q t) \<or> occurs_from (Some c) r s"
  proof (cases a)
    case Nil
    with o show ?thesis by (auto simp: last_char_def)
  next
    case (Cons d a')
    with o have "s = a' @ m @ b" "last_char p a = last_char (Some c) a'" by (auto simp: last_char_def)
    with o(2) show ?thesis by (auto simp: occurs_from_def)
  qed
next
  assume "(\<exists>q t. rx_lang r p (c # s) q t) \<or> occurs_from (Some c) r s"
  then show "occurs_from p r (c # s)"
  proof
    assume "\<exists>q t. rx_lang r p (c # s) q t"
    then obtain q t where l: "rx_lang r p (c # s) q t" by blast
    then obtain x where x: "c # s = x @ t" using rx_lang_suffix by blast
    show ?thesis unfolding occurs_from_def
      by (rule exI [of _ "[]"], rule exI [of _ x], rule exI [of _ t], rule exI [of _ q])
        (use l x in \<open>simp add: last_char_def\<close>)
  next
    assume "occurs_from (Some c) r s"
    then obtain a m b q where o: "s = a @ m @ b" "rx_lang r (last_char (Some c) a) (m @ b) q b"
      by (auto simp: occurs_from_def)
    have "last_char p (c # a) = last_char (Some c) a" by (simp add: last_char_def)
    with o show ?thesis unfolding occurs_from_def
      by (intro exI [of _ "c # a"] exI [of _ m] exI [of _ b] exI [of _ q]) simp
  qed
qed

lemma search_here: "(\<exists>t. rx_match r p s (\<lambda>p' t. Some t) = Some t) \<longleftrightarrow> (\<exists>q t. rx_lang r p s q t)"
  using rx_match_iff [of r p s "\<lambda>p' t. Some t"] by simp

lemma rx_search_iff: "(\<exists>x. rx_search r p s = Some x) \<longleftrightarrow> occurs_from p r s"
proof (induction s arbitrary: p)
  case Nil
  show ?case
    unfolding occurs_Nil search_here [symmetric] by (subst rx_search.simps) (auto split: option.split)
next
  case (Cons c s)
  have "(\<exists>x. rx_search r p (c # s) = Some x) \<longleftrightarrow>
      (\<exists>t. rx_match r p (c # s) (\<lambda>p' t. Some t) = Some t) \<or> (\<exists>x. rx_search r (Some c) s = Some x)"
    by (subst rx_search.simps) (auto split: option.splits)
  then show ?case unfolding Cons.IH search_here occurs_Cons .
qed

lemma rx_search_parts: "rx_search r p s = Some (a, m, b) \<Longrightarrow> s = a @ m @ b"
proof (induction s arbitrary: p a m b)
  case Nil
  from Nil.prems show ?case by (subst (asm) rx_search.simps) (auto split: option.splits dest!: rx_match_sound rx_lang_suffix)
next
  case (Cons c s)
  show ?case
  proof (cases "rx_match r p (c # s) (\<lambda>p' t. Some t)")
    case None
    with Cons.prems obtain a' where "rx_search r (Some c) s = Some (a', m, b)" "a = c # a'"
      by (subst (asm) rx_search.simps) (auto split: option.splits prod.splits)
    with Cons.IH show ?thesis by simp
  next
    case (Some t)
    then obtain x where "c # s = x @ t" using rx_match_sound rx_lang_suffix by (metis option.inject)
    moreover from Cons.prems Some have "a = []" "m = take (length (c # s) - length t) (c # s)" "b = t"
      by (subst (asm) rx_search.simps, simp)+
    ultimately show ?thesis by simp
  qed
qed

section \<open>What sanitization does\<close>

lemma length_trim: "length (js_trim s) \<le> length s"
  unfolding js_trim_def by (metis length_dropWhile_le length_rev order_trans)

lemma length_step:
  "length (fst (neutralize_step pat out)) \<le> length (fst out) + 13"
proof (cases "rx_search (snd pat) None (fst out)")
  case (Some x)
  obtain a m b where x: "x = (a, m, b)" by (cases x)
  have "fst out = a @ m @ b" using rx_search_parts Some x by blast
  moreover have "fst (neutralize_step pat out) = a @ quoted_match m @ b" by (simp add: neutralize_step_def Some x)
  ultimately show ?thesis using length_trim [of m] by (simp add: quoted_match_def)
qed (simp add: neutralize_step_def)

lemma length_fold: "length (fst (fold neutralize_step ps out)) \<le> length (fst out) + 13 * length ps"
proof (induction ps arbitrary: out)
  case (Cons p ps)
  from Cons.IH [of "neutralize_step p out"] length_step [of p out] show ?case by simp
qed simp

lemma step_flag: "snd out \<Longrightarrow> snd (neutralize_step pat out)"
  by (auto simp: neutralize_step_def split: option.split)

lemma fold_flag: "snd out \<Longrightarrow> snd (fold neutralize_step ps out)"
  by (induction ps arbitrary: out) (simp_all add: step_flag)

text \<open>
  Each replacement leaves a quoted passage and adds an opening bracket that nothing removes again: a
  replaced match keeps its own brackets, since only white space is trimmed.
\<close>

definition bracket_count :: "js_string \<Rightarrow> nat" where
  "bracket_count s = length (filter (\<lambda>c. c = CHR ''['') s)"

definition holds_quote :: "js_string \<Rightarrow> bool" where
  "holds_quote s \<longleftrightarrow> (\<exists>a m b. s = a @ ''[UNTRUSTED: '' @ m @ '']'' @ b)"

lemma bracket_count_append [simp]: "bracket_count (s @ t) = bracket_count s + bracket_count t"
  by (simp add: bracket_count_def)

lemma bracket_count_dropWhile: "bracket_count (dropWhile is_space s) = bracket_count s"
  by (induction s) (auto simp: bracket_count_def is_space_def code_unit_def)

lemma bracket_count_rev: "bracket_count (rev s) = bracket_count s"
  by (simp add: bracket_count_def rev_filter [symmetric])

lemma bracket_count_trim: "bracket_count (js_trim s) = bracket_count s"
  by (simp add: js_trim_def bracket_count_rev bracket_count_dropWhile)

lemma bracket_count_quoted: "bracket_count m < bracket_count (quoted_match m)"
proof -
  have "bracket_count s \<le> bracket_count (map inert_char s)" for s
    by (induction s) (auto simp: bracket_count_def inert_char_def)
  from this [of "js_trim m"] show ?thesis by (simp add: quoted_match_def bracket_count_trim) (simp add: bracket_count_def)
qed

lemma step_marks:
  "neutralize_step pat out = out \<or>
   snd (neutralize_step pat out) \<and> bracket_count (fst out) < bracket_count (fst (neutralize_step pat out)) \<and>
     holds_quote (fst (neutralize_step pat out))"
proof (cases "rx_search (snd pat) None (fst out)")
  case None
  then show ?thesis by (simp add: neutralize_step_def)
next
  case (Some x)
  obtain a m b where x: "x = (a, m, b)" by (cases x)
  have "fst out = a @ m @ b" using rx_search_parts Some x by blast
  moreover have s: "neutralize_step pat out = (a @ quoted_match m @ b, True)" by (simp add: neutralize_step_def Some x)
  moreover have "holds_quote (a @ quoted_match m @ b)"
    unfolding holds_quote_def quoted_match_def by (metis append_assoc)
  ultimately show ?thesis using bracket_count_quoted [of m] by simp
qed

lemma fold_marks:
  assumes "fold neutralize_step ps (s, False) = (t, f)"
  shows "if f then bracket_count s < bracket_count t \<and> holds_quote t else t = s"
proof -
  have "(if snd out then bracket_count s < bracket_count (fst out) \<and> holds_quote (fst out) else fst out = s) \<Longrightarrow>
      (let r = fold neutralize_step ps out
       in if snd r then bracket_count s < bracket_count (fst r) \<and> holds_quote (fst r) else fst r = s)" for out
  proof (induction ps arbitrary: out)
    case (Cons p ps)
    have "if snd (neutralize_step p out)
        then bracket_count s < bracket_count (fst (neutralize_step p out)) \<and> holds_quote (fst (neutralize_step p out))
        else fst (neutralize_step p out) = s"
      using step_marks [of p out] Cons.prems by (auto split: if_splits)
    from Cons.IH [OF this] show ?case by simp
  qed simp
  from this [of "(s, False)"] show ?thesis by (auto simp: assms Let_def split: if_splits)
qed

text \<open>The first pattern to match finds the original text.\<close>

lemma fold_neutral:
  "(if list_all (\<lambda>pat. \<not> occurs (snd pat) s) ps then fold neutralize_step ps (s, False) = (s, False)
    else snd (fold neutralize_step ps (s, False)))"
proof (induction ps)
  case (Cons p ps)
  show ?case
  proof (cases "rx_search (snd p) None s")
    case None
    then have "\<not> occurs (snd p) s" using rx_search_iff [of "snd p" None s] by (simp add: occurs_def)
    moreover have "neutralize_step p (s, False) = (s, False)" by (simp add: neutralize_step_def None)
    ultimately show ?thesis using Cons.IH by simp
  next
    case (Some x)
    have "occurs (snd p) s" unfolding occurs_def using rx_search_iff [of "snd p" None s] Some by blast
    moreover have "snd (neutralize_step p (s, False))" using Some by (cases x) (simp add: neutralize_step_def)
    ultimately show ?thesis by (simp add: fold_flag)
  qed
qed simp

lemma risk_of_iff: "map ir_kind (risk_of s pat) = (if occurs (snd pat) s then [fst pat] else [])"
proof (cases "rx_search (snd pat) None s")
  case (Some x)
  have "occurs (snd pat) s" unfolding occurs_def using rx_search_iff [of "snd pat" None s] Some by blast
  then show ?thesis using Some by (cases x) (simp add: risk_of_def)
qed (use rx_search_iff [of "snd pat" None s] in \<open>simp add: occurs_def risk_of_def\<close>)

lemma risk_kinds: "map ir_kind (detectInjectionRisks s) = map fst (filter (\<lambda>pat. occurs (snd pat) s) PATTERNS)"
proof -
  have "map ir_kind (concat (map (risk_of s) ps)) = map fst (filter (\<lambda>pat. occurs (snd pat) s) ps)" for ps
    by (induction ps) (simp_all add: risk_of_iff)
  then show ?thesis by (simp add: detectInjectionRisks_def)
qed

lemma snippet_bound: "list_all (\<lambda>risk. length (fst (ir_snippet risk)) \<le> SNIPPET_LIMIT) (detectInjectionRisks s)"
  by (auto simp: detectInjectionRisks_def risk_of_def snippetOf_def list_all_iff Let_def split: option.splits)

lemma pattern_count: "length PATTERNS = 10"
  by (simp add: PATTERNS_def)

text \<open>C37:
  The risks reported are exactly the patterns that occur in the text, in their order; the text is
  changed exactly when there is one, and then holds a quoted passage and grows by at most the marks of
  one match per pattern; the flag says whether it was changed, and a snippet is bounded.
\<close>

theorem directives_are_detected:
  "(let r = sanitizeDocumentText s
    in map ir_kind (sz_risks r) = map fst (filter (\<lambda>pat. occurs (snd pat) s) PATTERNS) \<and>
       sz_neutralized r = (sz_risks r \<noteq> []) \<and>
       sz_neutralized r = (sz_safeText r \<noteq> s) \<and>
       (if sz_neutralized r then holds_quote (sz_safeText r) else sz_safeText r = s) \<and>
       length (sz_safeText r) \<le> length s + 130 \<and>
       list_all (\<lambda>risk. length (fst (ir_snippet risk)) \<le> SNIPPET_LIMIT) (sz_risks r))"
proof -
  obtain t f where n: "neutralizeInstructions s = (t, f)" by (cases "neutralizeInstructions s")
  then have fold: "fold neutralize_step PATTERNS (s, False) = (t, f)" by (simp add: neutralizeInstructions_def)
  have none: "(detectInjectionRisks s = []) = list_all (\<lambda>pat. \<not> occurs (snd pat) s) PATTERNS"
    using risk_kinds [of s] by (metis (no_types, lifting) filter_empty_conv list_all_iff map_is_Nil_conv)
  have "f = (detectInjectionRisks s \<noteq> [])" "detectInjectionRisks s = [] \<Longrightarrow> t = s"
    using fold_neutral [of s PATTERNS] unfolding fold none by (auto split: if_splits)
  moreover have "f = (t \<noteq> s)" "if f then holds_quote t else t = s"
    using fold_marks [OF fold] by (auto split: if_splits)
  moreover have "length t \<le> length s + 130"
    using length_fold [of PATTERNS "(s, False)"] unfolding fold pattern_count by simp
  ultimately show ?thesis
    by (auto simp: sanitizeDocumentText_def n risk_kinds snippet_bound)
qed

text \<open>Only the first occurrence is quoted: without the flag \<open>g\<close> the second stays a directive.\<close>

lemma second_directive_survives:
  "neutralize_step (PATTERNS ! 3) (''you are now a, you are now b'', False) =
     (''[UNTRUSTED: you are now] a, you are now b'', True)"
  by (simp add: PATTERNS_def) code_simp

end
