(* ===== verification/Versioning.thy ===== *)
theory Versioning
  imports Skill_Registry
begin

text \<open>
  \<^verbatim>\<open>missions/versioning.ts\<close>: the declared capabilities of the protocol and the compatibility of
  client versions. \<open>Number\<close> of a part that is not a plain decimal is the argument \<open>num\<close>, as in
  \<^verbatim>\<open>Skill_Registry\<close>.
\<close>

definition PROTOCOL_VERSION :: js_string where
  "PROTOCOL_VERSION = ''1.0''"

definition MINIMUM_CLIENT_VERSION :: js_string where
  "MINIMUM_CLIENT_VERSION = ''1.0''"

definition SUPPORTED_FEATURES :: "js_string list" where
  "SUPPORTED_FEATURES =
     [''mission.create.http.v1'', ''mission.read.http.v1'', ''mission.list.http.v1'', ''mission.execute.http.v1'',
      ''mission.approve.http.v1'', ''mission.reject.http.v1'', ''mission.reconcile.http.v1'',
      ''mission.gates.read.http.v1'', ''mission.exceptions.read.http.v1'',
      ''mission.watch.sse.v1'', ''mission.watch.cursor.v1'',
      ''idempotency.key.v1'', ''idempotency.replay.v1'', ''concurrency.optimistic.v1'',
      ''receipt.verify.hash.v1'', ''approval.multi-signer.v1'', ''protocol.capabilities.v1'']"

record CapabilitiesResponse =
  cr_protocolVersion :: js_string
  cr_minimumClientVersion :: js_string
  cr_features :: "js_string list"
  cr_deprecatedFields :: "js_string list option"

definition getCapabilities :: CapabilitiesResponse where
  "getCapabilities =
     \<lparr>cr_protocolVersion = PROTOCOL_VERSION, cr_minimumClientVersion = MINIMUM_CLIENT_VERSION,
      cr_features = SUPPORTED_FEATURES, cr_deprecatedFields = None\<rparr>"

definition hasFeature :: "CapabilitiesResponse \<Rightarrow> js_string \<Rightarrow> bool" where
  "hasFeature capabilities feature \<longleftrightarrow> feature \<in> set (cr_features capabilities)"

text \<open>\<open>!==\<close> on numbers; infinities are equal, NaN is unequal to everything.\<close>

definition num_differs :: "js_number \<Rightarrow> js_number \<Rightarrow> bool" where
  "num_differs a b \<longleftrightarrow> a \<noteq> b \<or> a = NaN"

fun first_unequal :: "(js_number \<times> js_number) list \<Rightarrow> js_number" where
  "first_unequal [] = Fin 0"
| "first_unequal ((a, b) # ps) = (if num_differs a b then num_diff a b else first_unequal ps)"

definition part_count :: "js_string \<Rightarrow> nat" where
  "part_count v = length (split_on CHR ''.'' v)"

definition compareClientVersions :: "(js_string \<Rightarrow> js_number) \<Rightarrow> js_string \<Rightarrow> js_string \<Rightarrow> js_number" where
  "compareClientVersions num a b =
     first_unequal (map (\<lambda>i. (version_part num a i, version_part num b i)) [0..<max (part_count a) (part_count b)])"

text \<open>\<open>n >= 0\<close>\<close>

fun not_negative :: "js_number \<Rightarrow> bool" where
  "not_negative (Fin r) = (0 \<le> r)"
| "not_negative (Infinite negative) = (\<not> negative)"
| "not_negative NaN = False"

definition isClientCompatible :: "(js_string \<Rightarrow> js_number) \<Rightarrow> js_string \<Rightarrow> js_string \<Rightarrow> bool" where
  "isClientCompatible num client minimum \<longleftrightarrow> not_negative (compareClientVersions num client minimum)"

section \<open>Compatibility is an order on numeric versions\<close>

definition numeric_version :: "(js_string \<Rightarrow> js_number) \<Rightarrow> js_string \<Rightarrow> bool" where
  "numeric_version num v \<longleftrightarrow> NaN \<notin> js_Number num ` set (split_on CHR ''.'' v)"

definition padded :: "(js_string \<Rightarrow> js_number) \<Rightarrow> nat \<Rightarrow> js_string \<Rightarrow> js_number list" where
  "padded num n v = map (version_part num v) [0..<n]"

lemma length_padded [simp]: "length (padded num n v) = n"
  by (simp add: padded_def)

lemma padded_numbers: "numeric_version num v \<Longrightarrow> NaN \<notin> set (padded num n v)"
  by (auto simp: padded_def numeric_version_def version_part_def Let_def image_iff)

lemma first_unequal_append:
  "list_all (\<lambda>(a, b). \<not> num_differs a b) qs \<Longrightarrow> first_unequal (ps @ qs) = first_unequal ps"
proof (induction ps)
  case Nil
  then show ?case by (induction qs) auto
qed auto

lemma version_part_beyond: "part_count v \<le> i \<Longrightarrow> version_part num v i = Fin 0"
  by (simp add: version_part_def part_count_def Let_def)

text \<open>Missing parts count as 0, so that longer lists compare the same.\<close>

lemma compare_padded:
  assumes "part_count a \<le> n" and "part_count b \<le> n"
  shows "compareClientVersions num a b = first_unequal (zip (padded num n a) (padded num n b))"
proof -
  let ?m = "max (part_count a) (part_count b)"
  have "[0..<n] = [0..<?m] @ [?m..<n]" using assms by (metis le_add_diff_inverse max.bounded_iff upt_add_eq_append zero_le)
  then have "first_unequal (zip (padded num n a) (padded num n b)) =
      first_unequal (map (\<lambda>i. (version_part num a i, version_part num b i)) [0..<?m] @
        map (\<lambda>i. (version_part num a i, version_part num b i)) [?m..<n])"
    by (simp add: padded_def zip_map_map zip_same_conv_map comp_def)
  also have "\<dots> = first_unequal (map (\<lambda>i. (version_part num a i, version_part num b i)) [0..<?m])"
    by (rule first_unequal_append) (simp add: list_all_iff version_part_beyond num_differs_def)
  finally show ?thesis by (simp add: compareClientVersions_def)
qed

lemma first_unequal_swap:
  "length p = length q \<Longrightarrow> NaN \<notin> set p \<Longrightarrow> NaN \<notin> set q \<Longrightarrow>
     not_negative (first_unequal (zip p q)) \<or> not_negative (first_unequal (zip q p))"
proof (induction p q rule: list_induct2)
  case (Cons x xs y ys)
  then show ?case by (cases x; cases y) (auto simp: num_differs_def)
qed simp

lemma first_unequal_trans:
  "length p = length q \<Longrightarrow> length q = length r \<Longrightarrow> NaN \<notin> set p \<Longrightarrow> NaN \<notin> set q \<Longrightarrow> NaN \<notin> set r \<Longrightarrow>
     not_negative (first_unequal (zip p q)) \<Longrightarrow> not_negative (first_unequal (zip q r)) \<Longrightarrow>
     not_negative (first_unequal (zip p r))"
proof (induction p q r rule: list_induct3)
  case (Cons x xs y ys z zs)
  then show ?case by (cases x; cases y; cases z) (auto simp: num_differs_def split: if_splits)
qed simp

lemma first_unequal_refl: "NaN \<notin> set p \<Longrightarrow> first_unequal (zip p p) = Fin 0"
  by (induction p) (auto simp: num_differs_def)

text \<open>
  On versions whose parts are numbers, compatibility is a total preorder; a client whose first part
  is not a number is compatible with no server.
\<close>

lemma client_compatibility_is_an_order:
  assumes "numeric_version num a" and "numeric_version num b" and "numeric_version num c"
  shows "isClientCompatible num a a \<and> (isClientCompatible num a b \<or> isClientCompatible num b a) \<and>
    (isClientCompatible num a b \<longrightarrow> isClientCompatible num b c \<longrightarrow> isClientCompatible num a c)"
proof -
  let ?n = "max (part_count a) (max (part_count b) (part_count c))"
  have n: "part_count a \<le> ?n" "part_count b \<le> ?n" "part_count c \<le> ?n" by simp_all
  note c = compare_padded [OF n(1) n(1)] compare_padded [OF n(1) n(2)] compare_padded [OF n(2) n(1)]
    compare_padded [OF n(2) n(3)] compare_padded [OF n(1) n(3)]
  note p = padded_numbers [OF assms(1), of ?n] padded_numbers [OF assms(2), of ?n] padded_numbers [OF assms(3), of ?n]
  have "not_negative (first_unequal (zip (padded num ?n a) (padded num ?n a)))" using first_unequal_refl [OF p(1)] by simp
  moreover have "not_negative (first_unequal (zip (padded num ?n a) (padded num ?n b))) \<or>
      not_negative (first_unequal (zip (padded num ?n b) (padded num ?n a)))"
    by (rule first_unequal_swap) (simp_all add: p)
  moreover have "not_negative (first_unequal (zip (padded num ?n a) (padded num ?n b))) \<Longrightarrow>
      not_negative (first_unequal (zip (padded num ?n b) (padded num ?n c))) \<Longrightarrow>
      not_negative (first_unequal (zip (padded num ?n a) (padded num ?n c)))"
    by (rule first_unequal_trans [of _ "padded num ?n b"]) (simp_all add: p)
  ultimately show ?thesis unfolding isClientCompatible_def c by blast
qed

lemma malformed_client_is_incompatible:
  assumes "js_Number num (hd (split_on CHR ''.'' client)) = NaN"
  shows "\<not> isClientCompatible num client minimum"
proof -
  have ne: "split_on CHR ''.'' client \<noteq> []" by (rule split_on_nonempty)
  then have "0 < max (part_count client) (part_count minimum)" by (simp add: part_count_def less_max_iff_disj)
  moreover have "version_part num client 0 = NaN"
    using ne assms by (simp add: version_part_def Let_def hd_conv_nth)
  ultimately have "compareClientVersions num client minimum = NaN"
    by (simp add: compareClientVersions_def upt_conv_Cons num_differs_def)
  then show ?thesis by (simp add: isClientCompatible_def)
qed

end
