(* ===== verification/Review.thy ===== *)
theory Review
  imports Skill_Registry
begin

text \<open>
  \<^verbatim>\<open>review/lenses.ts\<close> and \<^verbatim>\<open>review/workload.ts\<close>: the choice of review lenses
  for a change and the forecast of its delivery. Counts of lines and files are integers; the texts of
  reasons are constructors. The descriptions of lenses and the workflow instructions are constant texts and left out.
\<close>

section \<open>Lenses\<close>

datatype ReviewLens = Review_risk | Review_resilience | Review_readability | Review_reliability | Judgment_day

definition FOUR_LENSES :: "ReviewLens list" where
  "FOUR_LENSES = [Review_risk, Review_resilience, Review_readability, Review_reliability]"

definition DEFAULT_HOT_PATHS :: "js_string list" where
  "DEFAULT_HOT_PATHS = [''auth'', ''security'', ''fiscal'', ''sunat'', ''compliance'', ''payments'', ''update'']"

definition starts_with :: "js_string \<Rightarrow> js_string \<Rightarrow> bool" where
  "starts_with s t \<longleftrightarrow> take (length t) s = t"

definition forward_slashes :: "js_string \<Rightarrow> js_string" where
  "forward_slashes s = map (\<lambda>c. if c = CHR 0x5C then CHR ''/'' else c) s"

definition isHotPath :: "js_string \<Rightarrow> js_string list option \<Rightarrow> bool" where
  "isHotPath filePath hotPaths \<longleftrightarrow>
     (let parts = split_on CHR ''/'' (to_lower (forward_slashes filePath));
          hot = (case hotPaths of None \<Rightarrow> DEFAULT_HOT_PATHS | Some hs \<Rightarrow> hs)
      in list_ex (\<lambda>hp. list_ex (\<lambda>seg. seg = hp \<or> starts_with seg (hp @ ''-'') \<or> starts_with seg (hp @ ''_'')) parts) hot)"

record LensSelectionInput =
  li_filePaths :: "js_string list"
  li_changedLines :: int
  li_isPreCommit :: bool
  li_isPrePR :: bool
  li_isPostSDDPhase :: bool
  li_hotPaths :: "js_string list option"
  li_lineThreshold :: "int option"

datatype lens_reason =
  Post_phase | Hot_and_large int int | Hot_path | Large int int | Small int | Pre_commit | Pre_push

record LensSelectionResult =
  lr_selectedLenses :: "ReviewLens list"
  lr_reason :: lens_reason
  lr_blocking :: bool

definition lens_result :: "ReviewLens list \<Rightarrow> lens_reason \<Rightarrow> bool \<Rightarrow> LensSelectionResult" where
  "lens_result lenses reason blocking = \<lparr>lr_selectedLenses = lenses, lr_reason = reason, lr_blocking = blocking\<rparr>"

definition selectReviewLenses :: "LensSelectionInput \<Rightarrow> LensSelectionResult" where
  "selectReviewLenses input =
     (let threshold = (case li_lineThreshold input of None \<Rightarrow> 400 | Some n \<Rightarrow> n); n = li_changedLines input
      in if li_isPostSDDPhase input then lens_result [Judgment_day] Post_phase True
         else if li_isPrePR input then
           (let hasHotPath = list_ex (\<lambda>fp. isHotPath fp (li_hotPaths input)) (li_filePaths input); isLarge = threshold < n
            in if hasHotPath \<or> isLarge then
                 lens_result FOUR_LENSES
                   (if hasHotPath \<and> isLarge then Hot_and_large n threshold
                    else if hasHotPath then Hot_path else Large n threshold) True
               else lens_result [Review_readability] (Small n) False)
         else lens_result [Review_readability] (if li_isPreCommit input then Pre_commit else Pre_push) False)"

section \<open>Workload\<close>

datatype DeliveryStrategy = Ask_on_risk | Auto_chain | Single_pr | Exception_ok

datatype workload_reason =
  Mechanical | Exceeds_and_critical | Exceeds_lines | Large_refactor | Critical_fresh | Low_risk

datatype reviewer_context = Fresh | Has_context

record WorkloadInput =
  wi_estimatedLines :: int
  wi_estimatedFiles :: int
  wi_affectedSubsystems :: "js_string list"
  wi_isMechanicalRefactor :: bool
  wi_isFiscalChange :: bool
  wi_reviewerContext :: reviewer_context

record ReviewWorkloadForecast =
  wf_estimatedLines :: int
  wf_estimatedFiles :: int
  wf_chainedPRsRecommended :: bool
  wf_deliveryStrategy :: DeliveryStrategy
  wf_decisionNeeded :: bool
  wf_reason :: workload_reason

definition LINE_THRESHOLD :: int where
  "LINE_THRESHOLD = 400"

definition CRITICAL_SUBSYSTEMS :: "js_string list" where
  "CRITICAL_SUBSYSTEMS = [''fiscal'', ''sunat'', ''compliance'', ''auth'', ''security'']"

definition touches_critical :: "WorkloadInput \<Rightarrow> bool" where
  "touches_critical input \<longleftrightarrow> list_ex (\<lambda>s. to_lower s \<in> set CRITICAL_SUBSYSTEMS) (wi_affectedSubsystems input)"

definition delivery :: "WorkloadInput \<Rightarrow> DeliveryStrategy \<times> bool \<times> bool \<times> workload_reason" where
  "delivery input =
     (let exceedsLineBudget = LINE_THRESHOLD < wi_estimatedLines input; touchesCritical = touches_critical input;
          isLargeRefactor = 2 < wi_estimatedFiles input \<and> \<not> wi_isMechanicalRefactor input
      in if wi_isMechanicalRefactor input \<and> wi_estimatedLines input \<le> 600 then (Exception_ok, False, False, Mechanical)
         else if exceedsLineBudget \<and> touchesCritical then (Ask_on_risk, True, True, Exceeds_and_critical)
         else if exceedsLineBudget then (Ask_on_risk, True, True, Exceeds_lines)
         else if isLargeRefactor then (Auto_chain, True, False, Large_refactor)
         else if touchesCritical \<and> wi_reviewerContext input = Fresh then (Ask_on_risk, False, False, Critical_fresh)
         else (Single_pr, False, False, Low_risk))"

definition forecastReviewWorkload :: "WorkloadInput \<Rightarrow> ReviewWorkloadForecast" where
  "forecastReviewWorkload input =
     (case delivery input of
        (strategy, chained, decision, reason) \<Rightarrow>
          \<lparr>wf_estimatedLines = wi_estimatedLines input, wf_estimatedFiles = wi_estimatedFiles input,
           wf_chainedPRsRecommended = chained, wf_deliveryStrategy = strategy, wf_decisionNeeded = decision,
           wf_reason = reason\<rparr>)"

section \<open>When a change is blocked or needs a decision\<close>

text \<open>The case of letters and the kind of slashes do not hide a hot path.\<close>

lemma lower_lower [simp]: "lower_char (lower_char c) = lower_char c"
  by (simp add: lower_char_def code_unit_def Let_def)

lemma hot_path_ignores_case:
  "isHotPath (to_lower (forward_slashes p)) hot = isHotPath p hot"
proof -
  have "lower_char c \<noteq> CHR 0x5C" if "c \<noteq> CHR 0x5C" for c
    using that by (auto simp: lower_char_def code_unit_def Let_def dest!: arg_cong [of _ _ "of_char :: char \<Rightarrow> nat"])
  then have "to_lower (forward_slashes (to_lower (forward_slashes p))) = to_lower (forward_slashes p)"
    by (auto simp: to_lower_def forward_slashes_def)
  then show ?thesis by (simp add: isHotPath_def)
qed

text \<open>
  A more invasive change is never reviewed by less: more lines, more hot files and a later phase keep
  a selection blocking; and the four lenses are chosen exactly for a hot or large change before its PR.
\<close>

lemma review_is_monotone:
  assumes "li_changedLines a \<le> li_changedLines b" and "set (li_filePaths a) \<subseteq> set (li_filePaths b)"
    and "li_hotPaths a = li_hotPaths b" and "li_lineThreshold a = li_lineThreshold b"
    and "li_isPrePR a \<longrightarrow> li_isPrePR b" and "li_isPostSDDPhase a \<longrightarrow> li_isPostSDDPhase b"
    and "lr_blocking (selectReviewLenses a)"
  shows "lr_blocking (selectReviewLenses b)"
  using assms by (auto simp: selectReviewLenses_def lens_result_def Let_def list_ex_iff split: if_splits)

text \<open>The forecast never reads whether the change is fiscal.\<close>

lemma fiscal_flag_is_ignored:
  "forecastReviewWorkload (input\<lparr>wi_isFiscalChange := b\<rparr>) = forecastReviewWorkload input"
  by (simp add: forecastReviewWorkload_def delivery_def touches_critical_def Let_def)

end
