(* ===== verification/Spec2Isabelle.thy ===== *)
theory Spec2Isabelle
  imports Agents Recovery Outbox Ledger Journal Gates Annual_Declaration Bank_Reconciliation
    Cdr_Successor Flow_Close Work_Units Skill_Pinning Managed_Install Promoted Mcp_Tools Postgres_Store
    File_Store Sanitize Versioning Review Projection
begin

text \<open>
  Drenyra AI, the receipt-driven accounting core: a TypeScript library and command line in which
  agents propose accounting work as \<^emph>\<open>candidates\<close>, people and gates approve it, and what happened is
  kept as durable missions, signed receipts and a hash-linked ledger.

  \<^bold>\<open>How the parts interact.\<close> A mission (\<^verbatim>\<open>missions/\<close>) is a snapshot with a status, a version and an
  append-only log of events, changed only by the commands of the runtime under an idempotency key, an
  expected version and a fence token. The agents (\<^verbatim>\<open>agents/\<close>) are the handlers the runtime calls for an
  execute, approve or reconcile command; \<^verbatim>\<open>recovery/\<close> decides what a restart does with a mission.
  Evidence enters through \<^verbatim>\<open>adapters/\<close>, is bound to a tenant scope (\<^verbatim>\<open>tenant-core/\<close>,
  \<^verbatim>\<open>tenant-isolation/\<close>) and to its content hash (\<^verbatim>\<open>evidence/\<close>). The calculation engines
  (\<^verbatim>\<open>close-calculations/\<close>, \<^verbatim>\<open>annual-declaration/\<close>, \<^verbatim>\<open>bank-reconciliation/\<close>) produce balanced entries
  and differences, which the flows (\<^verbatim>\<open>flow/\<close>, \<^verbatim>\<open>fiscal/\<close>, \<^verbatim>\<open>cdr/\<close>) turn into candidates
  (\<^verbatim>\<open>candidates/\<close>), audited by the Guardian (\<^verbatim>\<open>guardian/\<close>), authorized by roles
  (\<^verbatim>\<open>authorization/\<close>), checked by \<^verbatim>\<open>gates/\<close> and recorded in \<^verbatim>\<open>journal/\<close>, \<^verbatim>\<open>receipts/\<close> and
  \<^verbatim>\<open>ledger/\<close>. Work is routed and bounded by \<^verbatim>\<open>routing/\<close>, reviewed as \<^verbatim>\<open>review/\<close> says, governed by
  versioned, signed and pinned skills (\<^verbatim>\<open>skills/\<close>) and by \<^verbatim>\<open>policy/\<close>. The configurator
  (\<^verbatim>\<open>configurator/\<close>, \<^verbatim>\<open>cmd/commands/\<close>) manages files in the homes of host programs; \<^verbatim>\<open>mcp/\<close>
  serves tools to them.

  \<^bold>\<open>Theories.\<close> In the order of the code's layers:

  \<^item> \<^verbatim>\<open>Prelude\<close>, \<^verbatim>\<open>Js_Value\<close>: JavaScript values, numbers, texts and calls of the library; canonical JSON.
  \<^item> \<^verbatim>\<open>Mission_Status\<close>, \<^verbatim>\<open>Mission_Store\<close>, \<^verbatim>\<open>Fencing\<close>, \<^verbatim>\<open>Outbox\<close>, \<^verbatim>\<open>External_Reconciliation\<close>,
    \<^verbatim>\<open>Mission_Runtime\<close>: \<^verbatim>\<open>missions/\<close>, one operation per definition. \<^verbatim>\<open>Runtime_Log\<close>,
    \<^verbatim>\<open>Runtime_Properties\<close> and \<^verbatim>\<open>Runtime_Commands\<close> hold the step relation over all commands, its
    invariants and the properties of single commands. \<^verbatim>\<open>Postgres_Store\<close> is \<^verbatim>\<open>missions/store.postgres.ts\<close>,
    \<^verbatim>\<open>File_Store\<close> the JSON file of \<^verbatim>\<open>cmd/adapters/\<close>, \<^verbatim>\<open>Versioning\<close> \<^verbatim>\<open>missions/versioning.ts\<close>.
  \<^item> \<^verbatim>\<open>Agents\<close>, \<^verbatim>\<open>Recovery\<close>, \<^verbatim>\<open>Projection\<close>: \<^verbatim>\<open>agents/\<close>, \<^verbatim>\<open>recovery/\<close>, \<^verbatim>\<open>projection/\<close>.
  \<^item> \<^verbatim>\<open>Tenant\<close>, \<^verbatim>\<open>Evidence\<close>, \<^verbatim>\<open>Adapters\<close>, \<^verbatim>\<open>Sanitize\<close>: scopes, evidence, adapters and
    \<^verbatim>\<open>security/sanitize.ts\<close>.
  \<^item> \<^verbatim>\<open>Candidates\<close>, \<^verbatim>\<open>Authorization\<close>, \<^verbatim>\<open>Gates\<close>, \<^verbatim>\<open>Guardian\<close>, \<^verbatim>\<open>Policy_Fiscal\<close>, \<^verbatim>\<open>Review\<close>: proposals and their approval.
  \<^item> \<^verbatim>\<open>Journal\<close>, \<^verbatim>\<open>Receipts\<close>, \<^verbatim>\<open>Ledger\<close>: the records.
  \<^item> \<^verbatim>\<open>Close_Calculations\<close>, \<^verbatim>\<open>Annual_Declaration\<close>, \<^verbatim>\<open>Bank_Reconciliation\<close>: the engines.
  \<^item> \<^verbatim>\<open>Flow_Wiring\<close>, \<^verbatim>\<open>Flow_Close\<close>, \<^verbatim>\<open>Cdr_Successor\<close>: the flows that compose them.
  \<^item> \<^verbatim>\<open>Router\<close>, \<^verbatim>\<open>Work_Units\<close>: \<^verbatim>\<open>routing/\<close>.
  \<^item> \<^verbatim>\<open>Skill_Registry\<close>, \<^verbatim>\<open>Skill_Signature\<close>, \<^verbatim>\<open>Skill_Pinning\<close>: \<^verbatim>\<open>skills/\<close>.
  \<^item> \<^verbatim>\<open>Host_Files\<close>, \<^verbatim>\<open>Managed_Config\<close>, \<^verbatim>\<open>Managed_Commit\<close>, \<^verbatim>\<open>Managed_Transitions\<close>, \<^verbatim>\<open>Managed_Rollback\<close>,
    \<^verbatim>\<open>Managed_Install\<close>, \<^verbatim>\<open>Promoted\<close>: \<^verbatim>\<open>configurator/\<close> and the commands install, sync and doctor, over a file
    system whose calls may fail or end the process at any point.
  \<^item> \<^verbatim>\<open>Mcp_Server\<close>, \<^verbatim>\<open>Mcp_Tools\<close>: \<^verbatim>\<open>mcp/\<close>.

  \<^bold>\<open>Correspondence.\<close> A definition has the name of its function, with a prefix or suffix where the
  name is taken; classes and interfaces are records or maps with one function per method that takes
  and returns the state; enumerations and unions are datatypes; a raise is \<open>Inl\<close> of an error, a
  rejected promise likewise. Amounts in cents are BigInt, hence \<open>int\<close>. Strings are lists of code units below
  256. Untyped input (\<open>unknown\<close>) is \<open>js_value\<close> or \<open>json\<close> and is checked by the code's own guards. Texts
  of messages are constructors, unless the code compares, hashes or answers them.

  \<^bold>\<open>Parameters.\<close> What is not code of the repository is an argument: SHA-256, Ed25519 and base64
  keys, \<open>JSON.parse\<close>, \<open>localeCompare\<close>, \<open>Date.parse\<close> and the time zone of PostgreSQL, the decimal text of a
  number that is not an integer, \<open>Number\<close> of unusual texts, the clock, random identifiers, the
  external resolver, and the behaviour of the file system. What a theorem needs of them is a
  hypothesis of the theorem (a hash has 64 hexadecimal digits, a parse inverts the text it was
  written as, two given texts do not collide), and its witness instantiates it.

  \<^bold>\<open>Interfaces.\<close> The locales \<open>mission_store\<close>, \<open>mission_event_store\<close>, \<open>idempotency_store\<close> and
  \<open>fence_store\<close> state what the runtime relies on; the classes in memory interpret them, and the tables of
  PostgreSQL those they satisfy (the table of idempotency records does not: see
  \<open>reused_key_keeps_the_first_hash\<close>). \<open>mission_log\<close> couples snapshots and events, \<open>close_producer\<close> is what
  the close report relies on (interpreted by the three engines), \<open>candidate_port\<close> what the fiscal flow
  relies on, \<open>mission_port_run\<close> what the successor composition relies on.

  \<^bold>\<open>What is shown.\<close>

  \<^item> Missions: in every reachable state the log is the gapless history of the snapshot along the
    transition matrix, and of the recoveries with an explicit list of states, which the code writes
    unchecked (the set \<open>P\<close> of the step relation holds the states such lists name); histories only grow;
    a command commits one version or leaves snapshots, events and fence tokens as they were, and
    records its outcome under its own key; a key executes once while its record lives; a superseded
    worker cannot write; replay of the log recovers the snapshot; with the program's agents a completed
    mission ends in an approval or in a reconcile command on an UNKNOWN mission, which the code does
    not ask evidence for. Outbox: no identity is delivered twice in a fair run, in memory and in the
    database, where the messages are the same but for their time stamps, which are read as dates.
  \<^item> Records: exactly which ledgers, journal entries, receipts, pins, skills and work units are
    accepted, what they are then bound to, and what a change of protected content leads to.
  \<^item> Engines and flows: the entries of the close balance and its report moves retained earnings by
    the closing line; the RUC check digit misses exactly the stated errors; a bank answer accounts for
    each row; compositions of flows are runs of the components.
  \<^item> Configuration: a transition commits all of its files or restores them, a rollback undoes an
    upgrade, install and sync leave existing files alone, whichever call fails.
  \<^item> Where the code does not do what it says, a theorem states what it does: the first successor
    composition is always rejected, receipts of a close state an acceptance that did not happen, a
    reused key in the database keeps the first hash, integrity is up to hex decoding.

  \<^bold>\<open>Bounds and fuel.\<close> No definition takes fuel: loops are structural recursions, have a measure, or,
  for the walk to the package root, are a \<open>partial_function\<close> whose termination is a theorem (the number of
  directories it compares with, two more than the length of the path, only bounds the list of ancestors
  there). A number that may be any JavaScript number is a \<open>js_number\<close>, and its theory says where
  doubles round; version and sequence numbers are exact integers, as the protocol documents them, and so below 2 to the 53.

  \<^bold>\<open>Not modelled.\<close> Printing, the audit log's sinks, reading the arguments of the process and the exit of
  the process; environment variables and secrets (\<^verbatim>\<open>security/keys.ts\<close> only reads them); the
  validation of documents by the ajv library; index files, which only re-export. The scripts of the build and the
  release (\<^verbatim>\<open>scripts/\<close>), the drawings of \<^verbatim>\<open>scripts/docs-visuals/\<close> and the mock interface of
  \<^verbatim>\<open>frontend-prototype/\<close> are not part of the core. Interleaving inside one call is not modelled: a
  call of an operation is one step, as in one process with the stores in memory; competing workers are
  sequences of such steps. The concrete tables of Peruvian skills and the descriptions of review lenses are
  constant texts.
\<close>

end
